(* ===== verification/Prelude.thy ===== *)
theory Prelude
  imports Main "HOL-Library.Word"
begin

text \<open>
  What every component of the development shares: the Python exceptions the modelled code
  raises, the state-and-exception shape of a Python method, the integer masks and shifts the
  code is written with, and the locale in which a state invariant of such methods is proved.

  Python integers are unbounded, so they are \<^typ>\<open>int\<close>; \<open>&\<close>, \<open>|\<close>, \<open>^\<close>, \<open>~\<close> are the bit
  operations of \<^typ>\<open>int\<close> (two's complement, as in Python), \<open><<\<close> is \<open>push_bit\<close> and
  \<open>>>\<close> is \<open>drop_bit\<close>.  Each mask the code writes is written in the model too.
\<close>

unbundle bit_operations_syntax

named_theorems mask_simps \<open>masks and shifts of the code as div and mod\<close>
named_theorems wf_intros \<open>introduction rules of the range invariants\<close>

section \<open>Exceptions\<close>

datatype exn =
    UnsupportedInstruction | HaltExecution | UnsupportedEgaWriteMode
  | RuntimeExecutionFrontier | PyIndexError | PyKeyError | PyMemoryError | PyValueError
  | PyTypeError | PyZeroDivisionError | PyOverflowError | PyRuntimeError | PyAssertionError
  | PyAttributeError | PyStructError | UnsupportedVGAOperation | ConsoleInputWouldBlock | UnmodeledPortRead | RegionHandoff string string

section \<open>Methods: state passing with exceptions\<close>

text \<open>
  A Python method that mutates an object of type \<open>'s\<close> and may raise: the state after the call
  is returned in both cases, because a Python exception does not roll back the mutations made
  before it.
\<close>

type_synonym ('s, 'a) meth = "'s \<Rightarrow> (exn + 'a) \<times> 's"

definition ret :: "'a \<Rightarrow> ('s, 'a) meth" where
  "ret x = (\<lambda>s. (Inr x, s))"

definition raise :: "exn \<Rightarrow> ('s, 'a) meth" where
  "raise e = (\<lambda>s. (Inl e, s))"

definition bindM :: "('s, 'a) meth \<Rightarrow> ('a \<Rightarrow> ('s, 'b) meth) \<Rightarrow> ('s, 'b) meth" where
  "bindM m f = (\<lambda>s. case m s of (Inl e, s') \<Rightarrow> (Inl e, s') | (Inr x, s') \<Rightarrow> f x s')"

definition thenM :: "('s, 'a) meth \<Rightarrow> ('s, 'b) meth \<Rightarrow> ('s, 'b) meth" where
  "thenM m k = bindM m (\<lambda>_. k)"

definition getM :: "('s \<Rightarrow> 'a) \<Rightarrow> ('s, 'a) meth" where
  "getM f = (\<lambda>s. (Inr (f s), s))"

definition putM :: "('s \<Rightarrow> 's) \<Rightarrow> ('s, unit) meth" where
  "putM f = (\<lambda>s. (Inr (), f s))"

text \<open>\<open>finallyM m f\<close>: Python's \<open>try: m finally: f\<close> for an \<open>f\<close> that does not raise.\<close>

definition finallyM :: "('s, 'a) meth \<Rightarrow> ('s \<Rightarrow> 's) \<Rightarrow> ('s, 'a) meth" where
  "finallyM m f = (\<lambda>s. case m s of (r, s') \<Rightarrow> (r, f s'))"

text \<open>\<open>seqM ms\<close>: the statements of a \<open>for\<close> loop over a fixed sequence, in order.\<close>

primrec seqM :: "('s, unit) meth list \<Rightarrow> ('s, unit) meth" where
  "seqM [] = ret ()"
| "seqM (m # ms) = thenM m (seqM ms)"

lemma ret_app [simp]: "ret x s = (Inr x, s)"
  by (simp add: ret_def)

lemma raise_app [simp]: "raise e s = (Inl e, s)"
  by (simp add: raise_def)

lemma getM_app [simp]: "getM f s = (Inr (f s), s)"
  by (simp add: getM_def)

lemma putM_app [simp]: "putM f s = (Inr (), f s)"
  by (simp add: putM_def)

lemma bindM_ret [simp]: "bindM (ret x) f = f x"
  by (simp add: bindM_def ret_def)

lemma bindM_raise [simp]: "bindM (raise e) f = raise e"
  by (simp add: bindM_def raise_def)

lemma bindM_Inr [simp]: "m s = (Inr x, s') \<Longrightarrow> bindM m f s = f x s'"
  by (simp add: bindM_def)

lemma bindM_False [simp]: "m s = (Inr False, s') \<Longrightarrow> bindM m f s = f False s'"
  by simp

lemma bindM_Inl [simp]: "m s = (Inl e, s') \<Longrightarrow> bindM m f s = (Inl e, s')"
  by (simp add: bindM_def)

lemma thenM_Inr [simp]: "m s = (Inr x, s') \<Longrightarrow> thenM m k s = k s'"
  by (simp add: thenM_def)

lemma thenM_Inl [simp]: "m s = (Inl e, s') \<Longrightarrow> thenM m k s = (Inl e, s')"
  by (simp add: thenM_def)

lemma bindM_InrD:
  assumes "bindM m f s = (Inr y, s'')"
  obtains x s' where "m s = (Inr x, s')" and "f x s' = (Inr y, s'')"
  using assms by (auto simp: bindM_def split: prod.splits sum.splits)

lemma bindM_assoc: "bindM (bindM m f) g = bindM m (\<lambda>x. bindM (f x) g)"
  by (rule ext) (simp add: bindM_def split: prod.splits sum.splits)

lemma seqM_append: "seqM (ms @ ns) = thenM (seqM ms) (seqM ns)"
  by (induction ms) (simp_all add: thenM_def bindM_assoc)

text \<open>A result that is an exception or a value, as a method; a generator's values, in order, of
  which nothing is kept when one raises.\<close>

definition lift_exn :: "exn + 'a \<Rightarrow> ('s, 'a) meth" where
  "lift_exn r = (case r of Inl e \<Rightarrow> raise e | Inr x \<Rightarrow> ret x)"

primrec mapM :: "('a \<Rightarrow> ('s, 'b) meth) \<Rightarrow> 'a list \<Rightarrow> ('s, 'b list) meth" where
  "mapM f [] = ret []"
| "mapM f (x # xs) = bindM (f x) (\<lambda>y. bindM (mapM f xs) (\<lambda>ys. ret (y # ys)))"

section \<open>Python sequences\<close>

text \<open>A slice \<open>xs[i:j]\<close> with \<open>0 \<le> i\<close>, \<open>0 \<le> j\<close>: never raises, clips to the length.\<close>

definition py_slice :: "'a list \<Rightarrow> int \<Rightarrow> int \<Rightarrow> 'a list" where
  "py_slice xs i j = take (nat j - nat i) (drop (nat i) xs)"

text \<open>\<open>PARITY\<close> and other lookups index a literal table with an index the code has masked.\<close>

definition b2i :: "bool \<Rightarrow> int" where
  "b2i b = (if b then 1 else 0)"

lemma b2i_simps [simp]: "b2i True = 1" "b2i False = 0"
  by (simp_all add: b2i_def)

section \<open>Masks and shifts\<close>

lemma and_mask_mod: "(x::int) AND (2 ^ n - 1) = x mod 2 ^ n"
  unfolding mask_eq_exp_minus_1 [symmetric] take_bit_eq_mask [symmetric] take_bit_eq_mod ..

lemma and_maskI: "m = 2 ^ n - 1 \<Longrightarrow> k = 2 ^ n \<Longrightarrow> (x::int) AND m = x mod k"
  by (simp only: and_mask_mod)

lemma and_consts [mask_simps]:
  "(x::int) AND 1 = x mod 2"
  "x AND 3 = x mod 4"
  "x AND 7 = x mod 8"
  "x AND 15 = x mod 16"
  "x AND 31 = x mod 32"
  "x AND 255 = x mod 256"
  "x AND 4095 = x mod 4096"
  "x AND 65535 = x mod 65536"
  "x AND 1048575 = x mod 1048576"
  "x AND 4294967295 = x mod 4294967296"
  by (rule and_maskI [where n = 1] and_maskI [where n = 2] and_maskI [where n = 3]
        and_maskI [where n = 4] and_maskI [where n = 5] and_maskI [where n = 8]
        and_maskI [where n = 12] and_maskI [where n = 16] and_maskI [where n = 20]
        and_maskI [where n = 32], simp, simp)+

lemma shift_div_mult [mask_simps]:
  "drop_bit n (x::int) = x div 2 ^ n"
  "push_bit n (x::int) = x * 2 ^ n"
  by (simp_all add: drop_bit_eq_div push_bit_eq_mult)

text \<open>\<open>lo | (hi << 8)\<close> of two bytes is their little-endian value.\<close>

lemma or_push_bit:
  assumes "0 \<le> (lo::int)" and "lo < 2 ^ n"
  shows "lo OR push_bit n hi = lo + hi * 2 ^ n"
proof -
  have "lo AND push_bit n hi = 0"
  proof (rule bit_eqI)
    fix k
    have "take_bit n lo = lo"
      using assms by (simp add: take_bit_int_eq_self)
    then have "bit lo k \<Longrightarrow> k < n"
      by (metis bit_take_bit_iff)
    then show "bit (lo AND push_bit n hi) k = bit 0 k"
      by (auto simp: bit_and_iff bit_push_bit_iff)
  qed
  then show ?thesis
    by (simp add: disjunctive_add_eq_or push_bit_eq_mult [symmetric])
qed

lemma or_bytes [mask_simps]:
  "0 \<le> (lo::int) \<Longrightarrow> lo < 256 \<Longrightarrow> lo OR push_bit 8 hi = lo + hi * 256"
  using or_push_bit [of lo 8 hi] by simp

lemma or_words [mask_simps]:
  "0 \<le> (lo::int) \<Longrightarrow> lo < 65536 \<Longrightarrow> lo OR push_bit 16 hi = lo + hi * 65536"
  using or_push_bit [of lo 16 hi] by simp

lemma or_lt_exp:
  assumes "0 \<le> (x::int)" "0 \<le> y" "x < 2 ^ n" "y < 2 ^ n"
  shows "x OR y < 2 ^ n"
proof -
  have "take_bit n (x OR y) = x OR y"
    using assms by (simp add: take_bit_or take_bit_int_eq_self)
  then show ?thesis
    by (metis take_bit_int_less_exp)
qed

lemma xor_lt_exp:
  assumes "0 \<le> (x::int)" "0 \<le> y" "x < 2 ^ n" "y < 2 ^ n"
  shows "x XOR y < 2 ^ n"
proof -
  have "take_bit n (x XOR y) = x XOR y"
    using assms by (simp add: take_bit_xor take_bit_int_eq_self)
  then show ?thesis
    by (metis take_bit_int_less_exp)
qed

lemma and_le_left: "0 \<le> (x::int) \<Longrightarrow> x AND y \<le> x"
  by (rule AND_upper1)

lemma and_le_right: "0 \<le> (y::int) \<Longrightarrow> x AND y \<le> y"
  by (rule AND_upper2)

text \<open>A test of one bit of the flags word.\<close>

lemma and_exp_ne_0: "(x::int) AND 2 ^ n \<noteq> 0 \<longleftrightarrow> bit x n"
  by (simp add: and_exp_eq_0_iff_not_bit)

section \<open>Ranges\<close>

definition u8 :: "int \<Rightarrow> bool" where
  "u8 v \<longleftrightarrow> 0 \<le> v \<and> v < 256"

definition u16 :: "int \<Rightarrow> bool" where
  "u16 v \<longleftrightarrow> 0 \<le> v \<and> v < 65536"

lemma u8_u16: "u8 v \<Longrightarrow> u16 v"
  by (simp add: u8_def u16_def)

lemma u16_mask [wf_intros, simp]: "u16 (v AND 65535)"
  by (simp add: u16_def mask_simps)

lemma u8_mask [wf_intros, simp]: "u8 (v AND 255)"
  by (simp add: u8_def mask_simps)

lemma u16_or [wf_intros]: "u16 x \<Longrightarrow> u16 y \<Longrightarrow> u16 (x OR y)"
  using or_lt_exp [of x y 16] by (simp add: u16_def)

lemma u16_bytes [wf_intros]: "u8 lo \<Longrightarrow> u8 hi \<Longrightarrow> u16 (lo OR push_bit 8 hi)"
  by (simp add: u8_def u16_def or_bytes)

lemma u16_and [wf_intros]: "u16 x \<Longrightarrow> u16 (x AND y)"
  using and_le_left [of x y] by (simp add: u16_def)

lemma u16_and2 [wf_intros]: "u16 y \<Longrightarrow> u16 (x AND y)"
  using and_le_right [of y x] by (simp add: u16_def)

lemma u16_id: "u16 v \<Longrightarrow> v AND 65535 = v"
  by (simp add: u16_def mask_simps)

lemma u8_id: "u8 v \<Longrightarrow> v AND 255 = v"
  by (simp add: u8_def mask_simps)

section \<open>Invariants of methods\<close>

text \<open>
  A state invariant \<open>I\<close> and the methods that keep it, also when they raise.  \<open>keeps m Q\<close>: from
  a state with \<open>I\<close>, the method ends in one, and a value it returns satisfies \<open>Q\<close>.  The rules
  follow the way methods are composed, so that a method's invariant is proved along its text.
\<close>

locale state_invariant =
  fixes I :: "'s \<Rightarrow> bool"
begin

definition keeps :: "('s, 'a) meth \<Rightarrow> ('a \<Rightarrow> bool) \<Rightarrow> bool" where
  "keeps m Q \<longleftrightarrow> (\<forall>s. I s \<longrightarrow> I (snd (m s)) \<and> (\<forall>x. fst (m s) = Inr x \<longrightarrow> Q x))"

lemma keepsI:
  "(\<And>s. I s \<Longrightarrow> I (snd (m s))) \<Longrightarrow> (\<And>s x. I s \<Longrightarrow> fst (m s) = Inr x \<Longrightarrow> Q x) \<Longrightarrow> keeps m Q"
  by (simp add: keeps_def)

lemma keepsD: "keeps m Q \<Longrightarrow> I s \<Longrightarrow> I (snd (m s))"
  by (simp add: keeps_def)

lemma keeps_value: "keeps m Q \<Longrightarrow> I s \<Longrightarrow> m s = (Inr x, s') \<Longrightarrow> Q x"
  by (auto simp: keeps_def)

lemma keeps_ret: "Q x \<Longrightarrow> keeps (ret x) Q"
  by (simp add: keeps_def)

lemma keeps_ret_True: "keeps (ret x) (\<lambda>_. True)"
  by (simp add: keeps_def)

lemma keeps_raise: "keeps (raise e) Q"
  by (simp add: keeps_def)

lemma keeps_getM: "(\<And>s. I s \<Longrightarrow> Q (f s)) \<Longrightarrow> keeps (getM f) Q"
  by (simp add: keeps_def)

lemma keeps_putM: "(\<And>s. I s \<Longrightarrow> I (f s)) \<Longrightarrow> keeps (putM f) (\<lambda>_. True)"
  by (simp add: keeps_def)

lemma keeps_bindM:
  assumes "keeps m P" and "\<And>x. P x \<Longrightarrow> keeps (f x) Q"
  shows "keeps (bindM m f) Q"
  using assms by (fastforce simp: keeps_def bindM_def split: prod.splits sum.splits)

lemma keeps_bindM_any: "keeps m (\<lambda>_. True) \<Longrightarrow> (\<And>x. keeps (f x) Q) \<Longrightarrow> keeps (bindM m f) Q"
  by (rule keeps_bindM)

lemma keeps_thenM: "keeps m (\<lambda>_. True) \<Longrightarrow> keeps k Q \<Longrightarrow> keeps (thenM m k) Q"
  unfolding thenM_def by (rule keeps_bindM)

lemma keeps_weaken: "keeps m P \<Longrightarrow> (\<And>x. P x \<Longrightarrow> Q x) \<Longrightarrow> keeps m Q"
  by (auto simp: keeps_def)

lemma keeps_True: "keeps m P \<Longrightarrow> keeps m (\<lambda>_. True)"
  by (simp add: keeps_def)

lemma keeps_if: "(b \<Longrightarrow> keeps m Q) \<Longrightarrow> (\<not> b \<Longrightarrow> keeps k Q) \<Longrightarrow> keeps (if b then m else k) Q"
  by simp

lemma keeps_finallyM:
  "keeps m Q \<Longrightarrow> (\<And>s. I s \<Longrightarrow> I (f s)) \<Longrightarrow> keeps (finallyM m f) Q"
  by (auto simp: keeps_def finallyM_def split: prod.splits)

lemma keeps_seqM: "(\<And>m. m \<in> set ms \<Longrightarrow> keeps m (\<lambda>_. True)) \<Longrightarrow> keeps (seqM ms) (\<lambda>_. True)"
  by (induction ms) (auto intro!: keeps_ret keeps_thenM)

lemma keeps_seqM_map: "(\<And>x. keeps (f x) (\<lambda>_. True)) \<Longrightarrow> keeps (seqM (map f xs)) (\<lambda>_. True)"
  by (rule keeps_seqM) auto

lemma keeps_thenM': "keeps m P \<Longrightarrow> keeps k Q \<Longrightarrow> keeps (thenM m k) Q"
  by (rule keeps_thenM [OF keeps_True])

text \<open>Rules that find the postcondition of a first part: tried before the general ones.\<close>

lemma keeps_ret_eq: "keeps (ret x) (\<lambda>y. y = x)"
  by (simp add: keeps_def)

lemma keeps_raise_False: "keeps (raise e) (\<lambda>_. False)"
  by (simp add: keeps_def)

lemma keeps_getM_eq: "keeps (getM f) (\<lambda>y. \<exists>s. I s \<and> y = f s)"
  by (auto simp: keeps_def)

lemma keeps_if_or:
  "keeps m P \<Longrightarrow> keeps k P' \<Longrightarrow> keeps (if b then m else k) (\<lambda>x. P x \<or> P' x)"
  by (auto simp: keeps_def)

lemma keeps_case_prod:
  "(\<And>a b. x = (a, b) \<Longrightarrow> keeps (f a b) Q) \<Longrightarrow> keeps (case x of (a, b) \<Rightarrow> f a b) Q"
  by (cases x) simp

lemma keeps_case_option:
  "(x = None \<Longrightarrow> keeps m Q) \<Longrightarrow> (\<And>y. x = Some y \<Longrightarrow> keeps (f y) Q) \<Longrightarrow>
   keeps (case x of None \<Rightarrow> m | Some y \<Rightarrow> f y) Q"
  by (cases x) simp_all

lemma keeps_seqM_Nil: "keeps (seqM []) (\<lambda>_. True)"
  by (simp add: keeps_ret)

lemma keeps_seqM_Cons:
  "keeps m P \<Longrightarrow> keeps (seqM ms) (\<lambda>_. True) \<Longrightarrow> keeps (seqM (m # ms)) (\<lambda>_. True)"
  by (simp add: keeps_thenM')

lemma keeps_conj: "keeps m P \<Longrightarrow> keeps m Q \<Longrightarrow> keeps m (\<lambda>x. P x \<and> Q x)"
  by (simp add: keeps_def)

lemma keeps_seqM_replicate: "keeps m P \<Longrightarrow> keeps (seqM (replicate k m)) (\<lambda>_. True)"
  by (rule keeps_seqM) (auto dest: keeps_True split: if_splits)

lemmas keeps_rules = keeps_ret_eq keeps_raise_False keeps_getM_eq keeps_if_or keeps_ret keeps_raise
  keeps_bindM keeps_thenM' keeps_if keeps_case_prod keeps_case_option keeps_seqM_Nil keeps_seqM_Cons
  keeps_seqM_map keeps_seqM_replicate

end

end
