(* ===== verification/X86.thy ===== *)
theory X86
  imports Prelude
begin

text \<open>
  \<open>dos_re/x86.py\<close>: the FLAGS bits, the parity table and the register file \<open>CPUState\<close>.
  A field holds the Python integer the code stores; that each stays in its machine width is
  proved of the operations (theory \<open>CPU_Wf\<close>), not built into the type.  An x87 register is a
  Python float, that is an IEEE double, kept as its 64 bits.
\<close>

section \<open>FLAGS\<close>

definition CF :: int where "CF = 0x0001"
definition PF :: int where "PF = 0x0004"
definition AF :: int where "AF = 0x0010"
definition ZF :: int where "ZF = 0x0040"
definition SF :: int where "SF = 0x0080"
definition TF :: int where "TF = 0x0100"
definition IF :: int where "IF = 0x0200"
definition DF :: int where "DF = 0x0400"
definition OF :: int where "OF = 0x0800"

lemmas flag_defs = CF_def PF_def AF_def ZF_def SF_def TF_def IF_def DF_def OF_def

lemma flag_exps:
  "CF = 2 ^ 0" "PF = 2 ^ 2" "AF = 2 ^ 4" "ZF = 2 ^ 6" "SF = 2 ^ 7" "TF = 2 ^ 8" "IF = 2 ^ 9"
  "DF = 2 ^ 10" "OF = 2 ^ 11"
  by (simp_all add: flag_defs)

text \<open>\<open>PARITY[i]\<close> for \<open>i\<close> in \<open>range(256)\<close>: whether the number of 1 bits of \<open>i\<close> is even.\<close>

definition PARITY :: "int \<Rightarrow> bool" where
  "PARITY i \<longleftrightarrow> length (filter (bit i) [0..<8]) mod 2 = 0"

section \<open>The register file\<close>

type_synonym f64 = "64 word"

record CPUState =
  ax :: int
  bx :: int
  cx :: int
  dx :: int
  sp :: int
  bp :: int
  si :: int
  di :: int
  cs :: int
  ds :: int
  es :: int
  ss :: int
  ip :: int
  flags :: int
  fst_stack :: "f64 list"   \<comment> \<open>\<open>fst\<close>; the code keeps ST(0) last, so is it here\<close>
  fsw :: int
  fcw :: int

definition CPUState_init :: CPUState where
  "CPUState_init = \<lparr>ax = 0, bx = 0, cx = 0, dx = 0, sp = 0, bp = 0, si = 0, di = 0, cs = 0,
     ds = 0, es = 0, ss = 0, ip = 0, flags = 0x0202, fst_stack = [], fsw = 0, fcw = 0x037F\<rparr>"

end
