(* ===== verification/Mem.thy ===== *)
theory Mem
  imports Prelude
begin

text \<open>
  \<open>dos_re/memory.py\<close>: the linear memory with its real-mode addressing, the optional selector
  translation, the read-only BIOS ROM, the EGA planar aperture at A000h with its shadow planes,
  and the bulk operations that stand for runs of byte stores.

  \<open>Memory.data\<close> is a \<open>bytearray\<close>: a function from addresses to bytes below \<open>msize\<close>, indexed
  the way Python indexes it (negative indices count from the end, an index out of range raises
  \<open>IndexError\<close>).  Every byte the code stores it has masked with \<open>& 0xFF\<close>, so a store converts the
  masked integer to a byte.  A write watcher is a callback of the client: \<open>write_watchers\<close> lists
  them by a number, and \<open>notifications\<close> records the calls they receive, in order.
\<close>

section \<open>State\<close>

type_synonym bytes = "8 word list"

definition CPU_MEM_SIZE :: int where "CPU_MEM_SIZE = 1024 * 1024"
definition PSP_SIZE :: int where "PSP_SIZE = 256"
definition DEFAULT_LOAD_SEGMENT :: int where "DEFAULT_LOAD_SEGMENT = 0x1000"

definition linear :: "int \<Rightarrow> int \<Rightarrow> int" where
  "linear seg off = (push_bit 4 (seg AND 0xFFFF) + (off AND 0xFFFF)) AND 0xFFFFF"

definition EGA_CPU_APERTURE :: int where "EGA_CPU_APERTURE = 0xA0000"
definition EGA_APERTURE :: int where "EGA_APERTURE = 0x100000"
definition EGA_PLANE_STRIDE :: int where "EGA_PLANE_STRIDE = 0x10000"
definition EGA_PLANE_WINDOW :: int where "EGA_PLANE_WINDOW = 0x10000"
definition EGA_SHADOW_SIZE :: int where "EGA_SHADOW_SIZE = EGA_PLANE_STRIDE * 4"
definition MEM_SIZE :: int where "MEM_SIZE = CPU_MEM_SIZE + EGA_SHADOW_SIZE"
definition BIOS_ROM_BASE :: int where "BIOS_ROM_BASE = 0xF0000"

lemmas mem_consts = CPU_MEM_SIZE_def PSP_SIZE_def DEFAULT_LOAD_SEGMENT_def EGA_CPU_APERTURE_def
  EGA_APERTURE_def EGA_PLANE_STRIDE_def EGA_PLANE_WINDOW_def EGA_SHADOW_SIZE_def MEM_SIZE_def
  BIOS_ROM_BASE_def

record memory =
  mdata :: "int \<Rightarrow> 8 word"
  msize :: int
  sel_base :: "(int \<Rightarrow> int option) option"
  sel_min :: int
  ega_planar :: bool
  ega_map_mask :: int
  ega_read_plane :: int
  ega_data_rotate :: int
  ega_logical_op :: int
  ega_write_mode :: int
  ega_latches :: "int list"
  ega_set_reset :: int
  ega_enable_set_reset :: int
  ega_bit_mask :: int
  ega_read_mode :: int
  ega_color_compare :: int
  ega_color_dont_care :: int
  ega_display_start :: int
  ega_pel_pan :: int
  ega_display_enabled :: bool
  ega_h_display_end :: int
  ega_pan_active :: bool
  ega_pan_display_start :: int
  ega_pan_pel :: int
  write_watchers :: "nat list"
  notifications :: "(nat \<times> int \<times> bytes \<times> bytes) list"

text \<open>\<open>Memory(size, sel_base)\<close>, with the defaults of \<open>__init__\<close>.\<close>

definition memory_new :: "int \<Rightarrow> (int \<Rightarrow> int option) option \<Rightarrow> memory" where
  "memory_new sz sb = \<lparr>mdata = (\<lambda>_. 0), msize = sz, sel_base = sb, sel_min = 0,
     ega_planar = False, ega_map_mask = 0x0F, ega_read_plane = 0, ega_data_rotate = 0,
     ega_logical_op = 0, ega_write_mode = 0, ega_latches = [0, 0, 0, 0], ega_set_reset = 0,
     ega_enable_set_reset = 0, ega_bit_mask = 0xFF, ega_read_mode = 0, ega_color_compare = 0,
     ega_color_dont_care = 0x0F, ega_display_start = 0, ega_pel_pan = 0,
     ega_display_enabled = True, ega_h_display_end = 39, ega_pan_active = False,
     ega_pan_display_start = 0, ega_pan_pel = 0, write_watchers = [], notifications = []\<rparr>"

type_synonym 'a mem_op = "(memory, 'a) meth"

section \<open>The bytearray\<close>

definition byte_at :: "int \<Rightarrow> int mem_op" where
  "byte_at a = (\<lambda>m.
     if 0 \<le> a \<and> a < msize m then (Inr (uint (mdata m a)), m)
     else if - msize m \<le> a \<and> a < 0 then (Inr (uint (mdata m (a + msize m))), m)
     else (Inl PyIndexError, m))"

definition set_byte :: "int \<Rightarrow> int \<Rightarrow> unit mem_op" where
  "set_byte a v = (\<lambda>m.
     if 0 \<le> a \<and> a < msize m then (Inr (), m\<lparr>mdata := (mdata m)(a := word_of_int v)\<rparr>)
     else if - msize m \<le> a \<and> a < 0
       then (Inr (), m\<lparr>mdata := (mdata m)(a + msize m := word_of_int v)\<rparr>)
     else (Inl PyIndexError, m))"

text \<open>\<open>data[a:a+n]\<close> and \<open>data[a:a+len(p)] = p\<close> for \<open>0 \<le> a\<close>: a read clips at the end, a store that
  runs past the end extends the bytearray.\<close>

definition slice_get :: "memory \<Rightarrow> int \<Rightarrow> int \<Rightarrow> bytes" where
  "slice_get m a n = map (\<lambda>i. mdata m (a + int i)) [0..<nat (min (a + n) (msize m) - a)]"

definition slice_set :: "int \<Rightarrow> bytes \<Rightarrow> memory \<Rightarrow> memory" where
  "slice_set a p m =
     (let start = min a (msize m); n = int (length p) in
      m\<lparr>mdata := (\<lambda>i. if start \<le> i \<and> i < start + n then p ! nat (i - start) else mdata m i),
        msize := max (msize m) (start + n)\<rparr>)"

section \<open>Physical access and watchers\<close>

definition check :: "int \<Rightarrow> int \<Rightarrow> int mem_op" where
  "check addr n = (\<lambda>m.
     let addr = addr AND 0xFFFFF in
     if addr + n > msize m then (Inl PyMemoryError, m) else (Inr addr, m))"

definition rb_phys :: "int \<Rightarrow> int mem_op" where
  "rb_phys addr = bindM (check addr 1) byte_at"

definition rw_phys :: "int \<Rightarrow> int mem_op" where
  "rw_phys addr =
     bindM (check addr 2) (\<lambda>a.
     bindM (byte_at a) (\<lambda>lo.
     bindM (byte_at (a + 1)) (\<lambda>hi. ret (lo OR push_bit 8 hi))))"

definition notify_write :: "int \<Rightarrow> bytes \<Rightarrow> bytes \<Rightarrow> memory \<Rightarrow> memory" where
  "notify_write addr old new m =
     (if write_watchers m = [] then m
      else let addr = (case sel_base m of None \<Rightarrow> addr AND 0xFFFFF | Some _ \<Rightarrow> addr) in
        m\<lparr>notifications := notifications m
            @ map (\<lambda>w. (w, addr, old, new)) (write_watchers m)\<rparr>)"

text \<open>The store of one byte or of two at \<open>a\<close>, \<open>a + 1\<close>, with its watcher report, as it is written
  out in \<open>wb_phys\<close>, \<open>ww_phys\<close>, \<open>wb\<close> and \<open>ww\<close>.\<close>

definition store1 :: "int \<Rightarrow> int \<Rightarrow> unit mem_op" where
  "store1 a v = bindM (getM (\<lambda>m. m)) (\<lambda>m.
     if write_watchers m \<noteq> [] then
       bindM (byte_at a) (\<lambda>old.
       thenM (set_byte a (v AND 0xFF))
             (putM (notify_write a [word_of_int old] [word_of_int (v AND 0xFF)])))
     else set_byte a (v AND 0xFF))"

definition store2 :: "int \<Rightarrow> int \<Rightarrow> unit mem_op" where
  "store2 a v = bindM (getM (\<lambda>m. m)) (\<lambda>m.
     let lo = v AND 0xFF; hi = drop_bit 8 v AND 0xFF in
     if write_watchers m \<noteq> [] then
       thenM (set_byte a lo) (thenM (set_byte (a + 1) hi)
         (putM (notify_write a (slice_get m a 2) [word_of_int lo, word_of_int hi])))
     else thenM (set_byte a lo) (set_byte (a + 1) hi))"

definition wb_phys :: "int \<Rightarrow> int \<Rightarrow> unit mem_op" where
  "wb_phys addr value = bindM (check addr 1) (\<lambda>a. store1 a value)"

definition ww_phys :: "int \<Rightarrow> int \<Rightarrow> unit mem_op" where
  "ww_phys addr value = bindM (check addr 2) (\<lambda>a. store2 a value)"

section \<open>CPU reads\<close>

text \<open>Selector translation; only reached when \<open>sel_base\<close> is set.\<close>

definition xlat :: "memory \<Rightarrow> (int \<Rightarrow> int option) \<Rightarrow> int \<Rightarrow> int \<Rightarrow> int" where
  "xlat m sb seg off =
     (let seg = seg AND 0xFFFF in
      if sel_min m \<le> seg then
        (case sb (seg AND 0xFFFC) of
           Some base \<Rightarrow> base + (off AND 0xFFFF)
         | None \<Rightarrow> push_bit 4 seg + (off AND 0xFFFF))
      else push_bit 4 seg + (off AND 0xFFFF))"

definition in_aperture :: "memory \<Rightarrow> int \<Rightarrow> bool" where
  "in_aperture m a \<longleftrightarrow>
     ega_planar m \<and> 0 \<le> a - EGA_CPU_APERTURE \<and> a - EGA_CPU_APERTURE < EGA_PLANE_WINDOW"

text \<open>Read mode 1: the planes that Color Don't Care selects, folded into the compare mask.\<close>

definition color_compare :: "int \<Rightarrow> int \<Rightarrow> int list \<Rightarrow> int" where
  "color_compare cc dc latches =
     fold (\<lambda>p result.
        if dc AND push_bit p 1 \<noteq> 0 then
          (let pb = latches ! p in
           result AND (if drop_bit p cc AND 1 \<noteq> 0 then pb else NOT pb AND 0xFF))
        else result) [0, 1, 2, 3] 0xFF"

definition ega_rb :: "int \<Rightarrow> int mem_op" where
  "ega_rb po =
     (let base = EGA_APERTURE + po in
      bindM (byte_at base) (\<lambda>l0.
      bindM (byte_at (base + EGA_PLANE_STRIDE)) (\<lambda>l1.
      bindM (byte_at (base + EGA_PLANE_STRIDE * 2)) (\<lambda>l2.
      bindM (byte_at (base + EGA_PLANE_STRIDE * 3)) (\<lambda>l3.
      thenM (putM (\<lambda>m. m\<lparr>ega_latches := [l0, l1, l2, l3]\<rparr>))
            (getM (\<lambda>m.
               if ega_read_mode m AND 1 \<noteq> 0
               then color_compare (ega_color_compare m) (ega_color_dont_care m) (ega_latches m)
               else ega_latches m ! nat (ega_read_plane m AND 0x03))))))))"

definition rb :: "int \<Rightarrow> int \<Rightarrow> int mem_op" where
  "rb seg off = bindM (getM (\<lambda>m. m)) (\<lambda>m.
     case sel_base m of
       Some sb \<Rightarrow> byte_at (xlat m sb seg off)
     | None \<Rightarrow>
         (let a = linear seg off in
          if in_aperture m a then ega_rb (a - EGA_CPU_APERTURE) else byte_at a))"

definition rw :: "int \<Rightarrow> int \<Rightarrow> int mem_op" where
  "rw seg off = bindM (getM (\<lambda>m. m)) (\<lambda>m.
     case sel_base m of
       Some sb \<Rightarrow>
         (let a = xlat m sb seg off in
          bindM (byte_at a) (\<lambda>lo. bindM (byte_at (a + 1)) (\<lambda>hi. ret (lo OR push_bit 8 hi))))
     | None \<Rightarrow>
         (let a = linear seg off in
          if in_aperture m a then
            bindM (rb seg off) (\<lambda>lo.
              if a - EGA_CPU_APERTURE + 1 < EGA_PLANE_WINDOW
              then bindM (rb seg ((off + 1) AND 0xFFFF)) (\<lambda>hi. ret (lo OR push_bit 8 hi))
              else bindM (byte_at ((a + 1) AND 0xFFFFF)) (\<lambda>hi. ret (lo OR push_bit 8 hi)))
          else if a = 0xFFFFF then
            bindM (byte_at a) (\<lambda>lo. bindM (byte_at 0) (\<lambda>hi. ret (lo OR push_bit 8 hi)))
          else
            bindM (byte_at a) (\<lambda>lo. bindM (byte_at (a + 1)) (\<lambda>hi. ret (lo OR push_bit 8 hi)))))"

section \<open>CPU writes\<close>

text \<open>One plane of a write in write mode 0: the source byte, the write ALU, the bit mask.\<close>

definition ega_mode0_byte :: "memory \<Rightarrow> int \<Rightarrow> nat \<Rightarrow> int" where
  "ega_mode0_byte m v plane =
     (let esr = ega_enable_set_reset m AND 0x0F;
          sr = ega_set_reset m AND 0x0F;
          bitmask = ega_bit_mask m AND 0xFF;
          op = ega_logical_op m AND 0x03;
          latch = (ega_latches m ! plane) AND 0xFF;
          src = (if esr AND push_bit plane 1 \<noteq> 0
                 then (if drop_bit plane sr AND 1 \<noteq> 0 then 0xFF else 0x00) else v);
          aluout = (if op = 0 then src
                    else if op = 1 then src AND latch
                    else if op = 2 then src OR latch
                    else src XOR latch)
      in ((aluout AND bitmask) OR (latch AND NOT bitmask)) AND 0xFF)"

definition ega_rotate :: "memory \<Rightarrow> int \<Rightarrow> int" where
  "ega_rotate m value =
     (let v = value AND 0xFF; rot = nat (ega_data_rotate m AND 0x07) in
      if rot \<noteq> 0 then (drop_bit rot v OR (push_bit (8 - rot) v AND 0xFF)) AND 0xFF else v)"

definition ega_wb :: "int \<Rightarrow> int \<Rightarrow> unit mem_op" where
  "ega_wb plane_off value = bindM (getM (\<lambda>m. m)) (\<lambda>m.
     let base = EGA_APERTURE + plane_off;
         addr = (\<lambda>plane::nat. base + EGA_PLANE_STRIDE * int plane);
         enabled = (\<lambda>plane::nat. ega_map_mask m AND push_bit plane 1 \<noteq> 0) in
     if ega_write_mode m AND 0x03 \<ge> 2 then raise UnsupportedEgaWriteMode
     else if ega_write_mode m AND 0x03 = 1 then
       seqM (map (\<lambda>plane. set_byte (addr plane) ((ega_latches m ! plane) AND 0xFF))
                 (filter enabled [0, 1, 2, 3]))
     else
       seqM (map (\<lambda>plane. set_byte (addr plane) (ega_mode0_byte m (ega_rotate m value) plane))
                 (filter enabled [0, 1, 2, 3])))"

definition wb :: "int \<Rightarrow> int \<Rightarrow> int \<Rightarrow> unit mem_op" where
  "wb seg off value = bindM (getM (\<lambda>m. m)) (\<lambda>m.
     case sel_base m of
       Some sb \<Rightarrow> store1 (xlat m sb seg off) value
     | None \<Rightarrow>
         (let a = linear seg off in
          if a \<ge> BIOS_ROM_BASE then ret ()
          else if in_aperture m a then ega_wb (a - EGA_CPU_APERTURE) value
          else store1 a value))"

definition ww :: "int \<Rightarrow> int \<Rightarrow> int \<Rightarrow> unit mem_op" where
  "ww seg off value = bindM (getM (\<lambda>m. m)) (\<lambda>m.
     case sel_base m of
       Some sb \<Rightarrow> store2 (xlat m sb seg off) value
     | None \<Rightarrow>
         (let a = linear seg off; po = a - EGA_CPU_APERTURE;
              lo = value AND 0xFF; hi = drop_bit 8 value AND 0xFF in
          if a \<ge> BIOS_ROM_BASE then ret ()
          else if in_aperture m a then
            thenM (ega_wb po lo)
              (if po + 1 < EGA_PLANE_WINDOW then ega_wb (po + 1) hi else set_byte (a + 1) hi)
          else if a = 0xFFFFF then
            thenM (store1 a lo) (store1 0 hi)
          else store2 a value))"

section \<open>Elementary facts\<close>

lemma u8_uint [wf_intros, simp]: "u8 (uint (w :: 8 word))"
  using uint_range_size [of w] by (simp add: u8_def word_size)

lemma byte_range: "0 \<le> uint (w :: 8 word)" "uint (w :: 8 word) < 256"
  using u8_uint [of w] by (simp_all add: u8_def)

lemma byte_of_int_uint [simp]: "word_of_int (uint (w :: 8 word)) = w"
  by simp

lemma uint_byte_of_int [simp]: "uint (word_of_int v :: 8 word) = v mod 256"
  by (simp add: uint_word_of_int)

lemma word_of_int_mask [simp]: "(word_of_int (v AND 255) :: 8 word) = word_of_int v"
  by (rule word_uint_eqI) (simp add: mask_simps)

lemma linear_eq: "linear seg off = ((seg mod 65536) * 16 + off mod 65536) mod 1048576"
  by (simp add: linear_def mask_simps)

lemma linear_range: "0 \<le> linear seg off" "linear seg off < 1048576"
  by (simp_all add: linear_eq)

lemma linear_mask [simp]:
  "linear (seg AND 65535) off = linear seg off" "linear seg (off AND 65535) = linear seg off"
  by (simp_all add: linear_eq mask_simps)

lemma byte_at_ok: "0 \<le> a \<Longrightarrow> a < msize m \<Longrightarrow> byte_at a m = (Inr (uint (mdata m a)), m)"
  by (simp add: byte_at_def)

lemma set_byte_ok:
  "0 \<le> a \<Longrightarrow> a < msize m \<Longrightarrow>
   set_byte a v m = (Inr (), m\<lparr>mdata := (mdata m)(a := word_of_int v)\<rparr>)"
  by (simp add: set_byte_def)

text \<open>A byte read returns a byte and leaves the memory as it is.\<close>

lemma byte_at_state: "snd (byte_at a m) = m"
  by (simp add: byte_at_def)

lemma byte_at_u8: "fst (byte_at a m) = Inr v \<Longrightarrow> u8 v"
  by (auto simp: byte_at_def split: if_splits)

section \<open>Real mode with plain RAM\<close>

text \<open>
  The memory as a DOS program sees it: no selector translation, no watcher, and at least the
  first megabyte present.  The EGA planar mode may be on.
\<close>

definition real_mode :: "memory \<Rightarrow> bool" where
  "real_mode m \<longleftrightarrow> sel_base m = None \<and> write_watchers m = [] \<and> MEM_SIZE \<le> msize m"

lemma real_modeD:
  "real_mode m \<Longrightarrow> sel_base m = None" "real_mode m \<Longrightarrow> write_watchers m = []"
  "real_mode m \<Longrightarrow> 0x140000 \<le> msize m"
  by (simp_all add: real_mode_def mem_consts)

lemma real_mode_mdata [simp]: "real_mode (m\<lparr>mdata := d\<rparr>) = real_mode m"
  by (simp add: real_mode_def)

lemma real_mode_latches [simp]: "real_mode (m\<lparr>ega_latches := l\<rparr>) = real_mode m"
  by (simp add: real_mode_def)

lemma in_aperture_mdata [simp]: "in_aperture (m\<lparr>mdata := d\<rparr>) a = in_aperture m a"
  by (simp add: in_aperture_def)

lemma real_mode_new: "real_mode (memory_new MEM_SIZE None)"
  by (simp add: real_mode_def memory_new_def)

text \<open>The plain RAM bytes: below the ROM and outside an active planar aperture.\<close>

definition ram_byte :: "memory \<Rightarrow> int \<Rightarrow> bool" where
  "ram_byte m a \<longleftrightarrow> 0 \<le> a \<and> a < BIOS_ROM_BASE \<and> \<not> in_aperture m a"

lemma ram_byte_mdata [simp]: "ram_byte (m\<lparr>mdata := d\<rparr>) a = ram_byte m a"
  by (simp add: ram_byte_def)

lemma ram_byteD: "ram_byte m a \<Longrightarrow> 0 \<le> a \<and> a < 0xF0000 \<and> \<not> in_aperture m a"
  by (simp add: ram_byte_def mem_consts)

lemma rb_plain:
  assumes "real_mode m" "\<not> in_aperture m (linear seg off)"
  shows "rb seg off m = (Inr (uint (mdata m (linear seg off))), m)"
  using assms linear_range [of seg off] real_modeD [of m]
  by (simp add: rb_def byte_at_ok Let_def)

lemma wb_plain:
  assumes "real_mode m" "ram_byte m (linear seg off)"
  shows "wb seg off v m =
    (Inr (), m\<lparr>mdata := (mdata m)(linear seg off := word_of_int v)\<rparr>)"
  using assms linear_range [of seg off] real_modeD [of m] ram_byteD [of m "linear seg off"]
  by (simp add: wb_def store1_def set_byte_ok Let_def mem_consts)

lemma rw_plain:
  assumes "real_mode m" "\<not> in_aperture m (linear seg off)" "linear seg off \<noteq> 0xFFFFF"
  shows "rw seg off m = (Inr (uint (mdata m (linear seg off))
           OR push_bit 8 (uint (mdata m (linear seg off + 1)))), m)"
  using assms linear_range [of seg off] real_modeD [of m]
  by (simp add: rw_def byte_at_ok Let_def)

lemma ww_plain:
  assumes "real_mode m" "ram_byte m (linear seg off)"
  shows "ww seg off v m = (Inr (), m\<lparr>mdata := (mdata m)(linear seg off := word_of_int v,
           linear seg off + 1 := word_of_int (drop_bit 8 v))\<rparr>)"
  using assms linear_range [of seg off] real_modeD [of m] ram_byteD [of m "linear seg off"]
  by (simp add: ww_def store2_def set_byte_ok Let_def mem_consts)

end
