(* ===== verification/Mem_Bulk.thy ===== *)
theory Mem_Bulk
  imports Mem
begin

text \<open>
  The block operations of \<open>dos_re/memory.py\<close>: \<open>write_external_block\<close>, the guard
  \<open>_ordinary_real_mode_range\<close>, the REP fast paths \<open>try_forward_bulk_fill\<close> and
  \<open>try_forward_bulk_copy\<close>, \<open>load\<close> and \<open>block\<close>.  The locale \<open>byte_store\<close> states what a run of byte
  stores over a range amounts to; it is interpreted on the CPU store \<open>wb\<close>.
\<close>

section \<open>Definitions\<close>

text \<open>Returns a direct-slice address, or \<open>None\<close> where byte semantics matter.\<close>

definition ordinary_real_mode_range ::
    "memory \<Rightarrow> int \<Rightarrow> int \<Rightarrow> int \<Rightarrow> bool \<Rightarrow> exn + int option" where
  "ordinary_real_mode_range m seg off n writable =
     (if n < 0 then Inl PyValueError
      else let offset = off AND 0xFFFF; addr = linear seg offset;
               ega_limit = EGA_CPU_APERTURE + EGA_PLANE_WINDOW in
        if offset + n > 0x10000 \<or> addr + n > CPU_MEM_SIZE \<or> addr + n > msize m then Inr None
        else if writable \<and> addr + n > BIOS_ROM_BASE then Inr None
        else if ega_planar m \<and> addr < ega_limit \<and> addr + n > EGA_CPU_APERTURE then Inr None
        else Inr (Some addr))"

definition scalar_block :: "int \<Rightarrow> int \<Rightarrow> bytes \<Rightarrow> unit mem_op" where
  "scalar_block seg offset payload =
     seqM (map (\<lambda>i. wb seg ((offset + int i) AND 0xFFFF) (uint (payload ! i)))
               [0..<length payload])"

definition write_external_block :: "int \<Rightarrow> int \<Rightarrow> bytes \<Rightarrow> unit mem_op" where
  "write_external_block seg off payload = bindM (getM (\<lambda>m. m)) (\<lambda>m.
     let n = int (length payload) in
     if n = 0 then ret ()
     else case ordinary_real_mode_range m seg off n True of
       Inl e \<Rightarrow> raise e
     | Inr addr \<Rightarrow>
         (if sel_base m = None \<and> write_watchers m = [] \<and> addr \<noteq> None
          then putM (slice_set (the addr) payload)
          else scalar_block seg (off AND 0xFFFF) payload))"

definition try_forward_bulk_fill :: "int \<Rightarrow> int \<Rightarrow> bytes \<Rightarrow> int \<Rightarrow> bool mem_op" where
  "try_forward_bulk_fill seg off pattern count = bindM (getM (\<lambda>m. m)) (\<lambda>m.
     if count < 0 then raise PyValueError
     else if pattern = [] then raise PyValueError
     else let n = int (length pattern) * count in
       if n = 0 then ret True
       else if sel_base m \<noteq> None \<or> write_watchers m \<noteq> [] then ret False
       else case ordinary_real_mode_range m seg off n True of
         Inl e \<Rightarrow> raise e
       | Inr None \<Rightarrow> ret False
       | Inr (Some addr) \<Rightarrow>
           thenM (putM (slice_set addr (concat (replicate (nat count) pattern)))) (ret True))"

definition try_forward_bulk_copy :: "int \<Rightarrow> int \<Rightarrow> int \<Rightarrow> int \<Rightarrow> int \<Rightarrow> bool mem_op" where
  "try_forward_bulk_copy src_seg src_off dst_seg dst_off n = bindM (getM (\<lambda>m. m)) (\<lambda>m.
     if n < 0 then raise PyValueError
     else if n = 0 then ret True
     else if sel_base m \<noteq> None \<or> write_watchers m \<noteq> [] then ret False
     else case (ordinary_real_mode_range m src_seg src_off n False,
                ordinary_real_mode_range m dst_seg dst_off n True) of
         (Inl e, _) \<Rightarrow> raise e
       | (_, Inl e) \<Rightarrow> raise e
       | (Inr (Some src), Inr (Some dst)) \<Rightarrow>
           (if src < dst \<and> dst < src + n then ret False
            else thenM (putM (slice_set dst (slice_get m src n))) (ret True))
       | _ \<Rightarrow> ret False)"

definition load :: "int \<Rightarrow> int \<Rightarrow> bytes \<Rightarrow> unit mem_op" where
  "load seg off payload = bindM (getM (\<lambda>m. m)) (\<lambda>m.
     case sel_base m of
       Some sb \<Rightarrow> putM (slice_set (xlat m sb seg off) payload)
     | None \<Rightarrow>
         bindM (check (linear seg off) (int (length payload))) (\<lambda>addr.
           if write_watchers m \<noteq> [] then
             thenM (putM (slice_set addr payload))
                   (putM (notify_write addr (slice_get m addr (int (length payload))) payload))
           else putM (slice_set addr payload)))"

definition block :: "int \<Rightarrow> int \<Rightarrow> int \<Rightarrow> bytes mem_op" where
  "block seg off n = bindM (getM (\<lambda>m. m)) (\<lambda>m.
     case sel_base m of
       Some sb \<Rightarrow> ret (slice_get m (xlat m sb seg off) n)
     | None \<Rightarrow> bindM (check (linear seg off) n) (\<lambda>addr. ret (slice_get m addr n)))"

section \<open>Runs of byte stores\<close>

text \<open>The memory with the bytes of \<open>p\<close> from address \<open>a\<close> on.\<close>

definition overwrite :: "int \<Rightarrow> bytes \<Rightarrow> (int \<Rightarrow> 8 word) \<Rightarrow> (int \<Rightarrow> 8 word)" where
  "overwrite a p d = (\<lambda>i. if a \<le> i \<and> i < a + int (length p) then p ! nat (i - a) else d i)"

lemma overwrite_Nil [simp]: "overwrite a [] d = d"
  by (rule ext) (auto simp: overwrite_def)

lemma overwrite_snoc:
  "overwrite a (p @ [x]) d = (overwrite a p d)(a + int (length p) := x)"
  by (auto simp: overwrite_def fun_eq_iff nth_append nat_less_iff)

lemma overwrite_append:
  "overwrite a (p @ q) d = overwrite (a + int (length p)) q (overwrite a p d)"
  by (auto simp: overwrite_def fun_eq_iff nth_append nat_less_iff nat_diff_distrib'
      intro!: arg_cong [where f = "(!) q"])

lemma overwrite_Cons: "overwrite a (x # p) d = overwrite (a + 1) p (d(a := x))"
  using overwrite_append [of a "[x]" p d] overwrite_snoc [of a "[]" x d] by simp

lemma slice_set_inside:
  "0 \<le> a \<Longrightarrow> a + int (length p) \<le> msize m \<Longrightarrow>
   slice_set a p m = m\<lparr>mdata := overwrite a p (mdata m)\<rparr>"
  by (simp add: slice_set_def overwrite_def Let_def min_def max_def)

lemma slice_get_inside:
  assumes "0 \<le> a" "0 \<le> n" "a + n \<le> msize m"
  shows "slice_get m a n = map (\<lambda>i. mdata m (a + int i)) [0..<nat n]"
  using assms by (simp add: slice_get_def min_def)

text \<open>
  What the block operations need of a byte store: on the states \<open>ok\<close> and the places \<open>pl\<close> it
  writes exactly the byte at the place's address, and the state stays \<open>ok\<close>.
\<close>

locale byte_store =
  fixes st :: "'p \<Rightarrow> int \<Rightarrow> unit mem_op"
    and addr :: "'p \<Rightarrow> int"
    and ok :: "memory \<Rightarrow> 'p \<Rightarrow> bool"
  assumes store_effect:
      "ok m p \<Longrightarrow> st p v m = (Inr (), m\<lparr>mdata := (mdata m)(addr p := word_of_int v)\<rparr>)"
    and store_ok: "ok (m\<lparr>mdata := d\<rparr>) p = ok m p"
begin

lemma run_of_stores:
  assumes "\<And>i. i < n \<Longrightarrow> ok m (pl i) \<and> addr (pl i) = a + int i" and "n \<le> length p"
  shows "seqM (map (\<lambda>i. st (pl i) (uint (p ! i))) [0..<n]) m
    = (Inr (), m\<lparr>mdata := overwrite a (take n p) (mdata m)\<rparr>)"
  using assms
proof (induction n)
  case 0
  then show ?case by simp
next
  case (Suc n)
  have IH: "seqM (map (\<lambda>i. st (pl i) (uint (p ! i))) [0..<n]) m
      = (Inr (), m\<lparr>mdata := overwrite a (take n p) (mdata m)\<rparr>)"
    using Suc by simp
  have "ok (m\<lparr>mdata := overwrite a (take n p) (mdata m)\<rparr>) (pl n)"
    using Suc.prems(1) [of n] store_ok by simp
  then show ?case
    using Suc.prems by (simp add: seqM_append IH store_effect take_Suc_conv_app_nth
        overwrite_snoc fun_upd_def)
qed

end

definition unwatched_ram :: "memory \<Rightarrow> int \<Rightarrow> bool" where
  "unwatched_ram m a \<longleftrightarrow>
     sel_base m = None \<and> write_watchers m = [] \<and> ram_byte m a \<and> a < msize m"

lemma wb_unwatched:
  assumes "unwatched_ram m (linear seg off)"
  shows "wb seg off v m = (Inr (), m\<lparr>mdata := (mdata m)(linear seg off := word_of_int v)\<rparr>)"
  using assms ram_byteD [of m "linear seg off"]
  by (simp add: unwatched_ram_def wb_def store1_def set_byte_ok Let_def mem_consts)

text \<open>The CPU store \<open>wb\<close> at the plain RAM places of an unwatched memory without selectors.\<close>

interpretation ram_store: byte_store
  "\<lambda>p v. wb (fst p) (snd p) v" "\<lambda>p. linear (fst p) (snd p)"
  "\<lambda>m p. unwatched_ram m (linear (fst p) (snd p))"
  by unfold_locales (simp_all add: wb_unwatched, simp add: unwatched_ram_def)

section \<open>The ordinary ranges\<close>

lemma ordinary_range_ok: "0 \<le> n \<Longrightarrow> \<exists>addr. ordinary_real_mode_range m seg off n w = Inr addr"
  by (auto simp: ordinary_real_mode_range_def Let_def)

text \<open>What the guard checked when it returns an address.\<close>

lemma ordinary_rangeD:
  assumes "ordinary_real_mode_range m seg off n w = Inr (Some a)"
  shows "a = linear seg off" "0 \<le> n" "off mod 65536 + n \<le> 65536" "a + n \<le> 0x100000"
    "a + n \<le> msize m" "w \<Longrightarrow> a + n \<le> 0xF0000"
    "ega_planar m \<Longrightarrow> a + n \<le> 0xA0000 \<or> 0xB0000 \<le> a"
  using assms
  by (auto simp: ordinary_real_mode_range_def Let_def mem_consts split: if_splits)
     (simp_all add: mask_simps)

text \<open>Inside the range, consecutive offsets are consecutive addresses.\<close>

lemma ordinary_range_addr:
  assumes "ordinary_real_mode_range m seg off n w = Inr (Some a)" "0 \<le> i" "i < n"
  shows "linear seg (off + i) = a + i" "linear seg ((off + i) AND 0xFFFF) = a + i"
proof -
  note D = ordinary_rangeD [OF assms(1)]
  have 1: "(off + i) mod 65536 = off mod 65536 + i"
    using D(3) assms(2,3) mod_add_left_eq [of off 65536 i] by simp
  have "linear seg (off + i) = (linear seg off + i) mod 1048576"
    unfolding linear_eq 1 by (simp only: add.assoc mod_add_left_eq)
  also have "\<dots> = linear seg off + i"
    using D(1,4) assms(2,3) linear_range [of seg off] by (intro mod_pos_pos_trivial) simp_all
  finally show "linear seg (off + i) = a + i"
    using D(1) by simp
  then show "linear seg ((off + i) AND 0xFFFF) = a + i" by simp
qed

lemma ordinary_range_ram:
  assumes "ordinary_real_mode_range m seg off n w = Inr (Some a)" "0 \<le> i" "i < n"
  shows "\<not> in_aperture m (a + i)" "w \<Longrightarrow> ram_byte m (a + i)"
  using ordinary_rangeD [OF assms(1)] assms(2,3) linear_range [of seg off]
  by (auto simp: in_aperture_def ram_byte_def mem_consts)

section \<open>The fast paths are the scalar ones\<close>

lemma scalar_block_range:
  assumes "ordinary_real_mode_range m seg off (int (length p)) True = Inr (Some a)"
    and "sel_base m = None" "write_watchers m = []"
  shows "scalar_block seg (off AND 0xFFFF) p m
    = (Inr (), m\<lparr>mdata := overwrite a p (mdata m)\<rparr>)"
proof -
  have "unwatched_ram m (linear seg ((off + int i) AND 0xFFFF))
      \<and> linear seg ((off + int i) AND 0xFFFF) = a + int i" if "i < length p" for i
    using that assms ordinary_range_addr(2) [OF assms(1), of "int i"]
      ordinary_range_ram(2) [OF assms(1), of "int i"] ordinary_rangeD(5) [OF assms(1)]
    by (simp add: unwatched_ram_def)
  then have "seqM (map (\<lambda>i. wb seg ((off + int i) AND 0xFFFF) (uint (p ! i))) [0..<length p]) m
      = (Inr (), m\<lparr>mdata := overwrite a p (mdata m)\<rparr>)"
    using ram_store.run_of_stores [of "length p" m "\<lambda>i. (seg, (off + int i) AND 0xFFFF)" a p]
    by fastforce
  moreover have "(off AND 0xFFFF) + x AND 0xFFFF = (off + x) AND 0xFFFF" for x
    by (simp add: mask_simps mod_add_left_eq)
  ultimately show ?thesis by (simp add: scalar_block_def)
qed

text \<open>
  \<open>write_external_block\<close> stores the same bytes, with the same errors and reports, as repeated
  \<open>wb\<close>, on every memory.
\<close>

lemma write_external_block_scalar:
  "write_external_block seg off payload = scalar_block seg (off AND 0xFFFF) payload"
proof (rule ext)
  fix m
  show "write_external_block seg off payload m = scalar_block seg (off AND 0xFFFF) payload m"
  proof (cases "payload = []")
    case True
    then show ?thesis by (simp add: write_external_block_def scalar_block_def)
  next
    case False
    obtain addr where R: "ordinary_real_mode_range m seg off (int (length payload)) True = Inr addr"
      using ordinary_range_ok [of "int (length payload)" m seg off True] by auto
    show ?thesis
    proof (cases addr)
      case None
      then show ?thesis using R False by (simp add: write_external_block_def)
    next
      case (Some a)
      note R' = R [unfolded Some]
      show ?thesis
      proof (cases "sel_base m = None \<and> write_watchers m = []")
        case True
        then show ?thesis
          using scalar_block_range [OF R'] ordinary_rangeD [OF R'] linear_range [of seg off]
          by (simp add: write_external_block_def R' False slice_set_inside)
      next
        case F: False
        then show ?thesis by (auto simp: write_external_block_def R' False)
      qed
    qed
  qed
qed

lemma length_concat_replicate: "length (concat (replicate n p)) = n * length p"
  by (induction n) simp_all

text \<open>A fill that reports success has stored the repeated pattern as repeated \<open>wb\<close> would.\<close>

lemma bulk_fill_effect:
  assumes "try_forward_bulk_fill seg off pattern count m = (Inr True, m')"
  shows "m' = (if count = 0 then m
     else m\<lparr>mdata := overwrite (linear seg off) (concat (replicate (nat count) pattern)) (mdata m)\<rparr>)"
    and "scalar_block seg (off AND 0xFFFF) (concat (replicate (nat count) pattern)) m = (Inr (), m')"
proof -
  let ?p = "concat (replicate (nat count) pattern)"
  have c: "0 \<le> count" "pattern \<noteq> []"
    using assms by (auto simp: try_forward_bulk_fill_def split: if_splits)
  have len: "int (length ?p) = int (length pattern) * count"
    using c by (simp add: length_concat_replicate)
  have "m' = (if count = 0 then m
      else m\<lparr>mdata := overwrite (linear seg off) ?p (mdata m)\<rparr>)
    \<and> scalar_block seg (off AND 0xFFFF) ?p m = (Inr (), m')"
  proof (cases "count = 0")
    case True
    then show ?thesis
      using assms c by (simp add: try_forward_bulk_fill_def scalar_block_def)
  next
    case False
    then obtain a where R: "ordinary_real_mode_range m seg off (int (length ?p)) True = Inr (Some a)"
      and nw: "sel_base m = None" "write_watchers m = []"
      and m': "m' = slice_set a ?p m"
      using assms c len
      by (auto simp: try_forward_bulk_fill_def Let_def thenM_def split: if_splits sum.splits option.splits)
    have "m' = m\<lparr>mdata := overwrite a ?p (mdata m)\<rparr>"
      using m' ordinary_rangeD [OF R] linear_range [of seg off] by (simp add: slice_set_inside)
    then show ?thesis
      using scalar_block_range [OF R nw] ordinary_rangeD(1) [OF R] False by simp
  qed
  then show "m' = (if count = 0 then m
      else m\<lparr>mdata := overwrite (linear seg off) ?p (mdata m)\<rparr>)"
    and "scalar_block seg (off AND 0xFFFF) ?p m = (Inr (), m')" by blast+
qed

lemma bulk_copy_effect:
  assumes "try_forward_bulk_copy sseg soff dseg doff n m = (Inr True, m')" "0 < n"
  obtains s d where
    "ordinary_real_mode_range m sseg soff n False = Inr (Some s)"
    "ordinary_real_mode_range m dseg doff n True = Inr (Some d)"
    "\<not> (s < d \<and> d < s + n)" "sel_base m = None" "write_watchers m = []"
    "m' = m\<lparr>mdata := overwrite d (map (\<lambda>i. mdata m (s + int i)) [0..<nat n]) (mdata m)\<rparr>"
proof -
  obtain s d where R: "ordinary_real_mode_range m sseg soff n False = Inr (Some s)"
      "ordinary_real_mode_range m dseg doff n True = Inr (Some d)"
    and o: "\<not> (s < d \<and> d < s + n)" "sel_base m = None" "write_watchers m = []"
    and m': "m' = slice_set d (slice_get m s n) m"
    using assms by (auto simp: try_forward_bulk_copy_def Let_def thenM_def
        split: if_splits sum.splits option.splits)
  show thesis
    using that [OF R o] m' ordinary_rangeD [OF R(1)] ordinary_rangeD [OF R(2)]
      linear_range [of sseg soff] linear_range [of dseg doff] assms(2)
    by (simp add: slice_set_inside slice_get_inside)
qed

end
