(* ===== verification/CPU.thy ===== *)
theory CPU
  imports X86 Mem_Bulk
begin

text \<open>
  \<open>dos_re/cpu.py\<close>, the machine state of \<open>CPU8086\<close> and the primitives the instructions are made
  of: flags, register access, instruction fetch, the stack, effective addresses and operands.

  The disassembly text and the trace list are debugging output that never feeds back into the
  state; they are left out.  The callbacks a client installs (interrupt handler, port reader and
  writer, replacement hooks, hook verifier, IRQ source) are fields of the record \<open>env\<close>; what they
  own besides the CPU (the devices) is the field \<open>world\<close> of the state, of an arbitrary type.
  The coverage telemetry sink is the list of the events it receives.
\<close>

section \<open>State\<close>

datatype telemetry_event =
    HookUnverified "int \<times> int" string
  | InterpretedInstruction "int \<times> int"

record 'w cpu =
  mem :: memory
  regs :: CPUState
  halted :: bool
  instruction_count :: int
  call_depth :: int
  interp_forbidden :: bool
  interp_frontier :: "(int \<times> int) set option"
  max_rep_count :: int
  coverage_telemetry :: "telemetry_event list option"
  world :: 'w

definition CPU8086 :: "memory \<Rightarrow> 'w \<Rightarrow> 'w cpu" where
  "CPU8086 m w = \<lparr>mem = m, regs = CPUState_init, halted = False, instruction_count = 0,
     call_depth = 0, interp_forbidden = False, interp_frontier = None,
     max_rep_count = 1000000, coverage_telemetry = None, world = w\<rparr>"

type_synonym ('w, 'a) cpu_op = "('w cpu, 'a) meth"

text \<open>A memory access of the CPU: the memory changes, the rest of the state does not.\<close>

definition on_mem :: "'a mem_op \<Rightarrow> ('w, 'a) cpu_op" where
  "on_mem f = (\<lambda>c. case f (mem c) of (r, m') \<Rightarrow> (r, c\<lparr>mem := m'\<rparr>))"

definition upd_regs :: "(CPUState \<Rightarrow> CPUState) \<Rightarrow> ('w, unit) cpu_op" where
  "upd_regs f = putM (\<lambda>c. c\<lparr>regs := f (regs c)\<rparr>)"

definition get_regs :: "(CPUState \<Rightarrow> 'a) \<Rightarrow> ('w, 'a) cpu_op" where
  "get_regs f = getM (\<lambda>c. f (regs c))"

section \<open>Flags\<close>

text \<open>The flag helpers as functions of the flags word; the methods apply them to \<open>s.flags\<close>.\<close>

definition set_flag_word :: "int \<Rightarrow> bool \<Rightarrow> int \<Rightarrow> int" where
  "set_flag_word flag value f =
     (((if value then f OR flag else f AND NOT flag) OR 0x0002) AND 0x0FFF)"

definition set_flag :: "int \<Rightarrow> bool \<Rightarrow> ('w, unit) cpu_op" where
  "set_flag flag value = upd_regs (\<lambda>r. r\<lparr>flags := set_flag_word flag value (flags r)\<rparr>)"

definition get_flag :: "int \<Rightarrow> ('w, bool) cpu_op" where
  "get_flag flag = get_regs (\<lambda>r. flags r AND flag \<noteq> 0)"

definition parity :: "int \<Rightarrow> bool" where
  "parity value = PARITY (value AND 0xFF)"

definition or_if :: "bool \<Rightarrow> int \<Rightarrow> int \<Rightarrow> int" where
  "or_if b flag f = (if b then f OR flag else f)"

definition logic_flags :: "int \<Rightarrow> nat \<Rightarrow> int \<Rightarrow> int" where
  "logic_flags result bits fl =
     (let sign = push_bit (bits - 1) 1;
          r = result AND (push_bit bits 1 - 1);
          f = fl AND NOT 0x08C5;
          f = or_if (r = 0) ZF f;
          f = or_if (r AND sign \<noteq> 0) SF f;
          f = or_if (PARITY (r AND 0xFF)) PF f
      in (f OR 0x0002) AND 0x0FFF)"

definition add_flags :: "int \<Rightarrow> int \<Rightarrow> int \<Rightarrow> nat \<Rightarrow> int \<Rightarrow> int \<Rightarrow> int" where
  "add_flags a b result bits carry fl =
     (let mask = push_bit bits 1 - 1;
          sign = push_bit (bits - 1) 1;
          r = result AND mask;
          f = fl AND NOT 0x08D5;
          f = or_if (result > mask) CF f;
          f = or_if (r = 0) ZF f;
          f = or_if (r AND sign \<noteq> 0) SF f;
          f = or_if (PARITY (r AND 0xFF)) PF f;
          f = or_if ((a AND 0xF) + (b AND 0xF) + carry > 0xF) AF f;
          f = or_if ((NOT (a XOR b) AND (a XOR r)) AND sign \<noteq> 0) OF f
      in (f OR 0x0002) AND 0x0FFF)"

definition sub_flags :: "int \<Rightarrow> int \<Rightarrow> int \<Rightarrow> nat \<Rightarrow> int \<Rightarrow> int \<Rightarrow> int" where
  "sub_flags a b result bits carry fl =
     (let mask = push_bit bits 1 - 1;
          sign = push_bit (bits - 1) 1;
          r = result AND mask;
          f = fl AND NOT 0x08D5;
          f = or_if (result < 0) CF f;
          f = or_if (r = 0) ZF f;
          f = or_if (r AND sign \<noteq> 0) SF f;
          f = or_if (PARITY (r AND 0xFF)) PF f;
          f = or_if ((a AND 0xF) - (b AND 0xF) - carry < 0) AF f;
          f = or_if (((a XOR b) AND (a XOR r)) AND sign \<noteq> 0) OF f
      in (f OR 0x0002) AND 0x0FFF)"

definition incdec_flags :: "int \<Rightarrow> int \<Rightarrow> nat \<Rightarrow> bool \<Rightarrow> int \<Rightarrow> int" where
  "incdec_flags old res bits dec fl =
     (let sign = push_bit (bits - 1) 1;
          f = fl AND NOT 0x08D4;
          f = or_if (res = 0) ZF f;
          f = or_if (res AND sign \<noteq> 0) SF f;
          f = or_if (PARITY (res AND 0xFF)) PF f;
          f = (if dec then or_if (old = sign) OF (or_if (old AND 0xF = 0) AF f)
               else or_if (res = sign) OF (or_if (old AND 0xF = 0xF) AF f))
      in (f OR 0x0002) AND 0x0FFF)"

definition upd_flags :: "(int \<Rightarrow> int) \<Rightarrow> ('w, unit) cpu_op" where
  "upd_flags f = upd_regs (\<lambda>r. r\<lparr>flags := f (flags r)\<rparr>)"

definition set_logic_flags :: "int \<Rightarrow> nat \<Rightarrow> ('w, unit) cpu_op" where
  "set_logic_flags result bits = upd_flags (logic_flags result bits)"

definition set_add_flags :: "int \<Rightarrow> int \<Rightarrow> int \<Rightarrow> nat \<Rightarrow> int \<Rightarrow> ('w, unit) cpu_op" where
  "set_add_flags a b result bits carry = upd_flags (add_flags a b result bits carry)"

definition set_sub_flags :: "int \<Rightarrow> int \<Rightarrow> int \<Rightarrow> nat \<Rightarrow> int \<Rightarrow> ('w, unit) cpu_op" where
  "set_sub_flags a b result bits carry = upd_flags (sub_flags a b result bits carry)"

definition set_incdec_flags :: "int \<Rightarrow> int \<Rightarrow> nat \<Rightarrow> bool \<Rightarrow> ('w, unit) cpu_op" where
  "set_incdec_flags old res bits dec = upd_flags (incdec_flags old res bits dec)"

section \<open>Registers\<close>

text \<open>\<open>getattr(s, REG16[idx])\<close> and \<open>setattr\<close>; the instructions index with three bits.\<close>

definition reg16 :: "int \<Rightarrow> CPUState \<Rightarrow> int" where
  "reg16 idx r =
     (if idx = 0 then ax r else if idx = 1 then cx r else if idx = 2 then dx r
      else if idx = 3 then bx r else if idx = 4 then sp r else if idx = 5 then bp r
      else if idx = 6 then si r else di r)"

definition put_reg16 :: "int \<Rightarrow> int \<Rightarrow> CPUState \<Rightarrow> CPUState" where
  "put_reg16 idx v r =
     (if idx = 0 then r\<lparr>ax := v\<rparr> else if idx = 1 then r\<lparr>cx := v\<rparr>
      else if idx = 2 then r\<lparr>dx := v\<rparr> else if idx = 3 then r\<lparr>bx := v\<rparr>
      else if idx = 4 then r\<lparr>sp := v\<rparr> else if idx = 5 then r\<lparr>bp := v\<rparr>
      else if idx = 6 then r\<lparr>si := v\<rparr> else r\<lparr>di := v\<rparr>)"

datatype sreg = ES | CS | SS | DS

fun seg_of :: "sreg \<Rightarrow> CPUState \<Rightarrow> int" where
  "seg_of ES r = es r"
| "seg_of CS r = cs r"
| "seg_of SS r = ss r"
| "seg_of DS r = ds r"

fun put_seg :: "sreg \<Rightarrow> int \<Rightarrow> CPUState \<Rightarrow> CPUState" where
  "put_seg ES v r = r\<lparr>es := v\<rparr>"
| "put_seg CS v r = r\<lparr>cs := v\<rparr>"
| "put_seg SS v r = r\<lparr>ss := v\<rparr>"
| "put_seg DS v r = r\<lparr>ds := v\<rparr>"

definition SREG :: "int \<Rightarrow> sreg" where
  "SREG idx = (if idx = 0 then ES else if idx = 1 then CS else if idx = 2 then SS else DS)"

definition get_reg16 :: "int \<Rightarrow> ('w, int) cpu_op" where
  "get_reg16 idx = get_regs (\<lambda>r. reg16 idx r AND 0xFFFF)"

definition set_reg16 :: "int \<Rightarrow> int \<Rightarrow> ('w, unit) cpu_op" where
  "set_reg16 idx v = upd_regs (put_reg16 idx (v AND 0xFFFF))"

text \<open>\<open>_REG8_BASE\<close>: AL CL DL BL AH CH DH BH live in AX CX DX BX.\<close>

definition reg8_base :: "int \<Rightarrow> int" where
  "reg8_base idx = (if idx \<ge> 4 then idx - 4 else idx)"

definition reg8 :: "int \<Rightarrow> CPUState \<Rightarrow> int" where
  "reg8 idx r =
     (let v = reg16 (reg8_base idx) r in
      if idx \<ge> 4 then drop_bit 8 v AND 0xFF else v AND 0xFF)"

definition put_reg8 :: "int \<Rightarrow> int \<Rightarrow> CPUState \<Rightarrow> CPUState" where
  "put_reg8 idx v r =
     (let cur = reg16 (reg8_base idx) r;
          new = (if idx \<ge> 4 then (cur AND 0x00FF) OR push_bit 8 (v AND 0xFF)
                 else (cur AND 0xFF00) OR (v AND 0xFF))
      in put_reg16 (reg8_base idx) (new AND 0xFFFF) r)"

definition get_reg8 :: "int \<Rightarrow> ('w, int) cpu_op" where
  "get_reg8 idx = get_regs (reg8 idx)"

definition set_reg8 :: "int \<Rightarrow> int \<Rightarrow> ('w, unit) cpu_op" where
  "set_reg8 idx v = upd_regs (put_reg8 idx v)"

definition get_sreg :: "int \<Rightarrow> ('w, int) cpu_op" where
  "get_sreg idx = get_regs (\<lambda>r. seg_of (SREG idx) r AND 0xFFFF)"

definition set_sreg :: "int \<Rightarrow> int \<Rightarrow> ('w, unit) cpu_op" where
  "set_sreg idx v = upd_regs (put_seg (SREG idx) (v AND 0xFFFF))"

definition getr :: "nat \<Rightarrow> int \<Rightarrow> ('w, int) cpu_op" where
  "getr bits idx = (if bits = 8 then get_reg8 idx else get_reg16 idx)"

definition setr :: "nat \<Rightarrow> int \<Rightarrow> int \<Rightarrow> ('w, unit) cpu_op" where
  "setr bits idx v = (if bits = 8 then set_reg8 idx v else set_reg16 idx v)"

text \<open>\<open>DAA\<close>: decimal adjust AL after BCD addition.\<close>

definition daa :: "('w, unit) cpu_op" where
  "daa =
     bindM (get_reg8 0) (\<lambda>old_al.
     bindM (get_flag CF) (\<lambda>old_cf.
     bindM (get_flag AF) (\<lambda>old_af.
       let adjust_low = (old_al AND 0x0F > 9 \<or> old_af);
           al = (if adjust_low then (old_al + 0x06) AND 0xFF else old_al);
           adjust_high = (old_al > 0x99 \<or> old_cf);
           al = (if adjust_high then (al + 0x60) AND 0xFF else al)
       in seqM [set_reg8 0 al, set_flag AF adjust_low, set_flag CF adjust_high,
                set_flag ZF (al = 0), set_flag SF (al AND 0x80 \<noteq> 0), set_flag PF (parity al)])))"

section \<open>Instruction fetch\<close>

definition set_ip :: "int \<Rightarrow> ('w, unit) cpu_op" where
  "set_ip v = upd_regs (\<lambda>r. r\<lparr>ip := v\<rparr>)"

definition in_ega_window :: "int \<Rightarrow> bool" where
  "in_ega_window a \<longleftrightarrow> \<not> (a < EGA_CPU_APERTURE \<or> a \<ge> EGA_CPU_APERTURE + EGA_PLANE_WINDOW)"

text \<open>The byte at CS:IP.  The selector branch indexes \<open>sel_base\<close> with the selector as it is, where
  \<open>rb\<close> masks its low two bits off.\<close>

definition code_byte :: "('w, int) cpu_op" where
  "code_byte = bindM (getM (\<lambda>c. c)) (\<lambda>c.
     let r = regs c; m = mem c; off = ip r AND 0xFFFF in
     case sel_base m of
       Some sb \<Rightarrow>
         (let seg = cs r AND 0xFFFF in
          if seg \<ge> sel_min m then
            (case sb seg of
               Some base \<Rightarrow> on_mem (byte_at (base + off))
             | None \<Rightarrow> on_mem (byte_at (push_bit 4 seg + off)))
          else on_mem (byte_at (push_bit 4 seg + off)))
     | None \<Rightarrow>
         (let a = (push_bit 4 (cs r AND 0xFFFF) + off) AND 0xFFFFF in
          if \<not> ega_planar m \<or> \<not> in_ega_window a then on_mem (byte_at a)
          else on_mem (rb (cs r) off)))"

definition fetch8 :: "('w, int) cpu_op" where
  "fetch8 =
     bindM (get_regs (\<lambda>r. ip r AND 0xFFFF)) (\<lambda>off.
     bindM code_byte (\<lambda>v.
     thenM (set_ip ((off + 1) AND 0xFFFF)) (ret v)))"

definition fetch16 :: "('w, int) cpu_op" where
  "fetch16 = bindM (getM (\<lambda>c. c)) (\<lambda>c.
     let m = mem c;
         base = push_bit 4 (cs (regs c) AND 0xFFFF) AND 0xFFFFF;
         off = ip (regs c) AND 0xFFFF;
         a0 = (base + off) AND 0xFFFFF;
         a1 = (base + ((off + 1) AND 0xFFFF)) AND 0xFFFFF in
     if sel_base m = None \<and> (\<not> ega_planar m \<or> (\<not> in_ega_window a0 \<and> \<not> in_ega_window a1)) then
       thenM (set_ip ((off + 2) AND 0xFFFF))
         (bindM (on_mem (byte_at a0)) (\<lambda>lo.
          bindM (on_mem (byte_at a1)) (\<lambda>hi. ret (lo OR push_bit 8 hi))))
     else
       bindM fetch8 (\<lambda>lo. bindM fetch8 (\<lambda>hi. ret (lo OR push_bit 8 hi))))"

definition sign8 :: "int \<Rightarrow> int" where
  "sign8 v = (if v AND 0x80 \<noteq> 0 then v - 0x100 else v)"

definition sign16 :: "int \<Rightarrow> int" where
  "sign16 v = (if v AND 0x8000 \<noteq> 0 then v - 0x10000 else v)"

definition peek_modrm :: "('w, int \<times> int \<times> int) cpu_op" where
  "peek_modrm =
     bindM (get_regs (\<lambda>r. ip r AND 0xFFFF)) (\<lambda>off.
     bindM (getM (\<lambda>c. c)) (\<lambda>c.
       if sel_base (mem c) \<noteq> None then
         bindM fetch8 (\<lambda>m. ret (drop_bit 6 m AND 3, drop_bit 3 m AND 7, m AND 7))
       else
         (let a = (push_bit 4 (cs (regs c) AND 0xFFFF) + off) AND 0xFFFFF in
          bindM (if \<not> ega_planar (mem c) \<or> \<not> in_ega_window a then on_mem (byte_at a)
                 else on_mem (rb (cs (regs c)) off)) (\<lambda>m.
          thenM (set_ip ((off + 1) AND 0xFFFF))
            (ret (drop_bit 6 m AND 3, drop_bit 3 m AND 7, m AND 7))))))"

section \<open>The stack\<close>

definition push :: "int \<Rightarrow> ('w, unit) cpu_op" where
  "push value =
     thenM (upd_regs (\<lambda>r. r\<lparr>sp := (sp r - 2) AND 0xFFFF\<rparr>))
       (bindM (get_regs (\<lambda>r. r)) (\<lambda>r. on_mem (ww (ss r) (sp r) value)))"

definition pop :: "('w, int) cpu_op" where
  "pop =
     bindM (get_regs (\<lambda>r. r)) (\<lambda>r.
     bindM (on_mem (rw (ss r) (sp r))) (\<lambda>v.
     thenM (upd_regs (\<lambda>r. r\<lparr>sp := (sp r + 2) AND 0xFFFF\<rparr>)) (ret v)))"

section \<open>Effective addresses and operands\<close>

record EffectiveAddress =
  segment :: sreg
  offset :: int

datatype operand = RegOperand (op_rm: int) (op_bits: nat)
  | MemOperand (op_segv: int) (op_offset: int) (op_bits: nat)

text \<open>Base and default segment of a ModRM memory form.\<close>

definition ea_base :: "int \<Rightarrow> CPUState \<Rightarrow> int \<times> sreg" where
  "ea_base rm r =
     (if rm = 0 then (bx r + si r, DS)
      else if rm = 1 then (bx r + di r, DS)
      else if rm = 2 then (bp r + si r, SS)
      else if rm = 3 then (bp r + di r, SS)
      else if rm = 4 then (si r, DS)
      else if rm = 5 then (di r, DS)
      else if rm = 6 then (bp r, SS)
      else (bx r, DS))"

definition seg_or :: "sreg option \<Rightarrow> sreg \<Rightarrow> sreg" where
  "seg_or so d = (case so of None \<Rightarrow> d | Some sg \<Rightarrow> sg)"

definition decode_ea :: "int \<Rightarrow> int \<Rightarrow> sreg option \<Rightarrow> ('w, EffectiveAddress) cpu_op" where
  "decode_ea md rm so =
     (if md = 0 \<and> rm = 6 then
        bindM fetch16 (\<lambda>disp. ret \<lparr>segment = seg_or so DS, offset = disp AND 0xFFFF\<rparr>)
      else bindM (getM (\<lambda>c. c)) (\<lambda>c.
        let (base, default_seg) = ea_base rm (regs c); seg = seg_or so default_seg;
            m = mem c; off = ip (regs c) AND 0xFFFF;
            cs_base = push_bit 4 (cs (regs c) AND 0xFFFF) AND 0xFFFFF;
            a0 = (cs_base + off) AND 0xFFFFF;
            a1 = (cs_base + ((off + 1) AND 0xFFFF)) AND 0xFFFFF;
            direct = (\<not> ega_planar m \<or> \<not> in_ega_window a0) in
        if md = 0 then ret \<lparr>segment = seg, offset = base AND 0xFFFF\<rparr>
        else if sel_base m = None \<and> direct \<and> md = 1 then
          bindM (on_mem (byte_at a0)) (\<lambda>d.
          thenM (set_ip ((off + 1) AND 0xFFFF))
            (let disp = (if d AND 0x80 \<noteq> 0 then d - 0x100 else d) in
             ret \<lparr>segment = seg, offset = (base + disp) AND 0xFFFF\<rparr>))
        else if sel_base m = None \<and> direct \<and> md = 2
             \<and> (\<not> ega_planar m \<or> \<not> in_ega_window a1) then
          bindM (on_mem (byte_at a0)) (\<lambda>lo. bindM (on_mem (byte_at a1)) (\<lambda>hi.
          thenM (set_ip ((off + 2) AND 0xFFFF))
            (let d = lo OR push_bit 8 hi;
                 disp = (if d AND 0x8000 \<noteq> 0 then d - 0x10000 else d) in
             ret \<lparr>segment = seg, offset = (base + disp) AND 0xFFFF\<rparr>)))
        else if md = 1 then
          bindM fetch8 (\<lambda>d. ret \<lparr>segment = seg, offset = (base + sign8 d) AND 0xFFFF\<rparr>)
        else
          bindM fetch16 (\<lambda>d. ret \<lparr>segment = seg, offset = (base + sign16 d) AND 0xFFFF\<rparr>)))"

definition decode_rm_operand :: "int \<Rightarrow> int \<Rightarrow> nat \<Rightarrow> sreg option \<Rightarrow> ('w, operand) cpu_op" where
  "decode_rm_operand md rm bits so =
     (if md = 3 then ret (RegOperand rm bits)
      else bindM (decode_ea md rm so) (\<lambda>ea.
           bindM (get_regs (seg_of (segment ea))) (\<lambda>segv.
             ret (MemOperand segv (offset ea) bits))))"

fun op_read :: "operand \<Rightarrow> ('w, int) cpu_op" where
  "op_read (RegOperand rm bits) = (if bits = 8 then get_reg8 rm else get_reg16 rm)"
| "op_read (MemOperand segv off bits) = on_mem (if bits = 8 then rb segv off else rw segv off)"

fun op_write :: "operand \<Rightarrow> int \<Rightarrow> ('w, unit) cpu_op" where
  "op_write (RegOperand rm bits) v = (if bits = 8 then set_reg8 rm v else set_reg16 rm v)"
| "op_write (MemOperand segv off bits) v =
     on_mem (if bits = 8 then wb segv off v else ww segv off v)"

text \<open>\<open>_MemOperand.read_far\<close>; a register operand has no such method.\<close>

fun op_read_far :: "operand \<Rightarrow> ('w, int \<times> int) cpu_op" where
  "op_read_far (MemOperand segv off bits) =
     bindM (on_mem (rw segv off)) (\<lambda>o1.
     bindM (on_mem (rw segv ((off + 2) AND 0xFFFF))) (\<lambda>s1. ret (o1, s1)))"
| "op_read_far (RegOperand rm bits) = raise PyTypeError"

definition read_rm :: "int \<Rightarrow> int \<Rightarrow> nat \<Rightarrow> sreg option \<Rightarrow> ('w, int) cpu_op" where
  "read_rm md rm bits so =
     (if md = 3 then (if bits = 8 then get_reg8 rm else get_reg16 rm)
      else bindM (decode_ea md rm so) (\<lambda>ea.
           bindM (get_regs (seg_of (segment ea))) (\<lambda>seg.
             on_mem (if bits = 8 then rb seg (offset ea) else rw seg (offset ea)))))"

definition write_rm :: "int \<Rightarrow> int \<Rightarrow> nat \<Rightarrow> int \<Rightarrow> sreg option \<Rightarrow> ('w, unit) cpu_op" where
  "write_rm md rm bits v so =
     (if md = 3 then (if bits = 8 then set_reg8 rm v else set_reg16 rm v)
      else bindM (decode_ea md rm so) (\<lambda>ea.
           bindM (get_regs (seg_of (segment ea))) (\<lambda>seg.
             on_mem (if bits = 8 then wb seg (offset ea) v else ww seg (offset ea) v))))"

text \<open>Hardware interrupt entry: push FLAGS, CS, IP, clear IF and TF, jump to the IVT handler.\<close>

definition enter_hardware_interrupt :: "int \<Rightarrow> ('w, unit) cpu_op" where
  "enter_hardware_interrupt irq =
     (let vec = (if irq < 8 then 0x08 + irq else 0x70 + irq - 8) in
      bindM (on_mem (rw 0 (vec * 4))) (\<lambda>off.
      bindM (on_mem (rw 0 (vec * 4 + 2))) (\<lambda>seg.
      thenM (bindM (get_regs flags) push)
     (thenM (bindM (get_regs (\<lambda>r. cs r AND 0xFFFF)) push)
     (thenM (bindM (get_regs (\<lambda>r. ip r AND 0xFFFF)) push)
     (thenM (set_flag IF False)
     (thenM (set_flag TF False)
       (upd_regs (\<lambda>r. r\<lparr>cs := seg AND 0xFFFF, ip := off AND 0xFFFF\<rparr>)))))))))"

end
