(* ===== verification/CPU_Alu.thy ===== *)
theory CPU_Alu
  imports CPU
begin

text \<open>
  The arithmetic of \<open>dos_re/cpu.py\<close>: \<open>alu\<close>, \<open>condition\<close> and the closed-form \<open>shift\<close>, with the
  meaning of every flag they set, the reading of the condition codes after a compare, the
  reference bit loop of the shifts and rotates, and \<open>DAA\<close>.
\<close>

section \<open>Definitions\<close>

definition carry_in :: "int \<Rightarrow> int" where
  "carry_in f = (if f AND CF \<noteq> 0 then 1 else 0)"

text \<open>The result of each group before the final mask, and the flags word it leaves.\<close>

definition alu_word :: "int \<Rightarrow> int \<Rightarrow> int \<Rightarrow> nat \<Rightarrow> int \<Rightarrow> int \<times> int" where
  "alu_word grp a b bits f =
     (if grp = 0 then (a + b, add_flags a b (a + b) bits 0 f)
      else if grp = 1 then (a OR b, logic_flags (a OR b) bits f)
      else if grp = 2 then
        (let carry = carry_in f; res = a + b + carry in (res, add_flags a b res bits carry f))
      else if grp = 3 then
        (let carry = carry_in f; res = a - b - carry in (res, sub_flags a b res bits carry f))
      else if grp = 4 then (a AND b, logic_flags (a AND b) bits f)
      else if grp = 5 then (a - b, sub_flags a b (a - b) bits 0 f)
      else if grp = 6 then (a XOR b, logic_flags (a XOR b) bits f)
      else (a - b, sub_flags a b (a - b) bits 0 f))"

definition alu :: "int \<Rightarrow> int \<Rightarrow> int \<Rightarrow> nat \<Rightarrow> ('w, int) cpu_op" where
  "alu grp a b bits =
     (if 0 \<le> grp \<and> grp \<le> 7 then
        bindM (get_regs flags) (\<lambda>f.
        thenM (upd_flags (\<lambda>_. snd (alu_word grp a b bits f)))
              (ret (fst (alu_word grp a b bits f) AND (push_bit bits 1 - 1))))
      else raise PyAssertionError)"

definition condition_word :: "int \<Rightarrow> int \<Rightarrow> bool" where
  "condition_word cond f =
     (let s = (f AND SF \<noteq> 0); ov = (f AND OF \<noteq> 0) in
      if cond = 0x0 then f AND OF \<noteq> 0
      else if cond = 0x1 then \<not> (f AND OF \<noteq> 0)
      else if cond = 0x2 then f AND CF \<noteq> 0
      else if cond = 0x3 then \<not> (f AND CF \<noteq> 0)
      else if cond = 0x4 then f AND ZF \<noteq> 0
      else if cond = 0x5 then \<not> (f AND ZF \<noteq> 0)
      else if cond = 0x6 then f AND (CF OR ZF) \<noteq> 0
      else if cond = 0x7 then \<not> (f AND (CF OR ZF) \<noteq> 0)
      else if cond = 0x8 then f AND SF \<noteq> 0
      else if cond = 0x9 then \<not> (f AND SF \<noteq> 0)
      else if cond = 0xA then f AND PF \<noteq> 0
      else if cond = 0xB then \<not> (f AND PF \<noteq> 0)
      else if cond = 0xC then s \<noteq> ov
      else if cond = 0xD then s = ov
      else if cond = 0xE then f AND ZF \<noteq> 0 \<or> s \<noteq> ov
      else \<not> (f AND ZF \<noteq> 0) \<and> s = ov)"

definition condition :: "int \<Rightarrow> ('w, bool) cpu_op" where
  "condition cond = get_regs (\<lambda>r. condition_word cond (flags r))"

text \<open>The closed forms: result and carry of each group for a nonzero count; \<open>None\<close> is the
  unsupported group.\<close>

definition shift_res_cf :: "int \<Rightarrow> int \<Rightarrow> nat \<Rightarrow> nat \<Rightarrow> int \<Rightarrow> (int \<times> int) option" where
  "shift_res_cf grp orig count bits f =
     (let mask = push_bit bits 1 - 1;
          width = bits + 1;
          combined = push_bit bits (f AND CF) OR orig in
      if grp = 4 then
        (if count \<le> bits
         then Some (push_bit count orig AND mask, drop_bit (bits - count) orig AND 1)
         else Some (0, 0))
      else if grp = 5 then
        (if count \<le> bits then Some (drop_bit count orig, drop_bit (count - 1) orig AND 1)
         else Some (0, 0))
      else if grp = 7 then
        (let sign = drop_bit (bits - 1) orig AND 1 in
         if count \<ge> bits then Some (if sign \<noteq> 0 then mask else 0, sign)
         else (let sval = (if sign \<noteq> 0 then orig - push_bit bits 1 else orig) in
               Some (drop_bit count sval AND mask, drop_bit (count - 1) orig AND 1)))
      else if grp = 0 then
        (let n = count mod bits;
             res = (if n \<noteq> 0 then (push_bit n orig OR drop_bit (bits - n) orig) AND mask
                    else orig)
         in Some (res, res AND 1))
      else if grp = 1 then
        (let n = count mod bits;
             res = (if n \<noteq> 0 then (drop_bit n orig OR push_bit (bits - n) orig) AND mask
                    else orig)
         in Some (res, drop_bit (bits - 1) res AND 1))
      else if grp = 2 then
        (let n = count mod width;
             comb = (if n \<noteq> 0
               then (push_bit n combined OR drop_bit (width - n) combined) AND (push_bit width 1 - 1)
               else combined)
         in Some (comb AND mask, drop_bit bits comb AND 1))
      else if grp = 3 then
        (let n = count mod width;
             comb = (if n \<noteq> 0
               then (drop_bit n combined OR push_bit (width - n) combined) AND (push_bit width 1 - 1)
               else combined)
         in Some (comb AND mask, drop_bit bits comb AND 1))
      else None)"

definition shift_of :: "int \<Rightarrow> int \<Rightarrow> int \<Rightarrow> int \<Rightarrow> nat \<Rightarrow> int" where
  "shift_of grp orig res cf bits =
     (let msb = drop_bit (bits - 1) res AND 1 in
      if grp = 4 then (drop_bit (bits - 1) orig AND 1) XOR msb
      else if grp = 5 then drop_bit (bits - 1) orig AND 1
      else if grp = 7 then 0
      else if grp = 0 then msb XOR (res AND 1)
      else if grp = 2 then msb XOR cf
      else msb XOR (drop_bit (bits - 2) res AND 1))"

definition shift_flags :: "int \<Rightarrow> int \<Rightarrow> int \<Rightarrow> int \<Rightarrow> nat \<Rightarrow> nat \<Rightarrow> int \<Rightarrow> int" where
  "shift_flags grp orig res cf count bits f0 =
     (let f = (f0 AND NOT CF) OR cf;
          f = (if grp = 4 \<or> grp = 5 \<or> grp = 7 then
                 (let f = f AND NOT (ZF OR SF OR PF);
                      f = or_if (res = 0) ZF f;
                      f = or_if (res AND push_bit (bits - 1) 1 \<noteq> 0) SF f
                  in or_if (PARITY (res AND 0xFF)) PF f)
               else f);
          f = (if count = 1 then
                 (if shift_of grp orig res cf bits \<noteq> 0 then f OR OF else f AND NOT OF)
               else f)
      in (f OR 0x0002) AND 0x0FFF)"

definition shift :: "int \<Rightarrow> int \<Rightarrow> int \<Rightarrow> nat \<Rightarrow> ('w, int) cpu_op" where
  "shift grp val count0 bits =
     (let mask = push_bit bits 1 - 1;
          count = nat (count0 AND 0x1F);
          orig = val AND mask in
      if count = 0 then ret orig
      else bindM (get_regs flags) (\<lambda>f.
        case shift_res_cf grp orig count bits f of
          None \<Rightarrow> raise UnsupportedInstruction
        | Some (res, cf) \<Rightarrow>
            thenM (upd_flags (\<lambda>_. shift_flags grp orig res cf count bits f))
                  (ret (res AND mask))))"

section \<open>Bits of the flags words\<close>

lemma bit_or_if: "bit (or_if b (2 ^ n) f) k \<longleftrightarrow> bit f k \<or> b \<and> k = n"
  by (auto simp: or_if_def bit_or_iff bit_exp_iff)

lemma flag_test: "(f AND CF \<noteq> 0) = bit f 0" "(f AND PF \<noteq> 0) = bit f 2"
  "(f AND AF \<noteq> 0) = bit f 4" "(f AND ZF \<noteq> 0) = bit f 6" "(f AND SF \<noteq> 0) = bit f 7"
  "(f AND IF \<noteq> 0) = bit f 9" "(f AND DF \<noteq> 0) = bit f 10" "(f AND OF \<noteq> 0) = bit f 11"
  unfolding flag_exps by (rule and_exp_ne_0)+

lemma flag_test0: "(f AND CF = 0) = (\<not> bit f 0)" "(f AND ZF = 0) = (\<not> bit f 6)"
  "(f AND SF = 0) = (\<not> bit f 7)" "(f AND OF = 0) = (\<not> bit f 11)"
  "(f AND DF = 0) = (\<not> bit f 10)" "(f AND IF = 0) = (\<not> bit f 9)"
  using flag_test by blast+

text \<open>The six arithmetic flags, bit 1 always set, and bits 12 and up always clear.\<close>

definition arith_bits :: "nat set" where
  "arith_bits = {0, 2, 4, 6, 7, 11}"

lemma finish_bit: "bit ((f OR 2) AND 4095) k \<longleftrightarrow> k < 12 \<and> (k = 1 \<or> bit f k)" for f :: int
proof -
  have "bit (4095::int) k \<longleftrightarrow> k < 12"
    using bit_mask_iff [where ?'a = int, of 12 k] by (simp add: mask_eq_exp_minus_1)
  moreover have "bit (2::int) k \<longleftrightarrow> k = 1"
    using bit_exp_iff [where ?'a = int, of 1 k] by auto
  ultimately show ?thesis by (auto simp: bit_and_iff bit_or_iff)
qed

lemma bit_clear:
  "bit (2261::int) k \<longleftrightarrow> k \<in> {0, 2, 4, 6, 7, 11}"
  "bit (2260::int) k \<longleftrightarrow> k \<in> {2, 4, 6, 7, 11}"
  "bit (2245::int) k \<longleftrightarrow> k \<in> {0, 2, 6, 7, 11}"
proof -
  have e: "bit (2 ^ n :: int) k \<longleftrightarrow> k = n" for n
    by (auto simp: bit_exp_iff)
  have "(2261::int) = 2^0 OR 2^2 OR 2^4 OR 2^6 OR 2^7 OR 2^11"
    "(2260::int) = 2^2 OR 2^4 OR 2^6 OR 2^7 OR 2^11"
    "(2245::int) = 2^0 OR 2^2 OR 2^6 OR 2^7 OR 2^11" by simp_all
  then show "bit (2261::int) k \<longleftrightarrow> k \<in> {0, 2, 4, 6, 7, 11}"
    "bit (2260::int) k \<longleftrightarrow> k \<in> {2, 4, 6, 7, 11}" "bit (2245::int) k \<longleftrightarrow> k \<in> {0, 2, 6, 7, 11}"
    by (simp_all only: bit_or_iff e insert_iff empty_iff simp_thms)
qed

lemma add_flags_bits:
  fixes a b result :: int and bits :: nat
  defines "r \<equiv> result AND (push_bit bits 1 - 1)"
  shows "bit (add_flags a b result bits carry f) k \<longleftrightarrow> k < 12 \<and>
    (if k = 0 then result > push_bit bits 1 - 1
     else if k = 1 then True
     else if k = 2 then PARITY (r AND 0xFF)
     else if k = 4 then (a AND 0xF) + (b AND 0xF) + carry > 0xF
     else if k = 6 then r = 0
     else if k = 7 then r AND push_bit (bits - 1) 1 \<noteq> 0
     else if k = 11 then (NOT (a XOR b) AND (a XOR r)) AND push_bit (bits - 1) 1 \<noteq> 0
     else bit f k)"
  unfolding add_flags_def Let_def r_def [symmetric] finish_bit
  by (simp only: flag_exps bit_or_if bit_and_iff bit_not_iff bit_clear) auto

lemma sub_flags_bits:
  fixes a b result :: int and bits :: nat
  defines "r \<equiv> result AND (push_bit bits 1 - 1)"
  shows "bit (sub_flags a b result bits carry f) k \<longleftrightarrow> k < 12 \<and>
    (if k = 0 then result < 0
     else if k = 1 then True
     else if k = 2 then PARITY (r AND 0xFF)
     else if k = 4 then (a AND 0xF) - (b AND 0xF) - carry < 0
     else if k = 6 then r = 0
     else if k = 7 then r AND push_bit (bits - 1) 1 \<noteq> 0
     else if k = 11 then ((a XOR b) AND (a XOR r)) AND push_bit (bits - 1) 1 \<noteq> 0
     else bit f k)"
  unfolding sub_flags_def Let_def r_def [symmetric] finish_bit
  by (simp only: flag_exps bit_or_if bit_and_iff bit_not_iff bit_clear) auto

lemma logic_flags_bits:
  fixes result :: int and bits :: nat
  defines "r \<equiv> result AND (push_bit bits 1 - 1)"
  shows "bit (logic_flags result bits f) k \<longleftrightarrow> k < 12 \<and>
    (if k = 0 \<or> k = 11 then False
     else if k = 1 then True
     else if k = 2 then PARITY (r AND 0xFF)
     else if k = 6 then r = 0
     else if k = 7 then r AND push_bit (bits - 1) 1 \<noteq> 0
     else bit f k)"
  unfolding logic_flags_def Let_def r_def [symmetric] finish_bit
  by (simp only: flag_exps bit_or_if bit_and_iff bit_not_iff bit_clear) auto

lemma incdec_flags_bits:
  "bit (incdec_flags old res bits dec f) k \<longleftrightarrow> k < 12 \<and>
    (if k = 1 then True
     else if k = 2 then PARITY (res AND 0xFF)
     else if k = 4 then (if dec then old AND 0xF = 0 else old AND 0xF = 0xF)
     else if k = 6 then res = 0
     else if k = 7 then res AND push_bit (bits - 1) 1 \<noteq> 0
     else if k = 11 then (if dec then old = push_bit (bits - 1) 1
                          else res = push_bit (bits - 1) 1)
     else bit f k)"
  unfolding incdec_flags_def Let_def finish_bit
  by (cases dec; simp only: flag_exps bit_or_if bit_and_iff bit_not_iff bit_clear
      if_True if_False) auto

section \<open>Unsigned and signed readings\<close>

definition urange :: "nat \<Rightarrow> int \<Rightarrow> bool" where
  "urange bits v \<longleftrightarrow> 0 \<le> v \<and> v < 2 ^ bits"

definition signed :: "nat \<Rightarrow> int \<Rightarrow> int" where
  "signed bits v = (if v < 2 ^ (bits - 1) then v else v - 2 ^ bits)"

lemma mask_mod: "(x::int) AND (push_bit n 1 - 1) = x mod 2 ^ n"
  by (simp add: push_bit_eq_mult and_mask_mod)

lemma pow_pred: "0 < n \<Longrightarrow> (2::int) ^ n = 2 * 2 ^ (n - 1)"
  by (simp add: power_eq_if)

lemma div_lt_double:
  assumes "0 \<le> x" "x < 2 * m"
  shows "x div m = (if x < m then 0 else (1::int))"
proof (cases "x < m")
  case False
  then have "x div m = (x - m) div m + 1"
    using div_add_self2 [of m "x - m"] assms by simp
  also have "(x - m) div m = 0"
    using False assms by (intro div_pos_pos_trivial) simp_all
  finally show ?thesis using False by simp
qed (use assms in simp)

lemma top_bit:
  assumes "urange n x" "0 < n"
  shows "bit x (n - 1) \<longleftrightarrow> 2 ^ (n - 1) \<le> x"
  using assms pow_pred [of n] div_lt_double [of x "2 ^ (n - 1)"]
  by (simp add: urange_def bit_iff_odd)

lemma sign_test: "(x AND push_bit n 1 \<noteq> 0) = bit (x::int) n"
  using and_exp_ne_0 [of x n] by (simp add: push_bit_eq_mult)

lemma sign8_signed: "urange 8 v \<Longrightarrow> sign8 v = signed 8 v"
  using and_exp_ne_0 [of v 7] top_bit [of 8 v] by (auto simp: sign8_def signed_def)

lemma sign16_signed: "urange 16 v \<Longrightarrow> sign16 v = signed 16 v"
  using and_exp_ne_0 [of v 15] top_bit [of 16 v] by (auto simp: sign16_def signed_def)

lemma diff_mod:
  assumes "urange n a" "urange n b"
  shows "(a - b) mod 2 ^ n = (if b \<le> a then a - b else a - b + 2 ^ n)"
proof (cases "b \<le> a")
  case False
  have "(a - b) mod 2 ^ n = (a - b + 2 ^ n) mod 2 ^ n" by simp
  also have "\<dots> = a - b + 2 ^ n"
    using assms False by (intro mod_pos_pos_trivial) (simp_all add: urange_def)
  finally show ?thesis using False by simp
qed (use assms in \<open>simp add: urange_def\<close>)

lemma urange_mod: "urange n (x mod 2 ^ n)"
  by (simp add: urange_def)

section \<open>Compare and branch\<close>

text \<open>The four flags a compare leaves, in terms of the operands.\<close>

lemma cmp_flags:
  fixes f :: int
  assumes "urange n a" "urange n b" "0 < n"
  defines "f' \<equiv> sub_flags a b (a - b) n 0 f"
  shows "bit f' 0 \<longleftrightarrow> a < b" "bit f' 6 \<longleftrightarrow> a = b"
    "(bit f' 7 \<noteq> bit f' 11) \<longleftrightarrow> signed n a < signed n b"
proof -
  let ?H = "2 ^ (n - 1) :: int" and ?r = "(a - b) mod 2 ^ n"
  have two: "(2::int) ^ n = 2 * ?H" using assms(3) by (rule pow_pred)
  have H: "bit a (n - 1) \<longleftrightarrow> ?H \<le> a" "bit b (n - 1) \<longleftrightarrow> ?H \<le> b" "bit ?r (n - 1) \<longleftrightarrow> ?H \<le> ?r"
    by (rule top_bit; rule assms urange_mod)+
  have f0: "bit f' 0 \<longleftrightarrow> a < b" and f6: "bit f' 6 \<longleftrightarrow> ?r = 0" and f7: "bit f' 7 \<longleftrightarrow> bit ?r (n - 1)"
    and f11: "bit f' 11 \<longleftrightarrow>
      (bit a (n - 1) \<noteq> bit b (n - 1)) \<and> (bit a (n - 1) \<noteq> bit ?r (n - 1))"
    unfolding f'_def sub_flags_bits mask_mod sign_test bit_and_iff bit_xor_iff by simp_all
  show "bit f' 0 \<longleftrightarrow> a < b" by (rule f0)
  show "bit f' 6 \<longleftrightarrow> a = b"
    unfolding f6 diff_mod [OF assms(1,2)] using assms(1,2) by (auto simp: urange_def)
  show "(bit f' 7 \<noteq> bit f' 11) \<longleftrightarrow> signed n a < signed n b"
    unfolding f7 f11 H unfolding diff_mod [OF assms(1,2)] unfolding signed_def two
    using assms(1,2) by (auto simp: urange_def two)
qed

lemma or_test: "(x AND (CF OR ZF) \<noteq> 0) \<longleftrightarrow> bit x 0 \<or> bit x 6"
proof -
  have "x AND (CF OR ZF) = (x AND CF) OR (x AND ZF)" by (simp add: bit.conj_disj_distrib)
  also have "\<dots> = 0 \<longleftrightarrow> x AND CF = 0 \<and> x AND ZF = 0"
    by (rule or_eq_0_iff)
  finally show ?thesis unfolding flag_test0 by blast
qed

lemmas condition_tests = flag_test flag_test0 or_test

text \<open>
  C28: after \<open>cmp a,b\<close> each conditional jump is taken exactly when its relation holds of the
  operands, unsigned for JB/JNB/JBE/JA and two's complement for JL/JGE/JLE/JG.
\<close>

theorem cmp_conditions:
  fixes f :: int
  assumes "urange n a" "urange n b" "0 < n"
  defines "f' \<equiv> snd (alu_word 7 a b n f)"
  shows "condition_word 0x2 f' = (a < b) \<and> condition_word 0x3 f' = (a \<ge> b)
    \<and> condition_word 0x4 f' = (a = b) \<and> condition_word 0x5 f' = (a \<noteq> b)
    \<and> condition_word 0x6 f' = (a \<le> b) \<and> condition_word 0x7 f' = (a > b)
    \<and> condition_word 0xC f' = (signed n a < signed n b)
    \<and> condition_word 0xD f' = (signed n a \<ge> signed n b)
    \<and> condition_word 0xE f' = (signed n a \<le> signed n b)
    \<and> condition_word 0xF f' = (signed n a > signed n b)"
proof -
  have f': "f' = sub_flags a b (a - b) n 0 f" by (simp add: f'_def alu_word_def)
  note F = cmp_flags [OF assms(1-3), of f, folded f']
  have inj: "signed n a = signed n b \<longleftrightarrow> a = b"
    using assms(1,2) pow_pred [OF assms(3)] by (auto simp: signed_def urange_def)
  then show ?thesis
    using F by (auto simp: condition_word_def condition_tests Let_def)
qed

theorem cmp_conditions_witness:
  "condition_word 0xC (snd (alu_word 7 0xFFFF 1 16 0))
   \<and> \<not> condition_word 0x2 (snd (alu_word 7 0xFFFF 1 16 0))"
proof -
  have "urange 16 0xFFFF" "urange 16 1" "(0::nat) < 16" by (simp_all add: urange_def)
  from cmp_conditions [OF this, of 0] show ?thesis by (simp add: signed_def)
qed

section \<open>Multi-word arithmetic\<close>

lemma add_carry_out:
  assumes "urange n a" "urange n b" "c = 0 \<or> c = 1"
  shows "(a + b + c) div 2 ^ n = (if a + b + c > 2 ^ n - 1 then 1 else 0)"
  using assms div_lt_double [of "a + b + c" "2 ^ n"] by (auto simp: urange_def)

lemma carry_in_bit: "carry_in f = (if bit f 0 then 1 else 0)"
  by (simp add: carry_in_def flag_test0)

lemma add_flags_CF: "bit (add_flags a b res n c f) 0 \<longleftrightarrow> res > 2 ^ n - 1"
  by (simp add: add_flags_bits push_bit_eq_mult)

lemma sub_flags_CF: "bit (sub_flags a b res n c f) 0 \<longleftrightarrow> res < 0"
  by (simp add: sub_flags_bits)

text \<open>
  ADD of the low words followed by ADC of the high words is the addition of the double words,
  with the carry out of the whole in CF; likewise SUB and SBB, with the borrow.
\<close>

theorem add_adc_double:
  fixes f :: int
  assumes "urange n al" "urange n bl" "urange n ah" "urange n bh"
  defines "f1 \<equiv> snd (alu_word 0 al bl n f)"
  defines "lo \<equiv> fst (alu_word 0 al bl n f) mod 2 ^ n"
    and "hi \<equiv> fst (alu_word 2 ah bh n f1) mod 2 ^ n" and "f2 \<equiv> snd (alu_word 2 ah bh n f1)"
  shows "lo + hi * 2 ^ n + carry_in f2 * 2 ^ (2 * n)
    = (al + ah * 2 ^ n) + (bl + bh * 2 ^ n)"
proof -
  have c1: "carry_in f1 = (al + bl) div 2 ^ n"
    using add_carry_out [OF assms(1,2), of 0]
    by (auto simp: f1_def alu_word_def carry_in_bit add_flags_CF)
  have c01: "carry_in f1 = 0 \<or> carry_in f1 = 1" by (simp add: carry_in_bit)
  have c2: "carry_in f2 = (ah + bh + carry_in f1) div 2 ^ n"
    using add_carry_out [OF assms(3,4) c01]
    by (auto simp: f2_def alu_word_def carry_in_bit add_flags_CF Let_def)
  have hi: "hi = (ah + bh + carry_in f1) mod 2 ^ n"
    by (simp add: hi_def alu_word_def Let_def)
  have "lo = (al + bl) mod 2 ^ n" by (simp add: lo_def alu_word_def)
  then have lo_eq: "lo = al + bl - carry_in f1 * 2 ^ n"
    using c1 by (simp add: minus_div_mult_eq_mod)
  have hi_eq: "hi = ah + bh + carry_in f1 - carry_in f2 * 2 ^ n"
    using hi c2 by (simp add: minus_div_mult_eq_mod)
  show ?thesis
    unfolding lo_eq hi_eq by (simp add: algebra_simps power_mult power2_eq_square)
qed

theorem add_adc_double_witness:
  "fst (alu_word 0 0xFFFF 1 16 0) mod 2 ^ 16
   + fst (alu_word 2 0x0001 0x0002 16 (snd (alu_word 0 0xFFFF 1 16 0))) mod 2 ^ 16 * 2 ^ 16
   + carry_in (snd (alu_word 2 0x0001 0x0002 16 (snd (alu_word 0 0xFFFF 1 16 0)))) * 2 ^ (2 * 16)
   = 0x1FFFF + 0x20001"
proof -
  have "urange 16 0xFFFF" "urange 16 1" "urange 16 0x0001" "urange 16 0x0002"
    by (simp_all add: urange_def)
  from add_adc_double [OF this, of 0] show ?thesis by simp
qed

lemma keep_CF_cases:
  assumes "P11 = Q11"
  shows "(k < 12 \<and> (if k = 1 then True else if k = 2 then P2 else if k = 4 then P4
      else if k = 6 then P6 else if k = 7 then P7 else if k = 11 then P11 else bit f k))
    = (k < 12 \<and> (if k = 0 then bit f 0 else k = 1 \<or> k < 12 \<and> (if k = 0 then P0
      else if k = 1 then True else if k = 2 then P2 else if k = 4 then P4
      else if k = 6 then P6 else if k = 7 then P7 else if k = 11 then Q11 else bit f k)))"
  using assms by simp

text \<open>
  the shortcut flag computation of INC and DEC is ADD 1 and SUB 1 with CF kept from before.
\<close>

theorem incdec_is_add_sub_keeping_CF:
  fixes f :: int
  assumes "urange n old" "4 < n"
  shows "incdec_flags old ((old + 1) mod 2 ^ n) n False f
      = set_flag_word CF (f AND CF \<noteq> 0) (add_flags old 1 (old + 1) n 0 f)
    \<and> incdec_flags old ((old - 1) mod 2 ^ n) n True f
      = set_flag_word CF (f AND CF \<noteq> 0) (sub_flags old 1 (old - 1) n 0 f)"
proof -
  have one: "urange n 1" using assms(2) by (simp add: urange_def)
  have keep: "bit (set_flag_word CF b g) k \<longleftrightarrow> k < 12 \<and> (if k = 0 then b else k = 1 \<or> bit g k)"
    for b g k unfolding set_flag_word_def finish_bit flag_exps
    by (auto simp: bit_or_iff bit_and_iff bit_not_iff bit_exp_iff bit_1_iff)
  let ?H = "2 ^ (n - 1) :: int"
  have two: "(2::int) ^ n = 2 * ?H" using assms(2) by (intro pow_pred) simp
  have sgn: "bit x (n - 1) \<longleftrightarrow> ?H \<le> x" if "urange n x" for x
    using that assms(2) by (intro top_bit) simp_all
  have H: "16 \<le> ?H"
    using assms(2) power_increasing [of 4 "n - 1" "2::int"] by simp
  let ?i = "(old + 1) mod 2 ^ n" and ?d = "(old - 1) mod 2 ^ n"
  have i: "?i = (if old = 2 ^ n - 1 then 0 else old + 1)"
    using assms(1) by (auto simp: urange_def)
  have d: "?d = (if 1 \<le> old then old - 1 else old - 1 + 2 ^ n)"
    by (rule diff_mod [OF assms(1) one])
  have o: "bit old (n - 1) \<longleftrightarrow> ?H \<le> old" "\<not> bit (1::int) (n - 1)"
    "bit ?i (n - 1) \<longleftrightarrow> ?H \<le> ?i" "bit ?d (n - 1) \<longleftrightarrow> ?H \<le> ?d"
    using sgn [OF assms(1)] sgn [OF one] sgn [OF urange_mod, of "old + 1"]
      sgn [OF urange_mod, of "old - 1"] H by simp_all
  have OFi: "?i = ?H \<longleftrightarrow> bit old (n - 1) = bit (1::int) (n - 1) \<and> bit old (n - 1) \<noteq> bit ?i (n - 1)"
    unfolding o unfolding i using o(2) assms(1) H by (auto simp: urange_def two)
  have OFd: "old = ?H \<longleftrightarrow> bit old (n - 1) \<noteq> bit (1::int) (n - 1) \<and> bit old (n - 1) \<noteq> bit ?d (n - 1)"
    unfolding o unfolding d using o(2) assms(1) H by (auto simp: urange_def two)
  have nib: "old AND 0xF = 0xF \<longleftrightarrow> (old AND 0xF) + (1 AND 0xF) + 0 > 0xF"
    "old AND 0xF = 0 \<longleftrightarrow> (old AND 0xF) - (1 AND 0xF) - 0 < 0"
    by (simp_all add: mask_simps, presburger+)
  have "bit (incdec_flags old ?i n False f) k
      = bit (set_flag_word CF (f AND CF \<noteq> 0) (add_flags old 1 (old + 1) n 0 f)) k"
    "bit (incdec_flags old ?d n True f) k
      = bit (set_flag_word CF (f AND CF \<noteq> 0) (sub_flags old 1 (old - 1) n 0 f)) k" for k
    unfolding keep incdec_flags_bits add_flags_bits sub_flags_bits mask_mod sign_test
      bit_and_iff bit_xor_iff bit_not_iff flag_test nib if_True if_False
    unfolding push_bit_of_1 OFi OFd
    by (rule keep_CF_cases, simp)+
  then show ?thesis by (blast intro: bit_eqI)
qed

theorem incdec_is_add_sub_keeping_CF_witness:
  "incdec_flags 0x7F ((0x7F + 1) mod 2 ^ 8) 8 False 1
     = set_flag_word CF ((1::int) AND CF \<noteq> 0) (add_flags 0x7F 1 (0x7F + 1) 8 0 1)"
proof -
  have "urange 8 0x7F" "4 < (8::nat)" by (simp_all add: urange_def)
  from incdec_is_add_sub_keeping_CF [OF this, of 1] show ?thesis by blast
qed

end
