(* ===== verification/CPU_Shift.thy ===== *)
theory CPU_Shift
  imports CPU_Alu
begin

text \<open>
  The closed-form \<open>shift\<close> of \<open>dos_re/cpu.py\<close> against the per-bit loop it replaced: one step of a
  shift or rotate moves one bit through the carry, and the closed forms give the result and the
  carry of any number of steps.
\<close>

section \<open>The bit loop\<close>

text \<open>One position of each group on the pair of result and carry.\<close>

definition shift_once :: "int \<Rightarrow> nat \<Rightarrow> int \<times> int \<Rightarrow> int \<times> int" where
  "shift_once grp bits = (\<lambda>(res, cf).
     let mask = push_bit bits 1 - 1; top = drop_bit (bits - 1) res AND 1; low = res AND 1 in
     if grp = 4 then (push_bit 1 res AND mask, top)
     else if grp = 5 then (drop_bit 1 res, low)
     else if grp = 7 then (drop_bit 1 res OR (res AND push_bit (bits - 1) 1), low)
     else if grp = 0 then ((push_bit 1 res OR top) AND mask, top)
     else if grp = 1 then (drop_bit 1 res OR push_bit (bits - 1) low, low)
     else if grp = 2 then ((push_bit 1 res OR cf) AND mask, top)
     else (drop_bit 1 res OR push_bit (bits - 1) cf, low))"

section \<open>Bits\<close>

lemma and_one_bit: "(x::int) AND 1 = of_bool (bit x 0)"
  by (simp add: and_one_eq bit_0 mod2_eq_if)

lemma drop_and_one: "drop_bit n (x::int) AND 1 = of_bool (bit x n)"
  by (simp add: and_one_bit bit_drop_bit_eq)

lemma mask_take: "(x::int) AND (push_bit n 1 - 1) = take_bit n x" "x AND (2 ^ n - 1) = take_bit n x"
  by (simp_all only: mask_mod and_mask_mod take_bit_eq_mod)

lemma urange_take: "urange n x \<longleftrightarrow> take_bit n x = x"
  by (simp add: urange_def take_bit_int_eq_self_iff)

lemma bit_urange: "urange n x \<Longrightarrow> bit x k \<Longrightarrow> k < n"
  by (metis urange_take bit_take_bit_iff)

lemma bit_of_bool: "bit (of_bool b :: int) k \<longleftrightarrow> b \<and> k = 0"
  by (cases b) (auto simp: bit_1_iff)

lemma bit_pow: "bit (push_bit n 1 :: int) k \<longleftrightarrow> k = n"
  by (auto simp: push_bit_eq_mult bit_exp_iff)

lemma bit_two_pow: "bit (2 ^ n :: int) k \<longleftrightarrow> k = n"
  by (auto simp: bit_exp_iff)

lemmas bit_step = bit_and_iff bit_or_iff bit_take_bit_iff bit_push_bit_iff bit_drop_bit_eq
  bit_of_bool bit_pow bit_two_pow

text \<open>The steps of the loop, with the masks read as bits.\<close>

lemma once_shift:
  "shift_once 4 n (r, c) = (take_bit n (push_bit 1 r), of_bool (bit r (n - 1)))"
  "shift_once 5 n (r, c) = (drop_bit 1 r, of_bool (bit r 0))"
  "shift_once 7 n (r, c) = (drop_bit 1 r OR (r AND push_bit (n - 1) 1), of_bool (bit r 0))"
  unfolding shift_once_def Let_def mask_take and_one_bit by (simp_all add: bit_drop_bit_eq)

lemma once_rotate:
  "shift_once 0 n (r, c) = (take_bit n (push_bit 1 r OR of_bool (bit r (n - 1))),
     of_bool (bit r (n - 1)))"
  "shift_once 1 n (r, c) = (drop_bit 1 r OR push_bit (n - 1) (of_bool (bit r 0)),
     of_bool (bit r 0))"
  "shift_once 2 n (r, c) = (take_bit n (push_bit 1 r OR c), of_bool (bit r (n - 1)))"
  "shift_once 3 n (r, c) = (drop_bit 1 r OR push_bit (n - 1) c, of_bool (bit r 0))"
  unfolding shift_once_def Let_def mask_take and_one_bit by (simp_all add: bit_drop_bit_eq)

section \<open>Shifts\<close>

lemma shl_loop:
  assumes "0 < bits"
  shows "(shift_once 4 bits ^^ k) (orig, c) = (if k = 0 then (orig, c) else
    (take_bit bits (push_bit k orig), of_bool (k \<le> bits \<and> bit orig (bits - k))))"
proof (induction k)
  case 0
  then show ?case by simp
next
  case (Suc k)
  show ?case
  proof (cases "k = 0")
    case True
    then show ?thesis using assms by (simp add: once_shift)
  next
    case False
    have "take_bit bits (push_bit 1 (take_bit bits (push_bit k orig)))
        = take_bit bits (push_bit (Suc k) orig)"
      by (rule bit_eqI) (unfold bit_step, auto)
    moreover have "bit (take_bit bits (push_bit k orig)) (bits - 1)
        \<longleftrightarrow> Suc k \<le> bits \<and> bit orig (bits - Suc k)"
      using assms False unfolding bit_step by auto
    ultimately show ?thesis
      using False by (simp only: funpow.simps(2) o_apply Suc once_shift if_False nat.distinct)
  qed
qed

lemma shr_loop:
  "(shift_once 5 bits ^^ k) (orig, c) = (if k = 0 then (orig, c) else
     (drop_bit k orig, of_bool (bit orig (k - 1))))"
proof (induction k)
  case (Suc k)
  show ?case
  proof (cases "k = 0")
    case False
    then have "bit (drop_bit k orig) 0 = bit orig k" by (simp add: bit_drop_bit_eq)
    then show ?thesis
      using False by (simp only: funpow.simps(2) o_apply Suc once_shift if_False nat.distinct)
        simp
  qed (simp add: once_shift)
qed simp

lemma sar_bit:
  fixes x :: int
  shows "bit (drop_bit 1 (take_bit (Suc b) (drop_bit k (signed_take_bit b x)))
      OR (take_bit (Suc b) (drop_bit k (signed_take_bit b x)) AND push_bit b 1)) n
    = bit (take_bit (Suc b) (drop_bit (Suc k) (signed_take_bit b x))) n"
  unfolding bit_step bit_signed_take_bit_iff
  by (cases "n < b"; cases "n = b") (simp_all add: min_absorb1)

lemma sar_start: "urange (Suc b) x \<Longrightarrow> take_bit (Suc b) (signed_take_bit b x) = x"
  by (simp add: urange_take take_bit_signed_take_bit)

lemma sar_loop:
  assumes "urange (Suc b) orig"
  shows "(shift_once 7 (Suc b) ^^ k) (orig, c)
    = (take_bit (Suc b) (drop_bit k (signed_take_bit b orig)),
       if k = 0 then c else of_bool (bit orig (min (k - 1) b)))"
proof (induction k)
  case 0
  then show ?case using sar_start [OF assms] by simp
next
  case (Suc k)
  let ?x = "take_bit (Suc b) (drop_bit k (signed_take_bit b orig))"
  have "drop_bit 1 ?x OR (?x AND push_bit b 1)
      = take_bit (Suc b) (drop_bit (Suc k) (signed_take_bit b orig))"
    by (rule bit_eqI) (rule sar_bit)
  moreover have "bit ?x 0 = bit orig (min k b)"
    unfolding bit_step bit_signed_take_bit_iff by (simp add: min.commute)
  ultimately show ?case
    by (simp only: funpow.simps(2) o_apply Suc once_shift diff_Suc_1 if_False nat.distinct)
qed

section \<open>Rotates\<close>

text \<open>Rotation of a \<open>w\<close>-bit value by \<open>n\<close> places, as the code writes it.\<close>

definition rotl :: "nat \<Rightarrow> nat \<Rightarrow> int \<Rightarrow> int" where
  "rotl w n x = take_bit w (push_bit n x OR drop_bit (w - n) x)"

definition rotr :: "nat \<Rightarrow> nat \<Rightarrow> int \<Rightarrow> int" where
  "rotr w n x = take_bit w (drop_bit n x OR push_bit (w - n) x)"

lemma bit_rotl:
  assumes "urange w x" "n < w"
  shows "bit (rotl w n x) i \<longleftrightarrow> i < w \<and> bit x (if n \<le> i then i - n else i + w - n)"
proof -
  have "i < w \<Longrightarrow> n \<le> i \<Longrightarrow> \<not> bit x (i + (w - n))"
    using bit_urange [OF assms(1), of "i + (w - n)"] assms(2) by fastforce
  then show ?thesis
    using assms(2) by (auto simp: rotl_def bit_step add.commute)
qed

lemma bit_rotr:
  assumes "urange w x" "n < w"
  shows "bit (rotr w n x) i \<longleftrightarrow> i < w \<and> bit x (if i + n < w then i + n else i + n - w)"
proof -
  have "w \<le> i + n \<Longrightarrow> \<not> bit x (i + n)"
    using bit_urange [OF assms(1), of "i + n"] by fastforce
  then show ?thesis
    using assms(2) by (auto simp: rotr_def bit_step add.commute)
qed

lemma urange_rot: "urange w (rotl w n x)" "urange w (rotr w n x)"
  by (simp_all add: rotl_def rotr_def urange_take)

lemma rotl_0: "urange w x \<Longrightarrow> rotl w 0 x = x" and rotr_0: "urange w x \<Longrightarrow> rotr w 0 x = x"
  by (rule bit_eqI; auto simp: rotl_def rotr_def bit_step dest: bit_urange)+

lemma rotl_Suc:
  assumes "urange w x" "n < w"
  shows "rotl w 1 (rotl w n x) = rotl w (Suc n mod w) x"
proof (cases "w = 1")
  case True
  then show ?thesis using assms by (intro bit_eqI) (auto simp: rotl_def bit_step)
next
  case False
  then have w: "1 < w" "Suc n mod w < w" using assms(2) by auto
  show ?thesis
  proof (rule bit_eqI)
    fix i
    show "bit (rotl w 1 (rotl w n x)) i = bit (rotl w (Suc n mod w) x) i"
      using assms w unfolding bit_rotl [OF urange_rot(1) w(1)] bit_rotl [OF assms]
        bit_rotl [OF assms(1) w(2)]
      by (cases "Suc n = w") (auto simp: le_Suc_eq intro!: arg_cong [where f = "bit x"])
  qed
qed

lemma rotr_Suc:
  assumes "urange w x" "n < w"
  shows "rotr w 1 (rotr w n x) = rotr w (Suc n mod w) x"
proof (cases "w = 1")
  case True
  then show ?thesis using assms by (intro bit_eqI) (auto simp: rotr_def bit_step)
next
  case False
  then have w: "1 < w" "Suc n mod w < w" using assms(2) by auto
  show ?thesis
  proof (rule bit_eqI)
    fix i
    show "bit (rotr w 1 (rotr w n x)) i = bit (rotr w (Suc n mod w) x) i"
      using assms w unfolding bit_rotr [OF urange_rot(2) w(1)] bit_rotr [OF assms]
        bit_rotr [OF assms(1) w(2)]
      by (cases "Suc n = w") (auto intro!: arg_cong [where f = "bit x"])
  qed
qed

lemma rotl_loop:
  assumes "urange w x" "0 < w"
  shows "(rotl w 1 ^^ k) x = rotl w (k mod w) x"
  by (induction k) (use assms in \<open>simp_all add: rotl_0 rotl_Suc [unfolded One_nat_def] mod_Suc_eq\<close>)

lemma rotr_loop:
  assumes "urange w x" "0 < w"
  shows "(rotr w 1 ^^ k) x = rotr w (k mod w) x"
  by (induction k) (use assms in \<open>simp_all add: rotr_0 rotr_Suc [unfolded One_nat_def] mod_Suc_eq\<close>)

text \<open>ROL and ROR: the carry is the bit that moved across the end.\<close>

lemma rol_once:
  assumes "urange n r" "0 < n"
  shows "shift_once 0 n (r, c) = (rotl n 1 r, of_bool (bit (rotl n 1 r) 0))"
proof -
  have "take_bit n (push_bit 1 r OR of_bool (bit r (n - 1))) = rotl n 1 r"
  proof (rule bit_eqI)
    fix i
    show "bit (take_bit n (push_bit 1 r OR of_bool (bit r (n - 1)))) i = bit (rotl n 1 r) i"
      using assms(2) bit_urange [OF assms(1), of "n - 1 + i"]
      unfolding rotl_def bit_step by (cases "i = 0") auto
  qed
  moreover have "bit (rotl n 1 r) 0 = bit r (n - 1)"
    using assms(2) unfolding rotl_def bit_step by auto
  ultimately show ?thesis by (simp only: once_rotate)
qed

lemma ror_once:
  assumes "urange n r" "0 < n"
  shows "shift_once 1 n (r, c) = (rotr n 1 r, of_bool (bit (rotr n 1 r) (n - 1)))"
proof -
  have "drop_bit 1 r OR push_bit (n - 1) (of_bool (bit r 0)) = rotr n 1 r"
  proof (rule bit_eqI)
    fix i
    show "bit (drop_bit 1 r OR push_bit (n - 1) (of_bool (bit r 0))) i = bit (rotr n 1 r) i"
      using assms(2) bit_urange [OF assms(1), of "1 + i"]
      unfolding rotr_def bit_step by (cases "i = n - 1") auto
  qed
  moreover have "bit (rotr n 1 r) (n - 1) = bit r 0"
    using assms(2) bit_urange [OF assms(1), of n] unfolding rotr_def bit_step by auto
  ultimately show ?thesis by (simp only: once_rotate)
qed

lemma rol_loop:
  assumes "urange n r" "0 < n"
  shows "(shift_once 0 n ^^ k) (r, c) = (rotl n (k mod n) r,
    if k = 0 then c else of_bool (bit (rotl n (k mod n) r) 0))"
proof (induction k)
  case 0
  then show ?case using assms by (simp add: rotl_0)
next
  case (Suc k)
  have "rotl n 1 (rotl n (k mod n) r) = rotl n (Suc k mod n) r"
    using rotl_Suc [OF assms(1), of "k mod n"] assms(2) by (simp add: mod_Suc_eq)
  then show ?case
    by (simp only: funpow.simps(2) o_apply Suc rol_once [OF urange_rot(1) assms(2)] if_False
        nat.distinct)
qed

lemma ror_loop:
  assumes "urange n r" "0 < n"
  shows "(shift_once 1 n ^^ k) (r, c) = (rotr n (k mod n) r,
    if k = 0 then c else of_bool (bit (rotr n (k mod n) r) (n - 1)))"
proof (induction k)
  case 0
  then show ?case using assms by (simp add: rotr_0)
next
  case (Suc k)
  have "rotr n 1 (rotr n (k mod n) r) = rotr n (Suc k mod n) r"
    using rotr_Suc [OF assms(1), of "k mod n"] assms(2) by (simp add: mod_Suc_eq)
  then show ?case
    by (simp only: funpow.simps(2) o_apply Suc ror_once [OF urange_rot(2) assms(2)] if_False
        nat.distinct)
qed

text \<open>RCL and RCR rotate the carry and the value as one \<open>n + 1\<close>-bit value.\<close>

definition with_carry :: "nat \<Rightarrow> int \<times> int \<Rightarrow> int" where
  "with_carry n = (\<lambda>(res, cf). push_bit n cf OR res)"

definition without_carry :: "nat \<Rightarrow> int \<Rightarrow> int \<times> int" where
  "without_carry n x = (take_bit n x, of_bool (bit x n))"

lemma with_carry_urange:
  assumes "urange n r" "c = of_bool b"
  shows "urange (Suc n) (with_carry n (r, c))"
proof -
  have "take_bit (Suc n) (with_carry n (r, c)) = with_carry n (r, c)"
    using bit_urange [OF assms(1)] unfolding assms(2) with_carry_def prod.case
    by (intro bit_eqI) (unfold bit_step, fastforce)
  then show ?thesis by (simp only: urange_take)
qed

lemma without_with_carry:
  assumes "urange n r" "c = of_bool b"
  shows "without_carry n (with_carry n (r, c)) = (r, c)"
proof -
  have "take_bit n (with_carry n (r, c)) = r"
    using bit_urange [OF assms(1)] unfolding assms(2) with_carry_def prod.case
    by (intro bit_eqI) (unfold bit_step, auto)
  moreover have "bit (with_carry n (r, c)) n = b"
    using bit_urange [OF assms(1), of n] unfolding assms(2) with_carry_def prod.case bit_step by auto
  ultimately show ?thesis using assms(2) by (simp add: without_carry_def)
qed

lemma rcl_once:
  assumes "urange (Suc n) x" "0 < n"
  shows "shift_once 2 n (without_carry n x) = without_carry n (rotl (Suc n) 1 x)"
proof -
  have "take_bit n (push_bit 1 (take_bit n x) OR of_bool (bit x n)) = take_bit n (rotl (Suc n) 1 x)"
  proof (rule bit_eqI)
    fix i
    show "bit (take_bit n (push_bit 1 (take_bit n x) OR of_bool (bit x n))) i
        = bit (take_bit n (rotl (Suc n) 1 x)) i"
      using bit_urange [OF assms(1), of "n + i"] unfolding rotl_def bit_step
      by (cases "i = 0") auto
  qed
  moreover have "bit (take_bit n x) (n - 1) = bit (rotl (Suc n) 1 x) n"
    using assms(2) bit_urange [OF assms(1), of "n + n"] unfolding rotl_def bit_step by auto
  ultimately show ?thesis by (simp only: without_carry_def once_rotate)
qed

lemma rcr_once:
  assumes "urange (Suc n) x" "0 < n"
  shows "shift_once 3 n (without_carry n x) = without_carry n (rotr (Suc n) 1 x)"
proof -
  have "drop_bit 1 (take_bit n x) OR push_bit (n - 1) (of_bool (bit x n))
      = take_bit n (rotr (Suc n) 1 x)"
  proof (rule bit_eqI)
    fix i
    show "bit (drop_bit 1 (take_bit n x) OR push_bit (n - 1) (of_bool (bit x n))) i
        = bit (take_bit n (rotr (Suc n) 1 x)) i"
      using assms(2) unfolding rotr_def bit_step by (cases "Suc i = n") auto
  qed
  moreover have "bit (take_bit n x) 0 = bit (rotr (Suc n) 1 x) n"
    using assms(2) bit_urange [OF assms(1), of "Suc n"] unfolding rotr_def bit_step by auto
  ultimately show ?thesis by (simp only: without_carry_def once_rotate)
qed

lemma rcl_loop:
  assumes "urange (Suc n) x" "0 < n"
  shows "(shift_once 2 n ^^ k) (without_carry n x) = without_carry n (rotl (Suc n) (k mod Suc n) x)"
proof (induction k)
  case 0
  then show ?case using assms by (simp add: rotl_0)
next
  case (Suc k)
  have "rotl (Suc n) 1 (rotl (Suc n) (k mod Suc n) x) = rotl (Suc n) (Suc k mod Suc n) x"
    using rotl_Suc [OF assms(1), of "k mod Suc n"] by (simp add: mod_Suc_eq)
  then show ?case
    by (simp only: funpow.simps(2) o_apply Suc rcl_once [OF urange_rot(1) assms(2)])
qed

lemma rcr_loop:
  assumes "urange (Suc n) x" "0 < n"
  shows "(shift_once 3 n ^^ k) (without_carry n x) = without_carry n (rotr (Suc n) (k mod Suc n) x)"
proof (induction k)
  case 0
  then show ?case using assms by (simp add: rotr_0)
next
  case (Suc k)
  have "rotr (Suc n) 1 (rotr (Suc n) (k mod Suc n) x) = rotr (Suc n) (Suc k mod Suc n) x"
    using rotr_Suc [OF assms(1), of "k mod Suc n"] by (simp add: mod_Suc_eq)
  then show ?case
    by (simp only: funpow.simps(2) o_apply Suc rcr_once [OF urange_rot(2) assms(2)])
qed

section \<open>The closed forms are the loop\<close>

lemma carry_of_bool: "f AND CF = of_bool (bit f 0)"
  by (simp add: CF_def and_one_bit)

text \<open>
  C26: for every supported group, every nonzero count and a value of the operand's width, the closed
  form returns the result and the carry that the bit loop ends with.
\<close>

theorem shift_closed_form_is_loop:
  assumes "urange bits orig" "0 < bits" "0 < count" "grp \<in> {0, 1, 2, 3, 4, 5, 7}"
  shows "shift_res_cf grp orig count bits f = Some ((shift_once grp bits ^^ count) (orig, f AND CF))"
proof -
  have c: "count \<noteq> 0" "count mod bits < bits" using assms(2,3) by simp_all
  consider "grp = 0" | "grp = 1" | "grp = 2" | "grp = 3" | "grp = 4" | "grp = 5" | "grp = 7"
    using assms(4) by blast
  then show ?thesis
  proof cases
    assume g: "grp = 0"
    have "(if count mod bits \<noteq> 0
        then (push_bit (count mod bits) orig OR drop_bit (bits - count mod bits) orig)
          AND (push_bit bits 1 - 1) else orig) = rotl bits (count mod bits) orig"
      using rotl_0 [OF assms(1)] by (simp only: rotl_def mask_take) simp
    then show ?thesis
      using c by (simp only: g shift_res_cf_def Let_def rol_loop [OF assms(1,2)] and_one_bit) simp
  next
    assume g: "grp = 1"
    have "(if count mod bits \<noteq> 0
        then (drop_bit (count mod bits) orig OR push_bit (bits - count mod bits) orig)
          AND (push_bit bits 1 - 1) else orig) = rotr bits (count mod bits) orig"
      using rotr_0 [OF assms(1)] by (simp only: rotr_def mask_take) simp
    then show ?thesis
      using c by (simp only: g shift_res_cf_def Let_def ror_loop [OF assms(1,2)] drop_and_one) simp
  next
    assume g: "grp = 4"
    have "take_bit bits (push_bit count orig) = 0" if "\<not> count \<le> bits"
      using that by (intro bit_eqI) (auto simp: bit_step)
    then show ?thesis
      using c by (simp only: g shift_res_cf_def Let_def shl_loop [OF assms(2)] mask_take drop_and_one) simp
  next
    assume g: "grp = 5"
    have "drop_bit count orig = 0 \<and> \<not> bit orig (count - 1)" if "\<not> count \<le> bits"
      using that bit_urange [OF assms(1)] by (auto simp: bit_step intro!: bit_eqI) fastforce+
    then show ?thesis
      using c by (simp only: g shift_res_cf_def Let_def shr_loop drop_and_one) simp
  next
    assume g: "grp = 7"
    obtain b where b: "bits = Suc b" using assms(2) by (cases bits) auto
    have s: "orig - (if bit orig b then push_bit bits 1 else 0) = signed_take_bit b orig"
      using assms(1) unfolding b signed_take_bit_eq_take_bit_minus urange_take
      by (simp add: push_bit_eq_mult)
    have big: "take_bit bits (drop_bit count (signed_take_bit b orig))
        = (if bit orig b then push_bit bits 1 - 1 else 0) \<and> bit orig (min (count - 1) b) = bit orig b"
      if "count \<ge> bits"
    proof
      have "bit (push_bit bits 1 - 1 :: int) i \<longleftrightarrow> i < bits" for i
        using bit_mask_iff [where ?'a = int, of bits i] by (simp add: mask_eq_exp_minus_1)
      then show "take_bit bits (drop_bit count (signed_take_bit b orig))
          = (if bit orig b then push_bit bits 1 - 1 else 0)"
        using that b by (intro bit_eqI) (auto simp: bit_step bit_signed_take_bit_iff min_absorb1)
      show "bit orig (min (count - 1) b) = bit orig b" using that b by (simp add: min_absorb2)
    qed
    have small: "min (count - 1) b = count - 1" if "\<not> count \<ge> bits" using that b by simp
    show ?thesis
      using c s big small
      by (simp only: g shift_res_cf_def Let_def b diff_Suc_1 sar_loop [OF assms(1) [unfolded b]]
          mask_take drop_and_one) auto
  next
    assume g: "grp = 2"
    let ?x = "with_carry bits (orig, f AND CF)"
    note u = with_carry_urange [OF assms(1) carry_of_bool]
    have "(if count mod (bits + 1) \<noteq> 0 then (push_bit (count mod (bits + 1)) ?x
        OR drop_bit (bits + 1 - count mod (bits + 1)) ?x) AND (push_bit (bits + 1) 1 - 1) else ?x)
      = rotl (Suc bits) (count mod Suc bits) ?x"
      using rotl_0 [OF u] by (simp only: rotl_def mask_take) simp
    then show ?thesis
      using rcl_loop [OF u assms(2), of count] without_with_carry [OF assms(1) carry_of_bool]
      by (simp only: g shift_res_cf_def Let_def mask_take drop_and_one without_carry_def
          with_carry_def prod.case) simp
  next
    assume g: "grp = 3"
    let ?x = "with_carry bits (orig, f AND CF)"
    note u = with_carry_urange [OF assms(1) carry_of_bool]
    have "(if count mod (bits + 1) \<noteq> 0 then (drop_bit (count mod (bits + 1)) ?x
        OR push_bit (bits + 1 - count mod (bits + 1)) ?x) AND (push_bit (bits + 1) 1 - 1) else ?x)
      = rotr (Suc bits) (count mod Suc bits) ?x"
      using rotr_0 [OF u] by (simp only: rotr_def mask_take) simp
    then show ?thesis
      using rcr_loop [OF u assms(2), of count] without_with_carry [OF assms(1) carry_of_bool]
      by (simp only: g shift_res_cf_def Let_def mask_take drop_and_one without_carry_def
          with_carry_def prod.case) simp
  qed
qed

theorem shift_closed_form_is_loop_witness:
  "shift_res_cf 2 0x81 3 8 1 = Some ((shift_once 2 8 ^^ 3) (0x81, (1::int) AND CF))"
  by (rule shift_closed_form_is_loop) (simp_all add: urange_def)

end
