(* ===== verification/Doubles.thy ===== *)
theory Doubles
  imports X86
begin

text \<open>
  Python floats, as the modelled code uses them.  A float is an IEEE double, held as its 64 bits:
  loads, stores, comparison, classification, negation and the conversions to integers and to the
  80-bit format are exact functions of the bits.  The rounding operations of Python's float
  arithmetic and of its \<open>math\<close> module are the fields of \<open>float_ops\<close>, an argument of the definitions
  that use them.
\<close>

section \<open>Doubles\<close>

record float_ops =
  fo_add :: "f64 \<Rightarrow> f64 \<Rightarrow> f64"
  fo_sub :: "f64 \<Rightarrow> f64 \<Rightarrow> f64"
  fo_mul :: "f64 \<Rightarrow> f64 \<Rightarrow> f64"
  fo_div :: "f64 \<Rightarrow> f64 \<Rightarrow> f64"          \<comment> \<open>for a nonzero divisor\<close>
  fo_of_int :: "int \<Rightarrow> exn + f64"          \<comment> \<open>\<open>float(n)\<close>\<close>
  fo_int_div :: "int \<Rightarrow> int \<Rightarrow> exn + f64"  \<comment> \<open>\<open>m / n\<close> of two integers\<close>
  fo_ldexp :: "f64 \<Rightarrow> int \<Rightarrow> exn + f64"
  fo_sqrt :: "f64 \<Rightarrow> exn + f64"
  fo_sin :: "f64 \<Rightarrow> exn + f64"
  fo_cos :: "f64 \<Rightarrow> exn + f64"
  fo_to_f32 :: "f64 \<Rightarrow> exn + int"          \<comment> \<open>\<open>struct.pack("<f", v)\<close>, as its 32 bits\<close>
  fo_of_f32 :: "int \<Rightarrow> f64"
  fo_const :: "int \<Rightarrow> f64"                \<comment> \<open>log2 10, log2 e, pi, log10 2, ln 2 for 1 to 5\<close>

text \<open>Arithmetic for programs that have no x87 code; the witnesses run with it.\<close>

definition no_floats :: float_ops where
  "no_floats = \<lparr>fo_add = (\<lambda>a b. 0), fo_sub = (\<lambda>a b. 0), fo_mul = (\<lambda>a b. 0), fo_div = (\<lambda>a b. 0),
     fo_of_int = (\<lambda>_. Inr 0), fo_int_div = (\<lambda>_ _. Inr 0), fo_ldexp = (\<lambda>_ _. Inr 0),
     fo_sqrt = (\<lambda>_. Inr 0), fo_sin = (\<lambda>_. Inr 0), fo_cos = (\<lambda>_. Inr 0), fo_to_f32 = (\<lambda>_. Inr 0),
     fo_of_f32 = (\<lambda>_. 0), fo_const = (\<lambda>_. 0)\<rparr>"

definition f_sign :: "f64 \<Rightarrow> bool" where "f_sign v = bit v 63"
definition f_exp :: "f64 \<Rightarrow> int" where "f_exp v = uint (drop_bit 52 v) AND 0x7FF"
definition f_man :: "f64 \<Rightarrow> int" where "f_man v = uint v AND 0xFFFFFFFFFFFFF"
definition f_isnan :: "f64 \<Rightarrow> bool" where "f_isnan v \<longleftrightarrow> f_exp v = 0x7FF \<and> f_man v \<noteq> 0"
definition f_isinf :: "f64 \<Rightarrow> bool" where "f_isinf v \<longleftrightarrow> f_exp v = 0x7FF \<and> f_man v = 0"
definition f_iszero :: "f64 \<Rightarrow> bool" where "f_iszero v \<longleftrightarrow> f_exp v = 0 \<and> f_man v = 0"

text \<open>Sign-magnitude order of the bit patterns: both zeros are 0.\<close>

definition f_key :: "f64 \<Rightarrow> int" where
  "f_key v = (let mag = uint v AND 0x7FFFFFFFFFFFFFFF in if f_sign v then - mag else mag)"

definition f_eq :: "f64 \<Rightarrow> f64 \<Rightarrow> bool" where
  "f_eq a b \<longleftrightarrow> \<not> f_isnan a \<and> \<not> f_isnan b \<and> f_key a = f_key b"

definition f_lt :: "f64 \<Rightarrow> f64 \<Rightarrow> bool" where
  "f_lt a b \<longleftrightarrow> \<not> f_isnan a \<and> \<not> f_isnan b \<and> f_key a < f_key b"

definition f_neg :: "f64 \<Rightarrow> f64" where "f_neg v = v XOR 0x8000000000000000"
definition f_abs :: "f64 \<Rightarrow> f64" where "f_abs v = v AND 0x7FFFFFFFFFFFFFFF"

definition f_zero :: f64 where "f_zero = 0"
definition f_one :: f64 where "f_one = 0x3FF0000000000000"
definition f_minus_one :: f64 where "f_minus_one = 0xBFF0000000000000"
definition f_inf :: f64 where "f_inf = 0x7FF0000000000000"
definition f_nan :: f64 where "f_nan = 0x7FF8000000000000"

text \<open>A finite double is \<open>num * 2 ^ ex\<close>.\<close>

definition f_num :: "f64 \<Rightarrow> int" where
  "f_num v = (let m = (if f_exp v = 0 then f_man v else f_man v + 2 ^ 52)
              in if f_sign v then - m else m)"

definition f_ex :: "f64 \<Rightarrow> int" where
  "f_ex v = max (f_exp v) 1 - 1075"

text \<open>The value as a fraction \<open>num / den\<close> with \<open>den\<close> a power of two.\<close>

definition f_frac :: "f64 \<Rightarrow> int \<times> int" where
  "f_frac v = (if f_ex v \<ge> 0 then (f_num v * 2 ^ nat (f_ex v), 1)
               else (f_num v, 2 ^ nat (- f_ex v)))"

text \<open>\<open>math.floor\<close>, \<open>ceil\<close>, \<open>trunc\<close> and \<open>int\<close>: a NaN is a ValueError, an infinity an
  OverflowError.\<close>

definition f_to_int :: "(int \<times> int \<Rightarrow> int) \<Rightarrow> f64 \<Rightarrow> exn + int" where
  "f_to_int rnd v = (if f_isnan v then Inl PyValueError
     else if f_isinf v then Inl PyOverflowError else Inr (rnd (f_frac v)))"

definition frac_floor :: "int \<times> int \<Rightarrow> int" where "frac_floor = (\<lambda>(p, q). p div q)"
definition frac_ceil :: "int \<times> int \<Rightarrow> int" where "frac_ceil = (\<lambda>(p, q). - ((- p) div q))"
definition frac_trunc :: "int \<times> int \<Rightarrow> int" where
  "frac_trunc = (\<lambda>(p, q). if p < 0 then - ((- p) div q) else p div q)"

text \<open>Round to nearest even: the code compares \<open>v - floor(v)\<close> with
  0.5 in floating point; with the exact fraction the outcome is the same.\<close>

definition round_even :: "int \<times> int \<Rightarrow> int" where
  "round_even = (\<lambda>(p, q). let f = p div q; d = 2 * (p - f * q) in
     if d > q \<or> d = q \<and> f AND 1 \<noteq> 0 then f + 1 else f)"

section \<open>Byte formats\<close>

definition le_int :: "int list \<Rightarrow> int" where
  "le_int bs = foldr (\<lambda>b acc. b + 256 * acc) bs 0"

definition le_bytes :: "nat \<Rightarrow> int \<Rightarrow> int list" where
  "le_bytes n v = map (\<lambda>i. drop_bit (8 * i) v AND 0xFF) [0..<n]"

definition f80_to_double :: "float_ops \<Rightarrow> int list \<Rightarrow> exn + f64" where
  "f80_to_double fo b =
     (let man = le_int (take 8 b); se = le_int (take 2 (drop 8 b));
          sign = (if se AND 0x8000 \<noteq> 0 then f_minus_one else f_one);
          ex = se AND 0x7FFF in
      if ex = 0 then
        (if man \<noteq> 0 then
           (case fo_of_int fo man of Inl e \<Rightarrow> Inl e | Inr m \<Rightarrow>
            (case fo_ldexp fo m (-16382 - 63) of Inl e \<Rightarrow> Inl e
             | Inr x \<Rightarrow> Inr (fo_mul fo sign x)))
         else Inr (fo_mul fo sign f_zero))
      else if ex = 0x7FFF then
        (if man = 0 \<or> man = 2 ^ 63 then Inr (fo_mul fo sign f_inf) else Inr f_nan)
      else
        (case fo_int_div fo man (2 ^ 63) of Inl e \<Rightarrow> Inl e | Inr m \<Rightarrow>
         (case fo_ldexp fo m (ex - 16383) of Inl e \<Rightarrow> Inl e
          | Inr x \<Rightarrow> Inr (fo_mul fo sign x))))"

fun bit_len :: "nat \<Rightarrow> nat" where
  "bit_len n = (if n = 0 then 0 else Suc (bit_len (n div 2)))"

declare bit_len.simps [simp del]

text \<open>\<open>m, e = frexp(abs v)\<close> of a nonzero finite double \<open>n * 2 ^ x\<close>: \<open>m = n / 2 ^ bl\<close> with \<open>bl\<close> the
  bit length of \<open>n\<close>, \<open>e = x + bl\<close>, so \<open>int(m * 2 ^ 64)\<close> is \<open>n * 2 ^ (64 - bl)\<close>.\<close>

definition double_to_f80 :: "f64 \<Rightarrow> int list" where
  "double_to_f80 v =
     (let sign = (if f_sign v then 0x8000 else 0) in
      if f_isnan v then le_bytes 8 0xC000000000000000 @ le_bytes 2 (0x7FFF OR sign)
      else if f_isinf v then le_bytes 8 (2 ^ 63) @ le_bytes 2 (0x7FFF OR sign)
      else if f_iszero v then replicate 8 0 @ le_bytes 2 sign
      else let n = abs (f_num v); bl = bit_len (nat n); e = f_ex v + int bl;
               man = (n * 2 ^ (64 - bl)) AND (2 ^ 64 - 1)
           in le_bytes 8 man @ le_bytes 2 ((e - 1 + 16383) OR sign))"

definition bits_double :: "int list \<Rightarrow> f64" where
  "bits_double bs = word_of_int (le_int bs)"

definition double_bits :: "f64 \<Rightarrow> int list" where
  "double_bits v = le_bytes 8 (uint v)"

end
