(* ===== verification/CPU_FPU.thy ===== *)
theory CPU_FPU
  imports CPU Doubles
begin

text \<open>
  The x87 unit of \<open>dos_re/cpu.py\<close>: the register stack, compare and classify, rounding, the
  80-bit conversions, and the register and memory forms \<open>fpu_reg_op\<close> and \<open>fpu_mem_op\<close>.

  A register is a Python float, an IEEE double held as its 64 bits (theory \<open>Doubles\<close>).
\<close>

section \<open>The register stack\<close>

definition fpush :: "f64 \<Rightarrow> ('w, unit) cpu_op" where
  "fpush v = bindM (get_regs fst_stack) (\<lambda>st.
     if length st \<ge> 8 then raise UnsupportedInstruction
     else upd_regs (\<lambda>r. r\<lparr>fst_stack := st @ [v]\<rparr>))"

definition fpop :: "('w, f64) cpu_op" where
  "fpop = bindM (get_regs fst_stack) (\<lambda>st.
     if st = [] then raise UnsupportedInstruction
     else thenM (upd_regs (\<lambda>r. r\<lparr>fst_stack := butlast st\<rparr>)) (ret (last st)))"

definition fst_get :: "int \<Rightarrow> ('w, f64) cpu_op" where
  "fst_get i = bindM (get_regs fst_stack) (\<lambda>st.
     if \<not> (0 \<le> i \<and> i < int (length st)) then raise UnsupportedInstruction
     else ret (st ! (length st - 1 - nat i)))"

definition fst_set :: "int \<Rightarrow> f64 \<Rightarrow> ('w, unit) cpu_op" where
  "fst_set i v = bindM (get_regs fst_stack) (\<lambda>st.
     if \<not> (0 \<le> i \<and> i < int (length st)) then raise UnsupportedInstruction
     else upd_regs (\<lambda>r. r\<lparr>fst_stack := st[length st - 1 - nat i := v]\<rparr>))"

definition upd_fsw :: "(int \<Rightarrow> int) \<Rightarrow> ('w, unit) cpu_op" where
  "upd_fsw f = upd_regs (\<lambda>r. r\<lparr>fsw := f (fsw r)\<rparr>)"

definition fcompare :: "f64 \<Rightarrow> f64 \<Rightarrow> ('w, unit) cpu_op" where
  "fcompare a b = upd_fsw (\<lambda>w.
     let w = w AND NOT 0x4700 in
     if f_isnan a \<or> f_isnan b then w OR 0x4500
     else if f_eq a b then w OR 0x4000
     else if f_lt a b then w OR 0x0100
     else w)"

definition fxam :: "('w, unit) cpu_op" where
  "fxam = thenM (upd_fsw (\<lambda>w. w AND NOT 0x4700))
     (bindM (get_regs fst_stack) (\<lambda>st.
        if st = [] then upd_fsw (\<lambda>w. w OR 0x4100)
        else bindM (fst_get 0) (\<lambda>v.
          thenM (upd_fsw (\<lambda>w. if f_sign v then w OR 0x0200 else w))
            (upd_fsw (\<lambda>w.
               if f_isnan v then w OR 0x0100
               else if f_isinf v then w OR 0x0500
               else if f_iszero v then w OR 0x4000
               else w OR 0x0400)))))"

text \<open>\<open>_fround\<close>: the rounding control of the control word.\<close>

definition fround :: "f64 \<Rightarrow> ('w, int) cpu_op" where
  "fround v = bindM (get_regs (\<lambda>r. drop_bit 10 (fcw r) AND 3)) (\<lambda>rc.
     lift_exn (if rc = 0 then f_to_int round_even v
               else if rc = 1 then f_to_int frac_floor v
               else if rc = 2 then f_to_int frac_ceil v
               else f_to_int frac_trunc v))"

section \<open>Byte formats\<close>

primrec fread :: "int \<Rightarrow> int \<Rightarrow> nat \<Rightarrow> ('w, int list) cpu_op" where
  "fread seg off 0 = ret []"
| "fread seg off (Suc n) =
     bindM (on_mem (rb seg (off AND 0xFFFF))) (\<lambda>b.
     bindM (fread seg (off + 1) n) (\<lambda>bs. ret (b # bs)))"

definition fwrite :: "int \<Rightarrow> int \<Rightarrow> int list \<Rightarrow> ('w, unit) cpu_op" where
  "fwrite seg off d =
     seqM (map (\<lambda>i. on_mem (wb seg ((off + int i) AND 0xFFFF) (d ! i))) [0..<length d])"

section \<open>Register forms\<close>

text \<open>Python's \<open>a / b\<close> on floats raises for a zero divisor.\<close>

definition py_fdiv :: "float_ops \<Rightarrow> f64 \<Rightarrow> f64 \<Rightarrow> ('w, f64) cpu_op" where
  "py_fdiv fo a b = (if f_iszero b then raise PyZeroDivisionError else ret (fo_div fo a b))"

text \<open>\<open>FxxxP ST(i),ST\<close>: the operands are read, the result stored in ST(i), the stack popped.\<close>

definition farith_pop ::
    "(f64 \<Rightarrow> f64 \<Rightarrow> ('w, f64) cpu_op) \<Rightarrow> int \<Rightarrow> bool \<Rightarrow> ('w, unit) cpu_op" where
  "farith_pop f rm swapped =
     bindM (fst_get (if swapped then 0 else rm)) (\<lambda>a.
     bindM (fst_get (if swapped then rm else 0)) (\<lambda>b.
     bindM (f a b) (\<lambda>v.
     thenM (fst_set rm v) (thenM fpop (ret ())))))"

definition fpu_const :: "float_ops \<Rightarrow> int \<Rightarrow> f64 option" where
  "fpu_const fo rm = (if rm = 0 then Some f_one
     else if 1 \<le> rm \<and> rm \<le> 5 then Some (fo_const fo rm)
     else if rm = 6 then Some f_zero else None)"

definition fpu_reg_op :: "float_ops \<Rightarrow> int \<Rightarrow> int \<Rightarrow> int \<Rightarrow> ('w, unit) cpu_op" where
  "fpu_reg_op fo op reg rm =
     (let add = (\<lambda>a b. ret (fo_add fo a b)); mul = (\<lambda>a b. ret (fo_mul fo a b));
          sub = (\<lambda>a b. ret (fo_sub fo a b)); div' = py_fdiv fo in
      if op = 0xD8 \<and> reg = 3 then
        bindM (fst_get 0) (\<lambda>a. bindM (fst_get rm) (\<lambda>b.
        thenM (fcompare a b) (thenM fpop (ret ()))))
      else if op = 0xD9 \<and> reg = 0 then bindM (fst_get rm) fpush
      else if op = 0xDB \<and> reg = 4 \<and> rm = 2 then upd_fsw (\<lambda>w. w AND 0x7F00)
      else if op = 0xDB \<and> reg = 4 \<and> rm = 3 then
        upd_regs (\<lambda>r. r\<lparr>fst_stack := [], fsw := 0, fcw := 0x037F\<rparr>)
      else if op = 0xDB \<and> reg = 4 \<and> (rm = 0 \<or> rm = 1) then ret ()
      else if op = 0xDD \<and> reg = 3 then
        bindM (fst_get 0) (\<lambda>v. thenM (fst_set rm v) (thenM fpop (ret ())))
      else if op = 0xDE \<and> reg = 0 then farith_pop add rm False
      else if op = 0xDE \<and> reg = 1 then farith_pop mul rm False
      else if op = 0xDE \<and> reg = 4 then farith_pop sub rm True
      else if op = 0xDE \<and> reg = 5 then farith_pop sub rm False
      else if op = 0xDE \<and> reg = 6 then farith_pop div' rm True
      else if op = 0xDE \<and> reg = 7 then farith_pop div' rm False
      else if op = 0xD8 then
        bindM (fst_get 0) (\<lambda>a. bindM (fst_get rm) (\<lambda>b.
          if reg = 0 then fst_set 0 (fo_add fo a b)
          else if reg = 1 then fst_set 0 (fo_mul fo a b)
          else if reg = 2 then fcompare a b
          else if reg = 4 then fst_set 0 (fo_sub fo a b)
          else if reg = 5 then fst_set 0 (fo_sub fo b a)
          else if reg = 6 then bindM (py_fdiv fo a b) (fst_set 0)
          else if reg = 7 then bindM (py_fdiv fo b a) (fst_set 0)
          else raise UnsupportedInstruction))
      else if op = 0xDC then
        bindM (fst_get rm) (\<lambda>a. bindM (fst_get 0) (\<lambda>b.
          if reg = 0 then fst_set rm (fo_add fo a b)
          else if reg = 1 then fst_set rm (fo_mul fo a b)
          else if reg = 4 then fst_set rm (fo_sub fo b a)
          else if reg = 5 then fst_set rm (fo_sub fo a b)
          else if reg = 6 then bindM (py_fdiv fo b a) (fst_set rm)
          else if reg = 7 then bindM (py_fdiv fo a b) (fst_set rm)
          else raise UnsupportedInstruction))
      else if op = 0xD9 \<and> reg = 1 then
        bindM (fst_get 0) (\<lambda>v0. bindM (fst_get rm) (\<lambda>vi.
        thenM (fst_set 0 vi) (fst_set rm v0)))
      else if op = 0xD9 \<and> reg = 4 then
        (if rm = 0 then bindM (fst_get 0) (\<lambda>v. fst_set 0 (f_neg v))
         else if rm = 1 then bindM (fst_get 0) (\<lambda>v. fst_set 0 (f_abs v))
         else if rm = 4 then bindM (fst_get 0) (\<lambda>v. fcompare v f_zero)
         else if rm = 5 then fxam
         else raise UnsupportedInstruction)
      else if op = 0xD9 \<and> reg = 5 then
        (case fpu_const fo rm of Some c \<Rightarrow> fpush c | None \<Rightarrow> raise UnsupportedInstruction)
      else if op = 0xD9 \<and> reg = 7 then
        bindM (fst_get 0) (\<lambda>v.
          if rm = 2 then bindM (lift_exn (fo_sqrt fo v)) (fst_set 0)
          else if rm = 4 then
            bindM (fround v) (\<lambda>n. bindM (lift_exn (fo_of_int fo n)) (fst_set 0))
          else if rm = 5 then
            bindM (fst_get 1) (\<lambda>s. bindM (lift_exn (f_to_int frac_trunc s)) (\<lambda>n.
            bindM (lift_exn (fo_ldexp fo v n)) (fst_set 0)))
          else if rm = 6 then bindM (lift_exn (fo_sin fo v)) (fst_set 0)
          else if rm = 7 then bindM (lift_exn (fo_cos fo v)) (fst_set 0)
          else raise UnsupportedInstruction)
      else if op = 0xDF \<and> reg = 4 \<and> rm = 0 then
        upd_regs (\<lambda>r. r\<lparr>ax := fsw r AND 0xFFFF\<rparr>)
      else raise UnsupportedInstruction)"

section \<open>Memory forms\<close>

text \<open>The 16-bit and 32-bit integer operands.\<close>

definition fint16 :: "int \<Rightarrow> int \<Rightarrow> ('w, int) cpu_op" where
  "fint16 seg off = bindM (on_mem (rw seg off)) (\<lambda>v.
     ret (if v AND 0x8000 \<noteq> 0 then v - push_bit 16 1 else v))"

definition fint32 :: "int \<Rightarrow> int \<Rightarrow> ('w, int) cpu_op" where
  "fint32 seg off =
     bindM (on_mem (rw seg off)) (\<lambda>lo.
     bindM (on_mem (rw seg ((off + 2) AND 0xFFFF))) (\<lambda>hi.
       let v = lo OR push_bit 16 hi in
       ret (if v AND 0x80000000 \<noteq> 0 then v - push_bit 32 1 else v)))"

text \<open>\<open>a op= b\<close> on ST(0) by the reg field, for a memory operand \<open>b\<close> (all eight forms).\<close>

definition farith_mem :: "float_ops \<Rightarrow> int \<Rightarrow> f64 \<Rightarrow> f64 \<Rightarrow> ('w, unit) cpu_op" where
  "farith_mem fo reg a b =
     (if reg = 0 then fst_set 0 (fo_add fo a b)
      else if reg = 1 then fst_set 0 (fo_mul fo a b)
      else if reg = 2 then fcompare a b
      else if reg = 3 then thenM (fcompare a b) (thenM fpop (ret ()))
      else if reg = 4 then fst_set 0 (fo_sub fo a b)
      else if reg = 5 then fst_set 0 (fo_sub fo b a)
      else if reg = 6 then bindM (py_fdiv fo a b) (fst_set 0)
      else if reg = 7 then bindM (py_fdiv fo b a) (fst_set 0)
      else raise UnsupportedInstruction)"

definition fpop_if :: "bool \<Rightarrow> ('w, unit) cpu_op" where
  "fpop_if b = (if b then thenM fpop (ret ()) else ret ())"

definition fpu_mem_op :: "float_ops \<Rightarrow> int \<Rightarrow> int \<Rightarrow> int \<Rightarrow> int \<Rightarrow> ('w, unit) cpu_op" where
  "fpu_mem_op fo op reg seg off =
     (if op = 0xD9 \<and> reg = 5 then
        bindM (on_mem (rw seg off)) (\<lambda>v. upd_regs (\<lambda>r. r\<lparr>fcw := v\<rparr>))
      else if op = 0xD9 \<and> reg = 7 then
        bindM (get_regs fcw) (\<lambda>v. on_mem (ww seg off v))
      else if op = 0xDB \<and> reg = 0 then
        bindM (fint32 seg off) (\<lambda>v. bindM (lift_exn (fo_of_int fo v)) fpush)
      else if op = 0xDB \<and> reg = 5 then
        bindM (fread seg off 10) (\<lambda>b. bindM (lift_exn (f80_to_double fo b)) fpush)
      else if op = 0xDB \<and> reg = 7 then
        bindM fpop (\<lambda>v. fwrite seg off (double_to_f80 v))
      else if op = 0xDC \<and> reg = 2 then
        bindM (fread seg off 8) (\<lambda>b. bindM (fst_get 0) (\<lambda>a. fcompare a (bits_double b)))
      else if op = 0xDD \<and> reg = 0 then
        bindM (fread seg off 8) (\<lambda>b. fpush (bits_double b))
      else if op = 0xDD \<and> (reg = 2 \<or> reg = 3) then
        bindM (fst_get 0) (\<lambda>v. thenM (fwrite seg off (double_bits v)) (fpop_if (reg = 3)))
      else if op = 0xDD \<and> reg = 7 then
        bindM (get_regs fsw) (\<lambda>v. on_mem (ww seg off v))
      else if op = 0xDF \<and> reg = 7 then
        bindM fpop (\<lambda>v. bindM (fround v) (\<lambda>n.
          fwrite seg off (le_bytes 8 (n AND (push_bit 64 1 - 1)))))
      else if op = 0xD9 \<and> reg = 0 then
        bindM (fread seg off 4) (\<lambda>b. fpush (fo_of_f32 fo (le_int b)))
      else if op = 0xD9 \<and> (reg = 2 \<or> reg = 3) then
        bindM (fst_get 0) (\<lambda>v. bindM (lift_exn (fo_to_f32 fo v)) (\<lambda>w.
          thenM (fwrite seg off (le_bytes 4 w)) (fpop_if (reg = 3))))
      else if op = 0xDB \<and> (reg = 2 \<or> reg = 3) then
        bindM (fst_get 0) (\<lambda>v. bindM (fround v) (\<lambda>n.
          thenM (fwrite seg off (le_bytes 4 (n AND 0xFFFFFFFF))) (fpop_if (reg = 3))))
      else if op = 0xDF \<and> reg = 0 then
        bindM (fint16 seg off) (\<lambda>v. bindM (lift_exn (fo_of_int fo v)) fpush)
      else if op = 0xDF \<and> (reg = 2 \<or> reg = 3) then
        bindM (fst_get 0) (\<lambda>v. bindM (fround v) (\<lambda>n.
          thenM (on_mem (ww seg off (n AND 0xFFFF))) (fpop_if (reg = 3))))
      else if op = 0xD8 then
        bindM (fread seg off 4) (\<lambda>b. bindM (fst_get 0) (\<lambda>a.
          farith_mem fo reg a (fo_of_f32 fo (le_int b))))
      else if op = 0xDC then
        bindM (fread seg off 8) (\<lambda>b. bindM (fst_get 0) (\<lambda>a.
          farith_mem fo reg a (bits_double b)))
      else if op = 0xDA \<or> op = 0xDE then
        bindM (if op = 0xDA then fint32 seg off else fint16 seg off) (\<lambda>v.
        bindM (fst_get 0) (\<lambda>a. bindM (lift_exn (fo_of_int fo v)) (\<lambda>b.
          farith_mem fo reg a b)))
      else raise UnsupportedInstruction)"

definition execute_fpu :: "float_ops \<Rightarrow> int \<Rightarrow> sreg option \<Rightarrow> ('w, unit) cpu_op" where
  "execute_fpu fo op so =
     bindM peek_modrm (\<lambda>(md, reg, rm).
       if md = 3 then fpu_reg_op fo op reg rm
       else bindM (decode_ea md rm so) (\<lambda>ea.
            bindM (get_regs (seg_of (segment ea))) (\<lambda>seg.
              fpu_mem_op fo op reg seg (offset ea))))"

end
