(* ===== verification/CPU_Env.thy ===== *)
theory CPU_Env
  imports CPU_FPU
begin

text \<open>
  The callbacks of \<open>CPU8086\<close> (\<open>dos_re/cpu.py\<close>): what the runtime around the interpreter installs
  in its fields.  A callback is an operation on the whole machine state, including the devices in
  \<open>world\<close>; \<open>None\<close> is the field's default.  A hook has its \<open>owns_time\<close> attribute beside it.
\<close>

record 'w hook =
  handler :: "('w, unit) cpu_op"
  owns_time :: bool

record 'w env =
  interrupt_handler :: "(int \<Rightarrow> ('w, unit) cpu_op) option"
  port_reader :: "(int \<Rightarrow> nat \<Rightarrow> ('w, int) cpu_op) option"
  port_writer :: "(int \<Rightarrow> int \<Rightarrow> nat \<Rightarrow> ('w, unit) cpu_op) option"
  replacement_hooks :: "int \<times> int \<Rightarrow> 'w hook option"
  hook_names :: "int \<times> int \<Rightarrow> string option"
  hook_verifier :: "(int \<times> int \<Rightarrow> 'w hook \<Rightarrow> string \<Rightarrow> ('w, unit) cpu_op) option"
  hook_verifier_passthrough :: "int \<times> int \<Rightarrow> bool"
  pending_irq :: "('w, int option) cpu_op option"
  float_arith :: float_ops

definition env_new :: "float_ops \<Rightarrow> 'w env" where
  "env_new fo = \<lparr>interrupt_handler = None, port_reader = None, port_writer = None,
     replacement_hooks = (\<lambda>_. None), hook_names = (\<lambda>_. None), hook_verifier = None,
     hook_verifier_passthrough = (\<lambda>_. False), pending_irq = None, float_arith = fo\<rparr>"

text \<open>\<open>self.port_reader(...) if self.port_reader else 0\<close>, and the guarded \<open>port_writer\<close> call.\<close>

definition read_port :: "'w env \<Rightarrow> int \<Rightarrow> nat \<Rightarrow> ('w, int) cpu_op" where
  "read_port E port bits = (case port_reader E of Some f \<Rightarrow> f port bits | None \<Rightarrow> ret 0)"

definition write_port :: "'w env \<Rightarrow> int \<Rightarrow> int \<Rightarrow> nat \<Rightarrow> ('w, unit) cpu_op" where
  "write_port E port v bits = (case port_writer E of Some f \<Rightarrow> f port v bits | None \<Rightarrow> ret ())"

end
