(* ===== verification/CPU_String.thy ===== *)
theory CPU_String
  imports CPU_Env
begin

text \<open>
  \<open>string_op\<close> of \<open>dos_re/cpu.py\<close>: the string instructions with their REP loop, and the bulk fast
  path of REP MOVS and REP STOS.  The main result is that the fast path is the element loop.
\<close>

section \<open>Definitions\<close>

definition string_width :: "int \<Rightarrow> nat" where
  "string_width op = (if op \<in> {0x6D, 0x6F, 0xA5, 0xA7, 0xAB, 0xAD, 0xAF} then 2 else 1)"

definition read_width :: "nat \<Rightarrow> int \<Rightarrow> int \<Rightarrow> ('w, int) cpu_op" where
  "read_width width seg off = on_mem (if width = 1 then rb seg off else rw seg off)"

definition write_width :: "nat \<Rightarrow> int \<Rightarrow> int \<Rightarrow> int \<Rightarrow> ('w, unit) cpu_op" where
  "write_width width seg off v = on_mem (if width = 1 then wb seg off v else ww seg off v)"

definition adv_si :: "int \<Rightarrow> ('w, unit) cpu_op" where
  "adv_si delta = upd_regs (\<lambda>r. r\<lparr>si := (si r + delta) AND 0xFFFF\<rparr>)"

definition adv_di :: "int \<Rightarrow> ('w, unit) cpu_op" where
  "adv_di delta = upd_regs (\<lambda>r. r\<lparr>di := (di r + delta) AND 0xFFFF\<rparr>)"

definition dec_cx :: "('w, unit) cpu_op" where
  "dec_cx = upd_regs (\<lambda>r. r\<lparr>cx := (cx r - 1) AND 0xFFFF\<rparr>)"

text \<open>One element: transfers and index steps, before the count is taken care of.\<close>

definition string_element ::
    "'w env \<Rightarrow> int \<Rightarrow> sreg option \<Rightarrow> int \<Rightarrow> ('w, unit) cpu_op" where
  "string_element E op so delta =
     (let width = string_width op; bits = 8 * width; src = seg_of (seg_or so DS) in
      if op \<in> {0x6C, 0x6D} then
        bindM (get_regs (\<lambda>r. dx r AND 0xFFFF)) (\<lambda>port.
        bindM (read_port E port bits) (\<lambda>v.
        bindM (get_regs (\<lambda>r. r)) (\<lambda>r.
        thenM (write_width width (es r) (di r) v) (adv_di delta))))
      else if op \<in> {0x6E, 0x6F} then
        bindM (get_regs (\<lambda>r. r)) (\<lambda>r.
        bindM (read_width width (src r) (si r)) (\<lambda>v.
        thenM (write_port E (dx r AND 0xFFFF) v bits) (adv_si delta)))
      else if op \<in> {0xA4, 0xA5} then
        bindM (get_regs (\<lambda>r. r)) (\<lambda>r.
        bindM (read_width width (src r) (si r)) (\<lambda>v.
        thenM (write_width width (es r) (di r) v) (thenM (adv_si delta) (adv_di delta))))
      else if op \<in> {0xA6, 0xA7} then
        bindM (get_regs (\<lambda>r. r)) (\<lambda>r.
        bindM (read_width width (src r) (si r)) (\<lambda>left.
        bindM (read_width width (es r) (di r)) (\<lambda>right.
        thenM (set_sub_flags left right (left - right) bits 0)
              (thenM (adv_si delta) (adv_di delta)))))
      else if op \<in> {0xAA, 0xAB} then
        bindM (get_regs (\<lambda>r. r)) (\<lambda>r.
        thenM (write_width width (es r) (di r) (ax r)) (adv_di delta))
      else if op \<in> {0xAC, 0xAD} then
        bindM (get_regs (\<lambda>r. r)) (\<lambda>r.
        bindM (read_width width (src r) (si r)) (\<lambda>v.
        thenM (if width = 1 then set_reg8 0 v else upd_regs (\<lambda>r. r\<lparr>ax := v\<rparr>)) (adv_si delta)))
      else if op \<in> {0xAE, 0xAF} then
        bindM (get_regs (\<lambda>r. r)) (\<lambda>r.
        bindM (read_width width (es r) (di r)) (\<lambda>memv.
        let acc = (if width = 1 then reg8 0 r else ax r) in
        thenM (set_sub_flags acc memv (acc - memv) bits 0) (adv_di delta)))
      else ret ())"

definition string_compares :: "int \<Rightarrow> bool" where
  "string_compares op \<longleftrightarrow> op \<in> {0xA6, 0xA7, 0xAE, 0xAF}"

text \<open>The loop over \<open>count\<close> elements; the compares stop on ZF as the prefix says.\<close>

primrec string_loop ::
    "nat \<Rightarrow> 'w env \<Rightarrow> int \<Rightarrow> int option \<Rightarrow> sreg option \<Rightarrow> int \<Rightarrow> ('w, unit) cpu_op" where
  "string_loop 0 E op rep so delta = ret ()"
| "string_loop (Suc count) E op rep so delta =
     thenM (string_element E op so delta)
       (if rep = None then ret ()
        else thenM dec_cx
          (if string_compares op then
             bindM (get_flag ZF) (\<lambda>z.
               if rep = Some 0xF3 \<and> \<not> z then ret ()
               else if rep = Some 0xF2 \<and> z then ret ()
               else string_loop count E op rep so delta)
           else string_loop count E op rep so delta))"

text \<open>The fast path; the value says whether it did the whole instruction.\<close>

definition string_bulk ::
    "int \<Rightarrow> int option \<Rightarrow> sreg option \<Rightarrow> int \<Rightarrow> int \<Rightarrow> ('w, bool) cpu_op" where
  "string_bulk op rep so count delta =
     (let width = string_width op; n = count * int width in
      if rep \<noteq> None \<and> count > 8 \<and> delta > 0 then
        (if op = 0xAA \<or> op = 0xAB then
           bindM (get_regs (\<lambda>r. r)) (\<lambda>r.
             let pattern = (if width = 1 then [word_of_int (ax r AND 0xFF)]
                            else [word_of_int (ax r AND 0xFF),
                                  word_of_int (drop_bit 8 (ax r) AND 0xFF)]) in
             bindM (on_mem (try_forward_bulk_fill (es r) (di r) pattern count)) (\<lambda>ok.
               if ok then
                 thenM (upd_regs (\<lambda>r. r\<lparr>di := (di r + n) AND 0xFFFF, cx := 0\<rparr>)) (ret True)
               else ret False))
         else if op = 0xA4 \<or> op = 0xA5 then
           bindM (get_regs (\<lambda>r. r)) (\<lambda>r.
             bindM (on_mem (try_forward_bulk_copy (seg_of (seg_or so DS) r) (si r)
                              (es r) (di r) n)) (\<lambda>ok.
               if ok then
                 thenM (upd_regs (\<lambda>r. r\<lparr>si := (si r + n) AND 0xFFFF,
                                        di := (di r + n) AND 0xFFFF, cx := 0\<rparr>)) (ret True)
               else ret False))
         else ret False)
      else ret False)"

definition string_op ::
    "'w env \<Rightarrow> int \<Rightarrow> int option \<Rightarrow> sreg option \<Rightarrow> ('w, unit) cpu_op" where
  "string_op E op rep so =
     bindM (get_flag DF) (\<lambda>df.
     bindM (getM (\<lambda>c. c)) (\<lambda>c.
       let width = int (string_width op);
           delta = (if df then - width else width);
           count = (if rep \<noteq> None then cx (regs c) else 1) in
       if count > max_rep_count c then raise PyRuntimeError
       else bindM (string_bulk op rep so count delta) (\<lambda>done.
         if done then ret () else string_loop (nat count) E op rep so delta)))"

text \<open>The instruction without the fast path: the reference.\<close>

definition string_op_ref ::
    "'w env \<Rightarrow> int \<Rightarrow> int option \<Rightarrow> sreg option \<Rightarrow> ('w, unit) cpu_op" where
  "string_op_ref E op rep so =
     bindM (get_flag DF) (\<lambda>df.
     bindM (getM (\<lambda>c. c)) (\<lambda>c.
       let width = int (string_width op);
           count = (if rep \<noteq> None then cx (regs c) else 1) in
       if count > max_rep_count c then raise PyRuntimeError
       else string_loop (nat count) E op rep so (if df then - width else width)))"

section \<open>The element operations on plain RAM\<close>

text \<open>The bytes of a stored element, low byte first.\<close>

definition elem_bytes :: "nat \<Rightarrow> int \<Rightarrow> bytes" where
  "elem_bytes width v =
     (if width = 1 then [word_of_int v] else [word_of_int v, word_of_int (drop_bit 8 v)])"

lemma string_width_cases: "string_width op = 1 \<or> string_width op = 2"
  by (simp add: string_width_def)

lemma elem_bytes_length [simp]: "width = 1 \<or> width = 2 \<Longrightarrow> length (elem_bytes width v) = width"
  by (auto simp: elem_bytes_def)

lemma elem_bytes_word:
  "elem_bytes 2 (uint (x :: 8 word) OR push_bit 8 (uint (y :: 8 word))) = [x, y]"
proof -
  have "uint x OR push_bit 8 (uint y) = uint x + uint y * 256"
    using byte_range by (intro or_bytes) simp_all
  moreover have "(word_of_int (uint x + uint y * 256) :: 8 word) = x"
    using byte_range [of x] by (intro word_uint_eqI) (simp only: uint_byte_of_int, simp)
  moreover have "drop_bit 8 (uint x + uint y * 256) = uint y"
    using byte_range [of x] by (simp add: mask_simps)
  ultimately show ?thesis by (simp add: elem_bytes_def)
qed

lemma unwatched_ram_mdata [simp]: "unwatched_ram (m\<lparr>mdata := d\<rparr>) a = unwatched_ram m a"
  by (simp add: unwatched_ram_def)

lemma write_width_plain:
  assumes "width = 1 \<or> width = 2" "linear seg off = a"
    and "\<And>i. 0 \<le> i \<Longrightarrow> i < int width \<Longrightarrow> unwatched_ram (mem c) (a + i)"
  shows "write_width width seg off v c
    = (Inr (), c\<lparr>mem := (mem c)\<lparr>mdata := overwrite a (elem_bytes width v) (mdata (mem c))\<rparr>\<rparr>)"
proof (cases "width = 1")
  case True
  then show ?thesis
    using assms(2) assms(3) [of 0]
    by (simp add: write_width_def on_mem_def wb_unwatched elem_bytes_def overwrite_Cons)
next
  case False
  then have "width = 2" "unwatched_ram (mem c) a" "unwatched_ram (mem c) (a + 1)"
    using assms(1) assms(3) [of 0] assms(3) [of 1] by auto
  then show ?thesis
    using ram_byteD [of "mem c" a] assms(2)
    by (simp add: write_width_def on_mem_def ww_def store2_def unwatched_ram_def set_byte_ok
        Let_def mem_consts elem_bytes_def overwrite_Cons)
qed

lemma read_width_plain:
  assumes "width = 1 \<or> width = 2" "linear seg off = a" "sel_base (mem c) = None"
    and "a + int width \<le> msize (mem c)" "a + int width \<le> 0x100000" "\<not> in_aperture (mem c) a"
  obtains v where "read_width width seg off c = (Inr v, c)"
    and "elem_bytes width v = map (\<lambda>j. mdata (mem c) (a + int j)) [0..<width]"
proof (cases "width = 1")
  case True
  show thesis
    by (rule that [of "uint (mdata (mem c) a)"])
      (use True assms linear_range [of seg off] in
        \<open>simp_all add: read_width_def on_mem_def rb_def byte_at_ok Let_def elem_bytes_def\<close>)
next
  case False
  with assms(1) have w: "width = 2" by simp
  have upt: "[0..<2] = [0, 1::nat]" by (simp add: numeral_2_eq_2)
  show thesis
    by (rule that [of "uint (mdata (mem c) a) OR push_bit 8 (uint (mdata (mem c) (a + 1)))"])
      (use w assms linear_range [of seg off] in
        \<open>simp_all add: read_width_def on_mem_def rw_def byte_at_ok Let_def elem_bytes_word upt\<close>)
qed

lemma ordinary_range_mdata [simp]:
  "ordinary_real_mode_range (m\<lparr>mdata := d\<rparr>) seg off n w = ordinary_real_mode_range m seg off n w"
  by (simp add: ordinary_real_mode_range_def Let_def)

lemma ordinary_range_unwatched:
  assumes "ordinary_real_mode_range m seg off n True = Inr (Some a)"
    and "sel_base m = None" "write_watchers m = []" "0 \<le> i" "i < n"
  shows "unwatched_ram m (a + i)"
  using ordinary_range_ram [OF assms(1,4,5)] ordinary_rangeD [OF assms(1)] assms
  by (simp add: unwatched_ram_def)

text \<open>The address of element \<open>i\<close> of an ordinary range, from a masked running offset.\<close>

lemma running_addr:
  assumes "ordinary_real_mode_range m seg off n w = Inr (Some a)" "0 \<le> i" "i < n"
    and "x AND 0xFFFF = (off + i) AND 0xFFFF"
  shows "linear seg x = a + i"
  using ordinary_range_addr(2) [OF assms(1-3)] assms(4) by (metis linear_mask(2))

lemma running_step:
  "x AND 0xFFFF = (off + i) AND 0xFFFF \<Longrightarrow>
   ((x + d) AND 0xFFFF) AND 0xFFFF = (off + (i + d)) AND (0xFFFF::int)"
  by (simp add: mask_simps mod_simps) (metis add.assoc mod_add_left_eq)

lemma masked_sum: "(((x + d) AND 0xFFFF) + e) AND 0xFFFF = (x + (d + e)) AND (0xFFFF::int)"
  by (simp add: mask_simps mod_simps add.assoc)

section \<open>The fast path is the element loop\<close>

lemma loop_rep_step:
  assumes "rep \<noteq> None" "\<not> string_compares op" "string_element E op so delta c = (Inr (), c')"
  shows "string_loop (Suc k) E op rep so delta c
    = string_loop k E op rep so delta (c'\<lparr>regs := (regs c')\<lparr>cx := (cx (regs c') - 1) AND 0xFFFF\<rparr>\<rparr>)"
  using assms by (cases rep) (simp_all add: dec_cx_def upd_regs_def)

lemma stos_element:
  assumes "op = 0xAA \<or> op = 0xAB" "linear (es (regs c)) (di (regs c)) = a"
    and "\<And>i. 0 \<le> i \<Longrightarrow> i < int (string_width op) \<Longrightarrow> unwatched_ram (mem c) (a + i)"
  shows "string_element E op so delta c
    = (Inr (), c\<lparr>mem := (mem c)\<lparr>mdata :=
           overwrite a (elem_bytes (string_width op) (ax (regs c))) (mdata (mem c))\<rparr>,
         regs := (regs c)\<lparr>di := (di (regs c) + delta) AND 0xFFFF\<rparr>\<rparr>)"
  using assms(1) write_width_plain [OF string_width_cases assms(2,3)]
  by (auto simp: string_element_def get_regs_def adv_di_def upd_regs_def)

lemma cx_step:
  "0 < k \<Longrightarrow> k \<le> 65536 \<Longrightarrow> (k - 1) AND 0xFFFF = (k - 1 :: int)"
  by (simp add: mask_simps)

lemma stos_loop:
  assumes "ordinary_real_mode_range (mem c) (es (regs c)) off n True = Inr (Some a)"
    and "sel_base (mem c) = None" "write_watchers (mem c) = []"
    and "op = 0xAA \<or> op = 0xAB" "rep \<noteq> None"
    and "0 \<le> i" "i + int (k * string_width op) \<le> n" "cx (regs c) = int k" "k \<le> 65536"
    and "di (regs c) AND 0xFFFF = (off + i) AND 0xFFFF"
  shows "string_loop k E op rep so (int (string_width op)) c
    = (Inr (), c\<lparr>mem := (mem c)\<lparr>mdata := overwrite (a + i)
           (concat (replicate k (elem_bytes (string_width op) (ax (regs c))))) (mdata (mem c))\<rparr>,
         regs := (if k = 0 then regs c else (regs c)\<lparr>di :=
           (di (regs c) + int (k * string_width op)) AND 0xFFFF, cx := 0\<rparr>)\<rparr>)"
  using assms
proof (induction k arbitrary: c i)
  case 0
  then show ?case by simp
next
  case (Suc k)
  let ?w = "string_width op"
  let ?e = "elem_bytes ?w (ax (regs c))"
  note P = Suc.prems
  have w: "?w = 1 \<or> ?w = 2" by (rule string_width_cases)
  have bnd: "i + int ?w + int (k * ?w) \<le> n" "0 < ?w" using P(7) w by auto
  have lt: "i < n" using bnd by linarith
  have un: "unwatched_ram (mem c) (a + i + j)" if "0 \<le> j" "j < int ?w" for j
  proof -
    have "i + j < n" using that bnd by linarith
    then show ?thesis
      using ordinary_range_unwatched [OF P(1-3), of "i + j"] that P(6)
      by (simp add: add.assoc)
  qed
  have "linear (es (regs c)) (di (regs c)) = a + i"
    using running_addr [OF P(1) P(6) lt P(10)] .
  from stos_element [OF P(4) this un]
  have el: "string_element E op so (int ?w) c
    = (Inr (), c\<lparr>mem := (mem c)\<lparr>mdata := overwrite (a + i) ?e (mdata (mem c))\<rparr>,
         regs := (regs c)\<lparr>di := (di (regs c) + int ?w) AND 0xFFFF\<rparr>\<rparr>)" .
  have nc: "\<not> string_compares op" using P(4) by (auto simp: string_compares_def)
  have cx1: "(cx (regs c) - 1) AND 0xFFFF = int k"
    using P(8,9) cx_step [of "int (Suc k)"] by simp
  have di1: "((di (regs c) + int ?w) AND 0xFFFF) AND 0xFFFF = (off + (i + int ?w)) AND 0xFFFF"
    using running_step [OF P(10)] .
  have IH: "string_loop k E op rep so (int ?w) d
    = (Inr (), d\<lparr>mem := (mem d)\<lparr>mdata := overwrite (a + (i + int ?w))
           (concat (replicate k (elem_bytes ?w (ax (regs d))))) (mdata (mem d))\<rparr>,
         regs := (if k = 0 then regs d else (regs d)\<lparr>di :=
           (di (regs d) + int (k * ?w)) AND 0xFFFF, cx := 0\<rparr>)\<rparr>)"
    if "d = c\<lparr>mem := (mem c)\<lparr>mdata := overwrite (a + i) ?e (mdata (mem c))\<rparr>,
         regs := (regs c)\<lparr>di := (di (regs c) + int ?w) AND 0xFFFF, cx := int k\<rparr>\<rparr>" for d
    unfolding that using P(1-6,9) bnd di1 by (intro Suc.IH) simp_all
  have sums: "((di (regs c) + int ?w) AND 0xFFFF) + int k * int ?w AND 0xFFFF
      = di (regs c) + (int ?w + int k * int ?w) AND 0xFFFF"
    by (rule masked_sum)
  show ?case
    unfolding loop_rep_step [OF P(5) nc el]
    by (simp add: cx1 IH sums overwrite_append elem_bytes_length [OF w] add.assoc)
qed

lemma movs_element:
  assumes "op = 0xA4 \<or> op = 0xA5" "linear (es (regs c)) (di (regs c)) = a"
    and "\<And>i. 0 \<le> i \<Longrightarrow> i < int (string_width op) \<Longrightarrow> unwatched_ram (mem c) (a + i)"
    and "read_width (string_width op) (seg_of (seg_or so DS) (regs c)) (si (regs c)) c = (Inr v, c)"
  shows "string_element E op so delta c
    = (Inr (), c\<lparr>mem := (mem c)\<lparr>mdata :=
           overwrite a (elem_bytes (string_width op) v) (mdata (mem c))\<rparr>,
         regs := (regs c)\<lparr>si := (si (regs c) + delta) AND 0xFFFF,
                          di := (di (regs c) + delta) AND 0xFFFF\<rparr>\<rparr>)"
proof -
  have W: "write_width (string_width op) (es (regs c)) (di (regs c)) v c
    = (Inr (), c\<lparr>mem := (mem c)\<lparr>mdata :=
         overwrite a (elem_bytes (string_width op) v) (mdata (mem c))\<rparr>\<rparr>)"
    by (rule write_width_plain [OF string_width_cases assms(2,3)])
  show ?thesis
    using assms(1,4) W
    by (auto simp: string_element_def Let_def get_regs_def adv_di_def adv_si_def upd_regs_def)
qed

text \<open>Reading ahead of the writes: with no forward overlap the source is still the original.\<close>

lemma source_intact:
  assumes "\<not> (s < d \<and> d < s + n)" "length src = nat n" "0 \<le> i" "0 \<le> j" "i + j < (n::int)"
  shows "overwrite d (take (nat i) src) f (s + i + j) = f (s + i + j)"
  using assms by (auto simp: overwrite_def)

lemma movs_loop:
  fixes md :: "int \<Rightarrow> 8 word"
  defines "src \<equiv> \<lambda>s n. map (\<lambda>i. md (s + int i)) [0..<nat n]"
  assumes "ordinary_real_mode_range (mem c) (seg_of (seg_or so DS) (regs c)) soff n False = Inr (Some s)"
    and "ordinary_real_mode_range (mem c) (es (regs c)) doff n True = Inr (Some d)"
    and "\<not> (s < d \<and> d < s + n)"
    and "sel_base (mem c) = None" "write_watchers (mem c) = []"
    and "op = 0xA4 \<or> op = 0xA5" "rep \<noteq> None"
    and "0 \<le> i" "i + int (k * string_width op) = n" "cx (regs c) = int k" "k \<le> 65536"
    and "si (regs c) AND 0xFFFF = (soff + i) AND 0xFFFF"
    and "di (regs c) AND 0xFFFF = (doff + i) AND 0xFFFF"
    and "mdata (mem c) = overwrite d (take (nat i) (src s n)) md"
  shows "string_loop k E op rep so (int (string_width op)) c
    = (Inr (), c\<lparr>mem := (mem c)\<lparr>mdata := overwrite d (src s n) md\<rparr>,
         regs := (if k = 0 then regs c else (regs c)\<lparr>
           si := (si (regs c) + int (k * string_width op)) AND 0xFFFF,
           di := (di (regs c) + int (k * string_width op)) AND 0xFFFF, cx := 0\<rparr>)\<rparr>)"
  using assms(2-)
proof (induction k arbitrary: c i)
  case 0
  have "take (nat i) (src s n) = src s n" using 0 by (simp add: src_def)
  then show ?case using 0 by simp
next
  case (Suc k)
  let ?w = "string_width op" and ?seg = "seg_of (seg_or so DS) (regs c)"
  note P = Suc.prems
  have w: "?w = 1 \<or> ?w = 2" by (rule string_width_cases)
  have bnd: "i + int ?w + int (k * ?w) = n" "0 < ?w" "0 \<le> int k * int ?w"
    using P(9) w by auto
  then have lt: "i < n" by linarith
  have un: "unwatched_ram (mem c) (d + i + j)" if "0 \<le> j" "j < int ?w" for j
  proof -
    have "i + j < n" using that bnd by linarith
    then show ?thesis
      using ordinary_range_unwatched [OF P(2,4,5), of "i + j"] that P(8)
      by (simp add: add.assoc)
  qed
  have A: "linear ?seg (si (regs c)) = s + i" "linear (es (regs c)) (di (regs c)) = d + i"
    using running_addr [OF P(1) P(8) lt P(12)] running_addr [OF P(2) P(8) lt P(13)] by auto
  have R: "s + i + int ?w \<le> msize (mem c)" "s + i + int ?w \<le> 0x100000"
    "\<not> in_aperture (mem c) (s + i)"
  proof -
    have "i + int ?w \<le> n" using bnd(1) by linarith
    then show "s + i + int ?w \<le> msize (mem c)" "s + i + int ?w \<le> 0x100000"
      using ordinary_rangeD(4,5) [OF P(1)] by linarith+
    show "\<not> in_aperture (mem c) (s + i)"
      by (rule ordinary_range_ram(1) [OF P(1) P(8) lt])
  qed
  obtain v where v: "read_width ?w ?seg (si (regs c)) c = (Inr v, c)"
    and ev: "elem_bytes ?w v = map (\<lambda>j. mdata (mem c) (s + i + int j)) [0..<?w]"
    by (rule read_width_plain [OF w A(1) P(4) R])
  have ev': "elem_bytes ?w v = map (\<lambda>j. md (s + i + int j)) [0..<?w]"
  proof -
    have "overwrite d (take (nat i) (src s n)) md (s + i + int j) = md (s + i + int j)"
      if "j < ?w" for j
    proof (rule source_intact [OF P(3) _ P(8)])
      show "i + int j < n" using that bnd by linarith
    qed (simp_all add: src_def)
    then show ?thesis unfolding ev P(14) by simp
  qed
  have nxt: "take (nat (i + int ?w)) (src s n) = take (nat i) (src s n) @ elem_bytes ?w v"
  proof -
    have "nat (i + int ?w) = nat i + ?w" using P(8) by simp
    moreover have "take ?w (drop (nat i) (src s n)) = elem_bytes ?w v"
    proof -
      have "i + int ?w \<le> n" using bnd(1,3) by linarith
      then have "?w \<le> nat n - nat i" using P(8) by linarith
      then show ?thesis
        unfolding ev' using P(8) by (intro nth_equalityI) (auto simp: src_def add.assoc)
    qed
    ultimately show ?thesis by (simp add: take_add)
  qed
  have lsrc: "int (length (take (nat i) (src s n))) = i"
    using P(8) lt by (simp add: src_def)
  have data1: "overwrite (d + i) (elem_bytes ?w v) (mdata (mem c))
      = overwrite d (take (nat (i + int ?w)) (src s n)) md"
    unfolding nxt overwrite_append lsrc P(14) ..
  have el: "string_element E op so (int ?w) c
    = (Inr (), c\<lparr>mem := (mem c)\<lparr>mdata := overwrite (d + i) (elem_bytes ?w v) (mdata (mem c))\<rparr>,
         regs := (regs c)\<lparr>si := (si (regs c) + int ?w) AND 0xFFFF,
                          di := (di (regs c) + int ?w) AND 0xFFFF\<rparr>\<rparr>)"
    by (rule movs_element [OF P(6) A(2) un v])
  have nc: "\<not> string_compares op" using P(6) by (auto simp: string_compares_def)
  have cx1: "(cx (regs c) - 1) AND 0xFFFF = int k"
    using P(10,11) cx_step [of "int (Suc k)"] by simp
  have st1: "((si (regs c) + int ?w) AND 0xFFFF) AND 0xFFFF = (soff + (i + int ?w)) AND 0xFFFF"
    "((di (regs c) + int ?w) AND 0xFFFF) AND 0xFFFF = (doff + (i + int ?w)) AND 0xFFFF"
    using running_step [OF P(12)] running_step [OF P(13)] .
  have seg1: "seg_of sg (regs c\<lparr>si := x, di := y, cx := z\<rparr>) = seg_of sg (regs c)" for sg x y z
    by (cases sg) simp_all
  have IH: "string_loop k E op rep so (int ?w) e
    = (Inr (), e\<lparr>mem := (mem e)\<lparr>mdata := overwrite d (src s n) md\<rparr>,
         regs := (if k = 0 then regs e else (regs e)\<lparr>
           si := (si (regs e) + int (k * ?w)) AND 0xFFFF,
           di := (di (regs e) + int (k * ?w)) AND 0xFFFF, cx := 0\<rparr>)\<rparr>)"
    if "e = c\<lparr>mem := (mem c)\<lparr>mdata := overwrite d (take (nat (i + int ?w)) (src s n)) md\<rparr>,
         regs := (regs c)\<lparr>si := (si (regs c) + int ?w) AND 0xFFFF,
           di := (di (regs c) + int ?w) AND 0xFFFF, cx := int k\<rparr>\<rparr>" for e
    unfolding that using P(1-8,11) bnd st1 by (intro Suc.IH) (simp_all add: seg1)
  have sums: "((x + int ?w) AND 0xFFFF) + int k * int ?w AND 0xFFFF
      = x + (int ?w + int k * int ?w) AND 0xFFFF" for x
    by (rule masked_sum)
  show ?case
    unfolding loop_rep_step [OF P(7) nc el]
    by (simp add: cx1 IH sums data1)
qed

lemma bulk_fill_cases:
  assumes "0 \<le> count" "pattern \<noteq> []"
  obtains "try_forward_bulk_fill seg off pattern count m = (Inr False, m)"
  | m' where "try_forward_bulk_fill seg off pattern count m = (Inr True, m')"
proof -
  obtain r where "ordinary_real_mode_range m seg off (int (length pattern) * count) True = Inr r"
    using ordinary_range_ok [of "int (length pattern) * count" m seg off True] assms(1) by auto
  then have "try_forward_bulk_fill seg off pattern count m = (Inr False, m)
      \<or> (\<exists>m'. try_forward_bulk_fill seg off pattern count m = (Inr True, m'))"
    using assms by (cases r) (simp_all add: try_forward_bulk_fill_def Let_def)
  then show thesis
    using that by blast
qed

lemma bulk_copy_cases:
  assumes "0 \<le> n"
  obtains "try_forward_bulk_copy sseg soff dseg doff n m = (Inr False, m)"
  | m' where "try_forward_bulk_copy sseg soff dseg doff n m = (Inr True, m')"
proof -
  obtain r q where "ordinary_real_mode_range m sseg soff n False = Inr r"
    "ordinary_real_mode_range m dseg doff n True = Inr q"
    using ordinary_range_ok [OF assms] by metis
  then have "try_forward_bulk_copy sseg soff dseg doff n m = (Inr False, m)
      \<or> (\<exists>m'. try_forward_bulk_copy sseg soff dseg doff n m = (Inr True, m'))"
    using assms by (cases r; cases q) (simp_all add: try_forward_bulk_copy_def Let_def)
  then show thesis
    using that by blast
qed

lemma count_bound:
  assumes "ordinary_real_mode_range m seg off (count * int w) b = Inr (Some a)" "0 < count" "0 < w"
  shows "nat count \<le> 65536"
proof -
  have "count * 1 \<le> count * int w" using assms(2,3) by (intro mult_left_mono) simp_all
  moreover have "count * int w \<le> 65536"
    using ordinary_rangeD(3) [OF assms(1)] pos_mod_bound [of 65536 off] by simp
  ultimately show ?thesis by simp
qed

text \<open>When the fast path takes the instruction, the element loop ends in the same state.\<close>

lemma stos_bulk_is_loop:
  assumes "op = 0xAA \<or> op = 0xAB" "rep \<noteq> None" "8 < cx (regs c)"
  defines "w \<equiv> string_width op" and "r \<equiv> regs c"
  shows "bindM (string_bulk op rep so (cx r) (int w)) (\<lambda>done.
      if done then ret () else string_loop (nat (cx r)) E op rep so (int w)) c
    = string_loop (nat (cx r)) E op rep so (int w) c"
proof -
  let ?p = "elem_bytes w (ax r)"
  have lp: "length ?p = w" "?p \<noteq> []" "0 < w"
    using string_width_cases [of op] by (auto simp: w_def elem_bytes_def)
  have pos: "0 < int w" "cx r > 8" using lp assms(3) by (simp_all add: r_def)
  show ?thesis
  proof (rule bulk_fill_cases [of "cx r" ?p "es r" "di r" "mem c"])
    assume "try_forward_bulk_fill (es r) (di r) ?p (cx r) (mem c) = (Inr False, mem c)"
    then have "string_bulk op rep so (cx r) (int w) c = (Inr False, c)"
      using assms(1,2) pos
      unfolding string_bulk_def w_def [symmetric] r_def [symmetric]
      by (auto simp: Let_def get_regs_def on_mem_def elem_bytes_def simp flip: r_def)
    then show ?thesis by simp
  next
    fix m' assume F: "try_forward_bulk_fill (es r) (di r) ?p (cx r) (mem c) = (Inr True, m')"
    then obtain a where
      R: "ordinary_real_mode_range (mem c) (es r) (di r) (cx r * int w) True = Inr (Some a)"
      and nw: "sel_base (mem c) = None" "write_watchers (mem c) = []"
      using pos lp by (auto simp: try_forward_bulk_fill_def Let_def mult.commute thenM_def
          split: if_splits sum.splits option.splits)
    have "m' = (mem c)\<lparr>mdata := overwrite a
        (concat (replicate (nat (cx r)) (elem_bytes w (ax r)))) (mdata (mem c))\<rparr>"
      using bulk_fill_effect(1) [OF F] pos ordinary_rangeD(1) [OF R] by simp
    moreover have "string_bulk op rep so (cx r) (int w) c = (Inr True, c\<lparr>mem := m',
        regs := r\<lparr>di := (di r + cx r * int w) AND 0xFFFF, cx := 0\<rparr>\<rparr>)"
      using assms(1,2) pos F
      unfolding string_bulk_def w_def [symmetric] r_def [symmetric]
      by (auto simp: Let_def get_regs_def on_mem_def upd_regs_def elem_bytes_def simp flip: r_def)
    moreover have "string_loop (nat (cx r)) E op rep so (int w) c
      = (Inr (), c\<lparr>mem := (mem c)\<lparr>mdata := overwrite (a + 0)
           (concat (replicate (nat (cx r)) (elem_bytes w (ax r)))) (mdata (mem c))\<rparr>,
         regs := (if nat (cx r) = 0 then r else r\<lparr>di :=
           (di r + int (nat (cx r) * w)) AND 0xFFFF, cx := 0\<rparr>)\<rparr>)"
      unfolding w_def r_def
      by (rule stos_loop [OF R [unfolded w_def r_def] nw assms(1,2)])
        (use pos count_bound [OF R _ lp(3)] in \<open>simp_all add: w_def r_def\<close>)
    ultimately show ?thesis using pos by (simp add: nat_mult_distrib)
  qed (use pos lp in auto)
qed

lemma movs_bulk_is_loop:
  assumes "op = 0xA4 \<or> op = 0xA5" "rep \<noteq> None" "8 < cx (regs c)"
  defines "w \<equiv> string_width op" and "r \<equiv> regs c"
  shows "bindM (string_bulk op rep so (cx r) (int w)) (\<lambda>done.
      if done then ret () else string_loop (nat (cx r)) E op rep so (int w)) c
    = string_loop (nat (cx r)) E op rep so (int w) c"
proof -
  let ?n = "cx r * int w" and ?sg = "seg_of (seg_or so DS) r"
  have "0 < w" using string_width_cases [of op] by (auto simp: w_def)
  then have pos: "0 < int w" "cx r > 8" "0 < ?n" using assms(3) by (simp_all add: r_def)
  show ?thesis
  proof (rule bulk_copy_cases [of ?n ?sg "si r" "es r" "di r" "mem c"])
    assume "try_forward_bulk_copy ?sg (si r) (es r) (di r) ?n (mem c) = (Inr False, mem c)"
    then have "string_bulk op rep so (cx r) (int w) c = (Inr False, c)"
      using assms(1,2) pos
      by (auto simp: string_bulk_def Let_def get_regs_def on_mem_def simp flip: w_def r_def)
    then show ?thesis by simp
  next
    fix m' assume F: "try_forward_bulk_copy ?sg (si r) (es r) (di r) ?n (mem c) = (Inr True, m')"
    obtain s d where R: "ordinary_real_mode_range (mem c) ?sg (si r) ?n False = Inr (Some s)"
        "ordinary_real_mode_range (mem c) (es r) (di r) ?n True = Inr (Some d)"
      and o: "\<not> (s < d \<and> d < s + ?n)" "sel_base (mem c) = None" "write_watchers (mem c) = []"
      and m': "m' = (mem c)\<lparr>mdata := overwrite d
          (map (\<lambda>i. mdata (mem c) (s + int i)) [0..<nat ?n]) (mdata (mem c))\<rparr>"
      by (rule bulk_copy_effect [OF F pos(3)])
    have "string_bulk op rep so (cx r) (int w) c = (Inr True, c\<lparr>mem := m',
        regs := r\<lparr>si := (si r + ?n) AND 0xFFFF, di := (di r + ?n) AND 0xFFFF, cx := 0\<rparr>\<rparr>)"
      using assms(1,2) pos F
      by (auto simp: string_bulk_def Let_def get_regs_def on_mem_def upd_regs_def
          simp flip: w_def r_def)
    moreover have "string_loop (nat (cx r)) E op rep so (int w) c
      = (Inr (), c\<lparr>mem := (mem c)\<lparr>mdata := overwrite d
           (map (\<lambda>i. mdata (mem c) (s + int i)) [0..<nat ?n]) (mdata (mem c))\<rparr>,
         regs := (if nat (cx r) = 0 then r else r\<lparr>
           si := (si r + int (nat (cx r) * w)) AND 0xFFFF,
           di := (di r + int (nat (cx r) * w)) AND 0xFFFF, cx := 0\<rparr>)\<rparr>)"
      unfolding w_def r_def
      by (rule movs_loop [OF R [unfolded w_def r_def] o [unfolded w_def r_def] assms(1,2),
            where i = 0])
        (use pos count_bound [OF R(1) _ \<open>0 < w\<close>] in \<open>simp_all add: w_def r_def\<close>)
    ultimately show ?thesis using pos m' by (simp add: nat_mult_distrib)
  qed (use pos in auto)
qed

text \<open>
  C1: the string instructions behave as their element loop, in every state: the bulk fast path of
  REP MOVS and REP STOS changes the memory, CX, SI and DI exactly as the loop does.
\<close>

theorem string_op_is_element_loop: "string_op E op rep so = string_op_ref E op rep so"
proof (rule ext)
  fix c :: "'a cpu"
  let ?r = "regs c"
  show "string_op E op rep so c = string_op_ref E op rep so c"
  proof (cases "rep \<noteq> None \<and> 8 < cx ?r \<and> flags ?r AND DF = 0 \<and> op \<in> {0xA4, 0xA5, 0xAA, 0xAB}")
    case True
    then show ?thesis
      using stos_bulk_is_loop [of op rep c so E] movs_bulk_is_loop [of op rep c so E]
      by (auto simp: string_op_def string_op_ref_def get_flag_def get_regs_def Let_def)
  next
    case False
    have "string_bulk op rep so (if rep \<noteq> None then cx ?r else 1)
        (if flags ?r AND DF \<noteq> 0 then - int (string_width op) else int (string_width op)) = (ret False :: ('a, bool) cpu_op)"
      using False string_width_cases [of op] by (auto simp: string_bulk_def Let_def)
    then show ?thesis
      by (cases rep; cases "flags ?r AND DF = 0")
         (simp_all add: string_op_def string_op_ref_def get_flag_def get_regs_def Let_def)
  qed
qed

end
