(* ===== verification/CPU_Exec.thy ===== *)
theory CPU_Exec
  imports CPU_Shift CPU_String
begin

text \<open>
  \<open>execute_opcode\<close> of \<open>dos_re/cpu.py\<close> (\<open>step\<close> and \<open>run\<close> are in theory \<open>CPU_Step\<close>).  The ladder of \<open>execute_opcode\<close> is cut
  into one definition per group of branches, in the order of the code, and put together again by
  \<open>execute_opcode\<close>.
\<close>

section \<open>Shared steps\<close>

text \<open>ModRM byte, then the r/m operand: how almost every r/m instruction begins.\<close>

definition modrm_operand :: "nat \<Rightarrow> sreg option \<Rightarrow> ('w, int \<times> operand) cpu_op" where
  "modrm_operand bits so =
     bindM peek_modrm (\<lambda>(md, reg, rm).
     bindM (decode_rm_operand md rm bits so) (\<lambda>opd. ret (reg, opd)))"

definition fetch_imm :: "nat \<Rightarrow> ('w, int) cpu_op" where
  "fetch_imm bits = (if bits = 8 then fetch8 else fetch16)"

definition get_ip :: "('w, int) cpu_op" where
  "get_ip = get_regs ip"

text \<open>\<open>target = (s.ip + rel) & 0xFFFF; if take: s.ip = target\<close>.\<close>

definition jump_rel :: "bool \<Rightarrow> int \<Rightarrow> ('w, unit) cpu_op" where
  "jump_rel take_it rel =
     (if take_it then bindM get_ip (\<lambda>i. set_ip ((i + rel) AND 0xFFFF)) else ret ())"

definition depth_up :: "('w, unit) cpu_op" where
  "depth_up = putM (\<lambda>c. c\<lparr>call_depth := call_depth c + 1\<rparr>)"

definition depth_down :: "('w, unit) cpu_op" where
  "depth_down = putM (\<lambda>c. c\<lparr>call_depth := max 0 (call_depth c - 1)\<rparr>)"

definition set_csip :: "int \<Rightarrow> int \<Rightarrow> ('w, unit) cpu_op" where
  "set_csip seg off = upd_regs (\<lambda>r. r\<lparr>cs := seg, ip := off\<rparr>)"

definition set_ax :: "int \<Rightarrow> ('w, unit) cpu_op" where
  "set_ax v = upd_regs (\<lambda>r. r\<lparr>ax := v\<rparr>)"

section \<open>The frequency-ordered part\<close>

definition op_jcc :: "int \<Rightarrow> ('w, unit) cpu_op" where
  "op_jcc op =
     bindM fetch8 (\<lambda>d. bindM (condition (op AND 0xF)) (\<lambda>tk. jump_rel tk (sign8 d)))"

definition op_shift :: "int \<Rightarrow> sreg option \<Rightarrow> ('w, unit) cpu_op" where
  "op_shift op so =
     (let bits = (if op \<in> {0xC0, 0xD0, 0xD2} then 8 else 16) in
      bindM (modrm_operand bits so) (\<lambda>(reg, opd).
      bindM (if op \<in> {0xD0, 0xD1} then ret 1
             else if op \<in> {0xD2, 0xD3} then get_regs (\<lambda>r. cx r AND 0xFF)
             else fetch8) (\<lambda>count.
      bindM (op_read opd) (\<lambda>val.
      bindM (shift reg val count bits) (\<lambda>res. op_write opd res)))))"

definition op_arith_rm :: "int \<Rightarrow> sreg option \<Rightarrow> ('w, unit) cpu_op" where
  "op_arith_rm op so =
     (let grp = drop_bit 3 op AND 7; bits = (if op AND 1 = 0 then 8 else 16) in
      bindM (modrm_operand bits so) (\<lambda>(reg, opd).
      bindM (op_read opd) (\<lambda>rmv.
      bindM (getr bits reg) (\<lambda>regv.
        if op AND 2 \<noteq> 0 then
          bindM (alu grp regv rmv bits) (\<lambda>res. if grp \<noteq> 7 then setr bits reg res else ret ())
        else
          bindM (alu grp rmv regv bits) (\<lambda>res. if grp \<noteq> 7 then op_write opd res else ret ())))))"

definition op_group_fe_ff :: "int \<Rightarrow> sreg option \<Rightarrow> ('w, unit) cpu_op" where
  "op_group_fe_ff op so =
     (let bits = (if op = 0xFE then 8 else 16) in
      bindM peek_modrm (\<lambda>(md, reg, rm).
        if reg = 0 \<or> reg = 1 then
          bindM (decode_rm_operand md rm bits so) (\<lambda>opd.
          bindM (op_read opd) (\<lambda>old.
            let res = (if reg = 0 then old + 1 else old - 1) AND (push_bit bits 1 - 1) in
            thenM (set_incdec_flags old res bits (reg = 1)) (op_write opd res)))
        else if op = 0xFF \<and> reg = 2 then
          bindM (decode_rm_operand md rm 16 so) (\<lambda>opd.
          bindM (op_read opd) (\<lambda>target.
          bindM get_ip (\<lambda>i. thenM (push i) (thenM (set_ip target) depth_up))))
        else if op = 0xFF \<and> reg = 3 then
          (if md = 3 then raise UnsupportedInstruction
           else bindM (decode_rm_operand md rm 16 so) (\<lambda>opd.
                bindM (op_read_far opd) (\<lambda>(off, farseg).
                thenM (bindM (get_regs cs) push)
               (thenM (bindM get_ip push)
               (thenM (set_csip farseg off) depth_up)))))
        else if op = 0xFF \<and> reg = 4 then
          bindM (decode_rm_operand md rm 16 so) (\<lambda>opd. bindM (op_read opd) set_ip)
        else if op = 0xFF \<and> reg = 5 then
          (if md = 3 then raise UnsupportedInstruction
           else bindM (decode_rm_operand md rm 16 so) (\<lambda>opd.
                bindM (op_read_far opd) (\<lambda>(off, farseg). set_csip farseg off)))
        else if op = 0xFF \<and> reg = 6 then
          bindM (decode_rm_operand md rm 16 so) (\<lambda>opd. bindM (op_read opd) push)
        else raise UnsupportedInstruction))"

definition op_call_near :: "('w, unit) cpu_op" where
  "op_call_near =
     bindM fetch16 (\<lambda>d. bindM get_ip (\<lambda>i.
     thenM (push i) (thenM (set_ip ((i + sign16 d) AND 0xFFFF)) depth_up)))"

definition op_ret_near :: "('w, unit) cpu_op" where
  "op_ret_near = bindM pop (\<lambda>target. thenM (set_ip target) depth_down)"

definition op_loop :: "int \<Rightarrow> ('w, unit) cpu_op" where
  "op_loop op =
     bindM fetch8 (\<lambda>d.
     thenM (upd_regs (\<lambda>r. r\<lparr>cx := (cx r - 1) AND 0xFFFF\<rparr>))
     (bindM (get_regs cx) (\<lambda>n. bindM (get_flag ZF) (\<lambda>z.
       jump_rel (n \<noteq> 0 \<and> (op = 0xE2 \<or> op = 0xE1 \<and> z \<or> op = 0xE0 \<and> \<not> z)) (sign8 d)))))"

definition op_jmp_short :: "('w, unit) cpu_op" where
  "op_jmp_short = bindM fetch8 (\<lambda>d. jump_rel True (sign8 d))"

definition op_xchg_rm :: "int \<Rightarrow> sreg option \<Rightarrow> ('w, unit) cpu_op" where
  "op_xchg_rm op so =
     (let bits = (if op = 0x86 then 8 else 16) in
      bindM (modrm_operand bits so) (\<lambda>(reg, opd).
      bindM (getr bits reg) (\<lambda>a. bindM (op_read opd) (\<lambda>b.
      thenM (setr bits reg b) (op_write opd a)))))"

definition op_mov_rm :: "int \<Rightarrow> sreg option \<Rightarrow> ('w, unit) cpu_op" where
  "op_mov_rm op so =
     (let bits = (if op \<in> {0x88, 0x8A} then 8 else 16) in
      bindM (modrm_operand bits so) (\<lambda>(reg, opd).
        if op \<in> {0x88, 0x89} then bindM (getr bits reg) (op_write opd)
        else bindM (op_read opd) (setr bits reg)))"

definition op_incdec_r16 :: "int \<Rightarrow> ('w, unit) cpu_op" where
  "op_incdec_r16 op =
     (if op \<le> 0x47 then
        (let reg = op - 0x40 in bindM (get_reg16 reg) (\<lambda>old.
           let res = (old + 1) AND 0xFFFF in
           thenM (set_incdec_flags old res 16 False) (set_reg16 reg res)))
      else
        (let reg = op - 0x48 in bindM (get_reg16 reg) (\<lambda>old.
           let res = (old - 1) AND 0xFFFF in
           thenM (set_incdec_flags old res 16 True) (set_reg16 reg res))))"

definition op_mov_imm :: "int \<Rightarrow> ('w, unit) cpu_op" where
  "op_mov_imm op =
     (if op \<le> 0xB7 then bindM fetch8 (set_reg8 (op - 0xB0))
      else bindM fetch16 (set_reg16 (op - 0xB8)))"

section \<open>Stack, flags and sign extension\<close>

definition op_push_r16 :: "int \<Rightarrow> ('w, unit) cpu_op" where
  "op_push_r16 op = bindM (get_reg16 (op - 0x50)) push"

definition op_pop_r16 :: "int \<Rightarrow> ('w, unit) cpu_op" where
  "op_pop_r16 op = bindM pop (set_reg16 (op - 0x58))"

definition op_pusha :: "('w, unit) cpu_op" where
  "op_pusha = bindM (get_regs (\<lambda>r. [ax r, cx r, dx r, bx r, sp r, bp r, si r, di r]))
     (\<lambda>vs. seqM (map push vs))"

definition op_popa :: "('w, unit) cpu_op" where
  "op_popa =
     seqM [bindM pop (\<lambda>v. upd_regs (\<lambda>r. r\<lparr>di := v\<rparr>)), bindM pop (\<lambda>v. upd_regs (\<lambda>r. r\<lparr>si := v\<rparr>)),
           bindM pop (\<lambda>v. upd_regs (\<lambda>r. r\<lparr>bp := v\<rparr>)), bindM pop (\<lambda>_. ret ()),
           bindM pop (\<lambda>v. upd_regs (\<lambda>r. r\<lparr>bx := v\<rparr>)), bindM pop (\<lambda>v. upd_regs (\<lambda>r. r\<lparr>dx := v\<rparr>)),
           bindM pop (\<lambda>v. upd_regs (\<lambda>r. r\<lparr>cx := v\<rparr>)), bindM pop (\<lambda>v. upd_regs (\<lambda>r. r\<lparr>ax := v\<rparr>))]"

definition sreg_index :: "int \<Rightarrow> int" where
  "sreg_index op = (if op = 0x06 \<or> op = 0x07 then 0 else if op = 0x0E then 1
     else if op = 0x16 \<or> op = 0x17 then 2 else 3)"

definition op_push_sreg :: "int \<Rightarrow> ('w, unit) cpu_op" where
  "op_push_sreg op = bindM (get_sreg (sreg_index op)) push"

definition op_pop_sreg :: "int \<Rightarrow> ('w, unit) cpu_op" where
  "op_pop_sreg op = bindM pop (set_sreg (sreg_index op))"

definition op_push_imm :: "int \<Rightarrow> ('w, unit) cpu_op" where
  "op_push_imm op =
     (if op = 0x68 then bindM fetch16 push
      else bindM fetch8 (\<lambda>d. push (if d AND 0x80 \<noteq> 0 then d OR 0xFF00 else d)))"

definition op_imul_imm :: "int \<Rightarrow> sreg option \<Rightarrow> ('w, unit) cpu_op" where
  "op_imul_imm op so =
     bindM (modrm_operand 16 so) (\<lambda>(reg, opd).
     bindM (op_read opd) (\<lambda>v.
     bindM (if op = 0x6B then bindM fetch8 (\<lambda>d. ret (sign8 d))
            else bindM fetch16 (\<lambda>d. ret (sign16 d))) (\<lambda>imm.
       let result = sign16 v * imm; carry = (\<not> (-32768 \<le> result \<and> result \<le> 32767)) in
       thenM (set_reg16 reg (result AND 0xFFFF)) (thenM (set_flag CF carry) (set_flag OF carry)))))"

definition op_flags_misc :: "int \<Rightarrow> ('w, unit) cpu_op" where
  "op_flags_misc op =
     (if op = 0x9C then bindM (get_regs flags) push
      else if op = 0x9D then bindM pop (\<lambda>v. upd_flags (\<lambda>_. v OR 0x0002))
      else if op = 0x9B then ret ()
      else if op = 0x9F then
        upd_regs (\<lambda>r. r\<lparr>ax := (ax r AND 0x00FF) OR push_bit 8 ((flags r AND 0xD5) OR 0x02)\<rparr>)
      else if op = 0x9E then
        upd_regs (\<lambda>r. r\<lparr>flags :=
          ((flags r AND NOT 0xD5) OR (drop_bit 8 (ax r) AND 0xD5)) OR 0x0002\<rparr>)
      else if op = 0x98 then
        upd_regs (\<lambda>r. let al = ax r AND 0x00FF in
          r\<lparr>ax := al OR (if al AND 0x80 \<noteq> 0 then 0xFF00 else 0x0000)\<rparr>)
      else upd_regs (\<lambda>r. r\<lparr>dx := (if ax r AND 0x8000 \<noteq> 0 then 0xFFFF else 0x0000)\<rparr>))"

section \<open>Moves, immediates and addresses\<close>

definition op_mov_sreg :: "int \<Rightarrow> sreg option \<Rightarrow> ('w, unit) cpu_op" where
  "op_mov_sreg op so =
     bindM (modrm_operand 16 so) (\<lambda>(reg, opd).
       if op = 0x8C then bindM (get_sreg (reg AND 3)) (op_write opd)
       else bindM (op_read opd) (set_sreg (reg AND 3)))"

definition op_mov_moffs :: "int \<Rightarrow> sreg option \<Rightarrow> ('w, unit) cpu_op" where
  "op_mov_moffs op so =
     bindM fetch16 (\<lambda>off.
     bindM (get_regs (seg_of (seg_or so DS))) (\<lambda>seg.
       if op = 0xA0 then
         bindM (get_regs (\<lambda>r. ax r AND 0xFF00)) (\<lambda>h.
         bindM (on_mem (rb seg off)) (\<lambda>v. set_ax (h OR v)))
       else if op = 0xA1 then bindM (on_mem (rw seg off)) set_ax
       else if op = 0xA2 then bindM (get_regs ax) (\<lambda>v. on_mem (wb seg off v))
       else bindM (get_regs ax) (\<lambda>v. on_mem (ww seg off v))))"

definition op_mov_rm_imm :: "int \<Rightarrow> sreg option \<Rightarrow> ('w, unit) cpu_op" where
  "op_mov_rm_imm op so =
     (let bits = (if op = 0xC6 then 8 else 16) in
      bindM peek_modrm (\<lambda>(md, reg, rm).
        if reg \<noteq> 0 then raise UnsupportedInstruction
        else bindM (decode_rm_operand md rm bits so) (\<lambda>opd.
             bindM (fetch_imm bits) (op_write opd))))"

definition op_alu_acc :: "int \<Rightarrow> ('w, unit) cpu_op" where
  "op_alu_acc op =
     (let bits = (if op mod 2 = 0 then 8 else 16); grp = drop_bit 3 op AND 7 in
      bindM (fetch_imm bits) (\<lambda>imm.
      bindM (if bits = 8 then get_reg8 0 else get_regs ax) (\<lambda>a.
      bindM (alu grp a imm bits) (\<lambda>res.
        if grp \<noteq> 7 then (if bits = 8 then set_reg8 0 res else set_ax (res AND 0xFFFF))
        else ret ()))))"

definition op_group1 :: "int \<Rightarrow> sreg option \<Rightarrow> ('w, unit) cpu_op" where
  "op_group1 op so =
     (let bits = (if op \<in> {0x80, 0x82} then 8 else 16) in
      bindM (modrm_operand bits so) (\<lambda>(reg, opd).
      bindM (op_read opd) (\<lambda>dstv.
      bindM (if op = 0x83 then bindM fetch8 (\<lambda>d. ret (sign8 d AND 0xFFFF)) else fetch_imm bits)
        (\<lambda>imm.
      bindM (alu reg dstv imm bits) (\<lambda>res. if reg \<noteq> 7 then op_write opd res else ret ())))))"

definition op_test_rm :: "int \<Rightarrow> sreg option \<Rightarrow> ('w, unit) cpu_op" where
  "op_test_rm op so =
     (let bits = (if op = 0x84 then 8 else 16) in
      bindM (modrm_operand bits so) (\<lambda>(reg, opd).
      bindM (op_read opd) (\<lambda>a. bindM (getr bits reg) (\<lambda>b. set_logic_flags (a AND b) bits))))"

definition op_test_acc :: "int \<Rightarrow> ('w, unit) cpu_op" where
  "op_test_acc op =
     (let bits = (if op = 0xA8 then 8 else 16) in
      bindM (fetch_imm bits) (\<lambda>imm.
      bindM (if bits = 8 then get_reg8 0 else get_regs ax) (\<lambda>a.
        set_logic_flags (a AND imm) bits)))"

definition op_lea :: "sreg option \<Rightarrow> ('w, unit) cpu_op" where
  "op_lea so =
     bindM peek_modrm (\<lambda>(md, reg, rm).
       if md = 3 then raise UnsupportedInstruction
       else bindM (decode_ea md rm so) (\<lambda>ea. set_reg16 reg (offset ea)))"

definition op_les_lds :: "int \<Rightarrow> sreg option \<Rightarrow> ('w, unit) cpu_op" where
  "op_les_lds op so =
     bindM peek_modrm (\<lambda>(md, reg, rm).
       if md = 3 then raise UnsupportedInstruction
       else bindM (decode_rm_operand md rm 16 so) (\<lambda>opd.
            bindM (op_read_far opd) (\<lambda>(off, seg).
            thenM (set_reg16 reg off)
              (upd_regs (put_seg (if op = 0xC4 then ES else DS) seg)))))"

definition op_pop_rm :: "sreg option \<Rightarrow> ('w, unit) cpu_op" where
  "op_pop_rm so = bindM (modrm_operand 16 so) (\<lambda>(reg, opd). bindM pop (op_write opd))"

definition op_xchg_ax :: "int \<Rightarrow> ('w, unit) cpu_op" where
  "op_xchg_ax op =
     (let reg = op - 0x90 in
      if reg \<noteq> 0 then
        bindM (get_regs ax) (\<lambda>a. bindM (get_reg16 reg) (\<lambda>v.
        thenM (set_ax v) (set_reg16 reg a)))
      else ret ())"

section \<open>Control flow\<close>

definition op_far :: "int \<Rightarrow> ('w, unit) cpu_op" where
  "op_far op =
     (if op = 0x9A then
        bindM fetch16 (\<lambda>off. bindM fetch16 (\<lambda>seg. bindM (get_regs (\<lambda>r. r)) (\<lambda>r.
        thenM (push (cs r)) (thenM (push (ip r)) (thenM (set_csip seg off) depth_up)))))
      else if op = 0xE9 then bindM fetch16 (\<lambda>d. jump_rel True (sign16 d))
      else bindM fetch16 (\<lambda>off. bindM fetch16 (\<lambda>seg. set_csip seg off)))"

definition op_ret_imm :: "int \<Rightarrow> ('w, unit) cpu_op" where
  "op_ret_imm op =
     (let add_sp = (\<lambda>n. upd_regs (\<lambda>r. r\<lparr>sp := (sp r + n) AND 0xFFFF\<rparr>)) in
      if op = 0xC2 then
        bindM fetch16 (\<lambda>n. bindM pop (\<lambda>target.
        thenM (set_ip target) (thenM (add_sp n) depth_down)))
      else if op = 0xCB then
        bindM pop (\<lambda>target_ip. bindM pop (\<lambda>target_cs.
        thenM (set_csip target_cs target_ip) depth_down))
      else
        bindM fetch16 (\<lambda>n. bindM pop (\<lambda>target_ip. bindM pop (\<lambda>target_cs.
        thenM (set_csip target_cs target_ip) (thenM (add_sp n) depth_down)))))"

text \<open>The \<open>for _ in range(1, nesting)\<close> loop of ENTER.\<close>

definition enter_copy :: "('w, unit) cpu_op" where
  "enter_copy =
     thenM (upd_regs (\<lambda>r. r\<lparr>bp := (bp r - 2) AND 0xFFFF\<rparr>))
       (bindM (get_regs (\<lambda>r. r)) (\<lambda>r. bindM (on_mem (rw (ss r) (bp r))) push))"

definition op_enter :: "('w, unit) cpu_op" where
  "op_enter =
     bindM fetch16 (\<lambda>alloc.
     bindM fetch8 (\<lambda>d. let nesting = d AND 0x1F in
     thenM (bindM (get_regs (\<lambda>r. bp r AND 0xFFFF)) push)
     (bindM (get_regs (\<lambda>r. sp r AND 0xFFFF)) (\<lambda>frame.
     thenM (seqM (replicate (nat nesting - 1) enter_copy))
    (thenM (if nesting > 0 then push frame else ret ())
     (upd_regs (\<lambda>r. r\<lparr>bp := frame, sp := (sp r - alloc) AND 0xFFFF\<rparr>)))))))"

definition op_leave :: "('w, unit) cpu_op" where
  "op_leave =
     thenM (upd_regs (\<lambda>r. r\<lparr>sp := bp r\<rparr>)) (bindM pop (\<lambda>v. upd_regs (\<lambda>r. r\<lparr>bp := v\<rparr>)))"

definition op_iret :: "('w, unit) cpu_op" where
  "op_iret =
     bindM pop (\<lambda>target_ip. bindM pop (\<lambda>target_cs. bindM pop (\<lambda>fl.
     thenM (upd_flags (\<lambda>_. fl OR 0x0002))
    (thenM (set_csip target_cs target_ip) depth_down))))"

definition op_jcxz :: "('w, unit) cpu_op" where
  "op_jcxz = bindM fetch8 (\<lambda>d. bindM (get_regs cx) (\<lambda>n. jump_rel (n = 0) (sign8 d)))"

definition op_xlat :: "sreg option \<Rightarrow> ('w, unit) cpu_op" where
  "op_xlat so =
     bindM (get_regs (\<lambda>r. r)) (\<lambda>r.
     bindM (on_mem (rb (seg_of (seg_or so DS) r) ((bx r + (ax r AND 0xFF)) AND 0xFFFF)))
       (set_reg8 0))"

section \<open>Flag instructions, ports and interrupts\<close>

definition op_flag :: "int \<Rightarrow> ('w, unit) cpu_op" where
  "op_flag op =
     (if op = 0xF5 then bindM (get_flag CF) (\<lambda>b. set_flag CF (\<not> b))
      else if op = 0xF8 then set_flag CF False
      else if op = 0xF9 then set_flag CF True
      else if op = 0xFC then set_flag DF False
      else if op = 0xFD then set_flag DF True
      else if op = 0xFA then set_flag IF False
      else if op = 0xFB then set_flag IF True
      else putM (\<lambda>c. c\<lparr>halted := True\<rparr>))"

definition op_in :: "'w env \<Rightarrow> int \<Rightarrow> ('w, unit) cpu_op" where
  "op_in E op =
     bindM (if op \<in> {0xE4, 0xE5} then fetch8 else get_regs dx) (\<lambda>port.
       let bits = (if op \<in> {0xE4, 0xEC} then 8 else 16) in
       bindM (read_port E (port AND 0xFFFF) bits) (\<lambda>value.
         if bits = 8 then set_reg8 0 value else set_ax (value AND 0xFFFF)))"

definition op_out :: "'w env \<Rightarrow> int \<Rightarrow> ('w, unit) cpu_op" where
  "op_out E op =
     bindM (if op \<in> {0xE6, 0xE7} then fetch8 else get_regs dx) (\<lambda>port.
       let bits = (if op \<in> {0xE6, 0xEE} then 8 else 16) in
       bindM (if bits = 8 then get_reg8 0 else get_regs ax) (\<lambda>value.
         write_port E (port AND 0xFFFF) value bits))"

definition op_int :: "'w env \<Rightarrow> int \<Rightarrow> ('w, unit) cpu_op" where
  "op_int E op =
     (if op = 0xCD then
        bindM fetch8 (\<lambda>num.
          case interrupt_handler E of Some h \<Rightarrow> h num | None \<Rightarrow> raise UnsupportedInstruction)
      else (case interrupt_handler E of Some h \<Rightarrow> h 3 | None \<Rightarrow> ret ()))"

section \<open>Group 3\<close>

definition py_divmod :: "int \<Rightarrow> int \<Rightarrow> ('w, int \<times> int) cpu_op" where
  "py_divmod a b = (if b = 0 then raise PyZeroDivisionError else ret (a div b, a mod b))"

text \<open>\<open>int(a / b)\<close> of the code: the quotient as a double, truncated.  For \<open>|a| \<le> 2 ^ 31\<close> and
  \<open>|b| \<le> 2 ^ 15\<close> a quotient that is no integer is at least \<open>2 ^ -15\<close> away from the next one, far
  more than the rounding error of a double below \<open>2 ^ 31\<close>, so it is the truncated exact quotient.\<close>

definition trunc_quot :: "int \<Rightarrow> int \<Rightarrow> int" where
  "trunc_quot a b = sgn a * sgn b * (abs a div abs b)"

definition mul_unsigned :: "nat \<Rightarrow> int \<Rightarrow> ('w, unit) cpu_op" where
  "mul_unsigned bits val =
     bindM (get_regs ax) (\<lambda>a.
       if bits = 8 then
         (let result = (a AND 0x00FF) * (val AND 0xFF); carry = (drop_bit 8 result \<noteq> 0) in
          thenM (set_ax (result AND 0xFFFF)) (thenM (set_flag CF carry) (set_flag OF carry)))
       else
         (let result = (a AND 0xFFFF) * (val AND 0xFFFF);
              hi = drop_bit 16 result AND 0xFFFF; carry = (hi \<noteq> 0) in
          thenM (upd_regs (\<lambda>r. r\<lparr>ax := result AND 0xFFFF, dx := hi\<rparr>))
                (thenM (set_flag CF carry) (set_flag OF carry))))"

definition mul_signed :: "nat \<Rightarrow> int \<Rightarrow> ('w, unit) cpu_op" where
  "mul_signed bits val =
     bindM (get_regs ax) (\<lambda>a.
       if bits = 8 then
         (let result = sign8 (a AND 0xFF) * sign8 (val AND 0xFF);
              carry = (\<not> (-128 \<le> result \<and> result \<le> 127)) in
          thenM (set_ax (result AND 0xFFFF)) (thenM (set_flag CF carry) (set_flag OF carry)))
       else
         (let result = sign16 a * sign16 val;
              carry = (\<not> (-32768 \<le> result \<and> result \<le> 32767)) in
          thenM (upd_regs (\<lambda>r. r\<lparr>ax := result AND 0xFFFF,
                                 dx := drop_bit 16 result AND 0xFFFF\<rparr>))
                (thenM (set_flag CF carry) (set_flag OF carry))))"

definition div_unsigned :: "nat \<Rightarrow> int \<Rightarrow> ('w, unit) cpu_op" where
  "div_unsigned bits val =
     (if val = 0 then raise PyZeroDivisionError
      else bindM (get_regs (\<lambda>r. r)) (\<lambda>rg.
        if bits = 8 then
          bindM (py_divmod (ax rg AND 0xFFFF) (val AND 0xFF)) (\<lambda>(q, r).
            if q > 0xFF then raise PyOverflowError
            else set_ax (push_bit 8 (r AND 0xFF) OR (q AND 0xFF)))
        else
          bindM (py_divmod (push_bit 16 (dx rg AND 0xFFFF) OR (ax rg AND 0xFFFF)) (val AND 0xFFFF))
            (\<lambda>(q, r).
              if q > 0xFFFF then raise PyOverflowError
              else upd_regs (\<lambda>s. s\<lparr>ax := q AND 0xFFFF, dx := r AND 0xFFFF\<rparr>))))"

definition div_signed :: "nat \<Rightarrow> int \<Rightarrow> ('w, unit) cpu_op" where
  "div_signed bits val =
     (if val = 0 then raise PyZeroDivisionError
      else bindM (get_regs (\<lambda>r. r)) (\<lambda>rg.
        if bits = 8 then
          (let dividend = sign16 (ax rg); divisor = sign8 (val AND 0xFF) in
           if divisor = 0 then raise PyZeroDivisionError
           else let q = trunc_quot dividend divisor; r = dividend - q * divisor in
             if q < -128 \<or> q > 127 then raise PyOverflowError
             else set_ax (push_bit 8 (r AND 0xFF) OR (q AND 0xFF)))
        else
          (let d0 = push_bit 16 (dx rg AND 0xFFFF) OR (ax rg AND 0xFFFF);
               dividend = (if d0 AND 0x80000000 \<noteq> 0 then d0 - 0x100000000 else d0);
               divisor = sign16 (val AND 0xFFFF) in
           if divisor = 0 then raise PyZeroDivisionError
           else let q = trunc_quot dividend divisor; r = dividend - q * divisor in
             if q < -32768 \<or> q > 32767 then raise PyOverflowError
             else upd_regs (\<lambda>s. s\<lparr>ax := q AND 0xFFFF, dx := r AND 0xFFFF\<rparr>))))"

definition op_group3 :: "int \<Rightarrow> sreg option \<Rightarrow> ('w, unit) cpu_op" where
  "op_group3 op so =
     (let bits = (if op = 0xF6 then 8 else 16); mask = push_bit bits 1 - 1 in
      bindM (modrm_operand bits so) (\<lambda>(reg, opd).
      bindM (op_read opd) (\<lambda>val.
        if reg = 0 then bindM (fetch_imm bits) (\<lambda>imm. set_logic_flags (val AND imm) bits)
        else if reg = 2 then op_write opd (NOT val AND mask)
        else if reg = 3 then
          thenM (set_sub_flags 0 val (- val) bits 0) (op_write opd ((- val) AND mask))
        else if reg = 4 then mul_unsigned bits val
        else if reg = 5 then mul_signed bits val
        else if reg = 6 then div_unsigned bits val
        else if reg = 7 then div_signed bits val
        else raise UnsupportedInstruction)))"

end
