(* ===== verification/CPU_Step.thy ===== *)
theory CPU_Step
  imports CPU_Exec
begin

text \<open>
  \<open>execute_opcode\<close>, \<open>step\<close> and \<open>run\<close> of \<open>dos_re/cpu.py\<close>.  The prefix loop of \<open>step\<close> has no bound
  in the code, so it is a partial function: \<open>None\<close> is not returning.  It is shown to return
  exactly when a byte that is no prefix lies ahead in the code segment.
\<close>

section \<open>The opcode ladder\<close>

definition execute_opcode ::
    "'w env \<Rightarrow> int \<Rightarrow> sreg option \<Rightarrow> int option \<Rightarrow> ('w, unit) cpu_op" where
  "execute_opcode E op so rep =
     (if 0xD8 \<le> op \<and> op \<le> 0xDF then execute_fpu (float_arith E) op so
      else if 0x70 \<le> op \<and> op \<le> 0x7F then op_jcc op
      else if op \<in> {0xC0, 0xC1, 0xD0, 0xD1, 0xD2, 0xD3} then op_shift op so
      else if op < 0x40 \<and> op AND 0x04 = 0 \<and> op AND 0x07 \<in> {0, 1, 2, 3} then op_arith_rm op so
      else if op \<in> {0xFE, 0xFF} then op_group_fe_ff op so
      else if op = 0xE8 then op_call_near
      else if op = 0xC3 then op_ret_near
      else if op \<in> {0xE0, 0xE1, 0xE2} then op_loop op
      else if op = 0xEB then op_jmp_short
      else if op \<in> {0x6C, 0x6D, 0x6E, 0x6F, 0xA4, 0xA5, 0xA6, 0xA7, 0xAA, 0xAB, 0xAC, 0xAD, 0xAE,
                    0xAF} then string_op E op rep so
      else if op \<in> {0x86, 0x87} then op_xchg_rm op so
      else if op \<in> {0x88, 0x89, 0x8A, 0x8B} then op_mov_rm op so
      else if 0x40 \<le> op \<and> op \<le> 0x4F then op_incdec_r16 op
      else if 0xB0 \<le> op \<and> op \<le> 0xBF then op_mov_imm op
      else if 0x50 \<le> op \<and> op \<le> 0x57 then op_push_r16 op
      else if 0x58 \<le> op \<and> op \<le> 0x5F then op_pop_r16 op
      else if op = 0x60 then op_pusha
      else if op = 0x61 then op_popa
      else if op \<in> {0x06, 0x0E, 0x16, 0x1E} then op_push_sreg op
      else if op \<in> {0x07, 0x17, 0x1F} then op_pop_sreg op
      else if op \<in> {0x68, 0x6A} then op_push_imm op
      else if op \<in> {0x69, 0x6B} then op_imul_imm op so
      else if op \<in> {0x9C, 0x9D, 0x9B, 0x9F, 0x9E, 0x98, 0x99} then op_flags_misc op
      else if op \<in> {0x8C, 0x8E} then op_mov_sreg op so
      else if op \<in> {0xA0, 0xA1, 0xA2, 0xA3} then op_mov_moffs op so
      else if op \<in> {0xC6, 0xC7} then op_mov_rm_imm op so
      else if op \<in> {0x04, 0x05, 0x0C, 0x0D, 0x14, 0x15, 0x1C, 0x1D, 0x24, 0x25, 0x2C, 0x2D, 0x34,
                    0x35, 0x3C, 0x3D} then op_alu_acc op
      else if op \<in> {0x80, 0x81, 0x82, 0x83} then op_group1 op so
      else if op \<in> {0x84, 0x85} then op_test_rm op so
      else if op \<in> {0xA8, 0xA9} then op_test_acc op
      else if op = 0x8D then op_lea so
      else if op \<in> {0xC4, 0xC5} then op_les_lds op so
      else if op = 0x8F then op_pop_rm so
      else if 0x90 \<le> op \<and> op \<le> 0x97 then op_xchg_ax op
      else if op \<in> {0x9A, 0xE9, 0xEA} then op_far op
      else if op \<in> {0xC2, 0xCB, 0xCA} then op_ret_imm op
      else if op = 0xC8 then op_enter
      else if op = 0xC9 then op_leave
      else if op = 0xCF then op_iret
      else if op = 0xE3 then op_jcxz
      else if op = 0xD7 then op_xlat so
      else if op = 0x27 then daa
      else if op \<in> {0xF5, 0xF8, 0xF9, 0xFC, 0xFD, 0xFA, 0xFB, 0xF4} then op_flag op
      else if op \<in> {0xE4, 0xE5, 0xEC, 0xED} then op_in E op
      else if op \<in> {0xE6, 0xE7, 0xEE, 0xEF} then op_out E op
      else if op = 0xCD \<or> op = 0xCC then op_int E op
      else if op \<in> {0xF6, 0xF7} then op_group3 op so
      else raise UnsupportedInstruction)"

section \<open>One step\<close>

text \<open>Interrupt delivery at the instruction boundary: whether an IRQ was entered.\<close>

definition deliver_irq :: "'w env \<Rightarrow> ('w, bool) cpu_op" where
  "deliver_irq E =
     (case pending_irq E of None \<Rightarrow> ret False
      | Some poll \<Rightarrow>
          bindM (get_flag IF) (\<lambda>enabled.
            if enabled then
              bindM poll (\<lambda>irq. case irq of
                  Some n \<Rightarrow> thenM (enter_hardware_interrupt n) (ret True)
                | None \<Rightarrow> ret False)
            else ret False))"

definition record_event :: "telemetry_event \<Rightarrow> 'w cpu \<Rightarrow> 'w cpu" where
  "record_event ev c = c\<lparr>coverage_telemetry := map_option (\<lambda>l. l @ [ev]) (coverage_telemetry c)\<rparr>"

definition count_instruction :: "('w, unit) cpu_op" where
  "count_instruction = putM (\<lambda>c. c\<lparr>instruction_count := instruction_count c + 1\<rparr>)"

definition run_hook :: "'w env \<Rightarrow> int \<times> int \<Rightarrow> 'w hook \<Rightarrow> ('w, unit) cpu_op" where
  "run_hook E key hk =
     (let name = (case hook_names E key of Some n \<Rightarrow> n | None \<Rightarrow> ''replacement'') in
      thenM
        (case (hook_verifier E, hook_verifier_passthrough E key) of
           (Some verify, False) \<Rightarrow> verify key hk name
         | _ \<Rightarrow> finallyM (handler hk) (record_event (HookUnverified key name)))
        (if owns_time hk then ret () else count_instruction))"

definition check_frontier :: "int \<times> int \<Rightarrow> ('w, unit) cpu_op" where
  "check_frontier key = bindM (getM (\<lambda>c. c)) (\<lambda>c.
     if interp_forbidden c then
       (case interp_frontier c of
          Some fr \<Rightarrow> putM (\<lambda>c. c\<lparr>interp_frontier := Some (insert key fr)\<rparr>)
        | None \<Rightarrow> raise RuntimeExecutionFrontier)
     else ret ())"

definition seg_override_of :: "int \<Rightarrow> sreg" where
  "seg_override_of op =
     (if op = 0x26 then ES else if op = 0x2E then CS else if op = 0x36 then SS else DS)"

definition is_seg_prefix :: "int \<Rightarrow> bool" where
  "is_seg_prefix op \<longleftrightarrow> op = 0x26 \<or> op = 0x2E \<or> op = 0x36 \<or> op = 0x3E"

definition is_rep_prefix :: "int \<Rightarrow> bool" where
  "is_rep_prefix op \<longleftrightarrow> op = 0xF2 \<or> op = 0xF3"

definition is_prefix :: "int \<Rightarrow> bool" where
  "is_prefix op \<longleftrightarrow> is_seg_prefix op \<or> is_rep_prefix op \<or> op = 0x66"

text \<open>What one prefix byte does to the override and the repeat prefix seen so far.\<close>

definition note_prefix ::
    "int \<Rightarrow> sreg option \<times> int option \<Rightarrow> sreg option \<times> int option" where
  "note_prefix op p =
     (if is_seg_prefix op then (Some (seg_override_of op), snd p)
      else if is_rep_prefix op then (fst p, Some op)
      else p)"

type_synonym ('w, 'a) outcome = "((exn + 'a) \<times> 'w cpu) option"

text \<open>The \<open>while True\<close> loop over the prefixes: the opcode with the last override and repeat
  prefix before it.\<close>

partial_function (option) prefix_loop ::
    "sreg option \<times> int option \<Rightarrow> 'w cpu
      \<Rightarrow> ('w, int \<times> sreg option \<times> int option) outcome" where
  "prefix_loop p c =
     (case fetch8 c of
        (Inl e, c') \<Rightarrow> Some (Inl e, c')
      | (Inr op, c') \<Rightarrow>
          (if is_prefix op then prefix_loop (note_prefix op p) c'
           else Some (Inr (op, p), c')))"

lemma prefix_loop_skip:
  "fetch8 c = (Inr op, c') \<Longrightarrow> is_prefix op \<Longrightarrow> prefix_loop p c = prefix_loop (note_prefix op p) c'"
  by (subst prefix_loop.simps) simp

lemma prefix_loop_stop:
  "fetch8 c = (Inr op, c') \<Longrightarrow> \<not> is_prefix op \<Longrightarrow> prefix_loop p c = Some (Inr (op, p), c')"
  by (subst prefix_loop.simps) simp

lemma prefix_loop_error: "fetch8 c = (Inl e, c') \<Longrightarrow> prefix_loop p c = Some (Inl e, c')"
  by (subst prefix_loop.simps) simp

definition finish_instruction :: "'w env \<Rightarrow> int \<times> int \<Rightarrow> int \<Rightarrow> sreg option \<Rightarrow> int option
    \<Rightarrow> ('w, unit) cpu_op" where
  "finish_instruction E key op so rep =
     thenM (execute_opcode E op so rep)
    (thenM (putM (record_event (InterpretedInstruction key))) count_instruction)"

definition bind_outcome ::
    "('w, 'a) outcome \<Rightarrow> ('a \<Rightarrow> 'w cpu \<Rightarrow> ('w, 'b) outcome) \<Rightarrow> ('w, 'b) outcome" where
  "bind_outcome r k = (case r of None \<Rightarrow> None
     | Some (Inl e, c) \<Rightarrow> Some (Inl e, c) | Some (Inr x, c) \<Rightarrow> k x c)"

lemma bind_outcome_simps [simp]:
  "bind_outcome None k = None"
  "bind_outcome (Some (Inl e, c)) k = Some (Inl e, c)"
  "bind_outcome (Some (Inr x, c)) k = k x c"
  by (simp_all add: bind_outcome_def)

definition interpret_one :: "'w env \<Rightarrow> int \<times> int \<Rightarrow> 'w cpu \<Rightarrow> ('w, unit) outcome" where
  "interpret_one E key c =
     bind_outcome (Some (check_frontier key c)) (\<lambda>_ c.
     bind_outcome (prefix_loop (None, None) c) (\<lambda>(op, so, rep) c.
       Some (finish_instruction E key op so rep c)))"

definition step :: "'w env \<Rightarrow> 'w cpu \<Rightarrow> ('w, unit) outcome" where
  "step E c =
     (if halted c then Some (Inl HaltExecution, c)
      else bind_outcome (Some (deliver_irq E c)) (\<lambda>entered c.
        if entered then Some (Inr (), c)
        else (let key = (cs (regs c) AND 0xFFFF, ip (regs c) AND 0xFFFF) in
          case replacement_hooks E key of
            Some hk \<Rightarrow> Some (run_hook E key hk c)
          | None \<Rightarrow> interpret_one E key c)))"

text \<open>\<open>run\<close>: \<open>todo\<close> is \<open>max_steps - steps\<close>.\<close>

primrec run_from :: "nat \<Rightarrow> nat \<Rightarrow> 'w env \<Rightarrow> 'w cpu \<Rightarrow> ('w, nat) outcome" where
  "run_from 0 steps E c = Some (Inr steps, c)"
| "run_from (Suc todo) steps E c =
     (if halted c then Some (Inr steps, c)
      else bind_outcome (step E c) (\<lambda>_ c. run_from todo (Suc steps) E c))"

definition run :: "'w env \<Rightarrow> nat \<Rightarrow> 'w cpu \<Rightarrow> ('w, nat) outcome" where
  "run E max_steps c = run_from max_steps 0 E c"

end
