(* ===== verification/Mem_Wf.thy ===== *)
theory Mem_Wf
  imports Mem_Bulk
begin

text \<open>
  The invariant of the memory of \<open>dos_re/memory.py\<close>: the four latches are bytes and the bytearray
  keeps its size.  Every CPU access and every block operation keeps it, and a byte read is a
  byte, a word read a word.
\<close>

definition mem_wf :: "int \<Rightarrow> memory \<Rightarrow> bool" where
  "mem_wf n m \<longleftrightarrow> msize m = n \<and> length (ega_latches m) = 4 \<and> (\<forall>l \<in> set (ega_latches m). u8 l)"

interpretation mw: state_invariant "mem_wf n" for n .

lemma mem_wf_new: "mem_wf sz (memory_new sz sb)"
  by (simp add: mem_wf_def memory_new_def u8_def)

lemma mem_wf_mdata [simp]: "mem_wf n (m\<lparr>mdata := d\<rparr>) = mem_wf n m"
  by (simp add: mem_wf_def)

lemma mem_wf_notify [simp]: "mem_wf n (notify_write a old new m) = mem_wf n m"
  by (simp add: mem_wf_def notify_write_def split: option.splits)

lemma keeps_byte_at: "mw.keeps n (byte_at a) u8"
  by (rule mw.keepsI) (auto simp: byte_at_def u8_uint split: if_splits)

lemma keeps_set_byte: "mw.keeps n (set_byte a v) (\<lambda>_. True)"
  by (rule mw.keepsI) (auto simp: set_byte_def)

lemma keeps_putM_notify: "mw.keeps n (putM (notify_write a old new)) (\<lambda>_. True)"
  by (rule mw.keeps_putM) simp

lemma keeps_getM_id: "mw.keeps n (getM (\<lambda>m. m)) (mem_wf n)"
  by (rule mw.keeps_getM)

lemma keeps_state: "(\<And>m0. mem_wf n m0 \<Longrightarrow> mw.keeps n (f m0) Q) \<Longrightarrow>
    mw.keeps n (bindM (getM (\<lambda>m. m)) f) Q"
  by (rule mw.keeps_bindM [OF keeps_getM_id])

lemma u16_word: "u8 lo \<Longrightarrow> u8 hi \<Longrightarrow> u16 (lo OR push_bit 8 hi)"
  by (rule u16_bytes)

lemma keeps_two_bytes:
  assumes "mw.keeps n a u8" "mw.keeps n b u8"
  shows "mw.keeps n (bindM a (\<lambda>lo. bindM b (\<lambda>hi. ret (lo OR push_bit 8 hi)))) u16"
  by (rule mw.keeps_bindM [OF assms(1)], rule mw.keeps_bindM [OF assms(2)], rule mw.keeps_ret)
     (rule u16_word)

lemma keeps_store1: "mw.keeps n (store1 a v) (\<lambda>_. True)"
  unfolding store1_def
  by (rule keeps_state, rule mw.keeps_if, rule mw.keeps_bindM [OF keeps_byte_at],
      rule mw.keeps_thenM [OF keeps_set_byte], rule keeps_putM_notify, rule keeps_set_byte)

lemma keeps_store2: "mw.keeps n (store2 a v) (\<lambda>_. True)"
  unfolding store2_def Let_def
  by (rule keeps_state, rule mw.keeps_if, rule mw.keeps_thenM [OF keeps_set_byte],
      rule mw.keeps_thenM [OF keeps_set_byte], rule keeps_putM_notify,
      rule mw.keeps_thenM [OF keeps_set_byte], rule keeps_set_byte)

lemma color_compare_u8: "u8 (color_compare cc dc ls)"
proof -
  have step: "u8 (r AND x)" if "u8 r" for r x :: int
    using that and_le_left [of r x] by (simp add: u8_def)
  have fold: "u8 r \<Longrightarrow> u8 (fold (\<lambda>p result. if b p then result AND f p else result) ps r)"
    for b :: "nat \<Rightarrow> bool" and f ps r
    by (induction ps arbitrary: r) (simp_all add: step)
  show ?thesis
    unfolding color_compare_def Let_def by (rule fold) (simp add: u8_def)
qed

lemma keeps_ega_rb: "mw.keeps n (ega_rb po) u8"
  unfolding ega_rb_def Let_def
proof (rule mw.keeps_bindM [OF keeps_byte_at])+
  fix l0 l1 l2 l3 :: int
  assume u: "u8 l0" "u8 l1" "u8 l2" "u8 l3"
  show "mw.keeps n (thenM (putM (\<lambda>m. m\<lparr>ega_latches := [l0, l1, l2, l3]\<rparr>))
      (getM (\<lambda>m. if ega_read_mode m AND 1 \<noteq> 0
        then color_compare (ega_color_compare m) (ega_color_dont_care m) (ega_latches m)
        else ega_latches m ! nat (ega_read_plane m AND 3)))) u8"
  proof (rule mw.keeps_thenM)
    show "mw.keeps n (putM (\<lambda>m. m\<lparr>ega_latches := [l0, l1, l2, l3]\<rparr>)) (\<lambda>_. True)"
      using u by (intro mw.keeps_putM) (simp add: mem_wf_def)
    show "mw.keeps n (getM (\<lambda>m. if ega_read_mode m AND 1 \<noteq> 0
        then color_compare (ega_color_compare m) (ega_color_dont_care m) (ega_latches m)
        else ega_latches m ! nat (ega_read_plane m AND 3))) u8"
      by (rule mw.keeps_getM) (auto simp: mem_wf_def color_compare_u8 mask_simps
          intro!: bspec [OF _ nth_mem] nat_less_iff [THEN iffD2])
  qed
qed

lemma keeps_rb: "mw.keeps n (rb seg off) u8"
  unfolding rb_def
  by (rule keeps_state) (auto simp: Let_def keeps_byte_at keeps_ega_rb split: option.split)

lemma keeps_rw: "mw.keeps n (rw seg off) u16"
proof -
  have cond: "mw.keeps n (bindM (rb seg off) (\<lambda>lo.
      if b then bindM (rb seg x) (\<lambda>hi. ret (lo OR push_bit 8 hi))
      else bindM (byte_at y) (\<lambda>hi. ret (lo OR push_bit 8 hi)))) u16" for b x y
    by (cases b) (simp_all add: keeps_two_bytes keeps_rb keeps_byte_at)
  show ?thesis
    unfolding rw_def
    by (rule keeps_state)
       (auto simp: Let_def keeps_two_bytes keeps_byte_at cond split: option.split)
qed

lemma keeps_ega_wb: "mw.keeps n (ega_wb po v) (\<lambda>_. True)"
  unfolding ega_wb_def Let_def
  by (rule keeps_state, rule mw.keeps_if, rule mw.keeps_raise, rule mw.keeps_if)
     (rule mw.keeps_seqM_map, rule keeps_set_byte)+

lemma keeps_wb: "mw.keeps n (wb seg off v) (\<lambda>_. True)"
  unfolding wb_def
  by (rule keeps_state)
     (auto simp: Let_def keeps_store1 keeps_ega_wb mw.keeps_ret split: option.split)

lemma keeps_ww: "mw.keeps n (ww seg off v) (\<lambda>_. True)"
  unfolding ww_def
  by (rule keeps_state)
     (auto simp: Let_def keeps_store1 keeps_store2 keeps_ega_wb keeps_set_byte mw.keeps_ret
       split: option.split intro!: mw.keeps_thenM)

lemma slice_set_wf:
  "0 \<le> a \<Longrightarrow> a + int (length p) \<le> msize m \<Longrightarrow> mem_wf n m \<Longrightarrow> mem_wf n (slice_set a p m)"
  by (simp add: slice_set_inside)

lemma keeps_fill: "mw.keeps n (try_forward_bulk_fill seg off pattern count) (\<lambda>_. True)"
proof (rule mw.keepsI)
  fix m assume wf: "mem_wf n m"
  show "mem_wf n (snd (try_forward_bulk_fill seg off pattern count m))"
  proof (cases "fst (try_forward_bulk_fill seg off pattern count m) = Inr True")
    case True
    then obtain m' where "try_forward_bulk_fill seg off pattern count m = (Inr True, m')"
      by (metis prod.collapse)
    then show ?thesis using bulk_fill_effect(1) wf by fastforce
  next
    case False
    then have "snd (try_forward_bulk_fill seg off pattern count m) = m"
      by (auto simp: try_forward_bulk_fill_def Let_def split: sum.splits option.splits if_splits)
    then show ?thesis using wf by simp
  qed
qed simp

lemma keeps_copy: "mw.keeps n (try_forward_bulk_copy sseg soff dseg doff k) (\<lambda>_. True)"
proof (rule mw.keepsI)
  fix m assume wf: "mem_wf n m"
  let ?r = "try_forward_bulk_copy sseg soff dseg doff k m"
  show "mem_wf n (snd ?r)"
  proof (cases "fst ?r = Inr True \<and> 0 < k")
    case True
    then obtain m' where "?r = (Inr True, m')" "0 < k" by (metis prod.collapse)
    then show ?thesis using bulk_copy_effect [of sseg soff dseg doff k m m'] wf by fastforce
  next
    case False
    then have "snd ?r = m"
      by (auto simp: try_forward_bulk_copy_def Let_def split: sum.splits option.splits if_splits)
    then show ?thesis using wf by simp
  qed
qed simp

end
