(* ===== verification/CPU_Wf.thy ===== *)
theory CPU_Wf
  imports CPU_Step Mem_Wf
begin

text \<open>
  The type invariant of \<open>CPU8086\<close>: the fields of the register file are Python integers, and
  every instruction leaves each of them in its 16 bits, the x87 stack at most eight deep, the
  bytearray at its size.  The interpretation \<open>cw\<close> of \<open>state_invariant\<close> carries the proof along the
  composition of the methods; the callbacks are assumed to keep the invariant too.
\<close>

section \<open>The invariant\<close>

definition wf_regs :: "CPUState \<Rightarrow> bool" where
  "wf_regs r \<longleftrightarrow> u16 (ax r) \<and> u16 (bx r) \<and> u16 (cx r) \<and> u16 (dx r) \<and> u16 (sp r) \<and> u16 (bp r)
     \<and> u16 (si r) \<and> u16 (di r) \<and> u16 (cs r) \<and> u16 (ds r) \<and> u16 (es r) \<and> u16 (ss r) \<and> u16 (ip r)
     \<and> u16 (flags r) \<and> u16 (fsw r) \<and> u16 (fcw r) \<and> length (fst_stack r) \<le> 8"

text \<open>\<open>P\<close> is what is known of the instruction count, which only \<open>step\<close> itself changes.\<close>

definition wf :: "int \<Rightarrow> (int \<Rightarrow> bool) \<Rightarrow> 'w cpu \<Rightarrow> bool" where
  "wf n P c \<longleftrightarrow> mem_wf n (mem c) \<and> wf_regs (regs c) \<and> 0 \<le> call_depth c \<and> P (instruction_count c)"

interpretation cw: state_invariant "wf n P" for n P .

lemma wf_regs_init: "wf_regs CPUState_init"
  by (simp add: wf_regs_def CPUState_init_def u16_def)

lemma wf_new: "P 0 \<Longrightarrow> wf sz P (CPU8086 (memory_new sz sb) w)"
  by (simp add: wf_def CPU8086_def mem_wf_new wf_regs_init)

section \<open>Rules for the primitives\<close>

named_theorems cw_intros \<open>which operations keep the invariant\<close>

lemma cw_get_regs [cw_intros]: "cw.keeps n P (get_regs f) (\<lambda>y. \<exists>r. wf_regs r \<and> y = f r)"
  unfolding get_regs_def by (rule cw.keepsI) (auto simp: wf_def)

lemma cw_upd_regs [cw_intros]:
  "(\<And>r. wf_regs r \<Longrightarrow> wf_regs (f r)) \<Longrightarrow> cw.keeps n P (upd_regs f) (\<lambda>_. True)"
  unfolding upd_regs_def by (rule cw.keeps_putM) (simp add: wf_def)

lemma cw_on_mem: "mw.keeps n f Q \<Longrightarrow> cw.keeps n P (on_mem f) Q"
  by (auto simp: cw.keeps_def mw.keeps_def on_mem_def wf_def split: prod.splits)

lemma cw_rb [cw_intros]: "cw.keeps n P (on_mem (rb seg off)) u8"
  by (rule cw_on_mem, rule keeps_rb)

lemma cw_rw [cw_intros]: "cw.keeps n P (on_mem (rw seg off)) u16"
  by (rule cw_on_mem, rule keeps_rw)

lemma cw_wb [cw_intros]: "cw.keeps n P (on_mem (wb seg off v)) (\<lambda>_. True)"
  by (rule cw_on_mem, rule keeps_wb)

lemma cw_ww [cw_intros]: "cw.keeps n P (on_mem (ww seg off v)) (\<lambda>_. True)"
  by (rule cw_on_mem, rule keeps_ww)

lemma cw_byte_at [cw_intros]: "cw.keeps n P (on_mem (byte_at a)) u8"
  by (rule cw_on_mem, rule keeps_byte_at)

lemma cw_fill [cw_intros]: "cw.keeps n P (on_mem (try_forward_bulk_fill sg off p k)) (\<lambda>_. True)"
  by (rule cw_on_mem, rule keeps_fill)

lemma cw_copy [cw_intros]: "cw.keeps n P (on_mem (try_forward_bulk_copy sg off dg doff k)) (\<lambda>_. True)"
  by (rule cw_on_mem, rule keeps_copy)

text \<open>Range facts of the register updates.\<close>

lemma u16_consts [simp]: "u16 0" "u16 1" "u16 2" "u16 0x037F" "u16 0xFFFF" "u16 0xFF00" "u16 0xFF"
  "u16 0x4100" "u16 0x4500" "u16 0x4000" "u16 0x0100" "u16 0x0200" "u16 0x0500" "u16 0x0400"
  "u16 0xD5" "u16 0xD500"
  by (simp_all add: u16_def)

lemma u16_mask12 [simp]: "u16 (x AND 0x0FFF)"
  using pos_mod_bound [of 4096 x] by (simp add: u16_def mask_simps)

lemma u16_hi [simp]: "u16 (x AND 0xFF00)"
  by (rule u16_and2) simp

lemma u16_lo [simp]: "u16 (x AND 0xFF)"
  by (rule u8_u16) simp

lemma wf_regsD:
  assumes "wf_regs r"
  shows "u16 (ax r)" "u16 (bx r)" "u16 (cx r)" "u16 (dx r)" "u16 (sp r)" "u16 (bp r)" "u16 (si r)"
    "u16 (di r)" "u16 (cs r)" "u16 (ds r)" "u16 (es r)" "u16 (ss r)" "u16 (ip r)" "u16 (flags r)"
    "u16 (fsw r)" "u16 (fcw r)" "length (fst_stack r) \<le> 8"
  using assms by (simp_all add: wf_regs_def)

lemma wf_put_reg16: "wf_regs r \<Longrightarrow> u16 v \<Longrightarrow> wf_regs (put_reg16 idx v r)"
  by (simp add: put_reg16_def wf_regs_def)

lemma wf_put_reg8: "wf_regs r \<Longrightarrow> wf_regs (put_reg8 idx v r)"
  by (simp add: put_reg8_def Let_def wf_put_reg16)

lemma wf_put_seg: "wf_regs r \<Longrightarrow> u16 v \<Longrightarrow> wf_regs (put_seg sg v r)"
  by (cases sg) (simp_all add: wf_regs_def)

lemma reg8_u8: "u8 (reg8 idx r)"
  by (simp add: reg8_def Let_def)

lemma seg_of_u16: "wf_regs r \<Longrightarrow> u16 (seg_of sg r)"
  by (cases sg) (simp_all add: wf_regs_def)

lemma flag_words_u16:
  "u16 (logic_flags res bits f)" "u16 (add_flags a b res bits k f)"
  "u16 (sub_flags a b res bits k f)" "u16 (incdec_flags old r bits d f)"
  "u16 (set_flag_word fl v f)"
  by (simp_all add: logic_flags_def add_flags_def sub_flags_def incdec_flags_def
      set_flag_word_def Let_def)

lemmas wf_facts = wf_regsD wf_put_reg16 wf_put_reg8 wf_put_seg reg8_u8 seg_of_u16 flag_words_u16

lemmas wf_leaf = wf_regs_def reg8_u8 seg_of_u16 flag_words_u16 u8_u16

section \<open>The primitives of the instructions\<close>

lemma cw_set_flag [cw_intros]: "cw.keeps n P (set_flag fl v) (\<lambda>_. True)"
  unfolding set_flag_def by (rule cw_upd_regs) (simp add: wf_regs_def flag_words_u16)

lemma cw_get_flag [cw_intros]: "cw.keeps n P (get_flag fl) (\<lambda>_. True)"
  unfolding get_flag_def by (rule cw.keeps_True, rule cw_get_regs)

lemma cw_upd_flags [cw_intros]: "(\<And>x. u16 x \<Longrightarrow> u16 (f x)) \<Longrightarrow> cw.keeps n P (upd_flags f) (\<lambda>_. True)"
  unfolding upd_flags_def by (rule cw_upd_regs) (simp add: wf_regs_def)

lemma cw_arith_flags [cw_intros]:
  "cw.keeps n P (set_logic_flags r bits) (\<lambda>_. True)"
  "cw.keeps n P (set_sub_flags a b r bits k) (\<lambda>_. True)"
  "cw.keeps n P (set_add_flags a b r bits k) (\<lambda>_. True)"
  "cw.keeps n P (set_incdec_flags a r bits d) (\<lambda>_. True)"
  unfolding set_logic_flags_def set_sub_flags_def set_add_flags_def set_incdec_flags_def
  by (rule cw_upd_flags, rule flag_words_u16)+

lemma cw_regs16 [cw_intros]:
  "cw.keeps n P (get_reg16 idx) u16" "cw.keeps n P (set_reg16 idx v) (\<lambda>_. True)"
  "cw.keeps n P (get_reg8 idx) u8" "cw.keeps n P (set_reg8 idx v) (\<lambda>_. True)"
  "cw.keeps n P (get_sreg idx) u16" "cw.keeps n P (set_sreg idx v) (\<lambda>_. True)"
  unfolding get_reg16_def set_reg16_def get_reg8_def set_reg8_def get_sreg_def set_sreg_def
  by (rule cw_upd_regs cw.keeps_weaken [OF cw_get_regs]; auto simp: wf_facts)+

lemma cw_getr [cw_intros]: "cw.keeps n P (getr bits idx) u16"
  unfolding getr_def
  by (rule cw.keeps_if, rule cw.keeps_weaken [OF cw_regs16(3)], erule u8_u16, rule cw_regs16(1))

lemma cw_setr [cw_intros]: "cw.keeps n P (setr bits idx v) (\<lambda>_. True)"
  unfolding setr_def by (intro cw.keeps_if cw_intros)

lemma cw_set_ip [cw_intros]: "u16 v \<Longrightarrow> cw.keeps n P (set_ip v) (\<lambda>_. True)"
  unfolding set_ip_def by (rule cw_upd_regs) (simp add: wf_regs_def)

lemma cw_set_ax [cw_intros]: "u16 v \<Longrightarrow> cw.keeps n P (set_ax v) (\<lambda>_. True)"
  unfolding set_ax_def by (rule cw_upd_regs) (simp add: wf_regs_def)

lemma cw_set_csip [cw_intros]: "u16 sg \<Longrightarrow> u16 off \<Longrightarrow> cw.keeps n P (set_csip sg off) (\<lambda>_. True)"
  unfolding set_csip_def by (rule cw_upd_regs) (simp add: wf_regs_def)

lemma cw_state [cw_intros]: "cw.keeps n P (getM (\<lambda>c. c)) (wf n P)"
  by (rule cw.keeps_getM)

lemma cw_code_byte [cw_intros]: "cw.keeps n P code_byte u8"
  unfolding code_byte_def
  by (rule cw.keeps_bindM [OF cw_state])
     (auto simp: Let_def split: option.split intro!: cw_byte_at cw_rb)

lemma cw_fetch8 [cw_intros]: "cw.keeps n P fetch8 u8"
  unfolding fetch8_def
  by (rule cw_intros cw.keeps_rules | (auto simp: wf_leaf)[1])+

lemma cw_two_bytes: "cw.keeps n P a u8 \<Longrightarrow> cw.keeps n P b u8 \<Longrightarrow>
    cw.keeps n P (bindM a (\<lambda>lo. bindM b (\<lambda>hi. ret (lo OR push_bit 8 hi)))) u16"
  by (rule cw.keeps_bindM, assumption, rule cw.keeps_bindM, assumption, rule cw.keeps_ret)
     (rule u16_bytes)

lemma cw_fetch16 [cw_intros]: "cw.keeps n P fetch16 u16"
  unfolding fetch16_def Let_def
  by (rule cw.keeps_bindM [OF cw_state], rule cw.keeps_if)
     (auto intro!: cw_two_bytes cw_intros cw.keeps_thenM)

lemma cw_peek_modrm [cw_intros]: "cw.keeps n P peek_modrm (\<lambda>_. True)"
  unfolding peek_modrm_def Let_def
  by (rule cw_intros cw.keeps_rules | (auto simp: wf_leaf)[1])+

lemma cw_push [cw_intros]: "cw.keeps n P (push v) (\<lambda>_. True)"
  unfolding push_def
  by (rule cw_intros cw.keeps_rules | (auto simp: wf_leaf)[1])+

lemma cw_pop [cw_intros]: "cw.keeps n P pop u16"
  unfolding pop_def
  by (rule cw_intros cw.keeps_rules | (auto simp: wf_leaf)[1])+

lemma cw_decode_ea [cw_intros]: "cw.keeps n P (decode_ea md rm so) (\<lambda>ea. u16 (offset ea))"
proof -
  have rets: "cw.keeps n P (ret \<lparr>segment = sg, offset = x AND 0xFFFF\<rparr>) (\<lambda>ea. u16 (offset ea))" for sg x
    by (rule cw.keeps_ret) simp
  show ?thesis
    unfolding decode_ea_def Let_def
    by (rule cw.keeps_if, rule cw.keeps_bindM [OF cw_fetch16], rule rets,
        rule cw.keeps_bindM [OF cw_state])
       (auto split: prod.split intro!: rets cw.keeps_bindM [OF cw_byte_at]
          cw.keeps_bindM [OF cw_fetch8] cw.keeps_bindM [OF cw_fetch16] cw.keeps_thenM cw_set_ip)
qed

lemma cw_decode_rm [cw_intros]: "cw.keeps n P (decode_rm_operand md rm bits so) (\<lambda>_. True)"
  unfolding decode_rm_operand_def
  by (rule cw_intros cw.keeps_rules | (auto simp: wf_leaf)[1])+

lemma u8_or_u16: "cw.keeps n P a u8 \<Longrightarrow> cw.keeps n P b u16 \<Longrightarrow> cw.keeps n P (if t then a else b) u16"
  by (auto intro: cw.keeps_weaken u8_u16)

lemma cw_on_mem_if: "on_mem (if b then f else g) = (if b then on_mem f else on_mem g)"
  by simp

lemma cw_op_read [cw_intros]: "cw.keeps n P (op_read opd) u16"
  by (cases opd) (auto simp only: op_read.simps cw_on_mem_if intro!: u8_or_u16 cw_intros)

lemma cw_op_write [cw_intros]: "cw.keeps n P (op_write opd v) (\<lambda>_. True)"
  by (cases opd) (auto simp only: op_write.simps cw_on_mem_if intro!: cw.keeps_if cw_intros)

lemma cw_op_read_far [cw_intros]: "cw.keeps n P (op_read_far opd) (\<lambda>(o1, s1). u16 o1 \<and> u16 s1)"
  by (cases opd) (auto intro!: cw.keeps_raise cw.keeps_bindM [OF cw_rw] cw.keeps_ret)

lemma cw_enter_irq [cw_intros]: "cw.keeps n P (enter_hardware_interrupt irq) (\<lambda>_. True)"
  unfolding enter_hardware_interrupt_def Let_def
  by (rule cw_intros cw.keeps_rules | (auto simp: wf_leaf)[1])+

lemma cw_daa [cw_intros]: "cw.keeps n P daa (\<lambda>_. True)"
  unfolding daa_def Let_def
  by (rule cw_intros cw.keeps_rules | (auto simp: wf_leaf)[1])+

section \<open>Arithmetic\<close>

lemma alu_word_u16: "u16 (snd (alu_word grp a b bits f))"
  by (simp add: alu_word_def Let_def flag_words_u16)

lemma cw_alu [cw_intros]: "cw.keeps n P (alu grp a b bits) (\<lambda>_. True)"
  unfolding alu_def
  by (rule cw.keeps_True, rule cw.keeps_if)
     (rule cw_intros cw.keeps_rules alu_word_u16 | (auto simp: wf_leaf)[1])+

lemma cw_condition [cw_intros]: "cw.keeps n P (condition cond) (\<lambda>_. True)"
  unfolding condition_def by (rule cw.keeps_True, rule cw_get_regs)

section \<open>The x87 unit\<close>

lemma cw_lift_exn [cw_intros]: "cw.keeps n P (lift_exn r) (\<lambda>_. True)"
  unfolding lift_exn_def by (cases r) (simp_all add: cw.keeps_raise cw.keeps_ret)

lemma cw_upd_fsw [cw_intros]: "(\<And>x. u16 x \<Longrightarrow> u16 (f x)) \<Longrightarrow> cw.keeps n P (upd_fsw f) (\<lambda>_. True)"
  unfolding upd_fsw_def by (rule cw_upd_regs) (simp add: wf_regs_def)

lemma u16_and_right [simp]: "u16 y \<Longrightarrow> u16 (x AND y)"
  by (rule u16_and2)

lemma u16_fsw [simp]: "u16 x \<Longrightarrow> u16 (x AND y)" "u16 x \<Longrightarrow> u16 y \<Longrightarrow> u16 (x OR y)"
  by (rule u16_and, assumption, rule u16_or)

lemma cw_fpush [cw_intros]: "cw.keeps n P (fpush v) (\<lambda>_. True)"
  unfolding fpush_def
  by (rule cw_intros cw.keeps_rules | (auto simp: wf_leaf)[1])+

lemma cw_fpop [cw_intros]: "cw.keeps n P fpop (\<lambda>_. True)"
  unfolding fpop_def
  by (rule cw_intros cw.keeps_rules | (auto simp: wf_leaf)[1])+

lemma cw_fst_get [cw_intros]: "cw.keeps n P (fst_get i) (\<lambda>_. True)"
  unfolding fst_get_def
  by (rule cw_intros cw.keeps_rules | (auto simp: wf_leaf)[1])+

lemma cw_fst_set [cw_intros]: "cw.keeps n P (fst_set i v) (\<lambda>_. True)"
  unfolding fst_set_def
  by (rule cw_intros cw.keeps_rules | (auto simp: wf_leaf)[1])+

lemma cw_fcompare [cw_intros]: "cw.keeps n P (fcompare a b) (\<lambda>_. True)"
  unfolding fcompare_def Let_def
  by (rule cw_intros cw.keeps_rules | (auto simp: wf_leaf)[1])+

lemma cw_fxam [cw_intros]: "cw.keeps n P fxam (\<lambda>_. True)"
  unfolding fxam_def
  by (rule cw_intros cw.keeps_rules | (auto simp: wf_leaf)[1])+

lemma cw_fround [cw_intros]: "cw.keeps n P (fround v) (\<lambda>_. True)"
  unfolding fround_def
  by (rule cw_intros cw.keeps_rules | (auto simp: wf_leaf)[1])+

lemma cw_py_fdiv [cw_intros]: "cw.keeps n P (py_fdiv fo a b) (\<lambda>_. True)"
  unfolding py_fdiv_def
  by (rule cw_intros cw.keeps_rules | (auto simp: wf_leaf)[1])+

lemma cw_fread [cw_intros]: "cw.keeps n P (fread seg off k) (\<lambda>_. True)"
  by (induction k arbitrary: off)
     (auto intro!: cw.keeps_ret cw.keeps_bindM [OF cw_rb] intro: cw.keeps_bindM)

lemma cw_fwrite [cw_intros]: "cw.keeps n P (fwrite seg off d) (\<lambda>_. True)"
  unfolding fwrite_def by (rule cw.keeps_seqM_map, rule cw_wb)

lemma cw_farith_pop [cw_intros]:
  "(\<And>a b. cw.keeps n P (f a b) (\<lambda>_. True)) \<Longrightarrow> cw.keeps n P (farith_pop f rm sw) (\<lambda>_. True)"
  unfolding farith_pop_def
  by (rule cw_intros cw.keeps_rules | assumption | (auto simp: wf_leaf)[1])+

lemma cw_fpu_reg_op [cw_intros]: "cw.keeps n P (fpu_reg_op fo op reg rm) (\<lambda>_. True)"
  unfolding fpu_reg_op_def Let_def
  by (rule cw_intros cw.keeps_rules | (auto simp: wf_leaf)[1])+

lemma cw_fint16 [cw_intros]: "cw.keeps n P (fint16 seg off) (\<lambda>_. True)"
  unfolding fint16_def
  by (rule cw_intros cw.keeps_rules | (auto simp: wf_leaf)[1])+

lemma cw_fint32 [cw_intros]: "cw.keeps n P (fint32 seg off) (\<lambda>_. True)"
  unfolding fint32_def Let_def
  by (rule cw_intros cw.keeps_rules | (auto simp: wf_leaf)[1])+

lemma cw_fpop_if [cw_intros]: "cw.keeps n P (fpop_if b) (\<lambda>_. True)"
  unfolding fpop_if_def
  by (rule cw_intros cw.keeps_rules | (auto simp: wf_leaf)[1])+

lemma cw_farith_mem [cw_intros]: "cw.keeps n P (farith_mem fo reg a b) (\<lambda>_. True)"
  unfolding farith_mem_def
  by (rule cw_intros cw.keeps_rules | (auto simp: wf_leaf)[1])+

lemma cw_fpu_mem_op [cw_intros]: "cw.keeps n P (fpu_mem_op fo op reg seg off) (\<lambda>_. True)"
  unfolding fpu_mem_op_def
  by (rule cw_intros cw.keeps_rules | (auto simp: wf_leaf)[1])+

lemma cw_execute_fpu [cw_intros]: "cw.keeps n P (execute_fpu fo op so) (\<lambda>_. True)"
  unfolding execute_fpu_def
  by (rule cw_intros cw.keeps_rules | (auto simp: wf_leaf)[1])+

section \<open>The instructions\<close>

lemma cw_shift [cw_intros]: "cw.keeps n P (shift grp val cnt bits) (\<lambda>_. True)"
proof -
  have "u16 (shift_flags grp orig res cf k bits f)" for orig res cf k f
    by (simp add: shift_flags_def Let_def)
  then show ?thesis
    unfolding shift_def Let_def
    by (intro cw.keeps_if cw.keeps_ret [of "\<lambda>_. True"] cw.keeps_bindM [OF cw_get_regs])
       (auto split: option.split intro!: cw.keeps_raise cw.keeps_thenM cw_upd_flags
          cw.keeps_ret [of "\<lambda>_. True"])
qed

lemma cw_modrm_operand [cw_intros]: "cw.keeps n P (modrm_operand bits so) (\<lambda>_. True)"
  unfolding modrm_operand_def
  by (rule cw_intros cw.keeps_rules | (auto simp: wf_leaf)[1])+

lemma cw_fetch_imm [cw_intros]: "cw.keeps n P (fetch_imm bits) u16"
  unfolding fetch_imm_def by (rule u8_or_u16 cw_fetch8 cw_fetch16)+

lemma cw_get_ip [cw_intros]: "cw.keeps n P get_ip u16"
  unfolding get_ip_def by (rule cw.keeps_weaken [OF cw_get_regs]) (auto simp: wf_regs_def)

lemma cw_jump_rel [cw_intros]: "cw.keeps n P (jump_rel tk rel) (\<lambda>_. True)"
  unfolding jump_rel_def
  by (rule cw_intros cw.keeps_rules | (auto simp: wf_leaf)[1])+

lemma cw_depth [cw_intros]:
  "cw.keeps n P depth_up (\<lambda>_. True)" "cw.keeps n P depth_down (\<lambda>_. True)"
  unfolding depth_up_def depth_down_def by (rule cw.keeps_putM, simp add: wf_def)+

lemma cw_halt [cw_intros]: "cw.keeps n P (putM (halted_update f)) (\<lambda>_. True)"
  by (rule cw.keeps_putM) (simp add: wf_def)

lemma cw_put_seg [cw_intros]: "u16 v \<Longrightarrow> cw.keeps n P (upd_regs (put_seg sg v)) (\<lambda>_. True)"
  by (rule cw_upd_regs) (rule wf_put_seg)

text \<open>The primitives are complete: the collection proves each instruction from its text.\<close>

lemma cw_op_jcc [cw_intros]: "cw.keeps n P (op_jcc op) (\<lambda>_. True)"
  unfolding op_jcc_def Let_def
  by (rule cw_intros cw.keeps_rules | (auto simp: wf_leaf)[1])+

lemma cw_op_shift [cw_intros]: "cw.keeps n P (op_shift op so) (\<lambda>_. True)"
  unfolding op_shift_def Let_def
  by (rule cw_intros cw.keeps_rules | (auto simp: wf_leaf)[1])+

lemma cw_op_arith_rm [cw_intros]: "cw.keeps n P (op_arith_rm op so) (\<lambda>_. True)"
  unfolding op_arith_rm_def Let_def
  by (rule cw_intros cw.keeps_rules | (auto simp: wf_leaf)[1])+

lemma cw_op_group_fe_ff [cw_intros]: "cw.keeps n P (op_group_fe_ff op so) (\<lambda>_. True)"
  unfolding op_group_fe_ff_def Let_def
  by (rule cw_intros cw.keeps_rules | (auto simp: wf_leaf)[1])+

lemma cw_op_call_near [cw_intros]: "cw.keeps n P op_call_near (\<lambda>_. True)"
  unfolding op_call_near_def Let_def
  by (rule cw_intros cw.keeps_rules | (auto simp: wf_leaf)[1])+

lemma cw_op_ret_near [cw_intros]: "cw.keeps n P op_ret_near (\<lambda>_. True)"
  unfolding op_ret_near_def Let_def
  by (rule cw_intros cw.keeps_rules | (auto simp: wf_leaf)[1])+

lemma cw_op_loop [cw_intros]: "cw.keeps n P (op_loop op) (\<lambda>_. True)"
  unfolding op_loop_def Let_def
  by (rule cw_intros cw.keeps_rules | (auto simp: wf_leaf)[1])+

lemma cw_op_jmp_short [cw_intros]: "cw.keeps n P op_jmp_short (\<lambda>_. True)"
  unfolding op_jmp_short_def Let_def
  by (rule cw_intros cw.keeps_rules | (auto simp: wf_leaf)[1])+

lemma cw_op_xchg_rm [cw_intros]: "cw.keeps n P (op_xchg_rm op so) (\<lambda>_. True)"
  unfolding op_xchg_rm_def Let_def
  by (rule cw_intros cw.keeps_rules | (auto simp: wf_leaf)[1])+

lemma cw_op_mov_rm [cw_intros]: "cw.keeps n P (op_mov_rm op so) (\<lambda>_. True)"
  unfolding op_mov_rm_def Let_def
  by (rule cw_intros cw.keeps_rules | (auto simp: wf_leaf)[1])+

lemma cw_op_incdec_r16 [cw_intros]: "cw.keeps n P (op_incdec_r16 op) (\<lambda>_. True)"
  unfolding op_incdec_r16_def Let_def
  by (rule cw_intros cw.keeps_rules | (auto simp: wf_leaf)[1])+

lemma cw_op_mov_imm [cw_intros]: "cw.keeps n P (op_mov_imm op) (\<lambda>_. True)"
  unfolding op_mov_imm_def Let_def
  by (rule cw_intros cw.keeps_rules | (auto simp: wf_leaf)[1])+

lemma cw_op_push_r16 [cw_intros]: "cw.keeps n P (op_push_r16 op) (\<lambda>_. True)"
  unfolding op_push_r16_def Let_def
  by (rule cw_intros cw.keeps_rules | (auto simp: wf_leaf)[1])+

lemma cw_op_pop_r16 [cw_intros]: "cw.keeps n P (op_pop_r16 op) (\<lambda>_. True)"
  unfolding op_pop_r16_def Let_def
  by (rule cw_intros cw.keeps_rules | (auto simp: wf_leaf)[1])+

lemma cw_op_pusha [cw_intros]: "cw.keeps n P op_pusha (\<lambda>_. True)"
  unfolding op_pusha_def Let_def
  by (rule cw_intros cw.keeps_rules | (auto simp: wf_leaf)[1])+

lemma cw_op_popa [cw_intros]: "cw.keeps n P op_popa (\<lambda>_. True)"
  unfolding op_popa_def Let_def
  by (rule cw_intros cw.keeps_rules | (auto simp: wf_leaf)[1])+

lemma cw_op_push_sreg [cw_intros]: "cw.keeps n P (op_push_sreg op) (\<lambda>_. True)"
  unfolding op_push_sreg_def Let_def
  by (rule cw_intros cw.keeps_rules | (auto simp: wf_leaf)[1])+

lemma cw_op_pop_sreg [cw_intros]: "cw.keeps n P (op_pop_sreg op) (\<lambda>_. True)"
  unfolding op_pop_sreg_def Let_def
  by (rule cw_intros cw.keeps_rules | (auto simp: wf_leaf)[1])+

lemma cw_op_push_imm [cw_intros]: "cw.keeps n P (op_push_imm op) (\<lambda>_. True)"
  unfolding op_push_imm_def Let_def
  by (rule cw_intros cw.keeps_rules | (auto simp: wf_leaf)[1])+

lemma cw_op_imul_imm [cw_intros]: "cw.keeps n P (op_imul_imm op so) (\<lambda>_. True)"
  unfolding op_imul_imm_def Let_def
  by (rule cw_intros cw.keeps_rules | (auto simp: wf_leaf)[1])+

lemma cw_op_flags_misc [cw_intros]: "cw.keeps n P (op_flags_misc op) (\<lambda>_. True)"
  unfolding op_flags_misc_def Let_def
  by (rule cw_intros cw.keeps_rules | (auto simp: wf_leaf)[1])+

lemma cw_op_mov_sreg [cw_intros]: "cw.keeps n P (op_mov_sreg op so) (\<lambda>_. True)"
  unfolding op_mov_sreg_def Let_def
  by (rule cw_intros cw.keeps_rules | (auto simp: wf_leaf)[1])+

lemma cw_op_mov_moffs [cw_intros]: "cw.keeps n P (op_mov_moffs op so) (\<lambda>_. True)"
  unfolding op_mov_moffs_def Let_def
  by (rule cw_intros cw.keeps_rules | (auto simp: wf_leaf)[1])+

lemma cw_op_mov_rm_imm [cw_intros]: "cw.keeps n P (op_mov_rm_imm op so) (\<lambda>_. True)"
  unfolding op_mov_rm_imm_def Let_def
  by (rule cw_intros cw.keeps_rules | (auto simp: wf_leaf)[1])+

lemma cw_op_alu_acc [cw_intros]: "cw.keeps n P (op_alu_acc op) (\<lambda>_. True)"
  unfolding op_alu_acc_def Let_def
  by (rule cw_intros cw.keeps_rules | (auto simp: wf_leaf)[1])+

lemma cw_op_group1 [cw_intros]: "cw.keeps n P (op_group1 op so) (\<lambda>_. True)"
  unfolding op_group1_def Let_def
  by (rule cw_intros cw.keeps_rules | (auto simp: wf_leaf)[1])+

lemma cw_op_test_rm [cw_intros]: "cw.keeps n P (op_test_rm op so) (\<lambda>_. True)"
  unfolding op_test_rm_def Let_def
  by (rule cw_intros cw.keeps_rules | (auto simp: wf_leaf)[1])+

lemma cw_op_test_acc [cw_intros]: "cw.keeps n P (op_test_acc op) (\<lambda>_. True)"
  unfolding op_test_acc_def Let_def
  by (rule cw_intros cw.keeps_rules | (auto simp: wf_leaf)[1])+

lemma cw_op_lea [cw_intros]: "cw.keeps n P (op_lea so) (\<lambda>_. True)"
  unfolding op_lea_def Let_def
  by (rule cw_intros cw.keeps_rules | (auto simp: wf_leaf)[1])+

lemma cw_op_les_lds [cw_intros]: "cw.keeps n P (op_les_lds op so) (\<lambda>_. True)"
  unfolding op_les_lds_def Let_def
  by (rule cw_intros cw.keeps_rules | (auto simp: wf_leaf)[1])+

lemma cw_op_pop_rm [cw_intros]: "cw.keeps n P (op_pop_rm so) (\<lambda>_. True)"
  unfolding op_pop_rm_def Let_def
  by (rule cw_intros cw.keeps_rules | (auto simp: wf_leaf)[1])+

lemma cw_op_xchg_ax [cw_intros]: "cw.keeps n P (op_xchg_ax op) (\<lambda>_. True)"
  unfolding op_xchg_ax_def Let_def
  by (rule cw_intros cw.keeps_rules | (auto simp: wf_leaf)[1])+

lemma cw_op_far [cw_intros]: "cw.keeps n P (op_far op) (\<lambda>_. True)"
  unfolding op_far_def Let_def
  by (rule cw_intros cw.keeps_rules | (auto simp: wf_leaf)[1])+

lemma cw_op_ret_imm [cw_intros]: "cw.keeps n P (op_ret_imm op) (\<lambda>_. True)"
  unfolding op_ret_imm_def Let_def
  by (rule cw_intros cw.keeps_rules | (auto simp: wf_leaf)[1])+

lemma cw_enter_copy [cw_intros]: "cw.keeps n P enter_copy (\<lambda>_. True)"
  unfolding enter_copy_def Let_def
  by (rule cw_intros cw.keeps_rules | (auto simp: wf_leaf)[1])+

lemma cw_op_enter [cw_intros]: "cw.keeps n P op_enter (\<lambda>_. True)"
  unfolding op_enter_def Let_def
  by (rule cw_intros cw.keeps_rules | (auto simp: wf_leaf)[1])+

lemma cw_op_leave [cw_intros]: "cw.keeps n P op_leave (\<lambda>_. True)"
  unfolding op_leave_def Let_def
  by (rule cw_intros cw.keeps_rules | (auto simp: wf_leaf)[1])+

lemma cw_op_iret [cw_intros]: "cw.keeps n P op_iret (\<lambda>_. True)"
  unfolding op_iret_def Let_def
  by (rule cw_intros cw.keeps_rules | (auto simp: wf_leaf)[1])+

lemma cw_op_jcxz [cw_intros]: "cw.keeps n P op_jcxz (\<lambda>_. True)"
  unfolding op_jcxz_def Let_def
  by (rule cw_intros cw.keeps_rules | (auto simp: wf_leaf)[1])+

lemma cw_op_xlat [cw_intros]: "cw.keeps n P (op_xlat so) (\<lambda>_. True)"
  unfolding op_xlat_def Let_def
  by (rule cw_intros cw.keeps_rules | (auto simp: wf_leaf)[1])+

lemma cw_op_flag [cw_intros]: "cw.keeps n P (op_flag op) (\<lambda>_. True)"
  unfolding op_flag_def Let_def
  by (rule cw_intros cw.keeps_rules | (auto simp: wf_leaf)[1])+

lemma cw_py_divmod [cw_intros]: "cw.keeps n P (py_divmod a b) (\<lambda>_. True)"
  unfolding py_divmod_def Let_def
  by (rule cw_intros cw.keeps_rules | (auto simp: wf_leaf)[1])+

lemma cw_mul_unsigned [cw_intros]: "cw.keeps n P (mul_unsigned bits v) (\<lambda>_. True)"
  unfolding mul_unsigned_def Let_def
  by (rule cw_intros cw.keeps_rules | (auto simp: wf_leaf)[1])+

lemma cw_mul_signed [cw_intros]: "cw.keeps n P (mul_signed bits v) (\<lambda>_. True)"
  unfolding mul_signed_def Let_def
  by (rule cw_intros cw.keeps_rules | (auto simp: wf_leaf)[1])+

lemma cw_div_unsigned [cw_intros]: "cw.keeps n P (div_unsigned bits v) (\<lambda>_. True)"
  unfolding div_unsigned_def Let_def
  by (rule cw_intros cw.keeps_rules | (auto simp: wf_leaf)[1])+

lemma cw_div_signed [cw_intros]: "cw.keeps n P (div_signed bits v) (\<lambda>_. True)"
  unfolding div_signed_def Let_def
  by (rule cw_intros cw.keeps_rules | (auto simp: wf_leaf)[1])+

lemma cw_op_group3 [cw_intros]: "cw.keeps n P (op_group3 op so) (\<lambda>_. True)"
  unfolding op_group3_def Let_def
  by (rule cw_intros cw.keeps_rules | (auto simp: wf_leaf)[1])+

section \<open>The callbacks, the string instructions and the ladder\<close>

text \<open>What the callbacks owe: each keeps the invariant.\<close>

definition env_ok :: "int \<Rightarrow> (int \<Rightarrow> bool) \<Rightarrow> 'w env \<Rightarrow> bool" where
  "env_ok n P E \<longleftrightarrow>
     (\<forall>h k. interrupt_handler E = Some h \<longrightarrow> cw.keeps n P (h k) (\<lambda>_. True))
   \<and> (\<forall>h p b. port_reader E = Some h \<longrightarrow> cw.keeps n P (h p b) (\<lambda>_. True))
   \<and> (\<forall>h p v b. port_writer E = Some h \<longrightarrow> cw.keeps n P (h p v b) (\<lambda>_. True))
   \<and> (\<forall>key hk. replacement_hooks E key = Some hk \<longrightarrow> cw.keeps n P (handler hk) (\<lambda>_. True))
   \<and> (\<forall>v key hk nm. hook_verifier E = Some v \<longrightarrow> cw.keeps n P (v key hk nm) (\<lambda>_. True))
   \<and> (\<forall>poll. pending_irq E = Some poll \<longrightarrow> cw.keeps n P poll (\<lambda>_. True))"

lemma env_okD:
  assumes "env_ok n P E"
  shows "interrupt_handler E = Some h \<Longrightarrow> cw.keeps n P (h k) (\<lambda>_. True)"
    and "replacement_hooks E key = Some hk \<Longrightarrow> cw.keeps n P (handler hk) (\<lambda>_. True)"
    and "hook_verifier E = Some v \<Longrightarrow> cw.keeps n P (v key hk nm) (\<lambda>_. True)"
    and "pending_irq E = Some poll \<Longrightarrow> cw.keeps n P poll (\<lambda>_. True)"
  using assms unfolding env_ok_def by blast+

lemma env_ok_new: "env_ok n P (env_new fo)"
  by (simp add: env_ok_def env_new_def)

lemma cw_read_port: "env_ok n P E \<Longrightarrow> cw.keeps n P (read_port E p bits) (\<lambda>_. True)"
  unfolding read_port_def
  by (cases "port_reader E") (simp_all add: env_ok_def cw.keeps_ret)

lemma cw_write_port: "env_ok n P E \<Longrightarrow> cw.keeps n P (write_port E p v bits) (\<lambda>_. True)"
  unfolding write_port_def
  by (cases "port_writer E") (simp_all add: env_ok_def cw.keeps_ret)

lemma cw_width [cw_intros]:
  "cw.keeps n P (read_width w sg off) u16" "cw.keeps n P (write_width w sg off v) (\<lambda>_. True)"
  unfolding read_width_def write_width_def cw_on_mem_if
  by (rule u8_or_u16 cw.keeps_if cw_rb cw_rw cw_wb cw_ww)+

lemma cw_adv [cw_intros]:
  "cw.keeps n P (adv_si d) (\<lambda>_. True)" "cw.keeps n P (adv_di d) (\<lambda>_. True)"
  "cw.keeps n P dec_cx (\<lambda>_. True)"
  unfolding adv_si_def adv_di_def dec_cx_def by (rule cw_upd_regs, simp add: wf_regs_def)+

lemma cw_string_element:
  assumes "env_ok n P E"
  shows "cw.keeps n P (string_element E op so delta) (\<lambda>_. True)"
  unfolding string_element_def Let_def
  by (rule cw_intros cw.keeps_rules cw_read_port [OF assms] cw_write_port [OF assms]
      | (auto simp: wf_leaf)[1])+

lemma cw_string_loop:
  "env_ok n P E \<Longrightarrow> cw.keeps n P (string_loop k E op rep so delta) (\<lambda>_. True)"
proof (induction k)
  case 0
  show ?case unfolding string_loop.simps by (rule cw.keeps_ret) simp
next
  case (Suc k)
  then show ?case
    by (auto intro!: cw.keeps_thenM' [OF cw_string_element] cw.keeps_ret cw.keeps_thenM' [OF cw_adv(3)]
        cw.keeps_bindM [OF cw_get_flag])
qed

lemma cw_string_bulk [cw_intros]: "cw.keeps n P (string_bulk op rep so count delta) (\<lambda>_. True)"
  unfolding string_bulk_def Let_def
  by (rule cw_intros cw.keeps_rules | (auto simp: wf_leaf)[1])+

lemma cw_string_op: "env_ok n P E \<Longrightarrow> cw.keeps n P (string_op E op rep so) (\<lambda>_. True)"
  unfolding string_op_def Let_def
  by (rule cw_intros cw.keeps_rules cw_string_loop | assumption)+

lemma cw_op_in: "env_ok n P E \<Longrightarrow> cw.keeps n P (op_in E op) (\<lambda>_. True)"
  unfolding op_in_def Let_def
  by (rule cw_intros cw.keeps_rules cw_read_port | (auto simp: wf_leaf)[1])+

lemma cw_op_out: "env_ok n P E \<Longrightarrow> cw.keeps n P (op_out E op) (\<lambda>_. True)"
  unfolding op_out_def Let_def
  by (rule cw_intros cw.keeps_rules cw_write_port | (auto simp: wf_leaf)[1])+

lemma cw_op_int: "env_ok n P E \<Longrightarrow> cw.keeps n P (op_int E op) (\<lambda>_. True)"
  unfolding op_int_def
  by (auto simp: env_ok_def split: option.split
      intro!: cw.keeps_bindM [OF cw_fetch8] cw.keeps_raise cw.keeps_ret)

lemma cw_execute_opcode: "env_ok n P E \<Longrightarrow> cw.keeps n P (execute_opcode E op so rep) (\<lambda>_. True)"
  unfolding execute_opcode_def
  by (intro cw.keeps_if cw_string_op cw_op_in cw_op_out cw_op_int cw_intros)
     (simp_all add: cw.keeps_raise)

section \<open>Steps\<close>

lemma cw_deliver_irq:
  assumes "env_ok n P E"
  shows "cw.keeps n P (deliver_irq E) (\<lambda>_. True)"
  unfolding deliver_irq_def
  by (rule cw_intros cw.keeps_rules env_okD(4) [OF assms] | assumption | simp)+

lemma wf_record_event [simp]: "wf n P (record_event ev c) = wf n P c"
  by (simp add: wf_def record_event_def)

lemma cw_count: "cw.keeps n (\<lambda>_. True) count_instruction (\<lambda>_. True)"
  unfolding count_instruction_def by (rule cw.keeps_putM) (simp add: wf_def)

lemma cw_run_hook:
  assumes "env_ok n (\<lambda>_. True) E" "replacement_hooks E key = Some hk"
  shows "cw.keeps n (\<lambda>_. True) (run_hook E key hk) (\<lambda>_. True)"
proof -
  have "cw.keeps n (\<lambda>_. True) (handler hk) (\<lambda>_. True)"
    "\<And>v nm. hook_verifier E = Some v \<Longrightarrow> cw.keeps n (\<lambda>_. True) (v key hk nm) (\<lambda>_. True)"
    by (rule env_okD(2) [OF assms], rule env_okD(3) [OF assms(1)])
  then show ?thesis
    unfolding run_hook_def Let_def
    by (auto split: option.split bool.split intro!: cw.keeps_thenM cw.keeps_finallyM cw.keeps_ret cw_count)
qed

lemma cw_check_frontier: "cw.keeps n P (check_frontier key) (\<lambda>_. True)"
  unfolding check_frontier_def
  by (rule cw.keeps_bindM [OF cw_state])
     (auto split: option.split intro!: cw.keeps_raise cw.keeps_ret cw.keeps_putM simp: wf_def)

lemma cw_finish: "env_ok n (\<lambda>_. True) E \<Longrightarrow> cw.keeps n (\<lambda>_. True) (finish_instruction E key op so rep) (\<lambda>_. True)"
  unfolding finish_instruction_def
  by (intro cw.keeps_thenM cw_execute_opcode cw_count cw.keeps_putM) simp_all

text \<open>An outcome keeps the invariant if every state it ends in has it.\<close>

lemma prefix_loop_wf:
  assumes "prefix_loop p c = Some y"
  shows "wf n P c \<longrightarrow> wf n P (snd y)"
proof (rule prefix_loop.raw_induct [OF _ assms])
  fix f p c y
  assume 1: "\<And>p c y. f p c = Some y \<Longrightarrow> wf n P c \<longrightarrow> wf n P (snd y)"
    "(case fetch8 c of (Inl e, c') \<Rightarrow> Some (Inl e, c')
      | (Inr op, c') \<Rightarrow> if is_prefix op then f (note_prefix op p) c' else Some (Inr (op, p), c')) = Some y"
  obtain r c1 where F: "fetch8 c = (r, c1)" by (cases "fetch8 c")
  have "wf n P c \<Longrightarrow> wf n P c1"
    using cw.keepsD [OF cw_fetch8, of n P c] F by simp
  then show "wf n P c \<longrightarrow> wf n P (snd y)"
    using 1 F by (auto split: sum.splits if_splits)
qed

lemma bind_outcome_wf:
  assumes "bind_outcome x k = Some y" "\<And>r c. x = Some (r, c) \<Longrightarrow> wf n P c"
    and "\<And>v c. wf n P c \<Longrightarrow> k v c = Some y \<Longrightarrow> wf n P (snd y)"
  shows "wf n P (snd y)"
  using assms by (auto simp: bind_outcome_def split: option.splits prod.splits sum.splits)

lemma interpret_one_wf:
  fixes c :: "'w cpu"
  assumes "env_ok n (\<lambda>_. True) E" "wf n (\<lambda>_. True) c" "interpret_one E key c = Some y"
  shows "wf n (\<lambda>_. True) (snd y)"
  using assms(3) unfolding interpret_one_def
proof (rule bind_outcome_wf)
  fix r d assume "Some (check_frontier key c) = Some (r, d)"
  then show "wf n (\<lambda>_. True) d" using cw.keepsD [OF cw_check_frontier assms(2)] by (metis option.inject snd_conv)
next
  fix v and d :: "'w cpu" assume d: "wf n (\<lambda>_. True) d"
  assume "bind_outcome (prefix_loop (None, None) d)
     (\<lambda>(op, so, rep) c. Some (finish_instruction E key op so rep c)) = Some y"
  then show "wf n (\<lambda>_. True) (snd y)"
  proof (rule bind_outcome_wf)
    fix r e assume "prefix_loop (None, None) d = Some (r, e)"
    then show "wf n (\<lambda>_. True) e" using prefix_loop_wf d by fastforce
  next
    fix v and e :: "'w cpu" assume "wf n (\<lambda>_. True) e" and "(case v of (op, so, rep) \<Rightarrow> \<lambda>c. Some (finish_instruction E key op so rep c)) e = Some y"
    then show "wf n (\<lambda>_. True) (snd y)"
      using cw.keepsD [OF cw_finish [OF assms(1), of key]] by (auto split: prod.splits)
  qed
qed

lemma step_wf:
  fixes c :: "'w cpu"
  assumes "env_ok n (\<lambda>_. True) E" "wf n (\<lambda>_. True) c" "step E c = Some y"
  shows "wf n (\<lambda>_. True) (snd y)"
proof (cases "halted c")
  case True
  then show ?thesis using assms by (auto simp: step_def)
next
  case False
  then have "bind_outcome (Some (deliver_irq E c)) (\<lambda>entered c.
        if entered then Some (Inr (), c)
        else (let key = (cs (regs c) AND 0xFFFF, ip (regs c) AND 0xFFFF) in
          case replacement_hooks E key of
            Some hk \<Rightarrow> Some (run_hook E key hk c)
          | None \<Rightarrow> interpret_one E key c)) = Some y"
    using assms(3) by (simp add: step_def)
  then show ?thesis
  proof (rule bind_outcome_wf)
    fix r d assume "Some (deliver_irq E c) = Some (r, d)"
    then show "wf n (\<lambda>_. True) d" using cw.keepsD [OF cw_deliver_irq [OF assms(1)] assms(2)]
      by (metis option.inject snd_conv)
  next
    fix v and d :: "'w cpu" assume "wf n (\<lambda>_. True) d" and "(if v then Some (Inr (), d)
        else (let key = (cs (regs d) AND 0xFFFF, ip (regs d) AND 0xFFFF) in
          case replacement_hooks E key of
            Some hk \<Rightarrow> Some (run_hook E key hk d)
          | None \<Rightarrow> interpret_one E key d)) = Some y"
    then show "wf n (\<lambda>_. True) (snd y)"
      using cw.keepsD [OF cw_run_hook [OF assms(1)]] interpret_one_wf [OF assms(1)]
      by (auto simp: Let_def split: if_splits option.splits)
  qed
qed

end
