(* ===== verification/CPU_Run.thy ===== *)
theory CPU_Run
  imports CPU_Wf
begin

text \<open>
  What \<open>step\<close> and \<open>run\<close> of \<open>dos_re/cpu.py\<close> promise: the type invariant over a step, the instruction
  count over a run, when the prefix loop returns and what it returns.
\<close>

section \<open>A concrete machine\<close>

text \<open>A machine whose memory is all NOP; the witnesses of this theory run on it.\<close>

definition filled_memory :: "8 word \<Rightarrow> memory" where
  "filled_memory b = (memory_new MEM_SIZE None)\<lparr>mdata := (\<lambda>_. b)\<rparr>"

definition filled_cpu :: "8 word \<Rightarrow> unit cpu" where
  "filled_cpu b = CPU8086 (filled_memory b) ()"

text \<open>The bytes \<open>bs\<close> at 0000:0000, IP 0.\<close>

definition program_cpu :: "bytes \<Rightarrow> unit cpu" where
  "program_cpu bs = CPU8086 ((memory_new MEM_SIZE None)
     \<lparr>mdata := (\<lambda>i. if 0 \<le> i \<and> i < int (length bs) then bs ! nat i else 0)\<rparr>) ()"

lemma filled_wf: "P 0 \<Longrightarrow> wf 0x140000 P (filled_cpu b)"
  by (simp add: filled_cpu_def filled_memory_def wf_def CPU8086_def wf_regs_init mem_wf_new
      mem_consts)

section \<open>Plain code\<close>

text \<open>Code in real mode outside the planar aperture: \<open>code_at c k\<close> is the \<open>k\<close>-th byte from CS:IP.\<close>

definition plain_code :: "'w cpu \<Rightarrow> bool" where
  "plain_code c \<longleftrightarrow> real_mode (mem c) \<and> \<not> ega_planar (mem c)"

definition code_at :: "'w cpu \<Rightarrow> nat \<Rightarrow> int" where
  "code_at c k = uint (mdata (mem c) (linear (cs (regs c)) (ip (regs c) + int k)))"

definition skip_ip :: "nat \<Rightarrow> 'w cpu \<Rightarrow> 'w cpu" where
  "skip_ip k c = c\<lparr>regs := (regs c)\<lparr>ip := (ip (regs c) + int k) AND 0xFFFF\<rparr>\<rparr>"

lemma fetch8_plain:
  assumes "plain_code c"
  shows "fetch8 c = (Inr (code_at c 0), skip_ip 1 c)"
proof -
  have A: "(push_bit 4 (cs (regs c) AND 0xFFFF) + (ip (regs c) AND 0xFFFF)) AND 0xFFFFF
      = linear (cs (regs c)) (ip (regs c))"
    by (simp only: linear_def)
  have B: "byte_at (linear (cs (regs c)) (ip (regs c))) (mem c) = (Inr (code_at c 0), mem c)"
    using assms linear_range [of "cs (regs c)" "ip (regs c)"] real_modeD [of "mem c"]
    by (simp add: byte_at_ok plain_code_def code_at_def)
  have C: "code_byte c = (Inr (code_at c 0), c)"
    using assms B by (simp add: code_byte_def plain_code_def real_mode_def Let_def A [simplified] on_mem_def)
  have D: "((ip (regs c) AND 0xFFFF) + 1) AND 0xFFFF = (ip (regs c) + 1) AND (0xFFFF::int)"
    by (simp add: mask_simps mod_add_left_eq)
  show ?thesis
    by (simp add: fetch8_def get_regs_def C D set_ip_def upd_regs_def skip_ip_def)
qed

lemma skip_ip_simps [simp]:
  "mem (skip_ip k c) = mem c" "plain_code (skip_ip k c) = plain_code c"
  "code_at (skip_ip k c) j = code_at c (k + j)"
  by (simp_all add: skip_ip_def plain_code_def code_at_def linear_eq mask_simps mod_simps
      add.assoc)

lemma skip_skip: "skip_ip j (skip_ip k c) = skip_ip (k + j) c"
  by (simp add: skip_ip_def mask_simps mod_simps add.assoc)

section \<open>The prefix loop\<close>

text \<open>The bytes before the opcode, from the first on: each is noted, the last one wins.\<close>

lemma prefix_loop_takes:
  assumes "plain_code c" "\<And>j. j \<le> k \<Longrightarrow> is_prefix (code_at c j)"
  shows "prefix_loop p c
    = prefix_loop (fold note_prefix (map (code_at c) [0..<Suc k]) p) (skip_ip (Suc k) c)"
  using assms(2)
proof (induction k)
  case 0
  then show ?case using prefix_loop_skip [OF fetch8_plain [OF assms(1)]] by simp
next
  case (Suc k)
  have "fetch8 (skip_ip (Suc k) c) = (Inr (code_at c (Suc k)), skip_ip (Suc (Suc k)) c)"
    using fetch8_plain [of "skip_ip (Suc k) c"] assms(1) by (simp add: skip_skip)
  then show ?case
    using Suc prefix_loop_skip [of "skip_ip (Suc k) c"] by simp
qed

lemma prefix_loop_result:
  assumes "plain_code c" "\<And>j. j < k \<Longrightarrow> is_prefix (code_at c j)" "\<not> is_prefix (code_at c k)"
  shows "prefix_loop p c
    = Some (Inr (code_at c k, fold note_prefix (map (code_at c) [0..<k]) p), skip_ip (Suc k) c)"
proof (cases k)
  case 0
  then show ?thesis using prefix_loop_stop [OF fetch8_plain [OF assms(1)]] assms(3) by simp
next
  case (Suc j)
  have "fetch8 (skip_ip k c) = (Inr (code_at c k), skip_ip (Suc k) c)"
    using fetch8_plain [of "skip_ip k c"] assms(1) by (simp add: skip_skip)
  then show ?thesis
    using prefix_loop_takes [OF assms(1), of j p] assms(2,3) Suc prefix_loop_stop by simp
qed

lemma prefix_loop_only_if:
  assumes "prefix_loop p c = Some y"
  shows "plain_code c \<longrightarrow> (\<exists>k. \<not> is_prefix (code_at c k))"
proof (rule prefix_loop.raw_induct [OF _ assms])
  fix f p c y
  assume IH: "\<And>p c y. f p c = Some y \<Longrightarrow> plain_code c \<longrightarrow> (\<exists>k. \<not> is_prefix (code_at c k))"
    and body: "(case fetch8 c of (Inl e, c') \<Rightarrow> Some (Inl e, c')
      | (Inr op, c') \<Rightarrow> if is_prefix op then f (note_prefix op p) c' else Some (Inr (op, p), c')) = Some y"
  show "plain_code c \<longrightarrow> (\<exists>k. \<not> is_prefix (code_at c k))"
  proof
    assume P: "plain_code c"
    show "\<exists>k. \<not> is_prefix (code_at c k)"
    proof (cases "is_prefix (code_at c 0)")
      case True
      then have "f (note_prefix (code_at c 0) p) (skip_ip 1 c) = Some y"
        using body fetch8_plain [OF P] by simp
      from IH [OF this] P show ?thesis by auto
    next
      case False
      then show ?thesis by blast
    qed
  qed
qed

text \<open>
  C32: the unbounded prefix loop of \<open>step\<close> returns on code in plain memory exactly when some byte
  ahead in the (wrapping) code segment is no prefix.
\<close>

theorem prefix_loop_returns_iff:
  assumes "plain_code c"
  shows "(\<exists>y. prefix_loop p c = Some y) = (\<exists>k. \<not> is_prefix (code_at c k))"
proof
  assume "\<exists>k. \<not> is_prefix (code_at c k)"
  then obtain k where "\<not> is_prefix (code_at c k)" "\<And>j. j < k \<Longrightarrow> is_prefix (code_at c j)"
    by (meson exists_least_iff)
  then show "\<exists>y. prefix_loop p c = Some y"
    using prefix_loop_result [OF assms] by blast
qed (use prefix_loop_only_if assms in blast)

lemma filled_plain: "plain_code (filled_cpu b)"
  by (simp add: plain_code_def filled_cpu_def CPU8086_def filled_memory_def real_mode_new)
     (simp add: memory_new_def)

theorem prefix_loop_returns_iff_witness:
  "prefix_loop (None, None) (filled_cpu 0xF3) = None"
proof -
  have "is_prefix (code_at (filled_cpu 0xF3) k)" for k
    by (simp add: code_at_def filled_cpu_def CPU8086_def filled_memory_def is_prefix_def
        is_rep_prefix_def)
  then show ?thesis
    using prefix_loop_returns_iff [OF filled_plain, of "(None, None)" "0xF3"]
    by (metis not_Some_eq)
qed

lemma fold_note_prefix:
  "fold note_prefix bs (None, None)
    = ((case filter is_seg_prefix (rev bs) of [] \<Rightarrow> None | b # _ \<Rightarrow> Some (seg_override_of b)),
       (case filter is_rep_prefix (rev bs) of [] \<Rightarrow> None | b # _ \<Rightarrow> Some b))"
  by (induction bs rule: rev_induct) (auto simp: note_prefix_def is_seg_prefix_def is_rep_prefix_def)

text \<open>
  before the opcode the loop keeps the last segment override and the last repeat prefix, in
  any mixture, and skips operand-size prefixes; IP ends behind the opcode.
\<close>

theorem prefix_loop_last_wins:
  assumes "plain_code c" "\<And>j. j < k \<Longrightarrow> is_prefix (code_at c j)" "\<not> is_prefix (code_at c k)"
  shows "prefix_loop (None, None) c = Some (Inr (code_at c k,
     (case filter is_seg_prefix (rev (map (code_at c) [0..<k])) of
        [] \<Rightarrow> None | b # _ \<Rightarrow> Some (seg_override_of b)),
     (case filter is_rep_prefix (rev (map (code_at c) [0..<k])) of [] \<Rightarrow> None | b # _ \<Rightarrow> Some b)),
     skip_ip (Suc k) c)"
  using prefix_loop_result [OF assms] by (simp add: fold_note_prefix)

lemma program_plain: "plain_code (program_cpu bs)"
  by (simp add: plain_code_def program_cpu_def CPU8086_def real_mode_new) (simp add: memory_new_def)

lemma program_code_at:
  "k < length bs \<Longrightarrow> length bs \<le> 65536 \<Longrightarrow> code_at (program_cpu bs) k = uint (bs ! k)"
  by (simp add: code_at_def program_cpu_def CPU8086_def CPUState_init_def linear_eq)

theorem prefix_loop_last_wins_witness:
  "prefix_loop (None, None) (program_cpu [0xF2, 0x26, 0xF3, 0x2E, 0x90])
    = Some (Inr (0x90, Some CS, Some 0xF3), skip_ip 5 (program_cpu [0xF2, 0x26, 0xF3, 0x2E, 0x90]))"
proof -
  let ?bs = "[0xF2, 0x26, 0xF3, 0x2E, 0x90] :: bytes"
  have C: "map (code_at (program_cpu ?bs)) [0..<4] = [0xF2, 0x26, 0xF3, 0x2E]"
    "code_at (program_cpu ?bs) 4 = 0x90"
    by (simp_all add: program_code_at upt_rec)
  have "is_prefix (code_at (program_cpu ?bs) j)" if "j < 4" for j
  proof -
    have "j = 0 \<or> j = 1 \<or> j = 2 \<or> j = 3" using that by linarith
    then show ?thesis
      by (elim disjE) (simp_all add: program_code_at is_prefix_def is_seg_prefix_def
          is_rep_prefix_def)
  qed
  from prefix_loop_last_wins [OF program_plain this, of 4] C show ?thesis
    by (simp add: is_prefix_def is_seg_prefix_def is_rep_prefix_def seg_override_of_def)
qed

section \<open>The invariant over a step\<close>

text \<open>
  C2: a step leaves every register in its 16 bits, the x87 stack at most eight deep and the
  memory at its size, whether it returns or raises, if the callbacks do.
\<close>

theorem step_keeps_widths:
  assumes "env_ok n (\<lambda>_. True) E" "wf n (\<lambda>_. True) c" "step E c = Some (r, c')"
  shows "wf n (\<lambda>_. True) c'"
  using step_wf [OF assms] by simp

section \<open>Runs\<close>

text \<open>A machine without hooks and IRQ source whose callbacks leave the count alone.\<close>

definition counting_env :: "int \<Rightarrow> 'w env \<Rightarrow> bool" where
  "counting_env n E \<longleftrightarrow> replacement_hooks E = (\<lambda>_. None) \<and> pending_irq E = None
     \<and> (\<forall>k. env_ok n (\<lambda>i. i = k) E)"

lemma interpret_one_count:
  fixes c :: "'w cpu"
  assumes "counting_env n E" "wf n (\<lambda>i. i = k) c" "interpret_one E key c = Some (Inr u, c')"
  shows "wf n (\<lambda>i. i = k + 1) c'"
proof -
  have F: "wf n (\<lambda>i. i = k) (snd (check_frontier key c))"
    using cw.keepsD [OF cw_check_frontier assms(2)] .
  obtain c1 where c1: "check_frontier key c = (Inr (), c1)" "wf n (\<lambda>i. i = k) c1"
    using assms(3) F unfolding interpret_one_def
    by (cases "check_frontier key c"; cases "fst (check_frontier key c)") auto
  obtain op so rep c2 where c2: "prefix_loop (None, None) c1 = Some (Inr (op, so, rep), c2)"
    and fin: "finish_instruction E key op so rep c2 = (Inr u, c')"
    using assms(3) unfolding interpret_one_def
    by (auto simp: c1 bind_outcome_def split: option.splits prod.splits sum.splits)
  have "wf n (\<lambda>i. i = k) c2" using prefix_loop_wf [OF c2] c1(2) by auto
  then have "wf n (\<lambda>i. i = k) (snd (execute_opcode E op so rep c2))"
    using cw.keepsD [OF cw_execute_opcode [of n "\<lambda>i. i = k" E op so rep]] assms(1)
    by (simp add: counting_env_def)
  then show ?thesis
    using fin unfolding finish_instruction_def
    by (cases "execute_opcode E op so rep c2"; cases "fst (execute_opcode E op so rep c2)")
       (auto simp: count_instruction_def record_event_def wf_def)
qed

lemma step_count:
  fixes c :: "'w cpu"
  assumes "counting_env n E" "wf n (\<lambda>i. i = k) c" "step E c = Some (Inr u, c')"
  shows "wf n (\<lambda>i. i = k + 1) c' \<and> \<not> halted c"
  using assms(3) interpret_one_count [OF assms(1,2)] assms(1)
  by (auto simp: step_def counting_env_def deliver_irq_def Let_def split: if_splits)

lemma run_from_count:
  fixes c :: "'w cpu"
  assumes "counting_env n E" "wf n (\<lambda>i. i = k) c" "run_from todo steps E c = Some (Inr m, c')"
  shows "steps \<le> m \<and> m \<le> steps + todo \<and> wf n (\<lambda>i. i = k + int (m - steps)) c'
    \<and> (m < steps + todo \<longrightarrow> halted c')"
  using assms(2,3)
proof (induction todo arbitrary: steps k c)
  case 0
  then show ?case by simp
next
  case (Suc todo)
  show ?case
  proof (cases "halted c")
    case True
    then show ?thesis using Suc.prems by simp
  next
    case False
    then obtain u c1 where s: "step E c = Some (Inr u, c1)"
      and r: "run_from todo (Suc steps) E c1 = Some (Inr m, c')"
      using Suc.prems(2) by (auto simp: bind_outcome_def split: option.splits prod.splits sum.splits)
    have "wf n (\<lambda>i. i = k + 1) c1" using step_count [OF assms(1) Suc.prems(1) s] by simp
    from Suc.IH [OF this r] show ?thesis
      by (auto simp: algebra_simps Suc_diff_Suc)
  qed
qed

text \<open>
  \<open>run\<close> counts one instruction per step, reports the number of steps, never exceeds
  \<open>max_steps\<close>, and stops earlier only on a halted machine.
\<close>

theorem run_counts_steps:
  assumes "counting_env n E" "wf n (\<lambda>_. True) c" "run E max_steps c = Some (Inr m, c')"
  shows "m \<le> max_steps \<and> instruction_count c' = instruction_count c + int m
    \<and> (m < max_steps \<longrightarrow> halted c')"
proof -
  have "wf n (\<lambda>i. i = instruction_count c) c" using assms(2) by (simp add: wf_def)
  from run_from_count [OF assms(1) this assms(3) [unfolded run_def]] show ?thesis
    by (simp add: wf_def)
qed

section \<open>A run of two instructions\<close>

lemma bare_step:
  assumes "plain_code c" "\<not> halted c" "\<not> interp_forbidden c" "\<not> is_prefix (code_at c 0)"
  shows "step (env_new fo) c
    = Some (finish_instruction (env_new fo) (cs (regs c) AND 0xFFFF, ip (regs c) AND 0xFFFF)
              (code_at c 0) None None (skip_ip 1 c))"
  using assms prefix_loop_result [of c 0 "(None, None)"]
  by (simp add: step_def env_new_def deliver_irq_def interpret_one_def check_frontier_def Let_def)

definition nop_hlt :: "unit cpu" where
  "nop_hlt = program_cpu [0x90, 0xF4]"

lemma nop_hlt_fields:
  "plain_code nop_hlt" "code_at nop_hlt 0 = 0x90" "code_at nop_hlt 1 = 0xF4" "\<not> halted nop_hlt"
  "\<not> interp_forbidden nop_hlt" "instruction_count nop_hlt = 0" "wf 0x140000 (\<lambda>_. True) nop_hlt"
  by (simp_all add: nop_hlt_def program_plain program_code_at)
     (simp_all add: program_cpu_def CPU8086_def wf_def wf_regs_init mem_wf_new mem_consts)

lemma nop_hlt_steps:
  "\<exists>c1. step (env_new no_floats) nop_hlt = Some (Inr (), c1) \<and> \<not> halted c1
    \<and> (\<exists>c2. step (env_new no_floats) c1 = Some (Inr (), c2) \<and> halted c2)"
proof -
  let ?E = "env_new no_floats :: unit env"
  define c1 where "c1 = snd (finish_instruction ?E (cs (regs nop_hlt) AND 0xFFFF,
    ip (regs nop_hlt) AND 0xFFFF) 0x90 None None (skip_ip 1 nop_hlt))"
  have s1: "step ?E nop_hlt = Some (Inr (), c1)"
    using bare_step [of nop_hlt no_floats] nop_hlt_fields
    by (simp add: c1_def is_prefix_def is_seg_prefix_def is_rep_prefix_def finish_instruction_def
        execute_opcode_def op_xchg_ax_def count_instruction_def)
  have f1: "plain_code c1" "code_at c1 0 = 0xF4" "\<not> halted c1" "\<not> interp_forbidden c1"
    using nop_hlt_fields
    by (simp_all add: c1_def finish_instruction_def execute_opcode_def op_xchg_ax_def
        count_instruction_def record_event_def skip_ip_def plain_code_def code_at_def)
  have "\<exists>c2. step ?E c1 = Some (Inr (), c2) \<and> halted c2"
    using bare_step [OF f1(1,3,4)] f1(2)
    by (simp add: is_prefix_def is_seg_prefix_def is_rep_prefix_def finish_instruction_def
        execute_opcode_def op_flag_def count_instruction_def record_event_def)
  then show ?thesis using s1 f1(3) by blast
qed

theorem step_keeps_widths_witness:
  "\<exists>c'. step (env_new no_floats) nop_hlt = Some (Inr (), c') \<and> wf 0x140000 (\<lambda>_. True) c'"
  using nop_hlt_steps step_keeps_widths [OF env_ok_new nop_hlt_fields(7)] by blast

theorem run_counts_steps_witness:
  "\<exists>c'. run (env_new no_floats) 5 nop_hlt = Some (Inr 2, c') \<and> instruction_count c' = 2"
proof -
  obtain c1 c2 where s: "step (env_new no_floats) nop_hlt = Some (Inr (), c1)" "\<not> halted c1"
    "step (env_new no_floats) c1 = Some (Inr (), c2)" "halted c2"
    using nop_hlt_steps by blast
  have r: "run (env_new no_floats) 5 nop_hlt = Some (Inr 2, c2)"
    using s nop_hlt_fields(4) by (simp add: run_def numeral_eq_Suc)
  have e: "counting_env 0x140000 (env_new no_floats :: unit env)"
    using env_ok_new by (auto simp: counting_env_def env_new_def)
  from run_counts_steps [OF e nop_hlt_fields(7) r] show ?thesis
    using r nop_hlt_fields(6) by simp
qed

end
