(* ===== verification/CPU_Stack.thy ===== *)
theory CPU_Stack
  imports CPU_Run
begin

text \<open>
  The stack of \<open>dos_re/cpu.py\<close> as an abstract stack of words: \<open>push\<close> and \<open>pop\<close> on SS:SP implement
  \<open>Cons\<close> and \<open>hd\<close>/\<open>tl\<close> on a list, inside an area of plain RAM, and touch nothing outside it.  The
  contract is the locale \<open>word_stack\<close>, interpreted on the CPU's own operations; the round trips of
  PUSHA/POPA, ENTER/LEAVE, CALL/RET and interrupt entry/IRET rest on it.
\<close>

section \<open>The contract\<close>

locale word_stack =
  fixes push :: "'v \<Rightarrow> ('s, unit) meth"
    and pop :: "('s, 'v) meth"
    and stk :: "'s \<Rightarrow> nat \<Rightarrow> 'v list \<Rightarrow> bool"
    and ok :: "'v \<Rightarrow> bool"
    and frame :: "'s \<Rightarrow> 's \<Rightarrow> bool"
  assumes push_law: "stk s (Suc n) xs \<Longrightarrow> ok v \<Longrightarrow>
      \<exists>s'. push v s = (Inr (), s') \<and> stk s' n (v # xs) \<and> frame s s'"
    and pop_law: "stk s n (x # xs) \<Longrightarrow>
      \<exists>s'. pop s = (Inr x, s') \<and> stk s' (Suc n) xs \<and> frame s s'"
    and frame_refl: "frame s s"
    and frame_trans: "frame s s' \<Longrightarrow> frame s' s'' \<Longrightarrow> frame s s''"
begin

lemma push_all:
  assumes "stk s (length vs + n) xs" "\<And>v. v \<in> set vs \<Longrightarrow> ok v"
  shows "\<exists>s'. seqM (map push vs) s = (Inr (), s') \<and> stk s' n (rev vs @ xs) \<and> frame s s'"
  using assms
proof (induction vs arbitrary: s xs)
  case Nil
  then show ?case by (auto intro: frame_refl)
next
  case (Cons v vs)
  obtain s1 where 1: "push v s = (Inr (), s1)" "stk s1 (length vs + n) (v # xs)" "frame s s1"
    using push_law [of s "length vs + n" xs v] Cons.prems by auto
  obtain s2 where "seqM (map push vs) s1 = (Inr (), s2)" "stk s2 n (rev vs @ v # xs)" "frame s1 s2"
    using Cons.IH [OF 1(2)] Cons.prems(2) by auto
  then show ?case using 1 frame_trans by auto
qed

lemma push_pop:
  assumes "stk s (Suc n) xs" "ok v"
  shows "\<exists>s'. thenM (push v) pop s = (Inr v, s') \<and> stk s' (Suc n) xs \<and> frame s s'"
proof -
  obtain s1 where 1: "push v s = (Inr (), s1)" "stk s1 n (v # xs)" "frame s s1"
    using push_law assms by blast
  then show ?thesis using pop_law [OF 1(2)] frame_trans by auto
qed

end

section \<open>The CPU's stack\<close>

definition stack_top :: "'w cpu \<Rightarrow> int" where
  "stack_top c = ss (regs c) * 16 + sp (regs c)"

definition stack_word :: "'w cpu \<Rightarrow> nat \<Rightarrow> int" where
  "stack_word c i = uint (mdata (mem c) (stack_top c + 2 * int i))
     + 256 * uint (mdata (mem c) (stack_top c + 2 * int i + 1))"

text \<open>The stack based at \<open>hi\<close> holds the words \<open>xs\<close>, the top first, and \<open>n\<close> more fit above \<open>lo\<close>; the
  area \<open>lo..<hi\<close> is plain RAM.\<close>

definition stk :: "int \<Rightarrow> int \<Rightarrow> 'w cpu \<Rightarrow> nat \<Rightarrow> int list \<Rightarrow> bool" where
  "stk lo hi c n xs \<longleftrightarrow>
     real_mode (mem c) \<and> (\<forall>a. lo \<le> a \<and> a < hi \<longrightarrow> ram_byte (mem c) a)
     \<and> u16 (ss (regs c)) \<and> u16 (sp (regs c))
     \<and> 2 * int n \<le> sp (regs c) \<and> sp (regs c) + 2 * int (length xs) < 0x10000
     \<and> lo \<le> stack_top c - 2 * int n \<and> stack_top c + 2 * int (length xs) = hi
     \<and> xs = map (stack_word c) [0..<length xs]"

text \<open>Only SP and the memory inside the area may differ.\<close>

definition stack_frame :: "int \<Rightarrow> int \<Rightarrow> 'w cpu \<Rightarrow> 'w cpu \<Rightarrow> bool" where
  "stack_frame lo hi c c' \<longleftrightarrow>
     c' = c\<lparr>regs := (regs c)\<lparr>sp := sp (regs c')\<rparr>, mem := (mem c)\<lparr>mdata := mdata (mem c')\<rparr>\<rparr>
     \<and> (\<forall>a. \<not> (lo \<le> a \<and> a < hi) \<longrightarrow> mdata (mem c') a = mdata (mem c) a)"

definition pushed :: "int \<Rightarrow> 'w cpu \<Rightarrow> 'w cpu" where
  "pushed v c = c\<lparr>regs := (regs c)\<lparr>sp := sp (regs c) - 2\<rparr>,
     mem := (mem c)\<lparr>mdata := (mdata (mem c))(stack_top c - 2 := word_of_int v,
                      stack_top c - 1 := word_of_int (drop_bit 8 v))\<rparr>\<rparr>"

definition popped :: "'w cpu \<Rightarrow> 'w cpu" where
  "popped c = c\<lparr>regs := (regs c)\<lparr>sp := sp (regs c) + 2\<rparr>\<rparr>"

lemma stack_top_linear:
  assumes "u16 (ss (regs c))" "0 \<le> sp (regs c) + d" "sp (regs c) + d < 0x10000"
    "0 \<le> stack_top c + d" "stack_top c + d < 0xF0000"
  shows "linear (ss (regs c)) (sp (regs c) + d) = stack_top c + d"
  using assms by (simp add: linear_eq stack_top_def u16_def)

lemma stkD:
  assumes "stk lo hi c n xs"
  shows "real_mode (mem c)" "u16 (ss (regs c))" "u16 (sp (regs c))" "2 * int n \<le> sp (regs c)"
    "sp (regs c) + 2 * int (length xs) < 0x10000" "lo \<le> stack_top c - 2 * int n"
    "stack_top c + 2 * int (length xs) = hi" "xs = map (stack_word c) [0..<length xs]"
    "\<And>a. lo \<le> a \<Longrightarrow> a < hi \<Longrightarrow> ram_byte (mem c) a"
  using assms by (simp_all add: stk_def)

lemma push_effect:
  assumes "stk lo hi c (Suc n) xs"
  shows "push v c = (Inr (), pushed v c)"
proof -
  note D = stkD [OF assms]
  have ram: "ram_byte (mem c) (stack_top c - 2)" using D(6,7,9) by simp
  then have "linear (ss (regs c)) (sp (regs c) - 2) = stack_top c - 2"
    using D stack_top_linear [of c "-2"] ram_byteD [OF ram] by (simp add: u16_def)
  moreover have "(sp (regs c) - 2) AND 0xFFFF = sp (regs c) - 2"
    using D(3,4) by (simp add: mask_simps u16_def)
  ultimately show ?thesis
    using D(1) ram
    by (simp add: push_def upd_regs_def get_regs_def on_mem_def ww_plain pushed_def)
qed

lemma byte_pair:
  assumes "u16 v"
  shows "uint (word_of_int v :: 8 word) + 256 * uint (word_of_int (drop_bit 8 v) :: 8 word) = v"
proof -
  have "0 \<le> v div 256" "v div 256 < 256" using assms by (auto simp: u16_def)
  then show ?thesis by (simp add: drop_bit_eq_div)
qed

lemma pushed_simps [simp]:
  "stack_top (pushed v c) = stack_top c - 2"
  "regs (pushed v c) = (regs c)\<lparr>sp := sp (regs c) - 2\<rparr>"
  "real_mode (mem (pushed v c)) = real_mode (mem c)"
  "ram_byte (mem (pushed v c)) = ram_byte (mem c)"
  by (simp_all add: pushed_def stack_top_def fun_eq_iff)

lemma stack_word_pushed_0: "u16 v \<Longrightarrow> stack_word (pushed v c) 0 = v"
  using byte_pair [of v] by (simp add: stack_word_def) (simp add: pushed_def)

lemma stack_word_pushed_Suc: "stack_word (pushed v c) (Suc i) = stack_word c i"
  by (simp add: stack_word_def) (simp add: pushed_def)

lemma pushed_stk:
  assumes "stk lo hi c (Suc n) xs" "u16 v"
  shows "stk lo hi (pushed v c) n (v # xs)"
proof -
  note D = stkD [OF assms(1)]
  have "map (stack_word (pushed v c)) [0..<Suc (length xs)] = v # xs"
    using D(8) by (simp only: map_upt_Suc stack_word_pushed_0 [OF assms(2)] stack_word_pushed_Suc)
  then show ?thesis
    using D by (simp add: stk_def u16_def del: upt_Suc)
qed

lemma pushed_frame: "stk lo hi c (Suc n) xs \<Longrightarrow> stack_frame lo hi c (pushed v c)"
  using stkD(6,7) [of lo hi c "Suc n" xs] by (auto simp: stack_frame_def pushed_def)

lemma pop_effect:
  assumes "stk lo hi c n (x # xs)"
  shows "pop c = (Inr x, popped c)"
proof -
  note D = stkD [OF assms]
  have ram: "ram_byte (mem c) (stack_top c)" using D(6,7,9) by simp
  have "linear (ss (regs c)) (sp (regs c)) = stack_top c"
    using D stack_top_linear [of c 0] ram_byteD [OF ram] by (simp add: u16_def)
  moreover have "x = uint (mdata (mem c) (stack_top c)) + 256 * uint (mdata (mem c) (stack_top c + 1))"
    using D(8) by (simp only: length_Cons map_upt_Suc) (simp add: stack_word_def)
  moreover have "(sp (regs c) + 2) AND 0xFFFF = sp (regs c) + 2"
    using D(3,5) by (simp add: mask_simps u16_def)
  ultimately show ?thesis
    using D(1) ram_byteD [OF ram] or_bytes [OF byte_range]
    by (simp add: pop_def get_regs_def on_mem_def rw_plain upd_regs_def popped_def)
qed

lemma popped_simps [simp]:
  "stack_top (popped c) = stack_top c + 2" "mem (popped c) = mem c"
  "regs (popped c) = (regs c)\<lparr>sp := sp (regs c) + 2\<rparr>"
  by (simp_all add: popped_def stack_top_def)

lemma popped_stk:
  assumes "stk lo hi c n (x # xs)"
  shows "stk lo hi (popped c) (Suc n) xs"
proof -
  note D = stkD [OF assms]
  have "stack_word (popped c) = (\<lambda>i. stack_word c (Suc i))"
    by (rule ext) (simp add: stack_word_def algebra_simps)
  moreover have "xs = map (\<lambda>i. stack_word c (Suc i)) [0..<length xs]"
    using D(8) by (simp only: length_Cons map_upt_Suc list.inject)
  ultimately have "map (stack_word (popped c)) [0..<length xs] = xs" by simp
  then show ?thesis using D by (simp add: stk_def u16_def)
qed

lemma popped_frame: "stack_frame lo hi c (popped c)"
  by (simp add: stack_frame_def popped_def)

lemma stack_frame_iff:
  "stack_frame lo hi c c' \<longleftrightarrow> (\<exists>s d. c' = c\<lparr>regs := (regs c)\<lparr>sp := s\<rparr>, mem := (mem c)\<lparr>mdata := d\<rparr>\<rparr>
     \<and> (\<forall>a. \<not> (lo \<le> a \<and> a < hi) \<longrightarrow> d a = mdata (mem c) a))"
  unfolding stack_frame_def
  by (rule iffI; elim exE conjE) (blast, simp)

lemma stack_frame_trans:
  assumes "stack_frame lo hi c c'" "stack_frame lo hi c' c''"
  shows "stack_frame lo hi c c''"
proof -
  obtain s d s' d' where
    "c' = c\<lparr>regs := (regs c)\<lparr>sp := s\<rparr>, mem := (mem c)\<lparr>mdata := d\<rparr>\<rparr>"
    "\<forall>a. \<not> (lo \<le> a \<and> a < hi) \<longrightarrow> d a = mdata (mem c) a"
    "c'' = c'\<lparr>regs := (regs c')\<lparr>sp := s'\<rparr>, mem := (mem c')\<lparr>mdata := d'\<rparr>\<rparr>"
    "\<forall>a. \<not> (lo \<le> a \<and> a < hi) \<longrightarrow> d' a = mdata (mem c') a"
    using assms unfolding stack_frame_iff by blast
  then show ?thesis unfolding stack_frame_iff
    by (intro exI [of _ s'] exI [of _ d']) simp
qed

interpretation sk: word_stack push pop "stk lo hi" u16 "stack_frame lo hi" for lo hi
proof unfold_locales
  show "\<exists>s'. push v s = (Inr (), s') \<and> stk lo hi s' n (v # xs) \<and> stack_frame lo hi s s'"
    if "stk lo hi s (Suc n) xs" "u16 v" for s n xs v
    using push_effect [OF that(1)] pushed_stk [OF that] pushed_frame [OF that(1)] by blast
  show "\<exists>s'. pop s = (Inr x, s') \<and> stk lo hi s' (Suc n) xs \<and> stack_frame lo hi s s'"
    if "stk lo hi s n (x # xs)" for s n x xs
    using pop_effect [OF that] popped_stk [OF that] popped_frame by blast
  show "stack_frame lo hi s s" for s by (simp add: stack_frame_def)
qed (rule stack_frame_trans)

section \<open>Instructions over the stack\<close>

text \<open>Every further step of an instruction runs from the state the step before it reached.\<close>

lemma stk_cong:
  assumes "ss (regs c') = ss (regs c)" "sp (regs c') = sp (regs c)" "mem c' = mem c"
  shows "stk lo hi c' n xs = stk lo hi c n xs"
proof -
  have "stack_top c' = stack_top c" using assms by (simp add: stack_top_def)
  moreover from this have "stack_word c' = stack_word c"
    using assms by (simp add: stack_word_def fun_eq_iff)
  ultimately show ?thesis using assms by (simp add: stk_def)
qed

lemma pop_upd:
  assumes "stk lo hi c n (x # xs)" "\<And>r. ss (f x r) = ss r" "\<And>r. sp (f x r) = sp r"
  shows "bindM pop (\<lambda>v. upd_regs (f v)) c = (Inr (), c\<lparr>regs := f x ((regs c)\<lparr>sp := sp (regs c) + 2\<rparr>)\<rparr>)"
    "stk lo hi (c\<lparr>regs := f x ((regs c)\<lparr>sp := sp (regs c) + 2\<rparr>)\<rparr>) (Suc n) xs"
    "thenM (bindM pop (\<lambda>v. upd_regs (f v))) k c = k (c\<lparr>regs := f x ((regs c)\<lparr>sp := sp (regs c) + 2\<rparr>)\<rparr>)"
  using pop_effect [OF assms(1)] popped_stk [OF assms(1)] assms(2,3)
  by (simp_all add: upd_regs_def popped_def
      stk_cong [of "c\<lparr>regs := f x ((regs c)\<lparr>sp := sp (regs c) + 2\<rparr>)\<rparr>"
        "c\<lparr>regs := (regs c)\<lparr>sp := sp (regs c) + 2\<rparr>\<rparr>"])

definition vector_at :: "memory \<Rightarrow> int \<Rightarrow> int \<times> int" where
  "vector_at m num = (let w = (\<lambda>a. uint (mdata m a) + 256 * uint (mdata m (a + 1))) in
     (w (num * 4 + 2), w (num * 4)))"

lemma rw_ivt:
  assumes "real_mode m" "0 \<le> a" "a < 0x400"
  shows "rw 0 a m = (Inr (uint (mdata m a) + 256 * uint (mdata m (a + 1))), m)"
proof -
  have "linear 0 a = a" using assms(2,3) by (simp add: linear_eq)
  then show ?thesis
    using assms or_bytes [OF byte_range] by (simp add: rw_plain in_aperture_def mem_consts)
qed

lemma word_pair_u16: "u16 (uint (x :: 8 word) + 256 * uint (y :: 8 word))"
  using byte_range [of x] byte_range [of y] by (simp add: u16_def)

lemma u16_mask_id: "u16 v \<Longrightarrow> v AND 65535 = v"
  by (simp add: u16_def mask_simps)

definition irq_flags :: "int \<Rightarrow> int" where
  "irq_flags f = set_flag_word TF False (set_flag_word IF False f)"

lemma irq_flags_clear: "irq_flags f AND IF = 0" "irq_flags f AND TF = 0"
proof -
  have "\<not> bit (irq_flags f) 9" "\<not> bit (irq_flags f) 8"
    by (simp_all add: irq_flags_def set_flag_word_def IF_def TF_def bit_and_iff bit_or_iff bit_not_iff)
  then show "irq_flags f AND IF = 0" "irq_flags f AND TF = 0"
    using and_exp_ne_0 [of "irq_flags f" 9] and_exp_ne_0 [of "irq_flags f" 8]
    by (simp_all add: IF_def TF_def)
qed

text \<open>The interrupt frame: FLAGS, CS and IP pushed in this order.\<close>

definition interrupt_frame :: "'w cpu \<Rightarrow> int list" where
  "interrupt_frame c = [ip (regs c), cs (regs c), flags (regs c)]"

definition push_frame :: "('w, unit) cpu_op" where
  "push_frame = thenM (bindM (get_regs flags) push)
     (thenM (bindM (get_regs (\<lambda>r. cs r AND 0xFFFF)) push)
            (bindM (get_regs (\<lambda>r. ip r AND 0xFFFF)) push))"

definition framed :: "'w cpu \<Rightarrow> 'w cpu" where
  "framed c = pushed (ip (regs c)) (pushed (cs (regs c)) (pushed (flags (regs c)) c))"

lemma framed_pushes:
  assumes "wf_regs (regs c)" "stk lo hi c (n + 3) []"
  shows "push (flags (regs c)) c = (Inr (), pushed (flags (regs c)) c)"
    "push (cs (regs c)) (pushed (flags (regs c)) c)
      = (Inr (), pushed (cs (regs c)) (pushed (flags (regs c)) c))"
    "push (ip (regs c)) (pushed (cs (regs c)) (pushed (flags (regs c)) c)) = (Inr (), framed c)"
    "stk lo hi (framed c) n (interrupt_frame c)" "stack_frame lo hi c (framed c)"
    "regs (framed c) = (regs c)\<lparr>sp := sp (regs c) - 6\<rparr>"
    "cs (regs c) AND 65535 = cs (regs c)" "ip (regs c) AND 65535 = ip (regs c)"
proof -
  have W: "u16 (flags (regs c))" "u16 (cs (regs c))" "u16 (ip (regs c))"
    using assms(1) by (simp_all add: wf_regs_def)
  let ?a = "pushed (flags (regs c)) c"
  let ?b = "pushed (cs (regs c)) ?a"
  have 3: "stk lo hi c (Suc (Suc (Suc n))) []" using assms(2) by (simp add: numeral_3_eq_3)
  have A: "stk lo hi ?a (Suc (Suc n)) [flags (regs c)]" using pushed_stk [OF 3 W(1)] .
  have B: "stk lo hi ?b (Suc n) [cs (regs c), flags (regs c)]" using pushed_stk [OF A W(2)] .
  show "push (flags (regs c)) c = (Inr (), ?a)" "push (cs (regs c)) ?a = (Inr (), ?b)"
    "push (ip (regs c)) ?b = (Inr (), framed c)"
    using push_effect [OF 3] push_effect [OF A] push_effect [OF B] by (simp_all add: framed_def)
  show "stk lo hi (framed c) n (interrupt_frame c)"
    using pushed_stk [OF B W(3)] by (simp add: interrupt_frame_def framed_def)
  show "stack_frame lo hi c (framed c)"
    unfolding framed_def
    using pushed_frame [OF 3] pushed_frame [OF A] pushed_frame [OF B] stack_frame_trans by blast
  show "regs (framed c) = (regs c)\<lparr>sp := sp (regs c) - 6\<rparr>" by (simp add: framed_def)
  show "cs (regs c) AND 65535 = cs (regs c)" "ip (regs c) AND 65535 = ip (regs c)"
    using W by (simp_all add: u16_mask_id)
qed

lemma push_frame_effect:
  assumes "wf_regs (regs c)" "stk lo hi c (n + 3) []"
  shows "push_frame c = (Inr (), framed c)"
  using framed_pushes [OF assms] by (simp add: push_frame_def thenM_def get_regs_def)

lemma iret_effect:
  assumes "stk lo hi c n [i, s, f]"
  shows "op_iret c = (Inr (), c\<lparr>regs := (regs c)\<lparr>cs := s, ip := i, flags := f OR 2, sp := sp (regs c) + 6\<rparr>,
    call_depth := max 0 (call_depth c - 1)\<rparr>)"
proof -
  note A = popped_stk [OF assms]
  note B = popped_stk [OF A]
  show ?thesis
    using pop_effect [OF assms] pop_effect [OF A] pop_effect [OF B]
    by (simp add: op_iret_def thenM_def upd_flags_def upd_regs_def set_csip_def depth_down_def popped_def)
qed

definition irq_vector :: "int \<Rightarrow> int" where
  "irq_vector irq = (if irq < 8 then 0x08 + irq else 0x70 + irq - 8)"

lemma enter_effect:
  assumes "wf_regs (regs c)" "stk lo hi c (n + 3) []" "0 \<le> irq" "irq < 16"
  shows "\<exists>c1. enter_hardware_interrupt irq c = (Inr (), c1)
    \<and> (cs (regs c1), ip (regs c1)) = vector_at (mem c) (irq_vector irq)
    \<and> flags (regs c1) = irq_flags (flags (regs c)) \<and> sp (regs c1) = sp (regs c) - 6
    \<and> stk lo hi c1 n (interrupt_frame c)"
proof -
  define c0 where "c0 = framed c"
  have P: "push_frame c = (Inr (), c0)" "stk lo hi c0 n (interrupt_frame c)"
      "stack_frame lo hi c c0" "sp (regs c0) = sp (regs c) - 6"
    using push_frame_effect [OF assms(1,2)] framed_pushes(4-6) [OF assms(1,2)]
    by (simp_all add: c0_def)
  obtain s d where "c0 = c\<lparr>regs := (regs c)\<lparr>sp := s\<rparr>, mem := (mem c)\<lparr>mdata := d\<rparr>\<rparr>"
    using P(3) unfolding stack_frame_iff by blast
  then have F: "flags (regs c0) = flags (regs c)" by simp
  define v where "v = irq_vector irq * 4"
  have "0 \<le> v" "v + 2 < 0x400" using assms(3,4) by (auto simp: v_def irq_vector_def)
  then have R: "rw 0 v (mem c) = (Inr (snd (vector_at (mem c) (irq_vector irq))), mem c)"
      "rw 0 (v + 2) (mem c) = (Inr (fst (vector_at (mem c) (irq_vector irq))), mem c)"
    using rw_ivt [OF stkD(1) [OF assms(2)], of v] rw_ivt [OF stkD(1) [OF assms(2)], of "v + 2"]
    by (simp_all add: vector_at_def Let_def v_def)
  have U: "u16 (fst (vector_at (mem c) k))" "u16 (snd (vector_at (mem c) k))" for k
    by (simp_all add: vector_at_def word_pair_u16)
  let ?c1 = "c0\<lparr>regs := (regs c0)\<lparr>flags := irq_flags (flags (regs c)),
    cs := fst (vector_at (mem c) (irq_vector irq)), ip := snd (vector_at (mem c) (irq_vector irq))\<rparr>\<rparr>"
  have "enter_hardware_interrupt irq c = bindM push_frame (\<lambda>_.
      thenM (set_flag IF False) (thenM (set_flag TF False)
       (upd_regs (\<lambda>r. r\<lparr>cs := fst (vector_at (mem c) (irq_vector irq)),
                        ip := snd (vector_at (mem c) (irq_vector irq))\<rparr>)))) c"
    using R U by (simp add: enter_hardware_interrupt_def irq_vector_def [symmetric] v_def [symmetric]
        on_mem_def push_frame_def thenM_def bindM_assoc u16_mask_id)
  also have "\<dots> = (Inr (), ?c1)"
    using P(1) F by (simp add: set_flag_def upd_regs_def irq_flags_def)
  finally have E: "enter_hardware_interrupt irq c = (Inr (), ?c1)" .
  have "stk lo hi ?c1 n (interrupt_frame c)"
    using P(2) stk_cong [of ?c1 c0] by simp
  then show ?thesis using E P(4) by (intro exI [of _ ?c1]) simp
qed

section \<open>The round trips\<close>

text \<open>
  C7: a hardware interrupt enters the handler of its vector with IF and TF clear, and an IRET
  executed by the handler, whatever it did in between, once the interrupt frame is on top of the
  stack again, continues at the interrupted instruction with the interrupted FLAGS (bit 1 set) and
  SP.  The call depth is one less: the entry did not count itself.
\<close>

theorem irq_iret_roundtrip:
  assumes "wf_regs (regs c)" "stk lo hi c 3 []" "0 \<le> irq" "irq < 16"
  shows "\<exists>c1. enter_hardware_interrupt irq c = (Inr (), c1)
    \<and> (cs (regs c1), ip (regs c1)) = vector_at (mem c) (irq_vector irq)
    \<and> flags (regs c1) AND IF = 0 \<and> flags (regs c1) AND TF = 0
    \<and> stk lo hi c1 0 (interrupt_frame c)
    \<and> (\<forall>c3. stk lo hi c3 0 (interrupt_frame c) \<longrightarrow> ss (regs c3) = ss (regs c) \<longrightarrow>
         op_iret c3 = (Inr (), c3\<lparr>regs := (regs c3)\<lparr>cs := cs (regs c), ip := ip (regs c),
            flags := flags (regs c) OR 2, sp := sp (regs c)\<rparr>,
          call_depth := max 0 (call_depth c3 - 1)\<rparr>))"
proof -
  obtain c1 where 1: "enter_hardware_interrupt irq c = (Inr (), c1)"
      "(cs (regs c1), ip (regs c1)) = vector_at (mem c) (irq_vector irq)"
      "flags (regs c1) = irq_flags (flags (regs c))" "sp (regs c1) = sp (regs c) - 6"
      "stk lo hi c1 0 (interrupt_frame c)"
    using enter_effect [of c lo hi 0 irq] assms by auto
  have "op_iret c3 = (Inr (), c3\<lparr>regs := (regs c3)\<lparr>cs := cs (regs c), ip := ip (regs c),
      flags := flags (regs c) OR 2, sp := sp (regs c)\<rparr>, call_depth := max 0 (call_depth c3 - 1)\<rparr>)"
    if "stk lo hi c3 0 (interrupt_frame c)" "ss (regs c3) = ss (regs c)" for c3
  proof -
    have "sp (regs c3) + 6 = sp (regs c)"
      using stkD(7) [OF that(1)] stkD(7) [OF assms(2)] that(2)
      by (simp add: interrupt_frame_def stack_top_def)
    then show ?thesis using iret_effect [OF that(1) [unfolded interrupt_frame_def]] by simp
  qed
  then show ?thesis using 1 irq_flags_clear [of "flags (regs c)"] by auto
qed

text \<open>A machine with 256 bytes of stack at 0050:0000, on which the witnesses run.\<close>

definition stack_cpu :: "unit cpu" where
  "stack_cpu = (filled_cpu 0x90)\<lparr>regs := CPUState_init\<lparr>ss := 0x50, sp := 0x100\<rparr>\<rparr>"

lemma stack_cpu_stk: "n \<le> 128 \<Longrightarrow> stk 0x500 0x600 stack_cpu n []"
  by (simp add: stk_def stack_cpu_def filled_cpu_def filled_memory_def CPU8086_def real_mode_def
      memory_new_def ram_byte_def in_aperture_def stack_top_def u16_def mem_consts CPUState_init_def)

lemma stack_cpu_wf: "wf_regs (regs stack_cpu)"
  using wf_regs_init by (simp add: stack_cpu_def wf_regs_def u16_def)

theorem irq_iret_roundtrip_witness:
  "\<exists>c1. enter_hardware_interrupt 1 stack_cpu = (Inr (), c1)
    \<and> stk 0x500 0x600 c1 0 (interrupt_frame stack_cpu)"
proof -
  have "stk 0x500 0x600 stack_cpu 3 []" by (rule stack_cpu_stk) simp
  from irq_iret_roundtrip [OF stack_cpu_wf this, of 1] show ?thesis by fastforce
qed

lemma popa_effect:
  assumes "stk lo hi c n [r7, r6, r5, r4, r3, r2, r1, r0]"
  shows "op_popa c = (Inr (), c\<lparr>regs := (regs c)\<lparr>ax := r0, cx := r1, dx := r2, bx := r3,
      bp := r5, si := r6, di := r7, sp := sp (regs c) + 16\<rparr>\<rparr>)"
proof -
  note 1 = pop_upd [OF assms, of "\<lambda>v r. r\<lparr>di := v\<rparr>", simplified]
  note 2 = pop_upd [OF 1(2), of "\<lambda>v r. r\<lparr>si := v\<rparr>", simplified]
  note 3 = pop_upd [OF 2(2), of "\<lambda>v r. r\<lparr>bp := v\<rparr>", simplified]
  note 4 = pop_effect [OF 3(2)] popped_stk [OF 3(2)]
  note 5 = pop_upd [OF 4(2), of "\<lambda>v r. r\<lparr>bx := v\<rparr>", simplified]
  note 6 = pop_upd [OF 5(2), of "\<lambda>v r. r\<lparr>dx := v\<rparr>", simplified]
  note 7 = pop_upd [OF 6(2), of "\<lambda>v r. r\<lparr>cx := v\<rparr>", simplified]
  note 8 = pop_upd [OF 7(2), of "\<lambda>v r. r\<lparr>ax := v\<rparr>", simplified]
  have D: "thenM (bindM pop (\<lambda>_. ret ())) k c' = k (popped c')" if "pop c' = (Inr x, popped c')"
    for c' :: "'a cpu" and x and k :: "('a, unit) cpu_op" using that by (simp add: thenM_def)
  show ?thesis
    by (simp only: op_popa_def seqM.simps 1(3) 2(3) 3(3) D [OF 4(1)] 5(3) 6(3) 7(3) 8(3))
      (simp add: popped_def)
qed

text \<open>
  PUSHA pushes the eight general registers, SP as it was before the instruction, with DI on top,
  and POPA after it restores every register; memory outside the stack area is untouched.
\<close>

theorem pusha_popa_roundtrip:
  assumes "wf_regs (regs c)" "stk lo hi c 8 []"
  shows "\<exists>c1 c2. op_pusha c = (Inr (), c1)
    \<and> stk lo hi c1 0 (map (\<lambda>f. f (regs c)) [di, si, bp, sp, bx, dx, cx, ax])
    \<and> op_popa c1 = (Inr (), c2) \<and> regs c2 = regs c \<and> stack_frame lo hi c c2"
proof -
  let ?r = "regs c"
  let ?vs = "[ax ?r, cx ?r, dx ?r, bx ?r, sp ?r, bp ?r, si ?r, di ?r]"
  have "\<And>v. v \<in> set ?vs \<Longrightarrow> u16 v" using assms(1) by (auto simp: wf_regs_def)
  moreover have "stk lo hi c (length ?vs + 0) []" using assms(2) by (simp add: eval_nat_numeral)
  ultimately obtain c1 where 1: "seqM (map push ?vs) c = (Inr (), c1)" "stk lo hi c1 0 (rev ?vs @ [])"
      "stack_frame lo hi c c1"
    using sk.push_all [of lo hi c ?vs 0 "[]"] by blast
  obtain s d where C1: "c1 = c\<lparr>regs := ?r\<lparr>sp := s\<rparr>, mem := (mem c)\<lparr>mdata := d\<rparr>\<rparr>"
      "\<forall>a. \<not> (lo \<le> a \<and> a < hi) \<longrightarrow> d a = mdata (mem c) a"
    using 1(3) unfolding stack_frame_iff by blast
  have S: "s + 16 = sp ?r"
    using stkD(7) [OF 1(2)] stkD(7) [OF assms(2)] C1 by (simp add: stack_top_def)
  let ?c2 = "c\<lparr>mem := (mem c)\<lparr>mdata := d\<rparr>\<rparr>"
  have "op_pusha c = (Inr (), c1)" using 1(1) by (simp add: op_pusha_def get_regs_def)
  moreover have "op_popa c1 = (Inr (), ?c2)"
    using popa_effect [OF 1(2) [simplified]] C1(1) S by simp
  moreover have "stack_frame lo hi c ?c2" using C1(2) by (simp add: stack_frame_def)
  ultimately show ?thesis using 1(2) by (intro exI [of _ c1] exI [of _ ?c2]) simp
qed

theorem pusha_popa_roundtrip_witness:
  "\<exists>c1 c2. op_pusha stack_cpu = (Inr (), c1) \<and> op_popa c1 = (Inr (), c2)
    \<and> regs c2 = regs stack_cpu"
proof -
  have "stk 0x500 0x600 stack_cpu 8 []" by (rule stack_cpu_stk) simp
  from pusha_popa_roundtrip [OF stack_cpu_wf this] show ?thesis by fastforce
qed

text \<open>
  a near CALL jumps by its displacement, taken as signed and relative to the instruction after it, with
  wrap-around, and a RET executed when the return address is on top of the stack again continues
  after the CALL with the SP and the call depth from before it.
\<close>

theorem call_ret_roundtrip:
  assumes "fetch16 c = (Inr d, c1)" "wf_regs (regs c1)" "stk lo hi c1 1 []" "0 \<le> call_depth c1"
  shows "\<exists>c2. op_call_near c = (Inr (), c2)
    \<and> ip (regs c2) = (ip (regs c1) + sign16 d) AND 0xFFFF
    \<and> stk lo hi c2 0 [ip (regs c1)]
    \<and> (\<forall>c3. stk lo hi c3 0 [ip (regs c1)] \<longrightarrow> ss (regs c3) = ss (regs c1)
         \<longrightarrow> call_depth c3 = call_depth c2 \<longrightarrow>
         op_ret_near c3 = (Inr (), c3\<lparr>regs := (regs c3)\<lparr>ip := ip (regs c1), sp := sp (regs c1)\<rparr>,
           call_depth := call_depth c1\<rparr>))"
proof -
  have U: "u16 (ip (regs c1))" using assms(2) by (simp add: wf_regs_def)
  have 1: "stk lo hi c1 (Suc 0) []" using assms(3) by simp
  let ?p = "pushed (ip (regs c1)) c1"
  let ?c2 = "?p\<lparr>regs := (regs ?p)\<lparr>ip := (ip (regs c1) + sign16 d) AND 0xFFFF\<rparr>,
    call_depth := call_depth c1 + 1\<rparr>"
  have "op_call_near c = (Inr (), ?c2)"
    using assms(1) push_effect [OF 1]
    by (simp add: op_call_near_def get_ip_def get_regs_def set_ip_def upd_regs_def depth_up_def)
       (simp add: pushed_def)
  moreover have "stk lo hi ?c2 0 [ip (regs c1)]"
    using pushed_stk [OF 1 U] stk_cong [of ?c2 ?p] by simp
  moreover have "op_ret_near c3 = (Inr (), c3\<lparr>regs := (regs c3)\<lparr>ip := ip (regs c1),
      sp := sp (regs c1)\<rparr>, call_depth := call_depth c1\<rparr>)"
    if "stk lo hi c3 0 [ip (regs c1)]" "ss (regs c3) = ss (regs c1)" "call_depth c3 = call_depth ?c2"
    for c3
  proof -
    have "sp (regs c3) + 2 = sp (regs c1)"
      using stkD(7) [OF that(1)] stkD(7) [OF assms(3)] that(2) by (simp add: stack_top_def)
    then show ?thesis
      using pop_effect [OF that(1)] that(3) assms(4)
      by (simp add: op_ret_near_def set_ip_def upd_regs_def depth_down_def popped_def)
  qed
  ultimately show ?thesis by (intro exI [of _ ?c2] conjI allI impI) simp_all
qed

theorem call_ret_roundtrip_witness:
  "\<exists>c2. op_call_near stack_cpu = (Inr (), c2)
    \<and> ip (regs c2) = (ip (regs (snd (fetch16 stack_cpu))) + sign16 0x9090) AND 0xFFFF"
proof -
  let ?c1 = "stack_cpu\<lparr>regs := (regs stack_cpu)\<lparr>ip := 2\<rparr>\<rparr>"
  have F: "fetch16 stack_cpu = (Inr 0x9090, ?c1)"
    by (simp add: fetch16_def stack_cpu_def filled_cpu_def filled_memory_def CPU8086_def memory_new_def
        byte_at_def on_mem_def set_ip_def upd_regs_def mem_consts CPUState_init_def)
  have "wf_regs (regs ?c1)" using stack_cpu_wf by (simp add: wf_regs_def u16_def)
  moreover have "stk 0x500 0x600 ?c1 1 []"
    using stack_cpu_stk [of 1] stk_cong [of ?c1 stack_cpu] by simp
  moreover have "0 \<le> call_depth ?c1"
    by (simp add: stack_cpu_def filled_cpu_def CPU8086_def)
  ultimately show ?thesis using call_ret_roundtrip [OF F] F by fastforce
qed

end
