(* ===== verification/Pic.thy ===== *)
theory Pic
  imports Prelude
begin

text \<open>
  \<open>dos_re/pic.py\<close>: the master 8259 interrupt controller.  The three registers are integers as in
  the code; the events of a device, the driver and the CPU are a step relation, and its reachable
  states have at most one interrupt in service.
\<close>

section \<open>Definitions\<close>

record PIC8259 =
  imr :: int
  irr :: int
  isr :: int

definition PIC8259_init :: PIC8259 where
  "PIC8259_init = \<lparr>imr = 0xFF, irr = 0x00, isr = 0x00\<rparr>"

definition raise_irq :: "int \<Rightarrow> PIC8259 \<Rightarrow> PIC8259" where
  "raise_irq n p = p\<lparr>irr := irr p OR push_bit (nat (n AND 7)) 1\<rparr>"

definition set_mask :: "int \<Rightarrow> PIC8259 \<Rightarrow> PIC8259" where
  "set_mask value p = p\<lparr>imr := value AND 0xFF\<rparr>"

definition get_mask :: "PIC8259 \<Rightarrow> int" where
  "get_mask p = imr p AND 0xFF"

definition eoi :: "PIC8259 \<Rightarrow> PIC8259" where
  "eoi p = (if isr p \<noteq> 0 then p\<lparr>isr := isr p AND (isr p - 1)\<rparr> else p)"

text \<open>Python's \<open>int.bit_length\<close> of a nonnegative integer.\<close>

fun bit_length :: "nat \<Rightarrow> nat" where
  "bit_length n = (if n = 0 then 0 else Suc (bit_length (n div 2)))"

declare bit_length.simps [simp del]

definition acknowledge :: "PIC8259 \<Rightarrow> int option \<times> PIC8259" where
  "acknowledge p =
     (if isr p \<noteq> 0 then (None, p)
      else let pending = irr p AND NOT (imr p) AND 0xFF in
        if pending = 0 then (None, p)
        else let cand = pending AND - pending in
          (Some (int (bit_length (nat cand)) - 1),
           p\<lparr>irr := irr p AND NOT cand, isr := isr p OR cand\<rparr>))"

section \<open>The lowest bit\<close>

lemma bit_length_exp: "bit_length (2 ^ k) = Suc k"
  by (induction k) (simp_all add: bit_length.simps)

lemma lowest_bit:
  fixes x :: int
  assumes "bit x k" "\<And>j. j < k \<Longrightarrow> \<not> bit x j"
  shows "x AND - x = 2 ^ k"
  using assms
proof (induction k arbitrary: x)
  case 0
  then have "odd x" by (simp add: bit_0)
  then have "(- x) div 2 = NOT (x div 2)" by (auto simp: not_int_def elim!: oddE)
  then have "x AND - x = 1 + 2 * ((x div 2) AND NOT (x div 2))"
    using \<open>odd x\<close> by (subst and_int_rec) simp
  then show ?case by simp
next
  case (Suc k)
  have "even x" using Suc.prems(2) [of 0] by (simp add: bit_0)
  then have "(- x) div 2 = - (x div 2)" by (auto elim!: evenE)
  then have "x AND - x = 2 * ((x div 2) AND - (x div 2))"
    using \<open>even x\<close> by (subst and_int_rec) simp
  moreover have "(x div 2) AND - (x div 2) = 2 ^ k"
    using Suc.prems by (intro Suc.IH) (auto simp: bit_Suc simp flip: bit_Suc)
  ultimately show ?case by simp
qed

lemma lowest_bit_exists:
  fixes x :: int
  assumes "x AND 0xFF \<noteq> 0"
  obtains k where "k < 8" "bit x k" "\<And>j. j < k \<Longrightarrow> \<not> bit x j"
proof -
  have mask: "bit (0xFF :: int) j \<longleftrightarrow> j < 8" for j
    using bit_mask_iff [of 8 j, where 'a = int] by (simp add: mask_eq_exp_minus_1 bit_simps)
  obtain i where "bit (x AND 0xFF) i" using assms by (metis bit_eq_iff bit_0_eq bot_apply bot_bool_def)
  then have i: "bit x i" "i < 8" by (auto simp: bit_and_iff mask)
  define k where "k = (LEAST j. bit x j)"
  have "bit x k" "k \<le> i" "\<And>j. j < k \<Longrightarrow> \<not> bit x j"
    using i LeastI [of "bit x" i] Least_le [of "bit x" i] not_less_Least
    by (auto simp: k_def)
  then show thesis using that [of k] i(2) by (meson le_less_trans)
qed

section \<open>What acknowledge delivers\<close>

definition deliverable :: "PIC8259 \<Rightarrow> nat \<Rightarrow> bool" where
  "deliverable p k \<longleftrightarrow> k < 8 \<and> bit (irr p) k \<and> \<not> bit (imr p) k"

lemma pending_bit: "bit (irr p AND NOT (imr p) AND 0xFF) k \<longleftrightarrow> deliverable p k"
proof -
  have "bit (0xFF :: int) k \<longleftrightarrow> k < 8"
    using bit_mask_iff [of 8 k, where 'a = int] by (simp add: mask_eq_exp_minus_1 bit_simps)
  then show ?thesis by (auto simp: deliverable_def bit_and_iff bit_not_iff)
qed

lemma acknowledge_none:
  "isr p \<noteq> 0 \<or> (\<forall>k. \<not> deliverable p k) \<Longrightarrow> acknowledge p = (None, p)"
  using pending_bit [of p] by (auto simp: acknowledge_def Let_def bit_eq_iff)

lemma acknowledge_some:
  assumes "isr p = 0" "deliverable p k" "\<And>j. j < k \<Longrightarrow> \<not> deliverable p j"
  shows "acknowledge p = (Some (int k), p\<lparr>irr := irr p AND NOT (2 ^ k), isr := 2 ^ k\<rparr>)"
proof -
  let ?x = "irr p AND NOT (imr p) AND 0xFF"
  have "?x AND - ?x = 2 ^ k"
    by (rule lowest_bit) (use assms pending_bit in auto)
  moreover have "?x \<noteq> 0" using pending_bit [of p k] assms(2) by (auto simp: bit_eq_iff)
  moreover have "int (bit_length (nat (2 ^ k))) - 1 = int k"
    using bit_length_exp [of k] by (simp add: nat_power_eq del: power_eq_0_iff)
  ultimately show ?thesis
    using assms(1) by (simp add: acknowledge_def Let_def)
qed

lemma acknowledge_least:
  assumes "isr p = 0" "\<exists>k. deliverable p k"
  defines "k \<equiv> LEAST k. deliverable p k"
  shows "deliverable p k"
    and "acknowledge p = (Some (int k), p\<lparr>irr := irr p AND NOT (2 ^ k), isr := 2 ^ k\<rparr>)"
proof -
  show d: "deliverable p k" unfolding k_def by (rule LeastI_ex [OF assms(2)])
  show "acknowledge p = (Some (int k), p\<lparr>irr := irr p AND NOT (2 ^ k), isr := 2 ^ k\<rparr>)"
    by (rule acknowledge_some [OF assms(1) d]) (auto simp: k_def dest: not_less_Least)
qed

text \<open>
  \<open>acknowledge\<close> delivers the highest-priority (lowest) unmasked request when nothing is in
  service, moving its bit from IRR to ISR; otherwise it delivers nothing and changes nothing.
\<close>

theorem acknowledge_spec:
  "acknowledge p =
     (if isr p = 0 \<and> (\<exists>k. deliverable p k)
      then (let k = (LEAST k. deliverable p k) in
            (Some (int k), p\<lparr>irr := irr p AND NOT (2 ^ k), isr := 2 ^ k\<rparr>))
      else (None, p))"
  using acknowledge_least(2) [of p] acknowledge_none [of p] by (simp add: Let_def)

section \<open>The controller as a state machine\<close>

datatype pic_event = Raise int | SetMask int | Eoi | Ack "int option"

inductive pic_step :: "PIC8259 \<Rightarrow> pic_event \<Rightarrow> PIC8259 \<Rightarrow> bool" where
  step_raise: "pic_step p (Raise n) (raise_irq n p)"
| step_mask: "pic_step p (SetMask v) (set_mask v p)"
| step_eoi: "pic_step p Eoi (eoi p)"
| step_ack: "acknowledge p = (r, p') \<Longrightarrow> pic_step p (Ack r) p'"

inductive pic_reach :: "PIC8259 \<Rightarrow> bool" where
  reach_init: "pic_reach PIC8259_init"
| reach_step: "pic_reach p \<Longrightarrow> pic_step p e p' \<Longrightarrow> pic_reach p'"

inductive_cases pic_stepE: "pic_step p e p'"

code_pred pic_step .

definition pic_inv :: "PIC8259 \<Rightarrow> bool" where
  "pic_inv p \<longleftrightarrow> u8 (imr p) \<and> u8 (irr p) \<and> (isr p = 0 \<or> (\<exists>k<8. isr p = 2 ^ k))"

lemma u8_or: "u8 x \<Longrightarrow> u8 y \<Longrightarrow> u8 (x OR y)"
  using or_lt_exp [of x y 8] by (simp add: u8_def)

lemma u8_and: "u8 x \<Longrightarrow> u8 (x AND y)"
  using and_le_left [of x y] by (simp add: u8_def)

lemma u8_exp: "k < 8 \<Longrightarrow> u8 (2 ^ k)"
  using power_strict_increasing [of k 8 "2 :: int"] by (simp add: u8_def)

lemma exp_and_pred: "(2 ^ k :: int) AND (2 ^ k - 1) = 0"
  by (simp add: and_mask_mod)

lemma eoi_in_service: "isr p = 2 ^ k \<Longrightarrow> eoi p = p\<lparr>isr := 0\<rparr>"
  by (simp add: eoi_def exp_and_pred)

lemma pic_step_inv: "pic_step p e p' \<Longrightarrow> pic_inv p \<Longrightarrow> pic_inv p'"
proof (erule pic_stepE)
  fix n assume "p' = raise_irq n p" "pic_inv p"
  moreover have "nat (n AND 7) < 8" by (simp add: mask_simps nat_less_iff)
  ultimately show ?thesis
    using u8_exp [of "nat (n AND 7)"] by (simp add: pic_inv_def raise_irq_def u8_or push_bit_eq_mult)
next
  fix v assume "p' = set_mask v p" "pic_inv p"
  then show ?thesis by (simp add: pic_inv_def set_mask_def)
next
  assume "p' = eoi p" "pic_inv p"
  then show ?thesis
    by (cases "isr p = 0") (auto simp: pic_inv_def eoi_def exp_and_pred)
next
  fix r assume a: "acknowledge p = (r, p')" and i: "pic_inv p"
  show ?thesis
  proof (cases "isr p = 0 \<and> (\<exists>k. deliverable p k)")
    case True
    then have "isr p = 0" "\<exists>k. deliverable p k" by blast+
    note L = acknowledge_least [OF this]
    then have "(LEAST k. deliverable p k) < 8" by (simp add: deliverable_def)
    then show ?thesis using a i L(2) by (auto simp: pic_inv_def u8_and)
  next
    case False
    then show ?thesis using a i acknowledge_none [of p] by auto
  qed
qed

text \<open>
  C33: in every state the PIC can reach, at most one interrupt is in service and the registers are
  bytes.
\<close>

theorem pic_one_in_service:
  assumes "pic_reach p"
  shows "pic_inv p"
  using assms
proof induction
  case reach_init
  show ?case by (simp add: PIC8259_init_def pic_inv_def u8_def)
next
  case (reach_step p e p')
  then show ?case by (blast intro: pic_step_inv)
qed

theorem pic_one_in_service_witness:
  "pic_inv (snd (acknowledge (raise_irq 7 (set_mask 0 PIC8259_init))))"
proof (rule pic_one_in_service)
  have "pic_reach (raise_irq 7 (set_mask 0 PIC8259_init))"
    by (rule reach_step [OF reach_step [OF reach_init step_mask] step_raise])
  then show "pic_reach (snd (acknowledge (raise_irq 7 (set_mask 0 PIC8259_init))))"
    by (rule reach_step [OF _ step_ack [OF prod.collapse [symmetric]]])
qed

text \<open>
  C34: a pending request is never lost: whatever happens (raises, masking, EOI, other
  acknowledges), it stays in IRR until it is itself acknowledged.
\<close>

theorem pic_request_persists:
  assumes "pic_step p e p'" "bit (irr p) k" "e \<noteq> Ack (Some (int k))"
  shows "bit (irr p') k"
  using assms(1)
proof (cases rule: pic_step.cases)
  case (step_raise n)
  then show ?thesis using assms(2) by (simp add: raise_irq_def bit_or_iff)
next
  case (step_mask v)
  then show ?thesis using assms(2) by (simp add: set_mask_def)
next
  case step_eoi
  then show ?thesis using assms(2) by (simp add: eoi_def)
next
  case (step_ack r)
  show ?thesis
  proof (cases "isr p = 0 \<and> (\<exists>j. deliverable p j)")
    case True
    then have "isr p = 0" "\<exists>j. deliverable p j" by blast+
    from acknowledge_least(2) [OF this] show ?thesis
      using step_ack assms(2,3) by (auto simp: bit_and_iff bit_not_iff bit_exp_iff)
  next
    case False
    then show ?thesis using step_ack acknowledge_none [of p] assms(2) by auto
  qed
qed

theorem pic_request_persists_witness:
  "bit (irr (set_mask 0xFF (raise_irq 7 PIC8259_init))) 7"
  by (rule pic_request_persists [OF step_mask [of "raise_irq 7 PIC8259_init" "0xFF"]])
     (simp_all add: raise_irq_def PIC8259_init_def bit_or_iff bit_exp_iff push_bit_eq_mult)

end
