(* ===== verification/Keyboard.thy ===== *)
theory Keyboard
  imports Prelude
begin

text \<open>
  \<open>dos_re/keyboard.py\<close>: \<open>KeyDispatcher\<close>, which turns physical key events into scan codes so that
  a quick tap is held for at least one frame.

  \<open>_events\<close> is the deque of posted events, \<open>_down\<close> the frames each held key has been down,
  \<open>_release\<close> the keys whose release is pending.  The calls of \<open>deliver\<close> are collected in
  \<open>delivered\<close>, oldest first.  A Python set is iterated in an order the language leaves open:
  \<open>set_order\<close>, a parameter, is the order in which \<open>list(...)\<close> enumerates it.
\<close>

section \<open>Definitions\<close>

record key_dispatcher =
  events :: "(bool \<times> int) list"   \<comment> \<open>\<open>("down", sc)\<close> is \<open>(True, sc)\<close>\<close>
  down :: "int \<Rightarrow> int option"
  release :: "int set"
  delivered :: "int list"

definition KeyDispatcher :: key_dispatcher where
  "KeyDispatcher = \<lparr>events = [], down = (\<lambda>_. None), release = {}, delivered = []\<rparr>"

definition deliver :: "int \<Rightarrow> key_dispatcher \<Rightarrow> key_dispatcher" where
  "deliver sc k = k\<lparr>delivered := delivered k @ [sc]\<rparr>"

definition post_down :: "int \<Rightarrow> key_dispatcher \<Rightarrow> key_dispatcher" where
  "post_down scancode k = k\<lparr>events := events k @ [(True, scancode AND 0xFF)]\<rparr>"

definition post_up :: "int \<Rightarrow> key_dispatcher \<Rightarrow> key_dispatcher" where
  "post_up scancode k = k\<lparr>events := events k @ [(False, scancode AND 0xFF)]\<rparr>"

definition drain_one :: "bool \<times> int \<Rightarrow> key_dispatcher \<Rightarrow> key_dispatcher" where
  "drain_one ev k =
     (case ev of (pressed, sc) \<Rightarrow>
        if pressed then
          (let k = k\<lparr>release := release k - {sc}\<rparr> in
           if down k sc = None then (deliver sc k)\<lparr>down := (down k)(sc \<mapsto> 0)\<rparr> else k)
        else k\<lparr>release := insert sc (release k)\<rparr>)"

definition drain_events :: "key_dispatcher \<Rightarrow> key_dispatcher" where
  "drain_events k = fold drain_one (events k) (k\<lparr>events := []\<rparr>)"

definition release_one :: "bool \<Rightarrow> int \<Rightarrow> key_dispatcher \<Rightarrow> key_dispatcher" where
  "release_one hold_new_taps sc k =
     (if (case down k sc of Some age \<Rightarrow> age | None \<Rightarrow> -1) \<ge> 1 \<or> \<not> hold_new_taps
      then (deliver (sc OR 0x80) k)\<lparr>down := (down k)(sc := None), release := release k - {sc}\<rparr>
      else k)"

definition release_ready ::
    "(int set \<Rightarrow> int list) \<Rightarrow> bool \<Rightarrow> key_dispatcher \<Rightarrow> key_dispatcher" where
  "release_ready set_order hold_new_taps k =
     fold (release_one hold_new_taps) (set_order (release k)) k"

definition pump_events :: "(int set \<Rightarrow> int list) \<Rightarrow> key_dispatcher \<Rightarrow> key_dispatcher" where
  "pump_events set_order k = release_ready set_order False (drain_events k)"

definition pump :: "(int set \<Rightarrow> int list) \<Rightarrow> bool \<Rightarrow> key_dispatcher \<Rightarrow> key_dispatcher" where
  "pump set_order allow_release k =
     (let k = drain_events k;
          k = (if allow_release then release_ready set_order True k else k)
      in k\<lparr>down := (\<lambda>sc. map_option (\<lambda>age. age + 1) (down k sc))\<rparr>)"

section \<open>One key's history\<close>

text \<open>A make code is below 0x80; its break code is the make code with bit 7 set.\<close>

definition make_code :: "int \<Rightarrow> bool" where
  "make_code sc \<longleftrightarrow> 0 \<le> sc \<and> sc < 0x80"

lemma break_code: "make_code sc \<Longrightarrow> sc OR 0x80 = sc + 128"
  using or_push_bit [of sc 7 1] by (simp add: make_code_def push_bit_eq_mult)

text \<open>What was delivered of one key.\<close>

definition key_codes :: "int \<Rightarrow> int list \<Rightarrow> int list" where
  "key_codes sc l = filter (\<lambda>x. x = sc \<or> x = sc OR 0x80) l"

lemma key_codes_append [simp]: "key_codes sc (l @ m) = key_codes sc l @ key_codes sc m"
  by (simp add: key_codes_def)

lemma key_codes_make:
  "make_code sc \<Longrightarrow> make_code x \<Longrightarrow> key_codes sc [x] = (if x = sc then [x] else [])"
  by (auto simp: key_codes_def break_code) (simp add: make_code_def)

lemma key_codes_break:
  "make_code sc \<Longrightarrow> make_code x \<Longrightarrow>
   key_codes sc [x OR 0x80] = (if x = sc then [x OR 0x80] else [])"
  by (auto simp: key_codes_def break_code) (simp add: make_code_def)

text \<open>Makes and breaks alternate, starting with a make and ending with one iff the key is held.\<close>

definition alternates :: "int \<Rightarrow> bool \<Rightarrow> int list \<Rightarrow> bool" where
  "alternates sc held l \<longleftrightarrow>
     (\<exists>n. l = concat (replicate n [sc, sc OR 0x80]) @ (if held then [sc] else []))"

lemma alternates_press: "alternates sc False l \<Longrightarrow> alternates sc True (l @ [sc])"
  by (auto simp: alternates_def)

lemma concat_replicate_snoc: "concat (replicate n xs) @ xs = concat (replicate (Suc n) xs)"
  by (induction n) simp_all

lemma alternates_release: "alternates sc True l \<Longrightarrow> alternates sc False (l @ [sc OR 0x80])"
proof -
  assume "alternates sc True l"
  then obtain n where "l = concat (replicate n [sc, sc OR 0x80]) @ [sc]"
    by (auto simp: alternates_def)
  then have "l @ [sc OR 0x80] = concat (replicate (Suc n) [sc, sc OR 0x80])"
    using concat_replicate_snoc [of n "[sc, sc OR 0x80]"] by simp
  then show ?thesis unfolding alternates_def by (intro exI [of _ "Suc n"]) simp
qed

section \<open>The invariant\<close>

definition kbd_inv :: "key_dispatcher \<Rightarrow> bool" where
  "kbd_inv k \<longleftrightarrow> (\<forall>ev \<in> set (events k). make_code (snd ev)) \<and> (\<forall>sc \<in> dom (down k). make_code sc)
     \<and> (\<forall>sc \<in> release k. make_code sc) \<and> finite (release k)
     \<and> (\<forall>sc. make_code sc \<longrightarrow> alternates sc (down k sc \<noteq> None) (key_codes sc (delivered k)))"

lemma kbd_inv_init: "kbd_inv KeyDispatcher"
  by (auto simp: kbd_inv_def KeyDispatcher_def key_codes_def alternates_def intro!: exI [of _ 0])

lemma kbd_inv_post: "make_code sc \<Longrightarrow> kbd_inv k \<Longrightarrow> kbd_inv (post_down sc k) \<and> kbd_inv (post_up sc k)"
  by (auto simp: kbd_inv_def post_down_def post_up_def make_code_def mask_simps)

lemma drain_one_inv: "make_code (snd ev) \<Longrightarrow> kbd_inv k \<Longrightarrow> kbd_inv (drain_one ev k)"
  by (cases ev) (auto simp: kbd_inv_def drain_one_def deliver_def Let_def key_codes_make
      alternates_press)

lemma fold_drain_inv:
  "(\<forall>ev \<in> set evs. make_code (snd ev)) \<Longrightarrow> kbd_inv k \<Longrightarrow> kbd_inv (fold drain_one evs k)"
  by (induction evs arbitrary: k) (simp_all add: drain_one_inv)

lemma drain_inv: "kbd_inv k \<Longrightarrow> kbd_inv (drain_events k)"
  unfolding drain_events_def
  by (rule fold_drain_inv) (auto simp: kbd_inv_def)

section \<open>The release pass\<close>

definition ready :: "bool \<Rightarrow> key_dispatcher \<Rightarrow> int \<Rightarrow> bool" where
  "ready hold k sc \<longleftrightarrow> (case down k sc of Some age \<Rightarrow> age | None \<Rightarrow> -1) \<ge> 1 \<or> \<not> hold"

text \<open>The pass over any enumeration of the pending releases, key by key.\<close>

lemma release_fold:
  assumes "distinct xs" "\<forall>x \<in> set xs. make_code x" "make_code sc"
  shows "down (fold (release_one h) xs k) sc
      = (if sc \<in> set xs \<and> ready h k sc then None else down k sc)
    \<and> key_codes sc (delivered (fold (release_one h) xs k)) = key_codes sc (delivered k)
        @ (if sc \<in> set xs \<and> ready h k sc then [sc OR 0x80] else [])
    \<and> release (fold (release_one h) xs k) = release k - {x \<in> set xs. ready h k x}
    \<and> events (fold (release_one h) xs k) = events k"
  using assms(1,2)
proof (induction xs arbitrary: k)
  case Nil
  then show ?case by simp
next
  case (Cons x xs)
  let ?k = "release_one h x k"
  have same: "ready h ?k y = ready h k y" if "y \<noteq> x" for y
    using that by (simp add: release_one_def ready_def deliver_def)
  have eq: "?k = (if ready h k x then (deliver (x OR 0x80) k)
      \<lparr>down := (down k)(x := None), release := release k - {x}\<rparr> else k)"
    by (simp add: release_one_def ready_def)
  have "{y \<in> set xs. ready h ?k y} = {y \<in> set xs. ready h k y}"
  proof (rule Collect_cong)
    show "(y \<in> set xs \<and> ready h ?k y) = (y \<in> set xs \<and> ready h k y)" for y
      using same [of y] Cons.prems(1) by (cases "y = x") auto
  qed
  moreover have "key_codes sc [x OR 0x80] = (if x = sc then [x OR 0x80] else [])"
    using Cons.prems(2) assms(3) by (intro key_codes_break) simp_all
  ultimately show ?case
    using Cons.IH [of ?k] Cons.prems same [of sc] by (auto simp: eq deliver_def)
qed

definition enumerates :: "(int set \<Rightarrow> int list) \<Rightarrow> bool" where
  "enumerates so \<longleftrightarrow> (\<forall>S. finite S \<longrightarrow> distinct (so S) \<and> set (so S) = S)"

lemma sorted_list_enumerates: "enumerates sorted_list_of_set"
  by (simp add: enumerates_def)

lemma release_ready_effect:
  assumes "enumerates so" "kbd_inv k" "make_code sc"
  shows "down (release_ready so h k) sc
      = (if sc \<in> release k \<and> ready h k sc then None else down k sc)"
    and "key_codes sc (delivered (release_ready so h k)) = key_codes sc (delivered k)
        @ (if sc \<in> release k \<and> ready h k sc then [sc OR 0x80] else [])"
    and "release (release_ready so h k) = release k - {x \<in> release k. ready h k x}"
    and "events (release_ready so h k) = events k"
  using release_fold [of "so (release k)" sc h k] assms
  by (auto simp: release_ready_def enumerates_def kbd_inv_def)

lemma release_down_le: "down (fold (release_one h) xs k) \<subseteq>\<^sub>m down k"
proof (induction xs arbitrary: k)
  case (Cons x xs)
  have "down (release_one h x k) \<subseteq>\<^sub>m down k"
    by (simp add: release_one_def deliver_def map_le_def)
  then show ?case using Cons [of "release_one h x k"] by (simp add: map_le_trans)
qed simp

text \<open>With \<open>hold_new_taps\<close> only a key that is down is released, so the invariant is kept.\<close>

lemma release_ready_inv:
  assumes "enumerates so" "kbd_inv k"
  shows "kbd_inv (release_ready so True k)"
proof -
  note E = release_ready_effect [OF assms]
  have "dom (down (release_ready so True k)) \<subseteq> dom (down k)"
    unfolding release_ready_def by (rule map_le_implies_dom_le [OF release_down_le])
  then have dom: "\<forall>sc \<in> dom (down (release_ready so True k)). make_code sc"
    using assms(2) by (auto simp: kbd_inv_def subset_iff)
  have "alternates sc (down (release_ready so True k) sc \<noteq> None)
      (key_codes sc (delivered (release_ready so True k)))" if "make_code sc" for sc
  proof (cases "sc \<in> release k \<and> ready True k sc")
    case True
    then have "down k sc \<noteq> None" by (auto simp: ready_def split: option.splits)
    then have "alternates sc True (key_codes sc (delivered k))"
      using assms(2) that by (auto simp: kbd_inv_def)
    then show ?thesis using E(1,2) [OF that] True by (simp add: alternates_release)
  next
    case False
    then show ?thesis using E(1,2) [OF that] assms(2) that by (auto simp: kbd_inv_def)
  qed
  moreover have "make_code 0" by (simp add: make_code_def)
  ultimately show ?thesis
    using assms(2) dom E(3,4) [of 0] unfolding kbd_inv_def by simp
qed

lemma age_inv: "kbd_inv (k\<lparr>down := (\<lambda>sc. map_option f (down k sc))\<rparr>) = kbd_inv k"
  by (simp add: kbd_inv_def dom_map_option)

lemma pump_inv: "enumerates so \<Longrightarrow> kbd_inv k \<Longrightarrow> kbd_inv (pump so allow k)"
  unfolding pump_def Let_def age_inv by (simp add: drain_inv release_ready_inv)

section \<open>Properties\<close>

datatype key_op = PostDown int | PostUp int | Pump bool

fun key_op_run :: "(int set \<Rightarrow> int list) \<Rightarrow> key_op \<Rightarrow> key_dispatcher \<Rightarrow> key_dispatcher" where
  "key_op_run so (PostDown sc) = post_down sc"
| "key_op_run so (PostUp sc) = post_up sc"
| "key_op_run so (Pump allow) = pump so allow"

fun key_op_ok :: "key_op \<Rightarrow> bool" where
  "key_op_ok (PostDown sc) = make_code sc"
| "key_op_ok (PostUp sc) = make_code sc"
| "key_op_ok (Pump allow) = True"

lemma key_ops_inv:
  "enumerates so \<Longrightarrow> list_all key_op_ok ops \<Longrightarrow> kbd_inv k \<Longrightarrow> kbd_inv (fold (key_op_run so) ops k)"
proof (induction ops arbitrary: k)
  case (Cons a ops)
  then have "kbd_inv (key_op_run so a k)"
    by (cases a) (auto simp: kbd_inv_post pump_inv)
  then show ?case using Cons by simp
qed simp

text \<open>
  C35: under any sequence of posted events and frame pumps the scan codes of a key alternate make
  and break, starting with a make, and the key is held exactly when the last one was a make.
\<close>

theorem scan_codes_alternate:
  assumes "enumerates so" "list_all key_op_ok ops" "make_code sc"
  shows "let k = fold (key_op_run so) ops KeyDispatcher in
    alternates sc (down k sc \<noteq> None) (key_codes sc (delivered k))"
  using key_ops_inv [OF assms(1,2) kbd_inv_init] assms(3) by (simp add: Let_def kbd_inv_def)

theorem scan_codes_alternate_witness:
  "let k = fold (key_op_run sorted_list_of_set)
       [PostDown 0x1C, PostUp 0x1C, Pump True, Pump True] KeyDispatcher in
    alternates 0x1C (down k 0x1C \<noteq> None) (key_codes 0x1C (delivered k))"
  by (rule scan_codes_alternate) (simp_all add: sorted_list_enumerates make_code_def)

text \<open>
  a tap whose press and release both arrive before one frame is delivered as a make at that
  frame's pump and as a break only at the next one, so the key is down for the whole frame.
\<close>

theorem quick_tap_spans_a_frame:
  assumes "enumerates so" "kbd_inv k" "events k = []" "make_code sc" "down k sc = None"
  shows "let k1 = pump so True (post_up sc (post_down sc k)); k2 = pump so True k1;
      l = key_codes sc (delivered k) in
    key_codes sc (delivered k1) = l @ [sc] \<and> down k1 sc = Some 1
    \<and> key_codes sc (delivered k2) = l @ [sc, sc OR 0x80] \<and> down k2 sc = None"
proof -
  let ?d = "drain_events (post_up sc (post_down sc k))"
  let ?k1 = "pump so True (post_up sc (post_down sc k))"
  have m: "sc AND 0xFF = sc" using assms(4) by (simp add: make_code_def mask_simps)
  have d: "down ?d = (down k)(sc \<mapsto> 0)" "release ?d = insert sc (release k - {sc})"
    "delivered ?d = delivered k @ [sc]" "events ?d = []"
    using assms(3,5) m
    by (simp_all add: drain_events_def post_up_def post_down_def drain_one_def deliver_def Let_def)
  have inv: "kbd_inv ?d" using assms(2,4) by (simp add: drain_inv kbd_inv_post)
  note E = release_ready_effect [OF assms(1) inv assms(4), where h = True]
  have nr: "\<not> ready True ?d sc" by (simp add: ready_def d(1))
  have k1: "key_codes sc (delivered ?k1) = key_codes sc (delivered k) @ [sc]" "down ?k1 sc = Some 1"
    "sc \<in> release ?k1" "events ?k1 = []"
    using E nr d assms(4) by (simp_all add: pump_def Let_def key_codes_make)
  have inv1: "kbd_inv ?k1" using assms(1,2,4) by (simp add: pump_inv kbd_inv_post)
  have dr: "drain_events ?k1 = ?k1" using k1(4) by (simp add: drain_events_def)
  note E2 = release_ready_effect [OF assms(1) inv1 assms(4), where h = True]
  have "ready True ?k1 sc" by (simp add: ready_def k1(2))
  then have "key_codes sc (delivered (pump so True ?k1)) = key_codes sc (delivered k) @ [sc, sc OR 0x80]
      \<and> down (pump so True ?k1) sc = None"
    using E2 k1 by (subst (1 3) pump_def) (simp add: Let_def dr)
  then show ?thesis using k1 by (simp add: Let_def)
qed

theorem quick_tap_spans_a_frame_witness:
  "let k1 = pump sorted_list_of_set True (post_up 0x39 (post_down 0x39 KeyDispatcher));
      k2 = pump sorted_list_of_set True k1; l = key_codes 0x39 (delivered KeyDispatcher) in
    key_codes 0x39 (delivered k1) = l @ [0x39] \<and> down k1 0x39 = Some 1
    \<and> key_codes 0x39 (delivered k2) = l @ [0x39, 0x39 OR 0x80] \<and> down k2 0x39 = None"
  by (rule quick_tap_spans_a_frame [OF sorted_list_enumerates kbd_inv_init])
     (simp_all add: KeyDispatcher_def make_code_def)

text \<open>
  with \<open>pump_events\<close> a release that was never pressed is not dropped: a break code is delivered
  for a key that is not down.
\<close>

theorem pump_events_stray_break:
  "delivered (pump_events sorted_list_of_set (post_up 0x1C KeyDispatcher)) = [0x9C]"
  by (simp add: pump_events_def drain_events_def post_up_def KeyDispatcher_def drain_one_def
      release_ready_def release_one_def deliver_def)

end
