(* ===== verification/Regions.thy ===== *)
theory Regions
  imports Prelude
begin

text \<open>
  \<open>dos_re/regions.py\<close>: \<open>RegionDispatcher\<close>, which owns at most one active execution island and
  holds it to its declared contract.  Of a \<open>ResolvedExecutionRegion\<close> only the fields the
  dispatcher reads are kept.  A session and a completion callback belong to an adapter outside
  the repository's core: they are handles, and \<open>region_adapter\<close> says what calling them does to
  the whole state, the dispatcher included (a callback may call it back).
\<close>

section \<open>Definitions\<close>

record RegionEntryPoint =
  entry_id :: string
  target :: string

record RegionExitPoint =
  exit_id :: string
  continuation :: string

record region_binding =
  region_id :: string
  entries :: "RegionEntryPoint list"
  exits :: "RegionExitPoint list"
  replay_boundaries :: "string list"

record RegionProgress =
  boundary_id :: string
  progress_exit_id :: string

text \<open>The constructor with its \<open>__post_init__\<close> check, and the two named constructors.\<close>

definition RegionProgress_new :: "string \<Rightarrow> string \<Rightarrow> exn + RegionProgress" where
  "RegionProgress_new b e =
     (if (b \<noteq> '''') = (e \<noteq> '''') then Inl PyValueError
      else Inr \<lparr>boundary_id = b, progress_exit_id = e\<rparr>)"

definition yielded :: "string \<Rightarrow> exn + RegionProgress" where
  "yielded b = RegionProgress_new b ''''"

definition exited :: "string \<Rightarrow> exn + RegionProgress" where
  "exited e = RegionProgress_new '''' e"

record ('s, 'c) active_region =
  binding :: region_binding
  active_entry_id :: string
  session :: 's
  complete :: 'c

record ('s, 'c, 'w) region_dispatcher =
  active_region :: "('s, 'c) active_region option"
  last_region_id :: string
  last_entry_id :: string
  last_exit_id :: string
  outside :: 'w

definition RegionDispatcher :: "'w \<Rightarrow> ('s, 'c, 'w) region_dispatcher" where
  "RegionDispatcher w = \<lparr>active_region = None, last_region_id = '''', last_entry_id = '''',
     last_exit_id = '''', outside = w\<rparr>"

type_synonym ('s, 'c, 'w, 'a) region_op = "(('s, 'c, 'w) region_dispatcher, 'a) meth"

record ('s, 'c, 'w) region_adapter =
  session_advance :: "'s \<Rightarrow> ('s, 'c, 'w, RegionProgress) region_op"
  call_complete :: "'c \<Rightarrow> RegionExitPoint \<Rightarrow> ('s, 'c, 'w, unit) region_op"

definition active :: "('s, 'c, 'w) region_dispatcher \<Rightarrow> bool" where
  "active d \<longleftrightarrow> active_region d \<noteq> None"

definition active_region_id :: "('s, 'c, 'w) region_dispatcher \<Rightarrow> string" where
  "active_region_id d = (case active_region d of None \<Rightarrow> '''' | Some a \<Rightarrow> region_id (binding a))"

definition enter :: "region_binding \<Rightarrow> string \<Rightarrow> 's \<Rightarrow> 'c \<Rightarrow> ('s, 'c, 'w, unit) region_op" where
  "enter b entry s compl = bindM (getM active_region) (\<lambda>a.
     if a \<noteq> None then raise PyRuntimeError
     else if entry \<notin> set (map entry_id (entries b)) then raise PyRuntimeError
     else putM (\<lambda>d. d\<lparr>active_region := Some \<lparr>binding = b, active_entry_id = entry, session = s,
                                            complete = compl\<rparr>,
                     last_region_id := region_id b, last_entry_id := entry,
                     last_exit_id := ''''\<rparr>))"

definition handoff :: "region_binding \<Rightarrow> string \<Rightarrow> 's \<Rightarrow> 'c \<Rightarrow> ('s, 'c, 'w, unit) region_op" where
  "handoff b entry s compl =
     thenM (enter b entry s compl) (raise (RegionHandoff (region_id b) entry))"

text \<open>\<open>{item.exit_id: item for item in exits}.get(x)\<close>: the last exit of that name.\<close>

definition find_exit :: "RegionExitPoint list \<Rightarrow> string \<Rightarrow> RegionExitPoint option" where
  "find_exit xs x = map_of (rev (map (\<lambda>e. (exit_id e, e)) xs)) x"

definition advance :: "('s, 'c, 'w) region_adapter \<Rightarrow> ('s, 'c, 'w, RegionProgress) region_op" where
  "advance A = bindM (getM active_region) (\<lambda>act.
     case act of
       None \<Rightarrow> raise PyRuntimeError
     | Some a \<Rightarrow>
         bindM (session_advance A (session a)) (\<lambda>progress.
           if boundary_id progress \<noteq> '''' then
             (if boundary_id progress \<notin> set (replay_boundaries (binding a))
              then raise PyRuntimeError
              else ret progress)
           else
             (case find_exit (exits (binding a)) (progress_exit_id progress) of
                None \<Rightarrow> raise PyRuntimeError
              | Some exit_point \<Rightarrow>
                  thenM (call_complete A (complete a) exit_point)
                 (thenM (putM (\<lambda>d. d\<lparr>last_exit_id := progress_exit_id progress,
                                     active_region := None\<rparr>))
                  (ret progress)))))"

definition reset :: "('s, 'c, 'w, unit) region_op" where
  "reset = putM (\<lambda>d. d\<lparr>active_region := None, last_region_id := '''', last_entry_id := '''',
     last_exit_id := ''''\<rparr>)"

section \<open>The contract as an invariant\<close>

definition contract :: "('s, 'c, 'w) region_dispatcher \<Rightarrow> bool" where
  "contract d \<longleftrightarrow> (case active_region d of None \<Rightarrow> True
     | Some a \<Rightarrow> active_entry_id a \<in> set (map entry_id (entries (binding a)))
         \<and> last_region_id d = region_id (binding a) \<and> last_entry_id d = active_entry_id a
         \<and> last_exit_id d = '''')"

interpretation rd: state_invariant contract .

definition adapter_ok :: "('s, 'c, 'w) region_adapter \<Rightarrow> bool" where
  "adapter_ok A \<longleftrightarrow> (\<forall>s. rd.keeps (session_advance A s) (\<lambda>_. True))
     \<and> (\<forall>k e. rd.keeps (call_complete A k e) (\<lambda>_. True))"

lemma rd_enter: "rd.keeps (enter b entry s compl) (\<lambda>_. True)"
  by (rule rd.keepsI) (auto simp: enter_def contract_def)

lemma rd_handoff: "rd.keeps (handoff b entry s compl) (\<lambda>_. False)"
  unfolding handoff_def by (rule rd.keeps_thenM [OF rd_enter rd.keeps_raise])

lemma rd_reset: "rd.keeps reset (\<lambda>_. True)"
  unfolding reset_def by (rule rd.keeps_putM) (simp add: contract_def)

lemma find_exit_in: "find_exit xs x = Some e \<Longrightarrow> e \<in> set xs \<and> exit_id e = x"
  by (auto simp: find_exit_def dest!: map_of_SomeD)

lemma rd_advance:
  assumes "adapter_ok A"
  shows "rd.keeps (advance A) (\<lambda>_. True)"
proof -
  have a: "rd.keeps (session_advance A s) (\<lambda>_. True)" for s
    using assms by (simp add: adapter_ok_def)
  have c: "rd.keeps (call_complete A k e) (\<lambda>_. True)" for k e
    using assms by (simp add: adapter_ok_def)
  have p: "rd.keeps (putM (\<lambda>d. d\<lparr>last_exit_id := x, active_region := None\<rparr>)) (\<lambda>_. True)" for x
    by (rule rd.keeps_putM) (simp add: contract_def)
  show ?thesis
    unfolding advance_def
    by (rule a c p rd.keeps_rules | simp)+
qed

text \<open>
  C36: every operation of the dispatcher, also when it raises, keeps the contract: an active region
  was entered through an entry it declares, and the reported region, entry and exit are its.
\<close>

theorem dispatcher_keeps_contract:
  assumes "contract d" "adapter_ok A"
  shows "contract (snd (enter b entry s compl d)) \<and> contract (snd (handoff b entry s compl d))
    \<and> contract (snd (advance A d)) \<and> contract (snd (reset d))"
  using rd.keepsD [OF rd_enter assms(1)] rd.keepsD [OF rd_handoff assms(1)]
    rd.keepsD [OF rd_advance [OF assms(2)] assms(1)] rd.keepsD [OF rd_reset assms(1)] by blast

text \<open>An island that yields at ''frame'' and an exit that is not declared, for the witnesses.\<close>

definition demo_binding :: region_binding where
  "demo_binding = \<lparr>region_id = ''r'', entries = [\<lparr>entry_id = ''in'', target = ''t''\<rparr>],
     exits = [\<lparr>exit_id = ''out'', continuation = ''k''\<rparr>], replay_boundaries = [''frame'']\<rparr>"

definition demo_adapter :: "(RegionProgress, unit, unit) region_adapter" where
  "demo_adapter = \<lparr>session_advance = (\<lambda>s. ret s), call_complete = (\<lambda>_ _. ret ())\<rparr>"

definition demo_active ::
    "RegionProgress \<Rightarrow> (RegionProgress, unit, unit) region_dispatcher" where
  "demo_active p = snd (enter demo_binding ''in'' p () (RegionDispatcher ()))"

lemma demo_facts: "contract (demo_active p)" "adapter_ok demo_adapter"
  by (simp_all add: demo_active_def enter_def demo_binding_def RegionDispatcher_def contract_def
      adapter_ok_def demo_adapter_def rd.keeps_def)

theorem dispatcher_keeps_contract_witness:
  "contract (snd (advance demo_adapter (demo_active \<lparr>boundary_id = '''', progress_exit_id = ''out''\<rparr>)))"
  using dispatcher_keeps_contract [OF demo_facts] by blast

text \<open>\<open>enter\<close> on its two outcomes.\<close>

lemma enter_iff:
  "enter b entry s compl d =
     (if active d \<or> entry \<notin> set (map entry_id (entries b)) then (Inl PyRuntimeError, d)
      else (Inr (), d\<lparr>active_region := Some \<lparr>binding = b, active_entry_id = entry, session = s,
                                            complete = compl\<rparr>,
                      last_region_id := region_id b, last_entry_id := entry, last_exit_id := ''''\<rparr>))"
  by (simp add: enter_def active_def)

text \<open>
  C37: a region leaves the dispatcher only through an exit it declares: if \<open>advance\<close> returns with
  an exit, that exit is declared, its completion ran and no region is active any more; if it
  returns with a boundary, that boundary is declared and the region is still active.
\<close>

theorem advance_declared:
  assumes "active_region d = Some a" "advance A d = (Inr p, d')"
    and "\<And>s d p d'. session_advance A s d = (Inr p, d') \<Longrightarrow> active_region d' = active_region d"
  shows "if boundary_id p \<noteq> ''''
    then boundary_id p \<in> set (replay_boundaries (binding a)) \<and> active_region d' = Some a
    else (\<exists>e \<in> set (exits (binding a)). exit_id e = progress_exit_id p)
      \<and> last_exit_id d' = progress_exit_id p \<and> \<not> active d'"
proof -
  obtain q d1 where q: "session_advance A (session a) d = (Inr q, d1)"
    using assms(1,2) by (cases "session_advance A (session a) d";
        cases "fst (session_advance A (session a) d)") (auto simp: advance_def)
  show ?thesis
  proof (cases "boundary_id q = ''''")
    case False
    then show ?thesis
      using assms(1,2) q assms(3) [OF q] by (auto simp: advance_def split: if_splits)
  next
    case True
    obtain e where e: "find_exit (exits (binding a)) (progress_exit_id q) = Some e"
      using assms(1,2) q True
      by (cases "find_exit (exits (binding a)) (progress_exit_id q)") (auto simp: advance_def)
    obtain d2 where "call_complete A (complete a) e d1 = (Inr (), d2)"
      using assms(1,2) q True e
      by (cases "call_complete A (complete a) e d1"; cases "fst (call_complete A (complete a) e d1)")
         (auto simp: advance_def)
    then show ?thesis
      using assms(1,2) q True e find_exit_in [OF e] by (auto simp: advance_def active_def)
  qed
qed

theorem advance_declared_witness:
  "\<exists>d'. advance demo_adapter (demo_active \<lparr>boundary_id = '''', progress_exit_id = ''out''\<rparr>)
      = (Inr \<lparr>boundary_id = '''', progress_exit_id = ''out''\<rparr>, d') \<and> \<not> active d'"
proof -
  let ?p = "\<lparr>boundary_id = '''', progress_exit_id = ''out''\<rparr>"
  let ?a = "\<lparr>binding = demo_binding, active_entry_id = ''in'', session = ?p, complete = ()\<rparr>"
  have a: "active_region (demo_active ?p) = Some ?a"
    by (simp add: demo_active_def enter_def demo_binding_def RegionDispatcher_def)
  obtain d' where r: "advance demo_adapter (demo_active ?p) = (Inr ?p, d')"
    by (simp add: advance_def a demo_adapter_def find_exit_def demo_binding_def)
  have "active_region d' = active_region d" if "session_advance demo_adapter s d = (Inr p, d')"
    for s d p and d' :: "(RegionProgress, unit, unit) region_dispatcher"
    using that by (simp add: demo_adapter_def)
  from advance_declared [OF a r this] r show ?thesis by auto
qed

end
