(* ===== verification/Features.thy ===== *)
theory Features
  imports Prelude "HOL-Library.Multiset"
begin

text \<open>
  \<open>dos_re/features.py\<close>: \<open>FeatureController\<close>, the queue of replayable feature changes.  Of a
  \<open>FeatureDescriptor\<close> the fields the controller reads are kept.  A feature value is of an arbitrary
  type \<open>'v\<close>; \<open>record_event\<close> and \<open>apply\<close> are callbacks of the surrounding product, operations on
  the controller and its surroundings \<open>'w\<close>.

  \<open>apply_pending\<close> iterates the live list \<open>self._pending\<close> while the callback may append to it, or
  rebind the attribute by applying changes itself.  The list objects are therefore kept in a store:
  \<open>queues\<close> holds them, \<open>queue\<close> says which one \<open>self._pending\<close> is, and the loop reads the object it
  began with by index.  A callback that queues a change each time keeps the loop going for ever, so
  the loop is a partial function and \<open>None\<close> is not returning.
\<close>

section \<open>Definitions\<close>

datatype FeatureCategory = PRESENTATION | BEHAVIORAL | INSTRUMENTATION

record 'v FeatureDescriptor =
  feature_id :: string
  category :: FeatureCategory
  replay_channel :: string
  safe_boundaries :: "string set"
  default_value :: 'v

type_synonym 'v change = "string \<times> 'v"   \<comment> \<open>\<open>PendingFeatureChange(feature_id, value)\<close>\<close>

record ('v, 'w) controller =
  features :: "string \<Rightarrow> 'v FeatureDescriptor option"
  feature_state :: "string \<Rightarrow> 'v option"
  queues :: "'v change list list"
  queue :: nat
  surroundings :: 'w

text \<open>The list \<open>self._pending\<close>, as the \<open>pending\<close> property shows it.\<close>

definition pending :: "('v, 'w) controller \<Rightarrow> 'v change list" where
  "pending c = queues c ! queue c"

text \<open>A replay payload: \<open>None\<close> is anything that is no mapping, a missing key is \<open>None\<close> too.\<close>

record 'v payload =
  schema :: "string option"
  payload_feature :: "string option"
  payload_value :: 'v

definition FEATURE_EVENT_SCHEMA :: string where
  "FEATURE_EVENT_SCHEMA = ''dos_re.feature-event/v1''"

definition FeatureController :: "'v FeatureDescriptor list \<Rightarrow> 'w \<Rightarrow> exn + ('v, 'w) controller" where
  "FeatureController ds w =
     (if \<not> distinct (map feature_id ds) then Inl PyValueError
      else Inr \<lparr>features = map_of (map (\<lambda>d. (feature_id d, d)) ds),
                feature_state = map_of (map (\<lambda>d. (feature_id d, default_value d)) ds),
                queues = [[]], queue = 0, surroundings = w\<rparr>)"

type_synonym ('v, 'w, 'a) feature_op = "(('v, 'w) controller, 'a) meth"

text \<open>\<open>FeaturePolicyError\<close> is a subclass of \<open>RuntimeError\<close>.\<close>

definition descriptor :: "string \<Rightarrow> ('v, 'w, 'v FeatureDescriptor) feature_op" where
  "descriptor fid = bindM (getM (\<lambda>c. features c fid)) (\<lambda>d.
     case d of Some x \<Rightarrow> ret x | None \<Rightarrow> raise PyRuntimeError)"

definition queue_change :: "'v change \<Rightarrow> ('v, 'w, unit) feature_op" where
  "queue_change ch = putM (\<lambda>c. c\<lparr>queues := (queues c)[queue c := pending c @ [ch]]\<rparr>)"

definition request :: "string \<Rightarrow> 'v \<Rightarrow> int
    \<Rightarrow> (int \<Rightarrow> string \<Rightarrow> 'v payload \<Rightarrow> ('v, 'w, unit) feature_op) option
    \<Rightarrow> ('v, 'w, 'v payload) feature_op" where
  "request fid value ordinal record_event =
     bindM (descriptor fid) (\<lambda>d.
       let payload = \<lparr>schema = Some FEATURE_EVENT_SCHEMA, payload_feature = Some fid,
                      payload_value = value\<rparr> in
       thenM
         (if category d = BEHAVIORAL then
            (case record_event of None \<Rightarrow> raise PyRuntimeError
             | Some rec \<Rightarrow> rec ordinal (replay_channel d) payload)
          else
            (case record_event of None \<Rightarrow> ret ()
             | Some rec \<Rightarrow> if replay_channel d \<noteq> '''' then rec ordinal (replay_channel d) payload
                          else ret ()))
         (thenM (queue_change (fid, value)) (ret payload)))"

definition accept_replay_event ::
    "string \<Rightarrow> 'v payload option \<Rightarrow> ('v, 'w, unit) feature_op" where
  "accept_replay_event channel payload =
     (case payload of None \<Rightarrow> raise PyRuntimeError
      | Some p \<Rightarrow>
          if schema p \<noteq> Some FEATURE_EVENT_SCHEMA then raise PyRuntimeError
          else (let fid = (case payload_feature p of Some f \<Rightarrow> f | None \<Rightarrow> '''') in
            bindM (descriptor fid) (\<lambda>d.
              if channel \<noteq> replay_channel d then raise PyRuntimeError
              else queue_change (fid, payload_value p))))"

type_synonym ('v, 'w, 'a) feature_run = "('v, 'w) controller \<Rightarrow> ((exn + 'a) \<times> ('v, 'w) controller) option"

text \<open>The loop of \<open>apply_pending\<close> over the list object \<open>l\<close>, at its index \<open>i\<close>.\<close>

partial_function (option) apply_loop :: "string \<Rightarrow> (string \<Rightarrow> 'v \<Rightarrow> ('v, 'w, unit) feature_run)
    \<Rightarrow> nat \<Rightarrow> nat \<Rightarrow> 'v change list \<Rightarrow> 'v change list
    \<Rightarrow> ('v, 'w, 'v change list \<times> 'v change list) feature_run" where
  "apply_loop boundary ap l i applied retained c =
     (if length (queues c ! l) \<le> i then Some (Inr (applied, retained), c)
      else (let ch = queues c ! l ! i in
        case features c (fst ch) of
          None \<Rightarrow> Some (Inl PyKeyError, c)
        | Some d \<Rightarrow>
            if safe_boundaries d \<noteq> {} \<and> boundary \<notin> safe_boundaries d
            then apply_loop boundary ap l (Suc i) applied (retained @ [ch]) c
            else Option.bind (ap (fst ch) (snd ch) c) (\<lambda>(r, c').
              case r of
                Inl e \<Rightarrow> Some (Inl e, c')
              | Inr _ \<Rightarrow> apply_loop boundary ap l (Suc i) (applied @ [ch]) retained
                  (c'\<lparr>feature_state := (feature_state c')(fst ch \<mapsto> snd ch)\<rparr>))))"

definition apply_pending :: "string \<Rightarrow> (string \<Rightarrow> 'v \<Rightarrow> ('v, 'w, unit) feature_run)
    \<Rightarrow> ('v, 'w, 'v change list) feature_run" where
  "apply_pending boundary ap c =
     Option.bind (apply_loop boundary ap (queue c) 0 [] [] c) (\<lambda>(r, c').
       case r of
         Inl e \<Rightarrow> Some (Inl e, c')
       | Inr (applied, retained) \<Rightarrow>
           Some (Inr applied, c'\<lparr>queues := queues c' @ [retained], queue := length (queues c')\<rparr>))"

section \<open>Applying\<close>

definition due :: "('v, 'w) controller \<Rightarrow> string \<Rightarrow> 'v change \<Rightarrow> bool" where
  "due c boundary ch \<longleftrightarrow> (case features c (fst ch) of None \<Rightarrow> False
     | Some d \<Rightarrow> safe_boundaries d = {} \<or> boundary \<in> safe_boundaries d)"

lemma due_cong: "features c' = features c \<Longrightarrow> due c' = due c"
  by (simp add: due_def fun_eq_iff)

text \<open>
  A callback that returns or raises, queues further changes, and does what it likes outside; \<open>budget\<close>
  bounds how many changes it may still queue.
\<close>

definition queued :: "'v change list \<Rightarrow> 'w \<Rightarrow> ('v, 'w) controller \<Rightarrow> ('v, 'w) controller" where
  "queued new w c = c\<lparr>queues := (queues c)[queue c := pending c @ new], surroundings := w\<rparr>"

definition queueing :: "('w \<Rightarrow> nat) \<Rightarrow> (string \<Rightarrow> 'v \<Rightarrow> ('v, 'w, unit) feature_run) \<Rightarrow> bool" where
  "queueing budget ap \<longleftrightarrow> (\<forall>fid v c. \<exists>r new w.
     ap fid v c = Some (r, queued new w c) \<and> length new + budget w \<le> budget (surroundings c))"

lemma queued_simps [simp]:
  "queue (queued new w c) = queue c" "length (queues (queued new w c)) = length (queues c)"
  "features (queued new w c) = features c" "feature_state (queued new w c) = feature_state c"
  "surroundings (queued new w c) = w"
  by (simp_all add: queued_def)

lemma pending_queued [simp]: "queue c < length (queues c) \<Longrightarrow> pending (queued new w c) = pending c @ new"
  by (simp add: queued_def pending_def)

lemma pending_state [simp]: "pending (c\<lparr>feature_state := m\<rparr>) = pending c"
  by (simp add: pending_def)

lemma queueingE:
  assumes "queueing budget ap"
  obtains r new w where "ap fid v c = Some (r, queued new w c)" "length new + budget w \<le> budget (surroundings c)"
  using assms unfolding queueing_def by blast

text \<open>How the loop ends: with all changes sorted out, or at one that cannot be applied, because its
  feature is not planned or because the callback raises.\<close>

definition fails_at :: "(string \<Rightarrow> 'v \<Rightarrow> ('v, 'w, unit) feature_run) \<Rightarrow> ('v, 'w) controller \<Rightarrow> exn \<Rightarrow> 'v change \<Rightarrow> bool" where
  "fails_at ap c e ch \<longleftrightarrow> features c (fst ch) = None \<and> e = PyKeyError
     \<or> (\<exists>d d'. ap (fst ch) (snd ch) d = Some (Inl e, d'))"

definition sorted_out :: "(string \<Rightarrow> 'v \<Rightarrow> ('v, 'w, unit) feature_run) \<Rightarrow> string \<Rightarrow> ('v, 'w) controller
    \<Rightarrow> 'v change list \<Rightarrow> 'v change list \<Rightarrow> 'v change list
    \<Rightarrow> (exn + 'v change list \<times> 'v change list) \<Rightarrow> ('v, 'w) controller \<Rightarrow> bool" where
  "sorted_out ap boundary c applied retained rest r c' \<longleftrightarrow>
     (case r of
        Inr (as, rs) \<Rightarrow> as = applied @ filter (due c boundary) rest
          \<and> rs = retained @ filter (\<lambda>ch. \<not> due c boundary ch) rest
          \<and> feature_state c' = feature_state c ++ map_of (rev (filter (due c boundary) rest))
      | Inl e \<Rightarrow> \<exists>before ch behind. rest = before @ ch # behind
          \<and> feature_state c' = feature_state c ++ map_of (rev (filter (due c boundary) before))
          \<and> fails_at ap c e ch)"

lemma sorted_out_stop:
  assumes "rest = before @ ch # behind" "fails_at ap c e ch"
    "feature_state c' = feature_state c ++ map_of (rev (filter (due c boundary) before))"
  shows "sorted_out ap boundary c applied retained rest (Inl e) c'"
  using assms unfolding sorted_out_def sum.case by blast

lemma map_add_applied: "m(k \<mapsto> v) ++ map_of (rev xs) = m ++ map_of (rev ((k, v) # xs))"
  by (simp add: map_add_def fun_eq_iff split: option.split)

lemma sorted_out_retain:
  assumes "sorted_out ap boundary c applied (retained @ [ch]) rest r c'" "\<not> due c boundary ch"
  shows "sorted_out ap boundary c applied retained (ch # rest) r c'"
proof (cases r)
  case (Inl e)
  then obtain before x behind where "rest = before @ x # behind"
      "feature_state c' = feature_state c ++ map_of (rev (filter (due c boundary) (ch # before)))"
      "fails_at ap c e x"
    using assms by (force simp: sorted_out_def)
  then show ?thesis unfolding Inl by (intro sorted_out_stop [of _ "ch # before" x behind]) simp_all
next
  case (Inr p)
  then show ?thesis using assms by (auto simp: sorted_out_def split: prod.splits)
qed

lemma sorted_out_apply:
  assumes "sorted_out ap boundary c1 (applied @ [ch]) retained rest r c'" "due c boundary ch"
    and "features c1 = features c" "feature_state c1 = (feature_state c)(fst ch \<mapsto> snd ch)"
  shows "sorted_out ap boundary c applied retained (ch # rest) r c'"
proof -
  have S: "feature_state c1 ++ map_of (rev (filter (due c boundary) xs))
      = feature_state c ++ map_of (rev (filter (due c boundary) (ch # xs)))" for xs
    using assms(2,4) map_add_applied [of "feature_state c" "fst ch" "snd ch"] by simp
  show ?thesis
  proof (cases r)
    case (Inl e)
    have "fails_at ap c1 e = fails_at ap c e" by (simp add: fails_at_def assms(3) fun_eq_iff)
    then obtain before x behind where "rest = before @ x # behind"
        "feature_state c' = feature_state c ++ map_of (rev (filter (due c boundary) (ch # before)))"
        "fails_at ap c e x"
      using assms(1) unfolding sorted_out_def due_cong [OF assms(3)] S Inl sum.case by metis
    then show ?thesis unfolding Inl by (intro sorted_out_stop [of _ "ch # before" x behind]) simp_all
  next
    case (Inr p)
    then show ?thesis
      using assms(1,2) unfolding sorted_out_def due_cong [OF assms(3)] S Inr sum.case by (cases p) simp
  qed
qed

text \<open>One round of the loop, by what becomes of the change it looks at.\<close>

lemma apply_loop_rounds:
  assumes "i < length (pending c)" "pending c ! i = ch"
  shows "features c (fst ch) = None \<Longrightarrow> apply_loop boundary ap (queue c) i as rs c = Some (Inl PyKeyError, c)"
    and "features c (fst ch) \<noteq> None \<Longrightarrow> \<not> due c boundary ch \<Longrightarrow> apply_loop boundary ap (queue c) i as rs c
      = apply_loop boundary ap (queue c) (Suc i) as (rs @ [ch]) c"
    and "due c boundary ch \<Longrightarrow> ap (fst ch) (snd ch) c = Some (Inl e, c1)
      \<Longrightarrow> apply_loop boundary ap (queue c) i as rs c = Some (Inl e, c1)"
    and "due c boundary ch \<Longrightarrow> ap (fst ch) (snd ch) c = Some (Inr u, c1)
      \<Longrightarrow> apply_loop boundary ap (queue c) i as rs c = apply_loop boundary ap (queue c) (Suc i) (as @ [ch]) rs
        (c1\<lparr>feature_state := (feature_state c1)(fst ch \<mapsto> snd ch)\<rparr>)"
  using assms apply_loop.simps [of boundary ap "queue c" i as rs c]
  by (auto simp: pending_def due_def Let_def split: option.splits)

text \<open>What the loop, begun at index \<open>i\<close>, comes to.\<close>

definition loop_result :: "(string \<Rightarrow> 'v \<Rightarrow> ('v, 'w, unit) feature_run) \<Rightarrow> string \<Rightarrow> nat
    \<Rightarrow> 'v change list \<Rightarrow> 'v change list \<Rightarrow> ('v, 'w) controller \<Rightarrow> bool" where
  "loop_result ap boundary i as rs c \<longleftrightarrow> (\<exists>r c' more. apply_loop boundary ap (queue c) i as rs c = Some (r, c')
     \<and> queue c' = queue c \<and> features c' = features c \<and> pending c' = pending c @ more
     \<and> sorted_out ap boundary c as rs (drop i (pending c')) r c')"

lemma drop_at: "i < length xs \<Longrightarrow> drop i (xs @ ys) = xs ! i # drop (Suc i) (xs @ ys)"
  by (simp add: Cons_nth_drop_Suc [symmetric])

lemma loop_result_stops:
  assumes "i < length (pending c)" "pending c ! i = ch" "apply_loop boundary ap (queue c) i as rs c = Some (Inl e, c1)"
    and "queue c1 = queue c" "features c1 = features c" "feature_state c1 = feature_state c"
    and "pending c1 = pending c @ new" "fails_at ap c e ch"
  shows "loop_result ap boundary i as rs c"
  unfolding loop_result_def using assms drop_at [OF assms(1), of new]
  by (intro exI [of _ "Inl e"] exI [of _ c1] exI [of _ new]) (auto intro!: sorted_out_stop [of _ "[]"])

lemma loop_result_retain:
  assumes "i < length (pending c)" "pending c ! i = ch" "features c (fst ch) \<noteq> None" "\<not> due c boundary ch"
    and "loop_result ap boundary (Suc i) as (rs @ [ch]) c"
  shows "loop_result ap boundary i as rs c"
proof -
  note D = drop_at [OF assms(1), unfolded assms(2)]
  show ?thesis
    using assms(5) sorted_out_retain [OF _ assms(4), of ap as rs] unfolding loop_result_def apply_loop_rounds(2) [OF assms(1-4)]
    by (metis D)
qed

lemma loop_result_apply:
  assumes "queue c < length (queues c)" "i < length (pending c)" "pending c ! i = ch" "due c boundary ch"
    and "ap (fst ch) (snd ch) c = Some (Inr u, queued new w c)"
    and "loop_result ap boundary (Suc i) (as @ [ch]) rs ((queued new w c)\<lparr>feature_state := (feature_state c)(fst ch \<mapsto> snd ch)\<rparr>)"
  shows "loop_result ap boundary i as rs c"
proof -
  let ?c = "(queued new w c)\<lparr>feature_state := (feature_state c)(fst ch \<mapsto> snd ch)\<rparr>"
  obtain r c' more where R: "apply_loop boundary ap (queue c) (Suc i) (as @ [ch]) rs ?c = Some (r, c')"
      "queue c' = queue c" "features c' = features c" "pending c' = pending c @ new @ more"
      "sorted_out ap boundary ?c (as @ [ch]) rs (drop (Suc i) (pending c')) r c'"
    using assms(1,6) by (auto simp: loop_result_def)
  have "apply_loop boundary ap (queue c) i as rs c = Some (r, c')"
    using apply_loop_rounds(4) [where ap = ap, OF assms(2-5)] R(1) by simp
  moreover have "sorted_out ap boundary c as rs (drop i (pending c')) r c'"
    using sorted_out_apply [OF R(5) assms(4)] drop_at [OF assms(2), unfolded assms(3), of "new @ more"] R(4) by simp
  ultimately show ?thesis
    using R(2-4) by (auto simp: loop_result_def)
qed

lemma apply_loop_result:
  assumes "queueing budget ap" "queue c < length (queues c)" "i \<le> length (pending c)"
  shows "loop_result ap boundary i as rs c"
  using assms(2,3)
proof (induction "length (pending c) - i + budget (surroundings c)" arbitrary: i c as rs rule: less_induct)
  case less
  show ?case
  proof (cases "i = length (pending c)")
    case True
    then have "apply_loop boundary ap (queue c) i as rs c = Some (Inr (as, rs), c)"
      by (subst apply_loop.simps) (simp add: pending_def)
    then show ?thesis
      using True by (auto simp: loop_result_def sorted_out_def intro: exI [of _ "[]"])
  next
    case False
    define ch where "ch = pending c ! i"
    have i: "i < length (pending c)" "pending c ! i = ch" using False less.prems by (simp_all add: ch_def)
    consider "features c (fst ch) = None" | "features c (fst ch) \<noteq> None" "\<not> due c boundary ch" | "due c boundary ch"
      by (auto simp: due_def)
    then show ?thesis
    proof cases
      case 1
      show ?thesis
        by (rule loop_result_stops [OF i apply_loop_rounds(1) [OF i 1]]) (use 1 in \<open>auto simp: fails_at_def\<close>)
    next
      case 2
      show ?thesis by (rule loop_result_retain [OF i 2], rule less.hyps) (use i less.prems in auto)
    next
      case 3
      obtain r new w where ap: "ap (fst ch) (snd ch) c = Some (r, queued new w c)" "length new + budget w \<le> budget (surroundings c)"
        by (rule queueingE [OF assms(1)])
      show ?thesis
      proof (cases r)
        case (Inl e)
        note stop = apply_loop_rounds(3) [where ap = ap, OF i 3 ap(1) [unfolded Inl]]
        show ?thesis
          by (rule loop_result_stops [OF i stop]) (use less.prems ap(1) Inl in \<open>auto simp: fails_at_def\<close>)
      next
        case (Inr u)
        show ?thesis
          by (rule loop_result_apply [where ap = ap, OF less.prems(1) i 3 ap(1) [unfolded Inr]], rule less.hyps) (use less.prems i ap(2) in auto)
      qed
    qed
  qed
qed


text \<open>
  A feature applied at frames, one applied at ticks, and three pending changes; the callback queues
  another change the first time it runs (the surroundings count what it may still queue).
\<close>

definition demo_features :: "(int, nat) controller" where
  "demo_features = projr (FeatureController
     [\<lparr>feature_id = ''a'', category = BEHAVIORAL, replay_channel = ''ch'',
       safe_boundaries = {''frame''}, default_value = 0\<rparr>,
      \<lparr>feature_id = ''b'', category = PRESENTATION, replay_channel = '''',
       safe_boundaries = {''tick''}, default_value = 0\<rparr>] 1)\<lparr>queues := [[(''a'', 1), (''b'', 5), (''a'', 2)]]\<rparr>"

definition demo_callback :: "string \<Rightarrow> int \<Rightarrow> (int, nat, unit) feature_run" where
  "demo_callback fid v c = (if surroundings c = 0 then Some (Inr (), c)
     else Some (queue_change (''a'', 9) (c\<lparr>surroundings := surroundings c - 1\<rparr>)))"

lemma demo_queueing: "queueing (\<lambda>n. n) demo_callback"
  unfolding queueing_def
proof (intro allI)
  fix fid v and c :: "(int, nat) controller"
  show "\<exists>r new w. demo_callback fid v c = Some (r, queued new w c) \<and> length new + w \<le> surroundings c"
  proof (cases "surroundings c = 0")
    case True
    then show ?thesis
      by (intro exI [of _ "Inr ()"] exI [of _ "[]"] exI [of _ "0"]) (simp add: demo_callback_def queued_def pending_def)
  next
    case False
    then show ?thesis
      by (intro exI [of _ "Inr ()"] exI [of _ "[(''a'', 9)]"] exI [of _ "surroundings c - 1"])
        (simp add: demo_callback_def queue_change_def queued_def pending_def)
  qed
qed

lemma demo_run: "\<exists>c'. apply_pending ''frame'' demo_callback demo_features = Some (Inr [(''a'', 1), (''a'', 2), (''a'', 9)], c')"
  by (simp add: apply_pending_def apply_loop.simps demo_features_def FeatureController_def demo_callback_def
      queue_change_def pending_def Let_def)


section \<open>Live and replay\<close>

text \<open>
  replaying the payload of a live request on the feature's channel queues the same change: the
  controller ends in the same state as the live one (up to what the recorder did outside).
\<close>

theorem replay_is_request:
  assumes "request fid v ordinal rec c = (Inr p, c')" "features c fid = Some d"
    and "\<And>f o' ch q c c'. rec = Some f \<Longrightarrow> f o' ch q c = (Inr (), c') \<Longrightarrow> \<exists>w. c' = c\<lparr>surroundings := w\<rparr>"
  shows "accept_replay_event (replay_channel d) (Some p) c
    = (Inr (), c'\<lparr>surroundings := surroundings c\<rparr>)"
proof -
  let ?p = "\<lparr>schema = Some FEATURE_EVENT_SCHEMA, payload_feature = Some fid, payload_value = v\<rparr>"
  define noting where "noting = (if category d = BEHAVIORAL then
      (case rec of None \<Rightarrow> raise PyRuntimeError | Some f \<Rightarrow> f ordinal (replay_channel d) ?p)
    else (case rec of None \<Rightarrow> ret ()
      | Some f \<Rightarrow> if replay_channel d \<noteq> '''' then f ordinal (replay_channel d) ?p else ret ()))"
  have req: "request fid v ordinal rec c = thenM noting (thenM (queue_change (fid, v)) (ret ?p)) c"
    using assms(2) by (simp add: request_def descriptor_def noting_def Let_def)
  then obtain c1 where c1: "noting c = (Inr (), c1)"
    using assms(1) by (cases "noting c"; cases "fst (noting c)") auto
  have "\<exists>w. c1 = c\<lparr>surroundings := w\<rparr>"
  proof (cases "\<exists>f. rec = Some f \<and> noting = f ordinal (replay_channel d) ?p")
    case True
    then show ?thesis using assms(3) c1 by blast
  next
    case False
    then have "noting = ret () \<or> noting = raise PyRuntimeError"
      by (cases rec) (auto simp: noting_def)
    then show ?thesis using c1 by (auto intro: exI [of _ "surroundings c"])
  qed
  then obtain w where "c1 = c\<lparr>surroundings := w\<rparr>" ..
  then have "p = ?p \<and> c' = c\<lparr>queues := (queues c)[queue c := pending c @ [(fid, v)]], surroundings := w\<rparr>"
    using assms(1) req c1 by (auto simp: queue_change_def pending_def)
  then show ?thesis
    using assms(2) by (simp add: accept_replay_event_def descriptor_def queue_change_def pending_def)
qed

theorem replay_is_request_witness:
  "\<exists>c'. request ''a'' 3 7 (Some (\<lambda>_ _ _. ret ())) demo_features
      = (Inr \<lparr>schema = Some FEATURE_EVENT_SCHEMA, payload_feature = Some ''a'', payload_value = 3\<rparr>, c')
    \<and> accept_replay_event ''ch'' (Some \<lparr>schema = Some FEATURE_EVENT_SCHEMA,
        payload_feature = Some ''a'', payload_value = 3\<rparr>) demo_features = (Inr (), c')"
proof -
  let ?p = "\<lparr>schema = Some FEATURE_EVENT_SCHEMA, payload_feature = Some ''a'', payload_value = 3 :: int\<rparr>"
  let ?rec = "Some (\<lambda>_ _ _. ret ()) :: (int \<Rightarrow> string \<Rightarrow> int payload \<Rightarrow> (int, nat, unit) feature_op) option"
  let ?c = "demo_features\<lparr>queues := (queues demo_features)[queue demo_features := pending demo_features @ [(''a'', 3)]]\<rparr>"
  obtain d where d: "features demo_features ''a'' = Some d" "replay_channel d = ''ch''"
    by (simp add: demo_features_def FeatureController_def)
  have r: "request ''a'' 3 7 ?rec demo_features = (Inr ?p, ?c)"
    using d by (simp add: request_def descriptor_def queue_change_def pending_def Let_def)
  have "\<exists>w. c' = c\<lparr>surroundings := w\<rparr>" if "?rec = Some f" "f o' ch q c = (Inr (), c')"
    for f o' ch q and c c' :: "(int, nat) controller"
    using that by (auto intro: exI [of _ "surroundings c"])
  from replay_is_request [OF r d(1) this] show ?thesis using r d(2) by simp
qed

text \<open>
  a change that was applied before the callback of a later one raises stays in the queue: the
  next boundary applies it again.
\<close>

theorem apply_pending_reapplies:
  "\<exists>c1 c2. apply_pending ''frame'' (\<lambda>_ v c. if v = 2 then Some (Inl PyValueError, c) else Some (Inr (), c)) demo_features
      = Some (Inl PyValueError, c1) \<and> feature_state c1 ''a'' = Some 1
    \<and> apply_pending ''frame'' (\<lambda>_ _ c. Some (Inr (), c)) c1 = Some (Inr [(''a'', 1), (''a'', 2)], c2)"
  by (simp add: apply_pending_def apply_loop.simps demo_features_def FeatureController_def Let_def)

text \<open>
  a callback that applies changes itself: the outer loop goes on over the list it began with and
  applies the same changes again, and what the callback queued after that is lost, since it went to
  the list the inner call left behind.
\<close>

definition nesting_callback :: "string \<Rightarrow> int \<Rightarrow> (int, nat, unit) feature_run" where
  "nesting_callback fid v c = (if surroundings c = 0 then Some (Inr (), c)
     else Option.bind (apply_pending ''frame'' (\<lambda>_ _ d. Some (Inr (), d)) (c\<lparr>surroundings := 0\<rparr>))
       (\<lambda>(r, c'). Some (queue_change (''a'', 9) c')))"

theorem nested_apply_loses_change:
  "\<exists>c'. apply_pending ''frame'' nesting_callback demo_features = Some (Inr [(''a'', 1), (''a'', 2)], c')
    \<and> pending c' = [(''b'', 5)] \<and> feature_state c' ''a'' = Some 2"
  by (simp add: apply_pending_def apply_loop.simps demo_features_def FeatureController_def nesting_callback_def
      queue_change_def pending_def Let_def)

end
