(* ===== verification/Mz.thy ===== *)
theory Mz
  imports Mem_Bulk
begin

text \<open>
  \<open>dos_re/mz.py\<close>: the parser of DOS MZ executables, and the loader of \<open>dos_re/memory.py\<close>
  (\<open>create_psp\<close>, \<open>load_mz_program\<close>).  The file is its byte list; \<open>struct.unpack\<close> is written out.
  Slices with a negative bound, which a damaged header can produce, count from the end as in
  Python.
\<close>

section \<open>Definitions\<close>

record Relocation =
  rel_offset :: int
  rel_segment :: int

record MZHeader =
  last_page_bytes :: int
  pages :: int
  relocation_count :: int
  header_paragraphs :: int
  min_extra_paragraphs :: int
  max_extra_paragraphs :: int
  h_ss :: int
  h_sp :: int
  checksum :: int
  h_ip :: int
  h_cs :: int
  relocation_table_offset :: int
  overlay_number :: int

record MZExecutable =
  header :: MZHeader
  load_module :: bytes
  relocations :: "Relocation list"
  overlay :: bytes

definition exe_image_size :: "MZHeader \<Rightarrow> int" where
  "exe_image_size h =
     (let size = pages h * 512 in
      if last_page_bytes h \<noteq> 0 then size - (512 - last_page_bytes h) else size)"

definition header_size :: "MZHeader \<Rightarrow> int" where
  "header_size h = header_paragraphs h * 16"

definition entry_cs_ip :: "MZExecutable \<Rightarrow> int \<times> int" where
  "entry_cs_ip x = (h_cs (header x), h_ip (header x))"

definition stack_ss_sp :: "MZExecutable \<Rightarrow> int \<times> int" where
  "stack_ss_sp x = (h_ss (header x), h_sp (header x))"

text \<open>A Python slice bound, and \<open>data[i:j]\<close> with bounds of either sign.\<close>

definition slice_bound :: "int \<Rightarrow> int \<Rightarrow> int" where
  "slice_bound n i = (if i < 0 then max 0 (n + i) else min i n)"

definition data_slice :: "bytes \<Rightarrow> int \<Rightarrow> int \<Rightarrow> bytes" where
  "data_slice data i j =
     (let n = int (length data) in py_slice data (slice_bound n i) (slice_bound n j))"

text \<open>The little-endian word at \<open>off\<close>, inside the data.\<close>

definition word_at :: "bytes \<Rightarrow> int \<Rightarrow> int" where
  "word_at data off = uint (data ! nat off) + 256 * uint (data ! (nat off + 1))"

definition unpack_header :: "bytes \<Rightarrow> MZHeader" where
  "unpack_header data =
     (let w = (\<lambda>i. word_at data (2 * i)) in
      \<lparr>last_page_bytes = w 1, pages = w 2, relocation_count = w 3, header_paragraphs = w 4,
       min_extra_paragraphs = w 5, max_extra_paragraphs = w 6, h_ss = w 7, h_sp = w 8,
       checksum = w 9, h_ip = w 10, h_cs = w 11, relocation_table_offset = w 12,
       overlay_number = w 13\<rparr>)"

primrec parse_relocations :: "bytes \<Rightarrow> int \<Rightarrow> nat \<Rightarrow> exn + Relocation list" where
  "parse_relocations data off 0 = Inr []"
| "parse_relocations data off (Suc n) =
     (if off + 4 > int (length data) then Inl PyValueError
      else case parse_relocations data (off + 4) n of
          Inl e \<Rightarrow> Inl e
        | Inr rs \<Rightarrow> Inr (\<lparr>rel_offset = word_at data off, rel_segment = word_at data (off + 2)\<rparr> # rs))"

definition parse_mz :: "bytes \<Rightarrow> exn + MZExecutable" where
  "parse_mz data =
     (if length data < 28 \<or> take 2 data \<noteq> [0x4D, 0x5A] then Inl PyValueError
      else let h = unpack_header data in
        if header_size h > int (length data) then Inl PyValueError
        else let image_size = min (exe_image_size h) (int (length data)) in
          case parse_relocations data (relocation_table_offset h) (nat (relocation_count h)) of
            Inl e \<Rightarrow> Inl e
          | Inr relocs \<Rightarrow> Inr \<lparr>header = h,
              load_module = data_slice data (header_size h) image_size,
              relocations = relocs,
              overlay = data_slice data image_size (int (length data))\<rparr>)"

record LoadedProgram =
  exe :: MZExecutable
  memory :: memory
  psp_segment :: int
  load_segment :: int
  entry_cs :: int
  entry_ip :: int
  initial_ss :: int
  initial_sp :: int
  program_overlay :: bytes

definition create_psp :: "int \<Rightarrow> bytes \<Rightarrow> unit mem_op" where
  "create_psp psp tail = seqM [wb psp 0x00 0xCD, wb psp 0x01 0x20, ww psp 0x02 0x9FFF,
     wb psp 0x80 (min (int (length tail)) 126), load psp 0x81 (take 126 tail @ [0x0D])]"

definition apply_relocation :: "int \<Rightarrow> Relocation \<Rightarrow> unit mem_op" where
  "apply_relocation load_seg r =
     bindM (rw (load_seg + rel_segment r) (rel_offset r)) (\<lambda>value.
       ww (load_seg + rel_segment r) (rel_offset r) ((value + load_seg) AND 0xFFFF))"

definition load_mz_program :: "bytes \<Rightarrow> int \<Rightarrow> bytes \<Rightarrow> exn + LoadedProgram" where
  "load_mz_program file psp tail =
     (case parse_mz file of Inl e \<Rightarrow> Inl e
      | Inr x \<Rightarrow>
          (let load_seg = (psp + 0x10) AND 0xFFFF in
           case seqM (create_psp psp tail # load load_seg 0 (load_module x)
                      # map (apply_relocation load_seg) (relocations x)) (memory_new MEM_SIZE None) of
             (Inl e, _) \<Rightarrow> Inl e
           | (Inr _, m) \<Rightarrow> Inr \<lparr>exe = x, memory = m, psp_segment = psp, load_segment = load_seg,
               entry_cs = (load_seg + h_cs (header x)) AND 0xFFFF, entry_ip = h_ip (header x),
               initial_ss = (load_seg + h_ss (header x)) AND 0xFFFF,
               initial_sp = h_sp (header x), program_overlay = overlay x\<rparr>))"

section \<open>Writing a file and parsing it back\<close>

definition le16 :: "int \<Rightarrow> bytes" where
  "le16 v = [word_of_int v, word_of_int (drop_bit 8 v)]"

definition header_words :: "MZHeader \<Rightarrow> int list" where
  "header_words h = [last_page_bytes h, pages h, relocation_count h, header_paragraphs h,
     min_extra_paragraphs h, max_extra_paragraphs h, h_ss h, h_sp h, checksum h, h_ip h, h_cs h,
     relocation_table_offset h, overlay_number h]"

definition header_bytes :: "MZHeader \<Rightarrow> bytes" where
  "header_bytes h = [0x4D, 0x5A] @ concat (map le16 (header_words h))"

definition relocation_bytes :: "Relocation list \<Rightarrow> bytes" where
  "relocation_bytes rs = concat (map (\<lambda>r. le16 (rel_offset r) @ le16 (rel_segment r)) rs)"

text \<open>The table right behind the 28-byte header, zeros up to the header's end, then the image.\<close>

definition write_mz :: "MZExecutable \<Rightarrow> bytes" where
  "write_mz x = (let t = header_bytes (header x) @ relocation_bytes (relocations x) in
     t @ replicate (nat (header_size (header x)) - length t) 0 @ load_module x @ overlay x)"

definition writable :: "MZExecutable \<Rightarrow> bool" where
  "writable x \<longleftrightarrow> list_all u16 (header_words (header x))
     \<and> list_all (\<lambda>r. u16 (rel_offset r) \<and> u16 (rel_segment r)) (relocations x)
     \<and> relocation_count (header x) = int (length (relocations x))
     \<and> relocation_table_offset (header x) = 28
     \<and> header_size (header x) \<ge> 28 + 4 * int (length (relocations x))
     \<and> exe_image_size (header x) = header_size (header x) + int (length (load_module x))"

lemma le16_length [simp]: "length (le16 v) = 2"
  by (simp add: le16_def)

lemma split_word: "0 \<le> v \<Longrightarrow> v < 65536 \<Longrightarrow> v mod 256 + 256 * (v div 256 mod 256) = (v :: int)"
  using mod_pos_pos_trivial [of "v div 256" 256] mult_div_mod_eq [of 256 v] by simp

lemma word_at_le16:
  assumes "u16 v" "off = int (length pre)"
  shows "word_at (pre @ le16 v @ post) off = v"
  using assms by (simp add: word_at_def le16_def nth_append u16_def mask_simps split_word)

lemma header_bytes_length: "length (header_bytes h) = 28"
  by (simp add: header_bytes_def header_words_def)

lemma relocation_bytes_length: "length (relocation_bytes rs) = 4 * length rs"
  by (induction rs) (simp_all add: relocation_bytes_def)

lemma unpack_header_bytes:
  assumes "list_all u16 (header_words h)"
  shows "unpack_header (header_bytes h @ post) = h"
  using assms
  by (cases h) (simp add: unpack_header_def header_bytes_def header_words_def word_at_def le16_def
      u16_def mask_simps Let_def split_word)

lemma parse_relocation_bytes:
  assumes "list_all (\<lambda>r. u16 (rel_offset r) \<and> u16 (rel_segment r)) rs" "off = int (length pre)"
  shows "parse_relocations (pre @ relocation_bytes rs @ post) off (length rs) = Inr rs"
  using assms
proof (induction rs arbitrary: pre off)
  case Nil
  then show ?case by simp
next
  case (Cons r rs)
  let ?d = "pre @ relocation_bytes (r # rs) @ post"
  have split: "?d = (pre @ le16 (rel_offset r) @ le16 (rel_segment r)) @ relocation_bytes rs @ post"
    by (simp add: relocation_bytes_def)
  have "parse_relocations ?d (off + 4) (length rs) = Inr rs"
    unfolding split using Cons.prems by (intro Cons.IH) auto
  moreover have "word_at ?d off = rel_offset r"
    using word_at_le16 [of "rel_offset r" off pre "le16 (rel_segment r) @ relocation_bytes rs @ post"]
      Cons.prems by (simp add: relocation_bytes_def)
  moreover have "word_at ?d (off + 2) = rel_segment r"
    using word_at_le16 [of "rel_segment r" "off + 2" "pre @ le16 (rel_offset r)"
        "relocation_bytes rs @ post"] Cons.prems by (simp add: relocation_bytes_def)
  moreover have "\<not> off + 4 > int (length ?d)"
    using Cons.prems by (simp add: relocation_bytes_length)
  ultimately show ?case by simp
qed

lemma data_slice_nat:
  "data_slice data (int i) (int j) = take (min j (length data) - i) (drop i data)"
  by (simp add: data_slice_def slice_bound_def py_slice_def Let_def min_def)

text \<open>
  C39: parsing a well-formed MZ file gives back its header, load module, relocations and overlay.
\<close>

theorem parse_write_mz:
  assumes "writable x"
  shows "parse_mz (write_mz x) = Inr x"
proof -
  let ?h = "header x" and ?rs = "relocations x"
  let ?t = "header_bytes ?h @ relocation_bytes ?rs"
  define pad where "pad = replicate (nat (header_size ?h) - length ?t) (0 :: 8 word)"
  have bytes: "write_mz x = ?t @ pad @ load_module x @ overlay x"
    by (simp add: write_mz_def pad_def Let_def)
  have lt: "length ?t = 28 + 4 * length ?rs"
    by (simp add: header_bytes_length relocation_bytes_length)
  have hs: "int (length (?t @ pad)) = header_size ?h"
  proof -
    have "28 + 4 * int (length ?rs) \<le> header_size ?h" using assms by (simp add: writable_def)
    moreover from this have "28 + 4 * length ?rs \<le> nat (header_size ?h)" by linarith
    ultimately show ?thesis
      by (simp add: pad_def header_bytes_length relocation_bytes_length of_nat_diff)
  qed
  have U: "unpack_header (write_mz x) = ?h"
    unfolding bytes append_assoc using assms
    by (intro unpack_header_bytes) (simp add: writable_def)
  have R: "parse_relocations (write_mz x) 28 (length ?rs) = Inr ?rs"
    unfolding bytes append_assoc using assms
    by (intro parse_relocation_bytes) (simp_all add: writable_def header_bytes_length)
  have len: "int (length (write_mz x))
      = header_size ?h + int (length (load_module x)) + int (length (overlay x))"
    using hs by (simp add: bytes)
  have img: "min (exe_image_size ?h) (int (length (write_mz x)))
      = int (length (?t @ pad) + length (load_module x))"
    using assms hs len by (simp add: writable_def)
  have D: "data_slice (write_mz x) (header_size ?h) (int (length (?t @ pad) + length (load_module x)))
      = load_module x"
    "data_slice (write_mz x) (int (length (?t @ pad) + length (load_module x)))
       (int (length (write_mz x))) = overlay x"
    unfolding hs [symmetric] data_slice_nat by (simp_all add: bytes)
  have "take 2 (write_mz x) = [0x4D, 0x5A]" "\<not> length (write_mz x) < 28"
    using lt by (simp_all add: bytes header_bytes_def)
  moreover have "\<not> header_size ?h > int (length (write_mz x))" using len by simp
  ultimately show ?thesis
    using R U D img assms by (simp add: parse_mz_def Let_def writable_def)
qed

definition demo_exe :: MZExecutable where
  "demo_exe = \<lparr>header = \<lparr>last_page_bytes = 50, pages = 1, relocation_count = 1,
      header_paragraphs = 3, min_extra_paragraphs = 0, max_extra_paragraphs = 0xFFFF, h_ss = 0,
      h_sp = 0x100, checksum = 0, h_ip = 0, h_cs = 0, relocation_table_offset = 28,
      overlay_number = 0\<rparr>,
    load_module = [0x34, 0x12], relocations = [\<lparr>rel_offset = 0, rel_segment = 0\<rparr>],
    overlay = [0xAA]\<rparr>"

theorem parse_write_mz_witness: "parse_mz (write_mz demo_exe) = Inr demo_exe"
  by (rule parse_write_mz)
     (simp add: writable_def demo_exe_def header_words_def u16_def header_size_def
        exe_image_size_def)

end
