(* ===== verification/Sblaster.thy ===== *)
theory Sblaster
  imports Doubles
begin

text \<open>
  \<open>dos_re/sblaster.py\<close>: the Sound Blaster with its DMA channels: the command state machine of the
  DSP, block transfers over a ring in memory, the block-complete interrupt and the saved state.

  What the card is wired to (\<open>raise_irq\<close>, \<open>read_mem\<close>, \<open>write_mem\<close>, \<open>clock\<close>) is a record of functions on
  the state \<open>'w\<close> of the machine around it; times are doubles, with the arithmetic of \<open>float_ops\<close>.
\<close>

section \<open>State\<close>

record DmaChannel =
  dma_page :: int
  base_addr :: int
  base_count :: int
  cur_addr :: int
  cur_count :: int
  dma_mode :: int
  masked :: bool
  flipflop_high :: bool

definition DmaChannel_new :: DmaChannel where
  "DmaChannel_new = \<lparr>dma_page = 0, base_addr = 0, base_count = 0, cur_addr = 0, cur_count = 0,
     dma_mode = 0, masked = True, flipflop_high = False\<rparr>"

datatype sb_event =
    SbReset
  | SbCommand int "int list"
  | DmaStub int bool int
  | DmaStart int bool int bool bool

record sound_blaster_state =
  sb_base :: int
  sb_irq :: int
  sb_dma :: int
  detection_only :: bool
  detect_irq_limit :: int
  dma_requests :: int
  channels :: "DmaChannel list"
  speaker_on :: bool
  time_constant :: int
  sample_rate :: int
  block_len :: int
  dsp_out :: "int list"
  resetting :: bool
  args_needed :: nat
  dsp_cmd :: int
  dsp_args :: "int list"
  irq_line :: bool
  sb_log :: "sb_event list"
  auto_init :: bool
  dma_active :: bool
  pcm_out :: "int list"
  anchor_cadence :: bool
  block_due :: f64
  block_pending :: bool
  block_remaining :: f64
  dma_tc :: int

definition SoundBlaster :: "int \<Rightarrow> int \<Rightarrow> int \<Rightarrow> bool \<Rightarrow> sound_blaster_state" where
  "SoundBlaster b i d detection = \<lparr>sb_base = b, sb_irq = i, sb_dma = d, detection_only = detection,
     detect_irq_limit = 1, dma_requests = 0, channels = replicate 4 DmaChannel_new,
     speaker_on = False, time_constant = 0, sample_rate = 0, block_len = 0, dsp_out = [],
     resetting = False, args_needed = 0, dsp_cmd = 0, dsp_args = [], irq_line = False, sb_log = [],
     auto_init = False, dma_active = False, pcm_out = [], anchor_cadence = False,
     block_due = f_zero, block_pending = False, block_remaining = f_zero, dma_tc = 0\<rparr>"

record 'w sb_host =
  raise_irq_line :: "(int \<Rightarrow> ('w, unit) meth) option"
  read_mem :: "(int \<Rightarrow> ('w, int) meth) option"
  write_mem :: "(int \<Rightarrow> int \<Rightarrow> ('w, unit) meth) option"
  sb_clock :: "('w \<Rightarrow> f64) option"
  sb_floats :: float_ops

type_synonym ('w, 'a) card_op = "(sound_blaster_state \<times> 'w, 'a) meth"

definition get_card :: "(sound_blaster_state \<Rightarrow> 'a) \<Rightarrow> ('w, 'a) card_op" where
  "get_card f = getM (\<lambda>(s, w). f s)"

definition upd_card :: "(sound_blaster_state \<Rightarrow> sound_blaster_state) \<Rightarrow> ('w, unit) card_op" where
  "upd_card f = putM (\<lambda>(s, w). (f s, w))"

definition on_host :: "('w, 'a) meth \<Rightarrow> ('w, 'a) card_op" where
  "on_host m = (\<lambda>(s, w). case m w of (r, w') \<Rightarrow> (r, (s, w')))"

definition upd_channel :: "nat \<Rightarrow> (DmaChannel \<Rightarrow> DmaChannel) \<Rightarrow> sound_blaster_state \<Rightarrow> sound_blaster_state" where
  "upd_channel k f s = s\<lparr>channels := (channels s)[k := f (channels s ! k)]\<rparr>"

section \<open>The DMA controller\<close>

definition write_half :: "bool \<Rightarrow> int \<Rightarrow> int \<Rightarrow> int" where
  "write_half high old v = (if high then (old AND 0x00FF) OR push_bit 8 v else (old AND 0xFF00) OR v)"

definition write_addr :: "int \<Rightarrow> DmaChannel \<Rightarrow> DmaChannel" where
  "write_addr v ch = (let a = write_half (flipflop_high ch) (base_addr ch) v in
     ch\<lparr>base_addr := a, flipflop_high := \<not> flipflop_high ch, cur_addr := a\<rparr>)"

definition write_count :: "int \<Rightarrow> DmaChannel \<Rightarrow> DmaChannel" where
  "write_count v ch = (let a = write_half (flipflop_high ch) (base_count ch) v in
     ch\<lparr>base_count := a, flipflop_high := \<not> flipflop_high ch, cur_count := a\<rparr>)"

definition physical :: "DmaChannel \<Rightarrow> int" where
  "physical ch = (push_bit 16 (dma_page ch) OR cur_addr ch) AND 0xFFFFF"

text \<open>
  The attribute the read toggles, \<open>flipflop_high\<close>, does not exist (the field is \<open>_flipflop_high\<close>), so
  the first evaluation of \<open>not ch.flipflop_high\<close> raises.
\<close>

definition sb_dma_controller_read :: "int \<Rightarrow> ('w, int) card_op" where
  "sb_dma_controller_read port =
     (if port = 0x08 then
        bindM (get_card (\<lambda>s. dma_tc s AND 0x0F)) (\<lambda>v. thenM (upd_card (\<lambda>s. s\<lparr>dma_tc := 0\<rparr>)) (ret v))
      else raise PyAttributeError)"

definition sb_dma_controller_write :: "int \<Rightarrow> int \<Rightarrow> ('w, unit) card_op" where
  "sb_dma_controller_write port v =
     (let v = v AND 0xFF in
      if port \<le> 0x07 then
        upd_card (upd_channel (nat (drop_bit 1 port)) (if port AND 1 = 0 then write_addr v else write_count v))
      else if port = 0x0A then upd_card (upd_channel (nat (v AND 3)) (\<lambda>ch. ch\<lparr>masked := (v AND 4 \<noteq> 0)\<rparr>))
      else if port = 0x0B then upd_card (upd_channel (nat (v AND 3)) (\<lambda>ch. ch\<lparr>dma_mode := v\<rparr>))
      else if port = 0x0C then upd_card (\<lambda>s. s\<lparr>channels := map (\<lambda>ch. ch\<lparr>flipflop_high := False\<rparr>) (channels s)\<rparr>)
      else ret ())"

definition PAGE_PORT_TO_CH :: "(int \<times> nat) list" where
  "PAGE_PORT_TO_CH = [(0x87, 0), (0x83, 1), (0x81, 2), (0x82, 3)]"

definition sb_page_write :: "int \<Rightarrow> int \<Rightarrow> ('w, unit) card_op" where
  "sb_page_write port v = (case map_of PAGE_PORT_TO_CH port of None \<Rightarrow> ret ()
     | Some k \<Rightarrow> upd_card (upd_channel k (\<lambda>ch. ch\<lparr>dma_page := v AND 0xFF\<rparr>)))"

section \<open>Block transfers\<close>

definition fire_irq :: "'w sb_host \<Rightarrow> ('w, unit) card_op" where
  "fire_irq H = thenM (upd_card (\<lambda>s. s\<lparr>irq_line := True\<rparr>))
     (case raise_irq_line H of None \<Rightarrow> ret ()
      | Some r \<Rightarrow> bindM (get_card sb_irq) (\<lambda>i. on_host (r i)))"

definition buf_size :: "DmaChannel \<Rightarrow> int" where
  "buf_size ch = max 1 (base_count ch + 1)"

definition resync :: "DmaChannel \<Rightarrow> DmaChannel" where
  "resync ch = (if base_addr ch \<le> cur_addr ch \<and> cur_addr ch < base_addr ch + buf_size ch then ch
     else ch\<lparr>cur_addr := base_addr ch\<rparr>)"

definition ring :: "DmaChannel \<Rightarrow> int \<Rightarrow> int" where
  "ring ch i = (push_bit 16 (dma_page ch)
      OR (base_addr ch + (cur_addr ch - base_addr ch + i) mod buf_size ch)) AND 0xFFFFFF"

definition transfer :: "'w sb_host \<Rightarrow> DmaChannel \<Rightarrow> int \<Rightarrow> bool \<Rightarrow> bool \<Rightarrow> ('w, unit) card_op" where
  "transfer H ch len input silence =
     (if input then
        (case write_mem H of None \<Rightarrow> ret ()
         | Some w \<Rightarrow> seqM (map (\<lambda>i. on_host (w (ring ch i) 0x80)) [0..len - 1]))
      else if \<not> silence then
        (case read_mem H of None \<Rightarrow> ret ()
         | Some r \<Rightarrow> bindM (mapM (\<lambda>i. on_host (r (ring ch i))) [0..len - 1]) (\<lambda>bs.
             upd_card (\<lambda>s. s\<lparr>pcm_out := pcm_out s @ bs\<rparr>)))
      else ret ())"

definition advance_cursor :: "int \<Rightarrow> DmaChannel \<Rightarrow> DmaChannel" where
  "advance_cursor len ch =
     ch\<lparr>cur_addr := (if dma_mode ch AND 0x10 \<noteq> 0
          then base_addr ch + (cur_addr ch - base_addr ch + len) mod buf_size ch
          else (base_addr ch + len) AND 0xFFFF),
        cur_count := 0xFFFF\<rparr>"

definition MAX_BLOCK_CATCHUP :: f64 where "MAX_BLOCK_CATCHUP = 0x3FE0000000000000"

definition sb_rate :: "sound_blaster_state \<Rightarrow> int" where
  "sb_rate s = (if sample_rate s \<noteq> 0 then sample_rate s else 8000)"

text \<open>When the block that starts \<open>now\<close> is due, for a block of \<open>period\<close> seconds.\<close>

definition next_due :: "float_ops \<Rightarrow> sound_blaster_state \<Rightarrow> f64 \<Rightarrow> f64 \<Rightarrow> f64" where
  "next_due fo s now period =
     (if anchor_cadence s then
        (let ideal = fo_add fo (block_due s) period in
         if f_iszero (block_due s) \<or> f_lt MAX_BLOCK_CATCHUP (fo_sub fo now ideal)
         then fo_add fo now period else ideal)
      else fo_add fo now period)"

definition pace_irq :: "'w sb_host \<Rightarrow> int \<Rightarrow> ('w, unit) card_op" where
  "pace_irq H len =
     (case sb_clock H of None \<Rightarrow> fire_irq H
      | Some t \<Rightarrow> bindM (getM (\<lambda>(s, w). (s, t w))) (\<lambda>(s, now).
          bindM (lift_exn (fo_int_div (sb_floats H) len (sb_rate s))) (\<lambda>period.
            upd_card (\<lambda>s. s\<lparr>block_due := next_due (sb_floats H) s now period, block_pending := True\<rparr>))))"

definition sb_channel :: "('w, DmaChannel) card_op" where
  "sb_channel = bindM (get_card (\<lambda>s. (sb_dma s, channels s))) (\<lambda>(k, chs).
     if 0 \<le> k \<and> k < int (length chs) then ret (chs ! nat k) else raise PyKeyError)"

definition start_dma :: "'w sb_host \<Rightarrow> int \<Rightarrow> bool \<Rightarrow> bool \<Rightarrow> bool \<Rightarrow> ('w, unit) card_op" where
  "start_dma H len auto input silence =
     thenM (upd_card (\<lambda>s. s\<lparr>auto_init := auto, dma_active := True, dma_requests := dma_requests s + 1\<rparr>))
     (bindM (get_card (\<lambda>s. s)) (\<lambda>s.
        if detection_only s then
          thenM (upd_card (\<lambda>s. s\<lparr>sb_log := sb_log s @ [DmaStub len auto (dma_requests s)]\<rparr>))
            (if dma_requests s \<le> detect_irq_limit s then fire_irq H else ret ())
        else bindM sb_channel (\<lambda>ch. let ch = resync ch; k = nat (sb_dma s) in
          thenM (upd_card (upd_channel k (\<lambda>_. ch)))
         (thenM (transfer H ch len input silence)
         (thenM (upd_card (upd_channel k (advance_cursor len)))
         (thenM (upd_card (\<lambda>s. s\<lparr>dma_tc := dma_tc s OR push_bit k 1,
             sb_log := sb_log s @ [DmaStart len auto (sample_rate s) input silence]\<rparr>))
            (pace_irq H len)))))))"

section \<open>The command state machine\<close>

definition DSP_CMD_ARGS :: "(int \<times> nat) list" where
  "DSP_CMD_ARGS = [(0x10, 1), (0x14, 2), (0x16, 2), (0x17, 2), (0x24, 2), (0x40, 1), (0x41, 2),
     (0x48, 2), (0x80, 2), (0xE0, 1), (0xE4, 1)]"

definition cmd_arity :: "int \<Rightarrow> nat" where
  "cmd_arity c = (case map_of DSP_CMD_ARGS c of None \<Rightarrow> 0 | Some n \<Rightarrow> n)"

text \<open>\<open>int(1_000_000 / n)\<close> for \<open>1 \<le> n \<le> 256\<close>: the quotient is at least \<open>1 / 256\<close> away from the next
  integer, far more than the rounding of a double, so it is the integer quotient.\<close>

definition exec_cmd :: "'w sb_host \<Rightarrow> int \<Rightarrow> int list \<Rightarrow> ('w, unit) card_op" where
  "exec_cmd H c args =
     thenM (upd_card (\<lambda>s. s\<lparr>sb_log := sb_log s @ [SbCommand c args]\<rparr>))
     (let a0 = args ! 0; a1 = args ! 1; size = (a0 OR push_bit 8 a1) + 1 in
      if c = 0xE1 then upd_card (\<lambda>s. s\<lparr>dsp_out := dsp_out s @ [0x02, 0x01]\<rparr>)
      else if c = 0xE0 then upd_card (\<lambda>s. s\<lparr>dsp_out := dsp_out s @ [NOT a0 AND 0xFF]\<rparr>)
      else if c = 0xE8 then upd_card (\<lambda>s. s\<lparr>dsp_out := dsp_out s @ [0x00]\<rparr>)
      else if c = 0xD1 then upd_card (\<lambda>s. s\<lparr>speaker_on := True\<rparr>)
      else if c = 0xD3 then upd_card (\<lambda>s. s\<lparr>speaker_on := False\<rparr>)
      else if c = 0x40 then upd_card (\<lambda>s. s\<lparr>time_constant := a0,
          sample_rate := (if a0 \<noteq> 256 then 1000000 div (256 - a0) else 0)\<rparr>)
      else if c = 0x41 then upd_card (\<lambda>s. s\<lparr>sample_rate := push_bit 8 a0 OR a1\<rparr>)
      else if c = 0x48 then upd_card (\<lambda>s. s\<lparr>block_len := a0 OR push_bit 8 a1\<rparr>)
      else if c = 0x14 then start_dma H size False False False
      else if c = 0x24 then start_dma H size False True False
      else if c = 0x80 then start_dma H size False False True
      else if c = 0x1C \<or> c = 0x90 then
        bindM (get_card block_len) (\<lambda>n. start_dma H (n + 1) True False False)
      else if c = 0xF2 then fire_irq H
      else ret ())"

definition feed :: "'w sb_host \<Rightarrow> int \<Rightarrow> ('w, unit) card_op" where
  "feed H v = bindM (get_card (\<lambda>s. s)) (\<lambda>s.
     if args_needed s \<noteq> 0 then
       thenM (upd_card (\<lambda>s. s\<lparr>dsp_args := dsp_args s @ [v], args_needed := args_needed s - 1\<rparr>))
         (if args_needed s = 1 then exec_cmd H (dsp_cmd s) (dsp_args s @ [v]) else ret ())
     else
       thenM (upd_card (\<lambda>s. s\<lparr>dsp_cmd := v, dsp_args := [], args_needed := cmd_arity v\<rparr>))
         (if cmd_arity v = 0 then exec_cmd H v [] else ret ()))"

section \<open>Ports\<close>

definition sb_owns_port :: "sound_blaster_state \<Rightarrow> int \<Rightarrow> bool" where
  "sb_owns_port s port \<longleftrightarrow> port AND NOT 0x000F = sb_base s"

definition sb_read :: "int \<Rightarrow> ('w, int) card_op" where
  "sb_read port = bindM (get_card (\<lambda>s. s)) (\<lambda>s. let off = port - sb_base s in
     if off = 0xA then
       (case dsp_out s of [] \<Rightarrow> ret 0
        | v # vs \<Rightarrow> thenM (upd_card (\<lambda>s. s\<lparr>dsp_out := vs\<rparr>)) (ret (v AND 0xFF)))
     else if off = 0xC then ret 0x7F
     else if off = 0xE then thenM (upd_card (\<lambda>s. s\<lparr>irq_line := False\<rparr>))
       (ret (if dsp_out s \<noteq> [] then 0x80 else 0x00))
     else ret 0xFF)"

definition sb_write :: "'w sb_host \<Rightarrow> int \<Rightarrow> int \<Rightarrow> ('w, unit) card_op" where
  "sb_write H port v = bindM (get_card (\<lambda>s. s)) (\<lambda>s. let off = port - sb_base s; v = v AND 0xFF in
     if off = 0x6 then
       (if v AND 1 \<noteq> 0 then upd_card (\<lambda>s. s\<lparr>resetting := True\<rparr>)
        else if resetting s then
          upd_card (\<lambda>s. s\<lparr>resetting := False, dsp_out := [0xAA], sb_log := sb_log s @ [SbReset]\<rparr>)
        else ret ())
     else if off = 0xC then feed H v
     else ret ())"

section \<open>Block timing\<close>

definition service :: "'w sb_host \<Rightarrow> ('w, unit) card_op" where
  "service H = bindM (getM (\<lambda>x. x)) (\<lambda>(s, w).
     case sb_clock H of None \<Rightarrow> ret ()
     | Some t \<Rightarrow> (if block_pending s \<and> (f_lt (block_due s) (t w) \<or> f_eq (block_due s) (t w))
         then thenM (upd_card (\<lambda>s. s\<lparr>block_pending := False\<rparr>)) (fire_irq H) else ret ()))"

definition resync_clock :: "'w sb_host \<Rightarrow> f64 \<Rightarrow> ('w, unit) card_op" where
  "resync_clock H now = bindM (get_card (\<lambda>s. s)) (\<lambda>s.
     if block_pending s then
       bindM (lift_exn (fo_int_div (sb_floats H) (if block_len s \<noteq> 0 then block_len s else 168) (sb_rate s)))
         (\<lambda>period. upd_card (\<lambda>s. s\<lparr>block_due := fo_add (sb_floats H) now period\<rparr>))
     else ret ())"

section \<open>Saved state\<close>

text \<open>The dictionary of \<open>snapshot_state\<close>; a key that is missing in an older one is \<open>None\<close>.\<close>

record channel_dict =
  cd_page :: "int option"
  cd_base_addr :: "int option"
  cd_base_count :: "int option"
  cd_cur_addr :: "int option"
  cd_cur_count :: "int option"
  cd_mode :: "int option"
  cd_masked :: "bool option"
  cd_flipflop_high :: "bool option"

record sb_dict =
  d_base :: "int option"
  d_irq :: "int option"
  d_dma :: "int option"
  d_detection_only :: "bool option"
  d_dma_requests :: "int option"
  d_speaker_on :: "bool option"
  d_time_constant :: "int option"
  d_sample_rate :: "int option"
  d_block_len :: "int option"
  d_auto_init :: "bool option"
  d_dma_active :: "bool option"
  d_irq_line :: "bool option"
  d_resetting :: "bool option"
  d_dma_tc :: "int option"
  d_args_needed :: "nat option"
  d_cmd :: "int option"
  d_args :: "int list option"
  d_out :: "int list option"
  d_block_pending :: "bool option"
  d_block_remaining :: "f64 option"
  d_channels :: "(nat \<times> channel_dict) list option"

definition get_or :: "'a option \<Rightarrow> 'a \<Rightarrow> 'a" where
  "get_or x d = (case x of None \<Rightarrow> d | Some y \<Rightarrow> y)"

definition channel_snapshot :: "DmaChannel \<Rightarrow> channel_dict" where
  "channel_snapshot ch = \<lparr>cd_page = Some (dma_page ch), cd_base_addr = Some (base_addr ch),
     cd_base_count = Some (base_count ch), cd_cur_addr = Some (cur_addr ch),
     cd_cur_count = Some (cur_count ch), cd_mode = Some (dma_mode ch), cd_masked = Some (masked ch),
     cd_flipflop_high = Some (flipflop_high ch)\<rparr>"

definition channel_restore :: "channel_dict \<Rightarrow> DmaChannel" where
  "channel_restore d = \<lparr>dma_page = get_or (cd_page d) 0, base_addr = get_or (cd_base_addr d) 0,
     base_count = get_or (cd_base_count d) 0, cur_addr = get_or (cd_cur_addr d) 0,
     cur_count = get_or (cd_cur_count d) 0, dma_mode = get_or (cd_mode d) 0,
     masked = get_or (cd_masked d) True, flipflop_high = get_or (cd_flipflop_high d) False\<rparr>"

definition f_max0 :: "f64 \<Rightarrow> f64" where
  "f_max0 x = (if f_lt f_zero x then x else f_zero)"

definition snapshot_state :: "'w sb_host \<Rightarrow> ('w, sb_dict) card_op" where
  "snapshot_state H = getM (\<lambda>(s, w). \<lparr>d_base = Some (sb_base s), d_irq = Some (sb_irq s),
     d_dma = Some (sb_dma s), d_detection_only = Some (detection_only s),
     d_dma_requests = Some (dma_requests s), d_speaker_on = Some (speaker_on s),
     d_time_constant = Some (time_constant s), d_sample_rate = Some (sample_rate s),
     d_block_len = Some (block_len s), d_auto_init = Some (auto_init s),
     d_dma_active = Some (dma_active s), d_irq_line = Some (irq_line s),
     d_resetting = Some (resetting s), d_dma_tc = Some (dma_tc s),
     d_args_needed = Some (args_needed s), d_cmd = Some (dsp_cmd s), d_args = Some (dsp_args s),
     d_out = Some (dsp_out s), d_block_pending = Some (block_pending s),
     d_block_remaining = Some (if block_pending s then
         (case sb_clock H of None \<Rightarrow> f_zero
          | Some t \<Rightarrow> f_max0 (fo_sub (sb_floats H) (block_due s) (t w))) else f_zero),
     d_channels = Some (map (\<lambda>(k, ch). (k, channel_snapshot ch)) (enumerate 0 (channels s)))\<rparr>)"

text \<open>\<open>self.channels[int(c)]\<close>: a channel the card does not have is a KeyError.\<close>

definition restore_channel :: "nat \<times> channel_dict \<Rightarrow> ('w, unit) card_op" where
  "restore_channel kd = bindM (get_card (\<lambda>s. length (channels s))) (\<lambda>n.
     if fst kd < n then upd_card (upd_channel (fst kd) (\<lambda>_. channel_restore (snd kd)))
     else raise PyKeyError)"

definition restore_state :: "sb_dict \<Rightarrow> ('w, unit) card_op" where
  "restore_state d = bindM (get_card detection_only) (\<lambda>mode.
     if (case d_detection_only d of None \<Rightarrow> False | Some m \<Rightarrow> m \<noteq> mode) then raise PyValueError
     else thenM (upd_card (\<lambda>s. s\<lparr>sb_base := get_or (d_base d) (sb_base s),
         sb_irq := get_or (d_irq d) (sb_irq s), sb_dma := get_or (d_dma d) (sb_dma s),
         dma_requests := get_or (d_dma_requests d) 0, speaker_on := get_or (d_speaker_on d) False,
         time_constant := get_or (d_time_constant d) 0, sample_rate := get_or (d_sample_rate d) 0,
         block_len := get_or (d_block_len d) 0, auto_init := get_or (d_auto_init d) False,
         dma_active := get_or (d_dma_active d) False, irq_line := get_or (d_irq_line d) False,
         dma_tc := get_or (d_dma_tc d) 0, resetting := get_or (d_resetting d) False,
         args_needed := get_or (d_args_needed d) 0, dsp_cmd := get_or (d_cmd d) 0,
         dsp_args := get_or (d_args d) [], dsp_out := get_or (d_out d) [],
         block_pending := get_or (d_block_pending d) False,
         block_remaining := get_or (d_block_remaining d) f_zero\<rparr>))
       (seqM (map restore_channel (get_or (d_channels d) []))))"

definition rearm_after_restore :: "'w sb_host \<Rightarrow> ('w, unit) card_op" where
  "rearm_after_restore H = bindM (getM (\<lambda>x. x)) (\<lambda>(s, w).
     if block_pending s then
       (let now = (case sb_clock H of None \<Rightarrow> f_zero | Some t \<Rightarrow> t w) in
        upd_card (\<lambda>s. s\<lparr>block_due := fo_add (sb_floats H) now (block_remaining s)\<rparr>))
     else if dma_active s \<and> \<not> irq_line s then fire_irq H else ret ())"

end
