(* ===== verification/Dos_State.thy ===== *)
theory Dos_State
  imports CPU_Env Pic Sblaster
begin

text \<open>
  \<open>DOSMachine\<close> of \<open>dos_re/dos.py\<close>: its fields, those of one device grouped in a record of their own
  (system timer, VGA registers and palette, OPL2 sound chip, text console, files), and the access the
  handlers have to them.  The machine is the \<open>world\<close> of the CPU it serves.  An observer attached to
  the machine (\<open>observable_effect_sink\<close>, \<open>speaker_callback\<close>, \<open>adlib_callback\<close>) is the list of what it
  was told so far.  A \<open>bytearray\<close> that several objects share is an address in \<open>buffers\<close>.
\<close>

section \<open>Devices\<close>

record PIT_8253 =
  pit2_access :: int
  pit2_latch :: int
  pit2_write_low :: bool
  pit2_reload :: int
  pit0_access :: int
  pit0_latch :: int
  pit0_write_low :: bool
  pit0_reload :: int
  pit0_anchor_ticks :: int
  pit0_read_latch :: "int list"
  speaker_control :: int
  speaker_callback :: "(bool \<times> f64) list option"

type_synonym rgb = "int \<times> int \<times> int"

datatype journal_event = StatusReads int int int | DacGroup int "rgb list" int int

record VGA_state =
  vga_palette :: "rgb list"
  dac_write_index :: int
  dac_read_index :: int
  dac_component :: int
  dac_latch :: "int list"
  video_journal :: "journal_event list"
  vj_st :: "(int \<times> int \<times> int) option"
  vj_dac :: "(int \<times> rgb list \<times> int \<times> int) option"
  vga_status_reads :: int
  seq_index :: int
  crtc_index :: int
  seq_regs :: "int \<Rightarrow> int option"
  gc_index :: int
  gc_regs :: "int \<Rightarrow> int option"
  crtc_regs :: "int \<Rightarrow> int option"
  attr_index :: int
  attr_flipflop :: bool
  attr_regs :: "int \<Rightarrow> int option"
  misc_output :: int

record OPL2 =
  opl_selected_register :: int
  opl_status :: int
  opl_registers :: "int \<Rightarrow> int option"
  adlib_callback :: "(int \<times> int) list option"

text \<open>Text is a list of Unicode code points, as a Python string.\<close>

type_synonym pystr = "int list"

record text_console =
  stdout :: "pystr list"
  video_mode :: int
  video_page :: int
  text_mode_active :: bool
  cursor_row :: int
  cursor_col :: int

section \<open>Files\<close>

type_synonym path = pystr

record FileHandle =
  fh_path :: path
  fh_data :: nat
  fh_pos :: int
  fh_writable :: bool

text \<open>
  A path is the text of \<open>str(path)\<close>.  \<open>files\<close> is a dict, an association list.  \<open>save_dir\<close> is the contents
  of the directory, by file name; \<open>None\<close> is persistence off.
\<close>

record DOS_files =
  files :: "(int \<times> FileHandle) list"
  next_handle :: int
  save_dir :: "(pystr \<Rightarrow> bytes option) option"
  file_overlay :: "pystr \<Rightarrow> nat option"
  buffers :: "bytes list"

section \<open>State\<close>

datatype observable_effect =
    HARDWARE_INTERRUPT int
  | SOFTWARE_INTERRUPT int int int int
  | PORT_WRITE int int nat
  | AUDIO_COMMAND int int int
  | CONSOLE_OUTPUT pystr

record dos =
  key_queue :: "int list"
  pending_console_scancode :: "int option"
  console_input_fallback :: "int option"
  current_scancode :: int
  kbd_output_buffer_full :: bool
  kbd_shift :: bool
  kbd_ctrl :: bool
  kbd_alt :: bool
  kbd_caps :: bool
  ticks :: int
  mouse_present :: bool
  mouse_x :: int
  mouse_y :: int
  mouse_buttons :: int
  mouse_range :: "int list"
  next_alloc_segment :: int
  allocation_limit_segment :: int
  allocations :: "(int \<times> int) list"
  observable_effect_sink :: "observable_effect list option"
  pit :: PIT_8253
  vga :: VGA_state
  opl :: OPL2
  console :: text_console
  disk :: DOS_files
  pic :: "PIC8259 option"
  sound_blaster :: "sound_blaster_state option"
  sound_blaster_snapshot :: "sb_dict option"
  port_log :: "(int \<times> int \<times> nat) list"
  strict_ports :: bool
  unmodeled_port_reads :: "(int \<times> nat) list"

text \<open>\<open>__post_init__\<close>: the default palette.\<close>

definition default_palette :: "rgb list" where
  "default_palette =
     [(0x00, 0x00, 0x00), (0x00, 0x00, 0xAA), (0x00, 0xAA, 0x00), (0x00, 0xAA, 0xAA),
      (0xAA, 0x00, 0x00), (0xAA, 0x00, 0xAA), (0xAA, 0x55, 0x00), (0xAA, 0xAA, 0xAA),
      (0x55, 0x55, 0x55), (0x55, 0x55, 0xFF), (0x55, 0xFF, 0x55), (0x55, 0xFF, 0xFF),
      (0xFF, 0x55, 0x55), (0xFF, 0x55, 0xFF), (0xFF, 0xFF, 0x55), (0xFF, 0xFF, 0xFF)]
     @ map (\<lambda>i. (i, i, i)) [16..255]"

definition post_init :: "VGA_state \<Rightarrow> VGA_state" where
  "post_init v = (if vga_palette v = [] then v\<lparr>vga_palette := default_palette\<rparr> else v)"

definition pit_new :: PIT_8253 where
  "pit_new = \<lparr>pit2_access = 3, pit2_latch = 0, pit2_write_low = True, pit2_reload = 0,
     pit0_access = 3, pit0_latch = 0, pit0_write_low = True, pit0_reload = 0, pit0_anchor_ticks = 0,
     pit0_read_latch = [], speaker_control = 0, speaker_callback = None\<rparr>"

definition vga_new :: VGA_state where
  "vga_new = post_init \<lparr>vga_palette = [], dac_write_index = 0, dac_read_index = 0, dac_component = 0,
     dac_latch = [], video_journal = [], vj_st = None, vj_dac = None, vga_status_reads = 0,
     seq_index = 0, crtc_index = 0, seq_regs = Map.empty, gc_index = 0, gc_regs = Map.empty,
     crtc_regs = Map.empty, attr_index = 0, attr_flipflop = False, attr_regs = Map.empty,
     misc_output = 0xA3\<rparr>"

definition opl_new :: OPL2 where
  "opl_new = \<lparr>opl_selected_register = 0, opl_status = 0, opl_registers = Map.empty,
     adlib_callback = None\<rparr>"

definition console_new :: text_console where
  "console_new = \<lparr>stdout = [], video_mode = 3, video_page = 0, text_mode_active = True,
     cursor_row = 0, cursor_col = 0\<rparr>"

definition disk_new :: DOS_files where
  "disk_new = \<lparr>files = [], next_handle = 5, save_dir = None, file_overlay = Map.empty,
     buffers = []\<rparr>"

definition DOSMachine :: dos where
  "DOSMachine = \<lparr>key_queue = [], pending_console_scancode = None,
     console_input_fallback = Some 0x011B, current_scancode = 0, kbd_output_buffer_full = False,
     kbd_shift = False, kbd_ctrl = False, kbd_alt = False, kbd_caps = False, ticks = 0,
     mouse_present = False, mouse_x = 320, mouse_y = 100, mouse_buttons = 0,
     mouse_range = [0, 639, 0, 199], next_alloc_segment = 0x7000,
     allocation_limit_segment = 0xA000, allocations = [], observable_effect_sink = None,
     pit = pit_new, vga = vga_new, opl = opl_new, console = console_new, disk = disk_new,
     pic = None, sound_blaster = None, sound_blaster_snapshot = None, port_log = [], strict_ports = False, unmodeled_port_reads = []\<rparr>"

section \<open>Access of the handlers\<close>

type_synonym 'a dos_op = "(dos, 'a) cpu_op"

definition get_dos :: "(dos \<Rightarrow> 'a) \<Rightarrow> 'a dos_op" where
  "get_dos f = getM (\<lambda>c. f (world c))"

definition upd_dos :: "(dos \<Rightarrow> dos) \<Rightarrow> unit dos_op" where
  "upd_dos f = putM (\<lambda>c. c\<lparr>world := f (world c)\<rparr>)"

definition upd_pit :: "(PIT_8253 \<Rightarrow> PIT_8253) \<Rightarrow> unit dos_op" where
  "upd_pit f = upd_dos (\<lambda>d. d\<lparr>pit := f (pit d)\<rparr>)"

definition upd_vga :: "(VGA_state \<Rightarrow> VGA_state) \<Rightarrow> unit dos_op" where
  "upd_vga f = upd_dos (\<lambda>d. d\<lparr>vga := f (vga d)\<rparr>)"

definition upd_opl :: "(OPL2 \<Rightarrow> OPL2) \<Rightarrow> unit dos_op" where
  "upd_opl f = upd_dos (\<lambda>d. d\<lparr>opl := f (opl d)\<rparr>)"

definition upd_console :: "(text_console \<Rightarrow> text_console) \<Rightarrow> unit dos_op" where
  "upd_console f = upd_dos (\<lambda>d. d\<lparr>console := f (console d)\<rparr>)"

definition upd_disk :: "(DOS_files \<Rightarrow> DOS_files) \<Rightarrow> unit dos_op" where
  "upd_disk f = upd_dos (\<lambda>d. d\<lparr>disk := f (disk d)\<rparr>)"

definition upd_mem :: "(memory \<Rightarrow> memory) \<Rightarrow> ('w, unit) cpu_op" where
  "upd_mem f = putM (\<lambda>c. c\<lparr>mem := f (mem c)\<rparr>)"

definition record_effect :: "observable_effect \<Rightarrow> unit dos_op" where
  "record_effect ev = upd_dos (\<lambda>d. d\<lparr>observable_effect_sink :=
     map_option (\<lambda>l. l @ [ev]) (observable_effect_sink d)\<rparr>)"

text \<open>\<open>(cpu.s.ax >> 8) & 0xFF\<close> and \<open>cpu.s.ax & 0xFF\<close>.\<close>

definition get_ah :: "('w, int) cpu_op" where
  "get_ah = get_regs (\<lambda>r. drop_bit 8 (ax r) AND 0xFF)"

definition get_al :: "('w, int) cpu_op" where
  "get_al = get_regs (\<lambda>r. ax r AND 0xFF)"

lemmas dos_op_defs = get_dos_def upd_dos_def upd_pit_def upd_vga_def upd_opl_def upd_console_def
  upd_disk_def upd_mem_def record_effect_def get_ah_def get_al_def

end
