(* ===== verification/Dos_Bios.thy ===== *)
theory Dos_Bios
  imports Dos_State CPU_Exec
begin

text \<open>
  The BIOS services of \<open>dos_re/dos.py\<close> (INT 15h, 16h, 1Ah, 2Fh, 33h, 67h) and the BIOS keyboard
  handler with its scan code translation and type-ahead queue.  The host's date and time, which
  INT 1Ah reads, is the parameter \<open>clock\<close>; \<open>set_mouse_norm\<close>, floating-point code of the front-end,
  is not modelled.
\<close>

section \<open>Keyboard\<close>

text \<open>\<open>_BIOS_SCANCODE_ASCII\<close>: scan code, unshifted and shifted character.\<close>

definition BIOS_SCANCODE_ASCII :: "(int \<times> int \<times> int) list" where
  "BIOS_SCANCODE_ASCII =
    [(0x01, 0x1B, 0x1B),
     (0x02, 0x31, 0x21), (0x03, 0x32, 0x40), (0x04, 0x33, 0x23), (0x05, 0x34, 0x24),
     (0x06, 0x35, 0x25), (0x07, 0x36, 0x5E), (0x08, 0x37, 0x26), (0x09, 0x38, 0x2A),
     (0x0A, 0x39, 0x28), (0x0B, 0x30, 0x29), (0x0C, 0x2D, 0x5F), (0x0D, 0x3D, 0x2B),
     (0x0E, 0x08, 0x08), (0x0F, 0x09, 0x09),
     (0x10, 0x71, 0x51), (0x11, 0x77, 0x57), (0x12, 0x65, 0x45), (0x13, 0x72, 0x52),
     (0x14, 0x74, 0x54), (0x15, 0x79, 0x59), (0x16, 0x75, 0x55), (0x17, 0x69, 0x49),
     (0x18, 0x6F, 0x4F), (0x19, 0x70, 0x50), (0x1A, 0x5B, 0x7B), (0x1B, 0x5D, 0x7D),
     (0x1C, 0x0D, 0x0D),
     (0x1E, 0x61, 0x41), (0x1F, 0x73, 0x53), (0x20, 0x64, 0x44), (0x21, 0x66, 0x46),
     (0x22, 0x67, 0x47), (0x23, 0x68, 0x48), (0x24, 0x6A, 0x4A), (0x25, 0x6B, 0x4B),
     (0x26, 0x6C, 0x4C), (0x27, 0x3B, 0x3A), (0x28, 0x27, 0x22), (0x29, 0x60, 0x7E),
     (0x2B, 0x5C, 0x7C),
     (0x2C, 0x7A, 0x5A), (0x2D, 0x78, 0x58), (0x2E, 0x63, 0x43), (0x2F, 0x76, 0x56),
     (0x30, 0x62, 0x42), (0x31, 0x6E, 0x4E), (0x32, 0x6D, 0x4D), (0x33, 0x2C, 0x3C),
     (0x34, 0x2E, 0x3E), (0x35, 0x2F, 0x3F), (0x39, 0x20, 0x20)]"

definition BIOS_EXTENDED_KEYS :: "int list" where
  "BIOS_EXTENDED_KEYS =
    [0x3B, 0x3C, 0x3D, 0x3E, 0x3F, 0x40, 0x41, 0x42, 0x43, 0x44, 0x57, 0x58,
     0x47, 0x48, 0x49, 0x4B, 0x4D, 0x4F, 0x50, 0x51, 0x52, 0x53]"

text \<open>\<open>base.isalpha()\<close> of the characters in the table, which are ASCII.\<close>

definition ascii_alpha :: "int \<Rightarrow> bool" where
  "ascii_alpha ch \<longleftrightarrow> 0x41 \<le> ch \<and> ch \<le> 0x5A \<or> 0x61 \<le> ch \<and> ch \<le> 0x7A"

definition bios_translate_scancode :: "dos \<Rightarrow> int \<Rightarrow> int option" where
  "bios_translate_scancode d mk =
     (if mk \<in> set BIOS_EXTENDED_KEYS then Some (push_bit 8 mk)
      else case map_of BIOS_SCANCODE_ASCII mk of
        None \<Rightarrow> None
      | Some (base, shifted) \<Rightarrow>
          (let ch = (if ascii_alpha base
                     then (if kbd_shift d \<noteq> kbd_caps d then shifted else base)
                     else (if kbd_shift d then shifted else base))
           in Some (push_bit 8 mk OR (ch AND 0xFF))))"

definition note_bios_keystroke :: "int \<Rightarrow> dos \<Rightarrow> dos" where
  "note_bios_keystroke scancode d =
     (let mk = scancode AND 0x7F; released = (scancode AND 0x80 \<noteq> 0) in
      if mk = 0x2A \<or> mk = 0x36 then d\<lparr>kbd_shift := \<not> released\<rparr>
      else if mk = 0x1D then d\<lparr>kbd_ctrl := \<not> released\<rparr>
      else if mk = 0x38 then d\<lparr>kbd_alt := \<not> released\<rparr>
      else if mk = 0x3A \<and> \<not> released then d\<lparr>kbd_caps := \<not> kbd_caps d\<rparr>
      else if \<not> released then
        (case bios_translate_scancode d mk of
           Some value \<Rightarrow> (if length (key_queue d) < 16
                          then d\<lparr>key_queue := key_queue d @ [value AND 0xFFFF]\<rparr> else d)
         | None \<Rightarrow> d)
      else d)"

text \<open>IRET as the native handlers do it: pop IP, CS and FLAGS, each stored as soon as it is read.\<close>

definition native_iret :: "('w, unit) cpu_op" where
  "native_iret =
     thenM (bindM pop (\<lambda>v. upd_regs (\<lambda>r. r\<lparr>ip := v\<rparr>)))
    (thenM (bindM pop (\<lambda>v. upd_regs (\<lambda>r. r\<lparr>cs := v\<rparr>)))
           (bindM pop (\<lambda>v. upd_regs (\<lambda>r. r\<lparr>flags := v OR 0x0002\<rparr>))))"

definition bios_int9_keyboard :: "dos env \<Rightarrow> unit dos_op" where
  "bios_int9_keyboard E =
     thenM (upd_dos (\<lambda>d. note_bios_keystroke (current_scancode d AND 0xFF) d))
    (thenM (write_port E 0x20 0x20 8) native_iret)"

definition int16 :: "unit dos_op" where
  "int16 = bindM get_ah (\<lambda>ah. bindM (get_dos (\<lambda>d. d)) (\<lambda>d.
     if ah = 0x00 then
       (case key_queue d of
          k # ks \<Rightarrow> thenM (upd_dos (\<lambda>d. d\<lparr>key_queue := ks\<rparr>)) (set_ax (k AND 0xFFFF))
        | [] \<Rightarrow>
            (if console_input_fallback d = None then
               thenM (upd_regs (\<lambda>r. r\<lparr>ip := (ip r - 2) AND 0xFFFF\<rparr>)) (raise ConsoleInputWouldBlock)
             else set_ax 0x011B))
     else if ah = 0x01 then
       (case key_queue d of
          k # ks \<Rightarrow> thenM (set_flag ZF False) (set_ax (k AND 0xFFFF))
        | [] \<Rightarrow> set_flag ZF True)
     else raise UnsupportedInstruction))"

section \<open>Time of day\<close>

record clock =
  c_year :: int
  c_month :: int
  c_day :: int
  c_hour :: int
  c_minute :: int
  c_second :: int

definition bcd :: "int \<Rightarrow> int" where
  "bcd value = (let value = max 0 (min 99 value) in push_bit 4 (value div 10) OR (value mod 10))"

definition int1a :: "clock \<Rightarrow> unit dos_op" where
  "int1a now = bindM get_ah (\<lambda>ah.
     if ah = 0x00 then
       thenM (upd_dos (\<lambda>d. d\<lparr>ticks := ticks d + 1\<rparr>))
         (bindM (get_dos ticks) (\<lambda>t.
           upd_regs (\<lambda>r. r\<lparr>cx := drop_bit 16 t AND 0xFFFF, dx := t AND 0xFFFF,
                           ax := ax r AND 0xFF00\<rparr>)))
     else if ah = 0x01 then
       bindM (get_regs (\<lambda>r. push_bit 16 (cx r AND 0xFFFF) OR (dx r AND 0xFFFF))) (\<lambda>t.
         upd_dos (\<lambda>d. d\<lparr>ticks := t\<rparr>))
     else if ah = 0x02 then
       thenM (upd_regs (\<lambda>r. r\<lparr>cx := push_bit 8 (bcd (c_hour now)) OR bcd (c_minute now),
                              dx := push_bit 8 (bcd (c_second now))\<rparr>))
             (set_flag CF False)
     else if ah = 0x04 then
       thenM (upd_regs (\<lambda>r. r\<lparr>cx := push_bit 8 (bcd (c_year now div 100)) OR bcd (c_year now mod 100),
                              dx := push_bit 8 (bcd (c_month now)) OR bcd (c_day now)\<rparr>))
             (set_flag CF False)
     else raise UnsupportedInstruction)"

section \<open>Services that report absence\<close>

definition int2f :: "unit dos_op" where
  "int2f = bindM (get_regs (\<lambda>r. ax r AND 0xFFFF)) (\<lambda>a.
     if drop_bit 8 a AND 0xFF = 0x43 then set_ax (a AND 0xFF00) else ret ())"

definition int15 :: "unit dos_op" where
  "int15 = bindM get_ah (\<lambda>ah.
     if ah = 0xC0 then
       thenM (upd_regs (\<lambda>r. r\<lparr>ax := 0x8600 OR (ax r AND 0x00FF)\<rparr>)) (set_flag CF True)
     else raise UnsupportedInstruction)"

definition int67 :: "unit dos_op" where
  "int67 = upd_regs (\<lambda>r. r\<lparr>ax := 0x8000 OR (ax r AND 0x00FF)\<rparr>)"

section \<open>Mouse\<close>

definition int33 :: "unit dos_op" where
  "int33 = bindM (get_regs (\<lambda>r. r)) (\<lambda>r. bindM (get_dos (\<lambda>d. d)) (\<lambda>d.
     let a = ax r AND 0xFFFF; rg = mouse_range d in
     if \<not> mouse_present d then
       (if a = 0x0000 then upd_regs (\<lambda>r. r\<lparr>ax := 0, bx := 0\<rparr>) else ret ())
     else if a = 0x0000 then
       thenM (upd_regs (\<lambda>r. r\<lparr>ax := 0xFFFF, bx := 2\<rparr>))
         (upd_dos (\<lambda>d. d\<lparr>mouse_range := [0, 639, 0, 199], mouse_x := 320, mouse_y := 100,
                         mouse_buttons := 0\<rparr>))
     else if a = 0x0001 \<or> a = 0x0002 then ret ()
     else if a = 0x0003 then
       upd_regs (\<lambda>r. r\<lparr>bx := mouse_buttons d AND 0xFFFF,
         cx := max (rg ! 0) (min (rg ! 1) (mouse_x d)) AND 0xFFFF,
         dx := max (rg ! 2) (min (rg ! 3) (mouse_y d)) AND 0xFFFF\<rparr>)
     else if a = 0x0004 then
       upd_dos (\<lambda>d. d\<lparr>mouse_x := cx r AND 0xFFFF, mouse_y := dx r AND 0xFFFF\<rparr>)
     else if a = 0x0005 \<or> a = 0x0006 then
       upd_regs (\<lambda>r. r\<lparr>ax := mouse_buttons d AND 0xFFFF, bx := 0, cx := mouse_x d AND 0xFFFF,
         dx := mouse_y d AND 0xFFFF\<rparr>)
     else if a = 0x0007 then
       upd_dos (\<lambda>d. d\<lparr>mouse_range := (rg[0 := cx r AND 0xFFFF])[1 := dx r AND 0xFFFF]\<rparr>)
     else if a = 0x0008 then
       upd_dos (\<lambda>d. d\<lparr>mouse_range := (rg[2 := cx r AND 0xFFFF])[3 := dx r AND 0xFFFF]\<rparr>)
     else if a = 0x000B then upd_regs (\<lambda>r. r\<lparr>cx := 0, dx := 0\<rparr>)
     else if a = 0x0024 then upd_regs (\<lambda>r. r\<lparr>bx := 0x0814, cx := 0x0400\<rparr>)
     else if a = 0x000C \<or> a = 0x000F \<or> a = 0x0010 \<or> a = 0x001A then ret ()
     else if a = 0x001B then upd_regs (\<lambda>r. r\<lparr>bx := 50, cx := 50, dx := 50\<rparr>)
     else ret ()))"

section \<open>The type-ahead queue\<close>

lemma translate_word:
  assumes "bios_translate_scancode d mk = Some w" "0 \<le> mk" "mk < 128"
  shows "u16 w" "w div 256 = mk"
proof -
  obtain ch where "0 \<le> ch" "ch < 256" "w = push_bit 8 mk + ch"
  proof (cases "mk \<in> set BIOS_EXTENDED_KEYS")
    case True
    then show ?thesis using assms(1) that [of 0] by (simp add: bios_translate_scancode_def)
  next
    case False
    then obtain ch where w: "w = push_bit 8 mk OR (ch AND 0xFF)"
      using assms(1) by (auto simp: bios_translate_scancode_def Let_def split: option.splits)
    have c: "0 \<le> ch AND 0xFF" "ch AND 0xFF < 256" by (simp_all add: mask_simps)
    have "w = push_bit 8 mk + (ch AND 0xFF)"
      using or_push_bit [of "ch AND 0xFF" 8 mk] c w by (simp add: or.commute push_bit_eq_mult)
    then show ?thesis using that c by blast
  qed
  then show "u16 w" "w div 256 = mk" using assms(2,3) by (auto simp: u16_def push_bit_eq_mult)
qed

text \<open>The words a scan code would queue if the queue had no bound; only the modifiers matter.\<close>

definition typed_word :: "dos \<Rightarrow> int \<Rightarrow> int list" where
  "typed_word d sc = (if sc AND 0x80 \<noteq> 0 then []
     else case bios_translate_scancode d (sc AND 0x7F) of Some w \<Rightarrow> [w AND 0xFFFF] | None \<Rightarrow> [])"

primrec typed :: "dos \<Rightarrow> int list \<Rightarrow> int list" where
  "typed d [] = []"
| "typed d (sc # scs) = typed_word d sc @ typed (note_bios_keystroke sc d) scs"

lemma modifiers_type_nothing:
  "bios_translate_scancode d 0x2A = None" "bios_translate_scancode d 0x36 = None"
  "bios_translate_scancode d 0x1D = None" "bios_translate_scancode d 0x38 = None"
  "bios_translate_scancode d 0x3A = None"
  by (simp_all add: bios_translate_scancode_def BIOS_EXTENDED_KEYS_def BIOS_SCANCODE_ASCII_def)

lemma note_key_queue:
  "length (key_queue d) \<le> 16 \<Longrightarrow>
   key_queue (note_bios_keystroke sc d) = take 16 (key_queue d @ typed_word d sc)"
  by (auto simp: note_bios_keystroke_def typed_word_def Let_def modifiers_type_nothing
      split: option.splits)

lemma typed_word_ok: "w \<in> set (typed_word d sc) \<Longrightarrow> u16 w \<and> w div 256 = sc AND 0x7F"
proof -
  have "0 \<le> sc AND 0x7F" "sc AND 0x7F < 128"
    using and_mask_mod [of sc 7] by simp_all
  then show "w \<in> set (typed_word d sc) \<Longrightarrow> u16 w \<and> w div 256 = sc AND 0x7F"
    using translate_word [of d "sc AND 0x7F"]
    by (auto simp: typed_word_def mask_simps u16_def split: option.splits if_splits)
qed

text \<open>
  the type-ahead queue holds the words of the keys pressed, oldest first, each with the make code in its
  high byte; when it is full (16 words) the newest keys are lost and the modifiers still tracked.
\<close>

theorem type_ahead_queue:
  assumes "length (key_queue d) \<le> 16"
  shows "key_queue (fold note_bios_keystroke scs d) = take 16 (key_queue d @ typed d scs)
    \<and> (\<forall>w \<in> set (typed d scs). u16 w \<and> (\<exists>sc \<in> set scs. w div 256 = sc AND 0x7F))"
  using assms
proof (induction scs arbitrary: d)
  case Nil
  then show ?case by simp
next
  case (Cons sc scs)
  let ?d = "note_bios_keystroke sc d"
  have L: "length (key_queue ?d) \<le> 16" using note_key_queue [OF Cons.prems] by simp
  have "take 16 (take 16 (q @ w) @ t) = take 16 (q @ w @ t)" for q w t :: "int list"
    by (cases "length (q @ w) \<le> 16") (auto simp: min_def)
  then show ?case
    using Cons.IH [OF L] note_key_queue [OF Cons.prems] typed_word_ok [of _ d sc] by auto
qed

theorem type_ahead_queue_witness:
  "key_queue (fold note_bios_keystroke [0x2A, 0x1E, 0x9E, 0xAA, 0x1E, 0x48] DOSMachine)
    = [0x1E41, 0x1E61, 0x4800]"
  using type_ahead_queue [of DOSMachine "[0x2A, 0x1E, 0x9E, 0xAA, 0x1E, 0x48]"]
  by (simp add: DOSMachine_def typed_word_def note_bios_keystroke_def bios_translate_scancode_def
      BIOS_EXTENDED_KEYS_def BIOS_SCANCODE_ASCII_def ascii_alpha_def Let_def)

text \<open>
  INT 16h AH=01h shows the oldest key without removing it, and a following AH=00h returns that
  very key and removes it.
\<close>

theorem int16_peek_then_read:
  assumes "key_queue (world c) = k # ks" "u16 k" "drop_bit 8 (ax (regs c)) AND 0xFF = 1"
    "drop_bit 8 a0 AND 0xFF = (0 :: int)"
  shows "\<exists>c1 c2. int16 c = (Inr (), c1) \<and> ax (regs c1) = k \<and> fst (get_flag ZF c1) = Inr False
    \<and> world c1 = world c
    \<and> int16 (c1\<lparr>regs := (regs c1)\<lparr>ax := a0\<rparr>\<rparr>) = (Inr (), c2) \<and> ax (regs c2) = k
    \<and> world c2 = (world c)\<lparr>key_queue := ks\<rparr>"
proof -
  have K: "k AND 65535 = k" using assms(2) by (simp add: u16_def mask_simps)
  have "\<not> bit (set_flag_word ZF False f) 6" for f
    by (simp add: set_flag_word_def ZF_def bit_and_iff bit_or_iff bit_not_iff)
  then have Z: "set_flag_word ZF False f AND ZF = 0" for f
    using and_exp_ne_0 [of "set_flag_word ZF False f" 6] by (simp add: ZF_def)
  show ?thesis
    using assms(1,3,4) K Z
    by (simp add: int16_def get_ah_def get_regs_def get_dos_def set_flag_def set_ax_def upd_regs_def
        upd_dos_def get_flag_def)
qed

definition key_cpu :: "dos cpu" where
  "key_cpu = (CPU8086 (memory_new MEM_SIZE None) (DOSMachine\<lparr>key_queue := [0x4800, 0x1C0D]\<rparr>))
     \<lparr>regs := CPUState_init\<lparr>ax := 0x0100\<rparr>\<rparr>"

theorem int16_peek_then_read_witness:
  "\<exists>c1 c2. int16 key_cpu = (Inr (), c1) \<and> ax (regs c1) = 0x4800
    \<and> int16 (c1\<lparr>regs := (regs c1)\<lparr>ax := 0\<rparr>\<rparr>) = (Inr (), c2)
    \<and> key_queue (world c2) = [0x1C0D]"
proof -
  have "key_queue (world key_cpu) = 0x4800 # [0x1C0D]"
    by (simp add: key_cpu_def CPU8086_def DOSMachine_def)
  moreover have "drop_bit 8 (ax (regs key_cpu)) AND 0xFF = 1"
    by (simp add: key_cpu_def)
  ultimately show ?thesis
    using int16_peek_then_read [of key_cpu "0x4800" "[0x1C0D]" 0] by (fastforce simp: u16_def)
qed

text \<open>
  over any sequence of scan codes CapsLock is toggled once per make code of its key, and the
  shift state is that of the last make or break of either shift key.
\<close>

theorem modifier_tracking:
  "(kbd_caps (fold note_bios_keystroke scs d)
      \<longleftrightarrow> (kbd_caps d \<noteq> odd (length (filter (\<lambda>sc. sc AND 0xFF = 0x3A) scs))))
   \<and> (kbd_shift (fold note_bios_keystroke scs d)
      \<longleftrightarrow> (case rev (filter (\<lambda>sc. sc AND 0x7F = 0x2A \<or> sc AND 0x7F = 0x36) scs) of
            [] \<Rightarrow> kbd_shift d | sc # _ \<Rightarrow> sc AND 0x80 = 0))"
proof (induction scs rule: rev_induct)
  case Nil
  then show ?case by simp
next
  case (snoc sc scs)
  have split: "sc AND 0xFF = 0x3A \<longleftrightarrow> sc AND 0x7F = 0x3A \<and> sc AND 0x80 = 0"
  proof -
    have "sc AND 0x80 = 0 \<longleftrightarrow> (sc div 128) mod 2 = 0"
      using and_exp_ne_0 [of sc 7] by (auto simp: bit_iff_odd)
    moreover have "sc mod 256 = 128 * (sc div 128 mod 2) + sc mod 128"
      using zmod_zmult2_eq [of 2 sc 128] by simp
    moreover have "sc div 128 mod 2 = 0 \<or> sc div 128 mod 2 = 1" "0 \<le> sc mod 128" "sc mod 128 < 128"
      by auto
    ultimately show ?thesis using and_mask_mod [of sc 7] by (auto simp: mask_simps)
  qed
  let ?d = "fold note_bios_keystroke scs d"
  have "kbd_caps (note_bios_keystroke sc ?d) \<longleftrightarrow> (kbd_caps ?d \<noteq> (sc AND 0xFF = 0x3A))"
    "kbd_shift (note_bios_keystroke sc ?d) \<longleftrightarrow>
      (if sc AND 0x7F = 0x2A \<or> sc AND 0x7F = 0x36 then sc AND 0x80 = 0 else kbd_shift ?d)"
    unfolding split by (auto simp: note_bios_keystroke_def Let_def split: option.splits)
  then show ?case using snoc.IH by auto
qed

text \<open>
  a position the program sets with INT 33h AX=4 is what AX=3 reports, clamped to the range the
  program chose, so what is reported always lies inside the range.
\<close>

theorem mouse_position_clamped:
  assumes "mouse_present (world c)" "mouse_range (world c) = [x0, x1, y0, y1]"
    "0 \<le> x0" "x0 \<le> x1" "x1 < 0x10000" "0 \<le> y0" "y0 \<le> y1" "y1 < 0x10000" "u16 (cx (regs c))" "u16 (dx (regs c))"
    "ax (regs c) = 4" "a3 = (3 :: int)"
  shows "\<exists>c1 c2. int33 c = (Inr (), c1) \<and> int33 (c1\<lparr>regs := (regs c1)\<lparr>ax := a3\<rparr>\<rparr>) = (Inr (), c2)
    \<and> cx (regs c2) = max x0 (min x1 (cx (regs c))) \<and> dx (regs c2) = max y0 (min y1 (dx (regs c)))
    \<and> x0 \<le> cx (regs c2) \<and> cx (regs c2) \<le> x1 \<and> y0 \<le> dx (regs c2) \<and> dx (regs c2) \<le> y1"
proof -
  have K: "max x0 (min x1 (cx (regs c))) AND 65535 = max x0 (min x1 (cx (regs c)))"
      "max y0 (min y1 (dx (regs c))) AND 65535 = max y0 (min y1 (dx (regs c)))"
      "cx (regs c) AND 65535 = cx (regs c)" "dx (regs c) AND 65535 = dx (regs c)"
    using assms(3-10) by (simp_all add: mask_simps u16_def)
  show ?thesis
    using assms(1,2,4,7,11,12) K by (simp add: int33_def get_regs_def get_dos_def upd_regs_def upd_dos_def Let_def)
qed

lemma words_of_long:
  "(drop_bit 16 x AND 65535) * 65536 + (x AND 65535) = x mod (4294967296 :: int)"
  using zmod_zmult2_eq [of 65536 x 65536] by (simp add: mask_simps)

text \<open>
  the tick count a program sets with INT 1Ah AH=1 continues from there: the next AH=0 read
  returns it plus one in CX:DX, modulo 2 ^ 32.
\<close>

theorem tick_count_set_get:
  assumes "u16 (cx (regs c))" "u16 (dx (regs c))" "drop_bit 8 (ax (regs c)) AND 0xFF = 1"
    "drop_bit 8 a0 AND 0xFF = (0 :: int)"
  shows "\<exists>c1 c2. int1a now c = (Inr (), c1)
    \<and> int1a now (c1\<lparr>regs := (regs c1)\<lparr>ax := a0\<rparr>\<rparr>) = (Inr (), c2)
    \<and> cx (regs c2) * 0x10000 + dx (regs c2)
      = (cx (regs c) * 0x10000 + dx (regs c) + 1) mod 0x100000000"
proof -
  let ?t = "cx (regs c) * 0x10000 + dx (regs c)"
  have "push_bit 16 (cx (regs c) AND 0xFFFF) OR (dx (regs c) AND 0xFFFF) = ?t"
    using or_words [of "dx (regs c)" "cx (regs c)"] assms(1,2)
    by (simp add: u16_def mask_simps or.commute)
  then show ?thesis
    using assms(3,4) words_of_long [of "?t + 1"]
    by (simp add: int1a_def get_ah_def get_regs_def get_dos_def upd_regs_def upd_dos_def)
qed

definition bios_cpu :: "dos cpu" where
  "bios_cpu = (CPU8086 (memory_new MEM_SIZE None) (DOSMachine\<lparr>mouse_present := True\<rparr>))
     \<lparr>regs := CPUState_init\<lparr>ax := 4, cx := 1000, dx := 60\<rparr>\<rparr>"

theorem mouse_position_clamped_witness:
  "\<exists>c1 c2. int33 bios_cpu = (Inr (), c1) \<and> int33 (c1\<lparr>regs := (regs c1)\<lparr>ax := 3\<rparr>\<rparr>) = (Inr (), c2)
    \<and> cx (regs c2) = 639 \<and> dx (regs c2) = 60"
  using mouse_position_clamped [of bios_cpu 0 639 0 199 3]
  by (fastforce simp: bios_cpu_def CPU8086_def DOSMachine_def u16_def)

definition noon :: clock where
  "noon = \<lparr>c_year = 1990, c_month = 6, c_day = 15, c_hour = 12, c_minute = 0, c_second = 0\<rparr>"

theorem tick_count_set_get_witness:
  "\<exists>c1 c2. int1a noon (bios_cpu\<lparr>regs := CPUState_init\<lparr>ax := 0x100, cx := 0xFFFF, dx := 0xFFFF\<rparr>\<rparr>) = (Inr (), c1)
    \<and> int1a noon (c1\<lparr>regs := (regs c1)\<lparr>ax := 0\<rparr>\<rparr>) = (Inr (), c2)
    \<and> cx (regs c2) * 0x10000 + dx (regs c2) = 0"
  using tick_count_set_get [of "bios_cpu\<lparr>regs := CPUState_init\<lparr>ax := 0x100, cx := 0xFFFF, dx := 0xFFFF\<rparr>\<rparr>" 0 noon]
  by (simp add: u16_def)

end
