(* ===== verification/Interrupts.thy ===== *)
theory Interrupts
  imports CPU_Stack CPU_Run Dos_Bios
begin

text \<open>
  \<open>dos_re/interrupts.py\<close>, the delivery of an interrupt to the program's own handler, and the BIOS
  environment of \<open>dos_re/runtime_core.py\<close> it meets: the power-on interrupt vectors, the IRET stub
  and the native form of both.  A \<open>Runtime\<close> is the CPU with the DOS machine as its \<open>world\<close>.
\<close>

section \<open>The power-on environment\<close>

definition BIOS_INT9_ENTRY :: "int \<times> int" where "BIOS_INT9_ENTRY = (0xF000, 0xE987)"
definition BIOS_IRET_ENTRY :: "int \<times> int" where "BIOS_IRET_ENTRY = (0xF000, 0xFF53)"
definition BIOS_IRET_STUB :: int where "BIOS_IRET_STUB = 0xFFF53"
definition BIOS_INT9_LINEAR :: int where "BIOS_INT9_LINEAR = 0xFE987"

text \<open>One vector of the loop in \<open>_init_bios_environment\<close>: filled in if the four bytes are zero.\<close>

definition init_vector :: "int \<Rightarrow> unit mem_op" where
  "init_vector vec = bindM (getM (\<lambda>m. slice_get m (vec * 4) 4)) (\<lambda>old.
     if old = [0, 0, 0, 0] then
       (let base = vec * 4; (seg, off) = (if vec = 0x09 then BIOS_INT9_ENTRY else (0xF000, 0xFF53)) in
        seqM [set_byte base (off AND 0xFF), set_byte (base + 1) (drop_bit 8 off AND 0xFF),
              set_byte (base + 2) (seg AND 0xFF), set_byte (base + 3) (drop_bit 8 seg AND 0xFF)])
     else ret ())"

definition irq_vectors :: "int list" where
  "irq_vectors = [0x08..0x0F] @ [0x70..0x77]"

definition init_bios_environment :: "unit mem_op" where
  "init_bios_environment =
     thenM (set_byte BIOS_IRET_STUB 0xCF)
    (thenM (set_byte BIOS_INT9_LINEAR 0xCF)
    (thenM (seqM (map init_vector irq_vectors))
    (thenM (set_byte 0x463 0xD4) (set_byte 0x464 0x03))))"

text \<open>\<open>bios_iret_stub\<close>, and the hooks of \<open>install_bios_environment_hooks\<close>.\<close>

definition bios_iret_stub :: "('w, unit) cpu_op" where
  "bios_iret_stub = native_iret"

definition install_bios_environment_hooks :: "dos env \<Rightarrow> dos env" where
  "install_bios_environment_hooks E = E
     \<lparr>replacement_hooks := (replacement_hooks E)
        (BIOS_INT9_ENTRY \<mapsto> \<lparr>handler = bios_int9_keyboard E, owns_time = False\<rparr>,
         BIOS_IRET_ENTRY \<mapsto> \<lparr>handler = bios_iret_stub, owns_time = False\<rparr>),
      hook_names := (hook_names E)
        (BIOS_INT9_ENTRY \<mapsto> ''bios_int9_keyboard'', BIOS_IRET_ENTRY \<mapsto> ''bios_iret_stub'')\<rparr>"

section \<open>Delivery\<close>

definition read_vector :: "int \<Rightarrow> ('w, int \<times> int) cpu_op" where
  "read_vector num =
     bindM (on_mem (rw 0 ((num * 4) AND 0xFFFFF))) (\<lambda>off.
     bindM (on_mem (rw 0 ((num * 4 + 2) AND 0xFFFFF))) (\<lambda>seg. ret (seg, off)))"

text \<open>The loop of \<open>deliver_interrupt\<close>; \<open>todo\<close> is \<open>max_steps - steps\<close>.\<close>

definition returned :: "int \<Rightarrow> int \<times> int \<Rightarrow> 'w cpu \<Rightarrow> bool" where
  "returned sp0 ret_addr c \<longleftrightarrow>
     sp (regs c) = sp0 \<and> (cs (regs c) AND 0xFFFF, ip (regs c) AND 0xFFFF) = ret_addr"

fun run_handler :: "nat \<Rightarrow> 'w env \<Rightarrow> int \<Rightarrow> int \<times> int \<Rightarrow> 'w cpu \<Rightarrow> ('w, bool) outcome" where
  "run_handler todo E sp0 ra c =
     (if returned sp0 ra c then Some (Inr True, c)
      else bind_outcome (step E c) (\<lambda>_ c.
        case todo of 0 \<Rightarrow> Some (Inl PyRuntimeError, c)
        | Suc n \<Rightarrow> run_handler n E sp0 ra c))"

declare run_handler.simps [simp del]

text \<open>The entry sequence: the frame, the call depth, IF and TF, the jump.\<close>

definition enter_handler :: "int \<Rightarrow> int \<Rightarrow> ('w, unit) cpu_op" where
  "enter_handler seg off =
     bindM (get_regs (\<lambda>r. r)) (\<lambda>r.
     thenM (push (flags r))
    (thenM (push (cs r AND 0xFFFF))
    (thenM (push (ip r AND 0xFFFF))
    (thenM depth_up
    (thenM (set_flag IF False)
    (thenM (set_flag TF False) (set_csip (seg AND 0xFFFF) (off AND 0xFFFF))))))))"

definition deliver_interrupt :: "dos env \<Rightarrow> int \<Rightarrow> nat \<Rightarrow> dos cpu \<Rightarrow> (dos, bool) outcome" where
  "deliver_interrupt E num max_steps c =
     bind_outcome (Some (read_vector num c)) (\<lambda>(seg, off) c.
     if seg = 0 \<and> off = 0 then Some (Inr False, c)
     else
       bind_outcome (Some (record_effect (HARDWARE_INTERRUPT (num AND 0xFF)) c)) (\<lambda>_ c.
       let ra = (cs (regs c) AND 0xFFFF, ip (regs c) AND 0xFFFF); sp0 = sp (regs c) AND 0xFFFF in
       bind_outcome (Some (enter_handler seg off c)) (\<lambda>_ c.
         run_handler max_steps E sp0 ra c)))"

definition deliver_scancode :: "dos env \<Rightarrow> int \<Rightarrow> nat \<Rightarrow> dos cpu \<Rightarrow> (dos, bool) outcome" where
  "deliver_scancode E scancode max_steps c =
     bind_outcome (Some (upd_dos (\<lambda>d. d\<lparr>current_scancode := scancode AND 0xFF,
                                        kbd_output_buffer_full := True\<rparr>) c)) (\<lambda>_ c.
     bind_outcome (Some (read_vector 0x09 c)) (\<lambda>vec c.
     bind_outcome (Some ((if vec \<noteq> BIOS_INT9_ENTRY then upd_dos (note_bios_keystroke scancode)
                          else ret ()) c)) (\<lambda>_ c.
       deliver_interrupt E 0x09 max_steps c)))"

section \<open>Effects\<close>

lemma run_handler_returned: "run_handler todo E sp0 ra c = Some (Inr b, c') \<Longrightarrow> returned sp0 ra c' \<and> b"
proof (induction todo arbitrary: c)
  case 0
  then show ?case
    by (subst (asm) run_handler.simps)
       (auto simp: bind_outcome_def split: if_splits option.splits prod.splits sum.splits)
next
  case (Suc n)
  then show ?case
    by (subst (asm) run_handler.simps)
       (auto simp: bind_outcome_def split: if_splits option.splits prod.splits sum.splits)
qed

lemma run_handler_one:
  assumes "\<not> returned sp0 ra c" "step E c = Some (Inr (), c')" "returned sp0 ra c'"
  shows "run_handler (Suc n) E sp0 ra c = Some (Inr True, c')"
  using assms by (simp add: run_handler.simps [of "Suc n"] run_handler.simps [of n])

lemma vector_at_range:
  "\<exists>x y. vector_at m num = (x, y) \<and> u16 x \<and> u16 y"
  by (simp add: vector_at_def word_pair_u16)

lemma read_vector_effect:
  assumes "real_mode (mem c)" "0 \<le> num" "num < 256"
  shows "read_vector num c = (Inr (vector_at (mem c) num), c)"
proof -
  have "(num * 4) AND 1048575 = num * 4" "(num * 4 + 2) AND 1048575 = num * 4 + 2"
    using assms(2,3) by (simp_all add: mask_simps)
  then show ?thesis
    using assms rw_ivt [of "mem c" "num * 4"] rw_ivt [of "mem c" "num * 4 + 2"]
    by (simp add: read_vector_def on_mem_def vector_at_def)
qed

text \<open>What the delivery records of itself.\<close>

definition delivered_to :: "int \<Rightarrow> dos \<Rightarrow> dos" where
  "delivered_to num d = d\<lparr>observable_effect_sink :=
     map_option (\<lambda>l. l @ [HARDWARE_INTERRUPT (num AND 0xFF)]) (observable_effect_sink d)\<rparr>"

text \<open>The state in which the handler starts.\<close>

definition in_handler :: "int \<times> int \<Rightarrow> 'w cpu \<Rightarrow> 'w cpu" where
  "in_handler vec c = (framed c)\<lparr>regs := (regs c)\<lparr>sp := sp (regs c) - 6,
     flags := irq_flags (flags (regs c)), cs := fst vec, ip := snd vec\<rparr>,
     call_depth := call_depth c + 1\<rparr>"

lemma framed_keeps:
  "call_depth (framed c) = call_depth c" "world (framed c) = world c" "halted (framed c) = halted c"
  "interp_forbidden (framed c) = interp_forbidden c" "instruction_count (framed c) = instruction_count c"
  "coverage_telemetry (framed c) = coverage_telemetry c"
  by (simp_all add: framed_def pushed_def)

lemma in_handler_simps [simp]:
  "regs (in_handler vec c) = (regs c)\<lparr>sp := sp (regs c) - 6,
     flags := irq_flags (flags (regs c)), cs := fst vec, ip := snd vec\<rparr>"
  "mem (in_handler vec c) = mem (framed c)" "world (in_handler vec c) = world c"
  "halted (in_handler vec c) = halted c" "call_depth (in_handler vec c) = call_depth c + 1"
  "interp_forbidden (in_handler vec c) = interp_forbidden c"
  "instruction_count (in_handler vec c) = instruction_count c"
  "coverage_telemetry (in_handler vec c) = coverage_telemetry c"
  by (simp_all add: in_handler_def framed_keeps)

lemma enter_handler_effect:
  assumes "wf_regs (regs c)" "stk lo hi c (n + 3) []" "u16 seg" "u16 off"
  shows "enter_handler seg off c = (Inr (), in_handler (seg, off) c)"
    "stk lo hi (in_handler (seg, off) c) n (interrupt_frame c)"
proof -
  note F = framed_pushes [OF assms(1,2)]
  show "enter_handler seg off c = (Inr (), in_handler (seg, off) c)"
    using F(1-3,6-8) assms(3,4)
    by (simp add: enter_handler_def get_regs_def depth_up_def set_flag_def upd_regs_def set_csip_def
        in_handler_def irq_flags_def framed_keeps u16_mask_id)
  have R: "regs (in_handler (seg, off) c) = (regs c)\<lparr>sp := sp (regs c) - 6,
      flags := irq_flags (flags (regs c)), cs := seg, ip := off\<rparr>"
    "mem (in_handler (seg, off) c) = mem (framed c)" by (simp_all add: in_handler_def)
  then show "stk lo hi (in_handler (seg, off) c) n (interrupt_frame c)"
    using F(4,6) stk_cong [of "in_handler (seg, off) c" "framed c"] by simp
qed

lemma native_iret_effect:
  assumes "stk lo hi c n [i, s, f]"
  shows "native_iret c
    = (Inr (), c\<lparr>regs := (regs c)\<lparr>cs := s, ip := i, flags := f OR 2, sp := sp (regs c) + 6\<rparr>\<rparr>)"
proof -
  note 1 = pop_upd [OF assms, of "\<lambda>v r. r\<lparr>ip := v\<rparr>", simplified]
  note 2 = pop_upd [OF 1(2), of "\<lambda>v r. r\<lparr>cs := v\<rparr>", simplified]
  note 3 = pop_upd [OF 2(2), of "\<lambda>v r. r\<lparr>flags := v OR 2\<rparr>", simplified]
  show ?thesis
    by (simp only: native_iret_def 1(3) 2(3) 3(1)) simp
qed

section \<open>Properties\<close>

text \<open>The handler takes \<open>n\<close> steps without coming back to the interrupted instruction.\<close>

inductive handler_runs :: "'w env \<Rightarrow> int \<Rightarrow> int \<times> int \<Rightarrow> nat \<Rightarrow> 'w cpu \<Rightarrow> 'w cpu \<Rightarrow> bool"
  for E sp0 ra where
  handler_at: "handler_runs E sp0 ra 0 c c"
| handler_step: "\<not> returned sp0 ra c \<Longrightarrow> step E c = Some (Inr (), c1) \<Longrightarrow> handler_runs E sp0 ra n c1 c'
    \<Longrightarrow> handler_runs E sp0 ra (Suc n) c c'"

lemma run_handler_runs:
  "handler_runs E sp0 ra n c c' \<Longrightarrow> run_handler (n + k) E sp0 ra c = run_handler k E sp0 ra c'"
proof (induction n c c' rule: handler_runs.induct)
  case (handler_step c c1 n c')
  then show ?case by (simp add: run_handler.simps [of "Suc (n + k)"])
qed simp

text \<open>One step on an IRET in plain code, with its frame on the stack.\<close>

definition at_iret :: "'w env \<Rightarrow> 'w cpu \<Rightarrow> bool" where
  "at_iret E e \<longleftrightarrow> plain_code e \<and> code_at e 0 = 0xCF \<and> \<not> halted e \<and> \<not> interp_forbidden e
     \<and> deliver_irq E e = (Inr False, e)
     \<and> replacement_hooks E (cs (regs e) AND 0xFFFF, ip (regs e) AND 0xFFFF) = None"

lemma step_iret:
  assumes "at_iret E e" "stk lo hi e n [i, s, f]"
  shows "\<exists>c'. step E e = Some (Inr (), c')
    \<and> regs c' = (regs e)\<lparr>cs := s, ip := i, flags := f OR 2, sp := sp (regs e) + 6\<rparr>
    \<and> mem c' = mem e \<and> world c' = world e \<and> call_depth c' = max 0 (call_depth e - 1)
    \<and> instruction_count c' = instruction_count e + 1"
proof -
  have A: "plain_code e" "code_at e 0 = 0xCF" "\<not> halted e" "\<not> interp_forbidden e" "deliver_irq E e = (Inr False, e)"
      "replacement_hooks E (cs (regs e) AND 0xFFFF, ip (regs e) AND 0xFFFF) = None"
    using assms(1) by (simp_all add: at_iret_def)
  have "stk lo hi (skip_ip 1 e) n [i, s, f]"
    using assms(2) stk_cong [of "skip_ip 1 e" e] by (simp add: skip_ip_def)
  note I = iret_effect [OF this]
  have "prefix_loop (None, None) e = Some (Inr (0xCF, None, None), skip_ip 1 e)"
    using prefix_loop_result [OF A(1), of 0 "(None, None)"] A(2)
    by (simp add: is_prefix_def is_seg_prefix_def is_rep_prefix_def)
  moreover have "execute_opcode E 0xCF None None = op_iret" by (simp add: execute_opcode_def)
  then have "finish_instruction E key 0xCF None None (skip_ip 1 e) = (Inr (), snd (count_instruction (record_event
      (InterpretedInstruction key) (snd (op_iret (skip_ip 1 e))))))" for key
    using I by (simp add: finish_instruction_def count_instruction_def)
  ultimately have "step E e = Some (Inr (), snd (count_instruction (record_event
      (InterpretedInstruction (cs (regs e) AND 0xFFFF, ip (regs e) AND 0xFFFF)) (snd (op_iret (skip_ip 1 e))))))"
    using A(3-6) by (simp add: step_def interpret_one_def check_frontier_def Let_def)
  then show ?thesis
    unfolding I by (simp add: count_instruction_def record_event_def skip_ip_def)
qed

text \<open>A handler that comes to such an IRET ends the loop there.\<close>

lemma handler_iret_ends:
  assumes "handler_runs E sp0 ra k h e" "k < max_steps" "at_iret E e" "stk lo hi e 0 [i, s, f]"
    and "sp (regs e) + 6 = sp0" "ra = (s, i)" "u16 s" "u16 i"
  shows "\<exists>c'. run_handler max_steps E sp0 ra h = Some (Inr True, c')
    \<and> regs c' = (regs e)\<lparr>cs := s, ip := i, flags := f OR 2, sp := sp0\<rparr>
    \<and> mem c' = mem e \<and> world c' = world e \<and> call_depth c' = max 0 (call_depth e - 1)"
proof -
  obtain c' where c': "step E e = Some (Inr (), c')"
      "regs c' = (regs e)\<lparr>cs := s, ip := i, flags := f OR 2, sp := sp0\<rparr>"
      "mem c' = mem e" "world c' = world e" "call_depth c' = max 0 (call_depth e - 1)"
    using step_iret [OF assms(3,4)] assms(5) by auto
  obtain j where j: "max_steps = k + Suc j" using assms(2) less_imp_Suc_add by fastforce
  have "run_handler (Suc j) E sp0 ra e = Some (Inr True, c')"
    by (rule run_handler_one [OF _ c'(1)]) (use assms(5-8) c'(2) in \<open>auto simp: returned_def u16_mask_id\<close>)
  then have "run_handler max_steps E sp0 ra h = Some (Inr True, c')"
    using run_handler_runs [OF assms(1), of "Suc j"] unfolding j [symmetric] by simp
  then show ?thesis using c' by blast
qed

lemma irq_flags_bit: "bit (irq_flags f) k \<longleftrightarrow> k = 1 \<or> k < 12 \<and> k \<noteq> 8 \<and> k \<noteq> 9 \<and> bit f k"
proof -
  have "(4095 :: int) = mask 12" by (simp add: mask_eq_exp_minus_1)
  then have "bit (4095 :: int) k \<longleftrightarrow> k < 12" by (simp only: bit_mask_iff) simp
  moreover have "bit (2 :: int) k \<longleftrightarrow> k = 1" using bit_exp_iff [where ?'a = int, of 1 k] by auto
  moreover have "bit (512 :: int) k \<longleftrightarrow> k = 9" using bit_exp_iff [where ?'a = int, of 9 k] by auto
  moreover have "bit (256 :: int) k \<longleftrightarrow> k = 8" using bit_exp_iff [where ?'a = int, of 8 k] by auto
  moreover have "bit (- 513 :: int) k \<longleftrightarrow> \<not> bit (512 :: int) k" "bit (- 257 :: int) k \<longleftrightarrow> \<not> bit (256 :: int) k"
    using bit_not_int_iff [of 512 k] bit_not_int_iff [of 256 k] by simp_all
  ultimately show ?thesis
    by (auto simp: irq_flags_def set_flag_word_def IF_def TF_def bit_and_iff bit_or_iff bit_not_iff)
qed

text \<open>
  C8: \<open>deliver_interrupt\<close> does nothing and returns False if the vector is empty.  Otherwise it runs, for
  at most \<open>max_steps\<close> steps, the handler of the vector from a machine \<open>h\<close> at the handler's address, with
  IF and TF clear and the other flags as before (bit 1 set, the bits above 11 cleared), with the
  interrupted FLAGS, CS and IP pushed on the stack, the delivery recorded and one more call counted,
  and everything else as it was.  A handler that comes, in fewer
  steps than that and without returning before, to an IRET with that frame on top of the stack, whatever
  it did, brings the program back: \<open>deliver_interrupt\<close> returns True at the interrupted instruction
  with the interrupted FLAGS and SP, the other registers, the memory and the devices as the handler
  left them.
\<close>

theorem deliver_interrupt_runs_handler:
  assumes "wf_regs (regs c)" "stk lo hi c (n + 3) []" "0 \<le> num" "num < 256"
  shows "if vector_at (mem c) num = (0, 0) then deliver_interrupt E num max_steps c = Some (Inr False, c)
    else \<exists>h. deliver_interrupt E num max_steps c = run_handler max_steps E (sp (regs c)) (cs (regs c), ip (regs c)) h
      \<and> (cs (regs h), ip (regs h)) = vector_at (mem c) num
      \<and> (\<forall>k. bit (flags (regs h)) k \<longleftrightarrow> k = 1 \<or> k < 12 \<and> k \<noteq> 8 \<and> k \<noteq> 9 \<and> bit (flags (regs c)) k)
      \<and> regs h = (regs c)\<lparr>sp := sp (regs c) - 6, flags := flags (regs h), cs := cs (regs h), ip := ip (regs h)\<rparr>
      \<and> stk lo hi h n [ip (regs c), cs (regs c), flags (regs c)]
      \<and> (\<forall>a. \<not> (lo \<le> a \<and> a < hi) \<longrightarrow> mdata (mem h) a = mdata (mem c) a)
      \<and> h = c\<lparr>regs := regs h, mem := (mem c)\<lparr>mdata := mdata (mem h)\<rparr>,
          world := delivered_to num (world c), call_depth := call_depth c + 1\<rparr>
      \<and> (\<forall>k e. handler_runs E (sp (regs c)) (cs (regs c), ip (regs c)) k h e \<and> k < max_steps \<and> at_iret E e
          \<and> stk lo hi e 0 [ip (regs c), cs (regs c), flags (regs c)] \<and> ss (regs e) = ss (regs c) \<longrightarrow>
        (\<exists>c'. deliver_interrupt E num max_steps c = Some (Inr True, c')
          \<and> regs c' = (regs e)\<lparr>cs := cs (regs c), ip := ip (regs c), flags := flags (regs c) OR 2, sp := sp (regs c)\<rparr>
          \<and> mem c' = mem e \<and> world c' = world e \<and> call_depth c' = max 0 (call_depth e - 1)))"
proof -
  obtain seg off where v: "vector_at (mem c) num = (seg, off)" "u16 seg" "u16 off"
    using vector_at_range [of "mem c" num] by auto
  note rv = read_vector_effect [OF stkD(1) [OF assms(2)] assms(3,4), unfolded v(1)]
  show ?thesis
  proof (cases "seg = 0 \<and> off = 0")
    case True
    then show ?thesis using rv v(1) by (simp add: deliver_interrupt_def)
  next
    case False
    let ?c1 = "c\<lparr>world := delivered_to num (world c)\<rparr>"
    let ?h = "in_handler (seg, off) ?c1" and ?run = "handler_runs E (sp (regs c)) (cs (regs c), ip (regs c))"
    let ?frame = "[ip (regs c), cs (regs c), flags (regs c)]"
    have S: "stk lo hi ?c1 (n + 3) []" using assms(2) stk_cong [of ?c1 c] by simp
    note H = enter_handler_effect [OF _ S v(2,3), simplified, OF assms(1)]
    have W: "cs (regs c) AND 65535 = cs (regs c)" "ip (regs c) AND 65535 = ip (regs c)"
        "sp (regs c) AND 65535 = sp (regs c)"
      using assms(1) by (simp_all add: wf_regs_def u16_mask_id)
    have D: "deliver_interrupt E num max_steps c
        = run_handler max_steps E (sp (regs c)) (cs (regs c), ip (regs c)) ?h"
      using rv False H(1) by (auto simp: deliver_interrupt_def record_effect_def upd_dos_def delivered_to_def W)
    obtain d where d: "framed ?c1 = ?c1\<lparr>regs := (regs c)\<lparr>sp := sp (regs c) - 6\<rparr>, mem := (mem c)\<lparr>mdata := d\<rparr>\<rparr>"
        "\<forall>a. \<not> (lo \<le> a \<and> a < hi) \<longrightarrow> d a = mdata (mem c) a"
      using framed_pushes(5,6) [OF _ S, simplified, OF assms(1)] unfolding stack_frame_iff by auto
    have same: "?h = c\<lparr>regs := regs ?h, mem := (mem c)\<lparr>mdata := d\<rparr>, world := delivered_to num (world c),
        call_depth := call_depth c + 1\<rparr>" "mdata (mem ?h) = d"
      using d(1) by (simp_all add: in_handler_def)
    have resumes: "\<exists>c'. deliver_interrupt E num max_steps c = Some (Inr True, c')
        \<and> regs c' = (regs e)\<lparr>cs := cs (regs c), ip := ip (regs c), flags := flags (regs c) OR 2, sp := sp (regs c)\<rparr>
        \<and> mem c' = mem e \<and> world c' = world e \<and> call_depth c' = max 0 (call_depth e - 1)"
      if R: "?run k ?h e" "k < max_steps" "at_iret E e" "stk lo hi e 0 ?frame" "ss (regs e) = ss (regs c)" for k e
    proof -
      have "sp (regs e) + 6 = sp (regs c)"
        using stkD(7) [OF R(4)] stkD(7) [OF assms(2)] R(5) by (simp add: stack_top_def)
      then show ?thesis
        using handler_iret_ends [OF R(1-4)] assms(1) unfolding D by (simp add: wf_regs_def)
    qed
    have nz: "vector_at (mem c) num \<noteq> (0, 0)" using False v(1) by simp
    show ?thesis
      unfolding if_not_P [OF nz]
    proof (intro exI [of _ ?h] conjI)
      show "\<forall>k. bit (flags (regs ?h)) k \<longleftrightarrow> k = 1 \<or> k < 12 \<and> k \<noteq> 8 \<and> k \<noteq> 9 \<and> bit (flags (regs c)) k"
        using irq_flags_bit by simp
      show "stk lo hi ?h n ?frame" using H(2) by (simp add: interrupt_frame_def)
      show "\<forall>a. \<not> (lo \<le> a \<and> a < hi) \<longrightarrow> mdata (mem ?h) a = mdata (mem c) a" using d(2) same(2) by simp
      show "?h = c\<lparr>regs := regs ?h, mem := (mem c)\<lparr>mdata := mdata (mem ?h)\<rparr>, world := delivered_to num (world c),
          call_depth := call_depth c + 1\<rparr>" unfolding same(2) by (rule same(1))
    qed (use D v(1) resumes in \<open>(blast | simp)+\<close>)
  qed
qed

text \<open>
  the native IRET stub of the BIOS does what an IRET instruction does, except that it leaves
  the call depth as it is.
\<close>

theorem bios_iret_stub_is_iret:
  assumes "stk lo hi c n [i, s, f]"
  shows "op_iret c = thenM bios_iret_stub depth_down c
    \<and> snd (bios_iret_stub c) = (snd (op_iret c))\<lparr>call_depth := call_depth c\<rparr>"
  using iret_effect [OF assms] native_iret_effect [OF assms]
  by (simp_all add: bios_iret_stub_def depth_down_def)

definition bare_env :: "dos env" where
  "bare_env = install_bios_environment_hooks (env_new no_floats)"

lemma bare_env_fields:
  "pending_irq bare_env = None" "hook_verifier bare_env = None" "port_writer bare_env = None"
  "replacement_hooks bare_env BIOS_INT9_ENTRY
     = Some \<lparr>handler = bios_int9_keyboard (env_new no_floats), owns_time = False\<rparr>"
  by (simp_all add: bare_env_def install_bios_environment_hooks_def env_new_def BIOS_INT9_ENTRY_def
      BIOS_IRET_ENTRY_def)

lemma bios_int9_effect:
  assumes "port_writer E = None" "stk lo hi c n [i, s, f]"
  shows "bios_int9_keyboard E c = (Inr (), c\<lparr>regs := (regs c)\<lparr>cs := s, ip := i, flags := f OR 2,
      sp := sp (regs c) + 6\<rparr>, world := note_bios_keystroke (current_scancode (world c) AND 0xFF) (world c)\<rparr>)"
proof -
  let ?c = "c\<lparr>world := note_bios_keystroke (current_scancode (world c) AND 0xFF) (world c)\<rparr>"
  have "stk lo hi ?c n [i, s, f]" using assms(2) stk_cong [of ?c c] by simp
  from native_iret_effect [OF this] show ?thesis
    using assms(1) by (simp add: bios_int9_keyboard_def upd_dos_def write_port_def)
qed

lemma step_hook:
  assumes "\<not> halted c" "pending_irq E = None" "hook_verifier E = None"
    and "(cs (regs c) AND 0xFFFF, ip (regs c) AND 0xFFFF) = key"
    and "replacement_hooks E key = Some \<lparr>handler = h, owns_time = False\<rparr>" "h c = (Inr (), e)"
  shows "step E c = Some (Inr (), (record_event (HookUnverified key
      (case hook_names E key of Some n \<Rightarrow> n | None \<Rightarrow> ''replacement'')) e)
      \<lparr>instruction_count := instruction_count e + 1\<rparr>)"
  using assms(1-3,5,6)
  by (simp add: step_def assms(4) deliver_irq_def run_hook_def finallyM_def count_instruction_def record_event_def)

text \<open>Delivery to a handler in native form: one step runs it, and the delivery is over.\<close>

lemma deliver_native:
  assumes wf: "wf_regs (regs c)" and stk: "stk lo hi c 3 []"
    and vec: "vector_at (mem c) num = (seg, off)" "u16 seg" "u16 off" "\<not> (seg = 0 \<and> off = 0)"
    and num: "0 \<le> num" "num < 256"
    and env: "\<not> halted c" "pending_irq E = None" "hook_verifier E = None"
    and hook: "replacement_hooks E (seg, off) = Some \<lparr>handler = h, owns_time = False\<rparr>"
    and h: "\<And>c1 i s f. stk lo hi c1 0 [i, s, f] \<Longrightarrow> h c1 = (Inr (), c1\<lparr>regs := (regs c1)
      \<lparr>cs := s, ip := i, flags := f OR 2, sp := sp (regs c1) + 6\<rparr>, world := g (world c1)\<rparr>)"
    and steps: "0 < max_steps"
  shows "\<exists>c'. deliver_interrupt E num max_steps c = Some (Inr True, c')
    \<and> regs c' = (regs c)\<lparr>flags := flags (regs c) OR 2\<rparr>
    \<and> world c' = g (delivered_to num (world c)) \<and> call_depth c' = call_depth c + 1"
proof -
  let ?c1 = "c\<lparr>world := delivered_to num (world c)\<rparr>"
  have S: "stk lo hi ?c1 (0 + 3) []" using stk stk_cong [of ?c1 c] by simp
  let ?h = "in_handler (seg, off) ?c1"
  note H = enter_handler_effect [OF _ S vec(2,3), simplified, OF wf]
  have T: "stk lo hi ?h 0 [ip (regs c), cs (regs c), flags (regs c)]"
    using H(2) by (simp add: interrupt_frame_def)
  let ?e = "snd (h ?h)"
  have W: "cs (regs c) AND 65535 = cs (regs c)" "ip (regs c) AND 65535 = ip (regs c)"
      "sp (regs c) AND 65535 = sp (regs c)"
    using wf by (simp_all add: wf_regs_def u16_mask_id)
  note N = h [OF T]
  have N': "h ?h = (Inr (), ?e)" unfolding N by simp
  define c' where "c' = (record_event (HookUnverified (seg, off)
      (case hook_names E (seg, off) of Some n \<Rightarrow> n | None \<Rightarrow> ''replacement'')) ?e)
      \<lparr>instruction_count := instruction_count ?e + 1\<rparr>"
  have step: "step E ?h = Some (Inr (), c')"
    unfolding c'_def
    by (rule step_hook [OF _ env(2,3) _ hook N']) (simp_all add: env(1) u16_mask_id vec(2,3))
  have regs: "regs c' = (regs c)\<lparr>flags := flags (regs c) OR 2\<rparr>"
    using N by (simp add: c'_def record_event_def)
  obtain n where n: "max_steps = Suc n" using steps by (cases max_steps) auto
  have R: "run_handler max_steps E (sp (regs c)) (cs (regs c), ip (regs c)) ?h = Some (Inr True, c')"
    unfolding n by (rule run_handler_one [OF _ step]) (simp_all add: returned_def regs W)
  have "deliver_interrupt E num max_steps c = Some (Inr True, c')"
    using read_vector_effect [OF stkD(1) [OF stk] num] vec R H(1)
    by (auto simp: deliver_interrupt_def record_effect_def upd_dos_def delivered_to_def W)
  then show ?thesis
    using regs N by (intro exI [of _ c']) (simp add: c'_def record_event_def)
qed

text \<open>
  with the stock BIOS keyboard handler installed, presenting a scan code runs the handler once and
  resumes the program where it was: the keystroke is noted exactly once, and registers, SP and FLAGS
  (bit 1 set) are as before.  The call depth is one more than before, since the native handler does
  not take back the increment of the delivery.
\<close>

theorem deliver_scancode_stock:
  assumes "wf_regs (regs c)" "stk lo hi c 3 []" "vector_at (mem c) 9 = BIOS_INT9_ENTRY"
    and "\<not> halted c" "pending_irq E = None" "hook_verifier E = None"
    and "replacement_hooks E BIOS_INT9_ENTRY = Some \<lparr>handler = bios_int9_keyboard E', owns_time = False\<rparr>"
    and "port_writer E' = None" "0 < max_steps"
  shows "\<exists>c'. deliver_scancode E scancode max_steps c = Some (Inr True, c')
    \<and> regs c' = (regs c)\<lparr>flags := flags (regs c) OR 2\<rparr>
    \<and> world c' = note_bios_keystroke (scancode AND 0xFF) (delivered_to 9
        ((world c)\<lparr>current_scancode := scancode AND 0xFF, kbd_output_buffer_full := True\<rparr>))
    \<and> call_depth c' = call_depth c + 1"
proof -
  let ?c = "c\<lparr>world := (world c)\<lparr>current_scancode := scancode AND 0xFF, kbd_output_buffer_full := True\<rparr>\<rparr>"
  let ?g = "\<lambda>d. note_bios_keystroke (current_scancode d AND 0xFF) d"
  have S: "stk lo hi ?c 3 []" using assms(2) stk_cong [of ?c c] by simp
  have V: "vector_at (mem ?c) 9 = (0xF000, 0xE987)" using assms(3) by (simp add: BIOS_INT9_ENTRY_def)
  have "\<exists>c'. deliver_interrupt E 9 max_steps ?c = Some (Inr True, c')
      \<and> regs c' = (regs ?c)\<lparr>flags := flags (regs ?c) OR 2\<rparr>
      \<and> world c' = ?g (delivered_to 9 (world ?c)) \<and> call_depth c' = call_depth ?c + 1"
    using assms(1,4-7,9) bios_int9_effect [OF assms(8)]
    by (intro deliver_native [OF _ S V]) (simp_all add: u16_def BIOS_INT9_ENTRY_def)
  moreover have "deliver_scancode E scancode max_steps c = deliver_interrupt E 9 max_steps ?c"
    using read_vector_effect [of ?c 9] assms(3) stkD(1) [OF assms(2)]
    by (simp add: deliver_scancode_def upd_dos_def)
  ultimately show ?thesis by (simp add: delivered_to_def)
qed


section \<open>The vectors of the power-on environment\<close>

definition power_on_vector :: "int \<Rightarrow> int \<times> int" where
  "power_on_vector vec = (if vec = 9 then BIOS_INT9_ENTRY else BIOS_IRET_ENTRY)"

text \<open>What \<open>init_vector\<close> does to the bytes.\<close>

definition fill_vector :: "int \<Rightarrow> (int \<Rightarrow> 8 word) \<Rightarrow> (int \<Rightarrow> 8 word)" where
  "fill_vector vec d =
     (if d (vec * 4) = 0 \<and> d (vec * 4 + 1) = 0 \<and> d (vec * 4 + 2) = 0 \<and> d (vec * 4 + 3) = 0
      then (let seg = fst (power_on_vector vec); off = snd (power_on_vector vec) in
            d(vec * 4 := word_of_int (off AND 0xFF), vec * 4 + 1 := word_of_int (drop_bit 8 off AND 0xFF),
              vec * 4 + 2 := word_of_int (seg AND 0xFF),
              vec * 4 + 3 := word_of_int (drop_bit 8 seg AND 0xFF)))
      else d)"

lemma upt_4: "[0..<4] = [0, 1, 2, 3]"
  by (simp add: upt_rec)

lemma init_vector_effect:
  assumes "real_mode m" "0 \<le> vec" "vec < 256"
  shows "init_vector vec m = (Inr (), m\<lparr>mdata := fill_vector vec (mdata m)\<rparr>)"
proof -
  have "slice_get m (vec * 4) 4 = map (\<lambda>i. mdata m (vec * 4 + int i)) [0..<4]"
    using assms real_modeD(3) [OF assms(1)] slice_get_inside [of "vec * 4" 4 m] by simp
  then have "slice_get m (vec * 4) 4 = [mdata m (vec * 4), mdata m (vec * 4 + 1),
      mdata m (vec * 4 + 2), mdata m (vec * 4 + 3)]"
    by (simp add: upt_4)
  then show ?thesis
    using assms real_modeD(3) [OF assms(1)]
    by (cases "vec = 9") (auto simp: init_vector_def fill_vector_def power_on_vector_def
        BIOS_IRET_ENTRY_def BIOS_INT9_ENTRY_def set_byte_ok Let_def simp del: word_of_int_mask)
qed

lemma init_vectors_effect:
  assumes "real_mode m" "\<And>v. v \<in> set vs \<Longrightarrow> 0 \<le> v \<and> v < 256"
  shows "seqM (map init_vector vs) m = (Inr (), m\<lparr>mdata := fold fill_vector vs (mdata m)\<rparr>)"
  using assms
proof (induction vs arbitrary: m)
  case Nil
  then show ?case by simp
next
  case (Cons v vs)
  then show ?case
    using init_vector_effect [of m v] Cons.IH [of "m\<lparr>mdata := fill_vector v (mdata m)\<rparr>"] by simp
qed

lemma fill_vector_other:
  "\<not> (vec * 4 \<le> a \<and> a < vec * 4 + 4) \<Longrightarrow> fill_vector vec d a = d a"
  by (auto simp: fill_vector_def Let_def)

lemma fill_vector_cong:
  "d (v * 4) = e (v * 4) \<Longrightarrow> d (v * 4 + 1) = e (v * 4 + 1) \<Longrightarrow> d (v * 4 + 2) = e (v * 4 + 2)
    \<Longrightarrow> d (v * 4 + 3) = e (v * 4 + 3) \<Longrightarrow> d a = e a \<Longrightarrow> fill_vector v d a = fill_vector v e a"
  by (simp add: fill_vector_def Let_def)

lemma vector_slot: "v * 4 \<le> a \<Longrightarrow> a < v * 4 + 4 \<Longrightarrow> w * 4 \<le> a \<Longrightarrow> a < w * 4 + 4 \<Longrightarrow> v = (w :: int)"
  by arith

lemma fold_fill_other:
  "(\<And>v. v \<in> set vs \<Longrightarrow> \<not> (v * 4 \<le> a \<and> a < v * 4 + 4)) \<Longrightarrow> fold fill_vector vs d a = d a"
  by (induction vs arbitrary: d) (simp_all add: fill_vector_other)

lemma fold_fill_at:
  assumes "distinct vs" "vec \<in> set vs" "vec * 4 \<le> a" "a < vec * 4 + 4"
  shows "fold fill_vector vs d a = fill_vector vec d a"
proof -
  obtain us ws where vs: "vs = us @ vec # ws" using split_list [OF assms(2)] by blast
  have "fold fill_vector us d b = d b" if "vec * 4 \<le> b" "b < vec * 4 + 4" for b
    using assms(1) that vs by (intro fold_fill_other) (auto dest: vector_slot [OF that])
  then have "fill_vector vec (fold fill_vector us d) a = fill_vector vec d a"
    using assms(3,4) by (simp add: fill_vector_def Let_def)
  moreover have "fold fill_vector ws e a = e a" for e
    using assms vs by (intro fold_fill_other) (auto dest: vector_slot [OF assms(3,4)])
  ultimately show ?thesis by (simp add: vs)
qed

definition unset_vector :: "memory \<Rightarrow> int \<Rightarrow> bool" where
  "unset_vector m vec \<longleftrightarrow> vector_at m vec = (0, 0)"

lemma vector_zero:
  "unset_vector m vec \<longleftrightarrow> mdata m (vec * 4) = 0 \<and> mdata m (vec * 4 + 1) = 0
    \<and> mdata m (vec * 4 + 2) = 0 \<and> mdata m (vec * 4 + 3) = 0"
proof -
  have z: "uint (x :: 8 word) + 256 * uint (y :: 8 word) = 0 \<longleftrightarrow> x = 0 \<and> y = 0" for x y
  proof -
    have "uint x + 256 * uint y = 0 \<longleftrightarrow> uint x = 0 \<and> uint y = 0"
      using byte_range [of x] byte_range [of y] by arith
    then show ?thesis by (simp add: uint_0_iff)
  qed
  show ?thesis by (auto simp: unset_vector_def vector_at_def z Let_def add.assoc)
qed

lemma power_on_facts:
  assumes "real_mode m"
  shows "\<exists>m'. init_bios_environment m = (Inr (), m') \<and> real_mode m' \<and> ega_planar m' = ega_planar m
    \<and> mdata m' BIOS_IRET_STUB = 0xCF \<and> mdata m' BIOS_INT9_LINEAR = 0xCF
    \<and> (\<forall>vec \<in> {0x08..0x0F} \<union> {0x70..0x77}. vector_at m' vec
        = (if unset_vector m vec then power_on_vector vec else vector_at m vec))"
proof -
  let ?pre = "(mdata m)(BIOS_IRET_STUB := 0xCF, BIOS_INT9_LINEAR := 0xCF)"
  let ?d = "(fold fill_vector irq_vectors ?pre)(0x463 := 0xD4, 0x464 := 0x03)"
  let ?m = "m\<lparr>mdata := ?d\<rparr>"
  have I: "v \<in> set irq_vectors \<longleftrightarrow> v \<in> {0x08..0x0F} \<union> {0x70..0x77}" for v
    by (auto simp: irq_vectors_def)
  have F: "fold fill_vector irq_vectors e a = e a" if "0x400 \<le> a" for e a
    using that I by (intro fold_fill_other) auto
  have dist: "distinct irq_vectors" by (auto simp: irq_vectors_def)
  have V: "seqM (map init_vector irq_vectors) (m\<lparr>mdata := ?pre\<rparr>)
      = (Inr (), m\<lparr>mdata := fold fill_vector irq_vectors ?pre\<rparr>)"
    using init_vectors_effect [of "m\<lparr>mdata := ?pre\<rparr>" irq_vectors] assms I by fastforce
  have "set_byte BIOS_IRET_STUB 0xCF m = (Inr (), m\<lparr>mdata := (mdata m)(BIOS_IRET_STUB := 0xCF)\<rparr>)"
    "set_byte BIOS_INT9_LINEAR 0xCF (m\<lparr>mdata := (mdata m)(BIOS_IRET_STUB := 0xCF)\<rparr>)
      = (Inr (), m\<lparr>mdata := ?pre\<rparr>)"
    using real_modeD(3) [OF assms] by (simp_all add: set_byte_ok BIOS_IRET_STUB_def BIOS_INT9_LINEAR_def)
  then have E: "init_bios_environment m = (Inr (), ?m)"
    using V real_modeD(3) [OF assms] by (simp add: init_bios_environment_def set_byte_ok)
  have S: "?d BIOS_IRET_STUB = 0xCF" "?d BIOS_INT9_LINEAR = 0xCF"
    by (simp_all add: F BIOS_IRET_STUB_def BIOS_INT9_LINEAR_def)
  have "vector_at ?m vec = (if unset_vector m vec then power_on_vector vec else vector_at m vec)"
    if "vec \<in> {0x08..0x0F} \<union> {0x70..0x77}" for vec
  proof -
    have B: "?d (vec * 4 + k) = fill_vector vec (mdata m) (vec * 4 + k)" if "0 \<le> k" "k < 4" for k
    proof -
      have r: "0 \<le> vec * 4" "vec * 4 + 3 < 0x400" using \<open>vec \<in> _\<close> by auto
      then have P: "?pre a = mdata m a" if "a < 0x400" for a
        using that by (simp add: BIOS_IRET_STUB_def BIOS_INT9_LINEAR_def)
      have "?d (vec * 4 + k) = fill_vector vec ?pre (vec * 4 + k)"
        using fold_fill_at [of irq_vectors vec "vec * 4 + k" ?pre] dist I that r \<open>vec \<in> _\<close> by simp
      also have "\<dots> = fill_vector vec (mdata m) (vec * 4 + k)"
        by (rule fill_vector_cong; rule P) (use r that in simp_all)
      finally show ?thesis .
    qed
    define D where "D = ?d"
    have B: "D (vec * 4) = fill_vector vec (mdata m) (vec * 4)"
      "D (vec * 4 + 1) = fill_vector vec (mdata m) (vec * 4 + 1)"
      "D (vec * 4 + 2) = fill_vector vec (mdata m) (vec * 4 + 2)"
      "D (vec * 4 + 3) = fill_vector vec (mdata m) (vec * 4 + 3)"
      unfolding D_def using B [of 0] B [of 1] B [of 2] B [of 3] by simp_all
    have A: "vector_at ?m vec = (uint (D (vec * 4 + 2)) + 256 * uint (D (vec * 4 + 3)),
        uint (D (vec * 4)) + 256 * uint (D (vec * 4 + 1)))"
      unfolding D_def by (simp add: vector_at_def Let_def add.assoc)
    show ?thesis
    proof (cases "unset_vector m vec")
      case True
      then have W: "fill_vector vec (mdata m) (vec * 4) = word_of_int (snd (power_on_vector vec))"
        "fill_vector vec (mdata m) (vec * 4 + 1) = word_of_int (drop_bit 8 (snd (power_on_vector vec)))"
        "fill_vector vec (mdata m) (vec * 4 + 2) = word_of_int (fst (power_on_vector vec))"
        "fill_vector vec (mdata m) (vec * 4 + 3) = word_of_int (drop_bit 8 (fst (power_on_vector vec)))"
        by (simp_all add: fill_vector_def vector_zero Let_def)
      have U: "u16 (fst (power_on_vector vec))" "u16 (snd (power_on_vector vec))"
        by (simp_all add: power_on_vector_def BIOS_INT9_ENTRY_def BIOS_IRET_ENTRY_def u16_def)
      show ?thesis
        using True by (simp only: A B W byte_pair [OF U(1)] byte_pair [OF U(2)] if_True prod.collapse)
    next
      case False
      then have "fill_vector vec (mdata m) = mdata m"
        by (auto simp: fill_vector_def vector_zero)
      then show ?thesis
        using False by (simp only: A B if_False) (simp add: vector_at_def Let_def add.assoc)
    qed
  qed
  then show ?thesis using E S assms by (intro exI [of _ ?m]) simp
qed

text \<open>
  after power-on each hardware interrupt vector that was empty points at its BIOS entry, the
  keyboard handler for INT 9 and the IRET stub for the others, a vector already set keeps its
  handler, and the IRET stub is an IRET instruction.
\<close>

theorem power_on_vectors:
  assumes "real_mode m"
  shows "\<exists>m'. init_bios_environment m = (Inr (), m') \<and> real_mode m'
    \<and> mdata m' BIOS_IRET_STUB = 0xCF \<and> mdata m' BIOS_INT9_LINEAR = 0xCF
    \<and> (\<forall>vec \<in> {0x08..0x0F} \<union> {0x70..0x77}. vector_at m' vec
        = (if unset_vector m vec then power_on_vector vec else vector_at m vec))"
  using power_on_facts [OF assms] by blast

text \<open>The machine after power-on with its stack at 0050:0100, about to run at 0100:0000.\<close>

definition power_on_cpu :: "dos cpu" where
  "power_on_cpu = (CPU8086 (snd (init_bios_environment (memory_new MEM_SIZE None))) DOSMachine)
     \<lparr>regs := CPUState_init\<lparr>ss := 0x50, sp := 0x100, cs := 0x100\<rparr>\<rparr>"

lemma power_on_memory:
  "real_mode (mem power_on_cpu)" "mdata (mem power_on_cpu) BIOS_IRET_STUB = 0xCF"
  "\<not> ega_planar (mem power_on_cpu)"
  "vec \<in> {0x08..0x0F} \<union> {0x70..0x77} \<Longrightarrow> vector_at (mem power_on_cpu) vec = power_on_vector vec"
proof -
  have U: "unset_vector (memory_new MEM_SIZE None) vec" for vec
    by (simp add: vector_zero memory_new_def)
  have R: "real_mode (memory_new MEM_SIZE None)" by (simp add: real_mode_def memory_new_def)
  have M: "mem power_on_cpu = snd (init_bios_environment (memory_new MEM_SIZE None))"
    by (simp add: power_on_cpu_def CPU8086_def)
  show "real_mode (mem power_on_cpu)" "mdata (mem power_on_cpu) BIOS_IRET_STUB = 0xCF"
    "\<not> ega_planar (mem power_on_cpu)"
    "vec \<in> {0x08..0x0F} \<union> {0x70..0x77} \<Longrightarrow> vector_at (mem power_on_cpu) vec = power_on_vector vec"
    unfolding M using power_on_facts [OF R] U by (auto simp: memory_new_def)
qed

lemma power_on_stk: "n \<le> 128 \<Longrightarrow> stk 0x500 0x600 power_on_cpu n []"
  using power_on_memory(1,3)
  by (simp add: stk_def power_on_cpu_def CPU8086_def ram_byte_def in_aperture_def stack_top_def
      u16_def mem_consts CPUState_init_def)

lemma power_on_wf: "wf_regs (regs power_on_cpu)"
  using wf_regs_init by (simp add: power_on_cpu_def wf_regs_def u16_def)

theorem power_on_vectors_witness:
  "\<exists>m'. init_bios_environment (memory_new MEM_SIZE None) = (Inr (), m')
    \<and> vector_at m' 9 = BIOS_INT9_ENTRY"
proof -
  have "unset_vector (memory_new MEM_SIZE None) 9" by (simp add: vector_zero memory_new_def)
  then show ?thesis
    using power_on_vectors [OF real_mode_new] by (fastforce simp: power_on_vector_def)
qed


theorem bios_iret_stub_is_iret_witness:
  "\<exists>c :: dos cpu. stk 0x500 0x600 c 0 [0, 0x100, 0x202] \<and> op_iret c = thenM bios_iret_stub depth_down c"
proof -
  have "stk 0x500 0x600 power_on_cpu (0 + 3) []" by (rule power_on_stk) simp
  note framed_pushes(4) [OF power_on_wf this]
  moreover have "interrupt_frame power_on_cpu = [0, 0x100, 0x202]"
    by (simp add: interrupt_frame_def power_on_cpu_def CPUState_init_def)
  ultimately have "stk 0x500 0x600 (framed power_on_cpu) 0 [0, 0x100, 0x202]" by simp
  from this bios_iret_stub_is_iret [OF this] show ?thesis by blast
qed

text \<open>The stub as an instruction, reached through the timer vector.\<close>

theorem deliver_interrupt_runs_handler_witness:
  "\<exists>c'. deliver_interrupt (env_new no_floats) 8 10 power_on_cpu = Some (Inr True, c')
    \<and> regs c' = (regs power_on_cpu)\<lparr>flags := 0x202\<rparr> \<and> call_depth c' = 0"
proof -
  let ?c = power_on_cpu and ?E = "env_new no_floats :: dos env"
  have S: "stk 0x500 0x600 ?c (0 + 3) []" by (rule power_on_stk) simp
  have V: "vector_at (mem ?c) 8 = (0xF000, 0xFF53)"
    by (simp add: power_on_memory power_on_vector_def BIOS_IRET_ENTRY_def)
  have F: "\<not> halted ?c" "\<not> interp_forbidden ?c" "call_depth ?c = 0" "flags (regs ?c) OR 2 = 0x202"
    by (simp_all add: power_on_cpu_def CPU8086_def CPUState_init_def)
  obtain h where h: "(cs (regs h), ip (regs h)) = (0xF000, 0xFF53)"
      "regs h = (regs ?c)\<lparr>sp := sp (regs ?c) - 6, flags := flags (regs h), cs := cs (regs h), ip := ip (regs h)\<rparr>"
      "stk 0x500 0x600 h 0 [ip (regs ?c), cs (regs ?c), flags (regs ?c)]"
      "\<forall>a. \<not> (0x500 \<le> a \<and> a < 0x600) \<longrightarrow> mdata (mem h) a = mdata (mem ?c) a"
      "h = ?c\<lparr>regs := regs h, mem := (mem ?c)\<lparr>mdata := mdata (mem h)\<rparr>, world := delivered_to 8 (world ?c), call_depth := call_depth ?c + 1\<rparr>"
    and resumes: "\<forall>k e. handler_runs ?E (sp (regs ?c)) (cs (regs ?c), ip (regs ?c)) k h e \<and> k < 10 \<and> at_iret ?E e
          \<and> stk 0x500 0x600 e 0 [ip (regs ?c), cs (regs ?c), flags (regs ?c)] \<and> ss (regs e) = ss (regs ?c) \<longrightarrow>
        (\<exists>c'. deliver_interrupt ?E 8 10 ?c = Some (Inr True, c')
          \<and> regs c' = (regs e)\<lparr>cs := cs (regs ?c), ip := ip (regs ?c), flags := flags (regs ?c) OR 2, sp := sp (regs ?c)\<rparr>
          \<and> mem c' = mem e \<and> world c' = world e \<and> call_depth c' = max 0 (call_depth e - 1))"
    using deliver_interrupt_runs_handler [OF power_on_wf S, of 8 ?E 10] unfolding V by auto
  have M: "plain_code h" "\<not> halted h" "\<not> interp_forbidden h" "call_depth h = 1"
    using F power_on_memory(1,3) by (subst h(5), simp add: plain_code_def real_mode_def)+
  have "code_at h 0 = 0xCF"
    using h(1,4) power_on_memory(2) by (simp add: code_at_def linear_eq BIOS_IRET_STUB_def)
  then have "at_iret ?E h"
    using M by (simp add: at_iret_def env_new_def deliver_irq_def)
  moreover have "ss (regs h) = ss (regs ?c)" by (subst h(2)) simp
  ultimately obtain c' where "deliver_interrupt ?E 8 10 ?c = Some (Inr True, c')"
      "regs c' = (regs h)\<lparr>cs := cs (regs ?c), ip := ip (regs ?c), flags := flags (regs ?c) OR 2, sp := sp (regs ?c)\<rparr>"
      "call_depth c' = 0"
    using resumes handler_at [of ?E _ _ h] h(3) M(4) by fastforce
  then show ?thesis using F(4) by (subst (asm) h(2)) auto
qed

end
