(* ===== verification/Decode.thy ===== *)
theory Decode
  imports CPU_Step
begin

text \<open>
  \<open>dos_re/lift/decode.py\<close>: the lifter's static decoder of 16-bit instructions: length, control-flow
  class, targets and operand fields of the instruction at an offset.  \<open>fetch\<close>, the caller's code
  byte at an offset, is a parameter.  Raw bytes are integers, as Python's \<open>bytes\<close> yields them;
  \<open>patched_slot\<close>, set by a later pass, is left out.
\<close>

section \<open>Instructions\<close>

datatype kind = SEQ | JCC | JMP | JMP_FAR | JMP_IND | CALL | CALL_FAR | CALL_IND | RET | RETF | IRET
  | INT_N | HLT | UNSUPPORTED

definition PREFIXES :: "int list" where
  "PREFIXES = [0x26, 0x2E, 0x36, 0x3E, 0xF0, 0xF2, 0xF3]"

definition MAX_LEN :: nat where "MAX_LEN = 15"

record Inst =
  inst_ip :: int
  inst_length :: int
  inst_kind :: kind
  mnemonic :: string
  raw :: "int list"
  inst_target :: "int option"
  far_target :: "(int \<times> int) option"
  int_no :: "int option"
  inst_prefixes :: "int list"
  inst_op :: int
  inst_modrm :: "int option"
  inst_disp :: "int option"
  inst_imm :: "int option"

definition next_ip :: "Inst \<Rightarrow> int" where
  "next_ip i = (inst_ip i + inst_length i) AND 0xFFFF"

definition inst_mod :: "Inst \<Rightarrow> int option" where
  "inst_mod i = map_option (drop_bit 6) (inst_modrm i)"

definition inst_reg :: "Inst \<Rightarrow> int option" where
  "inst_reg i = map_option (\<lambda>m. drop_bit 3 m AND 7) (inst_modrm i)"

definition inst_rm :: "Inst \<Rightarrow> int option" where
  "inst_rm i = map_option (\<lambda>m. m AND 7) (inst_modrm i)"

text \<open>The last segment prefix, and the first repeat prefix.\<close>

definition seg_override :: "Inst \<Rightarrow> sreg option" where
  "seg_override i = map_option seg_override_of (find is_seg_prefix (rev (inst_prefixes i)))"

definition inst_rep :: "Inst \<Rightarrow> int option" where
  "inst_rep i = find (\<lambda>p. p = 0xF2 \<or> p = 0xF3) (inst_prefixes i)"

definition modrm_disp_len :: "int \<Rightarrow> nat" where
  "modrm_disp_len modrm = (let md = drop_bit 6 modrm; rm = modrm AND 7 in
     if md = 0 then (if rm = 6 then 2 else 0) else if md = 1 then 1 else if md = 2 then 2 else 0)"

section \<open>The opcode table\<close>

datatype imm_spec = Imm nat | Grp3b | Grp3w

type_synonym entry = "bool \<times> imm_spec \<times> kind \<times> string"

definition fill :: "int \<Rightarrow> int \<Rightarrow> entry \<Rightarrow> (int \<times> entry) list" where
  "fill lo hi e = map (\<lambda>op. (op, e)) [lo..hi - 1]"

definition alu_rows :: "int \<Rightarrow> string \<Rightarrow> (int \<times> entry) list" where
  "alu_rows base name =
     [(base, (True, Imm 0, SEQ, name)), (base + 1, (True, Imm 0, SEQ, name)),
      (base + 2, (True, Imm 0, SEQ, name)), (base + 3, (True, Imm 0, SEQ, name)),
      (base + 4, (False, Imm 1, SEQ, name)), (base + 5, (False, Imm 2, SEQ, name))]"

text \<open>\<open>_T\<close>, row by row.\<close>

definition opcode_rows :: "(int \<times> entry) list" where
  "opcode_rows =
     alu_rows 0x00 ''add'' @
     alu_rows 0x08 ''or'' @
     alu_rows 0x10 ''adc'' @
     alu_rows 0x18 ''sbb'' @
     alu_rows 0x20 ''and'' @
     alu_rows 0x28 ''sub'' @
     alu_rows 0x30 ''xor'' @
     alu_rows 0x38 ''cmp'' @
     [(0x06, (False, Imm 0, SEQ, ''push es'')), (0x07, (False, Imm 0, SEQ, ''pop es'')),
      (0x0E, (False, Imm 0, SEQ, ''push cs'')), (0x16, (False, Imm 0, SEQ, ''push ss'')),
      (0x17, (False, Imm 0, SEQ, ''pop ss'')), (0x1E, (False, Imm 0, SEQ, ''push ds'')),
      (0x1F, (False, Imm 0, SEQ, ''pop ds'')), (0x27, (False, Imm 0, SEQ, ''daa'')),
      (0x2F, (False, Imm 0, SEQ, ''das'')), (0x37, (False, Imm 0, SEQ, ''aaa'')),
      (0x3F, (False, Imm 0, SEQ, ''aas'')), (0x0F, (False, Imm 0, UNSUPPORTED, ''0f-escape''))] @
     fill 0x40 0x48 (False, Imm 0, SEQ, ''inc r16'') @
     fill 0x48 0x50 (False, Imm 0, SEQ, ''dec r16'') @
     fill 0x50 0x58 (False, Imm 0, SEQ, ''push r16'') @
     fill 0x58 0x60 (False, Imm 0, SEQ, ''pop r16'') @
     [(0x60, (False, Imm 0, SEQ, ''pusha'')), (0x61, (False, Imm 0, SEQ, ''popa'')),
      (0x62, (True, Imm 0, SEQ, ''bound'')), (0x63, (True, Imm 0, UNSUPPORTED, ''arpl''))] @
     fill 0x64 0x68 (False, Imm 0, UNSUPPORTED, ''386-prefix'') @
     [(0x68, (False, Imm 2, SEQ, ''push imm16'')),
      (0x69, (True, Imm 2, SEQ, ''imul r16,rm,imm16'')),
      (0x6A, (False, Imm 1, SEQ, ''push imm8'')),
      (0x6B, (True, Imm 1, SEQ, ''imul r16,rm,imm8''))] @
     fill 0x6C 0x70 (False, Imm 0, SEQ, ''ins/outs'') @
     [(0x70, (False, Imm 1, JCC, ''jo'')), (0x71, (False, Imm 1, JCC, ''jno'')),
      (0x72, (False, Imm 1, JCC, ''jb'')), (0x73, (False, Imm 1, JCC, ''jnb'')),
      (0x74, (False, Imm 1, JCC, ''jz'')), (0x75, (False, Imm 1, JCC, ''jnz'')),
      (0x76, (False, Imm 1, JCC, ''jbe'')), (0x77, (False, Imm 1, JCC, ''ja'')),
      (0x78, (False, Imm 1, JCC, ''js'')), (0x79, (False, Imm 1, JCC, ''jns'')),
      (0x7A, (False, Imm 1, JCC, ''jp'')), (0x7B, (False, Imm 1, JCC, ''jnp'')),
      (0x7C, (False, Imm 1, JCC, ''jl'')), (0x7D, (False, Imm 1, JCC, ''jge'')),
      (0x7E, (False, Imm 1, JCC, ''jle'')), (0x7F, (False, Imm 1, JCC, ''jg'')),
      (0x80, (True, Imm 1, SEQ, ''grp1 rm8,imm8'')),
      (0x81, (True, Imm 2, SEQ, ''grp1 rm16,imm16'')),
      (0x82, (True, Imm 1, SEQ, ''grp1 rm8,imm8'')),
      (0x83, (True, Imm 1, SEQ, ''grp1 rm16,imm8sx'')),
      (0x84, (True, Imm 0, SEQ, ''test rm8,r8'')),
      (0x85, (True, Imm 0, SEQ, ''test rm16,r16'')),
      (0x86, (True, Imm 0, SEQ, ''xchg rm8,r8'')),
      (0x87, (True, Imm 0, SEQ, ''xchg rm16,r16''))] @
     fill 0x88 0x8C (True, Imm 0, SEQ, ''mov'') @
     [(0x8C, (True, Imm 0, SEQ, ''mov rm16,sreg'')), (0x8D, (True, Imm 0, SEQ, ''lea'')),
      (0x8E, (True, Imm 0, SEQ, ''mov sreg,rm16'')), (0x8F, (True, Imm 0, SEQ, ''pop rm16''))] @
     fill 0x90 0x98 (False, Imm 0, SEQ, ''xchg ax,r16'') @
     [(0x98, (False, Imm 0, SEQ, ''cbw'')), (0x99, (False, Imm 0, SEQ, ''cwd'')),
      (0x9A, (False, Imm 4, CALL_FAR, ''call far'')), (0x9B, (False, Imm 0, SEQ, ''wait'')),
      (0x9C, (False, Imm 0, SEQ, ''pushf'')), (0x9D, (False, Imm 0, SEQ, ''popf'')),
      (0x9E, (False, Imm 0, SEQ, ''sahf'')), (0x9F, (False, Imm 0, SEQ, ''lahf''))] @
     fill 0xA0 0xA4 (False, Imm 2, SEQ, ''mov moffs'') @
     fill 0xA4 0xA8 (False, Imm 0, SEQ, ''movs/cmps'') @
     [(0xA8, (False, Imm 1, SEQ, ''test al,imm8'')),
      (0xA9, (False, Imm 2, SEQ, ''test ax,imm16''))] @
     fill 0xAA 0xB0 (False, Imm 0, SEQ, ''stos/lods/scas'') @
     fill 0xB0 0xB8 (False, Imm 1, SEQ, ''mov r8,imm8'') @
     fill 0xB8 0xC0 (False, Imm 2, SEQ, ''mov r16,imm16'') @
     [(0xC0, (True, Imm 1, SEQ, ''shift rm8,imm8'')),
      (0xC1, (True, Imm 1, SEQ, ''shift rm16,imm8'')),
      (0xC2, (False, Imm 2, RET, ''ret imm16'')), (0xC3, (False, Imm 0, RET, ''ret'')),
      (0xC4, (True, Imm 0, SEQ, ''les'')), (0xC5, (True, Imm 0, SEQ, ''lds'')),
      (0xC6, (True, Imm 1, SEQ, ''mov rm8,imm8'')),
      (0xC7, (True, Imm 2, SEQ, ''mov rm16,imm16'')), (0xC8, (False, Imm 3, SEQ, ''enter'')),
      (0xC9, (False, Imm 0, SEQ, ''leave'')), (0xCA, (False, Imm 2, RETF, ''retf imm16'')),
      (0xCB, (False, Imm 0, RETF, ''retf'')), (0xCC, (False, Imm 0, INT_N, ''int3'')),
      (0xCD, (False, Imm 1, INT_N, ''int'')), (0xCE, (False, Imm 0, INT_N, ''into'')),
      (0xCF, (False, Imm 0, IRET, ''iret''))] @
     fill 0xD0 0xD4 (True, Imm 0, SEQ, ''shift'') @
     [(0xD4, (False, Imm 1, SEQ, ''aam'')), (0xD5, (False, Imm 1, SEQ, ''aad'')),
      (0xD6, (False, Imm 0, UNSUPPORTED, ''salc'')), (0xD7, (False, Imm 0, SEQ, ''xlat''))] @
     fill 0xD8 0xE0 (True, Imm 0, SEQ, ''x87'') @
     [(0xE0, (False, Imm 1, JCC, ''loopnz'')), (0xE1, (False, Imm 1, JCC, ''loopz'')),
      (0xE2, (False, Imm 1, JCC, ''loop'')), (0xE3, (False, Imm 1, JCC, ''jcxz'')),
      (0xE4, (False, Imm 1, SEQ, ''in al,imm8'')), (0xE5, (False, Imm 1, SEQ, ''in ax,imm8'')),
      (0xE6, (False, Imm 1, SEQ, ''out imm8,al'')),
      (0xE7, (False, Imm 1, SEQ, ''out imm8,ax'')), (0xE8, (False, Imm 2, CALL, ''call'')),
      (0xE9, (False, Imm 2, JMP, ''jmp'')), (0xEA, (False, Imm 4, JMP_FAR, ''jmp far'')),
      (0xEB, (False, Imm 1, JMP, ''jmp short'')), (0xEC, (False, Imm 0, SEQ, ''in al,dx'')),
      (0xED, (False, Imm 0, SEQ, ''in ax,dx'')), (0xEE, (False, Imm 0, SEQ, ''out dx,al'')),
      (0xEF, (False, Imm 0, SEQ, ''out dx,ax'')), (0xF1, (False, Imm 0, UNSUPPORTED, ''f1'')),
      (0xF4, (False, Imm 0, HLT, ''hlt'')), (0xF5, (False, Imm 0, SEQ, ''cmc'')),
      (0xF6, (True, Grp3b, SEQ, ''grp3 rm8'')), (0xF7, (True, Grp3w, SEQ, ''grp3 rm16'')),
      (0xF8, (False, Imm 0, SEQ, ''clc'')), (0xF9, (False, Imm 0, SEQ, ''stc'')),
      (0xFA, (False, Imm 0, SEQ, ''cli'')), (0xFB, (False, Imm 0, SEQ, ''sti'')),
      (0xFC, (False, Imm 0, SEQ, ''cld'')), (0xFD, (False, Imm 0, SEQ, ''std'')),
      (0xFE, (True, Imm 0, SEQ, ''grp4'')), (0xFF, (True, Imm 0, SEQ, ''grp5''))]"

text \<open>The dictionary: a later row replaces an earlier one.\<close>

definition opcode_entry :: "int \<Rightarrow> entry option" where
  "opcode_entry = map_of (rev opcode_rows)"

section \<open>Decoding\<close>

text \<open>The prefix loop, at most \<open>n\<close> rounds; \<open>None\<close> is the \<open>else\<close> of the \<open>for\<close>.\<close>

primrec scan_prefixes :: "nat \<Rightarrow> (int \<Rightarrow> int) \<Rightarrow> int \<Rightarrow> (int list \<times> int) option" where
  "scan_prefixes 0 fetch pos = None"
| "scan_prefixes (Suc n) fetch pos =
     (let b = fetch pos AND 0xFF in
      if b \<in> set PREFIXES
      then map_option (\<lambda>(ps, p). (b # ps, p)) (scan_prefixes n fetch ((pos + 1) AND 0xFFFF))
      else Some ([], pos))"

definition raw_bytes :: "(int \<Rightarrow> int) \<Rightarrow> int \<Rightarrow> nat \<Rightarrow> int list" where
  "raw_bytes fetch start n = map (\<lambda>i. fetch ((start + int i) AND 0xFFFF) AND 0xFF) [0..<n]"

definition word_of :: "(int \<Rightarrow> int) \<Rightarrow> int \<Rightarrow> int" where
  "word_of fetch pos =
     (fetch pos AND 0xFF) OR push_bit 8 (fetch ((pos + 1) AND 0xFFFF) AND 0xFF)"

definition modrm_disp :: "(int \<Rightarrow> int) \<Rightarrow> int \<Rightarrow> int \<Rightarrow> int option" where
  "modrm_disp fetch pos modrm =
     (if modrm_disp_len modrm = 1 then
        (let d = fetch pos AND 0xFF in Some (if d AND 0x80 \<noteq> 0 then d - 0x100 else d))
      else if modrm_disp_len modrm = 2 then
        (let d = word_of fetch pos in
         Some (if drop_bit 6 modrm = 0 then d else if d AND 0x8000 \<noteq> 0 then d - 0x10000 else d))
      else None)"

definition imm_length :: "imm_spec \<Rightarrow> int option \<Rightarrow> nat" where
  "imm_length imm modrm =
     (let first_two = (case modrm of Some m \<Rightarrow> drop_bit 3 m AND 7 = 0 \<or> drop_bit 3 m AND 7 = 1
                                   | None \<Rightarrow> False) in
      case imm of Grp3b \<Rightarrow> (if first_two then 1 else 0) | Grp3w \<Rightarrow> (if first_two then 2 else 0)
      | Imm n \<Rightarrow> n)"

text \<open>The control-flow class of the groups FE and FF depends on the ModRM byte.\<close>

definition group_kind :: "int \<Rightarrow> int option \<Rightarrow> kind \<times> string \<Rightarrow> kind \<times> string" where
  "group_kind op modrm km =
     (case modrm of None \<Rightarrow> km
      | Some m \<Rightarrow>
          (let reg = drop_bit 3 m AND 7 in
           if op = 0xFE \<and> reg \<noteq> 0 \<and> reg \<noteq> 1 then (UNSUPPORTED, ''grp4 invalid /r'')
           else if op = 0xFF then
             (if reg = 0 then (SEQ, ''inc rm16'') else if reg = 1 then (SEQ, ''dec rm16'')
              else if reg = 2 then (CALL_IND, ''call rm16'')
              else if reg = 3 then (CALL_IND, ''call far rm'')
              else if reg = 4 then (JMP_IND, ''jmp rm16'')
              else if reg = 5 then (JMP_IND, ''jmp far rm'')
              else if reg = 6 then (SEQ, ''push rm16'')
              else (UNSUPPORTED, ''grp5 invalid /r''))
           else km))"

text \<open>\<open>rel\<close> of a near transfer, from the last raw bytes.\<close>

definition near_rel :: "nat \<Rightarrow> int list \<Rightarrow> int" where
  "near_rel imm_len bs =
     (if imm_len = 1 then
        (let rel = last bs in if rel \<ge> 0x80 then rel - 0x100 else rel)
      else
        (let rel = bs ! (length bs - 2) OR push_bit 8 (last bs) in
         if rel \<ge> 0x8000 then rel - 0x10000 else rel))"

text \<open>\<open>02X\<close> of a byte.\<close>

definition hex2 :: "int \<Rightarrow> string" where
  "hex2 b = map (\<lambda>d. ''0123456789ABCDEF'' ! nat d) [drop_bit 4 b, b AND 0xF]"

text \<open>Targets and interrupt number, from the kind of the instruction.\<close>

definition resolve :: "(int \<Rightarrow> int) \<Rightarrow> int \<Rightarrow> nat \<Rightarrow> Inst \<Rightarrow> Inst" where
  "resolve fetch imm_pos imm_len i =
     (let kind = inst_kind i in
      if kind = JCC \<or> kind = JMP \<or> kind = CALL then
        i\<lparr>inst_target := Some ((inst_ip i + inst_length i + near_rel imm_len (raw i)) AND 0xFFFF)\<rparr>
      else if kind = JMP_FAR \<or> kind = CALL_FAR then
        (let at = (\<lambda>k. fetch ((imm_pos + k) AND 0xFFFF));
             off = fetch imm_pos OR push_bit 8 (at 1); seg = at 2 OR push_bit 8 (at 3) in
         i\<lparr>far_target := Some (seg AND 0xFFFF, off AND 0xFFFF)\<rparr>)
      else if kind = INT_N then
        i\<lparr>int_no := (if inst_op i = 0xCC then Some 3 else if inst_op i = 0xCE then Some 4
                     else if imm_len \<noteq> 0 then Some (last (raw i)) else None)\<rparr>
      else i)"

lemma resolve_simps [simp]:
  "inst_length (resolve fetch imm_pos imm_len i) = inst_length i"
  "inst_prefixes (resolve fetch imm_pos imm_len i) = inst_prefixes i"
  "raw (resolve fetch imm_pos imm_len i) = raw i"
  "inst_kind (resolve fetch imm_pos imm_len i) = inst_kind i"
  by (simp_all add: resolve_def Let_def)

definition decode_one :: "(int \<Rightarrow> int) \<Rightarrow> int \<Rightarrow> Inst" where
  "decode_one fetch start =
     (let blank = \<lparr>inst_ip = start, inst_length = 0, inst_kind = UNSUPPORTED, mnemonic = '''',
            raw = [], inst_target = None, far_target = None, int_no = None, inst_prefixes = [],
            inst_op = 0, inst_modrm = None, inst_disp = None, inst_imm = None\<rparr> in
      case scan_prefixes MAX_LEN fetch start of
        None \<Rightarrow> blank\<lparr>inst_length := int MAX_LEN, mnemonic := ''prefix-overrun'',
                      raw := raw_bytes fetch start MAX_LEN\<rparr>
      | Some (ps, pos) \<Rightarrow>
        (let op = fetch pos AND 0xFF; pos = (pos + 1) AND 0xFFFF in
         case opcode_entry op of
           None \<Rightarrow>
             (let len = (pos - start) AND 0xFFFF in
              blank\<lparr>inst_length := len, mnemonic := ''db 0x'' @ hex2 op, raw := raw_bytes fetch start (nat len),
                    inst_prefixes := ps, inst_op := op\<rparr>)
         | Some (has_modrm, imm, kind0, mnem0) \<Rightarrow>
             (let modrm = (if has_modrm then Some (fetch pos AND 0xFF) else None);
                  pos1 = (if has_modrm then (pos + 1) AND 0xFFFF else pos);
                  dlen = (case modrm of Some m \<Rightarrow> modrm_disp_len m | None \<Rightarrow> 0);
                  disp = (case modrm of Some m \<Rightarrow> modrm_disp fetch pos1 m | None \<Rightarrow> None);
                  imm_pos = (if has_modrm then (pos1 + int dlen) AND 0xFFFF else pos1);
                  imm_len = imm_length imm modrm;
                  end_pos = (imm_pos + int imm_len) AND 0xFFFF;
                  len = (end_pos - start) AND 0xFFFF;
                  bs = raw_bytes fetch start (nat len);
                  imm_val = (if imm_len = 1 then Some (fetch imm_pos AND 0xFF)
                             else if imm_len = 2 then Some (word_of fetch imm_pos) else None);
                  km = group_kind op modrm (kind0, mnem0) in
              resolve fetch imm_pos imm_len
                (blank\<lparr>inst_length := len, inst_kind := fst km, mnemonic := snd km, raw := bs,
                       inst_prefixes := ps, inst_op := op, inst_modrm := modrm,
                       inst_disp := disp, inst_imm := imm_val\<rparr>))))"

section \<open>Offsets\<close>

definition off_at :: "int \<Rightarrow> nat \<Rightarrow> int" where
  "off_at start k = (start + int k) AND 0xFFFF"

lemma off_at_step: "(off_at start k + int j) AND 65535 = off_at start (k + j)"
  by (simp add: off_at_def mask_simps mod_add_left_eq add.assoc)

lemma off_at_Suc: "(off_at start k + 1) AND 65535 = off_at start (Suc k)"
  using off_at_step [of start k 1] by simp

lemma off_at_diff: "k < 65536 \<Longrightarrow> (off_at start k - start) AND 65535 = int k"
proof -
  assume "k < 65536"
  moreover have "((start + int k) mod 65536 - start) mod 65536 = int k mod 65536"
    by (metis add_diff_cancel_left' mod_diff_left_eq)
  ultimately show ?thesis by (simp add: off_at_def mask_simps)
qed

lemma off_at_0: "u16 start \<Longrightarrow> off_at start 0 = start"
  by (simp add: off_at_def u16_def mask_simps)

lemma scan_prefixes_result:
  assumes "scan_prefixes n fetch (off_at start k) = Some (ps, pos)"
  shows "pos = off_at start (k + length ps)" "length ps < n" "set ps \<subseteq> set PREFIXES"
    "fetch pos AND 0xFF \<notin> set PREFIXES"
    "ps = map (\<lambda>j. fetch (off_at start (k + j)) AND 0xFF) [0..<length ps]"
proof -
  have "pos = off_at start (k + length ps) \<and> length ps < n \<and> set ps \<subseteq> set PREFIXES
    \<and> fetch pos AND 0xFF \<notin> set PREFIXES
    \<and> ps = map (\<lambda>j. fetch (off_at start (k + j)) AND 0xFF) [0..<length ps]"
    using assms
  proof (induction n arbitrary: k ps)
    case 0
    then show ?case by simp
  next
    case (Suc n)
    show ?case
    proof (cases "fetch (off_at start k) AND 0xFF \<in> set PREFIXES")
      case True
      then obtain qs where qs: "scan_prefixes n fetch (off_at start (Suc k)) = Some (qs, pos)"
          "ps = (fetch (off_at start k) AND 0xFF) # qs"
        using Suc.prems by (auto simp: off_at_Suc)
      have "map (\<lambda>j. fetch (off_at start (k + j)) AND 0xFF) [0..<length ps]
          = (fetch (off_at start k) AND 0xFF) # map (\<lambda>j. fetch (off_at start (Suc k + j)) AND 0xFF) [0..<length qs]"
        unfolding qs(2) length_Cons map_upt_Suc by simp
      moreover have "pos = off_at start (Suc k + length qs)" "length qs < n" "set qs \<subseteq> set PREFIXES"
          "fetch pos AND 0xFF \<notin> set PREFIXES"
          "qs = map (\<lambda>j. fetch (off_at start (Suc k + j)) AND 0xFF) [0..<length qs]"
        using Suc.IH [OF qs(1)] by blast+
      ultimately show ?thesis using qs(2) True by (intro conjI) (simp_all del: upt_Suc)
    next
      case False
      then show ?thesis using Suc.prems by auto
    qed
  qed
  then show "pos = off_at start (k + length ps)" "length ps < n" "set ps \<subseteq> set PREFIXES"
    "fetch pos AND 0xFF \<notin> set PREFIXES"
    "ps = map (\<lambda>j. fetch (off_at start (k + j)) AND 0xFF) [0..<length ps]" by blast+
qed

text \<open>What the table guarantees of every row.\<close>

definition row_ok :: "int \<times> entry \<Rightarrow> bool" where
  "row_ok = (\<lambda>(op, m, im, k, nm). 0 \<le> op \<and> op < 256 \<and>
     (case im of Imm n \<Rightarrow> n \<le> (if m then 2 else 4) | _ \<Rightarrow> m)
     \<and> (k \<in> {JCC, JMP, CALL} \<longrightarrow> \<not> m \<and> (im = Imm 1 \<or> im = Imm 2))
     \<and> (k \<in> {JMP_FAR, CALL_FAR} \<longrightarrow> \<not> m \<and> im = Imm 4))"

lemma opcode_rows_ok: "list_all row_ok opcode_rows"
  by code_simp

lemma opcode_entry_ok: "opcode_entry op = Some e \<Longrightarrow> row_ok (op, e)"
  using opcode_rows_ok by (auto simp: opcode_entry_def list_all_iff dest: map_of_SomeD)

lemma modrm_disp_len_le: "modrm_disp_len m \<le> 2"
  by (simp add: modrm_disp_len_def Let_def)

section \<open>The decoded instruction\<close>

text \<open>The bytes an instruction is made of: prefixes, opcode, ModRM and displacement, immediate.\<close>

definition operand_length :: "(int \<Rightarrow> int) \<Rightarrow> int \<Rightarrow> entry \<Rightarrow> nat" where
  "operand_length fetch pos = (\<lambda>(m, im, k, nm).
     if m then 1 + modrm_disp_len (fetch pos AND 0xFF) + imm_length im (Some (fetch pos AND 0xFF))
     else imm_length im None)"

lemma operand_length_le: "row_ok (op, e) \<Longrightarrow> operand_length fetch pos e \<le> 5"
  using modrm_disp_len_le [of "fetch pos AND 0xFF"]
  by (auto simp: operand_length_def row_ok_def imm_length_def Let_def split: imm_spec.splits)

lemma decode_one_cases:
  assumes "u16 start"
  obtains (overrun) "scan_prefixes MAX_LEN fetch start = None"
      "inst_length (decode_one fetch start) = 15"
  | (unknown) ps where "scan_prefixes MAX_LEN fetch start = Some (ps, off_at start (length ps))"
      "length ps < 15" "opcode_entry (fetch (off_at start (length ps)) AND 0xFF) = None"
      "inst_length (decode_one fetch start) = int (length ps + 1)"
  | (known) ps e where "scan_prefixes MAX_LEN fetch start = Some (ps, off_at start (length ps))"
      "length ps < 15" "opcode_entry (fetch (off_at start (length ps)) AND 0xFF) = Some e"
      "inst_length (decode_one fetch start)
        = int (length ps + 1 + operand_length fetch (off_at start (length ps + 1)) e)"
proof (cases "scan_prefixes MAX_LEN fetch start")
  case None
  then show ?thesis using overrun by (simp add: decode_one_def Let_def MAX_LEN_def)
next
  case (Some r)
  obtain ps pos where r: "r = (ps, pos)" by (cases r)
  have S: "pos = off_at start (length ps)" "length ps < 15"
    using scan_prefixes_result [of MAX_LEN fetch start 0 ps pos] Some r off_at_0 [OF assms]
    by (simp_all add: MAX_LEN_def)
  show ?thesis
  proof (cases "opcode_entry (fetch pos AND 0xFF)")
    case None
    then have "inst_length (decode_one fetch start) = int (length ps + 1)"
      using Some r S off_at_diff [of "Suc (length ps)" start]
      by (simp add: decode_one_def Let_def off_at_Suc)
    then show ?thesis using unknown Some r S None by simp
  next
    case (Some e)
    obtain m im k nm where e: "e = (m, im, k, nm)" by (metis prod_cases4)
    let ?n = "length ps + 1 + operand_length fetch (off_at start (length ps + 1)) e"
    have "?n < 65536"
      using operand_length_le [OF opcode_entry_ok [OF Some], of fetch "off_at start (length ps + 1)"] S(2)
      by simp
    then have len: "(off_at start ?n - start) AND 65535 = int ?n" by (rule off_at_diff)
    have "inst_length (decode_one fetch start) = int ?n"
    proof (cases m)
      case True
      let ?l = "modrm_disp_len (fetch (off_at start (length ps + 1)) AND 255)"
      have "inst_length (decode_one fetch start)
          = (off_at start (length ps + 1 + 1 + ?l
              + imm_length im (Some (fetch (off_at start (length ps + 1)) AND 255))) - start) AND 65535"
        using \<open>scan_prefixes _ _ _ = _\<close> r S Some e True
        by (simp add: decode_one_def Let_def off_at_Suc off_at_step)
      then show ?thesis using len e True by (simp add: operand_length_def ac_simps)
    next
      case False
      then show ?thesis
        using \<open>scan_prefixes _ _ _ = _\<close> r S Some e len
        by (simp add: decode_one_def Let_def off_at_Suc off_at_step operand_length_def)
    qed
    then show ?thesis using known \<open>scan_prefixes _ _ _ = _\<close> r S Some by simp
  qed
qed

end
