(* ===== verification/Decode_Interp.thy ===== *)
theory Decode_Interp
  imports Decode CPU_Run
begin

text \<open>
  The decoder of \<open>dos_re/lift/decode.py\<close> against the interpreter of \<open>dos_re/cpu.py\<close> on the same
  bytes: extent and raw bytes of what it decodes, prefixes, ModRM operands.
\<close>

section \<open>Reading code\<close>

text \<open>The \<open>fetch\<close> a caller gives the decoder: the bytes of the machine's code segment.\<close>

definition fetch_cs :: "'w cpu \<Rightarrow> int \<Rightarrow> int" where
  "fetch_cs c off = uint (mdata (mem c) (linear (cs (regs c)) off))"

lemma linear_wrap: "linear sg (off AND 0xFFFF) = linear sg off"
  by (simp add: linear_def)

lemma fetch_cs_at: "fetch_cs c (off_at (ip (regs c)) k) = code_at c k"
  using linear_wrap [of "cs (regs c)" "ip (regs c) + int k"]
  by (simp add: fetch_cs_def code_at_def off_at_def)

lemma code_at_byte [simp]: "code_at c k AND 255 = code_at c k"
  using uint_lt2p [of "mdata (mem c) (linear (cs (regs c)) (ip (regs c) + int k))"]
  by (simp add: code_at_def mask_simps)

lemma code_at_range: "0 \<le> code_at c k" "code_at c k < 256"
  using uint_lt2p [of "mdata (mem c) (linear (cs (regs c)) (ip (regs c) + int k))"]
  by (simp_all add: code_at_def)

section \<open>Extent\<close>

lemma decode_one_raw:
  "raw (decode_one fetch start) = raw_bytes fetch start (nat (inst_length (decode_one fetch start)))"
  by (simp add: decode_one_def Let_def split: option.splits prod.splits)

lemma resolve_target: "inst_target (resolve fetch p n i) = Some t \<Longrightarrow> inst_target i = None \<Longrightarrow> u16 t"
  by (auto simp: resolve_def Let_def u16_def mask_simps split: if_splits)

lemma decode_one_target:
  assumes "inst_target (decode_one fetch start) = Some t"
  shows "u16 t"
proof (cases "scan_prefixes MAX_LEN fetch start")
  case None
  then show ?thesis using assms by (simp add: decode_one_def Let_def)
next
  case (Some r)
  obtain ps pos where r: "r = (ps, pos)" by (cases r)
  show ?thesis
  proof (cases "opcode_entry (fetch pos AND 0xFF)")
    case None
    then show ?thesis using assms Some r by (simp add: decode_one_def Let_def)
  next
    case E: (Some e)
    obtain m im k nm where e: "e = (m, im, k, nm)" by (metis prod_cases4)
    show ?thesis using assms Some r E e
      unfolding decode_one_def Let_def
      by (simp only: option.case prod.case) (erule resolve_target, simp)
  qed
qed

text \<open>
  the decoder always makes progress and never runs away: an instruction is one to twenty bytes,
  its raw bytes are those at its offset (wrapping in the segment), and the target of a near
  transfer is a 16-bit offset.
\<close>

theorem decoded_extent:
  assumes "u16 start"
  shows "1 \<le> inst_length (decode_one fetch start) \<and> inst_length (decode_one fetch start) \<le> 20
    \<and> raw (decode_one fetch start)
      = map (\<lambda>k. fetch ((start + int k) AND 0xFFFF) AND 0xFF) [0..<nat (inst_length (decode_one fetch start))]
    \<and> (\<forall>t. inst_target (decode_one fetch start) = Some t \<longrightarrow> u16 t)"
proof (intro conjI)
  let ?i = "decode_one fetch start"
  have "1 \<le> inst_length ?i \<and> inst_length ?i \<le> 20"
  proof (cases fetch rule: decode_one_cases [OF assms])
    case (3 ps e)
    have "operand_length fetch (off_at start (length ps + 1)) e \<le> 5"
      by (rule operand_length_le [OF opcode_entry_ok [OF 3(3)]])
    then show ?thesis using 3 by simp
  qed simp_all
  then show "1 \<le> inst_length ?i" "inst_length ?i \<le> 20" by blast+
  show "raw ?i = map (\<lambda>k. fetch ((start + int k) AND 0xFFFF) AND 0xFF) [0..<nat (inst_length ?i)]"
    using decode_one_raw [of fetch start] by (simp add: raw_bytes_def)
  show "\<forall>t. inst_target ?i = Some t \<longrightarrow> u16 t" using decode_one_target by blast
qed

text \<open>A backward short jump at 0100h, and a prefix run of fifteen bytes.\<close>

theorem decoded_extent_witness:
  "inst_target (decode_one (\<lambda>p. if p = 0x100 then 0xEB else 0xFE) 0x100) = Some 0x100
   \<and> 1 \<le> inst_length (decode_one (\<lambda>_. 0xF0) 0x100)"
proof
  show "1 \<le> inst_length (decode_one (\<lambda>_. 0xF0) 0x100)"
    using decoded_extent [where start = "0x100" and fetch = "\<lambda>_. 0xF0"] by (simp add: u16_def)
qed code_simp

section \<open>Prefixes\<close>

lemma find_filter: "find P xs = (case filter P xs of [] \<Rightarrow> None | x # _ \<Rightarrow> Some x)"
  by (induction xs) auto

text \<open>A known instruction: the decoder saw its prefixes and stands on the opcode.\<close>

lemma decode_one_prefixes:
  assumes "plain_code c" "u16 (ip (regs c))" "i = decode_one (fetch_cs c) (ip (regs c))"
    "inst_kind i \<noteq> UNSUPPORTED"
  shows "inst_prefixes i = map (code_at c) [0..<length (inst_prefixes i)]"
    "inst_op i = code_at c (length (inst_prefixes i))"
    "set (inst_prefixes i) \<subseteq> set PREFIXES" "inst_op i \<notin> set PREFIXES" "inst_op i \<noteq> 0x66"
proof -
  have K: "inst_kind (decode_one (fetch_cs c) (ip (regs c))) \<noteq> UNSUPPORTED"
    using assms(3,4) by simp
  have Z: "ip (regs c) = off_at (ip (regs c)) 0" using off_at_0 [OF assms(2)] by simp
  obtain ps pos where S: "scan_prefixes MAX_LEN (fetch_cs c) (ip (regs c)) = Some (ps, pos)"
    using K by (cases "scan_prefixes MAX_LEN (fetch_cs c) (ip (regs c))")
      (auto simp: decode_one_def Let_def)
  have R: "pos = off_at (ip (regs c)) (length ps)" "set ps \<subseteq> set PREFIXES"
      "fetch_cs c pos AND 0xFF \<notin> set PREFIXES"
      "ps = map (\<lambda>j. fetch_cs c (off_at (ip (regs c)) j) AND 0xFF) [0..<length ps]"
    using scan_prefixes_result [of MAX_LEN "fetch_cs c" "ip (regs c)" 0 ps pos] S off_at_0 [OF assms(2)]
    by simp_all
  obtain e where E: "opcode_entry (code_at c (length ps)) = Some e"
    using K S R(1) by (cases "opcode_entry (code_at c (length ps))")
      (auto simp: decode_one_def Let_def fetch_cs_at)
  obtain m im k nm where e: "e = (m, im, k, nm)" by (metis prod_cases4)
  have I: "inst_prefixes i = ps" "inst_op i = code_at c (length ps)"
      "inst_kind i = fst (group_kind (code_at c (length ps))
        (if m then Some (fetch_cs c ((pos + 1) AND 0xFFFF) AND 0xFF) else None) (k, nm))"
    using S R(1) E e unfolding assms(3)
    by (simp_all add: decode_one_def Let_def fetch_cs_at resolve_def)
  show "inst_prefixes i = map (code_at c) [0..<length (inst_prefixes i)]"
    using R(4) I(1) by (simp add: fetch_cs_at comp_def)
  show "inst_op i = code_at c (length (inst_prefixes i))" using I by simp
  show "set (inst_prefixes i) \<subseteq> set PREFIXES" "inst_op i \<notin> set PREFIXES"
    using R I by (simp_all add: fetch_cs_at)
  have "opcode_entry 0x66 = Some (False, Imm 0, UNSUPPORTED, ''386-prefix'')" by code_simp
  then show "inst_op i \<noteq> 0x66"
    using E e I assms(4) by (auto simp: group_kind_def)
qed

text \<open>The repeat prefix, first and last: they differ only where both F2 and F3 occur.\<close>

lemma last_repeat:
  assumes "\<not> (0xF2 \<in> set ps \<and> 0xF3 \<in> set ps)"
  shows "find is_rep_prefix (rev ps) = find is_rep_prefix ps"
proof -
  have "x = y" if "x \<in> set (filter is_rep_prefix ps)" "y \<in> set (filter is_rep_prefix ps)" for x y
    using that assms by (auto simp: is_rep_prefix_def)
  then have "rev (filter is_rep_prefix ps) = filter is_rep_prefix ps"
    by (metis (no_types, lifting) replicate_eqI rev_replicate)
  then show ?thesis by (simp add: find_filter rev_filter)
qed

lemma lock_is_unsupported: "execute_opcode E 0xF0 so rep d = (Inl UnsupportedInstruction, d)"
  by (simp add: execute_opcode_def)

text \<open>
  C20: on every instruction the decoder supports, the interpreter's prefix loop is described by the
  decoded prefixes.  Without a LOCK it ends just behind the opcode byte of the decoded instruction,
  with its opcode, its segment override and the last of its repeat prefixes; that is the repeat
  prefix of the decoded instruction, which is the first, unless F2 and F3 both occur.  With a LOCK it
  ends behind the first one, taking it for the opcode, for which the interpreter raises.
\<close>

theorem decoder_prefixes_are_interpreters:
  assumes "plain_code c" "u16 (ip (regs c))" "i = decode_one (fetch_cs c) (ip (regs c))"
    "inst_kind i \<noteq> UNSUPPORTED"
  shows "if 0xF0 \<notin> set (inst_prefixes i)
    then prefix_loop (None, None) c = Some (Inr (inst_op i, seg_override i, find is_rep_prefix (rev (inst_prefixes i))),
        skip_ip (Suc (length (inst_prefixes i))) c)
      \<and> (\<not> (0xF2 \<in> set (inst_prefixes i) \<and> 0xF3 \<in> set (inst_prefixes i))
        \<longrightarrow> find is_rep_prefix (rev (inst_prefixes i)) = inst_rep i)
    else \<exists>j so rep. j < length (inst_prefixes i) \<and> inst_prefixes i ! j = 0xF0 \<and> 0xF0 \<notin> set (take j (inst_prefixes i))
      \<and> prefix_loop (None, None) c = Some (Inr (0xF0, so, rep), skip_ip (Suc j) c)
      \<and> (\<forall>E d. execute_opcode E 0xF0 so rep d = (Inl UnsupportedInstruction, d))"
proof -
  let ?ps = "inst_prefixes i"
  note D = decode_one_prefixes [OF assms]
  have N: "code_at c j = ?ps ! j" if "j < length ?ps" for j
    using D(1) that by (metis nth_map_upt add_0 diff_zero)
  have P: "is_prefix (code_at c j)" if "j < length ?ps" "?ps ! j \<noteq> 0xF0" for j
    using subsetD [OF D(3) nth_mem [OF that(1)]] N [OF that(1)] that(2)
    by (auto simp: PREFIXES_def is_prefix_def is_seg_prefix_def is_rep_prefix_def)
  show ?thesis
  proof (cases "0xF0 \<in> set ?ps")
    case False
    have P': "is_prefix (code_at c j)" if "j < length ?ps" for j
      by (rule P [OF that]) (use False that in \<open>auto simp: in_set_conv_nth\<close>)
    have Q: "\<not> is_prefix (code_at c (length ?ps))"
      using D(2,4,5) by (auto simp: PREFIXES_def is_prefix_def is_seg_prefix_def is_rep_prefix_def)
    have "(case filter is_seg_prefix (rev ?ps) of [] \<Rightarrow> None | b # _ \<Rightarrow> Some (seg_override_of b)) = seg_override i"
      by (simp add: seg_override_def find_filter split: list.splits)
    then have "prefix_loop (None, None) c = Some (Inr (inst_op i, seg_override i, find is_rep_prefix (rev ?ps)), skip_ip (Suc (length ?ps)) c)"
      using prefix_loop_result [OF assms(1) P' Q] D(1,2) by (simp add: fold_note_prefix find_filter)
    moreover have "find is_rep_prefix ?ps = inst_rep i"
      by (simp add: inst_rep_def is_rep_prefix_def [abs_def])
    ultimately show ?thesis
      using False last_repeat by (simp del: find.simps)
  next
    case True
    define j where "j = length (takeWhile (\<lambda>p. p \<noteq> 0xF0) ?ps)"
    have T: "take j ?ps = takeWhile (\<lambda>p. p \<noteq> 0xF0) ?ps" by (simp add: j_def takeWhile_eq_take [symmetric])
    have "takeWhile (\<lambda>p. p \<noteq> 0xF0) ?ps \<noteq> ?ps" using True set_takeWhileD [of "0xF0" "\<lambda>p. p \<noteq> 0xF0" ?ps] by metis
    then have "j < length ?ps"
      using length_takeWhile_le [of "\<lambda>p. p \<noteq> 0xF0" ?ps] T unfolding j_def
      by (metis nat_less_le take_all_iff)
    moreover have "0xF0 \<notin> set (take j ?ps)" unfolding T by (auto dest: set_takeWhileD)
    ultimately have j: "j < length ?ps" "?ps ! j = 0xF0" "0xF0 \<notin> set (take j ?ps)"
      using nth_length_takeWhile [of "\<lambda>p. p \<noteq> 0xF0" ?ps] by (auto simp: j_def)
    have "is_prefix (code_at c k)" if "k < j" for k
      by (rule P) (use that j(1) j(3) in \<open>auto simp: in_set_conv_nth\<close>)
    moreover have "code_at c j = 0xF0" using N [OF j(1)] j(2) by simp
    ultimately obtain so rep where "prefix_loop (None, None) c = Some (Inr (0xF0, so, rep), skip_ip (Suc j) c)"
      using prefix_loop_result [OF assms(1), of j "(None, None)"]
      by (auto simp: is_prefix_def is_seg_prefix_def is_rep_prefix_def fold_note_prefix)
    then show ?thesis
      using True j lock_is_unsupported by (subst if_not_P) blast+
  qed
qed

text \<open>\<open>ES: REP MOVSB\<close>.\<close>

lemma fetch_program:
  "0 \<le> off \<Longrightarrow> off < int (length bs) \<Longrightarrow> length bs \<le> 65536
    \<Longrightarrow> fetch_cs (program_cpu bs) off = uint (bs ! nat off)"
  by (simp add: fetch_cs_def program_cpu_def CPU8086_def CPUState_init_def linear_eq)

theorem decoder_prefixes_are_interpreters_witness:
  "prefix_loop (None, None) (program_cpu [0x26, 0xF3, 0xA4])
    = Some (Inr (0xA4, Some ES, Some 0xF3), skip_ip 3 (program_cpu [0x26, 0xF3, 0xA4]))"
proof -
  let ?c = "program_cpu [0x26, 0xF3, 0xA4]"
  have F: "fetch_cs ?c 0 = 0x26" "fetch_cs ?c 1 = 0xF3" "fetch_cs ?c 2 = 0xA4"
    by (simp_all add: fetch_program)
  have Z: "ip (regs ?c) = 0" by (simp add: program_cpu_def CPU8086_def CPUState_init_def)
  have T: "opcode_entry 0xA4 = Some (False, Imm 0, SEQ, ''movs/cmps'')" by code_simp
  let ?i = "decode_one (fetch_cs ?c) (ip (regs ?c))"
  have S: "scan_prefixes MAX_LEN (fetch_cs ?c) 0 = Some ([0x26, 0xF3], 2)"
    using F by (simp add: MAX_LEN_def numeral_eq_Suc PREFIXES_def)
  have I: "inst_op ?i = 0xA4" "inst_prefixes ?i = [0x26, 0xF3]" "inst_kind ?i = SEQ"
    using F(3) T S by (simp_all add: Z decode_one_def Let_def resolve_def group_kind_def)
  show ?thesis
    using decoder_prefixes_are_interpreters [OF program_plain [of "[0x26, 0xF3, 0xA4]"] _ refl] I
    by (simp add: Z u16_def is_rep_prefix_def seg_override_def is_seg_prefix_def
        seg_override_of_def numeral_eq_Suc)
qed

text \<open>With two different repeat prefixes they disagree: the decoder keeps the first, the interpreter
  the last.\<close>

lemma mixed_repeat_prefixes:
  "inst_rep (decode_one (\<lambda>p. if p = 0 then 0xF2 else if p = 1 then 0xF3 else 0xA4) 0) = Some 0xF2
   \<and> snd (fold note_prefix [0xF2, 0xF3] (None, None)) = Some 0xF3"
  by code_simp

section \<open>ModRM operands\<close>

lemma code_byte_at:
  assumes "plain_code c" "mem d = mem c"
  shows "on_mem (byte_at ((push_bit 4 (cs (regs c) AND 0xFFFF) + ((ip (regs c) + int k) AND 0xFFFF))
    AND 0xFFFFF)) d = (Inr (code_at c k), d)"
proof -
  let ?a = "linear (cs (regs c)) (ip (regs c) + int k)"
  have "byte_at ?a (mem c) = (Inr (uint (mdata (mem c) ?a)), mem c)"
    using assms linear_range [of "cs (regs c)" "ip (regs c) + int k"] real_modeD [of "mem c"]
    by (simp add: byte_at_ok plain_code_def)
  then show ?thesis by (simp only: linear_def [symmetric] on_mem_def code_at_def assms(2)) (simp flip: assms(2))
qed

lemma code_word_at:
  assumes "plain_code c" "mem d = mem c"
  defines "base \<equiv> push_bit 4 (cs (regs c) AND 0xFFFF) AND 0xFFFFF"
  shows "on_mem (byte_at ((base + (ip (regs c) AND 0xFFFF)) AND 0xFFFFF)) d = (Inr (code_at c 0), d)"
    "on_mem (byte_at ((base + (((ip (regs c) AND 0xFFFF) + 1) AND 0xFFFF)) AND 0xFFFFF)) d
      = (Inr (code_at c 1), d)"
proof -
  have w: "((ip (regs c) AND 0xFFFF) + 1) AND 0xFFFF = (ip (regs c) + 1) AND (0xFFFF::int)"
    by (simp add: mask_simps mod_add_left_eq)
  have b: "(base + x) AND 0xFFFFF = (push_bit 4 (cs (regs c) AND 0xFFFF) + x) AND 0xFFFFF" for x
    by (simp add: base_def mask_simps mod_add_left_eq)
  show "on_mem (byte_at ((base + (ip (regs c) AND 0xFFFF)) AND 0xFFFFF)) d = (Inr (code_at c 0), d)"
    using code_byte_at [OF assms(1,2), of 0] by (simp only: b) simp
  show "on_mem (byte_at ((base + (((ip (regs c) AND 0xFFFF) + 1) AND 0xFFFF)) AND 0xFFFFF)) d
      = (Inr (code_at c 1), d)"
    using code_byte_at [OF assms(1,2), of 1] by (simp only: b w) simp
qed

lemma plain_codeD: "plain_code c \<Longrightarrow> sel_base (mem c) = None \<and> \<not> ega_planar (mem c)"
  by (simp add: plain_code_def real_mode_def)

lemma set_ip_skip:
  "set_ip (((ip (regs c) AND 0xFFFF) + 1) AND 0xFFFF) c = (Inr (), skip_ip 1 c)"
  "set_ip (((ip (regs c) AND 0xFFFF) + 2) AND 0xFFFF) c = (Inr (), skip_ip 2 c)"
  by (simp_all add: set_ip_def upd_regs_def skip_ip_def mask_simps mod_add_left_eq)

lemma fetch16_plain:
  assumes "plain_code c"
  shows "fetch16 c = (Inr (code_at c 0 OR push_bit 8 (code_at c 1)), skip_ip 2 c)"
  unfolding fetch16_def Let_def
  using plain_codeD [OF assms]
  by (simp add: set_ip_skip code_word_at [OF assms, simplified])

text \<open>The displacement the interpreter adds, from the decoder's.\<close>

definition ea_of :: "int \<Rightarrow> int \<Rightarrow> sreg option \<Rightarrow> CPUState \<Rightarrow> int option \<Rightarrow> EffectiveAddress" where
  "ea_of md rm so r disp = (let d = (case disp of None \<Rightarrow> 0 | Some d \<Rightarrow> d) in
     if md = 0 \<and> rm = 6 then \<lparr>segment = seg_or so DS, offset = d AND 0xFFFF\<rparr>
     else \<lparr>segment = seg_or so (snd (ea_base rm r)), offset = (fst (ea_base rm r) + d) AND 0xFFFF\<rparr>)"

lemma decode_ea_plain:
  assumes "plain_code c" "u8 m" "drop_bit 6 m < 3" "u16 (ip (regs c))"
  shows "decode_ea (drop_bit 6 m AND 3) (m AND 7) so c
    = (Inr (ea_of (drop_bit 6 m) (m AND 7) so (regs c) (modrm_disp (fetch_cs c) (ip (regs c) AND 0xFFFF) m)),
       skip_ip (modrm_disp_len m) c)"
proof -
  have w: "((ip (regs c) AND 0xFFFF) + 1) AND 0xFFFF = (ip (regs c) + 1) AND (0xFFFF::int)"
    by (simp add: mask_simps mod_add_left_eq)
  have f: "fetch_cs c (ip (regs c) AND 0xFFFF) = code_at c 0"
      "fetch_cs c (((ip (regs c) AND 0xFFFF) + 1) AND 0xFFFF) = code_at c 1"
    using linear_wrap [of "cs (regs c)" "ip (regs c)"] linear_wrap [of "cs (regs c)" "ip (regs c) + 1"]
    by (simp_all only: fetch_cs_def code_at_def w) simp_all
  consider "drop_bit 6 m = 0" | "drop_bit 6 m = 1" | "drop_bit 6 m = 2"
    using assms(2,3) by (auto simp: u8_def mask_simps) linarith
  then show ?thesis
  proof cases
    case 1
    have "skip_ip 0 c = c" using u16_id [OF assms(4)] by (simp add: skip_ip_def)
    with 1 show ?thesis
      using plain_codeD [OF assms(1)] f
      by (auto simp: decode_ea_def ea_of_def modrm_disp_def modrm_disp_len_def word_of_def Let_def
          fetch16_plain [OF assms(1)] split: prod.splits)
  qed (use plain_codeD [OF assms(1)] f in \<open>simp_all add: decode_ea_def ea_of_def modrm_disp_def
    modrm_disp_len_def word_of_def Let_def set_ip_skip code_word_at [OF assms(1), simplified]
    split: prod.splits\<close>)
qed

lemma skip_ip_regs: "ea_of md rm so (regs (skip_ip k c)) d = ea_of md rm so (regs c) d"
proof -
  have "ea_base rm (regs (skip_ip k c)) = ea_base rm (regs c)"
    by (simp add: ea_base_def skip_ip_def)
  then show ?thesis unfolding ea_of_def Let_def by simp
qed

text \<open>
  C19: on every ModRM byte with a memory form the interpreter reads exactly the displacement bytes
  the decoder counts, and addresses memory by the decoder's displacement: a wrapping, signed one,
  or for mod 0 rm 6 the address itself.
\<close>

theorem modrm_decoding_agrees:
  assumes "plain_code c" "drop_bit 6 (code_at c 0) < 3"
  shows "bindM peek_modrm (\<lambda>(md, reg, rm). decode_ea md rm so) c
    = (Inr (ea_of (drop_bit 6 (code_at c 0)) (code_at c 0 AND 7) so (regs c)
         (modrm_disp (fetch_cs c) ((ip (regs c) + 1) AND 0xFFFF) (code_at c 0))),
       skip_ip (1 + modrm_disp_len (code_at c 0)) c)"
proof -
  let ?m = "code_at c 0"
  have p: "peek_modrm c = (Inr (drop_bit 6 ?m AND 3, drop_bit 3 ?m AND 7, ?m AND 7), skip_ip 1 c)"
    unfolding peek_modrm_def Let_def
    using plain_codeD [OF assms(1)] code_byte_at [OF assms(1) refl, of 0]
    by (simp add: get_regs_def set_ip_skip)
  have u: "u8 ?m" "u16 (ip (regs (skip_ip 1 c)))"
    using code_at_range [of c 0] by (simp_all add: u8_def u16_def skip_ip_def mask_simps)
  have F: "fetch_cs (skip_ip 1 c) = fetch_cs c" "ip (regs (skip_ip 1 c)) = (ip (regs c) + 1) AND 0xFFFF"
    by (simp_all add: fetch_cs_def skip_ip_def fun_eq_iff)
  show ?thesis
    using p decode_ea_plain [of "skip_ip 1 c" ?m so] u F assms
    by (simp add: skip_ip_regs skip_skip)
qed

text \<open>\<open>[BP-2]\<close>.\<close>

theorem modrm_decoding_agrees_witness:
  "bindM peek_modrm (\<lambda>(md, reg, rm). decode_ea md rm None) (program_cpu [0x46, 0xFE])
    = (Inr \<lparr>segment = SS, offset = 0xFFFE\<rparr>, skip_ip 2 (program_cpu [0x46, 0xFE]))"
proof -
  let ?c = "program_cpu [0x46, 0xFE]"
  have m: "code_at ?c 0 = 0x46" by (simp add: program_code_at)
  have r: "ip (regs ?c) = 0" "bp (regs ?c) = 0"
    by (simp_all add: program_cpu_def CPU8086_def CPUState_init_def)
  have "modrm_disp (fetch_cs ?c) 1 0x46 = Some (- 2)"
    by (simp add: modrm_disp_def modrm_disp_len_def fetch_program)
  then show ?thesis
    using modrm_decoding_agrees [OF program_plain [of "[0x46, 0xFE]"], of None] m r
    by (simp add: ea_of_def ea_base_def seg_or_def modrm_disp_len_def numeral_eq_Suc)
qed

end
