(* ===== verification/Dos_Text.thy ===== *)
theory Dos_Text
  imports Dos_State CPU_Exec Mem_Wf
begin

text \<open>
  The text console of \<open>dos_re/dos.py\<close>: text cells in video memory, the cursor, console output and
  the clearing of text and graphics memory.  Characters of a Python string are code points; \<open>cp437\<close>
  is the table of Python's codec of that name.
\<close>

section \<open>Text\<close>

text \<open>The upper half of code page 437.\<close>

definition cp437_high :: "int list" where
  "cp437_high =
    [0x00C7, 0x00FC, 0x00E9, 0x00E2, 0x00E4, 0x00E0, 0x00E5, 0x00E7,
     0x00EA, 0x00EB, 0x00E8, 0x00EF, 0x00EE, 0x00EC, 0x00C4, 0x00C5,
     0x00C9, 0x00E6, 0x00C6, 0x00F4, 0x00F6, 0x00F2, 0x00FB, 0x00F9,
     0x00FF, 0x00D6, 0x00DC, 0x00A2, 0x00A3, 0x00A5, 0x20A7, 0x0192,
     0x00E1, 0x00ED, 0x00F3, 0x00FA, 0x00F1, 0x00D1, 0x00AA, 0x00BA,
     0x00BF, 0x2310, 0x00AC, 0x00BD, 0x00BC, 0x00A1, 0x00AB, 0x00BB,
     0x2591, 0x2592, 0x2593, 0x2502, 0x2524, 0x2561, 0x2562, 0x2556,
     0x2555, 0x2563, 0x2551, 0x2557, 0x255D, 0x255C, 0x255B, 0x2510,
     0x2514, 0x2534, 0x252C, 0x251C, 0x2500, 0x253C, 0x255E, 0x255F,
     0x255A, 0x2554, 0x2569, 0x2566, 0x2560, 0x2550, 0x256C, 0x2567,
     0x2568, 0x2564, 0x2565, 0x2559, 0x2558, 0x2552, 0x2553, 0x256B,
     0x256A, 0x2518, 0x250C, 0x2588, 0x2584, 0x258C, 0x2590, 0x2580,
     0x03B1, 0x00DF, 0x0393, 0x03C0, 0x03A3, 0x03C3, 0x00B5, 0x03C4,
     0x03A6, 0x0398, 0x03A9, 0x03B4, 0x221E, 0x03C6, 0x03B5, 0x2229,
     0x2261, 0x00B1, 0x2265, 0x2264, 0x2320, 0x2321, 0x00F7, 0x2248,
     0x00B0, 0x2219, 0x00B7, 0x221A, 0x207F, 0x00B2, 0x25A0, 0x00A0]"

definition cp437_char :: "int \<Rightarrow> int" where
  "cp437_char b = (if b < 128 then b else cp437_high ! nat (b - 128))"

definition decode_cp437 :: "int list \<Rightarrow> pystr" where
  "decode_cp437 bs = map cp437_char bs"

section \<open>Cells\<close>

definition text_base_segment :: "text_console \<Rightarrow> int" where
  "text_base_segment t = (if video_mode t = 7 then 0xB000 else 0xB800)"

definition text_page_offset :: "text_console \<Rightarrow> int" where
  "text_page_offset t = (video_page t AND 0x07) * 0x1000"

definition write_text_cell :: "int \<Rightarrow> int \<Rightarrow> int \<Rightarrow> int option \<Rightarrow> unit dos_op" where
  "write_text_cell row col ch attr = bindM (get_dos console) (\<lambda>t.
     let row = max 0 (min 24 (row AND 0xFF)); col = max 0 (min 79 (col AND 0xFF));
         off = text_page_offset t + (row * 80 + col) * 2; base = text_base_segment t in
     thenM (on_mem (wb base (off AND 0xFFFF) (ch AND 0xFF)))
       (case attr of None \<Rightarrow> ret ()
        | Some a \<Rightarrow> on_mem (wb base ((off + 1) AND 0xFFFF) (a AND 0xFF))))"

definition write_text_char :: "int \<Rightarrow> int \<Rightarrow> unit dos_op" where
  "write_text_char ch attr =
     (let ch = ch AND 0xFF in
      if ch = 0x07 then upd_console (\<lambda>t. t\<lparr>stdout := stdout t @ [[ch]]\<rparr>)
      else if ch = 0x08 then upd_console (\<lambda>t. t\<lparr>cursor_col := max 0 (cursor_col t - 1)\<rparr>)
      else if ch = 0x0D then upd_console (\<lambda>t. t\<lparr>cursor_col := 0\<rparr>)
      else if ch = 0x0A then upd_console (\<lambda>t. t\<lparr>cursor_row := min 24 (cursor_row t + 1)\<rparr>)
      else bindM (get_dos console) (\<lambda>t.
        thenM (write_text_cell (cursor_row t) (cursor_col t) ch (Some attr))
          (upd_console (\<lambda>t. if cursor_col t + 1 \<ge> 80
             then t\<lparr>cursor_col := 0, cursor_row := min 24 (cursor_row t + 1)\<rparr>
             else t\<lparr>cursor_col := cursor_col t + 1\<rparr>))))"

text \<open>\<open>_write_text_repeat\<close>: \<open>count\<close> cells from the cursor on, which does not move.\<close>

primrec write_repeat_from :: "nat \<Rightarrow> int \<Rightarrow> int \<Rightarrow> int \<Rightarrow> int option \<Rightarrow> unit dos_op" where
  "write_repeat_from 0 row col ch attr = ret ()"
| "write_repeat_from (Suc n) row col ch attr =
     thenM (write_text_cell row col ch attr)
       (if col + 1 \<ge> 80 then write_repeat_from n (min 24 (row + 1)) 0 ch attr
        else write_repeat_from n row (col + 1) ch attr)"

definition write_text_repeat :: "int \<Rightarrow> int option \<Rightarrow> nat \<Rightarrow> unit dos_op" where
  "write_text_repeat ch attr count = bindM (get_dos console) (\<lambda>t.
     write_repeat_from count (cursor_row t) (cursor_col t) ch attr)"

definition console_output :: "pystr \<Rightarrow> unit dos_op" where
  "console_output str =
     thenM (record_effect (CONSOLE_OUTPUT str))
    (thenM (upd_console (\<lambda>t. t\<lparr>stdout := stdout t @ [str]\<rparr>))
     (bindM (get_dos console) (\<lambda>t.
        if text_mode_active t \<and> video_mode t \<in> {0, 1, 2, 3, 7}
        then seqM (map (\<lambda>ch. if ch \<noteq> 0x07 then write_text_char ch 0x07 else ret ()) str)
        else ret ())))"

section \<open>Clearing\<close>

definition clear_cell :: "int \<Rightarrow> int \<Rightarrow> int \<Rightarrow> unit dos_op" where
  "clear_cell base off attr =
     thenM (on_mem (wb base (off AND 0xFFFF) 0x20))
           (on_mem (wb base ((off + 1) AND 0xFFFF) (attr AND 0xFF)))"

definition clear_text_window :: "int \<Rightarrow> int \<Rightarrow> int \<Rightarrow> int \<Rightarrow> int \<Rightarrow> unit dos_op" where
  "clear_text_window attr tp left bottom right =
     (let tp = max 0 (min 24 (tp AND 0xFF)); bottom = max 0 (min 24 (bottom AND 0xFF));
          left = max 0 (min 79 (left AND 0xFF)); right = max 0 (min 79 (right AND 0xFF)) in
      if bottom < tp \<or> right < left then ret ()
      else bindM (get_dos console) (\<lambda>t.
        seqM (map (\<lambda>row. seqM (map (\<lambda>col.
                clear_cell (text_base_segment t)
                  (text_page_offset t + (row * 80 + left) * 2 + (col - left) * 2) attr)
              [left..right])) [tp..bottom])))"

definition zero_fill :: "int \<Rightarrow> int \<Rightarrow> memory \<Rightarrow> memory" where
  "zero_fill a n = slice_set a (replicate (nat n) 0)"

definition clear_graphics_vram_for_mode :: "int \<Rightarrow> unit dos_op" where
  "clear_graphics_vram_for_mode md =
     (if md AND 0x80 \<noteq> 0 then ret ()
      else let md = md AND 0x7F in
        if md \<in> {0x0D, 0x0E, 0x10, 0x12} then
          seqM (map (\<lambda>plane. upd_mem (zero_fill (EGA_APERTURE + plane * EGA_PLANE_STRIDE) EGA_PLANE_WINDOW))
            [0..3])
        else if md \<in> {0x04, 0x05, 0x06} then upd_mem (zero_fill 0xB8000 0x4000)
        else if md = 0x09 then upd_mem (zero_fill 0xB8000 0x8000)
        else if md \<in> {0x13, 0x19} then upd_mem (zero_fill 0xA0000 0x10000)
        else ret ())"

section \<open>The screen\<close>

text \<open>The cell \<open>k\<close> (row by row, 80 a row) of the active page is two bytes from \<open>screen_at\<close> on.\<close>

definition screen_at :: "text_console \<Rightarrow> int" where
  "screen_at t = text_base_segment t * 16 + text_page_offset t"

lemma screen_bounds: "0xB0000 \<le> screen_at t" "screen_at t \<le> 0xBF000" "0 \<le> text_page_offset t" "text_page_offset t \<le> 0x7000"
proof -
  have "video_page t AND 7 = video_page t mod 8" using and_mask_mod [of "video_page t" 3] by simp
  moreover have "0 \<le> video_page t mod 8" "video_page t mod 8 \<le> 7" by simp_all
  ultimately show "0 \<le> text_page_offset t" "text_page_offset t \<le> 0x7000"
    "0xB0000 \<le> screen_at t" "screen_at t \<le> 0xBF000"
    unfolding screen_at_def text_page_offset_def text_base_segment_def by (auto split: if_splits)
qed

lemma screen_address:
  assumes "0 \<le> k" "k < 4000"
  shows "linear (text_base_segment t) (text_page_offset t + k) = screen_at t + k"
    "ram_byte m (screen_at t + k)"
proof -
  show "linear (text_base_segment t) (text_page_offset t + k) = screen_at t + k"
    using assms screen_bounds(3,4) [of t]
    by (simp add: linear_eq screen_at_def text_base_segment_def)
  show "ram_byte m (screen_at t + k)"
    using assms screen_bounds(1,2) [of t]
    by (simp add: ram_byte_def in_aperture_def mem_consts)
qed

text \<open>The console is showing text, its cursor at cell \<open>p\<close>.\<close>

definition cursor_at :: "text_console \<Rightarrow> int \<Rightarrow> bool" where
  "cursor_at t p \<longleftrightarrow> 0 \<le> p \<and> p < 2000 \<and> cursor_row t = p div 80 \<and> cursor_col t = p mod 80"

definition move_cursor :: "int \<Rightarrow> text_console \<Rightarrow> text_console" where
  "move_cursor p t = t\<lparr>cursor_row := p div 80, cursor_col := p mod 80\<rparr>"

definition put_cell :: "text_console \<Rightarrow> int \<Rightarrow> int \<Rightarrow> int \<Rightarrow> memory \<Rightarrow> memory" where
  "put_cell t p ch attr m = m\<lparr>mdata := (mdata m)(screen_at t + p * 2 := word_of_int ch,
     screen_at t + p * 2 + 1 := word_of_int attr)\<rparr>"

lemma wb_screen:
  assumes "real_mode m" "0 \<le> k" "k < 4000"
  shows "wb (text_base_segment t) ((text_page_offset t + k) AND 0xFFFF) v m
    = (Inr (), m\<lparr>mdata := (mdata m)(screen_at t + k := word_of_int v)\<rparr>)"
  using wb_plain [OF assms(1), of "text_base_segment t" "(text_page_offset t + k) AND 0xFFFF" v]
    screen_address [OF assms(2,3)] by simp

lemma write_text_cell_effect:
  assumes "real_mode (mem c)" "t = console (world c)" "0 \<le> p" "p < 2000"
  shows "write_text_cell (p div 80) (p mod 80) ch (Some attr) c = (Inr (), c\<lparr>mem := put_cell t p ch attr (mem c)\<rparr>)"
proof -
  have rc: "max 0 (min 24 ((p div 80) AND 0xFF)) = p div 80" "max 0 (min 79 ((p mod 80) AND 0xFF)) = p mod 80"
    using assms(3,4) by (simp_all add: mask_simps)
  have off: "text_page_offset t + (p div 80 * 80 + p mod 80) * 2 = text_page_offset t + p * 2" by simp
  note W = wb_screen [of _ "p * 2"] wb_screen [of _ "p * 2 + 1", unfolded add.assoc [symmetric]]
  show ?thesis
    unfolding write_text_cell_def get_dos_def Let_def rc
    using assms(1,3,4) W by (simp add: assms(2) [symmetric] off on_mem_def put_cell_def thenM_def bindM_def)
qed

lemma next_cell:
  fixes p :: int
  assumes "0 \<le> p" "p + 1 < 2000"
  shows "(p + 1) div 80 = (if p mod 80 + 1 \<ge> 80 then min 24 (p div 80 + 1) else p div 80)"
    "(p + 1) mod 80 = (if p mod 80 + 1 \<ge> 80 then 0 else p mod 80 + 1)"
proof -
  obtain q r where r: "0 \<le> r" "r < 80" "p = 80 * q + r" and qr: "p div 80 = q" "p mod 80 = r"
    by (rule that [of "p mod 80" "p div 80"]) simp_all
  have last: "(p + 1) div 80 = q + 1 \<and> (p + 1) mod 80 = 0 \<and> q + 1 \<le> 24" if "80 \<le> r + 1"
  proof -
    have "r = 79" using r that by simp
    then have "p + 1 = 80 * (q + 1) + 0" using r by simp
    then show ?thesis
      using int_div_pos_eq [of "p + 1" 80 "q + 1" 0] int_mod_pos_eq [of "p + 1" 80 "q + 1" 0] assms
      by linarith
  qed
  show "(p + 1) div 80 = (if p mod 80 + 1 \<ge> 80 then min 24 (p div 80 + 1) else p div 80)"
    unfolding qr
    using int_div_pos_eq [of "p + 1" 80 q "r + 1"] last r by auto
  show "(p + 1) mod 80 = (if p mod 80 + 1 \<ge> 80 then 0 else p mod 80 + 1)"
    unfolding qr
    using int_mod_pos_eq [of "p + 1" 80 q "r + 1"] last r by auto
qed

definition printing :: "int \<Rightarrow> bool" where
  "printing ch \<longleftrightarrow> 0 \<le> ch \<and> ch < 256 \<and> ch \<notin> {0x07, 0x08, 0x0A, 0x0D}"

lemma write_text_char_effect:
  assumes "real_mode (mem c)" "cursor_at (console (world c)) p" "printing ch" "p + 1 < 2000"
  shows "write_text_char ch attr c = (Inr (), c\<lparr>mem := put_cell (console (world c)) p ch attr (mem c),
    world := (world c)\<lparr>console := move_cursor (p + 1) (console (world c))\<rparr>\<rparr>)"
proof -
  let ?t = "console (world c)"
  have p: "0 \<le> p" "p < 2000" "cursor_row ?t = p div 80" "cursor_col ?t = p mod 80"
    using assms(2) by (simp_all add: cursor_at_def)
  have ch: "ch AND 0xFF = ch" using assms(3) by (simp add: printing_def mask_simps)
  note C = next_cell [OF p(1) assms(4)]
  have step: "79 \<le> p mod 80 \<Longrightarrow> ?t\<lparr>cursor_col := 0, cursor_row := min 24 (p div 80 + 1)\<rparr> = move_cursor (p + 1) ?t"
      "\<not> 79 \<le> p mod 80 \<Longrightarrow> ?t\<lparr>cursor_col := p mod 80 + 1\<rparr> = move_cursor (p + 1) ?t"
    using C p(3,4) by (simp_all add: move_cursor_def)
  show ?thesis
    using assms(3) write_text_cell_effect [OF assms(1) refl p(1,2)]
    by (simp add: write_text_char_def ch printing_def Let_def get_dos_def upd_console_def upd_dos_def p(3,4) step)
qed

section \<open>Console output\<close>

text \<open>Text of \<open>n\<close> cells from \<open>p\<close> on, in light grey.\<close>

definition put_text :: "text_console \<Rightarrow> int \<Rightarrow> pystr \<Rightarrow> memory \<Rightarrow> memory" where
  "put_text t p str m = m\<lparr>mdata := (\<lambda>a.
     if screen_at t + p * 2 \<le> a \<and> a < screen_at t + (p + int (length str)) * 2
     then (if (a - screen_at t) mod 2 = 0 then word_of_int (str ! nat ((a - screen_at t) div 2 - p))
           else 7)
     else mdata m a)\<rparr>"

lemma put_text_Nil [simp]: "put_text t p [] m = m"
proof -
  have "mdata (put_text t p [] m) = mdata m" by (rule ext) (auto simp: put_text_def)
  then show ?thesis by (simp add: put_text_def)
qed

lemma put_text_cell:
  assumes "p \<le> k" "k < p + int (length str)"
  shows "mdata (put_text t p str m) (screen_at t + 2 * k) = word_of_int (str ! nat (k - p))"
    "mdata (put_text t p str m) (screen_at t + 2 * k + 1) = 7"
proof -
  have D: "(2 * k) div 2 = k" "(2 * k + 1) mod 2 = 1" "(2 * k) mod 2 = 0" by presburger+
  show "mdata (put_text t p str m) (screen_at t + 2 * k) = word_of_int (str ! nat (k - p))"
    "mdata (put_text t p str m) (screen_at t + 2 * k + 1) = 7"
    using assms D by (simp_all add: put_text_def)
qed

lemma put_text_Cons: "put_text t (p + 1) str (put_cell t p ch 7 m) = put_text t p (ch # str) m"
proof -
  let ?b = "screen_at t"
  have "mdata (put_text t (p + 1) str (put_cell t p ch 7 m)) a = mdata (put_text t p (ch # str) m) a" for a
  proof -
    consider "a = ?b + p * 2" | "a = ?b + p * 2 + 1" | "?b + p * 2 + 2 \<le> a" "a < ?b + (p + 1 + int (length str)) * 2"
      | "a < ?b + p * 2 \<or> ?b + (p + 1 + int (length str)) * 2 \<le> a" by linarith
    then show ?thesis
    proof cases
      case 3
      then have "p + 1 \<le> (a - ?b) div 2" by linarith
      then have "nat ((a - ?b) div 2 - p) = Suc (nat ((a - ?b) div 2 - (p + 1)))" by linarith
      then show ?thesis using 3 by (simp add: put_text_def put_cell_def algebra_simps)
    qed (auto simp: put_text_def put_cell_def algebra_simps)
  qed
  then show ?thesis by (simp add: put_text_def put_cell_def fun_eq_iff)
qed

lemma put_cell_real [simp]: "real_mode (put_cell t p ch attr m) = real_mode m"
  by (simp add: put_cell_def)

lemma move_cursor_simps [simp]:
  "screen_at (move_cursor p t) = screen_at t" "move_cursor q (move_cursor p t) = move_cursor q t"
  "0 \<le> p \<Longrightarrow> p < 2000 \<Longrightarrow> cursor_at (move_cursor p t) p"
  by (simp_all add: move_cursor_def screen_at_def text_base_segment_def text_page_offset_def cursor_at_def)

lemma put_text_move [simp]: "put_text (move_cursor p t) = put_text t" "put_cell (move_cursor p t) = put_cell t"
  by (simp_all add: put_text_def put_cell_def fun_eq_iff)

lemma write_text_run:
  assumes "real_mode (mem c)" "cursor_at (console (world c)) p" "list_all printing str"
    "p + int (length str) < 2000"
  shows "seqM (map (\<lambda>ch. if ch \<noteq> 0x07 then write_text_char ch 0x07 else ret ()) str) c
    = (Inr (), c\<lparr>mem := put_text (console (world c)) p str (mem c),
        world := (world c)\<lparr>console := move_cursor (p + int (length str)) (console (world c))\<rparr>\<rparr>)"
  using assms
proof (induction str arbitrary: c p)
  case Nil
  then have "move_cursor p (console (world c)) = console (world c)"
    by (simp add: move_cursor_def cursor_at_def)
  then show ?case by simp
next
  case (Cons ch str)
  let ?t = "console (world c)"
  let ?c = "c\<lparr>mem := put_cell ?t p ch 7 (mem c), world := (world c)\<lparr>console := move_cursor (p + 1) ?t\<rparr>\<rparr>"
  have w: "write_text_char ch 7 c = (Inr (), ?c)" "ch \<noteq> 7"
    using write_text_char_effect [OF Cons.prems(1,2), of ch 7] Cons.prems(3,4) by (simp_all add: printing_def)
  have "cursor_at (console (world ?c)) (p + 1)" using Cons.prems(2,4) by (simp add: cursor_at_def [of ?t])
  then show ?case
    using Cons.IH [of ?c "p + 1"] Cons.prems w by (simp add: put_text_Cons add.assoc)
qed

text \<open>
  text a program prints in a text mode appears where the cursor is: the characters are the next
  cells of the active page, in light grey, running over the end of a line to the next one, nothing
  else in memory changes, and the cursor ends behind the text.
\<close>

theorem console_output_appears:
  assumes "real_mode (mem c)" "t = console (world c)" "text_mode_active t" "video_mode t \<in> {0, 1, 2, 3, 7}"
    "cursor_row t = row" "cursor_col t = col" "0 \<le> row" "0 \<le> col" "col < 80"
    "\<forall>ch \<in> set str. printing ch" "row * 80 + col + int (length str) < 2000"
  shows "\<exists>c'. console_output str c = (Inr (), c')
    \<and> (\<forall>i < length str. mdata (mem c') (screen_at t + 2 * (row * 80 + col + int i)) = word_of_int (str ! i)
        \<and> mdata (mem c') (screen_at t + 2 * (row * 80 + col + int i) + 1) = 7)
    \<and> (\<forall>a. a < screen_at t + 2 * (row * 80 + col) \<or> screen_at t + 2 * (row * 80 + col + int (length str)) \<le> a
        \<longrightarrow> mdata (mem c') a = mdata (mem c) a)
    \<and> cursor_row (console (world c')) * 80 + cursor_col (console (world c')) = row * 80 + col + int (length str)
    \<and> stdout (console (world c')) = stdout t @ [str]"
proof -
  let ?p = "row * 80 + col"
  let ?t = "t\<lparr>stdout := stdout t @ [str]\<rparr>"
  define c1 where "c1 = c\<lparr>world := (world c)\<lparr>observable_effect_sink :=
      map_option (\<lambda>l. l @ [CONSOLE_OUTPUT str]) (observable_effect_sink (world c)), console := ?t\<rparr>\<rparr>"
  have c1: "mem c1 = mem c" "console (world c1) = ?t" by (simp_all add: c1_def)
  have first: "console_output str c
      = seqM (map (\<lambda>ch. if ch \<noteq> 0x07 then write_text_char ch 0x07 else ret ()) str) c1"
    using assms(2-4) by (simp add: console_output_def record_effect_def upd_console_def upd_dos_def
        get_dos_def c1_def)
  have "cursor_at ?t ?p" using assms(5-11) by (auto simp: cursor_at_def)
  then have r: "console_output str c = (Inr (), c1\<lparr>mem := put_text ?t ?p str (mem c1),
      world := (world c1)\<lparr>console := move_cursor (?p + int (length str)) ?t\<rparr>\<rparr>)"
    using write_text_run [of c1 ?p str] assms(1,10,11) unfolding first c1 by (simp add: list_all_iff)
  have s: "screen_at ?t = screen_at t" by (simp add: screen_at_def text_base_segment_def text_page_offset_def)
  define c2 where "c2 = c1\<lparr>mem := put_text ?t ?p str (mem c1),
      world := (world c1)\<lparr>console := move_cursor (?p + int (length str)) ?t\<rparr>\<rparr>"
  have M: "mdata (mem c2) a = mdata (put_text t ?p str (mem c)) a" for a
    using c1 by (simp add: c2_def put_text_def s)
  have I: "mdata (mem c2) (screen_at t + 2 * (?p + int i)) = word_of_int (str ! i)
      \<and> mdata (mem c2) (screen_at t + 2 * (?p + int i) + 1) = 7" if "i < length str" for i
  using put_text_cell [of ?p "?p + int i" str t "mem c"] that unfolding M by simp
  have O: "mdata (mem c2) a = mdata (mem c) a"
    if "a < screen_at t + 2 * ?p \<or> screen_at t + 2 * (?p + int (length str)) \<le> a" for a
    using that unfolding M put_text_def by (simp add: mult.commute) auto
  have "cursor_row (console (world c2)) * 80 + cursor_col (console (world c2)) = ?p + int (length str)"
    "stdout (console (world c2)) = stdout t @ [str]"
    by (simp_all add: c2_def move_cursor_def)
  then show ?thesis using r I O unfolding c2_def [symmetric] by blast
qed

definition text_cpu :: "dos cpu" where
  "text_cpu = CPU8086 (memory_new MEM_SIZE None) DOSMachine"

lemma text_cpu_console:
  "console (world text_cpu) = console_new" "real_mode (mem text_cpu)" "screen_at console_new = 0xB8000"
  by (simp_all add: text_cpu_def CPU8086_def DOSMachine_def real_mode_new screen_at_def
      text_base_segment_def text_page_offset_def console_new_def)

theorem console_output_appears_witness:
  "\<exists>c'. console_output [0x48, 0x69] text_cpu = (Inr (), c')
    \<and> mdata (mem c') 0xB8000 = 0x48 \<and> mdata (mem c') 0xB8002 = 0x69 \<and> mdata (mem c') 0xB8003 = 7"
proof -
  obtain c' where c: "console_output [0x48, 0x69] text_cpu = (Inr (), c')"
      "\<forall>i < 2. mdata (mem c') (0xB8000 + 2 * int i) = word_of_int ([0x48, 0x69] ! i)
        \<and> mdata (mem c') (0xB8000 + 2 * int i + 1) = 7"
    using console_output_appears [of text_cpu console_new 0 0 "[0x48, 0x69]"] text_cpu_console
    by (auto simp: printing_def console_new_def)
  show ?thesis using c(1) c(2) [rule_format, of 0] c(2) [rule_format, of 1] by simp
qed

lemma cp437_low_bytes:
  assumes "128 \<le> b" "b < 256"
  shows "cp437_char b AND 0xFF \<noteq> b \<and> printing (cp437_char b AND 0xFF)"
proof -
  have A: "list_all (\<lambda>b. cp437_char b AND 0xFF \<noteq> b \<and> printing (cp437_char b AND 0xFF)) [128..255]"
    by code_simp
  have "b \<in> set [128..255]" using assms unfolding set_upto atLeastAtMost_iff by simp
  then show ?thesis by (rule A [unfolded list_all_iff, rule_format])
qed

lemma write_text_char_mask: "write_text_char (ch AND 0xFF) = write_text_char ch"
  by (rule ext) (simp add: write_text_char_def and.assoc)

text \<open>
  a character of the upper half of code page 437 that a DOS string call prints does not appear
  on the screen: decoded to Unicode and cut to its low byte, it becomes another character.
\<close>

theorem cp437_output_garbled:
  assumes "real_mode (mem c)" "t = console (world c)" "text_mode_active t" "video_mode t \<in> {0, 1, 2, 3, 7}"
    "cursor_at t p" "p + 1 < 2000" "128 \<le> b" "b < 256"
  shows "\<exists>c'. console_output (decode_cp437 [b]) c = (Inr (), c')
    \<and> uint (mdata (mem c') (screen_at t + 2 * p)) \<noteq> b"
proof -
  let ?v = "cp437_char b AND 0xFF"
  let ?t = "t\<lparr>stdout := stdout t @ [decode_cp437 [b]]\<rparr>"
  define c1 where "c1 = c\<lparr>world := (world c)\<lparr>observable_effect_sink :=
      map_option (\<lambda>l. l @ [CONSOLE_OUTPUT (decode_cp437 [b])]) (observable_effect_sink (world c)), console := ?t\<rparr>\<rparr>"
  have c1: "mem c1 = mem c" "console (world c1) = ?t" by (simp_all add: c1_def)
  have v: "?v \<noteq> b" "printing ?v" "cp437_char b \<noteq> 7"
    using cp437_low_bytes [OF assms(7,8)] by (auto simp: printing_def)
  have "console_output (decode_cp437 [b]) c = write_text_char (cp437_char b) 7 c1"
    using assms(2-4) v(3) by (simp add: console_output_def record_effect_def upd_console_def upd_dos_def
        get_dos_def c1_def decode_cp437_def thenM_def bindM_def split: prod.splits sum.splits)
  also have "\<dots> = write_text_char ?v 7 c1" by (simp add: write_text_char_mask)
  also have "cursor_at (console (world c1)) p" using assms(5) by (simp add: c1 cursor_at_def)
  note write_text_char_effect [OF _ this v(2) assms(6), of 7]
  finally have r: "console_output (decode_cp437 [b]) c
      = (Inr (), c1\<lparr>mem := put_cell ?t p ?v 7 (mem c), world := (world c1)\<lparr>console := move_cursor (p + 1) ?t\<rparr>\<rparr>)"
    using assms(1) by (simp add: c1)
  have "0 \<le> ?v" "?v < 256" using v(2) by (simp_all add: printing_def)
  moreover have "screen_at ?t = screen_at t" by (simp add: screen_at_def text_base_segment_def text_page_offset_def)
  ultimately show ?thesis using v(1) unfolding r by (simp add: put_cell_def mult.commute mask_simps)
qed

theorem cp437_output_garbled_witness:
  "\<exists>c'. console_output (decode_cp437 [0xC4]) text_cpu = (Inr (), c') \<and> uint (mdata (mem c') 0xB8000) \<noteq> 0xC4"
  using cp437_output_garbled [of text_cpu console_new 0 "0xC4"] text_cpu_console
  by (simp add: cursor_at_def console_new_def)

end
