(* ===== verification/Dos_Files.thy ===== *)
theory Dos_Files
  imports Dos_Text Mem_Bulk "HOL-Library.AList"
begin

text \<open>
  The file services of \<open>dos_re/dos.py\<close>: path resolution, handles, create, open, close, read, write and
  seek, with the buffers of written files that outlive their handle when persistence is on.

  The game directory is only read, so it is a parameter with the text operations of Python's
  \<open>pathlib\<close> and Unicode case mapping; a handle's \<open>bytearray\<close>, which the overlay may share, is an
  address in \<open>buffers\<close>.
\<close>

section \<open>Parameters\<close>

record file_host =
  joined :: "pystr \<Rightarrow> path"
  path_exists :: "path \<Rightarrow> bool"
  rglob :: "path list"
  relative_to_root :: "path \<Rightarrow> pystr"
  path_name :: "path \<Rightarrow> pystr"
  last_name :: "pystr \<Rightarrow> pystr"
  path_is_file :: "path \<Rightarrow> bool"
  path_read_bytes :: "path \<Rightarrow> bytes"
  upper :: "pystr \<Rightarrow> pystr"
  lower :: "pystr \<Rightarrow> pystr"
  sink_writable :: "pystr \<Rightarrow> bool"

section \<open>Names\<close>

text \<open>The loops of \<open>read_asciiz\<close> and \<open>read_dollar_string\<close>: at most \<open>limit\<close> bytes, up to \<open>stop\<close>.\<close>

primrec read_bytes_until :: "int \<Rightarrow> nat \<Rightarrow> int \<Rightarrow> int \<Rightarrow> int list dos_op" where
  "read_bytes_until stop 0 seg off = ret []"
| "read_bytes_until stop (Suc limit) seg off =
     bindM (on_mem (rb seg (off AND 0xFFFF))) (\<lambda>b.
       if b = stop then ret []
       else bindM (read_bytes_until stop limit seg (off + 1)) (\<lambda>bs. ret (b # bs)))"

definition read_asciiz :: "int \<Rightarrow> int \<Rightarrow> pystr dos_op" where
  "read_asciiz seg off = bindM (read_bytes_until 0 260 seg off) (\<lambda>bs. ret (decode_cp437 bs))"

definition read_dollar_string :: "int \<Rightarrow> int \<Rightarrow> pystr dos_op" where
  "read_dollar_string seg off = bindM (read_bytes_until 0x24 4096 seg off) (\<lambda>bs. ret (decode_cp437 bs))"

text \<open>\<open>str.isspace\<close>, for \<open>strip()\<close>.\<close>

definition py_space :: "int \<Rightarrow> bool" where
  "py_space ch \<longleftrightarrow> 0x09 \<le> ch \<and> ch \<le> 0x0D \<or> 0x1C \<le> ch \<and> ch \<le> 0x20 \<or> 0x2000 \<le> ch \<and> ch \<le> 0x200A
     \<or> ch \<in> {0x85, 0xA0, 0x1680, 0x2028, 0x2029, 0x202F, 0x205F, 0x3000}"

definition strip :: "pystr \<Rightarrow> pystr" where
  "strip s = rev (dropWhile py_space (rev (dropWhile py_space s)))"

definition str_replace :: "int \<Rightarrow> int \<Rightarrow> pystr \<Rightarrow> pystr" where
  "str_replace old new s = map (\<lambda>ch. if ch = old then new else ch) s"

definition clean_name :: "pystr \<Rightarrow> pystr" where
  "clean_name name = dropWhile (\<lambda>ch. ch = 0x2F) (strip (str_replace 0x5C 0x2F name))"

definition names_match :: "file_host \<Rightarrow> pystr \<Rightarrow> path \<Rightarrow> bool" where
  "names_match H clean p \<longleftrightarrow>
     upper H (str_replace 0x2F 0x5C (relative_to_root H p)) = str_replace 0x2F 0x5C (upper H clean)
     \<or> upper H (path_name H p) = upper H (last_name H clean)"

definition resolve_game_path :: "file_host \<Rightarrow> pystr \<Rightarrow> path" where
  "resolve_game_path H name =
     (let clean = clean_name name; direct = joined H clean in
      if path_exists H direct then direct
      else case find (names_match H clean) (rglob H) of Some p \<Rightarrow> p | None \<Rightarrow> direct)"

section \<open>The overlay and the save directory\<close>

definition overlay_key :: "file_host \<Rightarrow> path \<Rightarrow> pystr" where
  "overlay_key H p = lower H p"

definition load_file_bytes :: "file_host \<Rightarrow> path \<Rightarrow> DOS_files \<Rightarrow> bytes option" where
  "load_file_bytes H p k =
     (let pristine = (if path_is_file H p then Some (path_read_bytes H p) else None) in
      case save_dir k of
        None \<Rightarrow> pristine
      | Some saved \<Rightarrow>
          (case file_overlay k (overlay_key H p) of
             Some buf \<Rightarrow> Some (buffers k ! buf)
           | None \<Rightarrow>
               (case saved (path_name H p) of Some bs \<Rightarrow> Some bs | None \<Rightarrow> pristine)))"

definition persist_overlay :: "file_host \<Rightarrow> path \<Rightarrow> DOS_files \<Rightarrow> DOS_files" where
  "persist_overlay H p k =
     (case save_dir k of
        None \<Rightarrow> k
      | Some saved \<Rightarrow>
          (case file_overlay k (overlay_key H p) of
             None \<Rightarrow> k
           | Some buf \<Rightarrow>
               (if sink_writable H (path_name H p)
                then k\<lparr>save_dir := Some (saved(path_name H p \<mapsto> buffers k ! buf))\<rparr> else k)))"

section \<open>Handles\<close>

text \<open>The loop of \<open>_alloc_handle\<close>: it ends because \<open>files\<close> is finite.\<close>

function free_handle :: "int set \<Rightarrow> int \<Rightarrow> int" where
  "free_handle used handle =
     (if finite used \<and> handle \<in> used then free_handle used (handle + 1) else handle)"
  by pat_completeness auto
termination
proof (relation "measure (\<lambda>(used, handle). card {h \<in> used. handle \<le> h})")
  fix used :: "int set" and handle :: int
  assume "finite used \<and> handle \<in> used"
  then have "handle \<in> {h \<in> used. handle \<le> h}" "handle \<notin> {h \<in> used. handle + 1 \<le> h}"
    "{h \<in> used. handle + 1 \<le> h} \<subseteq> {h \<in> used. handle \<le> h}" "finite {h \<in> used. handle \<le> h}" by auto
  then have "{h \<in> used. handle + 1 \<le> h} \<subset> {h \<in> used. handle \<le> h}" "finite {h \<in> used. handle \<le> h}"
    by blast+
  then show "((used, handle + 1), used, handle) \<in> measure (\<lambda>(used, handle). card {h \<in> used. handle \<le> h})"
    by (simp add: psubset_card_mono)
qed simp

declare free_handle.simps [simp del]

definition alloc_handle :: "int dos_op" where
  "alloc_handle = bindM (get_dos (\<lambda>d. fst ` set (files (disk d)))) (\<lambda>used.
     let handle = free_handle used 5 in
     thenM (upd_disk (\<lambda>k. k\<lparr>next_handle := handle + 1\<rparr>)) (ret handle))"

definition succeed :: "unit dos_op" where
  "succeed = set_flag CF False"

definition fail :: "int \<Rightarrow> unit dos_op" where
  "fail code = thenM (set_ax code) (set_flag CF True)"

text \<open>The handle in BX, or the error exit \<open>AX=6\<close>.\<close>

definition with_handle :: "(int \<Rightarrow> FileHandle \<Rightarrow> unit dos_op) \<Rightarrow> unit dos_op" where
  "with_handle f = bindM (get_regs bx) (\<lambda>b. bindM (get_dos (\<lambda>d. map_of (files (disk d)) b)) (\<lambda>h.
     case h of None \<Rightarrow> fail 6 | Some h \<Rightarrow> f b h))"

definition put_handle :: "int \<Rightarrow> FileHandle \<Rightarrow> unit dos_op" where
  "put_handle b h = upd_disk (\<lambda>k. k\<lparr>files := AList.update b h (files k)\<rparr>)"

section \<open>The services\<close>

definition file_argument :: "file_host \<Rightarrow> path dos_op" where
  "file_argument H = bindM (get_regs (\<lambda>r. (ds r, dx r))) (\<lambda>(seg, off).
     bindM (read_asciiz seg off) (\<lambda>name. ret (resolve_game_path H name)))"

text \<open>AH=43h.\<close>

definition int21_attributes :: "file_host \<Rightarrow> unit dos_op" where
  "int21_attributes H = bindM get_al (\<lambda>al.
     if al = 0 then bindM (file_argument H) (\<lambda>p.
       if path_is_file H p then thenM (upd_regs (\<lambda>r. r\<lparr>cx := 0x20\<rparr>)) succeed else fail 2)
     else succeed)"

text \<open>AH=3Ch: a fresh buffer, which the overlay shares when persistence is on.\<close>

definition int21_create :: "file_host \<Rightarrow> unit dos_op" where
  "int21_create H = bindM (file_argument H) (\<lambda>p. bindM alloc_handle (\<lambda>handle.
     bindM (get_dos (\<lambda>d. length (buffers (disk d)))) (\<lambda>buf.
     thenM (upd_disk (\<lambda>k. k\<lparr>buffers := buffers k @ [[]],
        file_overlay := (if save_dir k \<noteq> None then (file_overlay k)(overlay_key H p \<mapsto> buf) else file_overlay k)\<rparr>))
    (thenM (put_handle handle \<lparr>fh_path = p, fh_data = buf, fh_pos = 0, fh_writable = True\<rparr>)
    (thenM (set_ax handle) succeed)))))"

text \<open>AH=3Dh: the handle has a copy of the bytes.\<close>

definition int21_open :: "file_host \<Rightarrow> unit dos_op" where
  "int21_open H = bindM (file_argument H) (\<lambda>p. bindM (get_dos (\<lambda>d. load_file_bytes H p (disk d))) (\<lambda>data.
     case data of None \<Rightarrow> fail 2
     | Some bs \<Rightarrow> bindM alloc_handle (\<lambda>handle. bindM (get_dos (\<lambda>d. length (buffers (disk d)))) (\<lambda>buf.
         thenM (upd_disk (\<lambda>k. k\<lparr>buffers := buffers k @ [bs]\<rparr>))
        (thenM (put_handle handle \<lparr>fh_path = p, fh_data = buf, fh_pos = 0, fh_writable = False\<rparr>)
        (thenM (set_ax handle) succeed))))))"

text \<open>AH=3Eh.\<close>

definition int21_close :: "file_host \<Rightarrow> unit dos_op" where
  "int21_close H = bindM (get_regs bx) (\<lambda>b. bindM (get_dos (\<lambda>d. map_of (files (disk d)) b)) (\<lambda>h.
     thenM (upd_disk (\<lambda>k. k\<lparr>files := AList.delete b (files k)\<rparr>))
    (thenM (case h of
        Some h \<Rightarrow> (if fh_writable h then upd_disk (persist_overlay H (fh_path h)) else ret ())
      | None \<Rightarrow> ret ())
       succeed)))"

text \<open>AH=3Fh: the number of bytes is negative behind the end of the file.\<close>

definition int21_read :: "unit dos_op" where
  "int21_read = with_handle (\<lambda>b h. bindM (get_dos (\<lambda>d. buffers (disk d) ! fh_data h)) (\<lambda>data.
     bindM (get_regs (\<lambda>r. r)) (\<lambda>r.
       let n = min (cx r) (int (length data) - fh_pos h) in
       thenM (on_mem (write_external_block (ds r) (dx r) (py_slice data (fh_pos h) (fh_pos h + n))))
      (thenM (put_handle b (h\<lparr>fh_pos := fh_pos h + n\<rparr>))
      (thenM (set_ax n) succeed)))))"

text \<open>\<open>data[pos:end] = new\<close> after the \<open>extend\<close>.\<close>

definition write_at :: "int \<Rightarrow> bytes \<Rightarrow> bytes \<Rightarrow> bytes" where
  "write_at pos new data =
     (let e = nat pos + length new; data = data @ replicate (e - length data) 0 in
      take (nat pos) data @ new @ drop e data)"

definition int21_write :: "unit dos_op" where
  "int21_write = bindM (get_regs (\<lambda>r. r)) (\<lambda>r. bindM (on_mem (block (ds r) (dx r) (cx r))) (\<lambda>data.
     if bx r = 1 \<or> bx r = 2 then
       thenM (console_output (decode_cp437 (map uint data)))
      (thenM (set_ax (cx r)) succeed)
     else with_handle (\<lambda>b h.
       thenM (upd_disk (\<lambda>k. k\<lparr>buffers := (buffers k)[fh_data h := write_at (fh_pos h) data (buffers k ! fh_data h)]\<rparr>))
      (thenM (put_handle b (h\<lparr>fh_pos := fh_pos h + int (length data)\<rparr>))
      (thenM (set_ax (int (length data))) succeed)))))"

text \<open>AH=42h.\<close>

definition seek_delta :: "CPUState \<Rightarrow> int" where
  "seek_delta r = (let delta = push_bit 16 (cx r) OR dx r in
     if delta AND 0x80000000 \<noteq> 0 then delta - 0x100000000 else delta)"

definition int21_lseek :: "unit dos_op" where
  "int21_lseek = with_handle (\<lambda>b h. bindM (get_dos (\<lambda>d. buffers (disk d) ! fh_data h)) (\<lambda>data.
     bindM get_al (\<lambda>origin. bindM (get_regs seek_delta) (\<lambda>delta.
       let pos = (if origin = 0 then max 0 delta
                  else if origin = 1 then max 0 (fh_pos h + delta)
                  else if origin = 2 then max 0 (int (length data) + delta)
                  else fh_pos h) in
       thenM (put_handle b (h\<lparr>fh_pos := pos\<rparr>))
      (thenM (upd_regs (\<lambda>r. r\<lparr>dx := drop_bit 16 pos AND 0xFFFF, ax := pos AND 0xFFFF\<rparr>)) succeed)))))"

text \<open>AH=44h, AL=00h.\<close>

definition int21_device_info :: "unit dos_op" where
  "int21_device_info = bindM (get_regs bx) (\<lambda>b. bindM (get_dos (\<lambda>d. map_of (files (disk d)) b)) (\<lambda>h.
     if b \<in> {0, 1, 2} then thenM (upd_regs (\<lambda>r. r\<lparr>dx := 0x80D3\<rparr>)) succeed
     else if h \<noteq> None then thenM (upd_regs (\<lambda>r. r\<lparr>dx := 0x0002\<rparr>)) succeed
     else fail 6))"

section \<open>Effects\<close>

lemma free_handle_least:
  assumes "finite used"
  shows "free_handle used n \<notin> used" "n \<le> free_handle used n" "n \<le> k \<Longrightarrow> k < free_handle used n \<Longrightarrow> k \<in> used"
  using assms
proof (induction used n rule: free_handle.induct)
  case (1 used n)
  {
    case 1
    then show ?case using "1.IH" (1) by (subst free_handle.simps) simp
  next
    case 2
    then show ?case using "1.IH" (2) by (auto simp: free_handle.simps [of used n])
  next
    case 3
    then show ?case using "1.IH" (3) by (cases "k = n"; cases "n \<in> used") (auto simp: free_handle.simps [of used n])
  }
qed

definition upd_disk_of :: "(DOS_files \<Rightarrow> DOS_files) \<Rightarrow> dos cpu \<Rightarrow> dos cpu" where
  "upd_disk_of f c = c\<lparr>world := (world c)\<lparr>disk := f (disk (world c))\<rparr>\<rparr>"

lemma upd_disk_app [simp]: "upd_disk f c = (Inr (), upd_disk_of f c)"
  by (simp add: upd_disk_def upd_dos_def upd_disk_of_def)

lemma upd_disk_of_simps [simp]:
  "disk (world (upd_disk_of f c)) = f (disk (world c))" "mem (upd_disk_of f c) = mem c"
  "regs (upd_disk_of f c) = regs c" "upd_disk_of f (upd_disk_of g c) = upd_disk_of (f \<circ> g) c"
  "upd_disk_of f (c\<lparr>mem := m\<rparr>) = (upd_disk_of f c)\<lparr>mem := m\<rparr>"
  "upd_disk_of f (c\<lparr>regs := r\<rparr>) = (upd_disk_of f c)\<lparr>regs := r\<rparr>"
  by (simp_all add: upd_disk_of_def)

abbreviation handle_of :: "dos cpu \<Rightarrow> int \<Rightarrow> FileHandle option" where
  "handle_of c \<equiv> map_of (files (disk (world c)))"

abbreviation data_of :: "dos cpu \<Rightarrow> FileHandle \<Rightarrow> bytes" where
  "data_of c h \<equiv> buffers (disk (world c)) ! fh_data h"

text \<open>AX and a clear carry flag.\<close>

definition done_with :: "int \<Rightarrow> CPUState \<Rightarrow> CPUState" where
  "done_with v r = r\<lparr>ax := v, flags := set_flag_word CF False (flags r)\<rparr>"

lemma succeed_app: "succeed c = (Inr (), c\<lparr>regs := (regs c)\<lparr>flags := set_flag_word CF False (flags (regs c))\<rparr>\<rparr>)"
  by (simp add: succeed_def set_flag_def upd_regs_def)

lemma set_ax_succeed: "thenM (set_ax v) succeed c = (Inr (), c\<lparr>regs := done_with v (regs c)\<rparr>)"
  by (simp add: succeed_def set_flag_def upd_regs_def set_ax_def done_with_def)

lemma fail_app: "fail v c = (Inr (), c\<lparr>regs := (regs c)\<lparr>ax := v, flags := set_flag_word CF True (flags (regs c))\<rparr>\<rparr>)"
  by (simp add: fail_def set_flag_def upd_regs_def set_ax_def)

lemma with_handle_app:
  "with_handle f c = (case handle_of c (bx (regs c)) of None \<Rightarrow> fail 6 c | Some h \<Rightarrow> f (bx (regs c)) h c)"
  by (simp add: with_handle_def get_regs_def get_dos_def split: option.split)

lemma read_effect:
  assumes "handle_of c (bx (regs c)) = Some h" "n = min (cx (regs c)) (int (length (data_of c h)) - fh_pos h)"
    "write_external_block (ds (regs c)) (dx (regs c)) (py_slice (data_of c h) (fh_pos h) (fh_pos h + n)) (mem c) = (Inr (), m)"
  shows "int21_read c = (Inr (), (upd_disk_of (\<lambda>k. k\<lparr>files := AList.update (bx (regs c)) (h\<lparr>fh_pos := fh_pos h + n\<rparr>) (files k)\<rparr>) c)
    \<lparr>mem := m, regs := done_with n (regs c)\<rparr>)"
  using assms
  by (simp add: int21_read_def with_handle_app get_regs_def get_dos_def Let_def on_mem_def put_handle_def set_ax_succeed)

lemma write_effect:
  assumes "handle_of c (bx (regs c)) = Some h" "bx (regs c) \<noteq> 1" "bx (regs c) \<noteq> 2"
    "block (ds (regs c)) (dx (regs c)) (cx (regs c)) (mem c) = (Inr data, mem c)"
  shows "int21_write c = (Inr (), (upd_disk_of (\<lambda>k. k\<lparr>buffers := (buffers k)[fh_data h := write_at (fh_pos h) data (buffers k ! fh_data h)],
      files := AList.update (bx (regs c)) (h\<lparr>fh_pos := fh_pos h + int (length data)\<rparr>) (files k)\<rparr>) c)
    \<lparr>regs := done_with (int (length data)) (regs c)\<rparr>)"
  using assms
  by (simp add: int21_write_def with_handle_app get_regs_def get_dos_def Let_def on_mem_def put_handle_def set_ax_succeed
      comp_def)

section \<open>What leaves the files alone\<close>

interpretation same_disk: state_invariant "\<lambda>c :: dos cpu. disk (world c) = k" for k .

lemma same_disk_mem: "same_disk.keeps k (on_mem f) (\<lambda>_. True)"
  by (rule same_disk.keepsI) (simp_all add: on_mem_def split: prod.splits)

lemma same_disk_console: "same_disk.keeps k (upd_console f) (\<lambda>_. True)"
  by (rule same_disk.keepsI) (simp_all add: upd_console_def upd_dos_def)

lemma same_disk_get: "same_disk.keeps k (get_dos f) (\<lambda>_. True)"
  by (rule same_disk.keepsI) (simp_all add: get_dos_def)

lemma same_disk_record: "same_disk.keeps k (record_effect e) (\<lambda>_. True)"
  by (rule same_disk.keepsI) (simp_all add: record_effect_def upd_dos_def)

lemmas same_disk_rules = same_disk_mem same_disk_console same_disk_get same_disk_record
  same_disk.keeps_ret_True same_disk.keeps_raise

lemma same_disk_write_char: "same_disk.keeps k (write_text_char ch attr) (\<lambda>_. True)"
  unfolding write_text_char_def write_text_cell_def Let_def
  by (intro same_disk.keeps_if same_disk_rules same_disk.keeps_thenM same_disk.keeps_bindM [OF same_disk_get]
      same_disk.keeps_case_option)

lemma same_disk_output: "same_disk.keeps k (console_output str) (\<lambda>_. True)"
  unfolding console_output_def
  by (intro same_disk.keeps_thenM same_disk_rules same_disk.keeps_bindM [OF same_disk_get] same_disk.keeps_if
      same_disk.keeps_seqM_map same_disk_write_char)

text \<open>Reading a name changes neither registers nor machine.\<close>

interpretation same_world: state_invariant "\<lambda>c :: dos cpu. world c = w \<and> regs c = r" for w r .

lemma same_world_mem: "same_world.keeps w r (on_mem f) (\<lambda>_. True)"
  by (rule same_world.keepsI) (simp_all add: on_mem_def split: prod.splits)

lemma same_world_read: "same_world.keeps w r (read_bytes_until stop n seg off) (\<lambda>_. True)"
proof (induction n arbitrary: off)
  case (Suc n)
  show ?case
    unfolding read_bytes_until.simps
    by (intro same_world.keeps_bindM [OF same_world_mem] same_world.keeps_if same_world.keeps_ret_True
        same_world.keeps_bindM [OF Suc.IH])
qed (simp add: same_world.keeps_ret)

lemma file_argument_state: "world (snd (file_argument H c)) = world c \<and> regs (snd (file_argument H c)) = regs c"
proof -
  have "same_world.keeps w r (read_asciiz seg off) (\<lambda>_. True)" for w r seg off
    unfolding read_asciiz_def
    by (intro same_world.keeps_bindM [OF same_world_read] same_world.keeps_ret_True)
  then have "same_world.keeps w r (file_argument H) (\<lambda>_. True)" for w r
    unfolding file_argument_def get_regs_def
    by (intro same_world.keeps_bindM [OF same_world.keeps_getM] same_world.keeps_case_prod
        same_world.keeps_bindM same_world.keeps_ret_True)
  then show ?thesis using same_world.keepsD by blast
qed

lemma block_state: "snd (block seg off n m) = m"
  by (simp add: block_def check_def bindM_def Let_def split: option.splits)

lemma block_ok: "sel_base m = None \<Longrightarrow> linear seg off + n \<le> msize m \<Longrightarrow> block seg off n m = (Inr (slice_get m (linear seg off) n), m)"
  using linear_range [of seg off] by (simp add: block_def check_def bindM_def mask_simps)

section \<open>Creating, opening, closing, seeking\<close>

text \<open>A new handle on a new buffer.\<close>

definition new_handle :: "DOS_files \<Rightarrow> int" where
  "new_handle k = free_handle (fst ` set (files k)) 5"

definition add_file :: "path \<Rightarrow> bool \<Rightarrow> bytes \<Rightarrow> (pystr \<Rightarrow> nat option) \<Rightarrow> DOS_files \<Rightarrow> DOS_files" where
  "add_file p w bs ov k = k\<lparr>next_handle := new_handle k + 1, buffers := buffers k @ [bs], file_overlay := ov,
     files := AList.update (new_handle k)
       \<lparr>fh_path = p, fh_data = length (buffers k), fh_pos = 0, fh_writable = w\<rparr> (files k)\<rparr>"

lemma create_effect:
  assumes "file_argument H c = (Inr p, c')"
  shows "int21_create H c = (Inr (), (upd_disk_of (\<lambda>k. add_file p True []
        (if save_dir k \<noteq> None then (file_overlay k)(overlay_key H p \<mapsto> length (buffers k)) else file_overlay k) k) c')
      \<lparr>regs := done_with (new_handle (disk (world c'))) (regs c')\<rparr>)"
  using assms by (simp add: int21_create_def alloc_handle_def get_dos_def Let_def put_handle_def set_ax_succeed
      new_handle_def add_file_def comp_def) (simp add: upd_disk_of_def)

lemma open_effect:
  assumes "file_argument H c = (Inr p, c')" "load_file_bytes H p (disk (world c')) = Some bs"
  shows "int21_open H c = (Inr (), (upd_disk_of (\<lambda>k. add_file p False bs (file_overlay k) k) c')
      \<lparr>regs := done_with (new_handle (disk (world c'))) (regs c')\<rparr>)"
  using assms by (simp add: int21_open_def alloc_handle_def get_dos_def Let_def put_handle_def set_ax_succeed
      new_handle_def add_file_def comp_def) (simp add: upd_disk_of_def)

lemma open_missing:
  assumes "file_argument H c = (Inr p, c')" "load_file_bytes H p (disk (world c')) = None"
  shows "int21_open H c = fail 2 c'"
  using assms by (simp add: int21_open_def get_dos_def)

lemma close_effect:
  "int21_close H c = (Inr (), (upd_disk_of (\<lambda>k. (case map_of (files k) (bx (regs c)) of
        Some h \<Rightarrow> if fh_writable h then persist_overlay H (fh_path h) else id | None \<Rightarrow> id)
        (k\<lparr>files := AList.delete (bx (regs c)) (files k)\<rparr>)) c)
      \<lparr>regs := (regs c)\<lparr>flags := set_flag_word CF False (flags (regs c))\<rparr>\<rparr>)"
  by (simp add: int21_close_def get_regs_def get_dos_def succeed_app comp_def split: option.split)
    (simp add: upd_disk_of_def)

definition seek_to :: "int \<Rightarrow> int \<Rightarrow> int \<Rightarrow> int \<Rightarrow> int" where
  "seek_to origin delta pos len =
     (if origin = 0 then max 0 delta else if origin = 1 then max 0 (pos + delta)
      else if origin = 2 then max 0 (len + delta) else pos)"

lemma lseek_effect:
  assumes "handle_of c (bx (regs c)) = Some h"
    "pos = seek_to (ax (regs c) AND 0xFF) (seek_delta (regs c)) (fh_pos h) (int (length (data_of c h)))"
  shows "int21_lseek c = (Inr (), (upd_disk_of (\<lambda>k. k\<lparr>files := AList.update (bx (regs c)) (h\<lparr>fh_pos := pos\<rparr>) (files k)\<rparr>) c)
      \<lparr>regs := done_with (pos AND 0xFFFF) ((regs c)\<lparr>dx := drop_bit 16 pos AND 0xFFFF\<rparr>)\<rparr>)"
  using assms
  by (simp add: int21_lseek_def with_handle_app get_regs_def get_dos_def get_al_def Let_def put_handle_def
      upd_regs_def succeed_app done_with_def seek_to_def)

section \<open>Handles do not interfere\<close>

text \<open>Handles are distinct and behind the standard ones, positions are not negative, every handle has a
  buffer of its own.\<close>

definition files_ok :: "DOS_files \<Rightarrow> bool" where
  "files_ok k \<longleftrightarrow> distinct (map fst (files k)) \<and> distinct (map (fh_data \<circ> snd) (files k))
     \<and> (\<forall>(b, h) \<in> set (files k). 5 \<le> b \<and> 0 \<le> fh_pos h \<and> fh_data h < length (buffers k))"

lemma files_ok_handle:
  assumes "files_ok k" "map_of (files k) b = Some h"
  shows "5 \<le> b" "0 \<le> fh_pos h" "fh_data h < length (buffers k)"
  using assms map_of_SomeD [OF assms(2)] by (auto simp: files_ok_def)

lemma distinct_values:
  assumes "distinct (map (f \<circ> snd) al)" "map_of al b = Some x" "map_of al b' = Some y" "b \<noteq> b'"
  shows "f x \<noteq> f y"
  using assms
proof (induction al)
  case (Cons a al)
  obtain k v where a: "a = (k, v)" by (cases a)
  have in_set: "f z \<in> (\<lambda>x. f (snd x)) ` set al" if "map_of al d = Some z" for d z
    using map_of_SomeD [OF that] by force
  show ?case using Cons.prems Cons.IH unfolding a by (auto split: if_splits) (metis in_set)+
qed simp

lemma files_apart:
  assumes "files_ok k" "map_of (files k) b = Some h" "map_of (files k) b' = Some h'" "b \<noteq> b'"
  shows "fh_data h \<noteq> fh_data h'"
  using distinct_values [OF _ assms(2-4), of fh_data] assms(1) by (simp add: files_ok_def)

lemma update_values:
  "map_of al b = Some x \<Longrightarrow> f y = f x \<Longrightarrow> map (f \<circ> snd) (AList.update b y al) = map (f \<circ> snd) al"
  by (induction al) auto

lemma update_absent: "map_of al b = None \<Longrightarrow> AList.update b y al = al @ [(b, y)]"
  by (induction al) (auto split: if_splits)

lemma files_ok_put:
  assumes "files_ok k" "map_of (files k) b = Some h" "0 \<le> pos" "length bufs = length (buffers k)"
  shows "files_ok (k\<lparr>buffers := bufs, files := AList.update b (h\<lparr>fh_pos := pos\<rparr>) (files k)\<rparr>)"
proof -
  have "set (AList.update b y al) \<subseteq> insert (b, y) (set al)" for y and al :: "(int \<times> FileHandle) list"
    by (induction al) auto
  then have "\<forall>(d, g) \<in> set (AList.update b (h\<lparr>fh_pos := pos\<rparr>) (files k)).
      5 \<le> d \<and> 0 \<le> fh_pos g \<and> fh_data g < length bufs"
    using assms files_ok_handle [OF assms(1,2)] by (fastforce simp: files_ok_def)
  then show ?thesis
    using assms(1) update_values [OF assms(2), of fh_data "h\<lparr>fh_pos := pos\<rparr>"]
      AList.distinct_update [of "files k" b "h\<lparr>fh_pos := pos\<rparr>"]
    by (simp add: files_ok_def)
qed

lemma new_handle_fresh: "map_of (files k) (new_handle k) = None" "5 \<le> new_handle k"
  using free_handle_least(1,2) [of "fst ` set (files k)" 5] by (simp_all add: new_handle_def map_of_eq_None_iff)

lemma files_ok_add:
  assumes "files_ok k"
  shows "files_ok (add_file p w bs ov k)"
proof -
  have "\<forall>h \<in> set (files k). (fh_data \<circ> snd) h < length (buffers k)"
    using assms by (auto simp: files_ok_def)
  moreover have "new_handle k \<notin> fst ` set (files k)"
    using new_handle_fresh(1) [of k] by (simp add: map_of_eq_None_iff)
  ultimately show ?thesis
    using assms new_handle_fresh [of k] by (auto simp: files_ok_def add_file_def update_absent)
qed

lemma persist_files [simp]: "files (persist_overlay H p k) = files k" "buffers (persist_overlay H p k) = buffers k"
  by (simp_all add: persist_overlay_def split: option.split)

lemma files_ok_persist [simp]: "files_ok (persist_overlay H p k) = files_ok k"
  by (simp add: files_ok_def)

lemma files_ok_delete:
  assumes "files_ok k"
  shows "files_ok (k\<lparr>files := AList.delete b (files k)\<rparr>)"
proof -
  have "distinct (map (fh_data \<circ> snd) (AList.delete b (files k)))"
    using assms by (simp add: files_ok_def AList.delete_eq distinct_map_filter)
  moreover have "set (AList.delete b (files k)) \<subseteq> set (files k)" by (auto simp: AList.delete_eq)
  ultimately show ?thesis using assms AList.distinct_delete by (auto simp: files_ok_def)
qed

text \<open>From \<open>k\<close> to \<open>k'\<close> only the handle \<open>b\<close> and its data changed.\<close>

definition only_handle :: "int \<Rightarrow> DOS_files \<Rightarrow> DOS_files \<Rightarrow> bool" where
  "only_handle b k k' \<longleftrightarrow> files_ok k' \<and> (\<forall>d h. map_of (files k) d = Some h \<and> d \<noteq> b \<longrightarrow>
     map_of (files k') d = Some h \<and> buffers k' ! fh_data h = buffers k ! fh_data h)"

lemma only_handle_put:
  assumes "files_ok k" "map_of (files k) b = Some h" "0 \<le> pos"
  shows "only_handle b k (k\<lparr>files := AList.update b (h\<lparr>fh_pos := pos\<rparr>) (files k)\<rparr>)"
    "only_handle b k (k\<lparr>buffers := (buffers k)[fh_data h := bs], files := AList.update b (h\<lparr>fh_pos := pos\<rparr>) (files k)\<rparr>)"
proof -
  show "only_handle b k (k\<lparr>files := AList.update b (h\<lparr>fh_pos := pos\<rparr>) (files k)\<rparr>)"
    using files_ok_put [OF assms, of "buffers k"] by (simp add: only_handle_def AList.update_conv')
  have "fh_data h \<noteq> fh_data g" if "map_of (files k) d = Some g" "d \<noteq> b" for d g
    using files_apart [OF assms(1,2) that(1)] that(2) by simp
  then show "only_handle b k (k\<lparr>buffers := (buffers k)[fh_data h := bs], files := AList.update b (h\<lparr>fh_pos := pos\<rparr>) (files k)\<rparr>)"
    using files_ok_put [OF assms, of "(buffers k)[fh_data h := bs]"] by (auto simp: only_handle_def AList.update_conv')
qed

lemma only_handle_add: "files_ok k \<Longrightarrow> only_handle b k (add_file p w bs ov k)"
  using new_handle_fresh(1) [of k] files_ok_handle(3) [of k] files_ok_add [of k]
  by (auto simp: only_handle_def add_file_def AList.update_conv' nth_append)

lemma only_handle_refl: "files_ok k \<Longrightarrow> only_handle b k k"
  by (simp add: only_handle_def)

lemma only_handle_close: "files_ok k \<Longrightarrow> only_handle b k (k\<lparr>files := AList.delete b (files k)\<rparr>)"
  using files_ok_delete [of k b] by (simp add: only_handle_def AList.delete_conv')

abbreviation touches_only_bx :: "unit dos_op \<Rightarrow> dos cpu \<Rightarrow> bool" where
  "touches_only_bx f c \<equiv> only_handle (bx (regs c)) (disk (world c)) (disk (world (snd (f c))))"

lemma create_isolated: "files_ok (disk (world c)) \<Longrightarrow> touches_only_bx (int21_create H) c"
proof -
  assume A: "files_ok (disk (world c))"
  obtain r c' where f: "file_argument H c = (r, c')" by (cases "file_argument H c")
  then have w: "world c' = world c" using file_argument_state [of H c] by simp
  show ?thesis
  proof (cases r)
    case (Inl e)
    then show ?thesis using f w A by (simp add: int21_create_def only_handle_refl)
  next
    case (Inr p)
    then show ?thesis using create_effect [of H c p c'] f w A by (simp add: only_handle_add)
  qed
qed

lemma open_isolated: "files_ok (disk (world c)) \<Longrightarrow> touches_only_bx (int21_open H) c"
proof -
  assume A: "files_ok (disk (world c))"
  obtain r c' where f: "file_argument H c = (r, c')" by (cases "file_argument H c")
  then have w: "world c' = world c" using file_argument_state [of H c] by simp
  show ?thesis
  proof (cases r)
    case (Inl e)
    then show ?thesis using f w A by (simp add: int21_open_def only_handle_refl)
  next
    case (Inr p)
    then show ?thesis
      using open_effect [of H c p c'] open_missing [of H c p c'] f w A
      by (cases "load_file_bytes H p (disk (world c'))") (simp_all add: only_handle_add only_handle_refl fail_app)
  qed
qed

lemma close_isolated: "files_ok (disk (world c)) \<Longrightarrow> touches_only_bx (int21_close H) c"
  using only_handle_close [of "disk (world c)" "bx (regs c)"]
  by (simp add: close_effect only_handle_def split: option.split)

lemma lseek_isolated: "files_ok (disk (world c)) \<Longrightarrow> touches_only_bx int21_lseek c"
proof -
  assume A: "files_ok (disk (world c))"
  show ?thesis
  proof (cases "handle_of c (bx (regs c))")
    case None
    then show ?thesis using A by (simp add: int21_lseek_def with_handle_app fail_app only_handle_refl)
  next
    case (Some h)
    have "0 \<le> seek_to o' d (fh_pos h) l" for o' d l
      using files_ok_handle(2) [OF A Some] by (simp add: seek_to_def)
    then show ?thesis using lseek_effect [OF Some refl] only_handle_put(1) [OF A Some] by simp
  qed
qed

lemma read_isolated:
  assumes A: "files_ok (disk (world c))" and cx: "0 \<le> cx (regs c)"
  shows "touches_only_bx int21_read c"
proof (cases "handle_of c (bx (regs c))")
  case None
  then show ?thesis using A by (simp add: int21_read_def with_handle_app fail_app only_handle_refl)
next
  case (Some h)
  let ?n = "min (cx (regs c)) (int (length (data_of c h)) - fh_pos h)"
  have pos: "0 \<le> fh_pos h + ?n" using files_ok_handle(2) [OF A Some] cx by linarith
  obtain r m where w: "write_external_block (ds (regs c)) (dx (regs c))
      (py_slice (data_of c h) (fh_pos h) (fh_pos h + ?n)) (mem c) = (r, m)" by fastforce
  show ?thesis
  proof (cases r)
    case (Inl e)
    then show ?thesis
      using A Some w by (simp add: int21_read_def with_handle_app get_dos_def get_regs_def Let_def on_mem_def
          only_handle_refl)
  next
    case (Inr u)
    then show ?thesis
      using read_effect [OF Some refl, of m] w only_handle_put(1) [OF A Some pos] by simp
  qed
qed

lemma write_isolated:
  assumes A: "files_ok (disk (world c))"
  shows "touches_only_bx int21_write c"
proof -
  obtain r where b: "block (ds (regs c)) (dx (regs c)) (cx (regs c)) (mem c) = (r, mem c)"
    using block_state [of "ds (regs c)" "dx (regs c)" "cx (regs c)" "mem c"] by (metis prod.collapse)
  show ?thesis
  proof (cases r)
    case (Inl e)
    then show ?thesis using b A by (simp add: int21_write_def get_regs_def on_mem_def only_handle_refl)
  next
    case (Inr data)
    consider (console) "bx (regs c) = 1 \<or> bx (regs c) = 2" | (bad) "bx (regs c) \<noteq> 1" "bx (regs c) \<noteq> 2" "handle_of c (bx (regs c)) = None"
      | (known) h where "bx (regs c) \<noteq> 1" "bx (regs c) \<noteq> 2" "handle_of c (bx (regs c)) = Some h" by auto
    then show ?thesis
    proof cases
      case console
      have "same_disk.keeps (disk (world c)) (thenM (console_output (decode_cp437 (map uint data))) (thenM (set_ax v) succeed)) (\<lambda>_. True)" for v
        by (rule same_disk.keeps_thenM [OF same_disk_output], rule same_disk.keepsI) (simp_all add: set_ax_succeed)
      then have "disk (world (snd (thenM (console_output (decode_cp437 (map uint data))) (thenM (set_ax v) succeed) c)))
          = disk (world c)" for v
        using same_disk.keepsD by blast
      then have "disk (world (snd (int21_write c))) = disk (world c)"
        using b Inr console by (simp add: int21_write_def get_regs_def on_mem_def)
      then show ?thesis using A by (simp add: only_handle_refl)
    next
      case bad
      then show ?thesis
        using b Inr A by (simp add: int21_write_def get_regs_def on_mem_def with_handle_app fail_app only_handle_refl)
    next
      case known
      then show ?thesis
        using write_effect [OF known(3,1,2) b [unfolded Inr]] files_ok_handle(2) [OF A known(3)]
          only_handle_put(2) [OF A known(3), of "fh_pos h + int (length data)"] by simp
    qed
  qed
qed

datatype file_call = Create | Open | Close | Read | Write | Seek

definition file_service :: "file_host \<Rightarrow> file_call \<Rightarrow> unit dos_op" where
  "file_service H k = (case k of Create \<Rightarrow> int21_create H | Open \<Rightarrow> int21_open H | Close \<Rightarrow> int21_close H
     | Read \<Rightarrow> int21_read | Write \<Rightarrow> int21_write | Seek \<Rightarrow> int21_lseek)"

text \<open>
  C23: a file call touches no other open file: whatever the call, its arguments and its outcome, every
  handle but the one in BX stays open on the same path at the same position with the same bytes, and
  handles stay distinct, at least 5, with buffers of their own.
\<close>

theorem file_calls_isolated:
  assumes "files_ok (disk (world c))" "0 \<le> cx (regs c)" "file_service H k c = (r, c')"
  shows "files_ok (disk (world c')) \<and> (\<forall>b h. b \<noteq> bx (regs c) \<and> handle_of c b = Some h \<longrightarrow>
    handle_of c' b = Some h \<and> data_of c' h = data_of c h)"
proof -
  have "touches_only_bx (file_service H k) c"
    using create_isolated open_isolated close_isolated lseek_isolated read_isolated write_isolated assms(1,2)
    by (cases k) (simp_all add: file_service_def)
  then show ?thesis using assms(3) by (auto simp: only_handle_def)
qed

section \<open>What is written is read\<close>

lemma write_at_length: "0 \<le> pos \<Longrightarrow> length (write_at pos new data) = max (length data) (nat pos + length new)"
  by (simp add: write_at_def Let_def)

lemma write_at_slice:
  assumes "0 \<le> pos"
  shows "py_slice (write_at pos new data) pos (pos + int (length new)) = new"
proof -
  have "length (take (nat pos) (data @ replicate (nat pos + length new - length data) 0)) = nat pos" by simp
  then show ?thesis using assms by (simp add: write_at_def py_slice_def Let_def nat_add_distrib)
qed

text \<open>Bytes before, behind and between: what \<open>write_at\<close> leaves of the old file, zeros where there was none.\<close>

lemma write_at_nth:
  assumes "0 \<le> pos" "i < length (write_at pos new data)"
  shows "write_at pos new data ! i = (if nat pos \<le> i \<and> i < nat pos + length new then new ! (i - nat pos)
    else if i < length data then data ! i else 0)"
proof -
  define d where "d = data @ replicate (nat pos + length new - length data) 0"
  have d: "nat pos + length new \<le> length d" "length d = max (length data) (nat pos + length new)"
    "write_at pos new data = take (nat pos) d @ new @ drop (nat pos + length new) d"
    by (simp_all add: d_def write_at_def Let_def)
  have old: "d ! i = (if i < length data then data ! i else 0)"
  proof -
    have "i < length data + (nat pos + length new - length data)"
      using assms(2) by (simp add: write_at_length [OF assms(1)])
    then show ?thesis by (simp add: d_def nth_append)
  qed
  consider "i < nat pos" | "nat pos \<le> i" "i < nat pos + length new" | "nat pos + length new \<le> i" by linarith
  then show ?thesis
  proof cases
    case 1
    then show ?thesis using d(1) old unfolding d(3) by (simp add: nth_append)
  next
    case 2
    then have "i - nat pos < length new" by linarith
    then show ?thesis using 2 d(1) unfolding d(3) by (simp add: nth_append)
  next
    case 3
    then have "\<not> i - nat pos < length new" by linarith
    then show ?thesis using 3 d(1) old unfolding d(3) by (simp add: nth_append)
  qed
qed

lemma seek_start:
  assumes "0 \<le> pos" "pos < 0x80000000" "cx r = pos div 0x10000" "dx r = pos mod 0x10000"
  shows "seek_delta r = pos"
proof -
  have "push_bit 16 (cx r) OR dx r = dx r OR push_bit 16 (cx r)" by (simp add: or.commute)
  also have "\<dots> = dx r + push_bit 16 (cx r)"
    using or_push_bit [of "dx r" 16 "cx r"] assms(4) by (simp add: push_bit_eq_mult)
  finally have d: "push_bit 16 (cx r) OR dx r = pos" using assms(3,4) by (simp add: push_bit_eq_mult)
  have "pos AND 0x80000000 = 0"
  proof -
    have "\<not> bit pos 31" using assms(1,2) by (simp add: bit_iff_odd)
    then show ?thesis using and_exp_eq_0_iff_not_bit [of pos 31] by simp
  qed
  then show ?thesis using d by (simp add: seek_delta_def)
qed

text \<open>The memory holds \<open>bs\<close> at \<open>seg:off\<close>.\<close>

definition holds :: "memory \<Rightarrow> int \<Rightarrow> int \<Rightarrow> bytes \<Rightarrow> bool" where
  "holds m seg off bs \<longleftrightarrow> (\<forall>i < length bs. mdata m (linear seg off + int i) = bs ! i)"

lemma holds_overwrite: "holds (m\<lparr>mdata := overwrite (linear seg off) bs d\<rparr>) seg off bs"
  by (simp add: holds_def overwrite_def)

lemma write_external_ok:
  assumes "real_mode m" "write_watchers m = []" "ordinary_real_mode_range m seg off (int (length p)) True = Inr (Some a)"
  shows "write_external_block seg off p m = (Inr (), m\<lparr>mdata := overwrite (linear seg off) p (mdata m)\<rparr>)"
proof (cases "p = []")
  case False
  then show ?thesis
    using assms ordinary_rangeD [OF assms(3)] linear_range [of seg off]
    by (simp add: write_external_block_def real_mode_def slice_set_inside)
qed (simp add: write_external_block_def)

text \<open>
  C30: bytes a program writes to an open file come back when it seeks to where it wrote them and
  reads: the same number of bytes, the same values, into whatever buffer it reads them to.
\<close>

theorem write_seek_read:
  assumes "files_ok (disk (world c))" "handle_of c (bx (regs c)) = Some h" "fh_pos h < 0x80000000"
    "real_mode (mem c)" "write_watchers (mem c) = []" "u16 (cx (regs c))"
    "linear (ds (regs c)) (dx (regs c)) + cx (regs c) \<le> msize (mem c)"
    "ordinary_real_mode_range (mem c) seg off (cx (regs c)) True = Inr (Some a)"
  shows "\<exists>c'. seqM [int21_write,
        upd_regs (\<lambda>r. r\<lparr>ax := 0x4200, cx := fh_pos h div 0x10000, dx := fh_pos h mod 0x10000\<rparr>), int21_lseek,
        upd_regs (\<lambda>r. r\<lparr>cx := cx (regs c), ds := seg, dx := off\<rparr>), int21_read] c = (Inr (), c')
    \<and> ax (regs c') = cx (regs c)
    \<and> holds (mem c') seg off (slice_get (mem c) (linear (ds (regs c)) (dx (regs c))) (cx (regs c)))"
proof -
  let ?src = "linear (ds (regs c)) (dx (regs c))"
  let ?n = "cx (regs c)" and ?b = "bx (regs c)"
  let ?bs = "slice_get (mem c) ?src ?n"
  have H: "5 \<le> ?b" "0 \<le> fh_pos h" "fh_data h < length (buffers (disk (world c)))"
    using files_ok_handle [OF assms(1,2)] by simp_all
  have n: "0 \<le> ?n" using assms(6) by (simp add: u16_def)
  have len: "int (length ?bs) = ?n"
    using assms(7) n linear_range [of "ds (regs c)" "dx (regs c)"] by (simp add: slice_get_inside)
  have "block (ds (regs c)) (dx (regs c)) ?n (mem c) = (Inr ?bs, mem c)"
    using block_ok [of "mem c" "ds (regs c)" "dx (regs c)" ?n] assms(4,7) by (simp add: real_mode_def)
  note W = write_effect [OF assms(2) _ _ this]
  let ?data = "write_at (fh_pos h) ?bs (data_of c h)"
  define c1 where "c1 = snd (int21_write c)"
  have c1: "int21_write c = (Inr (), c1)" "mem c1 = mem c" "bx (regs c1) = ?b"
      "handle_of c1 ?b = Some (h\<lparr>fh_pos := fh_pos h + ?n\<rparr>)"
      "buffers (disk (world c1)) ! fh_data h = ?data"
    using W H(1,3) by (simp_all add: c1_def done_with_def AList.update_conv' len)
  define c2 where "c2 = c1\<lparr>regs := (regs c1)\<lparr>ax := 0x4200, cx := fh_pos h div 0x10000, dx := fh_pos h mod 0x10000\<rparr>\<rparr>"
  have d: "seek_delta (regs c2) = fh_pos h" by (rule seek_start [OF H(2) assms(3)]) (simp_all add: c2_def)
  define c3 where "c3 = snd (int21_lseek c2)"
  have c3: "int21_lseek c2 = (Inr (), c3)" "mem c3 = mem c" "bx (regs c3) = ?b"
      "handle_of c3 ?b = Some h" "buffers (disk (world c3)) ! fh_data h = ?data"
    using lseek_effect [of c2 "h\<lparr>fh_pos := fh_pos h + ?n\<rparr>", OF _ refl] c1 d H(2)
    by (simp_all add: c2_def c3_def AList.update_conv' seek_to_def done_with_def)
  define c4 where "c4 = c3\<lparr>regs := (regs c3)\<lparr>cx := ?n, ds := seg, dx := off\<rparr>\<rparr>"
  have c4: "handle_of c4 (bx (regs c4)) = Some h" "data_of c4 h = ?data" "mem c4 = mem c"
    using c3 by (simp_all add: c4_def)
  have amount: "?n = min (cx (regs c4)) (int (length (data_of c4 h)) - fh_pos h)"
    using c4(2) H(2) len by (simp add: write_at_length c4_def)
  let ?m = "(mem c)\<lparr>mdata := overwrite (linear seg off) ?bs (mdata (mem c))\<rparr>"
  have slice: "py_slice (data_of c4 h) (fh_pos h) (fh_pos h + ?n) = ?bs"
    using write_at_slice [OF H(2), of ?bs] len c4(2) by simp
  have "write_external_block (ds (regs c4)) (dx (regs c4)) (py_slice (data_of c4 h) (fh_pos h) (fh_pos h + ?n)) (mem c4)
      = (Inr (), ?m)"
    unfolding slice using write_external_ok [OF assms(4,5), of seg off ?bs] assms(8) len c4(3) by (simp add: c4_def)
  note R = read_effect [OF c4(1) amount this]
  have "holds ?m seg off ?bs" by (rule holds_overwrite)
  then show ?thesis
    using c1(1) c3(1) R by (simp add: upd_regs_def c2_def [symmetric] c4_def [symmetric] done_with_def)
qed

section \<open>The abstract file\<close>

text \<open>A file is its size, its bytes (0 behind the end) and the position of the next access.\<close>

type_synonym afile = "nat \<times> (nat \<Rightarrow> 8 word) \<times> nat"

definition af_write :: "bytes \<Rightarrow> afile \<Rightarrow> afile" where
  "af_write bs f = (case f of (n, b, p) \<Rightarrow>
     (max n (p + length bs), (\<lambda>i. if p \<le> i \<and> i < p + length bs then bs ! (i - p) else b i), p + length bs))"

definition af_read :: "nat \<Rightarrow> afile \<Rightarrow> bytes \<times> afile" where
  "af_read k f = (case f of (n, b, p) \<Rightarrow> let m = min k (n - p) in (map (\<lambda>i. b (p + i)) [0..<m], (n, b, p + m)))"

definition abs_file :: "DOS_files \<Rightarrow> FileHandle \<Rightarrow> afile" where
  "abs_file k h = (let d = buffers k ! fh_data h in
     (length d, (\<lambda>i. if i < length d then d ! i else 0), nat (fh_pos h)))"

lemma abs_write_at:
  assumes "0 \<le> pos"
  shows "(\<lambda>i. if i < max (length d) (nat pos + length bs) then write_at pos bs d ! i else 0)
    = (\<lambda>i. if nat pos \<le> i \<and> i < nat pos + length bs then bs ! (i - nat pos) else if i < length d then d ! i else 0)"
  using write_at_length [OF assms] write_at_nth [OF assms] by (auto simp: fun_eq_iff)

lemma abs_read:
  assumes "0 \<le> pos" "pos \<le> int (length d)" "0 \<le> k" "n = min k (int (length d) - pos)"
  shows "py_slice d pos (pos + n) = map (\<lambda>i. if nat pos + i < length d then d ! (nat pos + i) else 0) [0..<min (nat k) (length d - nat pos)]"
    "nat (pos + n) = nat pos + min (nat k) (length d - nat pos)" "n = int (min (nat k) (length d - nat pos))"
proof -
  show n: "n = int (min (nat k) (length d - nat pos))" "nat (pos + n) = nat pos + min (nat k) (length d - nat pos)"
    using assms by auto
  have "nat (pos + n) - nat pos = min (nat k) (length d - nat pos)" using n(2) by simp
  then show "py_slice d pos (pos + n) = map (\<lambda>i. if nat pos + i < length d then d ! (nat pos + i) else 0) [0..<min (nat k) (length d - nat pos)]"
    by (auto simp: py_slice_def list_eq_iff_nth_eq)
qed

text \<open>
  a read behind the end of a file, which a seek permits, does not return 0 bytes: AX is negative,
  not a 16-bit value, and the position falls back to the end of the file.
\<close>

theorem read_behind_end:
  assumes "handle_of c (bx (regs c)) = Some h" "int (length (data_of c h)) < fh_pos h" "0 \<le> cx (regs c)"
  shows "\<exists>c'. int21_read c = (Inr (), c') \<and> ax (regs c') = int (length (data_of c h)) - fh_pos h
    \<and> ax (regs c') < 0 \<and> mem c' = mem c \<and> buffers (disk (world c')) = buffers (disk (world c))
    \<and> handle_of c' (bx (regs c)) = Some (h\<lparr>fh_pos := int (length (data_of c h))\<rparr>)"
proof -
  let ?n = "min (cx (regs c)) (int (length (data_of c h)) - fh_pos h)"
  have n: "?n = int (length (data_of c h)) - fh_pos h" using assms(2,3) by simp
  have "py_slice (data_of c h) (fh_pos h) (fh_pos h + ?n) = []" using assms(2) n by (simp add: py_slice_def)
  then have "write_external_block (ds (regs c)) (dx (regs c)) (py_slice (data_of c h) (fh_pos h) (fh_pos h + ?n)) (mem c)
      = (Inr (), mem c)" by (simp add: write_external_block_def)
  note R = read_effect [OF assms(1) refl this]
  show ?thesis unfolding R using n assms(2) by (simp add: AList.update_conv' done_with_def)
qed

text \<open>
  C5: reading and writing a file, with a buffer in ordinary memory, implement the file of the abstract
  specification: a write puts the bytes at the position, extends the file when it runs past its end
  and fills a gap with zeros; a read that starts within the file delivers the bytes from the position
  on, at most to the end; both move the position behind them and report their number in AX.  A read
  that starts behind the end, where a seek can lead, transfers nothing and leaves the bytes of the
  file alone, but sets the position back to the end and AX to the (negative) number of bytes between
  the position and the end.
\<close>

theorem file_refines_abstract:
  assumes "files_ok (disk (world c))" "handle_of c (bx (regs c)) = Some h"
    "real_mode (mem c)" "write_watchers (mem c) = []" "u16 (cx (regs c))"
  shows "(\<forall>bs. block (ds (regs c)) (dx (regs c)) (cx (regs c)) (mem c) = (Inr bs, mem c) \<longrightarrow>
      (\<exists>c' h'. int21_write c = (Inr (), c') \<and> handle_of c' (bx (regs c)) = Some h'
        \<and> abs_file (disk (world c')) h' = af_write bs (abs_file (disk (world c)) h) \<and> ax (regs c') = int (length bs)))
    \<and> (\<forall>bs f a. af_read (nat (cx (regs c))) (abs_file (disk (world c)) h) = (bs, f)
        \<and> fh_pos h \<le> int (length (data_of c h))
        \<and> ordinary_real_mode_range (mem c) (ds (regs c)) (dx (regs c)) (int (length bs)) True = Inr (Some a) \<longrightarrow>
      (\<exists>c' h'. int21_read c = (Inr (), c') \<and> handle_of c' (bx (regs c)) = Some h'
        \<and> abs_file (disk (world c')) h' = f \<and> holds (mem c') (ds (regs c)) (dx (regs c)) bs
        \<and> ax (regs c') = int (length bs)))
    \<and> (int (length (data_of c h)) < fh_pos h \<longrightarrow>
      (\<exists>c' h'. int21_read c = (Inr (), c') \<and> handle_of c' (bx (regs c)) = Some h'
        \<and> abs_file (disk (world c')) h' = (case abs_file (disk (world c)) h of (n, b, p) \<Rightarrow> (n, b, n))
        \<and> mem c' = mem c \<and> ax (regs c') = int (length (data_of c h)) - fh_pos h))"
proof (intro conjI allI impI; (elim conjE)?)
  have H: "bx (regs c) \<noteq> 1" "bx (regs c) \<noteq> 2" "0 \<le> fh_pos h" "fh_data h < length (buffers (disk (world c)))"
    using files_ok_handle [OF assms(1,2)] by auto
  {
    fix bs
    assume "block (ds (regs c)) (dx (regs c)) (cx (regs c)) (mem c) = (Inr bs, mem c)"
    note W = write_effect [OF assms(2) H(1,2) this]
    show "\<exists>c' h'. int21_write c = (Inr (), c') \<and> handle_of c' (bx (regs c)) = Some h'
        \<and> abs_file (disk (world c')) h' = af_write bs (abs_file (disk (world c)) h) \<and> ax (regs c') = int (length bs)"
      unfolding W using abs_write_at [OF H(3), of "data_of c h" bs] write_at_length [OF H(3), of bs "data_of c h"] H(3,4)
      by (simp add: AList.update_conv' done_with_def abs_file_def af_write_def Let_def nat_add_distrib cong: if_cong)
  next
    fix bs f a
    assume r: "af_read (nat (cx (regs c))) (abs_file (disk (world c)) h) = (bs, f)"
      and p: "fh_pos h \<le> int (length (data_of c h))"
      and a: "ordinary_real_mode_range (mem c) (ds (regs c)) (dx (regs c)) (int (length bs)) True = Inr (Some a)"
    let ?n = "min (cx (regs c)) (int (length (data_of c h)) - fh_pos h)"
    have "0 \<le> cx (regs c)" using assms(5) by (simp add: u16_def)
    note A = abs_read [OF H(3) p this refl]
    have m: "bs = map (\<lambda>i. if nat (fh_pos h) + i < length (data_of c h) then data_of c h ! (nat (fh_pos h) + i) else 0)
        [0..<min (nat (cx (regs c))) (length (data_of c h) - nat (fh_pos h))]"
      using r by (simp add: af_read_def abs_file_def Let_def)
    have bs: "py_slice (data_of c h) (fh_pos h) (fh_pos h + ?n) = bs" "int (length bs) = ?n"
      by (rule trans [OF A(1) m [symmetric]]) (simp add: A(3) m)
    have f: "f = (length (data_of c h), \<lambda>i. if i < length (data_of c h) then data_of c h ! i else 0, nat (fh_pos h + ?n))"
      using r A(2) by (simp add: af_read_def abs_file_def Let_def)
    have "write_external_block (ds (regs c)) (dx (regs c)) (py_slice (data_of c h) (fh_pos h) (fh_pos h + ?n)) (mem c)
        = (Inr (), (mem c)\<lparr>mdata := overwrite (linear (ds (regs c)) (dx (regs c))) bs (mdata (mem c))\<rparr>)"
      unfolding bs(1) by (rule write_external_ok [OF assms(3,4) a])
    note R = read_effect [OF assms(2) refl this]
    show "\<exists>c' h'. int21_read c = (Inr (), c') \<and> handle_of c' (bx (regs c)) = Some h'
        \<and> abs_file (disk (world c')) h' = f \<and> holds (mem c') (ds (regs c)) (dx (regs c)) bs
        \<and> ax (regs c') = int (length bs)"
      unfolding R bs(2) [symmetric] using f bs(2) [symmetric]
      by (simp add: AList.update_conv' done_with_def abs_file_def Let_def holds_overwrite cong: if_cong)
  next
    assume "int (length (data_of c h)) < fh_pos h"
    moreover have "0 \<le> cx (regs c)" using assms(5) by (simp add: u16_def)
    ultimately show "\<exists>c' h'. int21_read c = (Inr (), c') \<and> handle_of c' (bx (regs c)) = Some h'
        \<and> abs_file (disk (world c')) h' = (case abs_file (disk (world c)) h of (n, b, p) \<Rightarrow> (n, b, n))
        \<and> mem c' = mem c \<and> ax (regs c') = int (length (data_of c h)) - fh_pos h"
      using read_behind_end [OF assms(2)] by (fastforce simp: abs_file_def Let_def)
  }
qed

section \<open>Files across their handles\<close>

lemma write_at_empty: "write_at 0 bs [] = bs"
  by (simp add: write_at_def)

lemma add_file_simps [simp]:
  "map_of (files (add_file p w bs ov k)) (new_handle k)
    = Some \<lparr>fh_path = p, fh_data = length (buffers k), fh_pos = 0, fh_writable = w\<rparr>"
  "buffers (add_file p w bs ov k) = buffers k @ [bs]" "file_overlay (add_file p w bs ov k) = ov"
  "save_dir (add_file p w bs ov k) = save_dir k"
  by (simp_all add: add_file_def AList.update_conv')

lemma opened:
  assumes "file_argument H c = (Inr p, c0)" "load_file_bytes H p (disk (world c)) = Some bs" "int21_open H c = (Inr (), c')"
  shows "\<exists>h. handle_of c' (ax (regs c')) = Some h \<and> data_of c' h = bs"
proof -
  have "world c0 = world c" using file_argument_state [of H c] assms(1) by simp
  then show ?thesis
    using open_effect [OF assms(1), of bs] assms(2,3) by (auto simp: done_with_def)
qed

text \<open>A file created, written once and closed: the program does anything but call DOS in between.\<close>

definition write_file :: "file_host \<Rightarrow> dos cpu \<Rightarrow> path \<Rightarrow> bytes \<Rightarrow> dos cpu \<Rightarrow> bool" where
  "write_file H c p data c5 \<longleftrightarrow> (\<exists>c0 c1 c2 c3 c4. file_argument H c = (Inr p, c0) \<and> int21_create H c = (Inr (), c1)
     \<and> world c2 = world c1 \<and> bx (regs c2) = ax (regs c1)
     \<and> block (ds (regs c2)) (dx (regs c2)) (cx (regs c2)) (mem c2) = (Inr data, mem c2) \<and> int21_write c2 = (Inr (), c3)
     \<and> world c4 = world c3 \<and> bx (regs c4) = ax (regs c1) \<and> int21_close H c4 = (Inr (), c5))"

lemma write_file_disk:
  assumes "write_file H c p data c5"
  shows "case save_dir (disk (world c)) of
      None \<Rightarrow> save_dir (disk (world c5)) = None
    | Some saved \<Rightarrow> save_dir (disk (world c5)) = Some (if sink_writable H (path_name H p) then saved(path_name H p \<mapsto> data) else saved)
        \<and> (\<exists>buf. file_overlay (disk (world c5)) = (file_overlay (disk (world c)))(overlay_key H p \<mapsto> buf)
            \<and> buffers (disk (world c5)) ! buf = data)"
proof -
  obtain c0 c1 c2 c3 c4 where C: "file_argument H c = (Inr p, c0)" "int21_create H c = (Inr (), c1)"
      "world c2 = world c1" "bx (regs c2) = ax (regs c1)"
      "block (ds (regs c2)) (dx (regs c2)) (cx (regs c2)) (mem c2) = (Inr data, mem c2)" "int21_write c2 = (Inr (), c3)"
      "world c4 = world c3" "bx (regs c4) = ax (regs c1)" "int21_close H c4 = (Inr (), c5)"
    using assms unfolding write_file_def by blast
  define k where "k = disk (world c)"
  define b where "b = new_handle k"
  define ov where "ov = (if save_dir k \<noteq> None then (file_overlay k)(overlay_key H p \<mapsto> length (buffers k)) else file_overlay k)"
  have w0: "world c0 = world c" using file_argument_state [of H c] C(1) by simp
  have 1: "disk (world c1) = add_file p True [] ov k" "ax (regs c1) = b"
    using create_effect [OF C(1)] C(2) w0 by (auto simp: k_def b_def ov_def done_with_def)
  have h2: "handle_of c2 (bx (regs c2)) = Some \<lparr>fh_path = p, fh_data = length (buffers k), fh_pos = 0, fh_writable = True\<rparr>"
    using C(3,4) 1 by (simp add: b_def)
  have "bx (regs c2) \<noteq> 1" "bx (regs c2) \<noteq> 2" using C(4) 1(2) new_handle_fresh(2) [of k] by (simp_all add: b_def)
  note W = write_effect [OF h2 this C(5)]
  have 3: "map_of (files (disk (world c3))) b = Some \<lparr>fh_path = p, fh_data = length (buffers k), fh_pos = int (length data), fh_writable = True\<rparr>"
      "buffers (disk (world c3)) = buffers k @ [data]" "file_overlay (disk (world c3)) = ov" "save_dir (disk (world c3)) = save_dir k"
    using W C(3,4,6) 1 by (auto simp: AList.update_conv' write_at_empty b_def)
  have 5: "disk (world c5) = persist_overlay H p ((disk (world c3))\<lparr>files := AList.delete b (files (disk (world c3)))\<rparr>)"
    using C(7-9) 1(2) 3(1) by (auto simp: close_effect)
  show ?thesis
    unfolding k_def [symmetric] 5 using 3(2-4)
    by (auto simp: persist_overlay_def ov_def overlay_key_def split: option.split)
qed

text \<open>
  with persistence on, a program reads back what it wrote: a file it created, wrote and closed
  opens with the bytes written, whatever the game directory holds.  With persistence off it opens with
  the bytes of the game directory again, or is missing there.
\<close>

theorem written_file_reopens:
  assumes "write_file H c p data c5" "world c6 = world c5" "file_argument H c6 = (Inr p, c6')" "int21_open H c6 = (Inr (), c7)"
  shows "if save_dir (disk (world c)) \<noteq> None
    then \<exists>h. handle_of c7 (ax (regs c7)) = Some h \<and> data_of c7 h = data
    else if path_is_file H p then \<exists>h. handle_of c7 (ax (regs c7)) = Some h \<and> data_of c7 h = path_read_bytes H p
    else ax (regs c7) = 2 \<and> disk (world c7) = disk (world c5)"
proof -
  let ?l = "load_file_bytes H p (disk (world c6))"
  have l: "?l = (if save_dir (disk (world c)) \<noteq> None then Some data
      else if path_is_file H p then Some (path_read_bytes H p) else None)"
    using write_file_disk [OF assms(1)] assms(2) by (auto simp: load_file_bytes_def split: option.splits)
  have w: "world c6' = world c6" using file_argument_state [of H c6] assms(3) by simp
  show ?thesis
  proof (cases ?l)
    case (Some bs)
    then show ?thesis using opened [OF assms(3) Some assms(4)] l by (auto split: if_splits)
  next
    case None
    then have "int21_open H c6 = fail 2 c6'" using open_missing [OF assms(3)] w by simp
    then have "ax (regs c7) = 2 \<and> world c7 = world c6" using assms(4) w by (auto simp: fail_app)
    then show ?thesis using None l assms(2) by (auto split: if_splits)
  qed
qed

text \<open>
  what a program writes to a file it opened, not created, is lost when the handle is closed, with
  persistence on as well: opened again, the file has the bytes it had.
\<close>

theorem write_to_opened_file_lost:
  assumes "files_ok (disk (world c))" "\<forall>key a. file_overlay (disk (world c)) key = Some a \<longrightarrow> a < length (buffers (disk (world c)))"
    "file_argument H c = (Inr p, c0)" "load_file_bytes H p (disk (world c)) = Some old" "int21_open H c = (Inr (), c1)"
    "world c2 = world c1" "bx (regs c2) = ax (regs c1)"
    "block (ds (regs c2)) (dx (regs c2)) (cx (regs c2)) (mem c2) = (Inr data, mem c2)" "int21_write c2 = (Inr (), c3)"
    "world c4 = world c3" "bx (regs c4) = ax (regs c1)" "int21_close H c4 = (Inr (), c5)"
    "world c6 = world c5" "file_argument H c6 = (Inr p, c6')" "int21_open H c6 = (Inr (), c7)"
  shows "\<exists>h. handle_of c7 (ax (regs c7)) = Some h \<and> data_of c7 h = old"
proof -
  define k where "k = disk (world c)"
  define b where "b = new_handle k"
  have w0: "world c0 = world c" using file_argument_state [of H c] assms(3) by simp
  have 1: "disk (world c1) = add_file p False old (file_overlay k) k" "ax (regs c1) = b"
    using open_effect [OF assms(3), of old] assms(4,5) w0 by (auto simp: k_def b_def done_with_def)
  have h2: "handle_of c2 (bx (regs c2)) = Some \<lparr>fh_path = p, fh_data = length (buffers k), fh_pos = 0, fh_writable = False\<rparr>"
    using assms(6,7) 1 by (simp add: b_def)
  have "bx (regs c2) \<noteq> 1" "bx (regs c2) \<noteq> 2" using assms(7) 1(2) new_handle_fresh(2) [of k] by (simp_all add: b_def)
  note W = write_effect [OF h2 this assms(8)]
  have 3: "map_of (files (disk (world c3))) b = Some \<lparr>fh_path = p, fh_data = length (buffers k), fh_pos = int (length data), fh_writable = False\<rparr>"
      "buffers (disk (world c3)) = buffers k @ [write_at 0 data old]" "file_overlay (disk (world c3)) = file_overlay k"
      "save_dir (disk (world c3)) = save_dir k"
    using W assms(6,7,9) 1 by (auto simp: AList.update_conv' b_def)
  have 5: "disk (world c5) = (disk (world c3))\<lparr>files := AList.delete b (files (disk (world c3)))\<rparr>"
    using assms(10-12) 1(2) 3(1) by (auto simp: close_effect)
  have "load_file_bytes H p (disk (world c6)) = Some old"
    using assms(2,4) 3(2-4) unfolding assms(13) 5 k_def
    by (auto simp: load_file_bytes_def nth_append split: option.splits if_splits)
  then show ?thesis using opened [OF assms(14) _ assms(15)] by blast
qed

text \<open>
  the save directory keys a file by its last name alone: of two files of that name in different
  directories, the one written last is what both open with in the next run.
\<close>

theorem save_name_collision:
  assumes "write_file H c p data c5" "save_dir (disk (world c)) = Some saved" "sink_writable H (path_name H p)"
    "path_name H q = path_name H p" "save_dir (disk (world c6)) = save_dir (disk (world c5))"
    "file_overlay (disk (world c6)) = Map.empty" "file_argument H c6 = (Inr q, c6')" "int21_open H c6 = (Inr (), c7)"
  shows "\<exists>h. handle_of c7 (ax (regs c7)) = Some h \<and> data_of c7 h = data"
proof -
  have "load_file_bytes H q (disk (world c6)) = Some data"
    using write_file_disk [OF assms(1)] assms(2-6) by (auto simp: load_file_bytes_def)
  then show ?thesis using opened [OF assms(7) _ assms(8)] by blast
qed

section \<open>Instances\<close>

text \<open>A game directory in which every directory holds the one file X, of one byte, and a machine on it.\<close>

definition game_host :: file_host where
  "game_host = \<lparr>joined = (\<lambda>n. n), path_exists = (\<lambda>_. True), rglob = [], relative_to_root = (\<lambda>p. p),
     path_name = (\<lambda>_. [0x58]), last_name = (\<lambda>n. n), path_is_file = (\<lambda>_. True), path_read_bytes = (\<lambda>_. [7]),
     upper = (\<lambda>s. s), lower = (\<lambda>s. s), sink_writable = (\<lambda>_. True)\<rparr>"

definition file_cpu :: "(pystr \<Rightarrow> bytes option) option \<Rightarrow> dos cpu" where
  "file_cpu saved = CPU8086 (memory_new MEM_SIZE None) (DOSMachine\<lparr>disk := disk_new\<lparr>save_dir := saved\<rparr>\<rparr>)"

lemma file_cpu_simps [simp]:
  "mem (file_cpu saved) = memory_new MEM_SIZE None" "save_dir (disk (world (file_cpu saved))) = saved"
  "files (disk (world (file_cpu saved))) = []" "file_overlay (disk (world (file_cpu saved))) = Map.empty"
  "buffers (disk (world (file_cpu saved))) = []"
  by (simp_all add: file_cpu_def CPU8086_def DOSMachine_def disk_new_def)

lemma fresh_files_ok: "files_ok (disk (world (file_cpu saved)))"
  by (simp add: files_ok_def)

lemma fresh_rb: "rb seg off (memory_new MEM_SIZE None) = (Inr 0, memory_new MEM_SIZE None)"
  using rb_plain [OF real_mode_new, of seg off] by (simp add: in_aperture_def memory_new_def)

lemma fresh_name:
  assumes "mem c = memory_new MEM_SIZE None"
  shows "file_argument game_host c = (Inr [], c)"
proof -
  have "c\<lparr>mem := memory_new MEM_SIZE None\<rparr> = c" unfolding assms [symmetric] by simp
  then have "on_mem (rb seg off) c = (Inr 0, c)" for seg off
    using assms fresh_rb [of seg off] by (simp add: on_mem_def)
  then have s: "read_bytes_until 0 (Suc n) seg off c = (Inr [], c)" for n seg off by simp
  have "read_bytes_until 0 260 seg off c = (Inr [], c)" for seg off
    using s [of 259 seg off] by (simp add: eval_nat_numeral)
  then show ?thesis
    by (simp add: file_argument_def get_regs_def read_asciiz_def decode_cp437_def resolve_game_path_def clean_name_def
        str_replace_def strip_def game_host_def Let_def)
qed

lemma fresh_block:
  assumes "mem c = memory_new MEM_SIZE None" "regs c = (regs c')\<lparr>bx := b, cx := 2, ds := 0, dx := 0\<rparr>"
  shows "block (ds (regs c)) (dx (regs c)) (cx (regs c)) (mem c) = (Inr [0, 0], mem c)"
proof -
  have "slice_get (memory_new MEM_SIZE None) 0 2 = [0, 0]"
    by (simp add: slice_get_def memory_new_def mem_consts upt_conv_Cons)
  then show ?thesis
    using block_ok [of "memory_new MEM_SIZE None" 0 0 2] by (simp add: assms linear_eq memory_new_def mem_consts)
qed

lemma create_returns:
  assumes "mem c = memory_new MEM_SIZE None"
  obtains c1 where "int21_create game_host c = (Inr (), c1)" "mem c1 = memory_new MEM_SIZE None"
    "handle_of c1 (ax (regs c1)) = Some \<lparr>fh_path = [], fh_data = length (buffers (disk (world c))), fh_pos = 0, fh_writable = True\<rparr>"
    "5 \<le> ax (regs c1)"
  using create_effect [OF fresh_name [OF assms]] assms new_handle_fresh(2) that by (simp add: done_with_def)

lemma open_returns:
  assumes "mem c = memory_new MEM_SIZE None"
  obtains c1 h where "int21_open game_host c = (Inr (), c1)" "mem c1 = memory_new MEM_SIZE None"
    "handle_of c1 (ax (regs c1)) = Some h" "5 \<le> ax (regs c1)"
proof -
  have "load_file_bytes game_host [] (disk (world c)) \<noteq> None"
    by (simp add: load_file_bytes_def game_host_def Let_def split: option.split)
  then obtain bs where "load_file_bytes game_host [] (disk (world c)) = Some bs" by blast
  then show ?thesis
    using open_effect [OF fresh_name [OF assms]] assms new_handle_fresh(2) that by (simp add: done_with_def)
qed

lemma write_returns:
  assumes "mem c = memory_new MEM_SIZE None" "handle_of c b = Some h" "5 \<le> b"
  obtains c2 c3 where "c2 = c\<lparr>regs := (regs c)\<lparr>bx := b, cx := 2, ds := 0, dx := 0\<rparr>\<rparr>" "mem c2 = mem c" "bx (regs c2) = b"
    "block (ds (regs c2)) (dx (regs c2)) (cx (regs c2)) (mem c2) = (Inr [0, 0], mem c2)"
    "int21_write c2 = (Inr (), c3)" "mem c3 = memory_new MEM_SIZE None"
proof -
  let ?c2 = "c\<lparr>regs := (regs c)\<lparr>bx := b, cx := 2, ds := 0, dx := 0\<rparr>\<rparr>"
  have b: "block (ds (regs ?c2)) (dx (regs ?c2)) (cx (regs ?c2)) (mem ?c2) = (Inr [0, 0], mem ?c2)"
    by (rule fresh_block [where c' = c and b = b]) (simp_all add: assms(1))
  show ?thesis
    using that [of ?c2] write_effect [of ?c2 h, OF _ _ _ b] b assms by simp
qed

lemma fresh_write_file:
  assumes "mem c = memory_new MEM_SIZE None"
  obtains c5 where "write_file game_host c [] [0, 0] c5" "mem c5 = memory_new MEM_SIZE None"
proof -
  obtain c1 h where 1: "int21_create game_host c = (Inr (), c1)" "mem c1 = memory_new MEM_SIZE None"
      "handle_of c1 (ax (regs c1)) = Some h" "5 \<le> ax (regs c1)"
    using create_returns [OF assms] by metis
  obtain c2 c3 where 2: "c2 = c1\<lparr>regs := (regs c1)\<lparr>bx := ax (regs c1), cx := 2, ds := 0, dx := 0\<rparr>\<rparr>"
      "bx (regs c2) = ax (regs c1)" "block (ds (regs c2)) (dx (regs c2)) (cx (regs c2)) (mem c2) = (Inr [0, 0], mem c2)"
      "int21_write c2 = (Inr (), c3)" "mem c3 = memory_new MEM_SIZE None"
    using write_returns [OF 1(2,3,4)] by metis
  define c4 where "c4 = c3\<lparr>regs := (regs c3)\<lparr>bx := ax (regs c1)\<rparr>\<rparr>"
  obtain c5 where 5: "int21_close game_host c4 = (Inr (), c5)" "mem c5 = mem c4" by (simp add: close_effect)
  have "write_file game_host c [] [0, 0] c5"
    unfolding write_file_def
    using fresh_name [OF assms] 1(1) 2 5(1)
    by (intro exI [of _ c] exI [of _ c1] exI [of _ c2] exI [of _ c3] exI [of _ c4]) (simp add: c4_def)
  then show ?thesis using that 5(2) 2(5) by (simp add: c4_def)
qed

text \<open>A machine with one file of one byte open on handle 5.\<close>

definition open_cpu :: "int \<Rightarrow> dos cpu" where
  "open_cpu pos = (file_cpu None)\<lparr>world := (world (file_cpu None))\<lparr>disk := disk_new\<lparr>
     files := [(5, \<lparr>fh_path = [], fh_data = 0, fh_pos = pos, fh_writable = True\<rparr>)], buffers := [[7]]\<rparr>\<rparr>,
     regs := CPUState_init\<lparr>bx := 5, cx := 2\<rparr>\<rparr>"

lemma open_cpu_simps [simp]:
  "mem (open_cpu pos) = memory_new MEM_SIZE None" "regs (open_cpu pos) = CPUState_init\<lparr>bx := 5, cx := 2\<rparr>"
  "handle_of (open_cpu pos) 5 = Some \<lparr>fh_path = [], fh_data = 0, fh_pos = pos, fh_writable = True\<rparr>"
  "buffers (disk (world (open_cpu pos))) = [[7]]"
  by (simp_all add: open_cpu_def)

lemma open_cpu_ok: "0 \<le> pos \<Longrightarrow> files_ok (disk (world (open_cpu pos)))"
  by (simp add: files_ok_def open_cpu_def)

lemma fresh_range: "0 \<le> n \<Longrightarrow> n < 0x1000 \<Longrightarrow> ordinary_real_mode_range (memory_new MEM_SIZE None) 0x2000 0 n True = Inr (Some 0x20000)"
  by (simp add: ordinary_real_mode_range_def memory_new_def mem_consts linear_eq)

theorem file_calls_isolated_witness:
  "\<exists>c'. file_service game_host Create (open_cpu 0) = (Inr (), c') \<and> handle_of c' 6 \<noteq> None \<and> files_ok (disk (world c'))"
proof -
  obtain c' where c: "int21_create game_host (open_cpu 0) = (Inr (), c')" "handle_of c' (ax (regs c')) \<noteq> None"
    using create_returns [of "open_cpu 0"] by (metis open_cpu_simps(1) option.distinct(1))
  have "new_handle (disk (world (open_cpu 0))) = 6"
    by (simp add: new_handle_def open_cpu_def free_handle.simps)
  then have "ax (regs c') = 6" using create_effect [OF fresh_name, of "open_cpu 0"] c(1) by (auto simp: done_with_def)
  moreover have "files_ok (disk (world c'))"
    using file_calls_isolated [of "open_cpu 0" game_host Create "Inr ()" c'] open_cpu_ok [of 0] c(1)
    by (simp add: file_service_def CPUState_init_def)
  ultimately show ?thesis using c by (auto simp: file_service_def)
qed

theorem write_seek_read_witness:
  "\<exists>c'. seqM [int21_write, upd_regs (\<lambda>r. r\<lparr>ax := 0x4200, cx := 0, dx := 5\<rparr>), int21_lseek,
      upd_regs (\<lambda>r. r\<lparr>cx := 2, ds := 0x2000, dx := 0\<rparr>), int21_read] (open_cpu 5) = (Inr (), c') \<and> ax (regs c') = 2"
  using write_seek_read [of "open_cpu 5" _ "0x2000" 0 "0x20000"] open_cpu_ok [of 5] fresh_range [of 2] real_mode_new
  by (auto simp: CPUState_init_def u16_def linear_eq memory_new_def mem_consts)

theorem file_refines_abstract_witness:
  "\<exists>c' h'. int21_write (open_cpu 3) = (Inr (), c') \<and> handle_of c' 5 = Some h'
    \<and> fst (abs_file (disk (world c')) h') = 5 \<and> fst (snd (abs_file (disk (world c')) h')) 2 = 0"
proof -
  have b: "block 0 0 2 (mem (open_cpu 3)) = (Inr [0, 0], mem (open_cpu 3))"
    using fresh_block [where c = "open_cpu 3" and c' = "open_cpu 3" and b = 5] by (simp add: CPUState_init_def)
  have "write_watchers (mem (open_cpu 3)) = []" "real_mode (mem (open_cpu 3))"
    using real_mode_new by (simp_all add: memory_new_def)
  then obtain c' h' where "int21_write (open_cpu 3) = (Inr (), c')" "handle_of c' 5 = Some h'"
      "abs_file (disk (world c')) h' = af_write [0, 0]
        (abs_file (disk (world (open_cpu 3))) \<lparr>fh_path = [], fh_data = 0, fh_pos = 3, fh_writable = True\<rparr>)"
    using file_refines_abstract [of "open_cpu 3" "\<lparr>fh_path = [], fh_data = 0, fh_pos = 3, fh_writable = True\<rparr>",
        THEN conjunct1, rule_format, of "[0, 0]"] open_cpu_ok [of 3] b
    by (auto simp: CPUState_init_def u16_def)
  then show ?thesis by (simp add: abs_file_def af_write_def)
qed

theorem read_behind_end_witness:
  "\<exists>c'. int21_read (open_cpu 3) = (Inr (), c') \<and> ax (regs c') = - 2"
  using read_behind_end [of "open_cpu 3"] by (auto simp: CPUState_init_def)

theorem written_file_reopens_witness:
  "\<exists>c5 c7 h. write_file game_host (file_cpu (Some Map.empty)) [] [0, 0] c5 \<and> int21_open game_host c5 = (Inr (), c7)
    \<and> handle_of c7 (ax (regs c7)) = Some h \<and> data_of c7 h = [0, 0]"
proof -
  obtain c5 where 5: "write_file game_host (file_cpu (Some Map.empty)) [] [0, 0] c5" "mem c5 = memory_new MEM_SIZE None"
    using fresh_write_file [of "file_cpu (Some Map.empty)"] by auto
  obtain c7 where 7: "int21_open game_host c5 = (Inr (), c7)" using open_returns [OF 5(2)] by metis
  show ?thesis
    using written_file_reopens [OF 5(1) refl fresh_name [OF 5(2)] 7] 5(1) 7 by auto
qed

theorem write_to_opened_file_lost_witness:
  "\<exists>c1 c3 c5 c7 h. int21_open game_host (file_cpu (Some Map.empty)) = (Inr (), c1)
    \<and> int21_write (c1\<lparr>regs := (regs c1)\<lparr>bx := ax (regs c1), cx := 2, ds := 0, dx := 0\<rparr>\<rparr>) = (Inr (), c3)
    \<and> int21_close game_host (c3\<lparr>regs := (regs c3)\<lparr>bx := ax (regs c1)\<rparr>\<rparr>) = (Inr (), c5)
    \<and> int21_open game_host c5 = (Inr (), c7) \<and> handle_of c7 (ax (regs c7)) = Some h \<and> data_of c7 h = [7]"
proof -
  let ?c = "file_cpu (Some Map.empty)"
  have m: "mem ?c = memory_new MEM_SIZE None" by simp
  have l: "load_file_bytes game_host [] (disk (world ?c)) = Some [7]"
    by (simp add: load_file_bytes_def game_host_def Let_def)
  obtain c1 h where 1: "int21_open game_host ?c = (Inr (), c1)" "mem c1 = memory_new MEM_SIZE None"
      "handle_of c1 (ax (regs c1)) = Some h" "5 \<le> ax (regs c1)"
    using open_returns [OF m] by metis
  obtain c2 c3 where 2: "c2 = c1\<lparr>regs := (regs c1)\<lparr>bx := ax (regs c1), cx := 2, ds := 0, dx := 0\<rparr>\<rparr>"
      "bx (regs c2) = ax (regs c1)" "block (ds (regs c2)) (dx (regs c2)) (cx (regs c2)) (mem c2) = (Inr [0, 0], mem c2)"
      "int21_write c2 = (Inr (), c3)" "mem c3 = memory_new MEM_SIZE None"
    using write_returns [OF 1(2,3,4)] by metis
  define c4 where "c4 = c3\<lparr>regs := (regs c3)\<lparr>bx := ax (regs c1)\<rparr>\<rparr>"
  obtain c5 where 5: "int21_close game_host c4 = (Inr (), c5)" "mem c5 = mem c4" by (simp add: close_effect)
  have m5: "mem c5 = memory_new MEM_SIZE None" using 5(2) 2(5) by (simp add: c4_def)
  obtain c7 where 7: "int21_open game_host c5 = (Inr (), c7)" using open_returns [OF m5] by metis
  have "world c2 = world c1" "world c4 = world c3" "bx (regs c4) = ax (regs c1)" using 2(1) by (simp_all add: c4_def)
  from write_to_opened_file_lost [OF fresh_files_ok _ fresh_name [OF m] l 1(1) this(1) 2(2-4) this(2,3) 5(1) refl
      fresh_name [OF m5] 7]
  obtain h where "handle_of c7 (ax (regs c7)) = Some h" "data_of c7 h = [7]" by auto
  then show ?thesis using 1(1) 2(1,4) 5(1) 7 unfolding c4_def by blast
qed

theorem save_name_collision_witness:
  "\<exists>c5 c6 c7 h. write_file game_host (file_cpu (Some Map.empty)) [] [0, 0] c5
    \<and> save_dir (disk (world c6)) = save_dir (disk (world c5)) \<and> file_argument game_host c6 = (Inr [0x41], c6)
    \<and> int21_open game_host c6 = (Inr (), c7) \<and> handle_of c7 (ax (regs c7)) = Some h \<and> data_of c7 h = [0, 0]"
proof -
  obtain c5 where 5: "write_file game_host (file_cpu (Some Map.empty)) [] [0, 0] c5" "mem c5 = memory_new MEM_SIZE None"
    using fresh_write_file [of "file_cpu (Some Map.empty)"] by auto
  define m where "m = (memory_new MEM_SIZE None)\<lparr>mdata := (\<lambda>_. 0)(0 := 0x41)\<rparr>"
  define c6 where "c6 = (file_cpu (save_dir (disk (world c5))))\<lparr>mem := m, regs := CPUState_init\<rparr>"
  have r: "real_mode m" using real_mode_new by (simp add: m_def)
  have rb: "rb 0 0 m = (Inr 0x41, m)" "rb 0 1 m = (Inr 0, m)"
    using rb_plain [OF r, of 0 0] rb_plain [OF r, of 0 1] by (simp_all add: m_def in_aperture_def memory_new_def linear_eq)
  have c6: "mem c6 = m" "regs c6 = CPUState_init" "save_dir (disk (world c6)) = save_dir (disk (world c5))"
      "file_overlay (disk (world c6)) = Map.empty"
    by (simp_all add: c6_def)
  have "c6\<lparr>mem := m\<rparr> = c6" unfolding c6(1) [symmetric] by simp
  then have o: "on_mem (rb 0 0) c6 = (Inr 0x41, c6)" "on_mem (rb 0 1) c6 = (Inr 0, c6)"
    using rb c6(1) by (simp_all add: on_mem_def)
  have "read_bytes_until 0 (Suc (Suc n)) 0 0 c6 = (Inr [0x41], c6)" for n using o by simp
  from this [of 258] have "read_bytes_until 0 260 0 0 c6 = (Inr [0x41], c6)" by (simp add: eval_nat_numeral)
  then have f: "file_argument game_host c6 = (Inr [0x41], c6)"
    by (simp add: file_argument_def get_regs_def c6(2) CPUState_init_def read_asciiz_def decode_cp437_def cp437_char_def
        resolve_game_path_def clean_name_def str_replace_def strip_def py_space_def game_host_def Let_def)
  have "load_file_bytes game_host [0x41] (disk (world c6)) \<noteq> None"
    by (simp add: load_file_bytes_def game_host_def Let_def split: option.split)
  then obtain c7 where 7: "int21_open game_host c6 = (Inr (), c7)" using open_effect [OF f] by auto
  have "sink_writable game_host (path_name game_host [])" "path_name game_host [0x41] = path_name game_host []"
    by (simp_all add: game_host_def)
  from save_name_collision [OF 5(1) _ this c6(3,4) f 7] 5(1) c6(3) f 7 show ?thesis by auto
qed

end
