(* ===== verification/Dos_Memory.thy ===== *)
theory Dos_Memory
  imports Dos_State CPU_Exec "HOL-Library.AList"
begin

text \<open>
  The DOS memory services of \<open>dos_re/dos.py\<close>: INT 21h AH=48h, 49h and 4Ah over the dictionary
  \<open>allocations\<close> (segment to size in paragraphs, here an association list in insertion order), and
  the scan of the gaps between the live blocks.  The scan is verified against the contract of an
  allocator, the locale \<open>gap_scan\<close>.
\<close>

section \<open>The scan\<close>

text \<open>The loop of \<open>_free_gaps\<close>: \<open>sz\<close> is the lookup in \<open>allocations\<close>, \<open>lim\<close> the end of the arena.\<close>

primrec gaps_from :: "(int \<Rightarrow> int) \<Rightarrow> int \<Rightarrow> int list \<Rightarrow> int \<Rightarrow> (int \<times> int) list" where
  "gaps_from sz lim [] cursor = (if cursor < lim then [(cursor, lim - cursor)] else [])"
| "gaps_from sz lim (seg # starts) cursor =
     (if seg < cursor then gaps_from sz lim starts cursor
      else (if seg > cursor then [(cursor, seg - cursor)] else [])
        @ gaps_from sz lim starts (max cursor (seg + sz seg)))"

definition block_size :: "dos \<Rightarrow> int \<Rightarrow> int" where
  "block_size d seg = the (map_of (allocations d) seg)"

definition arena_floor :: "dos \<Rightarrow> int" where
  "arena_floor d = (case sort (map fst (allocations d)) of [] \<Rightarrow> next_alloc_segment d | s # _ \<Rightarrow> s)"

definition free_gaps :: "dos \<Rightarrow> (int \<times> int) list" where
  "free_gaps d = gaps_from (block_size d) (allocation_limit_segment d)
     (sort (map fst (allocations d))) (arena_floor d)"

definition find_free_gap :: "int \<Rightarrow> (int \<times> int) list \<Rightarrow> int option" where
  "find_free_gap paragraphs gaps = map_option fst (find (\<lambda>(start, size). size \<ge> paragraphs) gaps)"

definition largest_free_gap :: "(int \<times> int) list \<Rightarrow> int" where
  "largest_free_gap gaps = fold max (map snd gaps) 0"

section \<open>The services\<close>

definition seed_initial_memory_block :: "int \<Rightarrow> int \<Rightarrow> dos \<Rightarrow> exn + dos" where
  "seed_initial_memory_block psp_segment top_segment d =
     (let psp = psp_segment AND 0xFFFF; tp = top_segment AND 0xFFFF in
      if tp \<le> psp then Inl PyValueError
      else Inr (d\<lparr>allocation_limit_segment := tp,
                  allocations := AList.update psp (tp - psp) (allocations d),
                  next_alloc_segment := tp\<rparr>))"

text \<open>AX=8 with the largest gap in BX and CF set: the failing exits of AH=48h.\<close>

definition no_memory :: "int \<Rightarrow> unit dos_op" where
  "no_memory largest =
     thenM (upd_regs (\<lambda>r. r\<lparr>ax := 8, bx := largest AND 0xFFFF\<rparr>)) (set_flag CF True)"

definition int21_allocate :: "unit dos_op" where
  "int21_allocate =
     bindM (get_regs (\<lambda>r. bx r AND 0xFFFF)) (\<lambda>paragraphs. bindM (get_dos (\<lambda>d. d)) (\<lambda>d.
     if paragraphs = 0 then no_memory (largest_free_gap (free_gaps d))
     else case find_free_gap paragraphs (free_gaps d) of
       None \<Rightarrow> no_memory (largest_free_gap (free_gaps d))
     | Some seg \<Rightarrow>
         thenM (upd_dos (\<lambda>d. d\<lparr>allocations := AList.update seg paragraphs (allocations d),
                  next_alloc_segment := (if seg + paragraphs > next_alloc_segment d
                    then seg + paragraphs else next_alloc_segment d)\<rparr>))
        (thenM (set_ax seg) (set_flag CF False))))"

definition int21_free :: "unit dos_op" where
  "int21_free = bindM (get_regs (\<lambda>r. es r AND 0xFFFF)) (\<lambda>seg.
     thenM (upd_dos (\<lambda>d. d\<lparr>allocations := AList.delete seg (allocations d)\<rparr>)) (set_flag CF False))"

definition int21_resize :: "unit dos_op" where
  "int21_resize =
     bindM (get_regs (\<lambda>r. es r AND 0xFFFF)) (\<lambda>seg. bindM (get_regs (\<lambda>r. bx r AND 0xFFFF)) (\<lambda>new_size.
     bindM (get_dos (\<lambda>d. d)) (\<lambda>d.
     case map_of (allocations d) seg of
       None \<Rightarrow> thenM (set_ax 7) (set_flag CF True)
     | Some old_size \<Rightarrow>
        (let old_end = seg + old_size; new_end = seg + new_size;
             store = upd_dos (\<lambda>d. d\<lparr>allocations := AList.update seg new_size (allocations d)\<rparr>);
             limit = allocation_limit_segment d;
             next_used = (case sort (filter (\<lambda>s. s \<ge> old_end) (map fst (allocations d))) of
               [] \<Rightarrow> limit | s # _ \<Rightarrow> s) in
         if new_end \<le> old_end then thenM store (set_flag CF False)
         else if new_end > next_used \<or> new_end > limit then
           thenM (upd_regs (\<lambda>r. r\<lparr>ax := 8, bx := (min next_used limit - seg) AND 0xFFFF\<rparr>))
             (set_flag CF True)
         else
           thenM store
          (thenM (upd_dos (\<lambda>d. if new_end > next_alloc_segment d
                               then d\<lparr>next_alloc_segment := new_end\<rparr> else d))
             (set_flag CF False))))))"

section \<open>The contract of a scan\<close>

text \<open>
  \<open>fits x p\<close> says that \<open>p\<close> paragraphs from \<open>x\<close> on are free.  A scan that lists maximal free gaps in
  address order finds the lowest place a request fits in, and the largest request that fits.
\<close>

locale gap_scan =
  fixes ok :: "'s \<Rightarrow> bool" and gaps :: "'s \<Rightarrow> (int \<times> int) list" and fits :: "'s \<Rightarrow> int \<Rightarrow> int \<Rightarrow> bool"
  assumes sound: "ok d \<Longrightarrow> (g, n) \<in> set (gaps d) \<Longrightarrow> 0 < n \<and> fits d g n"
    and complete: "ok d \<Longrightarrow> fits d x p \<Longrightarrow> 0 < p \<Longrightarrow> \<exists>(g, n) \<in> set (gaps d). g \<le> x \<and> x + p \<le> g + n"
    and smaller: "fits d x p \<Longrightarrow> 0 < q \<Longrightarrow> q \<le> p \<Longrightarrow> fits d x q"
    and ordered: "ok d \<Longrightarrow> sorted (map fst (gaps d))"
begin

lemma find_sound:
  assumes "ok d" "find_free_gap p (gaps d) = Some s" "0 < p"
  shows "fits d s p"
proof -
  obtain n where "(s, n) \<in> set (gaps d)" "p \<le> n"
    using assms(2) by (auto simp: find_free_gap_def find_Some_iff) (metis nth_mem)
  then show ?thesis using sound smaller assms(1,3) by blast
qed

lemma find_least:
  assumes "ok d" "find_free_gap p (gaps d) = Some s" "fits d x p" "0 < p"
  shows "s \<le> x"
proof -
  obtain i n where i: "i < length (gaps d)" "gaps d ! i = (s, n)"
      "\<And>j. j < i \<Longrightarrow> \<not> p \<le> snd (gaps d ! j)"
    using assms(2) by (auto simp: find_free_gap_def find_Some_iff case_prod_beta) (metis eq_fst_iff)
  obtain g m where g: "(g, m) \<in> set (gaps d)" "g \<le> x" "x + p \<le> g + m"
    using complete [OF assms(1,3,4)] by blast
  then obtain j where j: "j < length (gaps d)" "gaps d ! j = (g, m)" by (metis in_set_conv_nth)
  have "i \<le> j" using i(3) [of j] j g by fastforce
  then have "fst (gaps d ! i) \<le> fst (gaps d ! j)"
    using sorted_nth_mono [OF ordered [OF assms(1)], of i j] j(1) i(1) by simp
  then show ?thesis using i(2) j(2) g(2) by simp
qed

lemma find_none:
  assumes "ok d" "find_free_gap p (gaps d) = None" "0 < p"
  shows "\<not> fits d x p"
proof
  assume "fits d x p"
  then obtain g m where g: "(g, m) \<in> set (gaps d)" "g \<le> x" "x + p \<le> g + m"
    using complete assms(1,3) by blast
  have "\<not> p \<le> m" using assms(2) g(1) by (auto simp: find_free_gap_def find_None_iff)
  then show False using g by linarith
qed

lemma fold_max: "fold max xs (a::int) = Max (insert a (set xs))"
  using Max.set_eq_fold [of a xs] by simp

lemma largest_bound:
  assumes "ok d" "fits d x p" "0 < p"
  shows "p \<le> largest_free_gap (gaps d)"
proof -
  obtain g m where "(g, m) \<in> set (gaps d)" "g \<le> x" "x + p \<le> g + m" using complete assms by blast
  moreover from this have "m \<le> largest_free_gap (gaps d)"
    by (force simp: largest_free_gap_def fold_max intro!: Max_ge)
  ultimately show ?thesis by simp
qed

lemma largest_attained:
  "ok d \<Longrightarrow> largest_free_gap (gaps d) = 0
    \<or> 0 < largest_free_gap (gaps d) \<and> (\<exists>x. fits d x (largest_free_gap (gaps d)))"
proof -
  assume "ok d"
  have "largest_free_gap (gaps d) \<in> insert 0 (snd ` set (gaps d))"
    unfolding largest_free_gap_def fold_max by (metis Max_in List.finite_set finite.insertI insert_not_empty list.set_map)
  then show ?thesis using sound [OF \<open>ok d\<close>] by force
qed

end

section \<open>Blocks\<close>

text \<open>The live blocks are disjoint and lie below the limit, which is a segment.\<close>

definition apart :: "int \<Rightarrow> int \<Rightarrow> int \<Rightarrow> int \<Rightarrow> bool" where
  "apart x p b n \<longleftrightarrow> x + p \<le> b \<or> b + n \<le> x"

definition arena_ok :: "dos \<Rightarrow> bool" where
  "arena_ok d \<longleftrightarrow> distinct (map fst (allocations d)) \<and> allocation_limit_segment d \<le> 0xFFFF
     \<and> 0 \<le> next_alloc_segment d
     \<and> (\<forall>(b, n) \<in> set (allocations d). 0 \<le> b \<and> 0 \<le> n \<and> b + n \<le> allocation_limit_segment d
         \<and> (\<forall>(b', n') \<in> set (allocations d). b' \<noteq> b \<longrightarrow> apart b n b' n'))"

definition free_at :: "dos \<Rightarrow> int \<Rightarrow> int \<Rightarrow> bool" where
  "free_at d x p \<longleftrightarrow> arena_floor d \<le> x \<and> x + p \<le> allocation_limit_segment d
     \<and> (\<forall>(b, n) \<in> set (allocations d). apart x p b n)"

text \<open>The loop, for starts in order whose blocks do not overlap.\<close>

definition row_of_blocks :: "(int \<Rightarrow> int) \<Rightarrow> int \<Rightarrow> int list \<Rightarrow> bool" where
  "row_of_blocks sz lim starts \<longleftrightarrow> sorted_wrt (\<lambda>s t. s + sz s \<le> t) starts
     \<and> (\<forall>s \<in> set starts. 0 \<le> sz s \<and> s + sz s \<le> lim)"

lemma gaps_from_sound:
  assumes "row_of_blocks sz lim starts" "\<forall>s \<in> set starts. cursor \<le> s" "(g, n) \<in> set (gaps_from sz lim starts cursor)"
  shows "0 < n \<and> cursor \<le> g \<and> g + n \<le> lim \<and> (\<forall>s \<in> set starts. apart g n s (sz s))"
  using assms
proof (induction starts arbitrary: cursor)
  case Nil
  then show ?case by (auto split: if_splits)
next
  case (Cons seg starts)
  have R: "row_of_blocks sz lim starts" "\<forall>s \<in> set starts. seg + sz seg \<le> s" "0 \<le> sz seg"
      "seg + sz seg \<le> lim" "cursor \<le> seg" "\<forall>s \<in> set starts. seg \<le> s"
    using Cons.prems(1,2) by (auto simp: row_of_blocks_def)
  from Cons.prems(3) R(5) consider "(g, n) = (cursor, seg - cursor)" "cursor < seg"
    | "(g, n) \<in> set (gaps_from sz lim starts (seg + sz seg))"
    using R(3) by (auto simp: max_def split: if_splits)
  then show ?case
  proof cases
    case 1
    then show ?thesis using R by (auto simp: apart_def)
  next
    case 2
    then show ?thesis using Cons.IH [OF R(1,2) 2] R by (auto simp: apart_def)
  qed
qed

lemma gaps_from_complete:
  assumes "row_of_blocks sz lim starts" "\<forall>s \<in> set starts. cursor \<le> s"
    and "cursor \<le> x" "0 < p" "x + p \<le> lim" "\<forall>s \<in> set starts. apart x p s (sz s)"
  shows "\<exists>(g, n) \<in> set (gaps_from sz lim starts cursor). g \<le> x \<and> x + p \<le> g + n"
  using assms
proof (induction starts arbitrary: cursor)
  case Nil
  then show ?case by simp
next
  case (Cons seg starts)
  have R: "row_of_blocks sz lim starts" "\<forall>s \<in> set starts. seg + sz seg \<le> s" "0 \<le> sz seg" "cursor \<le> seg"
    using Cons.prems(1,2) by (auto simp: row_of_blocks_def)
  have M: "max cursor (seg + sz seg) = seg + sz seg" using R by simp
  show ?case
  proof (cases "x + p \<le> seg")
    case True
    then show ?thesis using Cons.prems(3,4) R(4) by auto
  next
    case False
    then have "seg + sz seg \<le> x" using Cons.prems(6) by (simp add: apart_def)
    then have "\<exists>(g, n) \<in> set (gaps_from sz lim starts (seg + sz seg)). g \<le> x \<and> x + p \<le> g + n"
      using Cons.IH [OF R(1,2)] Cons.prems(4-6) by simp
    then show ?thesis using R(4) unfolding gaps_from.simps M by auto
  qed
qed

lemma gaps_from_ordered:
  assumes "row_of_blocks sz lim starts" "\<forall>s \<in> set starts. cursor \<le> s"
  shows "sorted (map fst (gaps_from sz lim starts cursor))"
  using assms
proof (induction starts arbitrary: cursor)
  case Nil
  then show ?case by simp
next
  case (Cons seg starts)
  have R: "row_of_blocks sz lim starts" "\<forall>s \<in> set starts. seg + sz seg \<le> s" "0 \<le> sz seg" "cursor \<le> seg"
    using Cons.prems(1,2) by (auto simp: row_of_blocks_def)
  have "cursor \<le> g" if "(g, n) \<in> set (gaps_from sz lim starts (seg + sz seg))" for g n
    using gaps_from_sound [OF R(1,2) that] R(3,4) by linarith
  then show ?case using Cons.IH [OF R(1,2)] R by (auto simp: max_def)
qed

lemma block_size_of: "arena_ok d \<Longrightarrow> (b, n) \<in> set (allocations d) \<Longrightarrow> block_size d b = n"
  by (simp add: arena_ok_def block_size_def)

lemma arena_row:
  assumes "arena_ok d"
  shows "row_of_blocks (block_size d) (allocation_limit_segment d) (sort (map fst (allocations d)))"
proof -
  let ?al = "allocations d"
  have B: "0 \<le> block_size d s \<and> s + block_size d s \<le> allocation_limit_segment d" if "s \<in> fst ` set ?al" for s
    using that assms block_size_of [OF assms] by (fastforce simp: arena_ok_def)
  have A: "s + block_size d s \<le> t" if st: "s \<in> fst ` set ?al" "t \<in> fst ` set ?al" "s < t" for s t
  proof -
    obtain n m where n: "(s, n) \<in> set ?al" "(t, m) \<in> set ?al" using st(1,2) by (metis imageE prod.collapse)
    then have "apart s n t m" "0 \<le> m" using assms st(3) by (fastforce simp: arena_ok_def)+
    then show ?thesis using block_size_of [OF assms] n st(3) by (simp add: apart_def)
  qed
  have "sorted_wrt (<) (sort (map fst ?al))"
    using assms by (simp add: strict_sorted_iff arena_ok_def)
  then have "sorted_wrt (\<lambda>s t. s + block_size d s \<le> t) (sort (map fst ?al))"
    by (rule sorted_wrt_mono_rel [rotated]) (use A in auto)
  then show ?thesis using B by (simp add: row_of_blocks_def)
qed

lemma arena_floor_le: "s \<in> fst ` set (allocations d) \<Longrightarrow> arena_floor d \<le> s"
proof -
  assume "s \<in> fst ` set (allocations d)"
  then have "s \<in> set (sort (map fst (allocations d)))" by simp
  moreover have "sorted (sort (map fst (allocations d)))" by simp
  ultimately show ?thesis
    unfolding arena_floor_def by (cases "sort (map fst (allocations d))") auto
qed

lemma apart_sizes:
  "arena_ok d \<Longrightarrow> (\<forall>(b, n) \<in> set (allocations d). apart x p b n)
    = (\<forall>s \<in> set (sort (map fst (allocations d))). apart x p s (block_size d s))"
  using block_size_of [of d] by force

interpretation fg: gap_scan arena_ok free_gaps free_at
proof
  fix d
  assume A: "arena_ok d"
  have F: "\<forall>s \<in> set (sort (map fst (allocations d))). arena_floor d \<le> s"
    using arena_floor_le by auto
  note R = arena_row [OF A] F
  show "0 < n \<and> free_at d g n" if "(g, n) \<in> set (free_gaps d)" for g n
    using gaps_from_sound [OF R that [unfolded free_gaps_def]]
    unfolding free_at_def apart_sizes [OF A] by simp
  show "\<exists>(g, n) \<in> set (free_gaps d). g \<le> x \<and> x + p \<le> g + n" if "free_at d x p" "0 < p" for x p
    using gaps_from_complete [OF R _ that(2)] that(1)
    unfolding free_gaps_def free_at_def apart_sizes [OF A] by simp
  show "sorted (map fst (free_gaps d))"
    unfolding free_gaps_def by (rule gaps_from_ordered [OF R])
next
  show "free_at d x q" if "free_at d x p" "0 < q" "q \<le> p" for d x p q
    using that by (fastforce simp: free_at_def apart_def)
qed

section \<open>Allocation\<close>

lemma arena_floor_nonneg: "arena_ok d \<Longrightarrow> 0 \<le> arena_floor d"
proof -
  assume A: "arena_ok d"
  show ?thesis
  proof (cases "sort (map fst (allocations d))")
    case Nil
    then show ?thesis using A by (simp add: arena_floor_def arena_ok_def)
  next
    case (Cons s ss)
    then have "s \<in> fst ` set (allocations d)" by (metis list.set_intros(1) list.set_map set_sort)
    then show ?thesis using A Cons by (auto simp: arena_floor_def arena_ok_def)
  qed
qed

text \<open>A new block: the arena keeps its shape.\<close>

lemma arena_ok_update:
  assumes "arena_ok d" "0 \<le> s" "0 \<le> p" "s + p \<le> allocation_limit_segment d"
    and "\<forall>(b, n) \<in> set (allocations d). b \<noteq> s \<longrightarrow> apart s p b n" "0 \<le> k"
  shows "arena_ok (d\<lparr>allocations := AList.update s p (allocations d), next_alloc_segment := k\<rparr>)"
proof -
  have M: "(b, n) \<in> set (AList.update s p (allocations d))
      \<longleftrightarrow> (if b = s then n = p else (b, n) \<in> set (allocations d))" for b n
  proof -
    have "distinct (map fst (AList.update s p (allocations d)))"
      using assms(1) by (simp add: arena_ok_def AList.distinct_update)
    then have "(b, n) \<in> set (AList.update s p (allocations d))
        \<longleftrightarrow> map_of (AList.update s p (allocations d)) b = Some n" by simp
    also have "\<dots> \<longleftrightarrow> (if b = s then n = p else map_of (allocations d) b = Some n)"
      by (auto simp: update_conv')
    finally show ?thesis using assms(1) by (simp add: arena_ok_def)
  qed
  have "apart b n s p" if "apart s p b n" for b n using that by (auto simp: apart_def)
  then show ?thesis
    using assms unfolding arena_ok_def
    by (auto simp: M AList.distinct_update split: if_splits; fastforce)
qed

lemma free_at_bounds:
  assumes "arena_ok d" "free_at d s p" "0 < p"
  shows "0 \<le> s" "s + p \<le> allocation_limit_segment d" "s + p \<le> 0xFFFF"
    "\<forall>(b, n) \<in> set (allocations d). b \<noteq> s \<longrightarrow> apart s p b n"
  using assms arena_floor_nonneg [OF assms(1)] by (auto simp: free_at_def arena_ok_def)

lemma allocate_none:
  assumes "bx (regs c) AND 0xFFFF = p" "p \<noteq> 0" "find_free_gap p (free_gaps (world c)) = None"
  shows "int21_allocate c = (Inr (), c\<lparr>regs := (regs c)\<lparr>ax := 8,
      bx := largest_free_gap (free_gaps (world c)) AND 0xFFFF,
      flags := set_flag_word CF True (flags (regs c))\<rparr>\<rparr>)"
  using assms
  by (simp add: int21_allocate_def no_memory_def get_regs_def get_dos_def upd_regs_def set_flag_def)

lemma allocate_some:
  assumes "bx (regs c) AND 0xFFFF = p" "p \<noteq> 0" "find_free_gap p (free_gaps (world c)) = Some s"
  shows "int21_allocate c = (Inr (),
    c\<lparr>regs := (regs c)\<lparr>ax := s, flags := set_flag_word CF False (flags (regs c))\<rparr>,
      world := (world c)\<lparr>allocations := AList.update s p (allocations (world c)),
        next_alloc_segment := (if s + p > next_alloc_segment (world c) then s + p
                               else next_alloc_segment (world c))\<rparr>\<rparr>)"
  using assms by (simp add: int21_allocate_def get_regs_def get_dos_def set_ax_def upd_dos_def
      upd_regs_def set_flag_def)

lemma largest_range:
  assumes "arena_ok d"
  shows "0 \<le> largest_free_gap (free_gaps d)" "largest_free_gap (free_gaps d) \<le> 0xFFFF"
proof -
  let ?n = "largest_free_gap (free_gaps d)"
  have "?n = 0 \<or> 0 < ?n \<and> (\<exists>x. free_at d x ?n)" by (rule fg.largest_attained [OF assms])
  moreover have "?n \<le> 0xFFFF" if "free_at d x ?n" "0 < ?n" for x
    using free_at_bounds [OF assms that] by linarith
  ultimately show "0 \<le> ?n" "?n \<le> 0xFFFF" by auto
qed

text \<open>
  C6: AH=48h is first-fit allocation.  A request is granted exactly when it fits between live blocks
  (from the lowest live block to the limit): AX is then the lowest segment where it fits, and the
  block is recorded.  Otherwise AX is 8 with CF set, nothing changes, and BX is the size of the
  largest request that would fit.
\<close>

theorem allocate_first_fit:
  assumes "arena_ok (world c)" "p = bx (regs c) AND 0xFFFF" "0 < p"
  shows "\<exists>c'. int21_allocate c = (Inr (), c') \<and>
    (if \<exists>x. free_at (world c) x p
     then free_at (world c) (ax (regs c')) p \<and> (\<forall>x. free_at (world c) x p \<longrightarrow> ax (regs c') \<le> x)
       \<and> map_of (allocations (world c')) = (map_of (allocations (world c)))(ax (regs c') \<mapsto> p)
       \<and> flags (regs c') = set_flag_word CF False (flags (regs c))
     else ax (regs c') = 8 \<and> world c' = world c
       \<and> (\<forall>x n. 0 < n \<and> free_at (world c) x n \<longrightarrow> n \<le> bx (regs c'))
       \<and> (bx (regs c') = 0 \<or> (\<exists>x. free_at (world c) x (bx (regs c'))))
       \<and> flags (regs c') = set_flag_word CF True (flags (regs c)))"
proof (cases "find_free_gap p (free_gaps (world c))")
  case None
  have "largest_free_gap (free_gaps (world c)) AND 0xFFFF = largest_free_gap (free_gaps (world c))"
    using largest_range [OF assms(1)] by (simp add: mask_simps)
  then show ?thesis
    using allocate_none [OF assms(2) [symmetric] _ None] assms(3) fg.find_none [OF assms(1) None assms(3)]
      fg.largest_bound [OF assms(1)] fg.largest_attained [OF assms(1)]
    by auto
next
  case (Some s)
  have "free_at (world c) s p" by (rule fg.find_sound [OF assms(1) Some assms(3)])
  then show ?thesis
    using allocate_some [OF assms(2) [symmetric] _ Some] assms(3)
      fg.find_least [OF assms(1) Some _ assms(3)]
    by (auto simp: update_conv')
qed

section \<open>Resizing\<close>

definition resizable :: "dos \<Rightarrow> int \<Rightarrow> int \<Rightarrow> bool" where
  "resizable d seg n \<longleftrightarrow> seg + n \<le> allocation_limit_segment d
     \<and> (\<forall>(b, m) \<in> set (allocations d). b \<noteq> seg \<longrightarrow> apart seg n b m)"

lemma resize_effect:
  assumes "es (regs c) AND 0xFFFF = seg" "bx (regs c) AND 0xFFFF = n"
    "map_of (allocations (world c)) seg = Some old"
    "next_used = (case sort (filter (\<lambda>s. s \<ge> seg + old) (map fst (allocations (world c)))) of
       [] \<Rightarrow> allocation_limit_segment (world c) | s # _ \<Rightarrow> s)"
    "limit = allocation_limit_segment (world c)"
  shows "int21_resize c = (Inr (),
    (if n \<le> old \<or> seg + n \<le> next_used \<and> seg + n \<le> limit
     then c\<lparr>regs := (regs c)\<lparr>flags := set_flag_word CF False (flags (regs c))\<rparr>,
            world := (world c)\<lparr>allocations := AList.update seg n (allocations (world c)),
              next_alloc_segment := (if n > old \<and> seg + n > next_alloc_segment (world c)
                then seg + n else next_alloc_segment (world c))\<rparr>\<rparr>
     else c\<lparr>regs := (regs c)\<lparr>ax := 8, bx := (min next_used limit - seg) AND 0xFFFF,
            flags := set_flag_word CF True (flags (regs c))\<rparr>\<rparr>))"
  using assms(1-3) unfolding assms(4,5)
  by (simp add: int21_resize_def get_regs_def get_dos_def upd_dos_def upd_regs_def set_flag_def Let_def not_le)

lemma next_used_least:
  assumes "next_used = (case sort (filter (\<lambda>s. s \<ge> e) ks) of [] \<Rightarrow> lim | s # _ \<Rightarrow> (s::int))"
  shows "\<forall>s \<in> set ks. e \<le> s \<longrightarrow> next_used \<le> s" "next_used = lim \<or> next_used \<in> set ks \<and> e \<le> next_used"
proof -
  let ?xs = "sort (filter (\<lambda>s. s \<ge> e) ks)"
  have X: "set ?xs = {s \<in> set ks. e \<le> s}" "sorted ?xs" by auto
  show "\<forall>s \<in> set ks. e \<le> s \<longrightarrow> next_used \<le> s"
    using X assms by (cases ?xs) fastforce+
  show "next_used = lim \<or> next_used \<in> set ks \<and> e \<le> next_used"
    using X assms by (cases ?xs) auto
qed

text \<open>What the branch condition means, for a block that is not empty.\<close>

lemma resizable_iff:
  assumes "arena_ok d" "map_of (allocations d) seg = Some old" "0 < old" "0 \<le> n"
    "next_used = (case sort (filter (\<lambda>s. s \<ge> seg + old) (map fst (allocations d))) of
       [] \<Rightarrow> allocation_limit_segment d | s # _ \<Rightarrow> s)"
  shows "resizable d seg n \<longleftrightarrow> n \<le> min next_used (allocation_limit_segment d) - seg"
    "seg + old \<le> min next_used (allocation_limit_segment d)"
proof -
  let ?al = "allocations d" and ?lim = "allocation_limit_segment d"
  have B: "0 \<le> m \<and> apart seg old b m" if "(b, m) \<in> set ?al" "b \<noteq> seg" for b m
    using assms(1) map_of_SomeD [OF assms(2)] that by (fastforce simp: arena_ok_def)
  have L: "seg + old \<le> ?lim" using assms(1) map_of_SomeD [OF assms(2)] by (auto simp: arena_ok_def)
  note N = next_used_least [OF assms(5)]
  show le: "seg + old \<le> min next_used ?lim" using N(2) L by auto
  have A: "apart seg n b m" if n: "seg + n \<le> next_used" and b: "(b, m) \<in> set ?al" "b \<noteq> seg" for b m
  proof (cases "seg + old \<le> b")
    case True
    then have "next_used \<le> b" using N(1) b(1) by force
    then show ?thesis using n by (simp add: apart_def)
  next
    case False
    then show ?thesis using B [OF b] by (simp add: apart_def)
  qed
  have U: "seg + n \<le> next_used" if r: "resizable d seg n"
  proof (cases "next_used = ?lim")
    case True
    then show ?thesis using r by (simp add: resizable_def)
  next
    case False
    then obtain m where m: "(next_used, m) \<in> set ?al" "seg + old \<le> next_used" using N(2) by auto
    have "apart seg n next_used m" "0 \<le> m"
      using r m B [OF m(1)] assms(3) by (auto simp: resizable_def)
    then show ?thesis using m(2) assms(3) by (simp add: apart_def)
  qed
  have "resizable d seg n \<longleftrightarrow> seg + n \<le> next_used \<and> seg + n \<le> ?lim"
    using A U by (fastforce simp: resizable_def)
  then show "resizable d seg n \<longleftrightarrow> n \<le> min next_used ?lim - seg" by auto
qed

text \<open>
  AH=4Ah resizes a non-empty block in place exactly when the new size overlaps no other block and
  stays below the limit; otherwise nothing changes, AX is 8 with CF set, and BX is the largest size
  the block can have.
\<close>

theorem resize_exact:
  assumes "arena_ok (world c)" "map_of (allocations (world c)) seg = Some old" "0 < old"
    "seg = es (regs c) AND 0xFFFF" "n = bx (regs c) AND 0xFFFF"
  shows "\<exists>c'. int21_resize c = (Inr (), c') \<and>
    (if resizable (world c) seg n
     then map_of (allocations (world c')) = (map_of (allocations (world c)))(seg \<mapsto> n)
       \<and> flags (regs c') = set_flag_word CF False (flags (regs c))
     else world c' = world c \<and> ax (regs c') = 8
       \<and> resizable (world c) seg (bx (regs c'))
       \<and> (\<forall>m. 0 \<le> m \<and> resizable (world c) seg m \<longrightarrow> m \<le> bx (regs c'))
       \<and> flags (regs c') = set_flag_word CF True (flags (regs c)))"
proof -
  let ?d = "world c" and ?lim = "allocation_limit_segment (world c)"
  define nu where "nu = (case sort (filter (\<lambda>s. s \<ge> seg + old) (map fst (allocations ?d))) of
       [] \<Rightarrow> ?lim | s # _ \<Rightarrow> s)"
  note R = resizable_iff [OF assms(1-3) _ nu_def]
  have n0: "0 \<le> n" using assms(5) by (simp add: mask_simps)
  have seg: "0 \<le> seg" "?lim \<le> 0xFFFF"
    using assms(1) map_of_SomeD [OF assms(2)] by (auto simp: arena_ok_def)
  have le: "seg + old \<le> min nu ?lim" using R(2) [of 0] by simp
  have m: "(min nu ?lim - seg) AND 0xFFFF = min nu ?lim - seg"
    using le seg assms(3) by (simp add: mask_simps)
  have c: "(n \<le> old \<or> seg + n \<le> nu \<and> seg + n \<le> ?lim) \<longleftrightarrow> resizable ?d seg n"
    using R(1) [OF n0] le by auto
  show ?thesis
    using resize_effect [OF assms(4,5) [symmetric] assms(2) nu_def refl] c m R(1) le assms(3)
    by (auto simp: update_conv')
qed

section \<open>The invariant over a program's calls\<close>

text \<open>Any sequence of memory calls, each with the registers the program has at that time.\<close>

datatype memory_call = Allocate | Free | Resize

definition memory_service :: "memory_call \<Rightarrow> unit dos_op" where
  "memory_service k = (case k of Allocate \<Rightarrow> int21_allocate | Free \<Rightarrow> int21_free | Resize \<Rightarrow> int21_resize)"

definition memory_calls :: "(memory_call \<times> CPUState) list \<Rightarrow> dos cpu \<Rightarrow> dos cpu" where
  "memory_calls = fold (\<lambda>(k, r) c. snd (memory_service k (c\<lparr>regs := r\<rparr>)))"

interpretation arena: state_invariant "\<lambda>c. arena_ok (world c)" .

lemma arena_ok_same_next:
  assumes "arena_ok (d\<lparr>allocations := al, next_alloc_segment := k\<rparr>)" "0 \<le> next_alloc_segment d"
  shows "arena_ok (d\<lparr>allocations := al\<rparr>)"
  using assms by (simp add: arena_ok_def)

lemma keeps_allocate: "arena.keeps int21_allocate (\<lambda>_. True)"
proof (rule arena.keepsI)
  fix c :: "dos cpu"
  assume A: "arena_ok (world c)"
  let ?p = "bx (regs c) AND 0xFFFF"
  show "arena_ok (world (snd (int21_allocate c)))"
  proof (cases "?p = 0")
    case True
    then show ?thesis
      using A by (simp add: int21_allocate_def no_memory_def get_regs_def get_dos_def upd_regs_def set_flag_def)
  next
    case False
    then have p: "0 < ?p" by (simp add: mask_simps less_le)
    show ?thesis
    proof (cases "find_free_gap ?p (free_gaps (world c))")
      case None
      then show ?thesis using allocate_none [OF refl False None] A by simp
    next
      case (Some s)
      note B = free_at_bounds [OF A fg.find_sound [OF A Some p] p]
      have "0 \<le> next_alloc_segment (world c)" using A by (simp add: arena_ok_def)
      then show ?thesis
        using allocate_some [OF refl False Some] arena_ok_update [OF A B(1) _ B(2,4)] p B(1) by simp
    qed
  qed
qed simp

lemma delete_subset: "set (AList.delete k al) \<subseteq> set al"
  by (auto simp: AList.delete_eq)

lemma arena_ok_delete: "arena_ok d \<Longrightarrow> arena_ok (d\<lparr>allocations := AList.delete k (allocations d)\<rparr>)"
  using delete_subset [of k "allocations d"] unfolding arena_ok_def
  by (auto simp: AList.distinct_delete; blast)

lemma free_effect: "int21_free c = (Inr (), c\<lparr>regs := (regs c)\<lparr>flags := set_flag_word CF False (flags (regs c))\<rparr>,
    world := (world c)\<lparr>allocations := AList.delete (es (regs c) AND 0xFFFF) (allocations (world c))\<rparr>\<rparr>)"
  by (simp add: int21_free_def get_regs_def upd_dos_def upd_regs_def set_flag_def)

lemma keeps_free: "arena.keeps int21_free (\<lambda>_. True)"
  by (rule arena.keepsI) (simp_all add: free_effect arena_ok_delete)

text \<open>The branch of a growing or shrinking block: also an empty block, which only stays empty.\<close>

lemma next_used_empty:
  assumes "arena_ok d" "map_of (allocations d) seg = Some 0"
    "nu = (case sort (filter (\<lambda>s. s \<ge> seg + 0) (map fst (allocations d))) of
       [] \<Rightarrow> allocation_limit_segment d | s # _ \<Rightarrow> s)"
  shows "nu = seg" "seg \<le> allocation_limit_segment d"
proof -
  have m: "seg \<in> set (map fst (allocations d))" using map_of_SomeD [OF assms(2)] by force
  then have "nu \<le> seg" using next_used_least(1) [OF assms(3), THEN bspec, of seg] by simp
  moreover show l: "seg \<le> allocation_limit_segment d"
    using assms(1) map_of_SomeD [OF assms(2)] by (auto simp: arena_ok_def)
  ultimately show "nu = seg" using next_used_least(2) [OF assms(3)] by auto
qed

lemma resize_branch:
  assumes "arena_ok d" "map_of (allocations d) seg = Some old" "0 \<le> n"
    "nu = (case sort (filter (\<lambda>s. s \<ge> seg + old) (map fst (allocations d))) of
       [] \<Rightarrow> allocation_limit_segment d | s # _ \<Rightarrow> s)"
    "n \<le> old \<or> seg + n \<le> nu \<and> seg + n \<le> allocation_limit_segment d"
  shows "resizable d seg n"
proof -
  have O: "0 \<le> old" "seg + old \<le> allocation_limit_segment d"
    using assms(1) map_of_SomeD [OF assms(2)] by (auto simp: arena_ok_def)
  have small: "resizable d seg n" if "n \<le> old"
    using assms(1,3) map_of_SomeD [OF assms(2)] O that
    by (fastforce simp: resizable_def arena_ok_def apart_def)
  show ?thesis
  proof (cases "old = 0")
    case True
    then have "nu = seg" using next_used_empty [OF assms(1)] assms(2,4) by simp
    then show ?thesis using small assms(3,5) True by linarith
  next
    case False
    then show ?thesis
      using resizable_iff(1) [OF assms(1,2) _ assms(3,4)] small assms(5) O(1) by auto
  qed
qed

lemma keeps_resize: "arena.keeps int21_resize (\<lambda>_. True)"
proof (rule arena.keepsI)
  fix c :: "dos cpu"
  assume A: "arena_ok (world c)"
  let ?seg = "es (regs c) AND 0xFFFF" and ?n = "bx (regs c) AND 0xFFFF"
  let ?lim = "allocation_limit_segment (world c)"
  have n: "0 \<le> ?n" "0 \<le> ?seg" "0 \<le> next_alloc_segment (world c)"
    using A by (simp_all add: mask_simps arena_ok_def)
  show "arena_ok (world (snd (int21_resize c)))"
  proof (cases "map_of (allocations (world c)) ?seg")
    case None
    then show ?thesis using A
      by (simp add: int21_resize_def get_regs_def get_dos_def set_ax_def upd_regs_def set_flag_def)
  next
    case (Some old)
    define nu where "nu = (case sort (filter (\<lambda>s. s \<ge> ?seg + old) (map fst (allocations (world c)))) of
       [] \<Rightarrow> ?lim | s # _ \<Rightarrow> s)"
    note E = resize_effect [OF refl refl Some nu_def refl]
    show ?thesis
    proof (cases "?n \<le> old \<or> ?seg + ?n \<le> nu \<and> ?seg + ?n \<le> ?lim")
      case True
      have "arena_ok ((world c)\<lparr>allocations := AList.update ?seg ?n (allocations (world c)), next_alloc_segment := k\<rparr>)"
        if "0 \<le> k" for k
        using arena_ok_update [OF A n(2,1) _ _ that] resize_branch [OF A Some n(1) nu_def True]
        by (simp add: resizable_def)
      then show ?thesis using E True n by simp
    next
      case False
      then show ?thesis using E A by auto
    qed
  qed
qed simp

text \<open>
  C24: whatever memory calls a program makes, with whatever register contents, the live blocks stay
  pairwise disjoint and inside the arena.
\<close>

theorem memory_calls_keep_blocks_apart:
  assumes "arena_ok (world c)" "c' = memory_calls ks c"
    "(b, n) \<in> set (allocations (world c'))" "(b', n') \<in> set (allocations (world c'))" "b \<noteq> b'"
  shows "0 \<le> b \<and> b + n \<le> allocation_limit_segment (world c') \<and> (b + n \<le> b' \<or> b' + n' \<le> b)"
proof -
  have K: "arena.keeps (memory_service k) (\<lambda>_. True)" for k
    using keeps_allocate keeps_free keeps_resize by (cases k) (simp_all add: memory_service_def)
  have "arena_ok (world (memory_calls ks c))"
    using assms(1) unfolding memory_calls_def
    by (induction ks arbitrary: c) (use arena.keepsD [OF K] in \<open>auto split: prod.splits\<close>)
  then show ?thesis using assms(2-) by (fastforce simp: arena_ok_def apart_def)
qed

section \<open>What is lost\<close>

text \<open>
  a block shrunk to zero paragraphs can never be grown again, however much is free behind it:
  the scan for the next block finds the block itself.
\<close>

theorem empty_block_cannot_grow:
  assumes "arena_ok (world c)" "map_of (allocations (world c)) (es (regs c) AND 0xFFFF) = Some 0"
    "0 < bx (regs c) AND 0xFFFF"
  shows "\<exists>c'. int21_resize c = (Inr (), c') \<and> world c' = world c \<and> ax (regs c') = 8 \<and> bx (regs c') = 0"
proof -
  let ?seg = "es (regs c) AND 0xFFFF"
  define nu where "nu = (case sort (filter (\<lambda>s. s \<ge> ?seg + 0) (map fst (allocations (world c)))) of
       [] \<Rightarrow> allocation_limit_segment (world c) | s # _ \<Rightarrow> s)"
  note nu = next_used_empty [OF assms(1,2) nu_def]
  then show ?thesis
    using resize_effect [OF refl refl assms(2) nu_def refl] assms(3) by (auto simp: min_def)
qed

lemma floor_after_delete:
  assumes "sort (map fst (allocations d)) = a # bs" "distinct (map fst (allocations d))"
  shows "arena_floor (d\<lparr>allocations := AList.delete a (allocations d)\<rparr>)
    = (case bs of [] \<Rightarrow> next_alloc_segment d | b # _ \<Rightarrow> b)"
proof -
  have "map fst (AList.delete a al) = filter (\<lambda>s. s \<noteq> a) (map fst al)" for al :: "(int \<times> int) list"
    by (induction al) auto
  then have "sort (map fst (AList.delete a (allocations d))) = filter (\<lambda>s. s \<noteq> a) (a # bs)"
    using assms(1) by (metis filter_sort)
  moreover have "a \<notin> set bs"
    using assms by (metis distinct.simps(2) distinct_sort)
  then have "filter (\<lambda>s. s \<noteq> a) bs = bs" by (auto simp: filter_id_conv)
  ultimately show ?thesis
    by (cases bs) (simp_all add: arena_floor_def)
qed

text \<open>
  freeing the lowest live block gives its space up for good: no later request is granted below
  the next live block, or, when it was the last one, below the end of all that was ever allocated.
\<close>

theorem freed_floor_is_lost:
  assumes "arena_ok (world c)" "sort (map fst (allocations (world c))) = a # bs"
    "es (regs c) AND 0xFFFF = a"
    "lo = (case bs of [] \<Rightarrow> next_alloc_segment (world c) | b # _ \<Rightarrow> b)"
  shows "\<exists>c'. int21_free c = (Inr (), c') \<and> a \<notin> set (map fst (allocations (world c')))
    \<and> (\<forall>p s. 0 < p \<and> find_free_gap p (free_gaps (world c')) = Some s \<longrightarrow> lo \<le> s)"
proof -
  let ?d = "(world c)\<lparr>allocations := AList.delete a (allocations (world c))\<rparr>"
  have ok: "arena_ok ?d" by (rule arena_ok_delete [OF assms(1)])
  have fl: "arena_floor ?d = lo"
    using floor_after_delete [OF assms(2)] assms(1,4) by (simp add: arena_ok_def)
  have "lo \<le> s" if "0 < p" "find_free_gap p (free_gaps ?d) = Some s" for p s
    using fg.find_sound [OF ok that(2,1)] fl by (simp add: free_at_def)
  then show ?thesis using free_effect [of c] assms(3) by (auto simp: AList.delete_eq)
qed

section \<open>A program's memory\<close>

lemma seed_ok:
  assumes "allocations d = []" "seed_initial_memory_block psp end_seg d = Inr d'"
  shows "arena_ok d'"
proof -
  have "0 \<le> psp AND 0xFFFF" "0 \<le> end_seg AND 0xFFFF" "end_seg AND 0xFFFF \<le> 0xFFFF"
    by (simp_all add: mask_simps)
  then show ?thesis
    using assms by (auto simp: seed_initial_memory_block_def arena_ok_def Let_def split: if_splits)
qed

text \<open>A program at 0100h that kept 0F00h paragraphs, with a block of 100h at 2000h and an empty one.\<close>

definition game_dos :: dos where
  "game_dos = DOSMachine\<lparr>allocation_limit_segment := 0xA000, next_alloc_segment := 0xA000,
     allocations := [(0x100, 0xF00), (0x2000, 0x100), (0x3000, 0)]\<rparr>"

definition game_cpu :: "int \<Rightarrow> int \<Rightarrow> dos cpu" where
  "game_cpu e b = (CPU8086 (memory_new MEM_SIZE None) game_dos)\<lparr>regs := CPUState_init\<lparr>es := e, bx := b\<rparr>\<rparr>"

lemma game_cpu_simps [simp]:
  "world (game_cpu e b) = game_dos" "es (regs (game_cpu e b)) = e" "bx (regs (game_cpu e b)) = b"
  by (simp_all add: game_cpu_def CPU8086_def)

lemma game_arena: "arena_ok game_dos"
  by (simp add: arena_ok_def game_dos_def apart_def)

lemma game_floor: "arena_floor game_dos = 0x100"
  by (simp add: arena_floor_def game_dos_def)

theorem allocate_first_fit_witness:
  "\<exists>c'. int21_allocate (game_cpu 0 0x1000) = (Inr (), c') \<and> ax (regs c') \<le> 0x1000
    \<and> map_of (allocations (world c')) (ax (regs c')) = Some 0x1000"
proof -
  have "free_at game_dos 0x1000 0x1000"
    using game_floor by (simp add: free_at_def apart_def) (simp add: game_dos_def)
  moreover from this have "(\<exists>x. free_at game_dos x 0x1000) = True" by blast
  ultimately show ?thesis
    using allocate_first_fit [of "game_cpu 0 0x1000" "0x1000"] game_arena by (auto simp only: game_cpu_simps) fastforce
qed

theorem resize_exact_witness:
  "\<exists>c'. int21_resize (game_cpu 0x2000 0x2000) = (Inr (), c') \<and> world c' = game_dos \<and> ax (regs c') = 8"
proof -
  have "\<not> resizable game_dos 0x2000 0x2000" "map_of (allocations game_dos) 0x2000 = Some 0x100"
    by (simp_all add: resizable_def game_dos_def apart_def)
  then show ?thesis
    using resize_exact [of "game_cpu 0x2000 0x2000" "0x2000" "0x100" "0x2000"] game_arena by auto
qed

theorem memory_calls_keep_blocks_apart_witness:
  "(0x100::int) + 0xF00 \<le> 0x2000
   \<and> (\<exists>d'. seed_initial_memory_block 0x100 0xA000 DOSMachine = Inr d' \<and> arena_ok d')"
proof
  have "(0x100, 0xF00) \<in> set (allocations game_dos)" "(0x2000, 0x100) \<in> set (allocations game_dos)"
    by (simp_all add: game_dos_def)
  then show "(0x100::int) + 0xF00 \<le> 0x2000"
    using memory_calls_keep_blocks_apart [of "game_cpu 0 0" "game_cpu 0 0" "[]" "0x100" "0xF00" "0x2000" "0x100"]
      game_arena by (simp add: memory_calls_def)
  show "\<exists>d'. seed_initial_memory_block 0x100 0xA000 DOSMachine = Inr d' \<and> arena_ok d'"
    using seed_ok [of DOSMachine "0x100" "0xA000"]
    by (auto simp: seed_initial_memory_block_def DOSMachine_def)
qed

theorem empty_block_cannot_grow_witness:
  "\<exists>c'. int21_resize (game_cpu 0x3000 1) = (Inr (), c') \<and> world c' = game_dos \<and> ax (regs c') = 8 \<and> bx (regs c') = 0"
proof -
  have "map_of (allocations game_dos) 0x3000 = Some 0" by (simp add: game_dos_def)
  then show ?thesis using empty_block_cannot_grow [of "game_cpu 0x3000 1"] game_arena by simp
qed

theorem freed_floor_is_lost_witness:
  "\<exists>c'. int21_free (game_cpu 0x100 0) = (Inr (), c')
    \<and> (\<forall>s. find_free_gap 0x100 (free_gaps (world c')) = Some s \<longrightarrow> 0x2000 \<le> s)"
proof -
  have "sort (map fst (allocations game_dos)) = [0x100, 0x2000, 0x3000]" by (simp add: game_dos_def)
  then obtain c' where c: "int21_free (game_cpu 0x100 0) = (Inr (), c')"
      "\<forall>p s. 0 < p \<and> find_free_gap p (free_gaps (world c')) = Some s \<longrightarrow> 0x2000 \<le> s"
    using freed_floor_is_lost [of "game_cpu 0x100 0" "0x100" "[0x2000, 0x3000]" "0x2000"] game_arena
    by (simp only: game_cpu_simps list.case) auto
  show ?thesis using c(1) c(2) [THEN spec, of "0x100"] by (intro exI [of _ c']) simp
qed

end
