(* ===== verification/Dos_Ports.thy ===== *)
theory Dos_Ports
  imports Dos_State CPU_Run
begin

text \<open>
  Port input and output of \<open>dos_re/dos.py\<close>: the system timer and speaker, the VGA registers and
  palette DAC, the OPL2 chip, the keyboard controller, the routing of a port write to its device.

  The host clock is a parameter: what the two computations on \<open>time_source\<close> yield at a moment (timer
  ticks, and whether the display is in its retrace period), and the clock of the Sound Blaster.
\<close>

section \<open>Parameters\<close>

record wall_clock =
  pit_ticks :: int
  in_retrace :: bool

record io_host =
  time_source :: "(dos cpu \<Rightarrow> wall_clock) option"
  sb_time :: "(dos cpu \<Rightarrow> f64) option"
  io_floats :: float_ops

section \<open>System timer and speaker\<close>

definition or_default :: "int \<Rightarrow> int \<Rightarrow> int" where
  "or_default v d = (if v \<noteq> 0 then v else d)"

text \<open>\<open>int(cpu.instruction_count * 3.0)\<close> without a clock.\<close>

definition pit_elapsed_ticks :: "io_host \<Rightarrow> int dos_op" where
  "pit_elapsed_ticks H = bindM (getM (\<lambda>c. c)) (\<lambda>c.
     case time_source H of Some ts \<Rightarrow> ret (pit_ticks (ts c))
     | None \<Rightarrow> bindM (lift_exn (fo_of_int (io_floats H) (instruction_count c))) (\<lambda>x.
         lift_exn (f_to_int frac_trunc (fo_mul (io_floats H) x 0x4008000000000000))))"

definition pit_channel0_live_value :: "io_host \<Rightarrow> int dos_op" where
  "pit_channel0_live_value H = bindM (get_dos pit) (\<lambda>p. bindM (pit_elapsed_ticks H) (\<lambda>t.
     let reload = or_default (pit0_reload p) 0x10000; delta = t - pit0_anchor_ticks p in
     ret ((reload - delta mod reload) mod reload)))"

definition notify_speaker :: "io_host \<Rightarrow> unit dos_op" where
  "notify_speaker H = bindM (get_dos pit) (\<lambda>p.
     case speaker_callback p of None \<Rightarrow> ret ()
     | Some calls \<Rightarrow>
         (let reload = or_default (pit2_reload p) 0x10000;
              enabled = (speaker_control p AND 0x03 = 0x03 \<and> reload \<noteq> 0) in
          bindM (if enabled then bindM (lift_exn (fo_of_int (io_floats H) reload)) (\<lambda>r.
                   py_fdiv (io_floats H) 0x413234DE00000000 r) else ret f_zero) (\<lambda>freq.
            upd_pit (\<lambda>p. p\<lparr>speaker_callback := Some (calls @ [(enabled, freq)])\<rparr>))))"

definition set_anchor :: "io_host \<Rightarrow> unit dos_op" where
  "set_anchor H = bindM (pit_elapsed_ticks H) (\<lambda>t. upd_pit (\<lambda>p. p\<lparr>pit0_anchor_ticks := t\<rparr>))"

definition pit_command :: "io_host \<Rightarrow> int \<Rightarrow> nat \<Rightarrow> unit dos_op" where
  "pit_command H value bits =
     (let channel = drop_bit 6 value AND 0x03; access = drop_bit 4 value AND 0x03 in
      if channel = 2 then
        thenM (record_effect (PORT_WRITE 0x43 value bits))
          (upd_pit (\<lambda>p. p\<lparr>pit2_access := access, pit2_write_low := True,
             pit2_latch := (if access = 1 \<or> access = 2 then 0 else pit2_latch p)\<rparr>))
      else if channel = 0 then
        (if access = 0 then
           bindM (pit_channel0_live_value H) (\<lambda>counter.
             upd_pit (\<lambda>p. p\<lparr>pit0_read_latch := [counter AND 0xFF, drop_bit 8 counter AND 0xFF]\<rparr>))
         else
           upd_pit (\<lambda>p. p\<lparr>pit0_access := access, pit0_write_low := True,
             pit0_latch := (if access = 1 \<or> access = 2 then 0 else pit0_latch p)\<rparr>))
      else ret ())"

definition pit_channel0_write :: "io_host \<Rightarrow> int \<Rightarrow> unit dos_op" where
  "pit_channel0_write H value = bindM (get_dos pit) (\<lambda>p.
     if pit0_access p = 1 then
       thenM (upd_pit (\<lambda>p. p\<lparr>pit0_reload := (pit0_reload p AND 0xFF00) OR value\<rparr>)) (set_anchor H)
     else if pit0_access p = 2 then
       thenM (upd_pit (\<lambda>p. p\<lparr>pit0_reload := (pit0_reload p AND 0x00FF) OR push_bit 8 value\<rparr>)) (set_anchor H)
     else if pit0_write_low p then
       upd_pit (\<lambda>p. p\<lparr>pit0_latch := value, pit0_write_low := False\<rparr>)
     else
       thenM (upd_pit (\<lambda>p. p\<lparr>pit0_reload := (push_bit 8 value OR pit0_latch p) AND 0xFFFF,
                            pit0_write_low := True\<rparr>)) (set_anchor H))"

definition pit_channel2_write :: "io_host \<Rightarrow> int \<Rightarrow> nat \<Rightarrow> unit dos_op" where
  "pit_channel2_write H value bits =
     thenM (record_effect (PORT_WRITE 0x42 value bits)) (bindM (get_dos pit) (\<lambda>p.
       if pit2_access p = 1 then
         thenM (upd_pit (\<lambda>p. p\<lparr>pit2_reload := (pit2_reload p AND 0xFF00) OR value\<rparr>)) (notify_speaker H)
       else if pit2_access p = 2 then
         thenM (upd_pit (\<lambda>p. p\<lparr>pit2_reload := (pit2_reload p AND 0x00FF) OR push_bit 8 value\<rparr>)) (notify_speaker H)
       else if pit2_write_low p then
         upd_pit (\<lambda>p. p\<lparr>pit2_latch := value, pit2_write_low := False\<rparr>)
       else
         thenM (upd_pit (\<lambda>p. p\<lparr>pit2_reload := (push_bit 8 value OR pit2_latch p) AND 0xFFFF,
                              pit2_write_low := True\<rparr>)) (notify_speaker H)))"

definition speaker_byte :: "io_host \<Rightarrow> int \<Rightarrow> int \<Rightarrow> nat \<Rightarrow> unit dos_op" where
  "speaker_byte H port value bits =
     (let value = value AND 0xFF in
      if port = 0x43 then pit_command H value bits
      else if port = 0x40 then pit_channel0_write H value
      else if port = 0x42 then pit_channel2_write H value bits
      else if port = 0x61 then
        thenM (record_effect (PORT_WRITE port value bits))
       (thenM (upd_pit (\<lambda>p. p\<lparr>speaker_control := value\<rparr>)) (notify_speaker H))
      else ret ())"

definition track_pc_speaker :: "io_host \<Rightarrow> int \<Rightarrow> int \<Rightarrow> nat \<Rightarrow> unit dos_op" where
  "track_pc_speaker H port value bits =
     (if bits = 16 then
        thenM (speaker_byte H port (value AND 0xFF) 8)
              (speaker_byte H ((port + 1) AND 0xFFFF) (drop_bit 8 value AND 0xFF) 8)
      else speaker_byte H port value bits)"

section \<open>Palette DAC\<close>

definition dac8 :: "int \<Rightarrow> int" where
  "dac8 v6 = (let v = v6 AND 0x3F in push_bit 2 v OR drop_bit 4 v)"

text \<open>The journal is a deque of at most 512 events.\<close>

definition journal :: "journal_event \<Rightarrow> VGA_state \<Rightarrow> VGA_state" where
  "journal ev v = (let l = video_journal v @ [ev] in v\<lparr>video_journal := drop (length l - 512) l\<rparr>)"

definition vj_close_dac :: "VGA_state \<Rightarrow> VGA_state" where
  "vj_close_dac v = (case vj_dac v of None \<Rightarrow> v
     | Some (start, rgbs, t0, t1) \<Rightarrow> (journal (DacGroup start rgbs t0 t1) v)\<lparr>vj_dac := None\<rparr>)"

definition vj_close_st :: "VGA_state \<Rightarrow> VGA_state" where
  "vj_close_st v = (case vj_st v of None \<Rightarrow> v
     | Some (reads, t0, t1) \<Rightarrow> (journal (StatusReads reads t0 t1) v)\<lparr>vj_st := None\<rparr>)"

definition vj_add_dac :: "int \<Rightarrow> rgb \<Rightarrow> int \<Rightarrow> VGA_state \<Rightarrow> VGA_state" where
  "vj_add_dac idx c now v =
     (let v = vj_close_st v; fresh = (vj_close_dac v)\<lparr>vj_dac := Some (idx, [c], now, now)\<rparr> in
      case vj_dac v of None \<Rightarrow> fresh
      | Some (start, rgbs, t0, t1) \<Rightarrow>
          (if (start + int (length rgbs)) AND 0xFF = idx
           then v\<lparr>vj_dac := Some (start, rgbs @ [c], t0, now)\<rparr> else fresh))"

definition load_palette :: "unit dos_op" where
  "load_palette = upd_vga (\<lambda>v. if length (vga_palette v) < 256 then post_init v else v)"

definition set_palette :: "int \<Rightarrow> rgb \<Rightarrow> unit dos_op" where
  "set_palette idx c = bindM (get_dos vga) (\<lambda>v.
     if nat idx < length (vga_palette v) then upd_vga (\<lambda>v. v\<lparr>vga_palette := (vga_palette v)[nat idx := c]\<rparr>)
     else raise PyIndexError)"

definition get_palette :: "int \<Rightarrow> rgb dos_op" where
  "get_palette idx = bindM (get_dos vga) (\<lambda>v.
     if nat idx < length (vga_palette v) then ret (vga_palette v ! nat idx) else raise PyIndexError)"

definition dac_data_write :: "int \<Rightarrow> unit dos_op" where
  "dac_data_write value =
     thenM (upd_vga (\<lambda>v. v\<lparr>dac_latch := dac_latch v @ [dac8 value], dac_component := dac_component v + 1\<rparr>))
     (bindM (getM (\<lambda>c. c)) (\<lambda>c. let v = vga (world c) in
        if dac_component v \<ge> 3 then
          (let l = dac_latch v @ [0, 0, 0]; rgb = (l ! 0, l ! 1, l ! 2); idx = dac_write_index v AND 0xFF in
           thenM load_palette
          (thenM (set_palette idx rgb)
           (upd_vga (\<lambda>v. (vj_add_dac idx rgb (instruction_count c) v)
              \<lparr>dac_write_index := (idx + 1) AND 0xFF, dac_component := 0, dac_latch := []\<rparr>))))
        else ret ()))"

definition dac_byte :: "int \<Rightarrow> int \<Rightarrow> unit dos_op" where
  "dac_byte port value =
     (let value = value AND 0xFF in
      if port = 0x03C8 then
        upd_vga (\<lambda>v. v\<lparr>dac_write_index := value AND 0xFF, dac_component := 0, dac_latch := []\<rparr>)
      else if port = 0x03C7 then
        upd_vga (\<lambda>v. v\<lparr>dac_read_index := value AND 0xFF, dac_component := 0\<rparr>)
      else if port \<noteq> 0x03C9 then ret ()
      else dac_data_write value)"

definition track_vga_dac_ports :: "int \<Rightarrow> int \<Rightarrow> nat \<Rightarrow> unit dos_op" where
  "track_vga_dac_ports port value bits =
     (if bits = 16 then
        thenM (dac_byte port (value AND 0xFF))
              (dac_byte ((port + 1) AND 0xFFFF) (drop_bit 8 value AND 0xFF))
      else if bits \<noteq> 8 then ret ()
      else dac_byte port value)"

section \<open>OPL2\<close>

definition notify_adlib :: "int \<Rightarrow> int \<Rightarrow> unit dos_op" where
  "notify_adlib reg value = upd_opl (\<lambda>o'. o'\<lparr>adlib_callback :=
     map_option (\<lambda>l. l @ [(reg AND 0x1FF, value AND 0xFF)]) (adlib_callback o')\<rparr>)"

definition adlib_byte :: "int \<Rightarrow> int \<Rightarrow> unit dos_op" where
  "adlib_byte port value =
     (let value = value AND 0xFF in
      if port = 0x388 then upd_opl (\<lambda>o'. o'\<lparr>opl_selected_register := value\<rparr>)
      else if port \<noteq> 0x389 then ret ()
      else bindM (get_dos (\<lambda>d. opl_selected_register (opl d) AND 0xFF)) (\<lambda>reg.
        thenM (record_effect (AUDIO_COMMAND 1 reg value))
       (thenM (upd_opl (\<lambda>o'. o'\<lparr>opl_registers := (opl_registers o')(reg \<mapsto> value)\<rparr>))
       (thenM (notify_adlib reg value)
         (if reg = 0x04 then
            upd_opl (\<lambda>o'. if value AND 0x80 \<noteq> 0 then o'\<lparr>opl_status := 0\<rparr>
              else if value AND 0x01 \<noteq> 0 then o'\<lparr>opl_status := 0xC0\<rparr> else o')
          else ret ())))))"

definition track_adlib_ports :: "int \<Rightarrow> int \<Rightarrow> nat \<Rightarrow> unit dos_op" where
  "track_adlib_ports port value bits =
     (if bits = 16 then
        thenM (adlib_byte port (value AND 0xFF))
              (adlib_byte ((port + 1) AND 0xFFFF) (drop_bit 8 value AND 0xFF))
      else if bits \<noteq> 8 then ret ()
      else adlib_byte port value)"

section \<open>EGA registers\<close>

definition apply_gc_register :: "int \<Rightarrow> int \<Rightarrow> memory \<Rightarrow> memory" where
  "apply_gc_register index data m =
     (let index = index AND 0xFF; data = data AND 0xFF in
      if index = 0x00 then m\<lparr>ega_set_reset := data AND 0x0F\<rparr>
      else if index = 0x01 then m\<lparr>ega_enable_set_reset := data AND 0x0F\<rparr>
      else if index = 0x08 then m\<lparr>ega_bit_mask := data AND 0xFF\<rparr>
      else if index = 0x02 then m\<lparr>ega_color_compare := data AND 0x0F\<rparr>
      else if index = 0x03 then m\<lparr>ega_data_rotate := data AND 0x07, ega_logical_op := drop_bit 3 data AND 0x03\<rparr>
      else if index = 0x04 then m\<lparr>ega_read_plane := data AND 0x03\<rparr>
      else if index = 0x05 then m\<lparr>ega_write_mode := data AND 0x03, ega_read_mode := drop_bit 3 data AND 0x01\<rparr>
      else if index = 0x07 then m\<lparr>ega_color_dont_care := data AND 0x0F\<rparr>
      else m)"

definition write_crtc_register :: "int \<Rightarrow> int \<Rightarrow> memory \<Rightarrow> memory" where
  "write_crtc_register index value m =
     (let index = index AND 0xFF; value = value AND 0xFF in
      if index = 0x0C then
        m\<lparr>ega_display_start := (push_bit 8 value OR (ega_display_start m AND 0x00FF)) AND 0xFFFF\<rparr>
      else if index = 0x0D then
        m\<lparr>ega_display_start := ((ega_display_start m AND 0xFF00) OR value) AND 0xFFFF\<rparr>
      else if index = 0x01 then m\<lparr>ega_h_display_end := value\<rparr>
      else m)"

definition enable_planar :: "unit dos_op" where
  "enable_planar = bindM (get_dos (\<lambda>d. video_mode (console d) AND 0x7F)) (\<lambda>md.
     if md \<noteq> 0x13 \<and> md \<noteq> 0x19 then upd_mem (\<lambda>m. m\<lparr>ega_planar := True\<rparr>) else ret ())"

definition attr_write :: "int \<Rightarrow> unit dos_op" where
  "attr_write value = bindM (get_dos vga) (\<lambda>v.
     if \<not> attr_flipflop v then
       thenM (upd_vga (\<lambda>v. v\<lparr>attr_index := value AND 0x1F\<rparr>))
      (thenM (upd_mem (\<lambda>m. m\<lparr>ega_display_enabled := (value AND 0x20 \<noteq> 0)\<rparr>))
             (upd_vga (\<lambda>v. v\<lparr>attr_flipflop := True\<rparr>)))
     else
       thenM (upd_vga (\<lambda>v. v\<lparr>attr_regs := (attr_regs v)(attr_index v \<mapsto> value AND 0xFF)\<rparr>))
      (thenM (if attr_index v = 0x13 then
                upd_mem (\<lambda>m. m\<lparr>ega_pel_pan := value AND 0x0F, ega_pan_display_start := ega_display_start m,
                               ega_pan_pel := value AND 0x0F, ega_pan_active := True\<rparr>)
              else ret ())
             (upd_vga (\<lambda>v. v\<lparr>attr_flipflop := False\<rparr>))))"

definition seq_set :: "int \<Rightarrow> int \<Rightarrow> unit dos_op" where
  "seq_set index data =
     thenM (upd_vga (\<lambda>v. v\<lparr>seq_regs := (seq_regs v)(index AND 0xFF \<mapsto> data AND 0xFF)\<rparr>))
       (if index = 0x02 then upd_mem (\<lambda>m. m\<lparr>ega_map_mask := data AND 0x0F\<rparr>) else ret ())"

definition gc_set :: "int \<Rightarrow> int \<Rightarrow> unit dos_op" where
  "gc_set index data =
     thenM (upd_vga (\<lambda>v. v\<lparr>gc_regs := (gc_regs v)(index AND 0xFF \<mapsto> data AND 0xFF)\<rparr>))
       (upd_mem (apply_gc_register index data))"

definition crtc_set :: "int \<Rightarrow> int \<Rightarrow> unit dos_op" where
  "crtc_set index data =
     thenM (upd_vga (\<lambda>v. v\<lparr>crtc_regs := (crtc_regs v)(index AND 0xFF \<mapsto> data AND 0xFF)\<rparr>))
       (upd_mem (write_crtc_register index data))"

definition track_ega_ports :: "int \<Rightarrow> int \<Rightarrow> nat \<Rightarrow> unit dos_op" where
  "track_ega_ports port value bits =
     (let low = value AND 0xFF; high = drop_bit 8 value AND 0xFF in
      if port = 0x3C2 then upd_vga (\<lambda>v. v\<lparr>misc_output := low\<rparr>)
      else if port = 0x3C0 then attr_write value
      else if port = 0x3C4 then
        thenM enable_planar
       (thenM (upd_vga (\<lambda>v. v\<lparr>seq_index := low\<rparr>)) (if bits = 16 then seq_set low high else ret ()))
      else if port = 0x3C5 then
        thenM enable_planar (bindM (get_dos (\<lambda>d. seq_index (vga d))) (\<lambda>i. seq_set i low))
      else if port = 0x3CE then
        thenM enable_planar
       (thenM (upd_vga (\<lambda>v. v\<lparr>gc_index := low\<rparr>)) (if bits = 16 then gc_set low high else ret ()))
      else if port = 0x3CF then
        thenM enable_planar (bindM (get_dos (\<lambda>d. gc_index (vga d))) (\<lambda>i. gc_set i low))
      else if port = 0x3D4 \<or> port = 0x3B4 then
        thenM (upd_vga (\<lambda>v. v\<lparr>crtc_index := low\<rparr>)) (if bits = 16 then crtc_set low high else ret ())
      else if port = 0x3D5 \<or> port = 0x3B5 then
        bindM (get_dos (\<lambda>d. crtc_index (vga d))) (\<lambda>i. crtc_set i low)
      else ret ())"

section \<open>Writing a port\<close>

definition SPEAKER_PORTS :: "int list" where "SPEAKER_PORTS = [0x40, 0x42, 0x43, 0x61]"
definition DAC_PORTS :: "int list" where "DAC_PORTS = [0x03C7, 0x03C8, 0x03C9]"
definition EGA_PORTS :: "int list" where
  "EGA_PORTS = [0x03B4, 0x03B5, 0x03C0, 0x03C2, 0x03C4, 0x03C5, 0x03CE, 0x03CF, 0x03D4, 0x03D5]"
definition ADLIB_PORTS :: "int list" where "ADLIB_PORTS = [0x388, 0x389]"

section \<open>The Sound Blaster in the machine\<close>

text \<open>What \<open>enable_sound_blaster\<close> wires the card to: the PIC and the program's memory.\<close>

definition card_host :: "io_host \<Rightarrow> dos cpu sb_host" where
  "card_host H = \<lparr>
     raise_irq_line = Some (\<lambda>n. upd_dos (\<lambda>d. d\<lparr>pic := map_option (raise_irq n) (pic d)\<rparr>)),
     read_mem = Some (\<lambda>a. on_mem (byte_at (a AND 0xFFFFF))),
     write_mem = None, sb_clock = sb_time H, sb_floats = io_floats H\<rparr>"

text \<open>A method of the card the machine holds.\<close>

definition on_card :: "(dos cpu, 'a) card_op \<Rightarrow> 'a dos_op" where
  "on_card m = (\<lambda>c. case sound_blaster (world c) of None \<Rightarrow> (Inl PyAttributeError, c)
     | Some s \<Rightarrow> (case m (s, c) of (r, (s', c')) \<Rightarrow>
         (r, c'\<lparr>world := (world c')\<lparr>sound_blaster := Some s'\<rparr>\<rparr>)))"

text \<open>Whether the card, its DMA channel or the PIC took the byte.\<close>

definition route_sound_write :: "io_host \<Rightarrow> sound_blaster_state \<Rightarrow> int \<Rightarrow> int \<Rightarrow> bool dos_op" where
  "route_sound_write H sb port value =
     (let note = record_effect (PORT_WRITE port (value AND 0xFF) 8) in
      if sb_owns_port sb port then
        thenM note (thenM (on_card (sb_write (card_host H) port value)) (ret True))
      else if port \<le> 0x0F then
        thenM note (thenM (on_card (sb_dma_controller_write port value)) (ret True))
      else if 0x80 \<le> port \<and> port \<le> 0x8F then
        thenM note (thenM (on_card (sb_page_write port value)) (ret True))
      else bindM (get_dos pic) (\<lambda>p. case p of None \<Rightarrow> ret False
        | Some _ \<Rightarrow>
            (if port = 0x20 then
               thenM note (thenM (if value = 0x20 then upd_dos (\<lambda>d. d\<lparr>pic := map_option eoi (pic d)\<rparr>)
                                  else ret ()) (ret True))
             else if port = 0x21 then
               thenM note (thenM (upd_dos (\<lambda>d. d\<lparr>pic := map_option (set_mask value) (pic d)\<rparr>)) (ret True))
             else ret False)))"

definition log_write :: "int \<Rightarrow> int \<Rightarrow> nat \<Rightarrow> unit dos_op" where
  "log_write port value bits = upd_dos (\<lambda>d. if length (port_log d) < 4096
     then d\<lparr>port_log := port_log d @ [(port AND 0xFFFF, value AND (push_bit bits 1 - 1), bits)]\<rparr> else d)"

text \<open>One byte to the tracker that owns its port, the EGA tracker first.\<close>

definition route_byte :: "io_host \<Rightarrow> int \<Rightarrow> int \<Rightarrow> unit dos_op" where
  "route_byte H p v =
     (if p \<in> set DAC_PORTS then track_vga_dac_ports p v 8
      else if p \<in> set SPEAKER_PORTS then track_pc_speaker H p v 8
      else if p \<in> set ADLIB_PORTS then track_adlib_ports p v 8
      else ret ())"

text \<open>Every tracker is offered the write.\<close>

definition fan_out :: "io_host \<Rightarrow> int \<Rightarrow> int \<Rightarrow> nat \<Rightarrow> unit dos_op" where
  "fan_out H port value bits =
     thenM (track_pc_speaker H port value bits)
    (thenM (track_vga_dac_ports port value bits)
    (thenM (track_ega_ports port value bits)
           (track_adlib_ports port value bits)))"

definition route_write :: "io_host \<Rightarrow> int \<Rightarrow> int \<Rightarrow> nat \<Rightarrow> unit dos_op" where
  "route_write H port value bits =
     (if bits = 8 then
        (if port \<in> set EGA_PORTS then track_ega_ports port value 8 else route_byte H port value)
      else if bits = 16 then
        thenM (if port \<in> set EGA_PORTS then track_ega_ports port value 16 else ret ())
       (thenM (route_byte H port (value AND 0xFF))
              (route_byte H ((port + 1) AND 0xFFFF) (drop_bit 8 value AND 0xFF)))
      else fan_out H port value bits)"

definition port_write :: "io_host \<Rightarrow> int \<Rightarrow> int \<Rightarrow> nat \<Rightarrow> unit dos_op" where
  "port_write H port value bits =
     thenM (log_write port value bits)
       (let port = port AND 0xFFFF in
        bindM (get_dos sound_blaster) (\<lambda>card. case card of
          Some sb \<Rightarrow>
            (if bits = 8 then bindM (route_sound_write H sb port value) (\<lambda>taken.
               if taken then ret () else route_write H port value bits)
             else route_write H port value bits)
        | None \<Rightarrow> route_write H port value bits))"

section \<open>Reading a port\<close>

definition vga_status :: "io_host \<Rightarrow> int \<Rightarrow> int dos_op" where
  "vga_status H retrace_bit =
     thenM (upd_vga (\<lambda>v. v\<lparr>attr_flipflop := False, vga_status_reads := vga_status_reads v + 1\<rparr>))
     (bindM (getM (\<lambda>c. c)) (\<lambda>c.
        let odd_read = (vga_status_reads (vga (world c)) AND 1 \<noteq> 0);
            display_enable = (if odd_read then 0x01 else 0x00);
            retrace = (case time_source H of None \<Rightarrow> (if odd_read then retrace_bit else 0x00)
              | Some ts \<Rightarrow> (if in_retrace (ts c) then retrace_bit else 0x00));
            now = instruction_count c in
        thenM (upd_vga vj_close_dac)
       (thenM (upd_vga (\<lambda>v. v\<lparr>vj_st := (case vj_st v of None \<Rightarrow> Some (1, now, now)
                 | Some (n, t0, t1) \<Rightarrow> Some (n + 1, t0, now))\<rparr>))
         (ret (retrace OR display_enable)))))"

definition dac_data_read :: "int dos_op" where
  "dac_data_read = thenM load_palette (bindM (get_dos vga) (\<lambda>v.
     let idx = dac_read_index v AND 0xFF; comp = dac_component v mod 3 in
     bindM (get_palette idx) (\<lambda>(r, g, b).
       let value = drop_bit 2 (if comp = 0 then r else if comp = 1 then g else b) AND 0x3F;
           next = (dac_component v + 1) mod 3 in
       thenM (upd_vga (\<lambda>v. v\<lparr>dac_component := next,
                dac_read_index := (if next = 0 then (idx + 1) AND 0xFF else dac_read_index v)\<rparr>))
         (ret value))))"

definition reg_or_0 :: "(int \<Rightarrow> int option) \<Rightarrow> int \<Rightarrow> int" where
  "reg_or_0 rs i = (case rs (i AND 0xFF) of Some v \<Rightarrow> v | None \<Rightarrow> 0)"

definition unmodeled_read :: "int \<Rightarrow> nat \<Rightarrow> int dos_op" where
  "unmodeled_read port bits =
     thenM (upd_dos (\<lambda>d. if length (unmodeled_port_reads d) < 512
        then d\<lparr>unmodeled_port_reads := unmodeled_port_reads d @ [(port AND 0xFFFF, bits)]\<rparr> else d))
     (bindM (get_dos strict_ports) (\<lambda>strict. if strict then raise UnmodeledPortRead else ret 0))"

definition device_read :: "io_host \<Rightarrow> int \<Rightarrow> nat \<Rightarrow> int dos_op" where
  "device_read H port bits =
     (if bits \<noteq> 8 then unmodeled_read port bits
      else if port = 0x03BA then vga_status H 0x80
      else if port = 0x03DA then vga_status H 0x08
      else if port = 0x60 then
        thenM (upd_dos (\<lambda>d. d\<lparr>kbd_output_buffer_full := False\<rparr>)) (get_dos (\<lambda>d. current_scancode d AND 0xFF))
      else if port = 0x64 then get_dos (\<lambda>d. if kbd_output_buffer_full d then 0x01 else 0x00)
      else if port = 0x40 then
        bindM (get_dos (\<lambda>d. pit0_read_latch (pit d))) (\<lambda>l. case l of
          b # bs \<Rightarrow> thenM (upd_pit (\<lambda>p. p\<lparr>pit0_read_latch := bs\<rparr>)) (ret b)
        | [] \<Rightarrow> bindM (pit_channel0_live_value H) (\<lambda>v. ret (v AND 0xFF)))
      else if port = 0x61 then get_dos (\<lambda>d. speaker_control (pit d) AND 0xFF)
      else if port = 0x03C6 then ret 0xFF
      else if port = 0x03C9 then dac_data_read
      else if port = 0x388 \<or> port = 0x389 then get_dos (\<lambda>d. opl_status (opl d) AND 0xFF)
      else if port = 0x03C5 then get_dos (\<lambda>d. reg_or_0 (seq_regs (vga d)) (seq_index (vga d)) AND 0xFF)
      else if port = 0x03CF then get_dos (\<lambda>d. reg_or_0 (gc_regs (vga d)) (gc_index (vga d)) AND 0xFF)
      else if port = 0x03D5 \<or> port = 0x03B5 then
        get_dos (\<lambda>d. reg_or_0 (crtc_regs (vga d)) (crtc_index (vga d)) AND 0xFF)
      else if port = 0x03CC then get_dos (\<lambda>d. misc_output (vga d) AND 0xFF)
      else unmodeled_read port bits)"

definition port_read :: "io_host \<Rightarrow> int \<Rightarrow> nat \<Rightarrow> int dos_op" where
  "port_read H port bits =
     bindM (get_dos sound_blaster) (\<lambda>card. case card of None \<Rightarrow> device_read H port bits
      | Some sb \<Rightarrow>
          (if bits \<noteq> 8 then device_read H port bits
           else if sb_owns_port sb port then on_card (sb_read port)
           else bindM (get_dos pic) (\<lambda>p. case p of
               Some q \<Rightarrow> (if port = 0x21 then ret (get_mask q) else device_read H port bits)
             | None \<Rightarrow> device_read H port bits)))"

section \<open>Routing\<close>

lemma thenM_ret_unit [simp]: "thenM (ret x) k = k" "thenM m (ret ()) = m"
  by (auto simp: thenM_def bindM_def fun_eq_iff split: prod.splits sum.splits)

lemma tracker_other_port:
  "p \<notin> set SPEAKER_PORTS \<Longrightarrow> speaker_byte H p v bits = ret ()"
  "p \<notin> set DAC_PORTS \<Longrightarrow> dac_byte p v = ret ()"
  "p \<notin> set ADLIB_PORTS \<Longrightarrow> adlib_byte p v = ret ()"
  "p \<notin> set EGA_PORTS \<Longrightarrow> track_ega_ports p v bits = ret ()"
  by (simp_all add: speaker_byte_def dac_byte_def adlib_byte_def track_ega_ports_def SPEAKER_PORTS_def
      DAC_PORTS_def ADLIB_PORTS_def EGA_PORTS_def Let_def)

text \<open>No two trackers own the same port, nor two ports one apart.\<close>

definition port_classes :: "int \<Rightarrow> bool \<times> bool \<times> bool \<times> bool" where
  "port_classes p = (p \<in> set SPEAKER_PORTS, p \<in> set DAC_PORTS, p \<in> set ADLIB_PORTS, p \<in> set EGA_PORTS)"

lemma port_class_facts:
  "list_all (\<lambda>p. port_classes p = (True, False, False, False)
     \<and> \<not> fst (snd (port_classes ((p + 1) AND 0xFFFF))) \<and> \<not> fst (snd (snd (port_classes ((p + 1) AND 0xFFFF))))) SPEAKER_PORTS"
  "list_all (\<lambda>p. port_classes p = (False, True, False, False)
     \<and> \<not> fst (port_classes ((p + 1) AND 0xFFFF)) \<and> \<not> fst (snd (snd (port_classes ((p + 1) AND 0xFFFF))))) DAC_PORTS"
  "list_all (\<lambda>p. port_classes p = (False, False, True, False)
     \<and> \<not> fst (port_classes ((p + 1) AND 0xFFFF)) \<and> \<not> fst (snd (port_classes ((p + 1) AND 0xFFFF)))) ADLIB_PORTS"
  "list_all (\<lambda>p. port_classes p = (False, False, False, True) \<and> \<not> fst (port_classes ((p + 1) AND 0xFFFF))
     \<and> \<not> fst (snd (port_classes ((p + 1) AND 0xFFFF))) \<and> \<not> fst (snd (snd (port_classes ((p + 1) AND 0xFFFF))))) EGA_PORTS"
  by code_simp+

lemmas port_class_rules = port_class_facts [unfolded list_all_iff port_classes_def, simplified prod.inject fst_conv snd_conv,
  rule_format]

lemma route_byte_cases:
  "p \<in> set DAC_PORTS \<Longrightarrow> route_byte H p v = dac_byte p v"
  "p \<in> set SPEAKER_PORTS \<Longrightarrow> route_byte H p v = speaker_byte H p v 8"
  "p \<in> set ADLIB_PORTS \<Longrightarrow> route_byte H p v = adlib_byte p v"
  "p \<notin> set DAC_PORTS \<Longrightarrow> p \<notin> set SPEAKER_PORTS \<Longrightarrow> p \<notin> set ADLIB_PORTS \<Longrightarrow> route_byte H p v = ret ()"
  using port_class_rules(1) [of p] port_class_rules(3) [of p]
  by (simp_all add: route_byte_def track_vga_dac_ports_def track_pc_speaker_def track_adlib_ports_def)

lemma fan_out_byte:
  "fan_out H p v 8 = thenM (speaker_byte H p v 8) (thenM (dac_byte p v)
     (thenM (track_ega_ports p v 8) (adlib_byte p v)))"
  by (simp add: fan_out_def track_vga_dac_ports_def track_pc_speaker_def track_adlib_ports_def)

lemma fan_out_word:
  "fan_out H p v 16 =
     thenM (thenM (speaker_byte H p (v AND 0xFF) 8) (speaker_byte H ((p + 1) AND 0xFFFF) (drop_bit 8 v AND 0xFF) 8))
    (thenM (thenM (dac_byte p (v AND 0xFF)) (dac_byte ((p + 1) AND 0xFFFF) (drop_bit 8 v AND 0xFF)))
    (thenM (track_ega_ports p v 16)
           (thenM (adlib_byte p (v AND 0xFF)) (adlib_byte ((p + 1) AND 0xFFFF) (drop_bit 8 v AND 0xFF)))))"
  by (simp add: fan_out_def track_vga_dac_ports_def track_pc_speaker_def track_adlib_ports_def)

lemma route_byte_fan_out:
  "thenM (if p \<in> set EGA_PORTS then track_ega_ports p v 8 else ret ())
     (if p \<in> set EGA_PORTS then ret () else route_byte H p v) = fan_out H p v 8"
proof -
  consider "p \<in> set EGA_PORTS" | "p \<in> set DAC_PORTS" | "p \<in> set SPEAKER_PORTS" | "p \<in> set ADLIB_PORTS"
    | "p \<notin> set EGA_PORTS" "p \<notin> set DAC_PORTS" "p \<notin> set SPEAKER_PORTS" "p \<notin> set ADLIB_PORTS" by blast
  then show ?thesis
  proof cases
    case 1
    then show ?thesis using port_class_rules(4) [OF 1] by (simp add: fan_out_byte tracker_other_port)
  next
    case 2
    then show ?thesis using port_class_rules(2) [OF 2] by (simp add: fan_out_byte tracker_other_port route_byte_cases)
  next
    case 3
    then show ?thesis using port_class_rules(1) [OF 3] by (simp add: fan_out_byte tracker_other_port route_byte_cases)
  next
    case 4
    then show ?thesis using port_class_rules(3) [OF 4] by (simp add: fan_out_byte tracker_other_port route_byte_cases)
  next
    case 5
    then show ?thesis by (simp add: fan_out_byte tracker_other_port route_byte_cases)
  qed
qed

lemma route_word_fan_out: "route_write H p v 16 = fan_out H p v 16"
proof -
  let ?q = "(p + 1) AND 0xFFFF"
  note F = route_write_def fan_out_word tracker_other_port route_byte_cases
  consider "p \<in> set EGA_PORTS" | "p \<in> set DAC_PORTS" | "p \<in> set SPEAKER_PORTS" | "p \<in> set ADLIB_PORTS"
    | "p \<notin> set EGA_PORTS" "p \<notin> set DAC_PORTS" "p \<notin> set SPEAKER_PORTS" "p \<notin> set ADLIB_PORTS" by blast
  then show ?thesis
  proof cases
    case 1
    then show ?thesis using port_class_rules(4) [OF 1] by (simp add: F)
  next
    case 2
    then show ?thesis using port_class_rules(2) [OF 2] by (cases "?q \<in> set DAC_PORTS") (simp_all add: F)
  next
    case 3
    then show ?thesis using port_class_rules(1) [OF 3] by (cases "?q \<in> set SPEAKER_PORTS") (simp_all add: F)
  next
    case 4
    then show ?thesis using port_class_rules(3) [OF 4] by (cases "?q \<in> set ADLIB_PORTS") (simp_all add: F)
  next
    case 5
    consider "?q \<in> set DAC_PORTS" | "?q \<in> set SPEAKER_PORTS" | "?q \<in> set ADLIB_PORTS"
      | "?q \<notin> set DAC_PORTS" "?q \<notin> set SPEAKER_PORTS" "?q \<notin> set ADLIB_PORTS" by blast
    then show ?thesis
    proof cases
      case 1
      then show ?thesis using port_class_rules(2) [OF 1] 5 by (simp add: F)
    next
      case 2
      then show ?thesis using port_class_rules(1) [OF 2] 5 by (simp add: F)
    next
      case 3
      then show ?thesis using port_class_rules(3) [OF 3] 5 by (simp add: F)
    next
      case 4
      then show ?thesis using 5 by (simp add: F)
    qed
  qed
qed

text \<open>
  C25: routing a port write to the one device that owns its port has the effect of offering it to
  all four, for every port, value and machine state and for byte and word writes: the ports are
  disjoint, and no word spans two devices.
\<close>

theorem routing_is_fan_out:
  assumes "bits = 8 \<or> bits = 16"
  shows "route_write H port value bits = fan_out H port value bits"
  using assms route_byte_fan_out [of port "value" H] route_word_fan_out
  by (auto simp: route_write_def)

text \<open>A word write to the graphics controller's index and data ports.\<close>

theorem routing_is_fan_out_witness:
  "\<forall>H. route_write H 0x3CE 0x0F08 16 = fan_out H 0x3CE 0x0F08 16
    \<and> route_write H 0x61 3 8 = fan_out H 0x61 3 8"
  using routing_is_fan_out [of 16 _ "0x3CE" "0x0F08"] routing_is_fan_out [of 8 _ "0x61" 3] by simp

section \<open>Index and data ports\<close>

lemma bytes_of_word:
  assumes "u8 i" "u8 d"
  shows "(push_bit 8 d OR i) AND 0xFF = i" "drop_bit 8 (push_bit 8 d OR i) AND 0xFF = d"
proof -
  have "push_bit 8 d OR i = d * 256 + i"
    using assms or_push_bit [of i 8 d] by (simp add: u8_def push_bit_eq_mult or.commute)
  then show "(push_bit 8 d OR i) AND 0xFF = i" "drop_bit 8 (push_bit 8 d OR i) AND 0xFF = d"
    using assms by (simp_all add: u8_def mask_simps)
qed

lemma mem_world_order: "(c :: 'w cpu)\<lparr>mem := m, world := w\<rparr> = c\<lparr>world := w, mem := m\<rparr>"
  by simp

lemma enable_planar_state:
  "enable_planar c = (Inr (), if video_mode (console (world c)) AND 0x7F \<in> {0x13, 0x19} then c
     else c\<lparr>mem := (mem c)\<lparr>ega_planar := True\<rparr>\<rparr>)"
  by (simp add: enable_planar_def get_dos_def upd_mem_def)

text \<open>
  programming a VGA register by an index byte and a data byte, or by one word that holds both,
  is the same operation, for the sequencer, the graphics controller and both CRTC ports.
\<close>

theorem index_data_pair_is_word:
  assumes "port \<in> {0x3C4, 0x3CE, 0x3D4, 0x3B4}" "u8 i" "u8 d"
  shows "thenM (track_ega_ports port i 8) (track_ega_ports (port + 1) d 8) c
    = track_ega_ports port (push_bit 8 d OR i) 16 c"
proof -
  obtain w where w: "w = push_bit 8 d OR i" by blast
  note B = bytes_of_word [OF assms(2,3), folded w] u8_id [OF assms(2)] u8_id [OF assms(3)]
  have "thenM (track_ega_ports port i 8) (track_ega_ports (port + 1) d 8) c = track_ega_ports port w 16 c"
  proof -
    consider "port = 0x3C4" | "port = 0x3CE" | "port = 0x3D4" | "port = 0x3B4" using assms(1) by blast
    then show ?thesis
      by cases (simp_all add: track_ega_ports_def Let_def B thenM_def bindM_def enable_planar_state
        upd_vga_def upd_dos_def get_dos_def mem_world_order)
  qed
  then show ?thesis by (simp add: w)
qed

theorem index_data_pair_is_word_witness:
  "ega_map_mask (mem (snd (thenM (track_ega_ports 0x3C4 2 8) (track_ega_ports 0x3C5 0x0F 8)
      (CPU8086 (memory_new MEM_SIZE None) DOSMachine)))) = 0x0F"
proof -
  have "thenM (track_ega_ports 0x3C4 2 8) (track_ega_ports (0x3C4 + 1) 0x0F 8) c
      = track_ega_ports 0x3C4 (push_bit 8 0x0F OR 2) 16 c" for c
    by (rule index_data_pair_is_word) (simp_all add: u8_def)
  then show ?thesis
    by (simp add: track_ega_ports_def thenM_def bindM_def enable_planar_state upd_vga_def upd_dos_def
        seq_set_def upd_mem_def Let_def)
qed

section \<open>The palette through the DAC ports\<close>

lemma dac8_back: "drop_bit 2 (dac8 v) AND 0x3F = v AND 0x3F"
proof -
  have "list_all (\<lambda>v. drop_bit 2 (dac8 v) AND 0x3F = v) [0..63]" by code_simp
  then have "\<forall>v \<in> set [0..63]. drop_bit 2 (dac8 v) AND 0x3F = v" by (simp only: list_all_iff)
  moreover have "v AND 0x3F \<in> set [0..63]"
    using and_mask_mod [of v 6] unfolding set_upto atLeastAtMost_iff by simp
  moreover have "dac8 (v AND 0x3F) = dac8 v" by (simp add: dac8_def)
  ultimately show ?thesis by metis
qed

lemma journal_simps [simp]:
  "vga_palette (journal ev v) = vga_palette v" "vga_palette (vj_close_dac v) = vga_palette v"
  "vga_palette (vj_close_st v) = vga_palette v"
  by (simp_all add: journal_def vj_close_dac_def vj_close_st_def Let_def split: option.splits)

lemma vj_add_dac_simps [simp]:
  "vga_palette (vj_add_dac idx rgb now v) = vga_palette v"
  by (simp add: vj_add_dac_def Let_def split: option.splits prod.splits)

lemma port_write_device:
  assumes "sound_blaster (world c) = None"
  shows "\<exists>log. port_write H p v bits c = route_write H (p AND 0xFFFF) v bits (c\<lparr>world := (world c)\<lparr>port_log := log\<rparr>\<rparr>)"
  using assms by (cases "length (port_log (world c)) < 4096")
    (auto simp: port_write_def log_write_def upd_dos_def get_dos_def Let_def thenM_def bindM_def
      intro: exI [of _ "port_log (world c)"])

lemma port_write_dac:
  assumes "sound_blaster (world c) = None" "p \<in> {0x3C7, 0x3C8, 0x3C9}"
  shows "\<exists>log. port_write H p v 8 c = dac_byte p v (c\<lparr>world := (world c)\<lparr>port_log := log\<rparr>\<rparr>)"
proof -
  have "p AND 0xFFFF = p" "p \<in> set DAC_PORTS" "p \<notin> set EGA_PORTS"
    using assms(2) by (auto simp: DAC_PORTS_def EGA_PORTS_def)
  then show ?thesis
    using port_write_device [OF assms(1), of H p v 8] by (simp add: route_write_def route_byte_cases)
qed

text \<open>The DAC between the bytes of a write: palette, index, bytes received.\<close>

definition dac_at :: "dos cpu \<Rightarrow> rgb list \<Rightarrow> int \<Rightarrow> int list \<Rightarrow> bool" where
  "dac_at c pal idx latch \<longleftrightarrow> (let v = vga (world c) in vga_palette v = pal \<and> dac_write_index v = idx
     \<and> dac_latch v = latch \<and> dac_component v = int (length latch))
     \<and> sound_blaster (world c) = None"

lemma dac_select_write:
  assumes "sound_blaster (world c) = None" "vga_palette (vga (world c)) = pal"
  shows "\<exists>c'. port_write H 0x3C8 i 8 c = (Inr (), c') \<and> dac_at c' pal (i AND 0xFF) []"
  using port_write_dac [OF assms(1), of "0x3C8" H i] assms
  by (auto simp: dac_byte_def upd_vga_def upd_dos_def dac_at_def Let_def and.assoc)

lemma dac_component_write:
  assumes "dac_at c pal idx latch" "length latch < 2"
  shows "\<exists>c'. port_write H 0x3C9 v 8 c = (Inr (), c') \<and> dac_at c' pal idx (latch @ [dac8 v])"
proof -
  have "dac8 (v AND 0xFF) = dac8 v" by (simp add: dac8_def and.assoc)
  then show ?thesis
    using port_write_dac [of c "0x3C9" H v] assms
    by (auto simp: dac_byte_def dac_data_write_def upd_vga_def upd_dos_def dac_at_def Let_def thenM_def bindM_def)
qed

lemma dac_last_write:
  assumes "dac_at c pal idx [r, g]" "length pal = 256" "0 \<le> idx" "idx < 256"
  shows "\<exists>c'. port_write H 0x3C9 v 8 c = (Inr (), c')
    \<and> dac_at c' (pal[nat idx := (r, g, dac8 v)]) ((idx + 1) AND 0xFF) []"
proof -
  have "dac8 (v AND 0xFF) = dac8 v" by (simp add: dac8_def and.assoc)
  moreover have "idx AND 0xFF = idx" using assms(3,4) by (simp add: mask_simps)
  ultimately show ?thesis
    using port_write_dac [of c "0x3C9" H v] assms
    by (auto simp: dac_byte_def dac_data_write_def upd_vga_def upd_dos_def get_dos_def dac_at_def Let_def
        thenM_def bindM_def load_palette_def set_palette_def)
qed

lemma dac_read_component:
  assumes "sound_blaster (world c) = None" "vga_palette (vga (world c)) = pal" "length pal = 256"
    "dac_read_index (vga (world c)) = idx" "0 \<le> idx" "idx < 256" "dac_component (vga (world c)) = k"
    "0 \<le> k" "k < 3" "pal ! nat idx = (r, g, b)"
  shows "\<exists>c'. port_read H 0x3C9 8 c = (Inr (drop_bit 2 (if k = 0 then r else if k = 1 then g else b) AND 0x3F), c')
    \<and> vga_palette (vga (world c')) = pal \<and> sound_blaster (world c') = None
    \<and> dac_read_index (vga (world c')) = (if k = 2 then (idx + 1) AND 0xFF else idx)
    \<and> dac_component (vga (world c')) = (k + 1) mod 3"
proof -
  have "idx AND 0xFF = idx" "k mod 3 = k" "((k + 1) mod 3 = 0) = (k = 2)"
    using assms(5,6,8,9) by (simp_all add: mask_simps) presburger
  then show ?thesis
    using assms by (simp add: port_read_def device_read_def dac_data_read_def load_palette_def get_palette_def
        upd_vga_def upd_dos_def get_dos_def Let_def bindM_def thenM_def)
qed

text \<open>
  C31: a colour written to a palette entry through ports 3C8h and 3C9h is read back, in its six bits
  per component, through 3C7h and 3C9h, and no other entry changes.
\<close>

theorem palette_roundtrip:
  assumes "sound_blaster (world c) = None" "length (vga_palette (vga (world c))) = 256"
  shows "\<exists>c1 c2 c3 c4.
      seqM [port_write H 0x3C8 i 8, port_write H 0x3C9 r 8, port_write H 0x3C9 g 8, port_write H 0x3C9 b 8,
            port_write H 0x3C7 i 8] c = (Inr (), c1)
    \<and> port_read H 0x3C9 8 c1 = (Inr (r AND 0x3F), c2)
    \<and> port_read H 0x3C9 8 c2 = (Inr (g AND 0x3F), c3)
    \<and> port_read H 0x3C9 8 c3 = (Inr (b AND 0x3F), c4)
    \<and> vga_palette (vga (world c4)) = (vga_palette (vga (world c)))[nat (i AND 0xFF) := (dac8 r, dac8 g, dac8 b)]"
proof -
  let ?i = "i AND 0xFF" and ?pal = "vga_palette (vga (world c))"
  let ?new = "?pal[nat ?i := (dac8 r, dac8 g, dac8 b)]"
  have i: "0 \<le> ?i" "?i < 256" by (simp_all add: mask_simps)
  obtain a0 where a0: "port_write H 0x3C8 i 8 c = (Inr (), a0)" "dac_at a0 ?pal ?i []"
    using dac_select_write [OF assms(1) refl] by blast
  obtain a1 where a1: "port_write H 0x3C9 r 8 a0 = (Inr (), a1)" "dac_at a1 ?pal ?i [dac8 r]"
    using dac_component_write [OF a0(2)] by auto
  obtain a2 where a2: "port_write H 0x3C9 g 8 a1 = (Inr (), a2)" "dac_at a2 ?pal ?i [dac8 r, dac8 g]"
    using dac_component_write [OF a1(2)] by auto
  obtain a3 where a3: "port_write H 0x3C9 b 8 a2 = (Inr (), a3)" "dac_at a3 ?new ((?i + 1) AND 0xFF) []"
    using dac_last_write [OF a2(2) assms(2) i] by blast
  obtain c1 where c1: "port_write H 0x3C7 i 8 a3 = (Inr (), c1)" "vga_palette (vga (world c1)) = ?new"
      "dac_read_index (vga (world c1)) = ?i" "dac_component (vga (world c1)) = 0"
      "sound_blaster (world c1) = None"
    using port_write_dac [of a3 "0x3C7" H i] a3(2)
    by (auto simp: dac_byte_def upd_vga_def upd_dos_def dac_at_def Let_def and.assoc)
  have n: "length ?new = 256" "?new ! nat ?i = (dac8 r, dac8 g, dac8 b)"
    using assms(2) i by (simp_all add: nat_less_iff)
  obtain c2 where c2: "port_read H 0x3C9 8 c1 = (Inr (r AND 0x3F), c2)" "vga_palette (vga (world c2)) = ?new"
      "dac_read_index (vga (world c2)) = ?i" "dac_component (vga (world c2)) = 1"
      "sound_blaster (world c2) = None"
    using dac_read_component [OF c1(5) c1(2) n(1) c1(3) i c1(4) _ _ n(2)] by (auto simp: dac8_back)
  obtain c3 where c3: "port_read H 0x3C9 8 c2 = (Inr (g AND 0x3F), c3)" "vga_palette (vga (world c3)) = ?new"
      "dac_read_index (vga (world c3)) = ?i" "dac_component (vga (world c3)) = 2"
      "sound_blaster (world c3) = None"
    using dac_read_component [OF c2(5) c2(2) n(1) c2(3) i c2(4) _ _ n(2)] by (auto simp: dac8_back)
  obtain c4 where c4: "port_read H 0x3C9 8 c3 = (Inr (b AND 0x3F), c4)" "vga_palette (vga (world c4)) = ?new"
    using dac_read_component [OF c3(5) c3(2) n(1) c3(3) i c3(4) _ _ n(2)] by (auto simp: dac8_back)
  show ?thesis
    using a0(1) a1(1) a2(1) a3(1) c1(1) c2(1) c3(1) c4
    by (intro exI [of _ c1] exI [of _ c2] exI [of _ c3] exI [of _ c4]) simp
qed

definition plain_io :: io_host where
  "plain_io = \<lparr>time_source = Some (\<lambda>c. \<lparr>pit_ticks = 10 * instruction_count c, in_retrace = False\<rparr>), sb_time = None, io_floats = no_floats\<rparr>"

definition io_cpu :: "dos cpu" where
  "io_cpu = (CPU8086 (memory_new MEM_SIZE None) DOSMachine)\<lparr>instruction_count := 100\<rparr>"

lemma io_cpu_palette: "length (vga_palette (vga (world io_cpu))) = 256"
proof -
  have "length default_palette = 256" by (simp add: default_palette_def)
  then show ?thesis by (simp add: io_cpu_def CPU8086_def DOSMachine_def vga_new_def post_init_def)
qed

theorem palette_roundtrip_witness:
  "\<exists>c1 c2. seqM [port_write plain_io 0x3C8 7 8, port_write plain_io 0x3C9 63 8, port_write plain_io 0x3C9 0 8,
      port_write plain_io 0x3C9 0x55 8, port_write plain_io 0x3C7 7 8] io_cpu = (Inr (), c1)
    \<and> port_read plain_io 0x3C9 8 c1 = (Inr 63, c2)"
  using palette_roundtrip [of io_cpu plain_io 7 63 0 "0x55"] io_cpu_palette
  by (auto simp: io_cpu_def CPU8086_def DOSMachine_def)

section \<open>The timer's latch\<close>

lemma low_high_bytes:
  assumes "0 \<le> (v :: int)" "v < 0x10000"
  shows "(v AND 0xFF) + 256 * (drop_bit 8 v AND 0xFF) = v"
proof -
  have "0 \<le> v div 256" "v div 256 < 256" using assms by simp_all
  then have "v div 256 mod 256 = v div 256" by (rule mod_pos_pos_trivial)
  then show ?thesis by (simp add: mask_simps)
qed

lemma down_counter_range:
  assumes "0 < (r :: int)" "r \<le> 0x10000"
  shows "0 \<le> (r - d) mod r \<and> (r - d) mod r < 0x10000"
  using pos_mod_bound [OF assms(1), of "r - d"] pos_mod_sign [OF assms(1), of "r - d"] assms by linarith

lemma live_value_range:
  assumes "fst (pit_channel0_live_value H c) = Inr v" "u16 (pit0_reload (pit (world c)))"
  shows "0 \<le> v \<and> v < 0x10000"
proof -
  define r where "r = or_default (pit0_reload (pit (world c))) 0x10000"
  have R: "0 < r" "r \<le> 0x10000" using assms(2) by (auto simp: r_def or_default_def u16_def)
  obtain t where "v = (r - (t - pit0_anchor_ticks (pit (world c))) mod r) mod r"
    using assms(1) unfolding pit_channel0_live_value_def get_dos_def Let_def bindM_def r_def
    by (cases "pit_elapsed_ticks H c"; cases "fst (pit_elapsed_ticks H c)") (auto simp: getM_def ret_def)
  then show ?thesis using down_counter_range [OF R] by simp
qed

lemma live_value_state:
  "snd (pit_channel0_live_value H c) = c"
  by (simp add: pit_channel0_live_value_def pit_elapsed_ticks_def get_dos_def Let_def bindM_def lift_exn_def
      split: option.splits sum.splits prod.splits)

text \<open>
  a latch command freezes the running down-counter of the timer: the next two reads of port 40h
  give the low and the high byte of its value at the command, whatever the program executes between.
\<close>

theorem pit_latch_freezes:
  assumes "sound_blaster (world c) = None" "u16 (pit0_reload (pit (world c)))"
    "port_write H 0x43 0x00 8 c = (Inr (), c1)"
  shows "\<exists>v log. fst (pit_channel0_live_value H (c\<lparr>world := (world c)\<lparr>port_log := log\<rparr>\<rparr>)) = Inr v
    \<and> 0 \<le> v \<and> v < 0x10000
    \<and> (\<forall>d. pit (world d) = pit (world c1) \<and> sound_blaster (world d) = None \<longrightarrow> (\<exists>lo hi d1 d2. port_read H 0x40 8 d = (Inr lo, d1)
        \<and> (\<forall>e. pit (world e) = pit (world d1) \<and> sound_blaster (world e) = None \<longrightarrow> port_read H 0x40 8 e = (Inr hi, d2 e))
        \<and> lo + 256 * hi = v))"
proof -
  obtain log where w: "port_write H 0x43 0 8 c = speaker_byte H 0x43 0 8 (c\<lparr>world := (world c)\<lparr>port_log := log\<rparr>\<rparr>)"
    using port_write_device [OF assms(1), of H "0x43" 0 8]
    by (auto simp: route_write_def route_byte_cases SPEAKER_PORTS_def EGA_PORTS_def)
  let ?c = "c\<lparr>world := (world c)\<lparr>port_log := log\<rparr>\<rparr>"
  have s: "speaker_byte H 0x43 0 8 ?c = bindM (pit_channel0_live_value H) (\<lambda>counter.
      upd_pit (\<lambda>p. p\<lparr>pit0_read_latch := [counter AND 0xFF, drop_bit 8 counter AND 0xFF]\<rparr>)) ?c"
    by (simp add: speaker_byte_def pit_command_def Let_def)
  obtain r where r: "pit_channel0_live_value H ?c = (r, ?c)"
    using live_value_state [of H ?c] by (metis prod.collapse)
  obtain v where v: "pit_channel0_live_value H ?c = (Inr v, ?c)"
      "pit0_read_latch (pit (world c1)) = [v AND 0xFF, drop_bit 8 v AND 0xFF]"
  proof (cases r)
    case (Inl e)
    then show thesis using assms(3) r unfolding w s by (simp add: bindM_def)
  next
    case (Inr v)
    then have "c1 = snd (upd_pit (\<lambda>p. p\<lparr>pit0_read_latch := [v AND 0xFF, drop_bit 8 v AND 0xFF]\<rparr>) ?c)"
      using assms(3) r unfolding w s by (simp add: bindM_def)
    then show thesis using that [of v] r Inr by (simp add: upd_pit_def upd_dos_def)
  qed
  have r: "0 \<le> v \<and> v < 0x10000" using live_value_range [of H ?c v] v(1) assms(2) by simp
  have h: "(v AND 0xFF) + 256 * (drop_bit 8 v AND 0xFF) = v" using low_high_bytes r by blast
  have one: "port_read H 0x40 8 d = (Inr b, d\<lparr>world := (world d)\<lparr>pit := (pit (world d))\<lparr>pit0_read_latch := bs\<rparr>\<rparr>\<rparr>)"
    if "pit0_read_latch (pit (world d)) = b # bs" "sound_blaster (world d) = None" for d :: "dos cpu" and b bs
    using that by (simp add: port_read_def device_read_def get_dos_def upd_pit_def upd_dos_def)
  show ?thesis
  proof (rule exI [of _ v], rule exI [of _ log], intro conjI allI impI)
    fix d :: "dos cpu"
    assume d: "pit (world d) = pit (world c1) \<and> sound_blaster (world d) = None"
    let ?d1 = "d\<lparr>world := (world d)\<lparr>pit := (pit (world d))\<lparr>pit0_read_latch := [drop_bit 8 v AND 0xFF]\<rparr>\<rparr>\<rparr>"
    have "port_read H 0x40 8 d = (Inr (v AND 0xFF), ?d1)" using one [of d] v(2) d by simp
    moreover have "\<exists>d2. \<forall>e. pit (world e) = pit (world ?d1) \<and> sound_blaster (world e) = None \<longrightarrow> port_read H 0x40 8 e = (Inr (drop_bit 8 v AND 0xFF), d2 e)"
      using one by (intro exI [of _ "\<lambda>e. e\<lparr>world := (world e)\<lparr>pit := (pit (world e))\<lparr>pit0_read_latch := []\<rparr>\<rparr>\<rparr>"]) simp
    ultimately show "\<exists>lo hi d1 d2. port_read H 0x40 8 d = (Inr lo, d1)
        \<and> (\<forall>e. pit (world e) = pit (world d1) \<and> sound_blaster (world e) = None \<longrightarrow> port_read H 0x40 8 e = (Inr hi, d2 e)) \<and> lo + 256 * hi = v"
      using h by blast
  qed (use v r in simp_all)
qed

theorem pit_latch_freezes_witness:
  "\<exists>c1 lo d1. port_write plain_io 0x43 0x00 8 io_cpu = (Inr (), c1) \<and> port_read plain_io 0x40 8 c1 = (Inr lo, d1)"
proof -
  have u: "u16 (pit0_reload (pit (world io_cpu)))"
    by (simp add: io_cpu_def CPU8086_def DOSMachine_def pit_new_def u16_def)
  obtain c1 where w: "port_write plain_io 0x43 0x00 8 io_cpu = (Inr (), c1)"
    by (simp add: port_write_def plain_io_def route_write_def route_byte_def track_pc_speaker_def speaker_byte_def
        pit_command_def pit_channel0_live_value_def pit_elapsed_ticks_def get_dos_def upd_pit_def upd_dos_def
        log_write_def SPEAKER_PORTS_def DAC_PORTS_def EGA_PORTS_def thenM_def bindM_def Let_def
        io_cpu_def CPU8086_def DOSMachine_def)
  have n: "sound_blaster (world io_cpu) = None" by (simp add: io_cpu_def CPU8086_def DOSMachine_def)
  have "sound_blaster (world c1) = None" using w n
    by (auto simp: port_write_def plain_io_def route_write_def route_byte_def track_pc_speaker_def speaker_byte_def
        pit_command_def pit_channel0_live_value_def pit_elapsed_ticks_def get_dos_def upd_pit_def upd_dos_def
        log_write_def SPEAKER_PORTS_def DAC_PORTS_def EGA_PORTS_def thenM_def bindM_def Let_def
        split: if_splits prod.splits sum.splits)
  with pit_latch_freezes [OF n u w] obtain lo d1 where "port_read plain_io 0x40 8 c1 = (Inr lo, d1)" by blast
  then show ?thesis using w by blast
qed

end
