(* ===== verification/Dos_Video.thy ===== *)
theory Dos_Video
  imports Dos_Text Dos_Ports
begin

text \<open>
  The video BIOS, INT 10h of \<open>dos_re/dos.py\<close>: setting a mode, the cursor, text output and clearing,
  the equipment queries, and the palette calls.
\<close>

section \<open>Setting a mode\<close>

definition reset_display :: "memory \<Rightarrow> memory" where
  "reset_display m = m\<lparr>ega_display_start := 0, ega_pel_pan := 0, ega_pan_active := False, ega_pan_pel := 0,
     ega_h_display_end := 39, ega_display_enabled := True\<rparr>"

definition set_video_mode :: "int \<Rightarrow> unit dos_op" where
  "set_video_mode al =
     (let effective_mode = al AND 0x7F; textual = effective_mode \<in> {0, 1, 2, 3, 7} in
      thenM (upd_console (\<lambda>t. t\<lparr>video_mode := al, video_page := 0, text_mode_active := textual\<rparr>))
     (thenM (if effective_mode = 0x13 \<or> effective_mode = 0x19
             then upd_mem (\<lambda>m. m\<lparr>ega_planar := False\<rparr>) else ret ())
     (thenM (upd_mem reset_display)
     (thenM (upd_vga (\<lambda>v. v\<lparr>attr_flipflop := False\<rparr>))
     (thenM (on_mem (ww 0x0040 0x0063 (if effective_mode = 7 then 0x03B4 else 0x03D4)))
     (thenM (upd_console (\<lambda>t. t\<lparr>cursor_row := 0, cursor_col := 0\<rparr>))
       (if textual then
          (if al AND 0x80 = 0 then clear_text_window 0x07 0 0 24 79 else ret ())
        else clear_graphics_vram_for_mode al)))))))"

section \<open>Queries\<close>

text \<open>AH=1Bh: the 64 bytes of the state table.\<close>

definition functionality_table :: "text_console \<Rightarrow> int list" where
  "functionality_table t = (replicate 64 0)[0 := 0x1B, 1 := 0x00, 2 := video_mode t AND 0x7F, 3 := 80,
     4 := 25, 5 := video_page t AND 0xFF, 0x22 := 0x08, 0x23 := 0x03]"

definition video_state_info :: "unit dos_op" where
  "video_state_info = bindM (get_dos console) (\<lambda>t. bindM (get_regs (\<lambda>r. (es r, di r))) (\<lambda>(seg, off).
     thenM (seqM (map (\<lambda>i. on_mem (wb seg ((off + int i) AND 0xFFFF) (functionality_table t ! i))) [0..<64]))
       (upd_regs (\<lambda>r. r\<lparr>ax := (ax r AND 0xFF00) OR 0x1B\<rparr>))))"

section \<open>Palette\<close>

text \<open>AL=12h: \<open>n\<close> entries from \<open>i\<close> on, from the bytes at ES:addr.\<close>

primrec set_dac_block :: "nat \<Rightarrow> int \<Rightarrow> int \<Rightarrow> int \<Rightarrow> unit dos_op" where
  "set_dac_block 0 seg addr i = ret ()"
| "set_dac_block (Suc n) seg addr i =
     bindM (on_mem (rb seg addr)) (\<lambda>r.
     bindM (on_mem (rb seg ((addr + 1) AND 0xFFFF))) (\<lambda>g.
     bindM (on_mem (rb seg ((addr + 2) AND 0xFFFF))) (\<lambda>b.
     thenM (set_palette (i AND 0xFF) (dac8 r, dac8 g, dac8 b))
       (set_dac_block n seg ((addr + 3) AND 0xFFFF) (i + 1)))))"

text \<open>AL=17h.\<close>

primrec read_dac_block :: "nat \<Rightarrow> int \<Rightarrow> int \<Rightarrow> int \<Rightarrow> unit dos_op" where
  "read_dac_block 0 seg addr i = ret ()"
| "read_dac_block (Suc n) seg addr i =
     bindM (get_palette (i AND 0xFF)) (\<lambda>(r, g, b).
     thenM (on_mem (wb seg addr (drop_bit 2 r AND 0x3F)))
    (thenM (on_mem (wb seg ((addr + 1) AND 0xFFFF) (drop_bit 2 g AND 0x3F)))
    (thenM (on_mem (wb seg ((addr + 2) AND 0xFFFF) (drop_bit 2 b AND 0x3F)))
       (read_dac_block n seg ((addr + 3) AND 0xFFFF) (i + 1)))))"

definition palette_control :: "int \<Rightarrow> unit dos_op" where
  "palette_control al = thenM load_palette (bindM (get_regs (\<lambda>r. r)) (\<lambda>r.
     if al = 0x12 then set_dac_block (nat (cx r AND 0xFFFF)) (es r) (dx r AND 0xFFFF) (bx r AND 0xFF)
     else if al = 0x10 then
       set_palette (bx r AND 0xFF) (dac8 (drop_bit 8 (dx r)), dac8 (drop_bit 8 (cx r)), dac8 (cx r))
     else if al = 0x17 then read_dac_block (nat (cx r AND 0xFFFF)) (es r) (dx r AND 0xFFFF) (bx r AND 0xFF)
     else ret ()))"

section \<open>INT 10h\<close>

definition int10 :: "unit dos_op" where
  "int10 = bindM get_ah (\<lambda>ah. bindM get_al (\<lambda>al. bindM (get_regs (\<lambda>r. r)) (\<lambda>r.
     let bh = drop_bit 8 (bx r) AND 0xFF in
     if ah = 0x00 then set_video_mode al
     else if ah = 0x02 then
       upd_console (\<lambda>t. t\<lparr>video_page := bh, cursor_row := drop_bit 8 (dx r) AND 0xFF,
                         cursor_col := dx r AND 0xFF\<rparr>)
     else if ah = 0x03 then bindM (get_dos console) (\<lambda>t.
       upd_regs (\<lambda>r. r\<lparr>cx := 0x0607, dx := push_bit 8 (cursor_row t AND 0xFF) OR (cursor_col t AND 0xFF)\<rparr>))
     else if ah = 0x05 then upd_console (\<lambda>t. t\<lparr>video_page := al\<rparr>)
     else if ah = 0x06 \<or> ah = 0x07 then
       (if al = 0 then clear_text_window bh (drop_bit 8 (cx r) AND 0xFF) (cx r AND 0xFF)
                         (drop_bit 8 (dx r) AND 0xFF) (dx r AND 0xFF)
        else ret ())
     else if ah = 0x0F then bindM (get_dos console) (\<lambda>t.
       upd_regs (\<lambda>r. r\<lparr>ax := push_bit 8 80 OR video_mode t, bx := (bx r AND 0xFF00) OR (video_page t AND 0xFF)\<rparr>))
     else if ah = 0x12 \<and> bx r AND 0xFF = 0x10 then upd_regs (\<lambda>r. r\<lparr>bx := 0x0003, cx := 0x0009\<rparr>)
     else if ah = 0x1A \<and> al = 0x00 then upd_regs (\<lambda>r. r\<lparr>ax := (ax r AND 0xFF00) OR 0x1A, bx := 0x0008\<rparr>)
     else if ah = 0x1B \<and> al = 0x00 then video_state_info
     else if ah = 0x0E then
       thenM (write_text_char al (or_default bh 0x07))
         (if al \<noteq> 0x07 then upd_console (\<lambda>t. t\<lparr>stdout := stdout t @ [[al]]\<rparr>) else ret ())
     else if ah = 0x09 \<or> ah = 0x0A then
       write_text_repeat al (if ah = 0x09 then Some bh else None)
         (nat (or_default (cx r AND 0xFFFF) 0x10000))
     else if ah = 0x11 then ret ()
     else if ah = 0x10 then palette_control al
     else if ah = 0x01 \<or> ah = 0x0B \<or> ah = 0x12 then ret ()
     else raise UnsupportedInstruction)))"

section \<open>Clearing the screen\<close>

text \<open>The cells \<open>K\<close> of the active page blank, in the colours \<open>attr\<close>.\<close>

definition blank_cells :: "text_console \<Rightarrow> int set \<Rightarrow> int \<Rightarrow> (int \<Rightarrow> 8 word) \<Rightarrow> (int \<Rightarrow> 8 word)" where
  "blank_cells t K attr d = (\<lambda>a. if (a - screen_at t) div 2 \<in> K
     then (if (a - screen_at t) mod 2 = 0 then 0x20 else word_of_int attr) else d a)"

lemma blank_cells_empty [simp]: "blank_cells t {} attr d = d"
  by (simp add: blank_cells_def)

lemma blank_cells_insert:
  "blank_cells t K attr (d(screen_at t + 2 * k := 0x20, screen_at t + (2 * k + 1) := word_of_int attr))
    = blank_cells t (insert k K) attr d"
proof (rule ext)
  fix a
  consider "a = screen_at t + 2 * k" | "a = screen_at t + (2 * k + 1)"
    | "a \<noteq> screen_at t + 2 * k" "a \<noteq> screen_at t + (2 * k + 1)" "(a - screen_at t) div 2 \<noteq> k"
    by linarith
  then show "blank_cells t K attr (d(screen_at t + 2 * k := 0x20, screen_at t + (2 * k + 1) := word_of_int attr)) a
      = blank_cells t (insert k K) attr d a"
    by cases (simp_all add: blank_cells_def)
qed

lemma clear_cell_effect:
  assumes "real_mode (mem c)" "0 \<le> k" "k < 2000"
  shows "clear_cell (text_base_segment t) (text_page_offset t + 2 * k) attr c
    = (Inr (), c\<lparr>mem := (mem c)\<lparr>mdata := (mdata (mem c))(screen_at t + 2 * k := 0x20,
        screen_at t + (2 * k + 1) := word_of_int attr)\<rparr>\<rparr>)"
  using wb_screen [of _ "2 * k"] wb_screen [of _ "2 * k + 1"] assms
  by (simp add: clear_cell_def on_mem_def thenM_def bindM_def add.assoc)

lemma clear_cells:
  assumes "real_mode (mem c)" "\<forall>k \<in> set ks. 0 \<le> k \<and> k < 2000"
  shows "seqM (map (\<lambda>k. clear_cell (text_base_segment t) (text_page_offset t + 2 * k) attr) ks) c
    = (Inr (), c\<lparr>mem := (mem c)\<lparr>mdata := blank_cells t (set ks) attr (mdata (mem c))\<rparr>\<rparr>)"
  using assms
proof (induction ks arbitrary: c)
  case (Cons k ks)
  show ?case
    using Cons.prems Cons.IH clear_cell_effect [OF Cons.prems(1), of k t attr]
    by (simp add: blank_cells_insert del: fun_upd_apply)
qed simp

lemma seqM_concat: "seqM (map (\<lambda>x. seqM (f x)) xs) = seqM (concat (map f xs))"
  by (induction xs) (simp_all add: seqM_append)

text \<open>The cells of a window.\<close>

definition window_cells :: "int \<Rightarrow> int \<Rightarrow> int \<Rightarrow> int \<Rightarrow> int set" where
  "window_cells tp left bottom right =
     {k. tp \<le> k div 80 \<and> k div 80 \<le> bottom \<and> left \<le> k mod 80 \<and> k mod 80 \<le> right}"

lemma window_list:
  assumes "0 \<le> left" "right < 80"
  shows "set (concat (map (\<lambda>row. map (\<lambda>col. row * 80 + col) [left..right]) [tp..bottom]))
    = window_cells tp left bottom right"
proof (rule set_eqI)
  fix k
  have "(\<exists>row \<in> {tp..bottom}. \<exists>col \<in> {left..right}. k = row * 80 + col) \<longleftrightarrow> k \<in> window_cells tp left bottom right"
  proof
    assume "\<exists>row \<in> {tp..bottom}. \<exists>col \<in> {left..right}. k = row * 80 + col"
    then show "k \<in> window_cells tp left bottom right"
      using assms by (auto simp: window_cells_def)
  next
    assume "k \<in> window_cells tp left bottom right"
    then show "\<exists>row \<in> {tp..bottom}. \<exists>col \<in> {left..right}. k = row * 80 + col"
      by (intro bexI [of _ "k div 80"] bexI [of _ "k mod 80"]) (auto simp: window_cells_def)
  qed
  then show "k \<in> set (concat (map (\<lambda>row. map (\<lambda>col. row * 80 + col) [left..right]) [tp..bottom]))
      \<longleftrightarrow> k \<in> window_cells tp left bottom right"
    unfolding set_concat set_map image_image set_upto by blast
qed

lemma clear_window_effect:
  assumes "real_mode (mem c)" "t = console (world c)" "0 \<le> tp" "bottom \<le> 24" "0 \<le> left" "right \<le> 79"
    "tp \<le> 24" "0 \<le> bottom" "left \<le> 79" "0 \<le> right"
  shows "clear_text_window attr tp left bottom right c
    = (Inr (), c\<lparr>mem := (mem c)\<lparr>mdata := blank_cells t (window_cells tp left bottom right) attr (mdata (mem c))\<rparr>\<rparr>)"
proof -
  let ?ks = "concat (map (\<lambda>row. map (\<lambda>col. row * 80 + col) [left..right]) [tp..bottom])"
  have m: "max 0 (min 24 (tp AND 0xFF)) = tp" "max 0 (min 24 (bottom AND 0xFF)) = bottom"
    "max 0 (min 79 (left AND 0xFF)) = left" "max 0 (min 79 (right AND 0xFF)) = right"
    using assms by (simp_all add: mask_simps)
  have ks: "set ?ks = window_cells tp left bottom right" using window_list assms by simp
  have k: "\<forall>k \<in> window_cells tp left bottom right. 0 \<le> k \<and> k < 2000"
    using assms by (auto simp: window_cells_def)
  show ?thesis
  proof (cases "bottom < tp \<or> right < left")
    case True
    then have "window_cells tp left bottom right = {}" by (auto simp: window_cells_def)
    then show ?thesis unfolding clear_text_window_def Let_def m using True by simp
  next
    case False
    have "clear_text_window attr tp left bottom right c
        = seqM (map (\<lambda>row. seqM (map (\<lambda>col. clear_cell (text_base_segment t)
            (text_page_offset t + 2 * (row * 80 + col)) attr) [left..right])) [tp..bottom]) c"
      unfolding clear_text_window_def Let_def m using False assms(2)
      by (simp add: get_dos_def algebra_simps)
    also have "\<dots> = seqM (map (\<lambda>k. clear_cell (text_base_segment t) (text_page_offset t + 2 * k) attr) ?ks) c"
      by (simp add: seqM_concat map_concat comp_def)
    finally show ?thesis using clear_cells [OF assms(1), of ?ks t attr] k unfolding ks by simp
  qed
qed

lemma int10_mode:
  assumes "ax (regs c) = md" "0 \<le> md" "md < 256"
  shows "int10 c = set_video_mode md c"
  using assms by (simp add: int10_def get_ah_def get_al_def get_regs_def mask_simps)

text \<open>The machine a text mode set leaves, but for the screen, from the memory \<open>m\<close> after the CRTC port.\<close>

definition text_mode_state :: "int \<Rightarrow> memory \<Rightarrow> dos cpu \<Rightarrow> dos cpu" where
  "text_mode_state al m c = c\<lparr>mem := m, world := (world c)
     \<lparr>vga := (vga (world c))\<lparr>attr_flipflop := False\<rparr>,
      console := (console (world c))\<lparr>video_mode := al, video_page := 0, text_mode_active := True,
        cursor_row := 0, cursor_col := 0\<rparr>\<rparr>\<rparr>"

lemma text_mode_set:
  assumes "al AND 0x7F \<in> {0, 1, 2, 3, 7}"
    "ww 0x0040 0x0063 (if al AND 0x7F = 7 then 0x03B4 else 0x03D4) (reset_display (mem c)) = (Inr (), m)"
  shows "set_video_mode al c = (if al AND 0x80 = 0 then clear_text_window 0x07 0 0 24 79 else ret ())
    (text_mode_state al m c)"
proof -
  have T: "(al AND 0x7F \<in> {0, 1, 2, 3, 7}) = True" "(al AND 0x7F = 0x13 \<or> al AND 0x7F = 0x19) = False"
    using assms(1) by auto
  show ?thesis
    unfolding set_video_mode_def Let_def T if_True if_False
    using assms(2) by (simp add: upd_console_def upd_dos_def upd_mem_def upd_vga_def on_mem_def text_mode_state_def)
qed

lemma text_mode_fails:
  assumes "al AND 0x7F \<in> {0, 1, 2, 3, 7}"
    "fst (ww 0x0040 0x0063 (if al AND 0x7F = 7 then 0x03B4 else 0x03D4) (reset_display (mem c))) = Inl e"
  shows "fst (set_video_mode al c) = Inl e"
proof -
  have T: "(al AND 0x7F \<in> {0, 1, 2, 3, 7}) = True" "(al AND 0x7F = 0x13 \<or> al AND 0x7F = 0x19) = False"
    using assms(1) by auto
  obtain m where "ww 0x0040 0x0063 (if al AND 0x7F = 7 then 0x03B4 else 0x03D4) (reset_display (mem c)) = (Inl e, m)"
    using assms(2) by (metis prod.collapse)
  then show ?thesis
    unfolding set_video_mode_def Let_def T if_True if_False
    by (simp add: upd_console_def upd_dos_def upd_mem_def upd_vga_def on_mem_def)
qed

lemma crtc_port_stored:
  assumes "real_mode m" "\<not> ega_planar m"
  shows "ww 0x0040 0x0063 v (reset_display m) = (Inr (), (reset_display m)\<lparr>mdata := (mdata m)
    (0x463 := word_of_int v, 0x464 := word_of_int (drop_bit 8 v))\<rparr>)"
proof -
  have r: "real_mode (reset_display m)" "\<not> in_aperture (reset_display m) 0x463"
    using assms by (simp_all add: reset_display_def real_mode_def in_aperture_def)
  show ?thesis
    using ww_plain [OF r(1), of "0x40" "0x63" v] r(2)
    by (simp add: linear_eq ram_byte_def mem_consts reset_display_def)
qed

text \<open>
  setting a text mode blanks exactly the 80 x 25 cells of its first page, in light grey, homes
  the cursor, shows video memory from its start and reports the colour or mono CRTC port at
  0040:0063; unless bit 7 of the mode asks to leave the screen as it is.
\<close>

theorem mode_set_blanks_screen:
  assumes "real_mode (mem c)" "\<not> ega_planar (mem c)" "md \<in> {0, 1, 2, 3, 7}" "ax (regs c) = md"
  shows "\<exists>c'. int10 c = (Inr (), c')
    \<and> (\<forall>k. 0 \<le> k \<and> k < 2000 \<longrightarrow> mdata (mem c') (screen_at (console (world c')) + 2 * k) = 0x20
          \<and> mdata (mem c') (screen_at (console (world c')) + 2 * k + 1) = 7)
    \<and> (\<forall>a. a \<noteq> 0x463 \<and> a \<noteq> 0x464 \<and> (a < screen_at (console (world c')) \<or> screen_at (console (world c')) + 4000 \<le> a)
          \<longrightarrow> mdata (mem c') a = mdata (mem c) a)
    \<and> screen_at (console (world c')) = (if md = 7 then 0xB0000 else 0xB8000)
    \<and> mdata (mem c') 0x463 = (if md = 7 then 0xB4 else 0xD4) \<and> mdata (mem c') 0x464 = 3
    \<and> cursor_at (console (world c')) 0 \<and> text_mode_active (console (world c'))
    \<and> ega_display_start (mem c') = 0"
proof -
  define v :: int where "v = (if md = 7 then 0x03B4 else 0x03D4)"
  define m where "m = (reset_display (mem c))\<lparr>mdata := (mdata (mem c))(0x463 := word_of_int v, 0x464 := word_of_int (drop_bit 8 v))\<rparr>"
  let ?c = "text_mode_state md m c"
  let ?t = "console (world ?c)"
  have md: "md AND 0x7F = md" "md AND 0x80 = 0" "0 \<le> md" "md < 256" using assms(3) by auto
  have i: "int10 c = clear_text_window 0x07 0 0 24 79 ?c"
    using int10_mode [OF assms(4) md(3,4)] text_mode_set [of md c m] crtc_port_stored [OF assms(1,2), of v] assms(3) md(1,2)
    by (simp add: m_def v_def del: insert_iff)
  have m1: "real_mode (mem ?c)"
    using assms(1) by (simp add: text_mode_state_def m_def real_mode_def reset_display_def)
  have all: "window_cells 0 0 24 79 = {0..<2000}" by (auto simp: window_cells_def)
  define d where "d = blank_cells ?t {0..<2000} 7 (mdata m)"
  have eq: "int10 c = (Inr (), ?c\<lparr>mem := m\<lparr>mdata := d\<rparr>\<rparr>)"
    using clear_window_effect [OF m1 refl, of 0 24 0 79 7] unfolding i all d_def by (simp add: text_mode_state_def)
  have s: "screen_at ?t = (if md = 7 then 0xB0000 else 0xB8000)" "cursor_at ?t 0" "text_mode_active ?t"
    "ega_display_start m = 0"
    by (simp_all add: text_mode_state_def screen_at_def text_base_segment_def text_page_offset_def cursor_at_def
        m_def reset_display_def)
  have in_cell: "d (screen_at ?t + 2 * k) = 0x20 \<and> d (screen_at ?t + 2 * k + 1) = 7" if "0 \<le> k" "k < 2000" for k
    using that by (simp add: d_def blank_cells_def add.assoc)
  have out: "d a = mdata m a" if "a < screen_at ?t \<or> screen_at ?t + 4000 \<le> a" for a
  proof -
    have "(a - screen_at ?t) div 2 < 0 \<or> 2000 \<le> (a - screen_at ?t) div 2" using that by linarith
    then show ?thesis by (auto simp: d_def blank_cells_def)
  qed
  have port: "d 0x463 = (if md = 7 then 0xB4 else 0xD4)" "d 0x464 = 3"
    using out [of "0x463"] out [of "0x464"] s(1) by (simp_all add: m_def v_def)
  have other: "d a = mdata (mem c) a"
    if "a \<noteq> 0x463 \<and> a \<noteq> 0x464 \<and> (a < screen_at ?t \<or> screen_at ?t + 4000 \<le> a)" for a
    using out [of a] that by (simp add: m_def)
  show ?thesis
    using eq in_cell other s port by (intro exI [of _ "?c\<lparr>mem := m\<lparr>mdata := d\<rparr>\<rparr>"]) simp
qed

theorem mode_set_blanks_screen_witness:
  "\<exists>c'. int10 (text_cpu\<lparr>regs := (regs text_cpu)\<lparr>ax := 7\<rparr>\<rparr>) = (Inr (), c') \<and> mdata (mem c') 0xB0F9E = 0x20"
proof -
  have "\<not> ega_planar (mem text_cpu)" by (simp add: text_cpu_def CPU8086_def memory_new_def)
  then obtain c' where c: "int10 (text_cpu\<lparr>regs := (regs text_cpu)\<lparr>ax := 7\<rparr>\<rparr>) = (Inr (), c')"
      "\<forall>k. 0 \<le> k \<and> k < 2000 \<longrightarrow> mdata (mem c') (screen_at (console (world c')) + 2 * k) = 0x20"
      "screen_at (console (world c')) = 0xB0000"
    using mode_set_blanks_screen [of "text_cpu\<lparr>regs := (regs text_cpu)\<lparr>ax := 7\<rparr>\<rparr>" 7] text_cpu_console by auto
  show ?thesis using c(1,3) c(2) [rule_format, of 1999] by simp
qed

text \<open>
  text printed after a mode set that keeps the screen (bit 7 of the mode) never reaches it: the
  stored mode keeps the bit, and console output compares it with the plain mode numbers.
\<close>

theorem kept_screen_stays_dark:
  assumes "md \<in> {0, 1, 2, 3, 7}" "ax (regs c) = md + 0x80"
    "int10 c = (Inr (), c1)" "console (world c2) = console (world c1)"
  shows "text_mode_active (console (world c2)) \<and> (\<exists>c3. console_output str c2 = (Inr (), c3) \<and> mem c3 = mem c2)"
proof -
  have md: "(md + 0x80) AND 0x7F = md" "(md + 0x80) AND 0x80 \<noteq> 0" "0 \<le> md + 0x80" "md + 0x80 < 256"
    using assms(1) by auto
  let ?w = "ww 0x0040 0x0063 (if (md + 0x80) AND 0x7F = 7 then 0x03B4 else 0x03D4) (reset_display (mem c))"
  have i: "set_video_mode (md + 0x80) c = (Inr (), c1)"
    using assms(3) int10_mode [OF assms(2) md(3,4)] by simp
  obtain m where "?w = (Inr (), m)"
    using text_mode_fails [of "md + 0x80" c] i assms(1) md(1)
    by (cases ?w; cases "fst ?w") (auto simp del: insert_iff)
  then have "c1 = text_mode_state (md + 0x80) m c"
    using text_mode_set [of "md + 0x80" c m] i assms(1) md(1,2) by (simp del: insert_iff)
  then show ?thesis
    using assms(1,4) by (auto simp: text_mode_state_def console_output_def record_effect_def upd_console_def
        upd_dos_def get_dos_def)
qed

theorem kept_screen_stays_dark_witness:
  "\<exists>c1 c3. int10 (text_cpu\<lparr>regs := (regs text_cpu)\<lparr>ax := 0x83\<rparr>\<rparr>) = (Inr (), c1)
    \<and> console_output [0x48] c1 = (Inr (), c3) \<and> mem c3 = mem c1"
proof -
  let ?c = "text_cpu\<lparr>regs := (regs text_cpu)\<lparr>ax := 0x83\<rparr>\<rparr>"
  have "\<not> ega_planar (mem text_cpu)" by (simp add: text_cpu_def CPU8086_def memory_new_def)
  then obtain c1 where c1: "int10 ?c = (Inr (), c1)"
    using int10_mode [of ?c "0x83"] text_mode_set [of "0x83" ?c]
      crtc_port_stored [OF text_cpu_console(2), of "0x3D4"] by auto
  then show ?thesis using kept_screen_stays_dark [of 3 ?c c1 c1 "[0x48]"] by auto
qed

end
