(* ===== verification/Dos_Int21.thy ===== *)
theory Dos_Int21
  imports Dos_Files Dos_Memory Dos_Video Interrupts Mz
begin

text \<open>
  INT 21h and the software interrupts of \<open>dos_re/dos.py\<close>: the dispatch on AH, the console, vector and
  equipment calls, the other services of the machine and the program's own handlers; and the wiring of
  \<open>dos_re/runtime.py\<close>, the CPU whose callbacks these are.
\<close>

section \<open>Console input\<close>

definition console_input :: "int \<Rightarrow> unit dos_op" where
  "console_input ah = bindM (get_dos (\<lambda>d. d)) (\<lambda>d.
     bindM (case pending_console_scancode d of
        Some sc \<Rightarrow> thenM (upd_dos (\<lambda>d. d\<lparr>pending_console_scancode := None\<rparr>)) (ret (sc AND 0xFF))
      | None \<Rightarrow>
          (case key_queue d of
             key # keys \<Rightarrow>
               (let ch = key AND 0xFF in
                thenM (upd_dos (\<lambda>d. d\<lparr>key_queue := keys\<rparr>))
               (thenM (if ch = 0 \<and> drop_bit 8 key \<noteq> 0
                       then upd_dos (\<lambda>d. d\<lparr>pending_console_scancode := Some (drop_bit 8 key AND 0xFF)\<rparr>)
                       else ret ()) (ret ch)))
           | [] \<Rightarrow>
               (case console_input_fallback d of
                  Some v \<Rightarrow> ret (v AND 0xFF)
                | None \<Rightarrow> thenM (upd_regs (\<lambda>r. r\<lparr>ip := (ip r - 2) AND 0xFFFF\<rparr>)) (raise ConsoleInputWouldBlock))))
       (\<lambda>ch. thenM (upd_regs (\<lambda>r. r\<lparr>ax := (ax r AND 0xFF00) OR ch\<rparr>))
         (if ah = 0x01 then console_output [ch] else ret ())))"

section \<open>Other calls\<close>

definition halt :: "('w, unit) cpu_op" where
  "halt = thenM (putM (\<lambda>c. c\<lparr>halted := True\<rparr>)) (raise HaltExecution)"

definition get_vector :: "int \<Rightarrow> ('w, unit) cpu_op" where
  "get_vector vec =
     thenM (bindM (on_mem (rw 0 (vec * 4))) (\<lambda>v. upd_regs (\<lambda>r. r\<lparr>bx := v\<rparr>)))
           (bindM (on_mem (rw 0 (vec * 4 + 2))) (\<lambda>v. upd_regs (\<lambda>r. r\<lparr>es := v\<rparr>)))"

definition set_vector :: "int \<Rightarrow> ('w, unit) cpu_op" where
  "set_vector vec = bindM (get_regs (\<lambda>r. r)) (\<lambda>r.
     thenM (on_mem (ww 0 (vec * 4) (dx r))) (on_mem (ww 0 (vec * 4 + 2) (ds r))))"

definition drive_info :: "('w, unit) cpu_op" where
  "drive_info =
     thenM (on_mem (wb 0x0050 0x0000 0xF8))
    (thenM (upd_regs (\<lambda>r. r\<lparr>ax := (ax r AND 0xFF00) OR 0x04, cx := 512, dx := 0x8000, ds := 0x0050, bx := 0x0000\<rparr>))
           (set_flag CF False))"

section \<open>INT 21h\<close>

definition int21 :: "file_host \<Rightarrow> unit dos_op" where
  "int21 H = bindM get_ah (\<lambda>ah. bindM get_al (\<lambda>al. bindM (get_regs (\<lambda>r. r)) (\<lambda>r.
     if ah = 0x00 \<or> ah = 0x4C then halt
     else if ah = 0x09 then
       bindM (read_dollar_string (ds r) (dx r)) (\<lambda>str.
         thenM (console_output str) (upd_regs (\<lambda>r. r\<lparr>ax := (ax r AND 0xFF00) OR 0x24\<rparr>)))
     else if ah = 0x02 then console_output [dx r AND 0xFF]
     else if ah = 0x01 \<or> ah = 0x07 \<or> ah = 0x08 then console_input ah
     else if ah = 0x0B then
       bindM (get_dos (\<lambda>d. pending_console_scancode d \<noteq> None \<or> key_queue d \<noteq> [])) (\<lambda>ready.
         upd_regs (\<lambda>r. r\<lparr>ax := (ax r AND 0xFF00) OR (if ready then 0xFF else 0x00)\<rparr>))
     else if ah = 0x30 then
       thenM (upd_regs (\<lambda>r. r\<lparr>ax := 0x0005, bx := 0x0000, cx := 0x0000\<rparr>)) succeed
     else if ah = 0x35 then get_vector al
     else if ah = 0x25 then set_vector al
     else if ah = 0x19 then upd_regs (\<lambda>r. r\<lparr>ax := (ax r AND 0xFF00) OR 2\<rparr>)
     else if ah = 0x1A then ret ()
     else if ah = 0x1B then drive_info
     else if ah = 0x43 then int21_attributes H
     else if ah = 0x3C then int21_create H
     else if ah = 0x3D then int21_open H
     else if ah = 0x3E then int21_close H
     else if ah = 0x3F then int21_read
     else if ah = 0x40 then int21_write
     else if ah = 0x44 \<and> al = 0x00 then int21_device_info
     else if ah = 0x58 then
       (if al = 0x00 then thenM (set_ax 0) succeed else if al = 0x01 then succeed else fail 1)
     else if ah = 0x47 then thenM (on_mem (wb (ds r) (si r) 0)) succeed
     else if ah = 0x42 then int21_lseek
     else if ah = 0x48 then int21_allocate
     else if ah = 0x49 then int21_free
     else if ah = 0x4A then int21_resize
     else raise UnsupportedInstruction)))"

section \<open>Software interrupts\<close>

text \<open>\<open>_observable_interrupt_arguments\<close>.\<close>

definition observable_interrupt_arguments :: "CPUState \<Rightarrow> int \<Rightarrow> observable_effect" where
  "observable_interrupt_arguments r num =
     (let number = num AND 0xFF; a = ax r AND 0xFFFF; b = bx r AND 0xFFFF; ah = drop_bit 8 a AND 0xFF in
      if number = 0x21 \<and> ah = 0x48 then SOFTWARE_INTERRUPT number a b 0
      else if number = 0x21 \<and> ah = 0x49 then SOFTWARE_INTERRUPT number a (es r AND 0xFFFF) 0
      else if number = 0x21 \<and> ah = 0x4A then SOFTWARE_INTERRUPT number a (push_bit 16 (es r AND 0xFFFF) OR b) 0
      else SOFTWARE_INTERRUPT number a (push_bit 16 b OR (cx r AND 0xFFFF))
             (push_bit 16 (dx r AND 0xFFFF) OR (si r AND 0xFFFF)))"

definition interrupt :: "file_host \<Rightarrow> clock \<Rightarrow> int \<Rightarrow> unit dos_op" where
  "interrupt H now num =
     thenM (bindM (get_regs (\<lambda>r. observable_interrupt_arguments r num)) record_effect)
     (if num = 0x20 then halt
      else if num = 0x21 then int21 H
      else if num = 0x10 then int10
      else if num = 0x11 then set_ax 0x0020
      else if num = 0x12 then set_ax 640
      else if num = 0x15 then int15
      else if num = 0x16 then int16
      else if num = 0x1A then int1a now
      else if num = 0x2F then int2f
      else if num = 0x33 then int33
      else if num = 0x67 then int67
      else bindM (read_vector num) (\<lambda>(seg, off).
        if seg \<noteq> 0 \<or> off \<noteq> 0 then enter_handler seg off else raise UnsupportedInstruction))"

section \<open>The runtime\<close>

text \<open>The callbacks \<open>create_runtime\<close> installs; \<open>host\<close> is what the machine asks of the outside.\<close>

record host =
  file_system :: file_host
  wall :: clock
  io :: io_host

definition wire_runtime :: "host \<Rightarrow> dos env \<Rightarrow> dos env" where
  "wire_runtime h E = install_bios_environment_hooks
     (E\<lparr>interrupt_handler := Some (interrupt (file_system h) (wall h)), port_reader := Some (port_read (io h)),
        port_writer := Some (port_write (io h))\<rparr>)"

definition create_runtime :: "bytes \<Rightarrow> bytes \<Rightarrow> exn + dos cpu" where
  "create_runtime file command_tail =
     (case load_mz_program file DEFAULT_LOAD_SEGMENT command_tail of Inl e \<Rightarrow> Inl e
      | Inr prog \<Rightarrow>
          (let st = CPUState_init\<lparr>sp := initial_sp prog, cs := entry_cs prog, ip := entry_ip prog,
                      ds := psp_segment prog, es := psp_segment prog, ss := initial_ss prog\<rparr> in
           case seed_initial_memory_block (psp_segment prog) 0xA000 DOSMachine of
             Inl e \<Rightarrow> Inl e
           | Inr d \<Rightarrow>
               (case init_bios_environment (memory prog) of
                  (Inl e, _) \<Rightarrow> Inl e
                | (Inr _, m) \<Rightarrow> Inr ((CPU8086 m d)\<lparr>regs := st\<rparr>))))"

section \<open>The CPU and its services\<close>

lemma wired_fields:
  "pending_irq (wire_runtime h (env_new fo)) = None"
  "interrupt_handler (wire_runtime h (env_new fo)) = Some (interrupt (file_system h) (wall h))"
  "key \<noteq> BIOS_INT9_ENTRY \<Longrightarrow> key \<noteq> BIOS_IRET_ENTRY \<Longrightarrow> replacement_hooks (wire_runtime h (env_new fo)) key = None"
  by (simp_all add: wire_runtime_def install_bios_environment_hooks_def env_new_def)

definition at_bios_entry :: "'w cpu \<Rightarrow> bool" where
  "at_bios_entry c \<longleftrightarrow> (cs (regs c) AND 0xFFFF, ip (regs c) AND 0xFFFF) \<in> {BIOS_INT9_ENTRY, BIOS_IRET_ENTRY}"

lemma code_at_skip:
  fixes c :: "'w cpu"
  shows "code_at (skip_ip k c) j = code_at c (k + j)"
proof -
  have "linear (cs (regs c)) (((ip (regs c) + int k) AND 0xFFFF) + int j) = linear (cs (regs c)) (ip (regs c) + int (k + j))"
    by (simp add: linear_eq mask_simps mod_add_left_eq add.assoc)
  then show ?thesis by (simp add: code_at_def skip_ip_def)
qed

text \<open>
  C3: an INT instruction that the CPU of a runtime executes is the service of the DOS machine, run with
  IP behind the instruction: it raises what the service raises, in the state the service leaves, or
  goes on with that state and one more instruction counted.
\<close>

theorem int_instruction_runs_service:
  assumes "plain_code c" "\<not> halted c" "\<not> interp_forbidden c" "\<not> at_bios_entry c" "code_at c 0 = 0xCD"
    "interrupt (file_system h) (wall h) (code_at c 1) (skip_ip 2 c) = (r, d)"
  shows "case r of
      Inl e \<Rightarrow> step (wire_runtime h (env_new fo)) c = Some (Inl e, d)
    | Inr _ \<Rightarrow> \<exists>d'. step (wire_runtime h (env_new fo)) c = Some (Inr (), d')
        \<and> regs d' = regs d \<and> mem d' = mem d \<and> world d' = world d \<and> halted d' = halted d
        \<and> instruction_count d' = instruction_count d + 1"
proof -
  let ?E = "wire_runtime h (env_new fo)"
  let ?key = "(cs (regs c) AND 0xFFFF, ip (regs c) AND 0xFFFF)"
  have k: "?key \<noteq> BIOS_INT9_ENTRY" "?key \<noteq> BIOS_IRET_ENTRY" using assms(4) by (auto simp: at_bios_entry_def)
  have p: "\<not> is_prefix (code_at c 0)" by (simp add: assms(5) is_prefix_def is_seg_prefix_def is_rep_prefix_def)
  have "prefix_loop (None, None) c = Some (Inr (0xCD, None, None), skip_ip 1 c)"
    using prefix_loop_result [of c 0 "(None, None)"] assms(1,5) p by simp
  then have s: "step ?E c = Some (finish_instruction ?E ?key 0xCD None None (skip_ip 1 c))"
    using assms(2,3) wired_fields(3) [OF k, of h fo] wired_fields(1) [of h fo]
    by (simp add: step_def deliver_irq_def interpret_one_def check_frontier_def Let_def)
  have "plain_code (skip_ip 1 c)" using assms(1) by (simp add: plain_code_def skip_ip_def)
  then have f: "fetch8 (skip_ip 1 c) = (Inr (code_at c 1), skip_ip 2 c)"
    using fetch8_plain [of "skip_ip 1 c"] by (simp add: code_at_skip skip_skip numeral_2_eq_2)
  have "execute_opcode ?E 0xCD None None (skip_ip 1 c) = (r, d)"
    using f assms(6) by (simp add: execute_opcode_def op_int_def wired_fields(2))
  then show ?thesis
    unfolding s finish_instruction_def
    by (cases r) (simp_all add: count_instruction_def record_event_def)
qed

text \<open>
  a program that ends itself, with INT 20h or with INT 21h and AH=00h or 4Ch, stops the run: the step
  raises \<open>HaltExecution\<close> on a halted machine with registers and memory as the program left them.
\<close>

theorem program_exit_stops_run:
  assumes "plain_code c" "\<not> halted c" "\<not> interp_forbidden c" "\<not> at_bios_entry c" "code_at c 0 = 0xCD"
    "code_at c 1 = 0x20 \<or> code_at c 1 = 0x21 \<and> drop_bit 8 (ax (regs c)) AND 0xFF \<in> {0x00, 0x4C}"
  shows "\<exists>d. run (wire_runtime h (env_new fo)) (Suc n) c = Some (Inl HaltExecution, d)
    \<and> halted d \<and> mem d = mem c \<and> regs d = regs (skip_ip 2 c)"
proof -
  define ev where "ev = observable_interrupt_arguments (regs (skip_ip 2 c)) (code_at c 1)"
  define c1 where "c1 = (skip_ip 2 c)\<lparr>world := (world c)\<lparr>observable_effect_sink :=
    map_option (\<lambda>l. l @ [ev]) (observable_effect_sink (world c))\<rparr>\<rparr>"
  let ?d = "c1\<lparr>halted := True\<rparr>"
  have e: "bindM (get_regs (\<lambda>r. observable_interrupt_arguments r (code_at c 1))) record_effect (skip_ip 2 c) = (Inr (), c1)"
    by (simp add: get_regs_def record_effect_def upd_dos_def c1_def ev_def) (simp add: skip_ip_def)
  have h: "halt c1 = (Inl HaltExecution, ?d)" by (simp add: halt_def)
  have a: "ax (regs c1) = ax (regs c)" by (simp add: c1_def skip_ip_def)
  have i: "int21 H c1 = halt c1" if "drop_bit 8 (ax (regs c)) AND 0xFF \<in> {0x00, 0x4C}" for H
    using that a by (simp add: int21_def get_ah_def get_al_def get_regs_def)
  have "interrupt (file_system h) (wall h) (code_at c 1) (skip_ip 2 c) = halt c1"
    using assms(6)
  proof
    assume "code_at c 1 = 0x20"
    then show ?thesis using e by (simp add: interrupt_def)
  next
    assume n: "code_at c 1 = 0x21 \<and> drop_bit 8 (ax (regs c)) AND 0xFF \<in> {0x00, 0x4C}"
    then show ?thesis using e i by (simp add: interrupt_def del: insert_iff)
  qed
  then have "interrupt (file_system h) (wall h) (code_at c 1) (skip_ip 2 c) = (Inl HaltExecution, ?d)"
    by (simp add: h)
  from int_instruction_runs_service [OF assms(1-5) this, of fo] show ?thesis
    using assms(2) by (simp add: run_def) (simp add: c1_def skip_ip_def)
qed

section \<open>Handlers of the program\<close>

text \<open>The interrupts the machine serves itself.\<close>

definition emulated :: "int list" where
  "emulated = [0x20, 0x21, 0x10, 0x11, 0x12, 0x15, 0x16, 0x1A, 0x2F, 0x33, 0x67]"

text \<open>
  an interrupt the machine does not serve goes to the handler the program installed, with IF and
  TF clear; an IRET of the handler, with the interrupt frame back on top of the stack, continues behind
  the INT instruction with the program's FLAGS, stack pointer and call depth.
\<close>

theorem user_interrupt_roundtrip:
  assumes "wf_regs (regs c)" "stk lo hi c 3 []" "0 \<le> num" "num < 256" "num \<notin> set emulated"
    "vector_at (mem c) num \<noteq> (0, 0)" "0 \<le> call_depth c"
  shows "\<exists>c1. interrupt H now num c = (Inr (), c1) \<and> (cs (regs c1), ip (regs c1)) = vector_at (mem c) num
    \<and> flags (regs c1) AND IF = 0 \<and> flags (regs c1) AND TF = 0 \<and> stk lo hi c1 0 (interrupt_frame c)
    \<and> (\<forall>c3 :: dos cpu. stk lo hi c3 0 (interrupt_frame c) \<and> ss (regs c3) = ss (regs c) \<and> call_depth c3 = call_depth c1 \<longrightarrow>
         (\<exists>c4. op_iret c3 = (Inr (), c4) \<and> cs (regs c4) = cs (regs c) \<and> ip (regs c4) = ip (regs c)
            \<and> flags (regs c4) = flags (regs c) OR 2 \<and> sp (regs c4) = sp (regs c) \<and> call_depth c4 = call_depth c))"
proof -
  obtain seg off where v: "vector_at (mem c) num = (seg, off)" "u16 seg" "u16 off"
    using vector_at_range [of "mem c" num] by auto
  define c0 where "c0 = c\<lparr>world := (world c)\<lparr>observable_effect_sink :=
    map_option (\<lambda>l. l @ [observable_interrupt_arguments (regs c) num]) (observable_effect_sink (world c))\<rparr>\<rparr>"
  have c0: "regs c0 = regs c" "mem c0 = mem c" "call_depth c0 = call_depth c" by (simp_all add: c0_def)
  have s0: "stk lo hi c0 (0 + 3) []" using assms(2) stk_cong [of c0 c] c0 by simp
  have w0: "wf_regs (regs c0)" using assms(1) c0 by simp
  have rv: "read_vector num c0 = (Inr (seg, off), c0)"
    using read_vector_effect [of c0 num] stkD(1) [OF s0] assms(3,4) v(1) c0 by simp
  note E = enter_handler_effect [OF w0 s0 v(2,3)]
  have i: "interrupt H now num c = (Inr (), in_handler (seg, off) c0)"
  proof -
    have "bindM (get_regs (\<lambda>r. observable_interrupt_arguments r num)) record_effect c = (Inr (), c0)"
      by (simp add: get_regs_def record_effect_def upd_dos_def c0_def)
    moreover have "seg \<noteq> 0 \<or> off \<noteq> 0" using assms(6) v(1) by auto
    ultimately show ?thesis
      using assms(5) rv E(1) unfolding interrupt_def emulated_def by simp
  qed
  have fr: "interrupt_frame c0 = interrupt_frame c" by (simp add: interrupt_frame_def c0)
  have resumes: "\<exists>c4. op_iret c3 = (Inr (), c4) \<and> cs (regs c4) = cs (regs c) \<and> ip (regs c4) = ip (regs c)
      \<and> flags (regs c4) = flags (regs c) OR 2 \<and> sp (regs c4) = sp (regs c) \<and> call_depth c4 = call_depth c"
    if "stk lo hi c3 0 (interrupt_frame c)" "ss (regs c3) = ss (regs c)" "call_depth c3 = call_depth c + 1"
    for c3 :: "dos cpu"
  proof -
    have "sp (regs c3) + 6 = sp (regs c)"
      using stkD(7) [OF that(1)] stkD(7) [OF assms(2)] that(2)
      by (simp add: interrupt_frame_def stack_top_def)
    then show ?thesis
      using iret_effect [OF that(1) [unfolded interrupt_frame_def]] that(3) assms(7) by simp
  qed
  show ?thesis
    using i E(2) fr v(1) irq_flags_clear [of "flags (regs c)"] resumes c0 by (simp add: in_handler_def)
qed

section \<open>Interrupt vectors\<close>

lemma ww_ivt:
  assumes "real_mode m" "0 \<le> a" "a < 0x3FF"
  shows "ww 0 a v m = (Inr (), m\<lparr>mdata := (mdata m)(a := word_of_int v, a + 1 := word_of_int (drop_bit 8 v))\<rparr>)"
proof -
  have "linear 0 a = a" using assms(2,3) by (simp add: linear_eq)
  then show ?thesis
    using assms ww_plain [OF assms(1), of 0 a v] by (simp add: ram_byte_def in_aperture_def mem_consts)
qed

definition with_vector :: "int \<Rightarrow> int \<Rightarrow> int \<Rightarrow> memory \<Rightarrow> memory" where
  "with_vector vec off seg m = m\<lparr>mdata := (mdata m)(vec * 4 := word_of_int off, vec * 4 + 1 := word_of_int (drop_bit 8 off),
     vec * 4 + 2 := word_of_int seg, vec * 4 + 2 + 1 := word_of_int (drop_bit 8 seg))\<rparr>"

lemma set_vector_effect:
  assumes "real_mode (mem c)" "0 \<le> vec" "vec < 256"
  shows "set_vector vec c = (Inr (), c\<lparr>mem := with_vector vec (dx (regs c)) (ds (regs c)) (mem c)\<rparr>)"
proof -
  let ?m = "(mem c)\<lparr>mdata := (mdata (mem c))(vec * 4 := word_of_int (dx (regs c)),
    vec * 4 + 1 := word_of_int (drop_bit 8 (dx (regs c))))\<rparr>"
  have "ww 0 (vec * 4) (dx (regs c)) (mem c) = (Inr (), ?m)"
    by (rule ww_ivt) (use assms in simp_all)
  moreover have "ww 0 (vec * 4 + 2) (ds (regs c)) ?m = (Inr (), with_vector vec (dx (regs c)) (ds (regs c)) (mem c))"
    unfolding with_vector_def by (subst ww_ivt) (use assms in simp_all)
  ultimately show ?thesis by (simp add: set_vector_def get_regs_def on_mem_def)
qed

lemma with_vector_at:
  assumes "u16 off" "u16 seg"
  shows "vector_at (with_vector vec off seg m) vec = (seg, off)"
    "v \<noteq> vec \<Longrightarrow> vector_at (with_vector vec off seg m) v = vector_at m v"
proof -
  show "vector_at (with_vector vec off seg m) vec = (seg, off)"
    using assms by (simp add: vector_at_def with_vector_def u16_def mask_simps split_word)
  have out: "mdata (with_vector vec off seg m) a = mdata m a" if "a < vec * 4 \<or> vec * 4 + 4 \<le> a" for a
    using that by (auto simp: with_vector_def)
  assume "v \<noteq> vec"
  then have "v * 4 + 3 < vec * 4 \<or> vec * 4 + 4 \<le> v * 4" by linarith
  then show "vector_at (with_vector vec off seg m) v = vector_at m v"
    unfolding vector_at_def Let_def by (auto simp: out)
qed

text \<open>
  the vector a program sets with AH=25h is the one AH=35h returns, and every other vector is as it was.
\<close>

theorem vector_set_get:
  assumes "real_mode (mem c)" "drop_bit 8 (ax (regs c)) AND 0xFF = 0x25" "u16 (dx (regs c))" "u16 (ds (regs c))"
    "vec = ax (regs c) AND 0xFF"
  shows "\<exists>c1. int21 H c = (Inr (), c1) \<and> vector_at (mem c1) vec = (ds (regs c), dx (regs c))
    \<and> (\<forall>v. v \<noteq> vec \<longrightarrow> vector_at (mem c1) v = vector_at (mem c) v)
    \<and> (\<forall>c2. mem c2 = mem c1 \<and> drop_bit 8 (ax (regs c2)) AND 0xFF = 0x35 \<and> ax (regs c2) AND 0xFF = vec \<longrightarrow>
        (\<exists>c3. int21 H c2 = (Inr (), c3) \<and> (es (regs c3), bx (regs c3)) = (ds (regs c), dx (regs c))))"
proof -
  have v: "0 \<le> vec" "vec < 256" by (simp_all add: assms(5) mask_simps)
  let ?m = "with_vector vec (dx (regs c)) (ds (regs c)) (mem c)"
  have 1: "int21 H c = (Inr (), c\<lparr>mem := ?m\<rparr>)"
    using assms(2,5) set_vector_effect [OF assms(1) v] by (simp add: int21_def get_ah_def get_al_def get_regs_def)
  note A = with_vector_at [OF assms(3,4), where vec = vec and m = "mem c"]
  have r: "real_mode ?m" using assms(1) by (simp add: with_vector_def)
  have 2: "\<exists>c3. int21 H c2 = (Inr (), c3) \<and> (es (regs c3), bx (regs c3)) = (ds (regs c), dx (regs c))"
    if "mem c2 = ?m" "drop_bit 8 (ax (regs c2)) AND 0xFF = 0x35" "ax (regs c2) AND 0xFF = vec" for c2 :: "dos cpu"
  proof -
    have "int21 H c2 = get_vector vec c2"
      using that by (simp add: int21_def get_ah_def get_al_def get_regs_def)
    then show ?thesis
      using rw_ivt [OF r, of "vec * 4"] rw_ivt [OF r, of "vec * 4 + 2"] v A(1) that(1)
      by (simp add: get_vector_def on_mem_def upd_regs_def vector_at_def Let_def)
  qed
  show ?thesis using 1 A 2 by simp
qed

section \<open>Keys\<close>

text \<open>
  a key without a character, such as an arrow or a function key, reaches the console input calls
  AH=01h, 07h and 08h in two reads, first 00h and then its scan code, and no key behind it in the
  queue is lost or overtakes it; AH=0Bh reports a character waiting in between.
\<close>

theorem extended_key_in_two_reads:
  assumes "pending_console_scancode (world c) = None" "key_queue (world c) = (push_bit 8 scan) # keys"
    "0 < scan" "scan < 256" "drop_bit 8 (ax (regs c)) AND 0xFF \<in> {0x07, 0x08}"
  shows "\<exists>c1. int21 H c = (Inr (), c1) \<and> ax (regs c1) AND 0xFF = 0 \<and> key_queue (world c1) = keys
    \<and> (\<forall>c2. world c2 = world c1 \<longrightarrow>
        (drop_bit 8 (ax (regs c2)) AND 0xFF \<in> {0x07, 0x08} \<longrightarrow> (\<exists>c3. int21 H c2 = (Inr (), c3)
            \<and> ax (regs c3) AND 0xFF = scan \<and> key_queue (world c3) = keys \<and> pending_console_scancode (world c3) = None))
      \<and> (drop_bit 8 (ax (regs c2)) AND 0xFF = 0x0B \<longrightarrow> (\<exists>c3. int21 H c2 = (Inr (), c3)
            \<and> ax (regs c3) AND 0xFF = 0xFF \<and> world c3 = world c2)))"
proof -
  have k: "push_bit 8 scan AND 0xFF = 0" "drop_bit 8 (push_bit 8 scan) = scan" "scan AND 0xFF = scan"
    using assms(3,4) by (simp_all add: mask_simps)
  have al: "((a AND 0xFF00) OR v) AND 0xFF = v" if "v AND 0xFF = v" for a v :: int
    using that by (simp add: and.assoc bit.conj_disj_distrib2)
  let ?c = "c\<lparr>world := (world c)\<lparr>key_queue := keys, pending_console_scancode := Some scan\<rparr>,
    regs := (regs c)\<lparr>ax := ax (regs c) AND 0xFF00\<rparr>\<rparr>"
  have 1: "int21 H c = (Inr (), ?c)"
    using assms(1,2,3,5) k
    by (auto simp: int21_def get_ah_def get_al_def get_regs_def console_input_def get_dos_def upd_dos_def upd_regs_def Let_def)
  have 2: "int21 H c2 = (Inr (), c2\<lparr>world := (world c2)\<lparr>pending_console_scancode := None\<rparr>,
      regs := (regs c2)\<lparr>ax := (ax (regs c2) AND 0xFF00) OR scan\<rparr>\<rparr>)"
    if "pending_console_scancode (world c2) = Some scan" "drop_bit 8 (ax (regs c2)) AND 0xFF \<in> {0x07, 0x08}" for c2
    using that k
    by (auto simp: int21_def get_ah_def get_al_def get_regs_def console_input_def get_dos_def upd_dos_def upd_regs_def)
  have 3: "int21 H c2 = (Inr (), c2\<lparr>regs := (regs c2)\<lparr>ax := (ax (regs c2) AND 0xFF00) OR 0xFF\<rparr>\<rparr>)"
    if "pending_console_scancode (world c2) = Some scan" "drop_bit 8 (ax (regs c2)) AND 0xFF = 0x0B" for c2
    using that by (simp add: int21_def get_ah_def get_al_def get_regs_def get_dos_def upd_regs_def)
  show ?thesis
    using 1 2 3 k al by (intro exI [of _ ?c]) (auto simp: and.assoc)
qed

section \<open>Instances\<close>

definition test_host :: host where
  "test_host = \<lparr>file_system = game_host, wall = \<lparr>c_year = 1993, c_month = 12, c_day = 10, c_hour = 9, c_minute = 30, c_second = 0\<rparr>,
     io = plain_io\<rparr>"

text \<open>A machine about to execute INT \<open>num\<close> with \<open>a\<close> in AX, a key waiting.\<close>

definition int_cpu :: "8 word \<Rightarrow> int \<Rightarrow> dos cpu" where
  "int_cpu num a = (CPU8086 ((memory_new MEM_SIZE None)\<lparr>mdata := (\<lambda>_. 0)(0 := 0xCD, 1 := num)\<rparr>)
     (DOSMachine\<lparr>key_queue := [0x4800]\<rparr>))\<lparr>regs := CPUState_init\<lparr>ax := a\<rparr>\<rparr>"

lemma int_cpu_simps:
  "plain_code (int_cpu num a)" "\<not> halted (int_cpu num a)" "\<not> interp_forbidden (int_cpu num a)"
  "\<not> at_bios_entry (int_cpu num a)" "code_at (int_cpu num a) 0 = 0xCD" "code_at (int_cpu num a) 1 = uint num"
  "regs (int_cpu num a) = CPUState_init\<lparr>ax := a\<rparr>" "real_mode (mem (int_cpu num a))"
  "key_queue (world (int_cpu num a)) = [0x4800]" "pending_console_scancode (world (int_cpu num a)) = None"
  using real_mode_new
  by (simp_all add: int_cpu_def plain_code_def CPU8086_def code_at_def CPUState_init_def linear_eq at_bios_entry_def
      BIOS_INT9_ENTRY_def BIOS_IRET_ENTRY_def DOSMachine_def) (simp_all add: memory_new_def)

theorem int_instruction_runs_service_witness:
  "\<exists>d. step (wire_runtime test_host (env_new no_floats)) (int_cpu 0x12 0) = Some (Inr (), d) \<and> ax (regs d) = 640"
proof -
  let ?c = "int_cpu 0x12 0"
  have "observable_effect_sink (world (skip_ip 2 ?c)) = None"
    by (simp add: int_cpu_def skip_ip_def CPU8086_def DOSMachine_def)
  then have "\<exists>d. interrupt (file_system test_host) (wall test_host) (code_at ?c 1) (skip_ip 2 ?c) = (Inr (), d) \<and> ax (regs d) = 640"
    unfolding int_cpu_simps(6) by (simp add: interrupt_def get_regs_def record_effect_def upd_dos_def set_ax_def upd_regs_def)
  then obtain d where "interrupt (file_system test_host) (wall test_host) (code_at ?c 1) (skip_ip 2 ?c) = (Inr (), d)" "ax (regs d) = 640"
    by blast
  with int_instruction_runs_service [OF int_cpu_simps(1-5) this(1), of no_floats] show ?thesis by auto
qed

theorem program_exit_stops_run_witness:
  "\<exists>d. run (wire_runtime test_host (env_new no_floats)) (Suc 4) (int_cpu 0x21 0x4C01) = Some (Inl HaltExecution, d) \<and> halted d"
proof -
  have "code_at (int_cpu 0x21 0x4C01) 1 = 0x20 \<or> code_at (int_cpu 0x21 0x4C01) 1 = 0x21
      \<and> drop_bit 8 (ax (regs (int_cpu 0x21 0x4C01))) AND 0xFF \<in> {0x00, 0x4C}"
    unfolding int_cpu_simps(6,7) by simp
  from program_exit_stops_run [OF int_cpu_simps(1-5) this] show ?thesis by blast
qed

theorem user_interrupt_roundtrip_witness:
  "\<exists>c1. interrupt game_host (wall test_host) 0x70 power_on_cpu = (Inr (), c1) \<and> (cs (regs c1), ip (regs c1)) = BIOS_IRET_ENTRY"
proof -
  have "stk 0x500 0x600 power_on_cpu 3 []" by (rule power_on_stk) simp
  moreover have "vector_at (mem power_on_cpu) 0x70 = BIOS_IRET_ENTRY"
    by (simp add: power_on_memory(4) power_on_vector_def BIOS_IRET_ENTRY_def)
  moreover have "call_depth power_on_cpu = 0" by (simp add: power_on_cpu_def CPU8086_def)
  ultimately show ?thesis
    using user_interrupt_roundtrip [OF power_on_wf, of "0x500" "0x600" "0x70" game_host "wall test_host"]
    by (auto simp: emulated_def BIOS_IRET_ENTRY_def)
qed

theorem vector_set_get_witness:
  "\<exists>c1. int21 game_host (int_cpu 0x21 0x2560) = (Inr (), c1) \<and> vector_at (mem c1) 0x60 = (0, 0)"
  using vector_set_get [of "int_cpu 0x21 0x2560" "0x60" game_host] int_cpu_simps(7,8)
  by (auto simp: CPUState_init_def u16_def)

theorem extended_key_in_two_reads_witness:
  "\<exists>c1. int21 game_host (int_cpu 0x21 0x0700) = (Inr (), c1) \<and> ax (regs c1) AND 0xFF = 0"
  using extended_key_in_two_reads [of "int_cpu 0x21 0x0700" "0x48" "[]" game_host]
    int_cpu_simps(7,9,10) [of "0x21" "0x0700"] by auto

end
