(* ===== verification/Sound_Card.thy ===== *)
theory Sound_Card
  imports Dos_Ports
begin

text \<open>
  The Sound Blaster of \<open>dos_re/sblaster.py\<close> and its attachment to a machine
  (\<open>enable_sound_blaster\<close> of \<open>dos_re/runtime_core.py\<close>): the bytes a program writes to the command port
  are a sequence of commands, continuous playback goes round the ring buffer without a gap, a saved
  card resumes, and a program detects the card through the ports of the machine.
\<close>

section \<open>Attaching the card\<close>

definition no_keys :: sb_dict where
  "no_keys = \<lparr>d_base = None, d_irq = None, d_dma = None, d_detection_only = None,
     d_dma_requests = None, d_speaker_on = None, d_time_constant = None, d_sample_rate = None,
     d_block_len = None, d_auto_init = None, d_dma_active = None, d_irq_line = None,
     d_resetting = None, d_dma_tc = None, d_args_needed = None, d_cmd = None, d_args = None,
     d_out = None, d_block_pending = None, d_block_remaining = None, d_channels = None\<rparr>"

definition enable_sound_blaster :: "io_host \<Rightarrow> int \<Rightarrow> int \<Rightarrow> int \<Rightarrow> bool \<Rightarrow> unit dos_op" where
  "enable_sound_blaster H b i d detection =
     thenM (upd_dos (\<lambda>m. m\<lparr>pic := Some (PIC8259_init\<lparr>imr := 0x00\<rparr>),
              sound_blaster := Some (SoundBlaster b i d detection)\<rparr>))
     (bindM (get_dos sound_blaster_snapshot) (\<lambda>saved. case saved of None \<Rightarrow> ret ()
        | Some dict \<Rightarrow> (if dict = no_keys then ret ()
            else thenM (on_card (restore_state dict))
                (thenM (on_card (rearm_after_restore (card_host (H\<lparr>sb_time := None\<rparr>))))
                       (upd_dos (\<lambda>m. m\<lparr>sound_blaster_snapshot := None\<rparr>))))))"

section \<open>Methods of the card\<close>

lemma card_op_simps [simp]:
  "get_card f (s, w) = (Inr (f s), (s, w))"
  "upd_card g (s, w) = (Inr (), (g s, w))"
  by (simp_all add: get_card_def upd_card_def)

lemma on_host_card: "on_host m (s, w) = (r, (s', w')) \<Longrightarrow> s' = s \<and> m w = (r, w')"
  by (auto simp: on_host_def split: prod.splits)

lemma upd_channel_simps [simp]:
  "args_needed (upd_channel k f s) = args_needed s"
  "sb_base (upd_channel k f s) = sb_base s"
  "pcm_out (upd_channel k f s) = pcm_out s"
  "sb_dma (upd_channel k f s) = sb_dma s"
  "length (channels (upd_channel k f s)) = length (channels s)"
  "k < length (channels s) \<Longrightarrow> channels (upd_channel k f s) ! k = f (channels s ! k)"
  by (simp_all add: upd_channel_def)

section \<open>A stream of bytes is a sequence of commands\<close>

text \<open>Between commands: nothing but \<open>feed\<close> changes how many argument bytes are due.\<close>

definition idle_at :: "int \<Rightarrow> sound_blaster_state \<times> 'w \<Rightarrow> bool" where
  "idle_at b x \<longleftrightarrow> args_needed (fst x) = 0 \<and> sb_base (fst x) = b"

interpretation idle: state_invariant "idle_at b" for b .

lemma idle_upd_card:
  "(\<And>s. args_needed (f s) = args_needed s) \<Longrightarrow> (\<And>s. sb_base (f s) = sb_base s) \<Longrightarrow>
   idle.keeps b (upd_card f) (\<lambda>_. True)"
  by (simp add: idle.keeps_def upd_card_def idle_at_def split: prod.splits)

lemma idle_get_card: "idle.keeps b (get_card f) (\<lambda>_. True)"
  by (simp add: idle.keeps_def get_card_def split: prod.splits)

lemma idle_getM: "idle.keeps b (getM f) (\<lambda>_. True)"
  by (simp add: idle.keeps_def)

lemma idle_on_host: "idle.keeps b (on_host m) (\<lambda>_. True)"
  by (auto simp: idle.keeps_def on_host_def idle_at_def split: prod.splits)

lemma idle_mapM: "(\<And>x. idle.keeps b (f x) (\<lambda>_. True)) \<Longrightarrow> idle.keeps b (mapM f xs) (\<lambda>_. True)"
  by (induction xs) (auto intro!: idle.keeps_ret idle.keeps_bindM)

lemma idle_lift_exn: "idle.keeps b (lift_exn r) (\<lambda>_. True)"
  by (cases r) (simp_all add: lift_exn_def idle.keeps_ret idle.keeps_raise)

lemmas idle_rules = idle_upd_card idle_get_card idle_getM idle_on_host idle_mapM idle_lift_exn
  idle.keeps_ret_True idle.keeps_raise idle.keeps_bindM_any idle.keeps_thenM idle.keeps_if
  idle.keeps_case_option idle.keeps_case_prod idle.keeps_seqM_map

lemma idle_fire_irq: "idle.keeps b (fire_irq H) (\<lambda>_. True)"
  unfolding fire_irq_def by (intro idle_rules) simp_all

lemma idle_transfer: "idle.keeps b (transfer H ch n inp silent) (\<lambda>_. True)"
  unfolding transfer_def by (intro idle_rules) simp_all

lemma idle_pace_irq: "idle.keeps b (pace_irq H n) (\<lambda>_. True)"
  unfolding pace_irq_def by (intro idle_rules idle_fire_irq) simp_all

lemma idle_sb_channel: "idle.keeps b sb_channel (\<lambda>_. True)"
  unfolding sb_channel_def by (intro idle_rules)

lemma idle_start_dma: "idle.keeps b (start_dma H n auto inp silent) (\<lambda>_. True)"
  unfolding start_dma_def Let_def
  by (intro idle_rules idle_fire_irq idle_transfer idle_pace_irq idle_sb_channel) simp_all

lemma idle_exec_cmd: "idle.keeps b (exec_cmd H c args) (\<lambda>_. True)"
  unfolding exec_cmd_def Let_def by (intro idle_rules idle_fire_irq idle_start_dma) simp_all

text \<open>A command with all its arguments, as one operation.\<close>

definition dsp_command :: "'w sb_host \<Rightarrow> int \<times> int list \<Rightarrow> ('w, unit) card_op" where
  "dsp_command H = (\<lambda>(c, args).
     thenM (upd_card (\<lambda>s. s\<lparr>dsp_cmd := c, dsp_args := args, args_needed := 0\<rparr>)) (exec_cmd H c args))"

definition is_command :: "int \<times> int list \<Rightarrow> bool" where
  "is_command = (\<lambda>(c, args). length args = cmd_arity c \<and> (\<forall>v \<in> set (c # args). u8 v))"

lemma write_command_byte:
  assumes "sb_base s = b" "u8 v"
  shows "sb_write H (b + 0xC) v (s, w) = feed H v (s, w)"
  using assms by (simp add: sb_write_def u8_id Let_def)

lemma feed_args:
  assumes "args_needed s = length args" "args \<noteq> []" "sb_base s = b" "\<forall>v \<in> set args. u8 v"
  shows "seqM (map (sb_write H (b + 0xC)) args) (s, w)
    = exec_cmd H (dsp_cmd s) (dsp_args s @ args)
        (s\<lparr>dsp_args := dsp_args s @ args, args_needed := 0\<rparr>, w)"
  using assms
proof (induction args arbitrary: s)
  case Nil
  then show ?case by simp
next
  case (Cons v args)
  let ?s = "s\<lparr>dsp_args := dsp_args s @ [v], args_needed := args_needed s - 1\<rparr>"
  show ?case
  proof (cases "args = []")
    case True
    then show ?thesis using Cons.prems
      by (simp add: thenM_def bindM_def write_command_byte feed_def split: prod.splits sum.splits)
  next
    case False
    then have "feed H v (s, w) = (Inr (), (?s, w))" using Cons.prems by (simp add: feed_def)
    then show ?thesis using Cons.IH [of ?s] Cons.prems False
      by (simp add: write_command_byte)
  qed
qed

lemma feed_command:
  assumes "args_needed s = 0" "is_command (c, args)"
  shows "seqM (map (sb_write H (sb_base s + 0xC)) (c # args)) (s, w) = dsp_command H (c, args) (s, w)"
proof (cases "args = []")
  case True
  then show ?thesis using assms
    by (simp add: is_command_def dsp_command_def write_command_byte feed_def thenM_def bindM_def
        split: prod.splits sum.splits)
next
  case False
  let ?s = "s\<lparr>dsp_cmd := c, dsp_args := [], args_needed := cmd_arity c\<rparr>"
  have "cmd_arity c \<noteq> 0" using assms(2) False by (cases args) (auto simp: is_command_def)
  then have "feed H c (s, w) = (Inr (), (?s, w))" using assms(1) by (simp add: feed_def)
  then show ?thesis using feed_args [of ?s args "sb_base s" H w] assms False
    by (simp add: is_command_def dsp_command_def write_command_byte)
qed

text \<open>
  C29: the bytes a program writes to the command port are the commands they spell: for any sequence of
  commands, each followed by as many argument bytes as it takes, the writes have the outcome of the
  commands executed one after the other with those arguments, in results, state and exceptions.
\<close>

theorem dsp_stream_is_commands:
  assumes "\<forall>x \<in> set cmds. is_command x" "args_needed s = 0"
  shows "seqM (map (sb_write H (sb_base s + 0xC)) (concat (map (\<lambda>(c, args). c # args) cmds))) (s, w)
    = seqM (map (dsp_command H) cmds) (s, w)"
  using assms
proof (induction cmds arbitrary: s w)
  case Nil
  then show ?case by simp
next
  case (Cons x cmds)
  obtain c args where x: "x = (c, args)" by force
  have head: "seqM (map (sb_write H (sb_base s + 0xC)) (c # args)) (s, w) = dsp_command H x (s, w)"
    using feed_command [of s c args H w] Cons.prems(1,2) unfolding x by (meson list.set_intros(1))
  obtain r s1 w1 where r: "dsp_command H x (s, w) = (r, (s1, w1))" by (metis prod.exhaust)
  have "idle_at (sb_base s) (s1, w1)"
    using idle.keepsD [OF idle_exec_cmd, of "sb_base s" "(s\<lparr>dsp_cmd := c, dsp_args := args, args_needed := 0\<rparr>, w)" H c args] r
    by (simp add: x dsp_command_def idle_at_def)
  then have s1: "args_needed s1 = 0" "sb_base s1 = sb_base s" by (simp_all add: idle_at_def)
  let ?out = "map (sb_write H (sb_base s + 0xC))"
  have "seqM (?out (concat (map (\<lambda>(c, args). c # args) (x # cmds)))) (s, w)
      = thenM (seqM (?out (c # args))) (seqM (?out (concat (map (\<lambda>(c, args). c # args) cmds)))) (s, w)"
    by (simp only: x list.map prod.case concat.simps map_append seqM_append)
  then show ?case
    using head r Cons.IH [of s1 w1] Cons.prems(1) s1 by (cases r) simp_all
qed

text \<open>Speaker on, rate 11025 Hz, a block of 512 bytes, DSP version.\<close>

definition demo_commands :: "(int \<times> int list) list" where
  "demo_commands = [(0xD1, []), (0x41, [0x2B, 0x11]), (0x48, [0xFF, 0x01]), (0xE1, [])]"

definition bare_card_host :: "unit sb_host" where
  "bare_card_host = \<lparr>raise_irq_line = None, read_mem = Some (\<lambda>a. ret (a AND 0xFF)), write_mem = None,
     sb_clock = None, sb_floats = no_floats\<rparr>"

theorem dsp_stream_is_commands_witness:
  "\<exists>s. seqM (map (sb_write bare_card_host 0x22C) (concat (map (\<lambda>(c, args). c # args) demo_commands)))
      (SoundBlaster 0x220 7 1 False, ()) = (Inr (), (s, ()))
    \<and> speaker_on s \<and> sample_rate s = 11025 \<and> block_len s = 511 \<and> dsp_out s = [2, 1]"
proof -
  let ?s = "SoundBlaster 0x220 7 1 False"
  have c: "\<forall>x \<in> set demo_commands. is_command x" "args_needed ?s = 0" "sb_base ?s + 0xC = 0x22C"
    by (simp_all add: demo_commands_def is_command_def cmd_arity_def DSP_CMD_ARGS_def u8_def SoundBlaster_def)
  show ?thesis
    using dsp_stream_is_commands [OF c(1,2), of bare_card_host "()"]
    unfolding c(3) by (simp add: demo_commands_def dsp_command_def exec_cmd_def SoundBlaster_def thenM_def Let_def)
qed

section \<open>Continuous playback\<close>

text \<open>A host that only lets the card read: memory \<open>m\<close>, an interrupt line and a clock.\<close>

definition capture_host :: "'w sb_host \<Rightarrow> (int \<Rightarrow> int) \<Rightarrow> bool" where
  "capture_host H m \<longleftrightarrow> (\<exists>r. read_mem H = Some r \<and> (\<forall>a w. r a w = (Inr (m a), w)))
    \<and> (\<forall>line i w. raise_irq_line H = Some line \<longrightarrow> (\<exists>w'. line i w = (Inr (), w')))
    \<and> (\<forall>n k. k \<noteq> 0 \<longrightarrow> (\<exists>x. fo_int_div (sb_floats H) n k = Inr x))"

text \<open>A channel set up for auto-initialisation, its cursor inside the buffer.\<close>

definition ring_channel :: "sound_blaster_state \<Rightarrow> DmaChannel \<Rightarrow> bool" where
  "ring_channel s ch \<longleftrightarrow> \<not> detection_only s \<and> 0 \<le> sb_dma s \<and> sb_dma s < int (length (channels s))
    \<and> channels s ! nat (sb_dma s) = ch \<and> dma_mode ch AND 0x10 \<noteq> 0
    \<and> base_addr ch \<le> cur_addr ch \<and> cur_addr ch < base_addr ch + buf_size ch"

lemma mapM_read: "(\<And>i. f i x = (Inr (g i), x)) \<Longrightarrow> mapM f xs x = (Inr (map g xs), x)"
  by (induction xs) simp_all

lemma fire_irq_returns:
  assumes "capture_host H m"
  shows "\<exists>w'. fire_irq H (s, w) = (Inr (), (s\<lparr>irq_line := True\<rparr>, w'))"
proof (cases "raise_irq_line H")
  case None
  then show ?thesis by (simp add: fire_irq_def)
next
  case (Some line)
  then obtain w' where "line (sb_irq s) w = (Inr (), w')" using assms by (fastforce simp: capture_host_def)
  then show ?thesis using Some by (simp add: fire_irq_def on_host_def)
qed

lemma pace_irq_returns:
  assumes "capture_host H m"
  shows "\<exists>s' w'. pace_irq H n (s, w) = (Inr (), (s', w')) \<and> pcm_out s' = pcm_out s
    \<and> channels s' = channels s \<and> sb_dma s' = sb_dma s \<and> detection_only s' = detection_only s
    \<and> block_len s' = block_len s"
proof (cases "sb_clock H")
  case None
  then show ?thesis using fire_irq_returns [OF assms, of s w] by (auto simp: pace_irq_def)
next
  case (Some t)
  have "sb_rate s \<noteq> 0" by (simp add: sb_rate_def)
  then obtain x where "fo_int_div (sb_floats H) n (sb_rate s) = Inr x"
    using assms unfolding capture_host_def by blast
  then show ?thesis using Some by (simp add: pace_irq_def lift_exn_def)
qed

lemma resync_inside: "base_addr ch \<le> cur_addr ch \<Longrightarrow> cur_addr ch < base_addr ch + buf_size ch \<Longrightarrow> resync ch = ch"
  by (simp add: resync_def)

lemma block_effect:
  assumes "capture_host H m" "ring_channel s ch"
  shows "\<exists>s' w'. start_dma H n auto False False (s, w) = (Inr (), (s', w'))
    \<and> pcm_out s' = pcm_out s @ map (\<lambda>i. m (ring ch i)) [0..n - 1]
    \<and> ring_channel s' (advance_cursor n ch) \<and> block_len s' = block_len s"
proof -
  obtain r where r: "read_mem H = Some r" "\<And>a w. r a w = (Inr (m a), w)"
    using assms(1) by (auto simp: capture_host_def)
  let ?k = "nat (sb_dma s)"
  note ch = assms(2)[unfolded ring_channel_def]
  have k: "?k < length (channels s)" using ch by linarith
  have adv: "base_addr (advance_cursor n ch) = base_addr ch" "buf_size (advance_cursor n ch) = buf_size ch"
      "dma_mode (advance_cursor n ch) = dma_mode ch" by (simp_all add: advance_cursor_def buf_size_def)
  have "0 < buf_size ch" by (simp add: buf_size_def)
  then have cur: "base_addr ch \<le> cur_addr (advance_cursor n ch)"
      "cur_addr (advance_cursor n ch) < base_addr ch + buf_size ch"
    using ch by (simp_all add: advance_cursor_def)
  let ?s1 = "s\<lparr>auto_init := auto, dma_active := True, dma_requests := dma_requests s + 1,
     channels := (channels s)[?k := ch], pcm_out := pcm_out s @ map (\<lambda>i. m (ring ch i)) [0..n - 1]\<rparr>"
  let ?s2 = "?s1\<lparr>channels := (channels s)[?k := advance_cursor n ch],
     dma_tc := dma_tc s OR push_bit ?k 1,
     sb_log := sb_log s @ [DmaStart n auto (sample_rate s) False False]\<rparr>"
  have "mapM (\<lambda>i. on_host (r (ring ch i))) [0..n - 1] x = (Inr (map (\<lambda>i. m (ring ch i)) [0..n - 1]), x)" for x
    by (rule mapM_read) (cases x, simp add: on_host_def r(2))
  then have "start_dma H n auto False False (s, w) = pace_irq H n (?s2, w)"
    using ch k r(1) resync_inside [of ch]
    by (simp add: start_dma_def sb_channel_def transfer_def upd_channel_def Let_def)
  moreover obtain s' w' where "pace_irq H n (?s2, w) = (Inr (), (s', w'))" "pcm_out s' = pcm_out ?s2"
      "channels s' = channels ?s2" "sb_dma s' = sb_dma s" "detection_only s' = detection_only s"
      "block_len s' = block_len s"
    using pace_irq_returns [OF assms(1), of n ?s2 w] by auto
  ultimately show ?thesis using ch k adv cur
    by (simp add: ring_channel_def)
qed

lemma ring_advance:
  assumes "dma_mode ch AND 0x10 \<noteq> 0"
  shows "ring (advance_cursor n ch) i = ring ch (n + i)"
  using assms by (simp add: ring_def advance_cursor_def buf_size_def mod_add_left_eq add.assoc)

lemma map_upto_split:
  assumes "0 \<le> (a::int)" "0 \<le> b"
  shows "map f [0..a - 1] @ map (\<lambda>i. f (a + i)) [0..b - 1] = map f [0..a + b - 1]"
  by (rule nth_equalityI) (use assms in \<open>auto simp: nth_append\<close>)

text \<open>
  continuous playback never loses or repeats a sample: a program that starts the next
  auto-initialised block each time (commands 1Ch or 90h), with the buffer set up as a ring, hears
  byte after byte of the ring, round and round from the cursor on, however long the blocks are and
  wherever they end in it.
\<close>

theorem auto_init_stream:
  assumes "capture_host H m" "ring_channel s ch" "c = 0x1C \<or> c = 0x90" "0 \<le> block_len s"
  shows "\<exists>s' w'. seqM (replicate k (dsp_command H (c, []))) (s, w) = (Inr (), (s', w'))
    \<and> pcm_out s' = pcm_out s @ map (\<lambda>i. m (ring ch i)) [0..int k * (block_len s + 1) - 1]"
  using assms(2,4)
proof (induction k arbitrary: s w ch)
  case 0
  then show ?case by simp
next
  case (Suc k)
  let ?n = "block_len s + 1"
  let ?s = "s\<lparr>dsp_cmd := c, dsp_args := [], args_needed := 0, sb_log := sb_log s @ [SbCommand c []]\<rparr>"
  have "ring_channel ?s ch" using Suc.prems(1) by (simp add: ring_channel_def)
  then obtain s1 w1 where b: "start_dma H ?n True False False (?s, w) = (Inr (), (s1, w1))"
      "pcm_out s1 = pcm_out s @ map (\<lambda>i. m (ring ch i)) [0..?n - 1]"
      "ring_channel s1 (advance_cursor ?n ch)" "block_len s1 = block_len s"
    using block_effect [OF assms(1), of ?s ch ?n True w] by auto
  have d: "dsp_command H (c, []) (s, w) = (Inr (), (s1, w1))"
    using b(1) assms(3) by (auto simp: dsp_command_def exec_cmd_def Let_def)
  obtain s2 w2 where s2: "seqM (replicate k (dsp_command H (c, []))) (s1, w1) = (Inr (), (s2, w2))"
      "pcm_out s2 = pcm_out s1 @ map (\<lambda>i. m (ring (advance_cursor ?n ch) i)) [0..int k * ?n - 1]"
    using Suc.IH [OF b(3), of w1] b(4) Suc.prems(2) by auto
  have "ring (advance_cursor ?n ch) i = ring ch (?n + i)" for i
    using Suc.prems(1) by (intro ring_advance) (simp add: ring_channel_def)
  then have "pcm_out s2 = pcm_out s @ map (\<lambda>i. m (ring ch i)) [0..?n + int k * ?n - 1]"
    using s2(2) b(2) map_upto_split [of ?n "int k * ?n" "\<lambda>i. m (ring ch i)"] Suc.prems(2) by simp
  then show ?case using d s2(1) by (simp add: algebra_simps)
qed

text \<open>A buffer of four bytes at 1_0010h, played in blocks of three.\<close>

definition ring_card :: sound_blaster_state where
  "ring_card = (SoundBlaster 0x220 7 1 False)\<lparr>block_len := 2,
     channels := replicate 4 (DmaChannel_new\<lparr>dma_page := 1, base_addr := 0x10, base_count := 3,
       cur_addr := 0x10, dma_mode := 0x59\<rparr>)\<rparr>"

theorem auto_init_stream_witness:
  "\<exists>s w. seqM (replicate 2 (dsp_command bare_card_host (0x1C, []))) (ring_card, ()) = (Inr (), (s, w))
    \<and> pcm_out s = [0x10, 0x11, 0x12, 0x13, 0x10, 0x11]"
proof -
  let ?ch = "channels ring_card ! 1"
  have h: "capture_host bare_card_host (\<lambda>a. a AND 0xFF)"
    by (auto simp: capture_host_def bare_card_host_def no_floats_def)
  have c: "ring_channel ring_card ?ch" "0 \<le> block_len ring_card"
    by (simp_all add: ring_channel_def ring_card_def SoundBlaster_def DmaChannel_new_def buf_size_def)
  have r: "map (\<lambda>i. ring ?ch i AND 0xFF) [0..5] = [0x10, 0x11, 0x12, 0x13, 0x10, 0x11]"
    by (simp add: upto_rec1 ring_def ring_card_def SoundBlaster_def DmaChannel_new_def buf_size_def)
  show ?thesis
    using auto_init_stream [OF h c(1) disjI1 [OF refl] c(2), of 2 "()"] r
    by (auto simp: ring_card_def SoundBlaster_def)
qed

section \<open>A saved card resumes\<close>

text \<open>The card that resumes from \<open>s\<close> on the machine \<open>t\<close> was attached to, \<open>left\<close> before the block is due.\<close>

definition resumed :: "sound_blaster_state \<Rightarrow> sound_blaster_state \<Rightarrow> f64 \<Rightarrow> sound_blaster_state" where
  "resumed s t left = s\<lparr>pcm_out := pcm_out t, sb_log := sb_log t, detect_irq_limit := detect_irq_limit t,
     anchor_cadence := anchor_cadence t, block_due := block_due t, block_remaining := left\<rparr>"

definition time_left :: "'w sb_host \<Rightarrow> sound_blaster_state \<Rightarrow> 'w \<Rightarrow> f64" where
  "time_left H s w = (if block_pending s then
     (case sb_clock H of None \<Rightarrow> f_zero
      | Some t \<Rightarrow> f_max0 (fo_sub (sb_floats H) (block_due s) (t w))) else f_zero)"

lemma channel_restore_snapshot: "channel_restore (channel_snapshot ch) = ch"
  by (simp add: channel_restore_def channel_snapshot_def get_or_def)

lemma restore_channels:
  assumes "length (channels t) = k + length chs"
  shows "seqM (map restore_channel (map (\<lambda>(k, ch). (k, channel_snapshot ch)) (enumerate k chs))) (t, v)
    = (Inr (), (t\<lparr>channels := take k (channels t) @ chs\<rparr>, v))"
  using assms
proof (induction chs arbitrary: k t)
  case Nil
  then show ?case by simp
next
  case (Cons ch chs)
  let ?t = "upd_channel k (\<lambda>_. ch) t"
  have "restore_channel (k, channel_snapshot ch) (t, v) = (Inr (), (?t, v))"
    using Cons.prems by (simp add: restore_channel_def channel_restore_snapshot)
  moreover have "take (Suc k) (channels ?t) = take k (channels t) @ [ch]"
    using Cons.prems by (simp add: upd_channel_def take_Suc_conv_app_nth)
  ultimately show ?case
    using Cons.IH [of ?t "Suc k"] Cons.prems by (simp add: upd_channel_def)
qed

lemma restore_snapshot:
  assumes "detection_only t = detection_only s" "length (channels t) = length (channels s)"
    "snapshot_state H (s, w) = (Inr d, x)"
  shows "restore_state d (t, v) = (Inr (), (resumed s t (time_left H s w), v))"
proof -
  let ?t = "(resumed s t (time_left H s w))\<lparr>channels := channels t\<rparr>"
  have d: "d_channels d = Some (map (\<lambda>(k, ch). (k, channel_snapshot ch)) (enumerate 0 (channels s)))"
    using assms(3) by (auto simp: snapshot_state_def)
  have "restore_state d (t, v) = seqM (map restore_channel (get_or (d_channels d) [])) (?t, v)"
    using assms(1,3) by (auto simp: restore_state_def snapshot_state_def get_or_def resumed_def time_left_def
        intro!: arg_cong [where f = "\<lambda>u. seqM ms (u, v)" for ms] sound_blaster_state.equality)
  also have "\<dots> = seqM (map restore_channel
      (map (\<lambda>(k, ch). (k, channel_snapshot ch)) (enumerate 0 (channels s)))) (?t, v)"
    unfolding d by (simp add: get_or_def)
  also have "\<dots> = (Inr (), (?t\<lparr>channels := channels s\<rparr>, v))"
    using restore_channels [of ?t 0 "channels s" v] assms(2) by simp
  finally show ?thesis by (simp add: resumed_def)
qed

text \<open>
  a saved card resumes where it was: restored on a card of the same kind and re-armed, it has the
  saved registers, DMA channels, command in progress and output queue, and a block that was pending is
  due as long after the present moment of the new machine's clock as it was at the save.
\<close>

theorem sb_state_roundtrip:
  assumes "snapshot_state H (s, w) = (Inr d, x)" "detection_only t = detection_only s"
    "length (channels t) = length (channels s)" "block_pending s" "sb_clock H' = Some clk"
  shows "thenM (restore_state d) (rearm_after_restore H') (t, v)
    = (Inr (), ((resumed s t (time_left H s w))
        \<lparr>block_due := fo_add (sb_floats H') (clk v) (time_left H s w)\<rparr>, v))"
  using restore_snapshot [OF assms(2,3,1), of v] assms(4,5)
  by (simp add: rearm_after_restore_def resumed_def)

theorem sb_state_roundtrip_witness:
  "\<exists>d x. snapshot_state (bare_card_host\<lparr>sb_clock := Some (\<lambda>_. f_zero)\<rparr>) (ring_card\<lparr>block_pending := True\<rparr>, ()) = (Inr d, x)
    \<and> fst (thenM (restore_state d) (rearm_after_restore (bare_card_host\<lparr>sb_clock := Some (\<lambda>_. f_zero)\<rparr>))
        (SoundBlaster 0x220 7 1 False, ())) = Inr ()"
proof -
  let ?h = "bare_card_host\<lparr>sb_clock := Some (\<lambda>_. f_zero)\<rparr>" and ?s = "ring_card\<lparr>block_pending := True\<rparr>"
    and ?t = "SoundBlaster 0x220 7 1 False"
  obtain d x where d: "snapshot_state ?h (ring_card\<lparr>block_pending := True\<rparr>, ()) = (Inr d, x)"
    by (simp add: snapshot_state_def)
  moreover have f: "detection_only ?t = detection_only ?s" "length (channels ?t) = length (channels ?s)"
      "block_pending ?s" "sb_clock ?h = Some (\<lambda>_. f_zero)"
    by (simp_all add: ring_card_def SoundBlaster_def)
  ultimately show ?thesis
    using sb_state_roundtrip [OF d f, of "()"] by (metis fst_conv)
qed

section \<open>Detection through the ports\<close>

text \<open>A byte for the card, seen by the port log and the effect sink on its way.\<close>

lemma port_write_card:
  assumes "sound_blaster (world c) = Some s" "sb_owns_port s p" "u16 p"
  shows "\<exists>log sink. port_write H p v 8 c = on_card (sb_write (card_host H) p v)
      (c\<lparr>world := (world c)\<lparr>port_log := log, observable_effect_sink := sink\<rparr>\<rparr>)"
proof -
  define log where "log = (if length (port_log (world c)) < 4096
      then port_log (world c) @ [(p AND 0xFFFF, v AND 0xFF, 8)] else port_log (world c))"
  have log: "log_write p v 8 c = (Inr (), c\<lparr>world := (world c)\<lparr>port_log := log\<rparr>\<rparr>)"
    by (simp add: log_write_def upd_dos_def log_def)
  have "bindM (route_sound_write H s p v) (\<lambda>taken. if taken then ret () else route_write H p v 8) x
      = thenM (record_effect (PORT_WRITE p (v AND 0xFF) 8)) (on_card (sb_write (card_host H) p v)) x" for x
    using assms(2) by (simp add: route_sound_write_def thenM_def bindM_def Let_def split: prod.splits sum.splits)
  then show ?thesis using assms(1,3) log
    by (auto simp: port_write_def u16_id get_dos_def record_effect_def upd_dos_def Let_def)
qed

lemma port_read_card:
  assumes "sound_blaster (world c) = Some s" "sb_owns_port s p"
  shows "port_read H p 8 c = on_card (sb_read p) c"
  using assms by (simp add: port_read_def get_dos_def)

lemma and_not_low: "(x::int) AND NOT m = x - (x AND m)"
proof -
  have "(x AND NOT m) AND (x AND m) = 0" by (rule bit_eqI) (simp add: bit_simps)
  moreover have "(x AND NOT m) OR (x AND m) = x" by (rule bit_eqI) (auto simp: bit_simps)
  ultimately show ?thesis by (metis add_diff_cancel_right' disjunctive_add_eq_or)
qed

lemma owns_offset:
  assumes "b AND 0xF = 0" "0 \<le> k" "k < 16" "sb_base s = b"
  shows "sb_owns_port s (b + k)"
proof -
  have b: "b = 16 * (b div 16)" using assms(1) by (simp add: mask_simps) presburger
  then have "(b + k) mod 16 = k" using assms(2,3) by presburger
  then show ?thesis using assms(4) by (simp only: sb_owns_port_def and_not_low and_consts)
qed

text \<open>The machine with its card, its PIC and what else the accesses leave alone.\<close>

definition with_card :: "dos cpu \<Rightarrow> sound_blaster_state \<Rightarrow> PIC8259 \<Rightarrow> bool" where
  "with_card c s p \<longleftrightarrow> sound_blaster (world c) = Some s \<and> pic (world c) = Some p"

lemma card_write:
  assumes "with_card c s p" "sb_base s AND 0xF = 0" "u16 (sb_base s + k)" "0 \<le> k" "k < 16"
    "\<And>d. with_card d s p \<Longrightarrow> \<exists>d'. sb_write (card_host H) (sb_base s + k) v (s, d) = (Inr (), (s', d'))
        \<and> pic (world d') = Some p'"
  shows "\<exists>c'. port_write H (sb_base s + k) v 8 c = (Inr (), c') \<and> with_card c' s' p'"
proof -
  obtain log sink where w: "port_write H (sb_base s + k) v 8 c = on_card (sb_write (card_host H) (sb_base s + k) v)
      (c\<lparr>world := (world c)\<lparr>port_log := log, observable_effect_sink := sink\<rparr>\<rparr>)" (is "_ = on_card _ ?d")
    using port_write_card [of c s] owns_offset [OF assms(2,4,5) refl] assms(1,3) by (fastforce simp: with_card_def)
  have d: "with_card ?d s p" using assms(1) by (simp add: with_card_def)
  obtain d' where "sb_write (card_host H) (sb_base s + k) v (s, ?d) = (Inr (), (s', d'))" "pic (world d') = Some p'"
    using assms(6) [OF d] by blast
  then show ?thesis using d w by (simp add: on_card_def with_card_def)
qed

lemma card_read:
  assumes "with_card c s p" "sb_base s AND 0xF = 0" "0 \<le> k" "k < 16"
    "\<And>d :: dos cpu. sb_read (sb_base s + k) (s, d) = (Inr v, (s', d))"
  shows "\<exists>c'. port_read H (sb_base s + k) 8 c = (Inr v, c') \<and> with_card c' s' p"
  using port_read_card [of c s "sb_base s + k" H] owns_offset [OF assms(2-4) refl] assms(1,5)
  by (simp add: with_card_def on_card_def)

text \<open>
  a program detects the card through the ports: after \<open>enable_sound_blaster\<close>, the reset sequence
  (1 then 0 to the reset port) is answered with AAh, the version command with 2 and 1, and the command
  that forces an interrupt (F2h) makes the card's line the next interrupt the PIC acknowledges.
\<close>

theorem card_detected_through_ports:
  assumes "sound_blaster_snapshot (world c) = None" "b AND 0xF = 0" "0 \<le> b" "b < 0xFFF0" "0 \<le> i" "i < 8"
  shows "\<exists>c1 c2 c3 c4 c5 p.
      seqM [enable_sound_blaster H b i d detection, port_write H (b + 6) 1 8, port_write H (b + 6) 0 8] c = (Inr (), c1)
    \<and> port_read H (b + 0xA) 8 c1 = (Inr 0xAA, c2)
    \<and> seqM [port_write H (b + 0xC) 0xE1 8, port_write H (b + 0xC) 0xF2 8] c2 = (Inr (), c3)
    \<and> port_read H (b + 0xA) 8 c3 = (Inr 2, c4) \<and> port_read H (b + 0xA) 8 c4 = (Inr 1, c5)
    \<and> pic (world c5) = Some p \<and> fst (acknowledge p) = Some i"
proof -
  let ?s0 = "SoundBlaster b i d detection" and ?p0 = "PIC8259_init\<lparr>imr := 0x00\<rparr>"
  let ?p1 = "raise_irq i ?p0"
  obtain c0 where c0: "enable_sound_blaster H b i d detection c = (Inr (), c0)" "with_card c0 ?s0 ?p0"
    using assms(1) by (simp add: enable_sound_blaster_def upd_dos_def get_dos_def with_card_def)
  have b: "sb_base ?s0 = b" by (simp add: SoundBlaster_def)
  have u: "u16 (b + 6)" "u16 (b + 0xC)" using assms(3,4) by (simp_all add: u16_def)
  let ?s1 = "?s0\<lparr>resetting := True\<rparr>"
  obtain c1 where c1: "port_write H (b + 6) 1 8 c0 = (Inr (), c1)" "with_card c1 ?s1 ?p0"
    using card_write [of c0 ?s0 ?p0 6 H 1 ?s1 ?p0] c0 b assms u by (auto simp: sb_write_def with_card_def)
  let ?s2 = "?s1\<lparr>resetting := False, dsp_out := [0xAA], sb_log := [SbReset]\<rparr>"
  have l: "sb_log ?s1 = []" "resetting ?s1" "args_needed ?s1 = 0" "sb_irq ?s1 = i" by (simp_all add: SoundBlaster_def)
  obtain c2 where c2: "port_write H (b + 6) 0 8 c1 = (Inr (), c2)" "with_card c2 ?s2 ?p0"
    using card_write [of c1 ?s1 ?p0 6 H 0 ?s2 ?p0] c1 b assms u l by (auto simp: sb_write_def with_card_def)
  let ?s3 = "?s2\<lparr>dsp_out := []\<rparr>"
  obtain c3 where c3: "port_read H (b + 0xA) 8 c2 = (Inr 0xAA, c3)" "with_card c3 ?s3 ?p0"
    using card_read [of c2 ?s2 ?p0 "0xA" "0xAA" ?s3 H] c2 b assms by (auto simp: sb_read_def)
  let ?s4 = "?s3\<lparr>dsp_cmd := 0xE1, dsp_args := [], args_needed := 0, sb_log := [SbReset, SbCommand 0xE1 []],
      dsp_out := [2, 1]\<rparr>"
  obtain c4 where c4: "port_write H (b + 0xC) 0xE1 8 c3 = (Inr (), c4)" "with_card c4 ?s4 ?p0"
    using card_write [of c3 ?s3 ?p0 "0xC" H "0xE1" ?s4 ?p0] c3 b assms u l
    by (auto simp: sb_write_def feed_def exec_cmd_def cmd_arity_def DSP_CMD_ARGS_def with_card_def Let_def)
  let ?s5 = "?s4\<lparr>dsp_cmd := 0xF2, sb_log := [SbReset, SbCommand 0xE1 [], SbCommand 0xF2 []], irq_line := True\<rparr>"
  obtain c5 where c5: "port_write H (b + 0xC) 0xF2 8 c4 = (Inr (), c5)" "with_card c5 ?s5 ?p1"
    using card_write [of c4 ?s4 ?p0 "0xC" H "0xF2" ?s5 ?p1] c4 b assms u l
    by (auto simp: sb_write_def feed_def exec_cmd_def cmd_arity_def DSP_CMD_ARGS_def with_card_def Let_def
        fire_irq_def card_host_def on_host_def upd_dos_def)
  let ?s6 = "?s5\<lparr>dsp_out := [1]\<rparr>" and ?s7 = "?s5\<lparr>dsp_out := []\<rparr>"
  obtain c6 where c6: "port_read H (b + 0xA) 8 c5 = (Inr 2, c6)" "with_card c6 ?s6 ?p1"
    using card_read [of c5 ?s5 ?p1 "0xA" 2 ?s6 H] c5 b assms by (auto simp: sb_read_def)
  obtain c7 where c7: "port_read H (b + 0xA) 8 c6 = (Inr 1, c7)" "with_card c7 ?s7 ?p1"
    using card_read [of c6 ?s6 ?p1 "0xA" 1 ?s7 H] c6 b assms by (auto simp: sb_read_def)
  have "i \<in> {0, 1, 2, 3, 4, 5, 6, 7}" using assms(5,6) by auto
  then have "fst (acknowledge ?p1) = Some i"
    by (auto simp: acknowledge_def raise_irq_def PIC8259_init_def bit_length.simps)
  then show ?thesis using c0(1) c1(1) c2(1) c3(1) c4(1) c5(1) c6(1) c7 unfolding with_card_def
    by (intro exI [of _ c2] exI [of _ c3] exI [of _ c5] exI [of _ c6] exI [of _ c7] exI [of _ ?p1]) simp
qed

text \<open>A machine with no card and no saved one.\<close>

theorem card_detected_through_ports_witness:
  "\<exists>c1 c2. seqM [enable_sound_blaster plain_io 0x220 7 1 False, port_write plain_io 0x226 1 8,
        port_write plain_io 0x226 0 8] io_cpu = (Inr (), c1)
    \<and> port_read plain_io 0x22A 8 c1 = (Inr 0xAA, c2)"
proof -
  have n: "sound_blaster_snapshot (world io_cpu) = None"
    by (simp add: io_cpu_def CPU8086_def DOSMachine_def)
  show ?thesis
    using card_detected_through_ports [OF n, of "0x220" 7 plain_io 1 False] by auto
qed

section \<open>Unreadable counters\<close>

text \<open>
  Reading the address or count of a DMA channel back always fails: every register read but the
  status raises \<open>AttributeError\<close>, whatever the program wrote before.
\<close>

lemma dma_counters_unreadable:
  assumes "port \<noteq> 0x08"
  shows "fst (thenM (sb_dma_controller_write p v) (sb_dma_controller_read port) x) = Inl PyAttributeError"
  using assms by (auto simp: sb_dma_controller_write_def sb_dma_controller_read_def upd_card_def thenM_def
      bindM_def Let_def split: prod.splits)

end
