(* ===== verification/Flat_Mem.thy ===== *)
theory Flat_Mem
  imports Prelude
begin

text \<open>
  The memory of the 32-bit machine: \<open>FlatMemory\<close> of \<open>dos_re/cpu386.py\<close>, one linear byte space, and
  \<open>VGASequencer\<close> of \<open>dos_re/dos4gw.py\<close>, the four planes behind the aperture at A0000h.  A \<open>bytearray\<close>
  is a function and a length, because a slice assignment can change the length.
\<close>

section \<open>Byte arrays\<close>

record bytearray =
  bdata :: "int \<Rightarrow> 8 word"
  blen :: int

definition ba_zero :: "int \<Rightarrow> bytearray" where
  "ba_zero n = \<lparr>bdata = (\<lambda>_. 0), blen = n\<rparr>"

text \<open>An index below the length, a negative one counted from the end, or an IndexError.\<close>

definition ba_index :: "bytearray \<Rightarrow> int \<Rightarrow> int option" where
  "ba_index b a = (if 0 \<le> a \<and> a < blen b then Some a
     else if - blen b \<le> a \<and> a < 0 then Some (a + blen b) else None)"

definition ba_get :: "int \<Rightarrow> (bytearray, int) meth" where
  "ba_get a = (\<lambda>b. case ba_index b a of None \<Rightarrow> (Inl PyIndexError, b) | Some i \<Rightarrow> (Inr (uint (bdata b i)), b))"

definition ba_set :: "int \<Rightarrow> int \<Rightarrow> (bytearray, unit) meth" where
  "ba_set a v = (\<lambda>b. case ba_index b a of None \<Rightarrow> (Inl PyIndexError, b)
     | Some i \<Rightarrow> (Inr (), b\<lparr>bdata := (bdata b)(i := word_of_int v)\<rparr>))"

text \<open>\<open>data[a:a+n]\<close> and \<open>data[a:a+n] = p\<close> for \<open>0 \<le> a\<close>, \<open>0 \<le> n\<close>: the slice is clipped to the array, and
  what is put in its place need not be as long.\<close>

definition ba_slice :: "int \<Rightarrow> int \<Rightarrow> bytearray \<Rightarrow> 8 word list" where
  "ba_slice a n b = map (\<lambda>i. bdata b (a + int i)) [0..<nat (min (a + n) (blen b) - a)]"

definition ba_replace :: "int \<Rightarrow> int \<Rightarrow> 8 word list \<Rightarrow> bytearray \<Rightarrow> bytearray" where
  "ba_replace a n p b =
     (let start = min a (blen b); stop = max start (min (a + n) (blen b)); k = int (length p) in
      \<lparr>bdata = (\<lambda>i. if i < start then bdata b i else if i < start + k then p ! nat (i - start)
                  else bdata b (i - k + (stop - start))),
       blen = blen b + k - (stop - start)\<rparr>)"

section \<open>The planar VGA\<close>

record vga_sequencer =
  planes :: "bytearray list"
  map_mask :: int
  read_map :: int
  write_mode :: int
  bit_mask :: int
  chain4 :: bool
  display_start :: int
  crtc :: "int list"
  vga_seq_index :: int
  vga_gc_index :: int
  vga_crtc_index :: int
  latches :: "int list"

definition VGASequencer :: vga_sequencer where
  "VGASequencer = \<lparr>planes = replicate 4 (ba_zero 0x10000), map_mask = 0x0F, read_map = 0,
     write_mode = 0, bit_mask = 0xFF, chain4 = True, display_start = 0, crtc = replicate 0x20 0,
     vga_seq_index = 0, vga_gc_index = 0, vga_crtc_index = 0, latches = [0, 0, 0, 0]\<rparr>"

type_synonym 'a vga_op = "(vga_sequencer, 'a) meth"

definition on_plane :: "nat \<Rightarrow> (bytearray, 'a) meth \<Rightarrow> 'a vga_op" where
  "on_plane p m = (\<lambda>g. case m (planes g ! p) of (r, b) \<Rightarrow> (r, g\<lparr>planes := (planes g)[p := b]\<rparr>))"

definition plane_on :: "vga_sequencer \<Rightarrow> nat \<Rightarrow> bool" where
  "plane_on g p \<longleftrightarrow> map_mask g AND push_bit p 1 \<noteq> 0"

definition write_planes :: "int \<Rightarrow> (nat \<Rightarrow> int) \<Rightarrow> unit vga_op" where
  "write_planes off v = bindM (getM (\<lambda>g. g)) (\<lambda>g.
     seqM (map (\<lambda>p. if plane_on g p then on_plane p (ba_set off (v p)) else ret ()) [0..<4]))"

definition check_write_mode :: "vga_sequencer \<Rightarrow> unit vga_op" where
  "check_write_mode g = (if write_mode g \<noteq> 0 then raise UnsupportedVGAOperation
     else if bit_mask g \<noteq> 0xFF then raise UnsupportedVGAOperation else ret ())"

definition vga_write :: "int \<Rightarrow> int \<Rightarrow> unit vga_op" where
  "vga_write off v = bindM (getM (\<lambda>g. g)) (\<lambda>g.
     if write_mode g = 1 then write_planes off (\<lambda>p. latches g ! p)
     else thenM (check_write_mode g) (write_planes off (\<lambda>_. v)))"

definition load_latches :: "int \<Rightarrow> unit vga_op" where
  "load_latches off = bindM (mapM (\<lambda>p. on_plane p (ba_get off)) [0..<4]) (\<lambda>l.
     putM (\<lambda>g. g\<lparr>latches := l\<rparr>))"

definition read_plane :: "vga_sequencer \<Rightarrow> nat" where
  "read_plane g = nat (read_map g AND 3)"

definition vga_read :: "int \<Rightarrow> int vga_op" where
  "vga_read off = thenM (load_latches off)
     (bindM (getM read_plane) (\<lambda>p. on_plane p (ba_get off)))"

definition put_slices :: "int \<Rightarrow> int \<Rightarrow> (nat \<Rightarrow> 8 word list) \<Rightarrow> vga_sequencer \<Rightarrow> vga_sequencer" where
  "put_slices dst n p g = g\<lparr>planes := map (\<lambda>i. if plane_on g i then ba_replace dst n (p i) (planes g ! i)
     else planes g ! i) [0..<4]\<rparr>"

definition bulk_copy :: "int \<Rightarrow> int \<Rightarrow> int \<Rightarrow> unit vga_op" where
  "bulk_copy src dst n = bindM (getM (\<lambda>g. g)) (\<lambda>g.
     if n \<le> 0 then ret ()
     else (let overlap = (\<not> (src + n \<le> dst \<or> dst + n \<le> src)) in
       if max src dst + n > 0x10000 \<or> (overlap \<and> src \<noteq> dst) then
         seqM (map (\<lambda>i. bindM (vga_read (src + i)) (vga_write (dst + i))) [0..n - 1])
       else thenM
         (if write_mode g = 1 then putM (put_slices dst n (\<lambda>p. ba_slice src n (planes g ! p)))
          else thenM (check_write_mode g)
            (putM (put_slices dst n (\<lambda>_. ba_slice src n (planes g ! read_plane g)))))
         (load_latches (src + n - 1))))"

text \<open>Width and height from the CRTC registers.\<close>

definition geometry :: "vga_sequencer \<Rightarrow> int \<times> int" where
  "geometry g = (let c = (\<lambda>i. crtc g ! i) in
     if c 0x01 = 0 \<or> c 0x12 = 0 then (320, 200)
     else (let width = (c 0x01 + 1) * 4;
               vde = c 0x12 OR push_bit 8 (drop_bit 1 (c 0x07) AND 1) OR push_bit 9 (drop_bit 6 (c 0x07) AND 1);
               rep = (c 0x09 AND 0x1F) + 1 in
           (width, (vde + 1) div rep)))"

definition render_mode_x :: "int \<Rightarrow> int \<Rightarrow> vga_sequencer \<Rightarrow> 8 word list" where
  "render_mode_x width height g =
     (let stride = (if crtc g ! 0x13 \<noteq> 0 then crtc g ! 0x13 else 40) * 2 in
      concat (map (\<lambda>y. map (\<lambda>x. bdata (planes g ! nat (x AND 3))
          ((display_start g + y * stride + drop_bit 2 x) AND 0xFFFF)) [0..width - 1]) [0..height - 1]))"

section \<open>Flat memory\<close>

record flat_memory =
  fdata :: bytearray
  fsize :: int
  fvga :: "vga_sequencer option"

definition FlatMemory :: "int \<Rightarrow> flat_memory" where
  "FlatMemory n = \<lparr>fdata = ba_zero n, fsize = n, fvga = None\<rparr>"

type_synonym 'a flat_op = "(flat_memory, 'a) meth"

definition on_data :: "(bytearray, 'a) meth \<Rightarrow> 'a flat_op" where
  "on_data m = (\<lambda>f. case m (fdata f) of (r, b) \<Rightarrow> (r, f\<lparr>fdata := b\<rparr>))"

definition on_vga :: "'a vga_op \<Rightarrow> 'a flat_op" where
  "on_vga m = (\<lambda>f. case fvga f of None \<Rightarrow> (Inl PyAttributeError, f)
     | Some g \<Rightarrow> (case m g of (r, g') \<Rightarrow> (r, f\<lparr>fvga := Some g'\<rparr>)))"

text \<open>The planes answer when a device is attached and the first byte is in the aperture.\<close>

definition in_vga :: "flat_memory \<Rightarrow> int \<Rightarrow> bool" where
  "in_vga f a \<longleftrightarrow> fvga f \<noteq> None \<and> 0xA0000 \<le> a \<and> a < 0xB0000"

text \<open>\<open>b0 | (b1 << 8) | ...\<close>, and the bytes of a value.\<close>

definition le_or :: "int list \<Rightarrow> int" where
  "le_or bs = foldr (\<lambda>b acc. b OR push_bit 8 acc) bs 0"

definition le_byte :: "int \<Rightarrow> nat \<Rightarrow> int" where
  "le_byte v i = drop_bit (8 * i) v AND 0xFF"

text \<open>\<open>r8\<close>, \<open>r16\<close>, \<open>r32\<close> and \<open>w8\<close>, \<open>w16\<close>, \<open>w32\<close>, by the number of bytes.\<close>

definition flat_read :: "int \<Rightarrow> nat \<Rightarrow> int flat_op" where
  "flat_read a n = bindM (getM (\<lambda>f. in_vga f a)) (\<lambda>planar.
     bindM (mapM (\<lambda>i. if planar then on_vga (vga_read (a - 0xA0000 + int i))
                      else on_data (ba_get (a + int i))) [0..<n]) (\<lambda>bs. ret (le_or bs)))"

definition flat_write :: "int \<Rightarrow> nat \<Rightarrow> int \<Rightarrow> unit flat_op" where
  "flat_write a n v = bindM (getM (\<lambda>f. in_vga f a)) (\<lambda>planar.
     seqM (map (\<lambda>i. if planar then on_vga (vga_write (a - 0xA0000 + int i) (le_byte v i))
                    else on_data (ba_set (a + int i) (le_byte v i))) [0..<n]))"

definition flat_block :: "int \<Rightarrow> int \<Rightarrow> flat_memory \<Rightarrow> 8 word list" where
  "flat_block a n f = ba_slice a n (fdata f)"

definition flat_load :: "int \<Rightarrow> 8 word list \<Rightarrow> flat_memory \<Rightarrow> flat_memory" where
  "flat_load a p f = f\<lparr>fdata := ba_replace a (int (length p)) p (fdata f)\<rparr>"

end
