(* ===== verification/CPU386.thy ===== *)
theory CPU386
  imports Flat_Mem Doubles
begin

text \<open>
  \<open>CPU386\<close> of \<open>dos_re/cpu386.py\<close>: the state of the 32-bit interpreter and the primitives of its
  instructions: registers, segments, flags, fetch, operand addresses, stack.  The callbacks a host
  installs are the record \<open>env386\<close>; what the host keeps is the \<open>world386\<close> of the state.
\<close>

section \<open>State\<close>

datatype seg386 = SegES | SegCS | SegSS | SegDS | SegFS | SegGS

datatype telemetry386 = HookUnverified386 int string | Interpreted386 int int

record 'w cpu386 =
  mem386 :: flat_memory
  gpr :: "int list"
  eip :: int
  eflags :: int
  sel386 :: "seg386 \<Rightarrow> int"
  selector_bases :: "int \<Rightarrow> int option"
  selector_limits :: "int \<Rightarrow> int option"
  sbase :: "seg386 \<Rightarrow> int"
  halted386 :: bool
  count386 :: int
  st386 :: "f64 list"
  fcw386 :: int
  fsw386 :: int
  cr386 :: "int \<Rightarrow> int option"
  telemetry :: "telemetry386 list option"
  idt :: "int \<Rightarrow> (int \<times> int) option"
  last_hook :: "int option"
  opsize :: nat
  adsize :: nat
  segovr :: "seg386 option"
  defseg :: seg386
  irq_decim :: int
  world386 :: 'w

definition CPU386_init :: "flat_memory \<Rightarrow> int \<Rightarrow> int \<Rightarrow> int \<Rightarrow> int \<Rightarrow> 'w \<Rightarrow> 'w cpu386" where
  "CPU386_init m entry stack cs0 ds0 w = \<lparr>mem386 = m, gpr = [0, 0, 0, 0, stack AND 0xFFFFFFFF, 0, 0, 0],
     eip = entry AND 0xFFFFFFFF, eflags = 0x0202,
     sel386 = (\<lambda>s. case s of SegCS \<Rightarrow> cs0 | SegFS \<Rightarrow> 0 | SegGS \<Rightarrow> 0 | _ \<Rightarrow> ds0),
     selector_bases = Map.empty, selector_limits = Map.empty, sbase = (\<lambda>_. 0), halted386 = False,
     count386 = 0, st386 = [], fcw386 = 0x037F, fsw386 = 0x0000,
     cr386 = [0 \<mapsto> 0x00000013, 2 \<mapsto> 0, 3 \<mapsto> 0, 4 \<mapsto> 0], telemetry = None, idt = Map.empty,
     last_hook = None, opsize = 4, adsize = 4, segovr = None, defseg = SegDS, irq_decim = 0,
     world386 = w\<rparr>"

type_synonym ('w, 'a) op386 = "('w cpu386, 'a) meth"

definition get386 :: "('w cpu386 \<Rightarrow> 'a) \<Rightarrow> ('w, 'a) op386" where "get386 f = getM f"

definition upd386 :: "('w cpu386 \<Rightarrow> 'w cpu386) \<Rightarrow> ('w, unit) op386" where "upd386 f = putM f"

definition on_flat :: "'a flat_op \<Rightarrow> ('w, 'a) op386" where
  "on_flat m = (\<lambda>c. case m (mem386 c) of (r, f) \<Rightarrow> (r, c\<lparr>mem386 := f\<rparr>))"

section \<open>Callbacks\<close>

record 'w env386 =
  interrupt386 :: "(int \<Rightarrow> ('w, unit) op386) option"
  port_reader386 :: "(int \<Rightarrow> nat \<Rightarrow> ('w, int) op386) option"
  port_writer386 :: "(int \<Rightarrow> int \<Rightarrow> nat \<Rightarrow> ('w, unit) op386) option"
  pending_irq386 :: "('w, int option) op386 option"
  irq_eoi :: "(int \<Rightarrow> ('w, unit) op386) option"
  hooks386 :: "int \<Rightarrow> ('w, unit) op386 option"
  hook_names386 :: "int \<Rightarrow> string option"
  hook_verifier386 :: "(int \<Rightarrow> ('w, unit) op386 \<Rightarrow> string \<Rightarrow> ('w, unit) op386) option"
  passthrough386 :: "int \<Rightarrow> bool"
  entry_probes :: "int \<Rightarrow> ('w, unit) op386 option"
  floats386 :: float_ops

definition env386_new :: "float_ops \<Rightarrow> 'w env386" where
  "env386_new fo = \<lparr>interrupt386 = None, port_reader386 = None, port_writer386 = None, pending_irq386 = None,
     irq_eoi = None, hooks386 = (\<lambda>_. None), hook_names386 = (\<lambda>_. None), hook_verifier386 = None,
     passthrough386 = (\<lambda>_. False), entry_probes = (\<lambda>_. None), floats386 = fo\<rparr>"

section \<open>Numbers\<close>

definition mask32 :: "int \<Rightarrow> int" where "mask32 v = v AND 0xFFFFFFFF"

definition sign386 :: "int \<Rightarrow> nat \<Rightarrow> int" where
  "sign386 v bits = (let m = push_bit (bits - 1) 1 in (v AND (m - 1)) - (v AND m))"

definition ones :: "nat \<Rightarrow> int" where "ones bits = push_bit bits 1 - 1"

section \<open>Segments and registers\<close>

definition set_seg :: "seg386 \<Rightarrow> int \<Rightarrow> ('w, unit) op386" where
  "set_seg name v = upd386 (\<lambda>c. let sel = v AND 0xFFFF in
     c\<lparr>sel386 := (sel386 c)(name := sel),
       sbase := (sbase c)(name := (case selector_bases c (sel AND 0xFFFC) of None \<Rightarrow> 0 | Some b \<Rightarrow> b))\<rparr>)"

definition EAX :: int where "EAX = 0"
definition ECX :: int where "ECX = 1"
definition EDX :: int where "EDX = 2"
definition EBX :: int where "EBX = 3"
definition ESP :: int where "ESP = 4"
definition EBP :: int where "EBP = 5"
definition ESI :: int where "ESI = 6"
definition EDI :: int where "EDI = 7"

lemmas gpr_defs = EAX_def ECX_def EDX_def EBX_def ESP_def EBP_def ESI_def EDI_def

definition reg_val :: "int \<Rightarrow> nat \<Rightarrow> int list \<Rightarrow> int" where
  "reg_val i sz r =
     (if sz = 4 then r ! nat i
      else if sz = 2 then r ! nat i AND 0xFFFF
      else if i < 4 then r ! nat i AND 0xFF
      else drop_bit 8 (r ! nat (i - 4)) AND 0xFF)"

definition reg_put :: "int \<Rightarrow> nat \<Rightarrow> int \<Rightarrow> int list \<Rightarrow> int list" where
  "reg_put i sz v r =
     (if sz = 4 then r[nat i := v AND 0xFFFFFFFF]
      else if sz = 2 then r[nat i := (r ! nat i AND 0xFFFF0000) OR (v AND 0xFFFF)]
      else if i < 4 then r[nat i := (r ! nat i AND 0xFFFFFF00) OR (v AND 0xFF)]
      else r[nat (i - 4) := (r ! nat (i - 4) AND 0xFFFF00FF) OR push_bit 8 (v AND 0xFF)])"

definition reg386 :: "int \<Rightarrow> nat \<Rightarrow> ('w, int) op386" where
  "reg386 i sz = get386 (\<lambda>c. reg_val i sz (gpr c))"

definition set_reg386 :: "int \<Rightarrow> nat \<Rightarrow> int \<Rightarrow> ('w, unit) op386" where
  "set_reg386 i sz v = upd386 (\<lambda>c. c\<lparr>gpr := reg_put i sz v (gpr c)\<rparr>)"

text \<open>\<open>self.r[i] = v\<close>.\<close>

definition put_r :: "int \<Rightarrow> int \<Rightarrow> 'w cpu386 \<Rightarrow> 'w cpu386" where
  "put_r i v c = c\<lparr>gpr := (gpr c)[nat i := v]\<rparr>"

section \<open>Flags\<close>

definition get_flag386 :: "int \<Rightarrow> ('w, bool) op386" where
  "get_flag386 f = get386 (\<lambda>c. eflags c AND f \<noteq> 0)"

definition flag_set :: "int \<Rightarrow> bool \<Rightarrow> int \<Rightarrow> int" where
  "flag_set f on w = (if on then w OR f else w AND NOT f) OR 0x0002"

definition set_flag386 :: "int \<Rightarrow> bool \<Rightarrow> ('w, unit) op386" where
  "set_flag386 f on = upd386 (\<lambda>c. c\<lparr>eflags := flag_set f on (eflags c)\<rparr>)"

definition result_flags :: "int \<Rightarrow> nat \<Rightarrow> int \<Rightarrow> int" where
  "result_flags r bits f =
     (let f = (if r = 0 then f OR ZF else f);
          f = (if r AND push_bit (bits - 1) 1 \<noteq> 0 then f OR SF else f) in
      if PARITY (r AND 0xFF) then f OR PF else f)"

definition flags_logic :: "int \<Rightarrow> nat \<Rightarrow> int \<Rightarrow> int" where
  "flags_logic r bits w =
     result_flags (r AND ones bits) bits (w AND NOT (CF OR PF OR ZF OR SF OR OF)) OR 0x0002"

definition flags_add :: "int \<Rightarrow> int \<Rightarrow> int \<Rightarrow> nat \<Rightarrow> int \<Rightarrow> int \<Rightarrow> int" where
  "flags_add a b res bits carry w =
     (let r = res AND ones bits; sgn = push_bit (bits - 1) 1;
          f = w AND NOT (CF OR PF OR AF OR ZF OR SF OR OF);
          f = (if res > ones bits then f OR CF else f);
          f = result_flags r bits f;
          f = (if (a AND 0xF) + (b AND 0xF) + carry > 0xF then f OR AF else f);
          f = (if (NOT (a XOR b) AND (a XOR r)) AND sgn \<noteq> 0 then f OR OF else f) in
      f OR 0x0002)"

definition flags_sub :: "int \<Rightarrow> int \<Rightarrow> int \<Rightarrow> nat \<Rightarrow> int \<Rightarrow> int \<Rightarrow> int" where
  "flags_sub a b res bits carry w =
     (let r = res AND ones bits; sgn = push_bit (bits - 1) 1;
          f = w AND NOT (CF OR PF OR AF OR ZF OR SF OR OF);
          f = (if res < 0 then f OR CF else f);
          f = result_flags r bits f;
          f = (if (a AND 0xF) - (b AND 0xF) - carry < 0 then f OR AF else f);
          f = (if ((a XOR b) AND (a XOR r)) AND sgn \<noteq> 0 then f OR OF else f) in
      f OR 0x0002)"

definition upd_eflags :: "(int \<Rightarrow> int) \<Rightarrow> ('w, unit) op386" where
  "upd_eflags f = upd386 (\<lambda>c. c\<lparr>eflags := f (eflags c)\<rparr>)"

section \<open>Fetch\<close>

definition set_eip :: "int \<Rightarrow> ('w, unit) op386" where
  "set_eip v = upd386 (\<lambda>c. c\<lparr>eip := v\<rparr>)"

definition fetch8_386 :: "('w, int) op386" where
  "fetch8_386 = bindM (get386 eip) (\<lambda>a. bindM (on_flat (on_data (ba_get a))) (\<lambda>v.
     thenM (set_eip (mask32 (a + 1))) (ret v)))"

text \<open>\<open>_fetch16\<close> and \<open>_fetch32\<close> move EIP first.\<close>

definition fetch_wide :: "nat \<Rightarrow> ('w, int) op386" where
  "fetch_wide n = bindM (get386 eip) (\<lambda>a. thenM (set_eip (mask32 (a + int n))) (on_flat (flat_read a n)))"

definition fetch_imm386 :: "nat \<Rightarrow> ('w, int) op386" where
  "fetch_imm386 sz = (if sz = 1 then fetch8_386 else if sz = 2 then fetch_wide 2 else fetch_wide 4)"

definition fetch_sign8 :: "('w, int) op386" where
  "fetch_sign8 = bindM fetch8_386 (\<lambda>d. ret (sign386 d 8))"

section \<open>Operands\<close>

definition set_defseg :: "seg386 \<Rightarrow> ('w, unit) op386" where
  "set_defseg s = upd386 (\<lambda>c. c\<lparr>defseg := s\<rparr>)"

definition displacement :: "int \<Rightarrow> nat \<Rightarrow> ('w, int) op386" where
  "displacement md wide = (if md = 1 then fetch_sign8 else if md = 2 then fetch_wide wide else ret 0)"

definition sib_base :: "int \<Rightarrow> ('w, int) op386" where
  "sib_base md = bindM fetch8_386 (\<lambda>sib.
     let scale = nat (drop_bit 6 sib); index = drop_bit 3 sib AND 7; base = sib AND 7 in
     bindM (get386 (\<lambda>c. if index \<noteq> 4 then push_bit scale (gpr c ! nat index) else 0)) (\<lambda>addr.
       if base = 5 \<and> md = 0 then bindM (fetch_wide 4) (\<lambda>d. ret (addr + d))
       else bindM (get386 (\<lambda>c. gpr c ! nat base)) (\<lambda>b.
         thenM (if base = ESP \<or> base = EBP then set_defseg SegSS else ret ()) (ret (addr + b)))))"

definition addr32 :: "int \<Rightarrow> int \<Rightarrow> ('w, int) op386" where
  "addr32 md rm = thenM (set_defseg SegDS)
     (if rm \<noteq> 4 \<and> rm = 5 \<and> md = 0 then fetch_wide 4
      else bindM (if rm = 4 then sib_base md
           else bindM (get386 (\<lambda>c. gpr c ! nat rm)) (\<lambda>a.
             thenM (if rm = EBP then set_defseg SegSS else ret ()) (ret a))) (\<lambda>addr.
        bindM (displacement md 4) (\<lambda>d. ret (mask32 (addr + d)))))"

definition base16 :: "int \<Rightarrow> int list \<Rightarrow> int" where
  "base16 rm r =
     (let bx = r ! 3 AND 0xFFFF; bp = r ! 5 AND 0xFFFF; si = r ! 6 AND 0xFFFF; di = r ! 7 AND 0xFFFF in
      [bx + si, bx + di, bp + si, bp + di, si, di, bp, bx] ! nat rm)"

definition addr16 :: "int \<Rightarrow> int \<Rightarrow> ('w, int) op386" where
  "addr16 md rm = thenM (set_defseg (if rm = 2 \<or> rm = 3 \<or> (rm = 6 \<and> md \<noteq> 0) then SegSS else SegDS))
     (bindM (get386 (\<lambda>c. base16 rm (gpr c))) (\<lambda>base.
        if rm = 6 \<and> md = 0 then thenM (set_defseg SegDS) (fetch_wide 2)
        else bindM (displacement md 2) (\<lambda>d. ret ((base + d) AND 0xFFFF))))"

definition memaddr :: "int \<Rightarrow> int \<Rightarrow> ('w, int) op386" where
  "memaddr md rm = bindM (get386 adsize) (\<lambda>asz.
     bindM (if asz = 4 then addr32 md rm else addr16 md rm) (\<lambda>off.
     get386 (\<lambda>c. mask32 (sbase c (case segovr c of Some s \<Rightarrow> s | None \<Rightarrow> defseg c) + off))))"

text \<open>\<open>(reg, is_reg, value)\<close>.\<close>

type_synonym operand386 = "bool \<times> int"

definition modrm386 :: "('w, int \<times> operand386) op386" where
  "modrm386 = bindM fetch8_386 (\<lambda>m.
     let md = drop_bit 6 m; reg = drop_bit 3 m AND 7; rm = m AND 7 in
     if md = 3 then ret (reg, True, rm) else bindM (memaddr md rm) (\<lambda>a. ret (reg, False, a)))"

definition rm_read :: "operand386 \<Rightarrow> nat \<Rightarrow> ('w, int) op386" where
  "rm_read opd sz = (if fst opd then reg386 (snd opd) sz else on_flat (flat_read (snd opd) sz))"

definition rm_write :: "operand386 \<Rightarrow> nat \<Rightarrow> int \<Rightarrow> ('w, unit) op386" where
  "rm_write opd sz v =
     (if fst opd then set_reg386 (snd opd) sz v else on_flat (flat_write (snd opd) sz v))"

section \<open>Stack\<close>

definition push386 :: "int \<Rightarrow> nat \<Rightarrow> ('w, unit) op386" where
  "push386 v sz =
     thenM (upd386 (\<lambda>c. put_r ESP (mask32 (gpr c ! 4 - int sz)) c))
       (bindM (get386 (\<lambda>c. sbase c SegSS + gpr c ! 4)) (\<lambda>a. on_flat (flat_write a sz v)))"

definition pop386 :: "nat \<Rightarrow> ('w, int) op386" where
  "pop386 sz =
     bindM (get386 (\<lambda>c. sbase c SegSS + gpr c ! 4)) (\<lambda>a.
     bindM (on_flat (flat_read a sz)) (\<lambda>v.
     thenM (upd386 (\<lambda>c. put_r ESP (mask32 (gpr c ! 4 + int sz)) c)) (ret v)))"

text \<open>Entry into an installed handler; whether there was one.\<close>

definition deliver_interrupt386 :: "int \<Rightarrow> ('w, bool) op386" where
  "deliver_interrupt386 vec = bindM (get386 (\<lambda>c. idt c vec)) (\<lambda>h. case h of None \<Rightarrow> ret False
     | Some (sel, off) \<Rightarrow>
         thenM (bindM (get386 eflags) (\<lambda>v. push386 v 4))
        (thenM (bindM (get386 (\<lambda>c. sel386 c SegCS)) (\<lambda>v. push386 v 4))
        (thenM (bindM (get386 eip) (\<lambda>v. push386 v 4))
        (thenM (upd_eflags (\<lambda>w. w AND NOT (IF OR TF)))
        (thenM (set_seg SegCS sel)
        (thenM (set_eip (mask32 off)) (ret True)))))))"

end
