(* ===== verification/CPU386_Alu.thy ===== *)
theory CPU386_Alu
  imports CPU386
begin

text \<open>
  The arithmetic of \<open>dos_re/cpu386.py\<close>: \<open>_alu_op\<close>, shifts and rotates, multiplication and division,
  bit tests, double shifts and the conditions.  A shift by a negative count raises, as in Python.
\<close>

section \<open>Two operands\<close>

definition write_back :: "(operand386 \<times> nat) option \<Rightarrow> int \<Rightarrow> ('w, unit) op386" where
  "write_back dst v = (case dst of None \<Rightarrow> ret () | Some (opd, sz) \<Rightarrow> rm_write opd sz v)"

definition alu_op :: "int \<Rightarrow> int \<Rightarrow> int \<Rightarrow> nat \<Rightarrow> (operand386 \<times> nat) option \<Rightarrow> ('w, unit) op386" where
  "alu_op aluop a b bits dst = bindM (get386 (\<lambda>c. b2i (eflags c AND CF \<noteq> 0))) (\<lambda>cf.
     let finish = (\<lambda>res flg. thenM (upd_eflags flg) (write_back dst (res AND ones bits))) in
     if aluop = 0 then finish (a + b) (flags_add a b (a + b) bits 0)
     else if aluop = 1 then finish (a OR b) (flags_logic (a OR b) bits)
     else if aluop = 2 then finish (a + b + cf) (flags_add a b (a + b + cf) bits cf)
     else if aluop = 3 then finish (a - b - cf) (flags_sub a b (a - b - cf) bits cf)
     else if aluop = 4 then finish (a AND b) (flags_logic (a AND b) bits)
     else if aluop = 5 then finish (a - b) (flags_sub a b (a - b) bits 0)
     else if aluop = 6 then finish (a XOR b) (flags_logic (a XOR b) bits)
     else upd_eflags (flags_sub a b (a - b) bits 0))"

definition imul_store :: "int \<Rightarrow> nat \<Rightarrow> int \<Rightarrow> int \<Rightarrow> ('w, unit) op386" where
  "imul_store reg sz a b =
     (let bits = sz * 8; full = a * b; res = full AND ones bits; ovf = (sign386 res bits \<noteq> full) in
      thenM (set_reg386 reg sz res) (thenM (set_flag386 CF ovf) (set_flag386 OF ovf)))"

section \<open>Shifts and rotates\<close>

definition py_shr :: "int \<Rightarrow> int \<Rightarrow> ('w, int) op386" where
  "py_shr v n = (if n < 0 then raise PyValueError else ret (drop_bit (nat n) v))"

definition py_shl :: "int \<Rightarrow> int \<Rightarrow> ('w, int) op386" where
  "py_shl v n = (if n < 0 then raise PyValueError else ret (push_bit (nat n) v))"

definition shift_done :: "operand386 \<Rightarrow> nat \<Rightarrow> int \<Rightarrow> bool \<Rightarrow> bool option \<Rightarrow> ('w, unit) op386" where
  "shift_done opd sz res cf ovf =
     thenM (rm_write opd sz res)
    (thenM (upd_eflags (flags_logic res (sz * 8)))
    (thenM (set_flag386 CF cf)
     (case ovf of None \<Rightarrow> ret () | Some b \<Rightarrow> set_flag386 OF b)))"

text \<open>One bit through the carry, left (RCL) or right (RCR).\<close>

definition rotate_carry :: "bool \<Rightarrow> nat \<Rightarrow> int \<times> int \<Rightarrow> int \<times> int" where
  "rotate_carry left bits = (\<lambda>(v, cf).
     if left then ((push_bit 1 v OR cf) AND ones bits, drop_bit (bits - 1) v AND 1)
     else (drop_bit 1 v OR push_bit (bits - 1) cf, v AND 1))"

definition shift386 :: "int \<Rightarrow> operand386 \<Rightarrow> nat \<Rightarrow> int \<Rightarrow> ('w, unit) op386" where
  "shift386 sub opd sz count =
     (let bits = sz * 8; n = count AND 0x1F; k = nat n in
      bindM (rm_read opd sz) (\<lambda>v.
        if n = 0 then ret ()
        else if sub = 4 \<or> sub = 6 then
          bindM (py_shr v (int bits - n)) (\<lambda>x.
            let res = push_bit k v AND ones bits; cf = x AND 1 in
            shift_done opd sz res (cf \<noteq> 0)
              (if n = 1 then Some ((drop_bit (bits - 1) res AND 1) XOR cf \<noteq> 0) else None))
        else if sub = 5 then
          shift_done opd sz (drop_bit k (v AND ones bits)) (drop_bit (k - 1) v AND 1 \<noteq> 0)
            (if n = 1 then Some (drop_bit (bits - 1) v AND 1 \<noteq> 0) else None)
        else if sub = 7 then
          (let sv = sign386 v bits in
           shift_done opd sz (drop_bit k sv AND ones bits) (drop_bit (k - 1) sv AND 1 \<noteq> 0)
            (if n = 1 then Some False else None))
        else if sub = 0 \<or> sub = 1 then
          (let rc = k mod bits in
           if rc = 0 then ret ()
           else if sub = 0 then
             (let res = (push_bit rc v OR drop_bit (bits - rc) v) AND ones bits in
              thenM (set_flag386 CF (res AND 1 \<noteq> 0)) (rm_write opd sz res))
           else
             (let res = (drop_bit rc v OR push_bit (bits - rc) v) AND ones bits in
              thenM (set_flag386 CF (drop_bit (bits - 1) res AND 1 \<noteq> 0)) (rm_write opd sz res)))
        else
          bindM (get386 (\<lambda>c. b2i (eflags c AND CF \<noteq> 0))) (\<lambda>cf.
            case (rotate_carry (sub = 2) bits ^^ (k mod (bits + 1))) (v, cf) of (res, cf) \<Rightarrow>
              thenM (rm_write opd sz res) (set_flag386 CF (cf \<noteq> 0)))))"

definition shldrd :: "bool \<Rightarrow> operand386 \<Rightarrow> int \<Rightarrow> int \<Rightarrow> nat \<Rightarrow> ('w, unit) op386" where
  "shldrd left opd src n osz =
     (let bits = osz * 8; k = nat n in
      if n = 0 then ret ()
      else bindM (rm_read opd osz) (\<lambda>dst.
        bindM (if left then bindM (py_shr src (int bits - n)) (\<lambda>x. ret ((push_bit k dst OR x) AND ones bits))
               else bindM (py_shl src (int bits - n)) (\<lambda>x. ret ((drop_bit k dst OR x) AND ones bits))) (\<lambda>res.
        bindM (if left then py_shr dst (int bits - n) else py_shr dst (n - 1)) (\<lambda>x.
          thenM (rm_write opd osz res)
         (thenM (upd_eflags (flags_logic res bits)) (set_flag386 CF (x AND 1 \<noteq> 0)))))))"

section \<open>Multiplication and division\<close>

definition muldiv_mul :: "int \<Rightarrow> nat \<Rightarrow> bool \<Rightarrow> ('w, unit) op386" where
  "muldiv_mul v sz sgnd =
     (let bits = sz * 8 in
      bindM (reg386 EAX sz) (\<lambda>a.
        let prod = (if sgnd then sign386 a bits * sign386 v bits else a * v);
            hi = (if sz = 1 then drop_bit 8 prod AND 0xFF else drop_bit bits prod AND ones bits);
            ovf = (if sgnd then prod \<noteq> sign386 (prod AND ones bits) bits else hi \<noteq> 0) in
        thenM (if sz = 1 then set_reg386 EAX 2 (prod AND 0xFFFF)
               else thenM (set_reg386 EAX sz (prod AND ones bits)) (set_reg386 EDX sz hi))
       (thenM (set_flag386 CF ovf) (set_flag386 OF ovf))))"

text \<open>
  \<open>int(a / b)\<close> of two integers: Python's quotient is the double nearest to the exact one (ties to
  even), and \<open>int\<close> truncates it.  With \<open>2 ^ k \<le> |a / b| < 2 ^ (k + 1)\<close> the double has \<open>52 - k\<close> fraction
  bits.
\<close>

definition scale_frac :: "int \<Rightarrow> int \<Rightarrow> int \<Rightarrow> int \<times> int" where
  "scale_frac p q n = (if n \<ge> 0 then (p * 2 ^ nat n, q) else (p, q * 2 ^ nat (- n)))"

definition quot_exponent :: "int \<Rightarrow> int \<Rightarrow> int" where
  "quot_exponent p q =
     (let k = int (bit_len (nat p)) - int (bit_len (nat q)); (x, y) = scale_frac p q (- k) in
      if x \<ge> y then k else k - 1)"

definition py_int_quot :: "int \<Rightarrow> int \<Rightarrow> int" where
  "py_int_quot a b =
     (if a = 0 then 0
      else let p = abs a; q = abs b; n = 52 - quot_exponent p q; m = round_even (scale_frac p q n) in
        sgn a * sgn b * (if n \<ge> 0 then m div 2 ^ nat n else m * 2 ^ nat (- n)))"

definition interrupt_386 :: "'w env386 \<Rightarrow> int \<Rightarrow> ('w, unit) op386" where
  "interrupt_386 E num = (case interrupt386 E of None \<Rightarrow> raise UnsupportedInstruction | Some h \<Rightarrow> h num)"

definition muldiv_div :: "'w env386 \<Rightarrow> int \<Rightarrow> nat \<Rightarrow> bool \<Rightarrow> ('w, unit) op386" where
  "muldiv_div E v sz sgnd =
     (if v = 0 then interrupt_386 E 0
      else let bits = sz * 8 in
        bindM (if sz = 1 then reg386 EAX 2
               else bindM (reg386 EDX sz) (\<lambda>d. bindM (reg386 EAX sz) (\<lambda>a. ret (push_bit bits d OR a)))) (\<lambda>n.
          let dividend = (if sgnd then sign386 n (bits * 2) else n);
              d = (if sgnd then sign386 v bits else v);
              q = (if sgnd then py_int_quot dividend d else dividend div d);
              r = (if sgnd then dividend - q * d else dividend mod d) in
          if sz = 1 then thenM (set_reg386 0 1 (q AND 0xFF)) (set_reg386 4 1 (r AND 0xFF))
          else thenM (set_reg386 EAX sz (q AND ones bits)) (set_reg386 EDX sz (r AND ones bits))))"

definition grp3_op :: "'w env386 \<Rightarrow> int \<Rightarrow> operand386 \<Rightarrow> nat \<Rightarrow> int \<Rightarrow> ('w, unit) op386" where
  "grp3_op E reg opd sz imm =
     (let bits = sz * 8 in
      bindM (rm_read opd sz) (\<lambda>v.
        if reg = 0 \<or> reg = 1 then upd_eflags (flags_logic (v AND imm) bits)
        else if reg = 2 then rm_write opd sz (NOT v AND ones bits)
        else if reg = 3 then
          thenM (upd_eflags (flags_sub 0 v (- v) bits 0)) (rm_write opd sz ((- v) AND ones bits))
        else if reg = 4 then muldiv_mul v sz False
        else if reg = 5 then muldiv_mul v sz True
        else if reg = 6 then muldiv_div E v sz False
        else muldiv_div E v sz True))"

section \<open>Bits\<close>

datatype bit_kind = BT | BTS | BTR | BTC

definition bit_change :: "bit_kind \<Rightarrow> nat \<Rightarrow> int \<Rightarrow> int" where
  "bit_change kind b v = (case kind of BT \<Rightarrow> v | BTS \<Rightarrow> v OR push_bit b 1
     | BTR \<Rightarrow> v AND NOT (push_bit b 1) | BTC \<Rightarrow> v XOR push_bit b 1)"

definition bit_op_do :: "bit_kind \<Rightarrow> operand386 \<Rightarrow> nat \<Rightarrow> int \<Rightarrow> ('w, unit) op386" where
  "bit_op_do kind opd osz n =
     bindM (if fst opd then
         (let b = nat (n mod (int osz * 8)) in
          bindM (reg386 (snd opd) osz) (\<lambda>v.
            thenM (if kind \<noteq> BT then set_reg386 (snd opd) osz (bit_change kind b v) else ret ())
              (ret (drop_bit b v AND 1))))
       else
         (let a = snd opd + drop_bit 3 n; b = nat (n AND 7) in
          bindM (on_flat (flat_read a 1)) (\<lambda>v.
            thenM (if kind \<noteq> BT then on_flat (flat_write a 1 (bit_change kind b v)) else ret ())
              (ret (drop_bit b v AND 1)))))
       (\<lambda>cf. set_flag386 CF (cf \<noteq> 0))"

section \<open>Conditions\<close>

definition cond_word :: "int \<Rightarrow> int \<Rightarrow> bool" where
  "cond_word cc f =
     (let ovf = (f AND OF \<noteq> 0); sf = (f AND SF \<noteq> 0); zf = (f AND ZF \<noteq> 0); cf = (f AND CF \<noteq> 0);
          pf = (f AND PF \<noteq> 0) in
      [ovf, \<not> ovf, cf, \<not> cf, zf, \<not> zf, cf \<or> zf, \<not> (cf \<or> zf), sf, \<not> sf, pf, \<not> pf, sf \<noteq> ovf, sf = ovf,
       zf \<or> sf \<noteq> ovf, \<not> zf \<and> sf = ovf] ! nat cc)"

definition cond386 :: "int \<Rightarrow> ('w, bool) op386" where
  "cond386 cc = get386 (\<lambda>c. cond_word cc (eflags c))"

end
