(* ===== verification/CPU386_String.thy ===== *)
theory CPU386_String
  imports CPU386_Alu
begin

text \<open>
  The string instructions of \<open>dos_re/cpu386.py\<close>: the element loop of \<open>_string\<close> and its fast path
  \<open>_bulk_string\<close>, which moves a forward REP MOVS or STOS as slices of the memory and of the planes.
\<close>

section \<open>The bulk path\<close>

definition vga_region :: "flat_memory \<Rightarrow> int \<Rightarrow> bool" where
  "vga_region f a \<longleftrightarrow> in_vga f a"

definition advance_bulk :: "bool \<Rightarrow> int \<Rightarrow> ('w, unit) op386" where
  "advance_bulk movs n = upd386 (\<lambda>c. let r = gpr c in
     c\<lparr>gpr := (if movs then r[6 := mask32 (r ! 6 + n)] else r)[7 := mask32 (r ! 7 + n), 1 := 0]\<rparr>)"

text \<open>The source bytes: a plane slice, with the latches of its last byte; a slice of memory; or the
  repeated accumulator.  \<open>None\<close> is the fall back to the loop.\<close>

definition bulk_source :: "bool \<Rightarrow> bool \<Rightarrow> int \<Rightarrow> int \<Rightarrow> nat \<Rightarrow> int \<Rightarrow> ('w, 8 word list option) op386" where
  "bulk_source movs planar src n sz reps =
     (if movs \<and> planar then
        (let off = src - 0xA0000 in
         if off + n > 0x10000 then ret None
         else bindM (get386 (\<lambda>c. fvga (mem386 c))) (\<lambda>g.
           case g of None \<Rightarrow> raise PyAttributeError
           | Some g \<Rightarrow> thenM (on_flat (on_vga (load_latches (off + n - 1))))
               (ret (Some (ba_slice off n (planes g ! read_plane g))))))
      else if movs then get386 (\<lambda>c. Some (flat_block src n (mem386 c)))
      else bindM (reg386 EAX sz) (\<lambda>v.
        ret (Some (concat (replicate (nat reps) (map (\<lambda>i. word_of_int (le_byte v i)) [0..<sz]))))))"

definition bulk_store :: "bool \<Rightarrow> int \<Rightarrow> int \<Rightarrow> 8 word list \<Rightarrow> ('w, bool) op386" where
  "bulk_store planar dst n data =
     (if planar then bindM (get386 (\<lambda>c. fvga (mem386 c))) (\<lambda>g. case g of
          None \<Rightarrow> raise PyAttributeError
        | Some g \<Rightarrow>
            (let doff = dst - 0xA0000 in
             if write_mode g = 1 then ret False
             else if doff + n > 0x10000 then ret False
             else thenM (on_flat (on_vga (putM (put_slices doff n (\<lambda>_. data))))) (ret True)))
      else thenM (upd386 (\<lambda>c. c\<lparr>mem386 := (mem386 c)\<lparr>fdata := ba_replace dst n data (fdata (mem386 c))\<rparr>\<rparr>))
        (ret True))"

definition bulk_string :: "int \<Rightarrow> nat \<Rightarrow> int \<Rightarrow> int \<Rightarrow> ('w, bool) op386" where
  "bulk_string op sz sb db = bindM (get386 (\<lambda>c. (gpr c, mem386 c))) (\<lambda>(r, f).
     let reps = r ! 1; n = reps * int sz; movs = (op = 0xA4 \<or> op = 0xA5);
         dst = mask32 (db + r ! 7); src = (if movs then mask32 (sb + r ! 6) else 0);
         dp = vga_region f dst; sp = (movs \<and> vga_region f src) in
     if reps = 0 then thenM (upd386 (\<lambda>c. put_r ECX 0 c)) (ret True)
     else if dp \<noteq> vga_region f (dst + n - 1) then ret False
     else if movs \<and> sp \<noteq> vga_region f (src + n - 1) then ret False
     else if (dp \<or> sp) \<and> (case fvga f of None \<Rightarrow> False
         | Some g \<Rightarrow> bit_mask g \<noteq> 0xFF \<or> (dp \<and> write_mode g \<noteq> 0 \<and> write_mode g \<noteq> 1)) then ret False
     else if movs \<and> sp \<and> dp then
       thenM (on_flat (on_vga (bulk_copy (src - 0xA0000) (dst - 0xA0000) n)))
      (thenM (advance_bulk True n) (ret True))
     else if movs \<and> \<not> sp \<and> \<not> dp \<and> src < dst \<and> dst < src + n then ret False
     else bindM (bulk_source movs sp src n sz reps) (\<lambda>data. case data of None \<Rightarrow> ret False
       | Some p \<Rightarrow> bindM (bulk_store dp dst n p) (\<lambda>stored.
           if stored then thenM (advance_bulk movs n) (ret True) else ret False)))"

section \<open>The element loop\<close>

definition string_once :: "int \<Rightarrow> nat \<Rightarrow> nat \<Rightarrow> int \<Rightarrow> int \<Rightarrow> int \<Rightarrow> ('w, unit) op386" where
  "string_once op sz asz st sb db = bindM (reg386 ESI asz) (\<lambda>si. bindM (reg386 EDI asz) (\<lambda>di.
     if op = 0xA4 \<or> op = 0xA5 then
       bindM (on_flat (flat_read (sb + si) sz)) (\<lambda>v.
       thenM (on_flat (flat_write (db + di) sz v))
      (thenM (set_reg386 ESI asz (si + st)) (set_reg386 EDI asz (di + st))))
     else if op = 0xAA \<or> op = 0xAB then
       bindM (reg386 EAX sz) (\<lambda>v. thenM (on_flat (flat_write (db + di) sz v)) (set_reg386 EDI asz (di + st)))
     else if op = 0xAC \<or> op = 0xAD then
       bindM (on_flat (flat_read (sb + si) sz)) (\<lambda>v.
       thenM (set_reg386 EAX sz v) (set_reg386 ESI asz (si + st)))
     else if op = 0xAE \<or> op = 0xAF then
       bindM (reg386 EAX sz) (\<lambda>a. bindM (on_flat (flat_read (db + di) sz)) (\<lambda>b.
       thenM (upd_eflags (flags_sub a b (a - b) (sz * 8) 0)) (set_reg386 EDI asz (di + st))))
     else
       bindM (on_flat (flat_read (sb + si) sz)) (\<lambda>a. bindM (on_flat (flat_read (db + di) sz)) (\<lambda>b.
       thenM (upd_eflags (flags_sub a b (a - b) (sz * 8) 0))
      (thenM (set_reg386 ESI asz (si + st)) (set_reg386 EDI asz (di + st)))))))"

text \<open>\<open>while self.reg(ECX, asz) != 0\<close>: every round takes one off the counter, so as many rounds as it
  holds at the start.\<close>

primrec string_rounds :: "nat \<Rightarrow> int \<Rightarrow> int \<Rightarrow> nat \<Rightarrow> nat \<Rightarrow> int \<Rightarrow> int \<Rightarrow> int \<Rightarrow> ('w, unit) op386" where
  "string_rounds 0 op rep sz asz st sb db = ret ()"
| "string_rounds (Suc k) op rep sz asz st sb db =
     thenM (string_once op sz asz st sb db)
    (thenM (bindM (reg386 ECX asz) (\<lambda>n. set_reg386 ECX asz (n - 1)))
     (bindM (get_flag386 ZF) (\<lambda>z.
        if op \<in> {0xA6, 0xA7, 0xAE, 0xAF} \<and> ((rep = 0xF3 \<and> \<not> z) \<or> (rep = 0xF2 \<and> z)) then ret ()
        else string_rounds k op rep sz asz st sb db)))"

definition string_rep :: "int \<Rightarrow> int \<Rightarrow> nat \<Rightarrow> nat \<Rightarrow> int \<Rightarrow> int \<Rightarrow> int \<Rightarrow> ('w, unit) op386" where
  "string_rep op rep sz asz st sb db = bindM (reg386 ECX asz) (\<lambda>n.
     string_rounds (nat n) op rep sz asz st sb db)"

definition string386 :: "int \<Rightarrow> int \<Rightarrow> ('w, unit) op386" where
  "string386 op rep = bindM (get386 (\<lambda>c. c)) (\<lambda>c.
     let sz = (if op \<in> {0xA4, 0xAA, 0xAC, 0xAE} then 1 else opsize c); asz = adsize c;
         st = (if eflags c AND DF \<noteq> 0 then - int sz else int sz);
         sb = sbase c (case segovr c of Some s \<Rightarrow> s | None \<Rightarrow> SegDS); db = sbase c SegES in
     bindM (if rep \<noteq> 0 \<and> st > 0 \<and> asz = 4 \<and> op \<in> {0xA4, 0xA5, 0xAA, 0xAB}
            then bulk_string op sz sb db else ret False) (\<lambda>bulk.
       if bulk then ret ()
       else if rep = 0 then string_once op sz asz st sb db
       else string_rep op rep sz asz st sb db))"

end
