(* ===== verification/Flat_Ram.thy ===== *)
theory Flat_Ram
  imports Flat_Mem
begin

text \<open>
  Reads and writes of the flat memory that stay in RAM: neither end of the array nor the planar
  aperture is touched.  They are described by one operation, \<open>poke\<close>, on the bytes.
\<close>

section \<open>Bytes of a value\<close>

lemma le_or_Nil [simp]: "le_or [] = 0"
  by (simp add: le_or_def)

lemma le_or_Cons: "le_or (b # bs) = b OR push_bit 8 (le_or bs)"
  by (simp add: le_or_def)

lemma le_byte_take: "le_byte v i = take_bit 8 (drop_bit (8 * i) v)"
  by (simp add: le_byte_def take_bit_eq_mod mask_simps)

lemma le_byte_Suc: "le_byte v (Suc i) = le_byte (drop_bit 8 v) i"
  by (simp add: le_byte_def drop_bit_drop_bit add.commute)

lemma le_or_shift: "le_or (map (le_byte v) (map Suc [0..<n])) = le_or (map (le_byte (drop_bit 8 v)) [0..<n])"
  by (simp add: comp_def le_byte_Suc del: map_Suc_upt)

lemma le_or_bytes: "le_or (map (le_byte v) [0..<n]) = take_bit (8 * n) v"
proof (induction n arbitrary: v)
  case (Suc n)
  have "le_or (map (le_byte v) [0..<Suc n]) = le_byte v 0 OR push_bit 8 (take_bit (8 * n) (drop_bit 8 v))"
    unfolding upt_conv_Cons [OF zero_less_Suc] map_Suc_upt [symmetric] list.map(2) le_or_Cons le_or_shift Suc.IH ..
  also have "\<dots> = take_bit (8 * Suc n) v"
    by (rule bit_eqI) (auto simp: le_byte_take bit_or_iff bit_take_bit_iff bit_push_bit_iff bit_drop_bit_eq)
  finally show ?case .
qed simp

section \<open>RAM accesses\<close>

definition ram_ok :: "flat_memory \<Rightarrow> int \<Rightarrow> nat \<Rightarrow> bool" where
  "ram_ok f a n \<longleftrightarrow> \<not> in_vga f a \<and> 0 \<le> a \<and> a + int n \<le> blen (fdata f)"

definition poke :: "int \<Rightarrow> nat \<Rightarrow> (int \<Rightarrow> 8 word) \<Rightarrow> flat_memory \<Rightarrow> flat_memory" where
  "poke a n p f = f\<lparr>fdata := (fdata f)\<lparr>bdata := (\<lambda>i. if a \<le> i \<and> i < a + int n then p (i - a) else bdata (fdata f) i)\<rparr>\<rparr>"

lemma poke_fields [simp]:
  "blen (fdata (poke a n p f)) = blen (fdata f)" "fvga (poke a n p f) = fvga f" "fsize (poke a n p f) = fsize f"
  "bdata (fdata (poke a n p f)) i = (if a \<le> i \<and> i < a + int n then p (i - a) else bdata (fdata f) i)"
  "in_vga (poke a n p f) b = in_vga f b" "ram_ok (poke a n p f) b m = ram_ok f b m"
  by (simp_all add: poke_def in_vga_def ram_ok_def)

lemma flat_eqI:
  assumes "\<And>i. bdata (fdata f) i = bdata (fdata g) i" "blen (fdata f) = blen (fdata g)" "fsize f = fsize g" "fvga f = fvga g"
  shows "f = (g :: flat_memory)"
  using assms by (auto intro!: flat_memory.equality bytearray.equality)

lemma poke_poke:
  "b = a + int n \<Longrightarrow> poke b m q (poke a n p f) = poke a (n + m) (\<lambda>i. if i < int n then p i else q (i - int n)) f"
  by (rule flat_eqI) (auto simp: algebra_simps)

lemma poke_cong: "(\<And>i. 0 \<le> i \<Longrightarrow> i < int n \<Longrightarrow> p i = q i) \<Longrightarrow> poke a n p f = poke a n q f"
  by (rule flat_eqI) auto

lemma on_data_set:
  "0 \<le> a \<Longrightarrow> a < blen (fdata f) \<Longrightarrow> on_data (ba_set a v) f = (Inr (), poke a 1 (\<lambda>_. word_of_int v) f)"
  by (auto simp: on_data_def ba_set_def ba_index_def poke_def fun_upd_def intro!: arg_cong [where f = "\<lambda>x. f\<lparr>fdata := (fdata f)\<lparr>bdata := x\<rparr>\<rparr>"])

lemma poke_0 [simp]: "poke a 0 p f = f"
  by (rule flat_eqI) auto

lemma write_bytes:
  "0 \<le> a \<Longrightarrow> a + int n \<le> blen (fdata f) \<Longrightarrow>
   seqM (map (\<lambda>i. on_data (ba_set (a + int i) (g i))) [0..<n]) f = (Inr (), poke a n (\<lambda>i. word_of_int (g (nat i))) f)"
proof (induction n)
  case (Suc n)
  have "on_data (ba_set (a + int n) (g n)) (poke a n (\<lambda>i. word_of_int (g (nat i))) f)
      = (Inr (), poke (a + int n) 1 (\<lambda>_. word_of_int (g n)) (poke a n (\<lambda>i. word_of_int (g (nat i))) f))"
    using Suc.prems by (intro on_data_set) simp_all
  also have "\<dots> = (Inr (), poke a (Suc n) (\<lambda>i. word_of_int (g (nat i))) f)"
  proof -
    have "nat i = n" if "i < int (n + 1)" "\<not> i < int n" for i
      using that by linarith
    then show ?thesis
      unfolding poke_poke [OF refl] by (auto intro!: poke_cong)
  qed
  finally show ?case
    using Suc by (simp add: seqM_append)
qed simp

lemma flat_write_ram: "ram_ok f a n \<Longrightarrow> flat_write a n v f = (Inr (), poke a n (\<lambda>i. word_of_int (le_byte v (nat i))) f)"
  by (simp add: flat_write_def ram_ok_def write_bytes)

lemma on_data_get: "0 \<le> a \<Longrightarrow> a < blen (fdata f) \<Longrightarrow> on_data (ba_get a) f = (Inr (uint (bdata (fdata f) a)), f)"
  by (simp add: on_data_def ba_get_def ba_index_def)

lemma read_bytes:
  "(\<And>i. i \<in> set is \<Longrightarrow> 0 \<le> a + int i \<and> a + int i < blen (fdata f)) \<Longrightarrow>
   mapM (\<lambda>i. on_data (ba_get (a + int i))) is f = (Inr (map (\<lambda>i. uint (bdata (fdata f) (a + int i))) is), f)"
  by (induction "is") (simp_all add: on_data_get)

definition ram_value :: "int \<Rightarrow> nat \<Rightarrow> flat_memory \<Rightarrow> int" where
  "ram_value a n f = le_or (map (\<lambda>i. uint (bdata (fdata f) (a + int i))) [0..<n])"

lemma flat_read_ram: "ram_ok f a n \<Longrightarrow> flat_read a n f = (Inr (ram_value a n f), f)"
  using read_bytes [of "[0..<n]" a f] by (simp add: flat_read_def ram_ok_def ram_value_def)

lemma le_byte_le_or:
  "i < n \<Longrightarrow> le_byte (le_or (map (\<lambda>i. uint (h i :: 8 word)) [0..<n])) i = uint (h i)"
proof (induction n arbitrary: i h)
  case (Suc n)
  have split: "le_or (map (\<lambda>i. uint (h i)) [0..<Suc n]) = uint (h 0) OR push_bit 8 (le_or (map (\<lambda>i. uint (h (Suc i))) [0..<n]))"
    unfolding upt_conv_Cons [OF zero_less_Suc] map_Suc_upt [symmetric] by (simp add: le_or_Cons comp_def del: map_Suc_upt)
  have small: "take_bit 8 (uint (h 0)) = uint (h 0)"
    using uint_lt2p [of "h 0"] by (simp add: take_bit_int_eq_self)
  have drop: "drop_bit 8 (uint (h 0)) = 0"
    by (metis drop_bit_take_bit diff_self_eq_0 small take_bit_0)
  show ?case
  proof (cases i)
    case 0
    then show ?thesis
      unfolding split by (simp add: le_byte_take take_bit_or take_bit_push_bit small)
  next
    case (Suc j)
    then show ?thesis
      unfolding split Suc le_byte_Suc drop_bit_or drop using Suc.IH [of j "\<lambda>i. h (Suc i)"] Suc.prems \<open>i = Suc j\<close> by (simp add: drop_bit_push_bit)
  qed
qed simp

lemma ram_value_byte: "i < n \<Longrightarrow> word_of_int (le_byte (ram_value a n f) i) = bdata (fdata f) (a + int i)"
  by (simp add: ram_value_def le_byte_le_or)

lemma ram_value_poke_same: "ram_value a n (poke a n (\<lambda>i. word_of_int (le_byte v (nat i))) f) = take_bit (8 * n) v"
proof -
  have "uint (word_of_int (le_byte v i) :: 8 word) = le_byte v i" for i
    by (simp add: le_byte_take uint_word_of_int take_bit_eq_mod)
  then show ?thesis
    unfolding ram_value_def le_or_bytes [symmetric] by (auto intro!: arg_cong [where f = le_or])
qed

lemma ram_value_poke_other: "a + int n \<le> b \<or> b + int m \<le> a \<Longrightarrow> ram_value a n (poke b m p f) = ram_value a n f"
  by (auto simp: ram_value_def intro!: arg_cong [where f = le_or])

end
