(* ===== verification/CPU386_Bulk.thy ===== *)
theory CPU386_Bulk
  imports CPU386_String Flat_Ram
begin

text \<open>
  The fast path of REP MOVS and STOS against the element loop: in RAM it has the loop's effect, in
  the planes of write mode 1 and behind the end of the memory it has not.
\<close>

section \<open>Slices of RAM\<close>

lemma ba_replace_poke:
  assumes "0 \<le> a" and "a + int n \<le> blen (fdata f)" and "length p = n"
  shows "f\<lparr>fdata := ba_replace a (int n) p (fdata f)\<rparr> = poke a n (\<lambda>i. p ! nat i) f"
  using assms by (intro flat_eqI) (auto simp: ba_replace_def Let_def)

lemma nth_concat_replicate:
  "length xs = m \<Longrightarrow> i < k * m \<Longrightarrow> concat (replicate k xs) ! i = xs ! (i mod m)"
proof (induction k arbitrary: i)
  case (Suc k)
  then show ?case
    by (cases "i < m") (auto simp: nth_append le_mod_geq less_diff_conv2)
qed simp

text \<open>The bytes a transfer writes, by offset.\<close>

definition transfer_bytes :: "bool \<Rightarrow> nat \<Rightarrow> int \<Rightarrow> int \<Rightarrow> flat_memory \<Rightarrow> int \<Rightarrow> 8 word" where
  "transfer_bytes movs sz src v f i =
     (if movs then bdata (fdata f) (src + i) else word_of_int (le_byte v (nat i mod sz)))"

text \<open>The state after \<open>k\<close> elements.\<close>

definition moved :: "bool \<Rightarrow> nat \<Rightarrow> int \<Rightarrow> int \<Rightarrow> nat \<Rightarrow> 'w cpu386 \<Rightarrow> 'w cpu386" where
  "moved movs sz sb db k c = (let r = gpr c; n = int (k * sz) in
     c\<lparr>mem386 := poke (db + r ! 7) (k * sz) (transfer_bytes movs sz (sb + r ! 6) (reg_val EAX sz r) (mem386 c)) (mem386 c),
       gpr := r[1 := r ! 1 - int k, 6 := (if movs then r ! 6 + n else r ! 6), 7 := r ! 7 + n]\<rparr>)"

text \<open>Operands in RAM: no wrap, no aperture, and no forward overlap.\<close>

definition apart_from_vga :: "flat_memory \<Rightarrow> int \<Rightarrow> int \<Rightarrow> bool" where
  "apart_from_vga f a n \<longleftrightarrow> fvga f = None \<or> a + n \<le> 0xA0000 \<or> 0xB0000 \<le> a"

definition in_ram :: "flat_memory \<Rightarrow> int \<Rightarrow> int \<Rightarrow> bool" where
  "in_ram f a n \<longleftrightarrow> 0 \<le> a \<and> a + n \<le> blen (fdata f) \<and> apart_from_vga f a n"

definition transfer_ok :: "bool \<Rightarrow> nat \<Rightarrow> int \<Rightarrow> int \<Rightarrow> 'w cpu386 \<Rightarrow> bool" where
  "transfer_ok movs sz sb db c \<longleftrightarrow> (let r = gpr c; f = mem386 c; n = r ! 1 * int sz in
     length r = 8 \<and> sz \<in> {1, 2, 4} \<and> 0 \<le> sb \<and> 0 \<le> db \<and> blen (fdata f) < 2 ^ 32 \<and>
     0 \<le> r ! 1 \<and> r ! 1 < 2 ^ 32 \<and> 0 \<le> r ! 6 \<and> r ! 6 < 2 ^ 32 \<and> 0 \<le> r ! 7 \<and> r ! 7 < 2 ^ 32 \<and>
     in_ram f (db + r ! 7) n \<and> (movs \<longrightarrow> in_ram f (sb + r ! 6) n))"

definition no_forward_overlap :: "nat \<Rightarrow> int \<Rightarrow> int \<Rightarrow> 'w cpu386 \<Rightarrow> bool" where
  "no_forward_overlap sz sb db c \<longleftrightarrow>
     db + gpr c ! 7 \<le> sb + gpr c ! 6 \<or> sb + gpr c ! 6 + gpr c ! 1 * int sz \<le> db + gpr c ! 7"

section \<open>The element loop\<close>

lemma mask32_id: "0 \<le> (v :: int) \<Longrightarrow> v < 2 ^ 32 \<Longrightarrow> v AND 4294967295 = v"
  by (simp add: mask_simps)

lemma gpr8: "length (r :: int list) = 8 \<Longrightarrow> \<exists>a b d e f g h i. r = [a, b, d, e, f, g, h, i]"
  by (auto simp: numeral_eq_Suc length_Suc_conv)

lemma ram_ok_element:
  assumes "in_ram f a (m * int sz)" and "int k < m" and "0 < sz"
  shows "ram_ok f (a + int (k * sz)) sz"
proof -
  define x where "x = int (k * sz)"
  have "x + int sz \<le> m * int sz"
    using mult_right_mono [of "int k + 1" m "int sz"] assms(2) by (simp add: x_def algebra_simps)
  moreover have "0 \<le> x"
    by (simp add: x_def)
  ultimately show ?thesis
    using assms(1,3) unfolding x_def [symmetric] by (auto simp: in_ram_def ram_ok_def in_vga_def apart_from_vga_def)
qed

lemma moved_mem: "mem386 (moved movs sz sb db k c) = poke (db + gpr c ! 7) (k * sz)
    (transfer_bytes movs sz (sb + gpr c ! 6) (reg_val EAX sz (gpr c)) (mem386 c)) (mem386 c)"
  by (simp add: moved_def Let_def)

lemma moved_gpr: "length (gpr c) = 8 \<Longrightarrow> gpr (moved movs sz sb db k c) = (gpr c)[1 := gpr c ! 1 - int k,
    6 := (if movs then gpr c ! 6 + int (k * sz) else gpr c ! 6), 7 := gpr c ! 7 + int (k * sz)]"
  by (simp add: moved_def Let_def)

text \<open>One element written behind the earlier ones.\<close>

lemma poke_element:
  assumes "\<And>j. j < sz \<Longrightarrow> p (int (k * sz + j)) = q (int j)"
  shows "poke (a + int (k * sz)) sz q (poke a (k * sz) p f) = poke a (Suc k * sz) p f"
  unfolding poke_poke [OF refl]
proof -
  have "(if i < int (k * sz) then p i else q (i - int (k * sz))) = p i" if "0 \<le> i" "i < int (k * sz + sz)" for i
  proof (cases "i < int (k * sz)")
    case False
    then have "i = int (k * sz + nat (i - int (k * sz)))" and "nat (i - int (k * sz)) < sz"
      using that by linarith+
    then show ?thesis
      using False assms [of "nat (i - int (k * sz))"] by simp
  qed simp
  then show "poke a (k * sz + sz) (\<lambda>i. if i < int (k * sz) then p i else q (i - int (k * sz))) f = poke a (Suc k * sz) p f"
    unfolding mult_Suc add.commute [of sz] by (rule poke_cong)
qed

text \<open>The bytes a forward MOVS reads are not yet overwritten.\<close>

lemma source_untouched:
  assumes "no_forward_overlap sz sb db c" and "int k < gpr c ! 1" and "j < sz"
  shows "bdata (fdata (poke (db + gpr c ! 7) (k * sz) p (mem386 c))) (sb + gpr c ! 6 + int (k * sz) + int j)
    = bdata (fdata (mem386 c)) (sb + gpr c ! 6 + int (k * sz) + int j)"
proof -
  define x where "x = int (k * sz)"
  have "x + int sz \<le> gpr c ! 1 * int sz"
    using mult_right_mono [of "int k + 1" "gpr c ! 1" "int sz"] assms(2) by (simp add: x_def algebra_simps)
  moreover have "0 \<le> x"
    by (simp add: x_def)
  ultimately show ?thesis
    using assms(1,3) unfolding poke_fields x_def [symmetric] no_forward_overlap_def by auto
qed

lemma ram_value_cong:
  "(\<And>j. j < n \<Longrightarrow> bdata (fdata f) (a + int j) = bdata (fdata g) (a + int j)) \<Longrightarrow> ram_value a n f = ram_value a n g"
  by (auto simp: ram_value_def intro!: arg_cong [where f = le_or])

lemma moved_Suc_mem:
  fixes movs :: bool
  assumes "movs \<longrightarrow> no_forward_overlap sz sb db c" and "int k < gpr c ! 1" and "0 < sz"
  defines "v \<equiv> (if movs then ram_value (sb + gpr c ! 6 + int (k * sz)) sz (mem386 (moved movs sz sb db k c))
     else reg_val EAX sz (gpr c))"
  shows "poke (db + gpr c ! 7 + int (k * sz)) sz (\<lambda>i. word_of_int (le_byte v (nat i))) (mem386 (moved movs sz sb db k c))
    = mem386 (moved movs sz sb db (Suc k) c)"
proof -
  have read: "v = ram_value (sb + gpr c ! 6 + int (k * sz)) sz (mem386 c)" if movs
    using that source_untouched [OF assms(1) [rule_format] assms(2)] by (auto simp: v_def moved_mem intro!: ram_value_cong)
  have "transfer_bytes movs sz (sb + gpr c ! 6) (reg_val EAX sz (gpr c)) (mem386 c) (int (k * sz + j))
      = word_of_int (le_byte v (nat (int j)))" if j: "j < sz" for j
  proof (cases movs)
    case True
    then show ?thesis
      using ram_value_byte [OF j, of "sb + gpr c ! 6 + int (k * sz)" "mem386 c"]
      by (simp add: transfer_bytes_def read add.assoc)
  next
    case False
    moreover have "nat (int (k * sz + j)) mod sz = j"
      using j by (simp only: nat_int) simp
    ultimately show ?thesis
      by (simp only: transfer_bytes_def v_def if_False nat_int)
  qed
  then show ?thesis
    unfolding moved_mem by (rule poke_element)
qed

section \<open>One round\<close>

lemma on_flat_read: "flat_read a n (mem386 c) = (Inr v, mem386 c) \<Longrightarrow> on_flat (flat_read a n) c = (Inr v, c)"
  by (simp add: on_flat_def)

lemma on_flat_write: "flat_write a n v (mem386 c) = (Inr (), f) \<Longrightarrow> on_flat (flat_write a n v) c = (Inr (), c\<lparr>mem386 := f\<rparr>)"
  by (simp add: on_flat_def)

lemma reg386_4: "reg386 i 4 c = (Inr (gpr c ! nat i), c)"
  by (simp add: reg386_def get386_def reg_val_def)

lemma set_reg386_4: "0 \<le> v \<Longrightarrow> v < 2 ^ 32 \<Longrightarrow> set_reg386 i 4 v c = (Inr (), c\<lparr>gpr := (gpr c)[nat i := v]\<rparr>)"
  by (simp add: set_reg386_def upd386_def reg_put_def mask32_id)

lemma movs_once:
  assumes "op = 0xA4 \<or> op = 0xA5" and "ram_ok (mem386 s) (sb + gpr s ! 6) sz" and "ram_ok (mem386 s) (db + gpr s ! 7) sz"
    and "0 \<le> gpr s ! 6" "gpr s ! 6 + int sz < 2 ^ 32" "0 \<le> gpr s ! 7" "gpr s ! 7 + int sz < 2 ^ 32"
  shows "string_once op sz 4 (int sz) sb db s = (Inr (), s\<lparr>mem386 := poke (db + gpr s ! 7) sz
      (\<lambda>i. word_of_int (le_byte (ram_value (sb + gpr s ! 6) sz (mem386 s)) (nat i))) (mem386 s),
      gpr := (gpr s)[6 := gpr s ! 6 + int sz, 7 := gpr s ! 7 + int sz]\<rparr>)"
  using assms(1,4-)
  by (auto simp: string_once_def reg386_4 gpr_defs set_reg386_4 on_flat_read [OF flat_read_ram [OF assms(2)]]
    on_flat_write [OF flat_write_ram [OF assms(3)]])

lemma stos_once:
  assumes "op = 0xAA \<or> op = 0xAB" and "ram_ok (mem386 s) (db + gpr s ! 7) sz"
    and "0 \<le> gpr s ! 7" "gpr s ! 7 + int sz < 2 ^ 32"
  shows "string_once op sz 4 (int sz) sb db s = (Inr (), s\<lparr>mem386 := poke (db + gpr s ! 7) sz
      (\<lambda>i. word_of_int (le_byte (reg_val EAX sz (gpr s)) (nat i))) (mem386 s),
      gpr := (gpr s)[7 := gpr s ! 7 + int sz]\<rparr>)"
proof -
  have "reg386 EAX sz s = (Inr (reg_val EAX sz (gpr s)), s)"
    by (simp add: reg386_def get386_def)
  then show ?thesis
    using assms(1,3-)
    by (auto simp: string_once_def reg386_4 gpr_defs set_reg386_4 on_flat_write [OF flat_write_ram [OF assms(2)]])
qed

lemma moved_upd:
  "(moved movs sz sb db j c)\<lparr>mem386 := mem386 (moved movs sz sb db k c), gpr := gpr (moved movs sz sb db k c)\<rparr>
    = moved movs sz sb db k c"
  by (simp add: moved_def Let_def)

lemma string_once_moved:
  fixes c :: "'w cpu386"
  assumes ok: "transfer_ok movs sz sb db c" and k: "int k < gpr c ! 1" and movs: "movs \<longleftrightarrow> op = 0xA4 \<or> op = 0xA5"
    and op: "op \<in> {0xA4, 0xA5, 0xAA, 0xAB}" and apart: "movs \<longrightarrow> no_forward_overlap sz sb db c"
  defines "m \<equiv> moved movs sz sb db"
  shows "thenM (string_once op sz 4 (int sz) sb db) (bindM (reg386 ECX 4) (\<lambda>n. set_reg386 ECX 4 (n - 1))) (m k c) = (Inr (), m (Suc k) c)"
proof -
  let ?r = "gpr c" and ?s = "m k c"
  define x where "x = int (k * sz)"
  have len: "length ?r = 8" and sz: "0 < sz" and low: "0 \<le> sb" "0 \<le> db"
    using ok by (auto simp: transfer_ok_def Let_def)
  have step: "x + int sz \<le> ?r ! 1 * int sz" "int (Suc k * sz) = x + int sz" "0 \<le> x"
    using mult_right_mono [of "int k + 1" "?r ! 1" "int sz"] k by (simp_all add: x_def algebra_simps)
  have g: "gpr ?s = ?r[1 := ?r ! 1 - int k, 6 := (if movs then ?r ! 6 + x else ?r ! 6), 7 := ?r ! 7 + x]"
    using len by (simp add: m_def moved_gpr x_def)
  have at: "gpr ?s ! 1 = ?r ! 1 - int k" "gpr ?s ! 7 = ?r ! 7 + x" "movs \<Longrightarrow> gpr ?s ! 6 = ?r ! 6 + x"
      "gpr ?s ! 0 = ?r ! 0" "reg_val EAX sz (gpr ?s) = reg_val EAX sz ?r"
    using len by (simp_all add: g reg_val_def EAX_def)
  have D: "in_ram (mem386 c) (db + ?r ! 7) (?r ! 1 * int sz)" and S: "movs \<Longrightarrow> in_ram (mem386 c) (sb + ?r ! 6) (?r ! 1 * int sz)"
    and big: "blen (fdata (mem386 c)) < 2 ^ 32" "0 \<le> ?r ! 6" "0 \<le> ?r ! 7" "?r ! 1 < 2 ^ 32"
    using ok by (simp_all add: transfer_ok_def Let_def)
  have same: "ram_ok (mem386 ?s) = ram_ok (mem386 c)"
    by (rule ext)+ (simp add: m_def moved_mem)
  have dst: "ram_ok (mem386 ?s) (db + gpr ?s ! 7) sz" and src: "movs \<Longrightarrow> ram_ok (mem386 ?s) (sb + gpr ?s ! 6) sz"
    using ram_ok_element [OF D k sz] ram_ok_element [OF S k sz] unfolding x_def [symmetric]
    by (simp_all add: at same add.assoc)
  have range: "0 \<le> gpr ?s ! 7" "gpr ?s ! 7 + int sz < 2 ^ 32" "movs \<Longrightarrow> 0 \<le> gpr ?s ! 6 \<and> gpr ?s ! 6 + int sz < 2 ^ 32"
      "0 \<le> ?r ! 1 - int k - 1" "?r ! 1 - int k - 1 < 2 ^ 32"
    using big step k low dst src unfolding same by (auto simp: at ram_ok_def)
  have mem: "poke (db + gpr ?s ! 7) sz (\<lambda>i. word_of_int (le_byte (if movs then ram_value (sb + gpr ?s ! 6) sz (mem386 ?s)
      else reg_val EAX sz (gpr ?s)) (nat i))) (mem386 ?s) = mem386 (m (Suc k) c)"
    using moved_Suc_mem [of movs sz sb db c k] apart k sz ok unfolding x_def [symmetric] m_def [symmetric]
    by (cases movs) (simp_all add: at add.assoc)
  have done1: "string_once op sz 4 (int sz) sb db ?s = (Inr (), ?s\<lparr>mem386 := mem386 (m (Suc k) c),
      gpr := ?r[1 := ?r ! 1 - int k, 6 := (if movs then ?r ! 6 + x + int sz else ?r ! 6), 7 := ?r ! 7 + x + int sz]\<rparr>)"
  proof (cases movs)
    case True
    then have "(gpr ?s)[6 := gpr ?s ! 6 + int sz, 7 := gpr ?s ! 7 + int sz]
        = ?r[1 := ?r ! 1 - int k, 6 := ?r ! 6 + x + int sz, 7 := ?r ! 7 + x + int sz]"
      using gpr8 [OF len] by (auto simp: g)
    then show ?thesis
      using True movs_once [OF _ src dst] range mem movs by simp
  next
    case False
    then have "(gpr ?s)[7 := gpr ?s ! 7 + int sz] = ?r[1 := ?r ! 1 - int k, 6 := ?r ! 6, 7 := ?r ! 7 + x + int sz]"
      using gpr8 [OF len] by (auto simp: g)
    then show ?thesis
      using False stos_once [OF _ dst] range mem movs op by simp
  qed
  have "?r[1 := ?r ! 1 - int k, 6 := (if movs then ?r ! 6 + x + int sz else ?r ! 6), 7 := ?r ! 7 + x + int sz,
      1 := ?r ! 1 - int k - 1] = gpr (m (Suc k) c)"
    using gpr8 [OF len] step(2) by (auto simp: m_def moved_gpr)
  then have "thenM (string_once op sz 4 (int sz) sb db) (bindM (reg386 ECX 4) (\<lambda>n. set_reg386 ECX 4 (n - 1))) ?s
      = (Inr (), ?s\<lparr>mem386 := mem386 (m (Suc k) c), gpr := gpr (m (Suc k) c)\<rparr>)"
    using len range(4,5) by (simp add: done1 reg386_4 set_reg386_4 ECX_def)
  then show ?thesis
    unfolding m_def moved_upd .
qed

lemma string_rounds_moved:
  assumes "transfer_ok movs sz sb db c" and "movs \<longleftrightarrow> op = 0xA4 \<or> op = 0xA5" and "op \<in> {0xA4, 0xA5, 0xAA, 0xAB}"
    and "movs \<longrightarrow> no_forward_overlap sz sb db c"
  shows "int (k + j) = gpr c ! 1 \<Longrightarrow> string_rounds j op rep sz 4 (int sz) sb db (moved movs sz sb db k c)
    = (Inr (), moved movs sz sb db (k + j) c)"
proof (induction j arbitrary: k)
  case (Suc j)
  have "thenM (string_once op sz 4 (int sz) sb db) (bindM (reg386 ECX 4) (\<lambda>n. set_reg386 ECX 4 (n - 1)))
      (moved movs sz sb db k c) = (Inr (), moved movs sz sb db (Suc k) c)"
    using Suc.prems by (intro string_once_moved assms) simp
  then obtain s where "string_once op sz 4 (int sz) sb db (moved movs sz sb db k c) = (Inr (), s)"
      and "bindM (reg386 ECX 4) (\<lambda>n. set_reg386 ECX 4 (n - 1)) s = (Inr (), moved movs sz sb db (Suc k) c)"
    by (auto simp: thenM_def elim!: bindM_InrD)
  moreover have "op \<notin> {0xA6, 0xA7, 0xAE, 0xAF}"
    using assms(3) by auto
  ultimately show ?case
    using Suc.IH [of "Suc k"] Suc.prems by (simp add: get_flag386_def get386_def)
qed simp

lemma moved_0: "length (gpr c) = 8 \<Longrightarrow> moved movs sz sb db 0 c = (c :: 'w cpu386)"
  by (simp add: moved_def Let_def list_update_id)

lemma string_rep_moved:
  assumes "transfer_ok movs sz sb db c" and "movs \<longleftrightarrow> op = 0xA4 \<or> op = 0xA5" and "op \<in> {0xA4, 0xA5, 0xAA, 0xAB}"
    and "movs \<longrightarrow> no_forward_overlap sz sb db c"
  shows "string_rep op rep sz 4 (int sz) sb db c = (Inr (), moved movs sz sb db (nat (gpr c ! 1)) c)"
  using assms string_rounds_moved [OF assms, of 0 "nat (gpr c ! 1)" rep]
  by (simp add: string_rep_def reg386_4 ECX_def moved_0 transfer_ok_def Let_def)

section \<open>The bulk path\<close>

lemma stos_data:
  assumes "0 \<le> m" and "0 < sz"
  shows "length (concat (replicate (nat m) (map g [0..<sz]))) = nat m * sz"
    and "0 \<le> i \<Longrightarrow> i < m * int sz \<Longrightarrow> concat (replicate (nat m) (map g [0..<sz])) ! nat i = g (nat i mod sz)"
proof -
  show "length (concat (replicate (nat m) (map g [0..<sz]))) = nat m * sz"
    by (simp add: length_concat sum_list_replicate)
  assume "0 \<le> i" and "i < m * int sz"
  then have "nat i < nat m * sz"
    using assms(1) by (simp add: nat_less_iff)
  then show "concat (replicate (nat m) (map g [0..<sz])) ! nat i = g (nat i mod sz)"
    using assms(2) by (simp add: nth_concat_replicate)
qed

lemma no_region:
  assumes "in_ram f a n" and "0 < n"
  shows "\<not> vga_region f a" and "\<not> vga_region f (a + n - 1)"
  using assms by (auto simp: in_ram_def apart_from_vga_def vga_region_def in_vga_def)

lemma bulk_moved:
  fixes c :: "'w cpu386"
  assumes ok: "transfer_ok movs sz sb db c" and movs: "movs \<longleftrightarrow> op = 0xA4 \<or> op = 0xA5"
    and apart: "movs \<longrightarrow> no_forward_overlap sz sb db c" and count: "0 < gpr c ! 1"
  shows "bulk_string op sz sb db c = (Inr True, moved movs sz sb db (nat (gpr c ! 1)) c)"
proof -
  let ?r = "gpr c" and ?f = "mem386 c" and ?k = "nat (gpr c ! 1)"
  define n where "n = ?r ! 1 * int sz"
  define p where "p = (if movs then flat_block (sb + ?r ! 6) n ?f
    else concat (replicate ?k (map (\<lambda>i. word_of_int (le_byte (reg_val EAX sz ?r) i)) [0..<sz])))"
  have len: "length ?r = 8" and sz: "0 < sz" and low: "0 \<le> sb" "0 \<le> db"
    and D: "in_ram ?f (db + ?r ! 7) n" and S: "movs \<Longrightarrow> in_ram ?f (sb + ?r ! 6) n"
    and big: "blen (fdata ?f) < 2 ^ 32" "0 \<le> ?r ! 6" "0 \<le> ?r ! 7"
    using ok by (auto simp: transfer_ok_def Let_def n_def)
  have n: "0 < n" "n = int (?k * sz)"
    using count sz by (simp_all add: n_def)
  have nat_n: "nat (?r ! 1 * int sz) = ?k * sz"
    using n(2) unfolding n_def by linarith
  have ends: "0 \<le> db + ?r ! 7" "db + ?r ! 7 + n < 2 ^ 32" "?r ! 7 + n < 2 ^ 32"
      "movs \<Longrightarrow> 0 \<le> sb + ?r ! 6" "movs \<Longrightarrow> sb + ?r ! 6 + n < 2 ^ 32" "movs \<Longrightarrow> ?r ! 6 + n < 2 ^ 32"
    using D S low big n by (auto simp: in_ram_def)
  have masks: "mask32 (db + ?r ! 7) = db + ?r ! 7" "mask32 (?r ! 7 + n) = ?r ! 7 + n"
      "movs \<Longrightarrow> mask32 (sb + ?r ! 6) = sb + ?r ! 6" "movs \<Longrightarrow> mask32 (?r ! 6 + n) = ?r ! 6 + n"
    using ends big n by (auto simp: mask32_def intro!: mask32_id)
  note region = no_region [OF D n(1)] no_region [OF S n(1)]
  have src: "bulk_source movs False (if movs then sb + ?r ! 6 else 0) n sz (?r ! 1) c = (Inr (Some p), c)"
    by (simp add: bulk_source_def p_def get386_def reg386_def)
  have p: "length p = ?k * sz" "\<And>i. 0 \<le> i \<Longrightarrow> i < n \<Longrightarrow> p ! nat i = transfer_bytes movs sz (sb + ?r ! 6) (reg_val EAX sz ?r) ?f i"
    using S n(1) nat_n stos_data [OF less_imp_le [OF count] sz]
    by (auto simp: p_def transfer_bytes_def flat_block_def ba_slice_def in_ram_def n_def)
  have store: "bulk_store False (db + ?r ! 7) n p c = (Inr True, c\<lparr>mem386 := poke (db + ?r ! 7) (?k * sz)
      (transfer_bytes movs sz (sb + ?r ! 6) (reg_val EAX sz ?r) ?f) ?f\<rparr>)"
  proof -
    have "?f\<lparr>fdata := ba_replace (db + ?r ! 7) n p (fdata ?f)\<rparr> = poke (db + ?r ! 7) (?k * sz) (\<lambda>i. p ! nat i) ?f"
      unfolding n(2) using D n p(1) by (intro ba_replace_poke) (simp_all add: in_ram_def)
    also have "\<dots> = poke (db + ?r ! 7) (?k * sz) (transfer_bytes movs sz (sb + ?r ! 6) (reg_val EAX sz ?r) ?f) ?f"
      using p(2) n(2) by (intro poke_cong) simp
    finally show ?thesis
      by (simp add: bulk_store_def upd386_def)
  qed
  have adv: "advance_bulk movs n (c\<lparr>mem386 := g\<rparr>) = (Inr (), c\<lparr>mem386 := g,
      gpr := ?r[1 := 0, 6 := (if movs then ?r ! 6 + n else ?r ! 6), 7 := ?r ! 7 + n]\<rparr>)" for g
    using masks gpr8 [OF len] by (auto simp: advance_bulk_def upd386_def Let_def)
  have forward: "\<not> (sb + ?r ! 6 < db + ?r ! 7 \<and> db + ?r ! 7 < sb + ?r ! 6 + n)" if movs
    using apart that by (auto simp: no_forward_overlap_def n_def)
  have "bulk_string op sz sb db c = bindM (bulk_source movs False (if movs then sb + ?r ! 6 else 0) n sz (?r ! 1)) (\<lambda>data. case data of
      None \<Rightarrow> ret False | Some p \<Rightarrow> bindM (bulk_store False (db + ?r ! 7) n p) (\<lambda>stored.
        if stored then thenM (advance_bulk movs n) (ret True) else ret False)) c"
    using count region masks forward movs unfolding n_def One_nat_def
    by (cases movs) (auto simp: bulk_string_def get386_def Let_def cong: if_cong option.case_cong)
  also have "\<dots> = (Inr True, moved movs sz sb db ?k c)"
    using src store adv count unfolding n(2) by (simp add: moved_def Let_def)
  finally show ?thesis .
qed

lemma bulk_overlap:
  fixes c :: "'w cpu386"
  assumes ok: "transfer_ok movs sz sb db c" and movs: "movs \<longleftrightarrow> op = 0xA4 \<or> op = 0xA5" and "movs"
    and overlap: "\<not> no_forward_overlap sz sb db c" and count: "0 < gpr c ! 1"
  shows "bulk_string op sz sb db c = (Inr False, c)"
proof -
  let ?r = "gpr c" and ?f = "mem386 c"
  define n where "n = ?r ! 1 * int sz"
  have D: "in_ram ?f (db + ?r ! 7) n" and S: "in_ram ?f (sb + ?r ! 6) n" and "0 < n"
    and "db + ?r ! 7 < 2 ^ 32" "sb + ?r ! 6 < 2 ^ 32" "0 \<le> db + ?r ! 7" "0 \<le> sb + ?r ! 6"
    using ok count \<open>movs\<close> by (auto simp: transfer_ok_def Let_def n_def in_ram_def)
  then have "mask32 (db + ?r ! 7) = db + ?r ! 7" "mask32 (sb + ?r ! 6) = sb + ?r ! 6"
    by (simp_all add: mask32_def mask32_id)
  then show ?thesis
    using count no_region [OF D \<open>0 < n\<close>] no_region [OF S \<open>0 < n\<close>] overlap movs \<open>movs\<close>
    unfolding n_def One_nat_def no_forward_overlap_def
    by (auto simp: bulk_string_def get386_def Let_def cong: if_cong)
qed

section \<open>The properties\<close>

text \<open>
  C4: The fast path of a forward REP MOVS or REP STOS (bytes, words and doublewords) has exactly the
  outcome of the element loop, registers, memory and flags: for every count, source and destination
  in RAM, overlapping in either direction or not.
\<close>

theorem fast_path_is_element_loop:
  fixes c :: "'w cpu386"
  assumes "op \<in> {0xA4, 0xA5, 0xAA, 0xAB}" and "rep \<noteq> 0" and "adsize c = 4" and "eflags c AND DF = 0"
    and "sz = (if op = 0xA4 \<or> op = 0xAA then 1 else opsize c)"
    and "sb = sbase c (case segovr c of Some s \<Rightarrow> s | None \<Rightarrow> SegDS)" and "db = sbase c SegES"
    and "transfer_ok (op = 0xA4 \<or> op = 0xA5) sz sb db c"
  shows "string386 op rep c = string_rep op rep sz 4 (int sz) sb db c"
proof -
  let ?movs = "op = 0xA4 \<or> op = 0xA5"
  have len: "length (gpr c) = 8" and "0 < sz" and "0 \<le> gpr c ! 1"
    using assms(8) by (auto simp: transfer_ok_def Let_def)
  have unfold: "string386 op rep c = bindM (bulk_string op sz sb db) (\<lambda>bulk.
      if bulk then ret () else string_rep op rep sz 4 (int sz) sb db) c"
    using assms(1-5) \<open>0 < sz\<close> unfolding assms(6,7) by (auto simp: string386_def get386_def Let_def cong: if_cong)
  consider "gpr c ! 1 = 0" | "0 < gpr c ! 1" "?movs" "\<not> no_forward_overlap sz sb db c"
    | "0 < gpr c ! 1" "?movs \<longrightarrow> no_forward_overlap sz sb db c"
    using \<open>0 \<le> gpr c ! 1\<close> by linarith
  then show ?thesis
  proof cases
    case 1
    then have "put_r ECX 0 c = c"
      using len by (simp add: put_r_def ECX_def list_update_same_conv)
    then show ?thesis
      using 1 unfolding unfold by (simp add: bulk_string_def get386_def upd386_def string_rep_def reg386_4 ECX_def)
  next
    case 2
    then show ?thesis
      unfolding unfold by (simp add: bulk_overlap [OF assms(8) refl])
  next
    case 3
    then show ?thesis
      unfolding unfold
      by (simp add: bulk_moved [OF assms(8) refl 3(2)] string_rep_moved [OF assms(8) refl assms(1) 3(2)])
  qed
qed

text \<open>A machine of the given memory with REP MOVS set up.\<close>

definition movs386 :: "flat_memory \<Rightarrow> int \<Rightarrow> int \<Rightarrow> int \<Rightarrow> nat \<Rightarrow> unit cpu386" where
  "movs386 f ecx esi edi osz = (CPU386_init f 0 0 0 0 ())\<lparr>gpr := [0, ecx, 0, 0, 0, 0, esi, edi], opsize := osz\<rparr>"

theorem fast_path_is_element_loop_witness:
  "string386 0xA5 0xF3 (movs386 (FlatMemory 64) 3 4 20 4) = string_rep 0xA5 0xF3 4 4 (int 4) 0 0 (movs386 (FlatMemory 64) 3 4 20 4)"
  by (rule fast_path_is_element_loop)
    (simp_all add: movs386_def CPU386_init_def DF_def transfer_ok_def in_ram_def apart_from_vga_def FlatMemory_def ba_zero_def)

text \<open>
  A REP MOVSB of 8 bytes whose source reaches 4 bytes past the end of a 16-byte memory raises an
  IndexError in the element loop; the fast path succeeds and leaves a memory of 12 bytes, every byte
  behind the destination moved down by 4.
\<close>

theorem fast_path_shrinks_memory:
  "fst (string386 0xA4 0xF3 (movs386 (FlatMemory 16) 8 12 0 4)) = Inr ()
   \<and> blen (fdata (mem386 (snd (string386 0xA4 0xF3 (movs386 (FlatMemory 16) 8 12 0 4))))) = 12
   \<and> fst (string_rep 0xA4 0xF3 1 4 1 0 0 (movs386 (FlatMemory 16) 8 12 0 4)) = Inl PyIndexError"
  by (intro conjI; code_simp)

text \<open>
  In write mode 1 a REP MOVSW inside the planar aperture copies each byte of the planes on the fast
  path; the element loop reads both bytes, so the latches hold the second, and writes them twice, as
  the adapter does.
\<close>

definition mode1_machine :: "unit cpu386" where
  "mode1_machine = movs386 ((FlatMemory 16)\<lparr>fvga := Some (VGASequencer\<lparr>write_mode := 1, chain4 := False,
     planes := (planes VGASequencer)[0 := \<lparr>bdata = (\<lambda>i. if i = 0 then 0x11 else if i = 1 then 0x22 else 0), blen = 0x10000\<rparr>]\<rparr>)\<rparr>)
     1 0xA0000 0xA0010 2"

definition plane0 :: "int \<Rightarrow> 'w cpu386 \<Rightarrow> 8 word" where
  "plane0 i c = bdata (planes (the (fvga (mem386 c))) ! 0) i"

theorem fast_path_mode1_words:
  "map (\<lambda>i. plane0 i (snd (string386 0xA5 0xF3 mode1_machine))) [0x10, 0x11] = [0x11, 0x22]
   \<and> map (\<lambda>i. plane0 i (snd (string_rep 0xA5 0xF3 2 4 2 0 0 mode1_machine))) [0x10, 0x11] = [0x22, 0x22]"
  by (intro conjI; code_simp)

end
