(* ===== verification/CPU386_Arith.thy ===== *)
theory CPU386_Arith
  imports CPU386_Alu CPU_Alu
begin

text \<open>
  What the arithmetic of \<open>dos_re/cpu386.py\<close> computes: the same results, flags and conditions as the
  16-bit interpreter, the double-precision quotient of IDIV and the range in which it is exact, and
  the counts for which a narrow shift raises.
\<close>

section \<open>The flags of the two interpreters\<close>

definition u12 :: "int \<Rightarrow> bool" where
  "u12 v \<longleftrightarrow> 0 \<le> v \<and> v < 4096"

lemma u12_or: "u12 x \<Longrightarrow> u12 y \<Longrightarrow> u12 (x OR y)"
  using or_lt_exp [of x y 12] by (simp add: u12_def)

lemma u12_and: "u12 x \<Longrightarrow> u12 (x AND y)"
  using and_le_left [of x y] by (simp add: u12_def)

lemma u12_id: "u12 v \<Longrightarrow> v AND 4095 = v"
  by (simp add: u12_def mask_simps)

lemma u12_flag_bits: "u12 CF" "u12 PF" "u12 AF" "u12 ZF" "u12 SF" "u12 OF" "u12 2"
  by (simp_all add: u12_def CF_def PF_def AF_def ZF_def SF_def OF_def)

lemma u12_or_if: "u12 f \<Longrightarrow> u12 x \<Longrightarrow> u12 (or_if b x f)"
  by (simp add: or_if_def u12_or)

lemmas u12_rules = u12_or u12_and u12_flag_bits u12_or_if

lemma result_flags_or_if:
  "result_flags r bits f =
     or_if (PARITY (r AND 0xFF)) PF (or_if (r AND push_bit (bits - 1) 1 \<noteq> 0) SF (or_if (r = 0) ZF f))"
  by (simp add: result_flags_def or_if_def Let_def)

lemma flag_mask_consts:
  "CF OR PF OR ZF OR SF OR OF = 0x08C5" "CF OR PF OR AF OR ZF OR SF OR OF = 0x08D5"
  by (simp_all add: CF_def PF_def AF_def ZF_def SF_def OF_def)

lemma flags_logic_is: "u12 w \<Longrightarrow> flags_logic r bits w = logic_flags r bits w"
  unfolding flags_logic_def logic_flags_def Let_def flag_mask_consts result_flags_or_if ones_def
  by (rule sym, rule u12_id) (intro u12_rules)

lemma flags_add_is: "u12 w \<Longrightarrow> flags_add a b res bits carry w = add_flags a b res bits carry w"
  unfolding flags_add_def add_flags_def Let_def flag_mask_consts result_flags_or_if ones_def or_if_def [symmetric]
  by (rule sym, rule u12_id) (intro u12_rules)

lemma flags_sub_is: "u12 w \<Longrightarrow> flags_sub a b res bits carry w = sub_flags a b res bits carry w"
  unfolding flags_sub_def sub_flags_def Let_def flag_mask_consts result_flags_or_if ones_def or_if_def [symmetric]
  by (rule sym, rule u12_id) (intro u12_rules)

lemmas flags386_is = flags_logic_is flags_add_is flags_sub_is

lemma u12_flags:
  "u12 w \<Longrightarrow> u12 (flags_logic r bits w)" "u12 w \<Longrightarrow> u12 (flags_add a b res bits k w)"
  "u12 w \<Longrightarrow> u12 (flags_sub a b res bits k w)"
  by (simp_all add: flags386_is logic_flags_def add_flags_def sub_flags_def Let_def u12_def mask_simps)

section \<open>One arithmetic step\<close>

text \<open>\<open>_alu_op\<close> with a destination register, as a function of the state.\<close>

lemma alu_op_reg:
  fixes c :: "'w cpu386"
  assumes "u12 (eflags c)" and "0 \<le> aluop" and "aluop \<le> 7"
  shows "alu_op aluop a b bits (if aluop = 7 then None else Some ((True, i), sz)) c =
    (Inr (), let (res, w) = alu_word aluop a b bits (eflags c); d = c\<lparr>eflags := w\<rparr> in
       if aluop = 7 then d else d\<lparr>gpr := reg_put i sz (res AND ones bits) (gpr c)\<rparr>)"
proof -
  have cf: "b2i (eflags c AND CF \<noteq> 0) = carry_in (eflags c)"
    by (simp add: carry_in_def b2i_def)
  consider "aluop = 0" | "aluop = 1" | "aluop = 2" | "aluop = 3" | "aluop = 4" | "aluop = 5" | "aluop = 6" | "aluop = 7"
    using assms by linarith
  then show ?thesis
    using assms(1)
    by cases (simp_all add: alu_op_def get386_def upd_eflags_def upd386_def write_back_def rm_write_def
      set_reg386_def alu_word_def Let_def flags386_is cf del: b2i_def)
qed

lemma cond_word_is: "0 \<le> cc \<Longrightarrow> cc \<le> 15 \<Longrightarrow> cond_word cc f = condition_word cc f"
proof -
  assume "0 \<le> cc" and "cc \<le> 15"
  have czf: "f AND (CF OR ZF) = 0 \<longleftrightarrow> f AND CF = 0 \<and> f AND ZF = 0"
    by (simp add: bit.conj_disj_distrib or_eq_0_iff)
  have "cc \<in> set [0..15]"
    using \<open>0 \<le> cc\<close> \<open>cc \<le> 15\<close> by simp
  then show ?thesis
    by (simp add: upto.simps) (elim disjE; simp add: cond_word_def condition_word_def Let_def czf; blast)
qed

section \<open>The quotient of IDIV\<close>

lemma bit_len_bounds: "0 < n \<Longrightarrow> 2 ^ (bit_len n - 1) \<le> n \<and> n < 2 ^ bit_len n \<and> 0 < bit_len n"
proof (induction n rule: bit_len.induct)
  case (1 n)
  show ?case
  proof (cases "n div 2 = 0")
    case True
    then have "n = 1"
      using 1(2) by simp
    then show ?thesis
      by (simp add: bit_len.simps)
  next
    case False
    then obtain k where k: "bit_len (n div 2) = Suc k"
      using 1 by (cases "bit_len (n div 2)") auto
    have "2 ^ k \<le> n div 2" "n div 2 < 2 * 2 ^ k" "bit_len n = Suc (Suc k)"
      using 1 False k by (simp_all add: bit_len.simps [of n])
    then show ?thesis
      by simp linarith
  qed
qed

lemma bit_len_int:
  assumes "0 < (p::int)"
  shows "2 ^ (bit_len (nat p) - 1) \<le> p" and "p < 2 ^ bit_len (nat p)" and "0 < bit_len (nat p)"
  using bit_len_bounds [of "nat p"] assms
  by (simp_all add: le_nat_iff nat_less_iff)

lemma bit_len_unique:
  assumes "2 ^ k \<le> n" and "n < 2 ^ Suc k"
  shows "bit_len n = Suc k"
proof -
  have "0 < n"
    using less_le_trans [OF _ assms(1), of 0] by simp
  then have "(2 :: nat) ^ (bit_len n - 1) < 2 ^ Suc k" "(2 :: nat) ^ k < 2 ^ bit_len n" "0 < bit_len n"
    using bit_len_bounds [of n] assms by linarith+
  then show ?thesis
    by (simp only: power_strict_increasing_iff [of 2])
qed

text \<open>\<open>2 ^ k \<le> p / q\<close>, without fractions.\<close>

definition exp_below :: "int \<Rightarrow> int \<Rightarrow> int \<Rightarrow> bool" where
  "exp_below k p q \<longleftrightarrow> (if k \<ge> 0 then q * 2 ^ nat k \<le> p else q \<le> p * 2 ^ nat (- k))"

lemma exp_below_bit_len:
  assumes "0 < p" and "0 < q"
  shows "exp_below (int (bit_len (nat p)) - int (bit_len (nat q)) - 1) p q"
proof -
  let ?l = "bit_len (nat p)" and ?r = "bit_len (nat q)"
  note P = bit_len_int [OF assms(1)] and Q = bit_len_int [OF assms(2)]
  show ?thesis
  proof (cases "?r + 1 \<le> ?l")
    case True
    have "q * 2 ^ (?l - ?r - 1) \<le> 2 ^ ?r * 2 ^ (?l - ?r - 1)"
      using Q(2) by (intro mult_right_mono) simp_all
    also have "\<dots> = 2 ^ (?l - 1)"
      using True P(3) by (simp flip: power_add)
    finally have "q * 2 ^ (?l - ?r - 1) \<le> p"
      using P(1) by simp
    moreover have "nat (int ?l - int ?r - 1) = ?l - ?r - 1"
      using True by linarith
    ultimately show ?thesis
      using True by (simp add: exp_below_def)
  next
    case False
    have "(2::int) ^ ?r = 2 ^ (?l - 1) * 2 ^ (?r + 1 - ?l)"
      using False P(3) by (simp flip: power_add)
    also have "\<dots> \<le> p * 2 ^ (?r + 1 - ?l)"
      using P(1) by (intro mult_right_mono) simp_all
    finally have "q \<le> p * 2 ^ (?r + 1 - ?l)"
      using Q(2) by simp
    moreover have "nat (1 + int ?r - int ?l) = ?r + 1 - ?l"
      using False by linarith
    ultimately show ?thesis
      using False by (simp add: exp_below_def algebra_simps)
  qed
qed

lemma quot_exponent_below:
  assumes "0 < p" and "0 < q"
  shows "exp_below (quot_exponent p q) p q"
proof -
  let ?k = "int (bit_len (nat p)) - int (bit_len (nat q))"
  have "fst (scale_frac p q (- ?k)) \<ge> snd (scale_frac p q (- ?k)) \<Longrightarrow> exp_below ?k p q"
    by (cases "?k \<le> 0") (auto simp: scale_frac_def exp_below_def)
  then show ?thesis
    using exp_below_bit_len [OF assms] by (simp add: quot_exponent_def Let_def split_beta)
qed

lemma round_even_div:
  assumes "0 \<le> p" and "0 < q" and "q < 2 * N" and "0 < (N::int)"
  shows "round_even (p * N, q) div N = p div q"
proof -
  let ?f = "p * N div q"
  have f: "?f div N = p div q"
    using assms by (simp add: div_mult2_eq' flip: zdiv_zmult2_eq)
  have rem: "?f * q + p * N mod q = p * N"
    by simp
  show ?thesis
  proof (cases "round_even (p * N, q) = ?f")
    case True
    then show ?thesis
      using f by simp
  next
    case False
    then have m: "round_even (p * N, q) = ?f + 1" and half: "q \<le> 2 * (p * N - ?f * q)"
      by (auto simp: round_even_def Let_def split: if_splits)
    have "?f + 1 < (p div q + 1) * N"
    proof (rule ccontr)
      assume "\<not> ?thesis"
      then have "(p div q + 1) * N * q \<le> (?f + 1) * q"
        using assms(2) by (intro mult_right_mono) simp_all
      then have "2 * ((p div q + 1) * q - p) * N \<le> q"
        using half by (simp add: algebra_simps)
      moreover have "1 \<le> (p div q + 1) * q - p"
        using assms(2) pos_mod_bound [of q p] by (simp add: algebra_simps minus_div_mult_eq_mod [symmetric])
      then have "1 * (2 * N) \<le> ((p div q + 1) * q - p) * (2 * N)"
        using assms(4) by (intro mult_right_mono) simp_all
      ultimately show False
        using assms(3) by (simp add: algebra_simps)
    qed
    moreover have "p div q * N \<le> ?f"
      using f assms(4) by (metis div_mult_mod_eq le_add_same_cancel1 pos_mod_sign)
    ultimately show ?thesis
      unfolding m using assms(4) by (intro int_div_pos_eq [of _ _ _ "?f + 1 - p div q * N"]) (simp_all add: algebra_simps)
  qed
qed

lemma py_int_quot_nat:
  assumes "0 < p" and "p < 2 ^ 53" and "0 < q"
  shows "py_int_quot p q = p div q"
proof -
  let ?k = "quot_exponent p q"
  have below: "exp_below ?k p q"
    using assms by (intro quot_exponent_below) simp_all
  have "q < 2 ^ nat (53 - ?k) \<and> ?k \<le> 52"
  proof (cases "0 \<le> ?k")
    case True
    then have le: "q * 2 ^ nat ?k \<le> p"
      using below by (simp add: exp_below_def)
    then have "(2::int) ^ nat ?k \<le> p"
      using assms(3) by (smt (verit) mult_left_le_one_le mult_le_cancel_right1 zero_less_power)
    then have "(2::int) ^ nat ?k < 2 ^ 53"
      using assms(2) by linarith
    then have k: "nat ?k < 53"
      by (simp only: power_strict_increasing_iff)
    then have "(2::int) ^ 53 = 2 ^ nat (53 - ?k) * 2 ^ nat ?k"
      using True by (simp only: power_add [symmetric]) (simp add: nat_diff_distrib')
    then have "q * 2 ^ nat ?k < 2 ^ nat (53 - ?k) * 2 ^ nat ?k"
      using le assms(2) by linarith
    then show ?thesis
      using k by simp
  next
    case False
    then have "q \<le> p * 2 ^ nat (- ?k)"
      using below by (simp add: exp_below_def)
    also have "\<dots> < 2 ^ 53 * 2 ^ nat (- ?k)"
      using assms(2) by (intro mult_strict_right_mono) simp_all
    also have "\<dots> = 2 ^ nat (53 - ?k)"
      using False by (simp only: power_add [symmetric]) (simp add: nat_add_distrib [symmetric])
    finally show ?thesis
      using False by simp
  qed
  then have q: "q < 2 * 2 ^ nat (52 - ?k)" and k: "?k \<le> 52"
    by (simp_all flip: power_Suc add: Suc_nat_eq_nat_zadd1)
  have "round_even (p * 2 ^ nat (52 - ?k), q) div 2 ^ nat (52 - ?k) = p div q"
    using assms q by (intro round_even_div) simp_all
  then show ?thesis
    using assms k by (simp add: py_int_quot_def scale_frac_def Let_def)
qed

lemma py_int_quot_0 [simp]: "py_int_quot 0 b = 0"
  by (simp add: py_int_quot_def)

lemma py_int_quot_signs:
  "a \<noteq> 0 \<Longrightarrow> b \<noteq> 0 \<Longrightarrow> py_int_quot a b = sgn a * sgn b * py_int_quot (abs a) (abs b)"
  by (simp add: py_int_quot_def Let_def)

lemma py_int_quot_is:
  assumes "abs a < 2 ^ 53" and "b \<noteq> 0"
  shows "py_int_quot a b = sgn a * sgn b * (abs a div abs b)"
  using py_int_quot_nat [of "abs a" "abs b"] assms
  by (cases "a = 0") (simp_all add: py_int_quot_signs [of a b])

section \<open>The properties\<close>

text \<open>
  C22: The two interpreters do the same arithmetic: from equal flags, on any operands and widths, each of
  the eight groups leaves the 16-bit interpreter's result in the destination register of the 32-bit
  one (compare leaves it alone), the same flags word, and every condition code then reads the same.
\<close>

theorem alu386_agrees_with_8086:
  fixes c :: "'w cpu386" and s :: "'v cpu"
  assumes "u12 (eflags c)" and "flags (regs s) = eflags c" and "0 \<le> grp" and "grp \<le> 7"
  shows "\<exists>r s' c'. alu grp a b bits s = (Inr r, s')
    \<and> alu_op grp a b bits (if grp = 7 then None else Some ((True, i), sz)) c = (Inr (), c')
    \<and> c' = (if grp = 7 then c else c\<lparr>gpr := reg_put i sz r (gpr c)\<rparr>)\<lparr>eflags := flags (regs s')\<rparr>
    \<and> (\<forall>cc. 0 \<le> cc \<and> cc \<le> 15 \<longrightarrow> fst (cond386 cc c') = fst (condition cc s'))"
proof -
  have "alu grp a b bits s = (Inr (fst (alu_word grp a b bits (eflags c)) AND ones bits),
      s\<lparr>regs := (regs s)\<lparr>flags := snd (alu_word grp a b bits (eflags c))\<rparr>\<rparr>)"
    using assms(2,3,4) by (simp add: alu_def get_regs_def upd_flags_def upd_regs_def ones_def)
  moreover note alu_op_reg [OF assms(1,3,4), of a b bits i sz]
  ultimately show ?thesis
    by (cases "alu_word grp a b bits (eflags c)")
      (auto simp: cond386_def get386_def condition_def get_regs_def cond_word_is Let_def)
qed

text \<open>
  IDIV leaves quotient and remainder in AL and AH, AX and DX, or EAX and EDX.
\<close>

definition idiv_result :: "nat \<Rightarrow> int \<Rightarrow> int \<Rightarrow> 'w cpu386 \<Rightarrow> 'w cpu386" where
  "idiv_result sz q r c = (let hi = (if sz = 1 then 4 else EDX) in
     c\<lparr>gpr := reg_put hi sz (r AND ones (sz * 8)) (reg_put EAX sz (q AND ones (sz * 8)) (gpr c))\<rparr>)"

definition idividend :: "nat \<Rightarrow> 'w cpu386 \<Rightarrow> int" where
  "idividend sz c = (if sz = 1 then sign386 (reg_val EAX 2 (gpr c)) 16
     else sign386 (push_bit (sz * 8) (reg_val EDX sz (gpr c)) OR reg_val EAX sz (gpr c)) (sz * 16))"

lemma muldiv_div_signed:
  fixes c :: "'w cpu386"
  assumes "v \<noteq> 0" and "sz \<in> {1, 2, 4}"
  defines "a \<equiv> idividend sz c" and "d \<equiv> sign386 v (sz * 8)"
  shows "muldiv_div E v sz True c = (Inr (), idiv_result sz (py_int_quot a d) (a - py_int_quot a d * d) c)"
  using assms
  by (auto simp: muldiv_div_def Let_def reg386_def get386_def set_reg386_def upd386_def idiv_result_def
    idividend_def EAX_def ones_def)

lemma sign386_ne_0:
  assumes "v \<noteq> 0" and "0 \<le> v" and "v < 2 ^ bits" and "0 < bits"
  shows "sign386 v bits \<noteq> 0"
proof -
  obtain b where b: "bits = Suc b"
    using assms(4) by (cases bits) auto
  have "v = take_bit b v + (if bit v b then 2 ^ b else 0)"
    using take_bit_Suc_from_most [of b v] take_bit_int_eq_self [of v "Suc b"] assms(2,3)
    by (cases "bit v b") (simp_all add: b)
  moreover have "v AND (push_bit b 1 - 1) = take_bit b v"
    by (simp add: take_bit_eq_mod and_mask_mod)
  moreover have "v AND push_bit b 1 = (if bit v b then 2 ^ b else 0)"
    by (rule bit_eqI) (auto simp: bit_and_iff push_bit_eq_mult bit_exp_iff)
  moreover have "take_bit b v \<noteq> 2 ^ b"
    using take_bit_int_less_exp [of b v] by linarith
  ultimately show ?thesis
    using assms(1) unfolding sign386_def b by (auto split: if_splits)
qed

lemma trunc_rem: "(a :: int) - sgn a * sgn d * (abs a div abs d) * d = sgn a * (abs a mod abs d)"
proof -
  have "sgn d * d = abs d" and a: "a = sgn a * abs a"
    by (simp_all add: abs_sgn mult.commute sgn_mult_abs)
  then have "sgn a * sgn d * (abs a div abs d) * d = sgn a * (abs a div abs d * abs d)"
    by (metis mult.assoc mult.commute)
  then show ?thesis
    using a by (metis minus_div_mult_eq_mod right_diff_distrib)
qed

lemma trunc_rem_range:
  assumes "(d :: int) \<noteq> 0"
  shows "abs (sgn a * (abs a mod abs d)) < abs d"
    and "sgn a * (abs a mod abs d) = 0 \<or> sgn (sgn a * (abs a mod abs d)) = sgn a"
proof -
  obtain m where m: "abs a mod abs d = m" "0 \<le> m" "m < abs d"
    using assms by simp
  show "abs (sgn a * (abs a mod abs d)) < abs d"
    unfolding m(1) using m(2,3) assms by (simp add: sgn_if)
  show "sgn a * (abs a mod abs d) = 0 \<or> sgn (sgn a * (abs a mod abs d)) = sgn a"
    unfolding m(1) using m(2) by (simp add: sgn_if)
qed

text \<open>
  IDIV by a nonzero divisor truncates towards zero: for every dividend below 2^53 in magnitude, so
  for every 8-bit and 16-bit division, the quotient and remainder it leaves are the exact ones, with
  the remainder smaller than the divisor and of the dividend's sign.
\<close>

theorem idiv_truncates:
  fixes c :: "'w cpu386"
  assumes "v \<noteq> 0" and "0 \<le> v" and "v < 2 ^ (sz * 8)" and "sz \<in> {1, 2, 4}" and "abs (idividend sz c) < 2 ^ 53"
  shows "\<exists>q r. muldiv_div E v sz True c = (Inr (), idiv_result sz q r c)
    \<and> idividend sz c = q * sign386 v (sz * 8) + r \<and> abs r < abs (sign386 v (sz * 8))
    \<and> (r = 0 \<or> sgn r = sgn (idividend sz c))"
proof -
  let ?a = "idividend sz c" and ?d = "sign386 v (sz * 8)"
  have d: "?d \<noteq> 0"
    using assms by (intro sign386_ne_0) auto
  define q where "q = py_int_quot ?a ?d"
  have q: "q = sgn ?a * sgn ?d * (abs ?a div abs ?d)"
    using py_int_quot_is [OF assms(5) d] by (simp add: q_def)
  have r: "?a - q * ?d = sgn ?a * (abs ?a mod abs ?d)"
    unfolding q by (rule trunc_rem)
  have "abs (?a - q * ?d) < abs ?d" "?a - q * ?d = 0 \<or> sgn (?a - q * ?d) = sgn ?a"
    unfolding r by (rule trunc_rem_range [OF d])+
  then show ?thesis
    using muldiv_div_signed [OF assms(1,4), of E c] unfolding q_def
    by (intro exI conjI) auto
qed

text \<open>A machine for the examples: EAX, EDX and ECX given, the rest as at the start.\<close>

definition demo386 :: "int \<Rightarrow> int \<Rightarrow> int \<Rightarrow> unit cpu386" where
  "demo386 eax ecx edx = (CPU386_init (FlatMemory 16) 0 0 0 0 ())\<lparr>gpr := [eax, ecx, edx, 0, 0, 0, 0, 0]\<rparr>"

lemma demo386_fields: "gpr (demo386 a b d) = [a, b, d, 0, 0, 0, 0, 0]" "eflags (demo386 a b d) = 0x202"
  by (simp_all add: demo386_def CPU386_init_def)

theorem alu386_agrees_with_8086_witness:
  "\<exists>r s' c'. alu 5 3 5 8 (CPU8086 (memory_new 16 None) ()) = (Inr r, s')
    \<and> alu_op 5 3 5 8 (if (5::int) = 7 then None else Some ((True, 1), 1)) (demo386 0 3 0) = (Inr (), c')
    \<and> c' = (if (5::int) = 7 then demo386 0 3 0 else (demo386 0 3 0)
        \<lparr>gpr := reg_put 1 1 r (gpr (demo386 0 3 0))\<rparr>)\<lparr>eflags := flags (regs s')\<rparr>
    \<and> (\<forall>cc. 0 \<le> cc \<and> cc \<le> 15 \<longrightarrow> fst (cond386 cc c') = fst (condition cc s'))"
  by (rule alu386_agrees_with_8086) (simp_all add: u12_def CPU8086_def CPUState_init_def demo386_fields)

theorem idiv_truncates_witness:
  "\<exists>q r. muldiv_div (env386_new no_floats) 0xFFFE 2 True (demo386 0xFFF9 0 0xFFFF) = (Inr (), idiv_result 2 q r (demo386 0xFFF9 0 0xFFFF))
    \<and> idividend 2 (demo386 0xFFF9 0 0xFFFF) = q * sign386 0xFFFE (2 * 8) + r \<and> abs r < abs (sign386 0xFFFE (2 * 8))
    \<and> (r = 0 \<or> sgn r = sgn (idividend 2 (demo386 0xFFF9 0 0xFFFF)))"
  by (rule idiv_truncates)
    (simp_all add: idividend_def demo386_fields reg_val_def sign386_def gpr_defs Let_def)

text \<open>
  IDIV of 2^60 - 1 (EDX:EAX = 0FFFFFFFh:FFFFFFFFh) by 2^30, whose quotient 2^30 - 1 and remainder
  2^30 - 1 fit in 32 bits, leaves the quotient 2^30 and the remainder -1: the quotient is taken
  through a double.
\<close>

theorem idiv_inexact:
  "muldiv_div E 0x40000000 4 True (demo386 0xFFFFFFFF 0 0x0FFFFFFF) =
     (Inr (), idiv_result 4 (2 ^ 30) (- 1) (demo386 0xFFFFFFFF 0 0x0FFFFFFF))
   \<and> idividend 4 (demo386 0xFFFFFFFF 0 0x0FFFFFFF) = (2 ^ 30 - 1) * 2 ^ 30 + (2 ^ 30 - 1)"
proof -
  have a: "idividend 4 (demo386 0xFFFFFFFF 0 0x0FFFFFFF) = 0xFFFFFFFFFFFFFFF"
    by (simp add: idividend_def demo386_fields reg_val_def sign386_def gpr_defs Let_def)
  have d: "sign386 0x40000000 (4 * 8) = 0x40000000"
    by (simp add: sign386_def)
  have "bit_len (nat 0xFFFFFFFFFFFFFFF) = 60" "bit_len (nat 0x40000000) = 31"
    using bit_len_unique [of 59 "nat 0xFFFFFFFFFFFFFFF"] bit_len_unique [of 30 "nat 0x40000000"] by simp_all
  then have "quot_exponent 0xFFFFFFFFFFFFFFF 0x40000000 = 29"
    by (simp add: quot_exponent_def scale_frac_def)
  then have "py_int_quot 0xFFFFFFFFFFFFFFF 0x40000000 = 0x40000000"
    by (simp add: py_int_quot_def scale_frac_def round_even_def Let_def)
  then show ?thesis
    using muldiv_div_signed [of "0x40000000" 4 E "demo386 0xFFFFFFFF 0 0x0FFFFFFF"] unfolding a d by simp
qed

end
