(* ===== verification/CPU386_Shift.thy ===== *)
theory CPU386_Shift
  imports CPU386_Arith CPU_Shift
begin

text \<open>
  The shifts and rotates of \<open>dos_re/cpu386.py\<close> against the bit-at-a-time loop of theory
  \<open>CPU_Shift\<close>, and the counts for which they raise.
\<close>

section \<open>Flag bits\<close>

lemma bit_flag_set: "bit (flag_set (2 ^ n) b w) k \<longleftrightarrow> k = 1 \<or> (if k = n then b else bit w k)"
proof -
  have "bit (2::int) k \<longleftrightarrow> k = 1"
    using bit_exp_iff [where ?'a = int, of 1 k] by auto
  then show ?thesis
    by (auto simp: flag_set_def bit_or_iff bit_and_iff bit_not_iff bit_exp_iff)
qed

lemma bit_flag_set_at:
  "bit (flag_set CF b w) k \<longleftrightarrow> k = 1 \<or> (if k = 0 then b else bit w k)"
  "bit (flag_set OF b w) k \<longleftrightarrow> k = 1 \<or> (if k = 11 then b else bit w k)"
  using bit_flag_set [of 0 b w k] bit_flag_set [of 11 b w k] by (simp_all add: CF_def OF_def)

lemma flags_logic_bit:
  assumes "u12 w" and "urange bits r" and "0 < bits"
  shows "bit (flags_logic r bits w) 6 \<longleftrightarrow> r = 0" "bit (flags_logic r bits w) 7 \<longleftrightarrow> bit r (bits - 1)"
    "bit (flags_logic r bits w) 2 \<longleftrightarrow> PARITY (r AND 0xFF)"
  using assms
  by (simp_all add: flags_logic_is logic_flags_bits mask_take urange_take bit_take_bit_iff and_exp_ne_0)

section \<open>Register operands\<close>

definition shift_word :: "int \<Rightarrow> nat \<Rightarrow> bool \<Rightarrow> bool option \<Rightarrow> int \<Rightarrow> int" where
  "shift_word res bits cf ovf w = (let w = flag_set CF cf (flags_logic res bits w) in
     case ovf of None \<Rightarrow> w | Some b \<Rightarrow> flag_set OF b w)"

lemma shift_done_reg:
  "shift_done (True, i) sz res cf ovf c = (Inr (), c\<lparr>gpr := reg_put i sz res (gpr c),
     eflags := shift_word res (sz * 8) cf ovf (eflags c)\<rparr>)"
  by (cases ovf) (simp_all add: shift_done_def rm_write_def set_reg386_def upd_eflags_def upd386_def
    set_flag386_def shift_word_def Let_def)

lemma shift_word_bits:
  assumes "u12 w" and "urange bits r" and "0 < bits"
  shows "bit (shift_word r bits cf ovf w) 0 \<longleftrightarrow> cf" "bit (shift_word r bits cf ovf w) 6 \<longleftrightarrow> r = 0"
    "bit (shift_word r bits cf ovf w) 7 \<longleftrightarrow> bit r (bits - 1)"
    "bit (shift_word r bits cf ovf w) 2 \<longleftrightarrow> PARITY (r AND 0xFF)"
  using flags_logic_bit [OF assms]
  by (simp_all add: shift_word_def Let_def bit_flag_set_at split: option.splits)

lemma rotate_carry_is: "rotate_carry left bits = shift_once (if left then 2 else 3) bits"
  by (rule ext) (auto simp: rotate_carry_def shift_once_def ones_def Let_def)

lemma sign386_is:
  assumes "urange (Suc b) v"
  shows "sign386 v (Suc b) = signed_take_bit b v"
proof -
  have "v AND push_bit b 1 = (if bit v b then 2 ^ b else 0)"
    by (rule bit_eqI) (auto simp: bit_and_iff push_bit_eq_mult bit_exp_iff)
  moreover have "take_bit (Suc b) v = v"
    using assms by (simp add: urange_take)
  moreover have "take_bit (Suc b) v = take_bit b v + (if bit v b then 2 ^ b else 0)"
    by (simp add: take_bit_Suc_from_most)
  ultimately show ?thesis
    by (simp add: sign386_def Let_def mask_take signed_take_bit_eq_take_bit_minus split: if_splits)
qed

section \<open>Each group is its loop\<close>

text \<open>Result and carry of the loop, and what the closed forms of the code compute.\<close>

definition bit_loop :: "int \<Rightarrow> nat \<Rightarrow> nat \<Rightarrow> int \<Rightarrow> int \<Rightarrow> int \<times> int" where
  "bit_loop sub bits k v w = (shift_once (if sub = 6 then 4 else sub) bits ^^ k) (v, w AND CF)"

lemma shl386:
  assumes "0 < bits" and "0 < k" and "k \<le> bits" and "sub = 4 \<or> sub = 6"
  shows "bit_loop sub bits k v w = (push_bit k v AND ones bits, drop_bit (bits - k) v AND 1)"
  using assms by (auto simp: bit_loop_def shl_loop ones_def mask_take drop_and_one)

lemma shr386:
  assumes "urange bits v" and "0 < k"
  shows "bit_loop 5 bits k v w = (drop_bit k (v AND ones bits), drop_bit (k - 1) v AND 1)"
  using assms by (simp add: bit_loop_def shr_loop ones_def mask_take drop_and_one urange_take)

lemma sar386:
  assumes "urange bits v" and "0 < k" and "0 < bits"
  shows "bit_loop 7 bits k v w = (drop_bit k (sign386 v bits) AND ones bits, drop_bit (k - 1) (sign386 v bits) AND 1)"
proof -
  obtain b where b: "bits = Suc b"
    using assms(3) by (cases bits) auto
  show ?thesis
    using assms(1,2) unfolding b ones_def mask_take drop_and_one
    by (simp add: bit_loop_def sar_loop sign386_is bit_signed_take_bit_iff min.commute)
qed

lemma rol386:
  assumes "urange bits v" and "0 < bits" and "k mod bits \<noteq> 0"
  shows "bit_loop 0 bits k v w = (let res = (push_bit (k mod bits) v OR drop_bit (bits - k mod bits) v) AND ones bits in
    (res, res AND 1))"
  using assms by (auto simp: bit_loop_def rol_loop rotl_def ones_def mask_take and_one_bit Let_def intro: ccontr)

lemma ror386:
  assumes "urange bits v" and "0 < bits" and "k mod bits \<noteq> 0"
  shows "bit_loop 1 bits k v w = (let res = (drop_bit (k mod bits) v OR push_bit (bits - k mod bits) v) AND ones bits in
    (res, drop_bit (bits - 1) res AND 1))"
  using assms by (auto simp: bit_loop_def ror_loop rotr_def ones_def mask_take drop_and_one Let_def intro: ccontr)

lemma through_carry:
  assumes "urange bits v" and "0 < bits" and "sub = 2 \<or> sub = 3"
  shows "bit_loop sub bits k v w = (rotate_carry (sub = 2) bits ^^ (k mod (bits + 1))) (v, w AND CF)"
proof -
  let ?x = "with_carry bits (v, w AND CF)"
  note u = with_carry_urange [OF assms(1) carry_of_bool, of w]
  note x = without_with_carry [OF assms(1) carry_of_bool, of w]
  show ?thesis
    using assms(3) rcl_loop [OF u assms(2)] rcr_loop [OF u assms(2)]
    by (auto simp: bit_loop_def rotate_carry_is x)
qed

section \<open>The instruction\<close>

lemma shift386_register:
  assumes "reg_val i sz (gpr c) = v" and "count AND 0x1F = int k" and "0 < k"
  shows "sub = 4 \<or> sub = 6 \<Longrightarrow> k \<le> sz * 8 \<Longrightarrow> shift386 sub (True, i) sz count c =
      shift_done (True, i) sz (push_bit k v AND ones (sz * 8)) (drop_bit (sz * 8 - k) v AND 1 \<noteq> 0)
        (if k = 1 then Some ((drop_bit (sz * 8 - 1) (push_bit k v AND ones (sz * 8)) AND 1) XOR
           (drop_bit (sz * 8 - k) v AND 1) \<noteq> 0) else None) c"
    and "sub = 5 \<Longrightarrow> shift386 sub (True, i) sz count c =
      shift_done (True, i) sz (drop_bit k (v AND ones (sz * 8))) (drop_bit (k - 1) v AND 1 \<noteq> 0)
        (if k = 1 then Some (drop_bit (sz * 8 - 1) v AND 1 \<noteq> 0) else None) c"
    and "sub = 7 \<Longrightarrow> shift386 sub (True, i) sz count c =
      shift_done (True, i) sz (drop_bit k (sign386 v (sz * 8)) AND ones (sz * 8))
        (drop_bit (k - 1) (sign386 v (sz * 8)) AND 1 \<noteq> 0) (if k = 1 then Some False else None) c"
  using assms
  by (auto simp: shift386_def Let_def rm_read_def reg386_def get386_def py_shr_def nat_diff_distrib' cong: if_cong)

lemma rotate386_register:
  assumes "reg_val i sz (gpr c) = v" and "count AND 0x1F = int k" and "0 < k"
  defines "rotated \<equiv> (\<lambda>(res, cf). (Inr (), c\<lparr>gpr := reg_put i sz res (gpr c), eflags := flag_set CF (cf \<noteq> 0) (eflags c)\<rparr>))"
  shows "sub = 0 \<Longrightarrow> k mod (sz * 8) \<noteq> 0 \<Longrightarrow> shift386 sub (True, i) sz count c =
      rotated (let res = (push_bit (k mod (sz * 8)) v OR drop_bit (sz * 8 - k mod (sz * 8)) v) AND ones (sz * 8) in (res, res AND 1))"
    and "sub = 1 \<Longrightarrow> k mod (sz * 8) \<noteq> 0 \<Longrightarrow> shift386 sub (True, i) sz count c =
      rotated (let res = (drop_bit (k mod (sz * 8)) v OR push_bit (sz * 8 - k mod (sz * 8)) v) AND ones (sz * 8) in
        (res, drop_bit (sz * 8 - 1) res AND 1))"
    and "sub = 2 \<or> sub = 3 \<Longrightarrow> shift386 sub (True, i) sz count c =
      rotated ((rotate_carry (sub = 2) (sz * 8) ^^ (k mod (sz * 8 + 1))) (v, b2i (eflags c AND CF \<noteq> 0)))"
  using assms(1,2,3)
  by (auto simp: shift386_def Let_def rm_read_def reg386_def get386_def rm_write_def set_reg386_def upd386_def
    set_flag386_def rotated_def split_beta cong: if_cong)

lemma shift_done_gives:
  assumes "m = shift_done (True, i) sz r (x AND 1 \<noteq> 0) ovf c" and "L = (r, x AND 1)"
    and "u12 (eflags c)" and "urange (sz * 8) r" and "0 < sz * 8"
  shows "\<exists>w. m = (Inr (), c\<lparr>gpr := reg_put i sz (fst L) (gpr c), eflags := w\<rparr>) \<and> (bit w 0 \<longleftrightarrow> snd L \<noteq> 0)
    \<and> ((sub :: int) \<ge> 4 \<longrightarrow> (let r = fst L in (bit w 6 \<longleftrightarrow> r = 0) \<and> (bit w 7 \<longleftrightarrow> bit r (sz * 8 - 1)) \<and> (bit w 2 \<longleftrightarrow> PARITY (r AND 0xFF))))"
  using shift_word_bits [OF assms(3,4,5)] unfolding assms(1,2) shift_done_reg
  by (intro exI [of _ "shift_word r (sz * 8) (x AND 1 \<noteq> 0) ovf (eflags c)"]) (simp add: Let_def)

lemma carry_b2i: "b2i (w AND CF \<noteq> 0) = w AND CF"
  by (simp add: b2i_def CF_def mask_simps)

text \<open>
  A narrow SHL by more than the operand's width (AL by 9 to 31, AX by 17 to 31), which the processor
  and the 16-bit interpreter answer with 0, raises a ValueError: the code shifts right by a negative
  count.
\<close>

theorem narrow_shl_raises:
  fixes c c' :: "'w cpu386"
  assumes "rm_read opd sz c = (Inr v, c')" and "sub = 4 \<or> sub = 6" and "int (sz * 8) < count AND 0x1F"
  shows "shift386 sub opd sz count c = (Inl PyValueError, c') \<and>
    shift_res_cf 4 v (nat (count AND 0x1F)) (sz * 8) (eflags c) = Some (0, 0)"
  using assms by (auto simp: shift386_def shift_res_cf_def Let_def py_shr_def)

text \<open>The counts for which the instruction takes the steps of the loop.\<close>

lemma shift386_loops:
  fixes c :: "'w cpu386"
  assumes "urange (sz * 8) (reg_val i sz (gpr c))" and "u12 (eflags c)" and "0 < sz"
    and "count AND 0x1F = int k" and "0 < k" and "sub \<in> {0, 1, 2, 3, 4, 5, 6, 7}"
    and "sub \<in> {4, 6} \<Longrightarrow> k \<le> sz * 8" and "sub \<in> {0, 1} \<Longrightarrow> k mod (sz * 8) \<noteq> 0"
  shows "\<exists>w. shift386 sub (True, i) sz count c = (Inr (), c\<lparr>gpr :=
      reg_put i sz (fst (bit_loop sub (sz * 8) k (reg_val i sz (gpr c)) (eflags c))) (gpr c), eflags := w\<rparr>)
    \<and> (bit w 0 \<longleftrightarrow> snd (bit_loop sub (sz * 8) k (reg_val i sz (gpr c)) (eflags c)) \<noteq> 0)
    \<and> (sub \<ge> 4 \<longrightarrow> (let r = fst (bit_loop sub (sz * 8) k (reg_val i sz (gpr c)) (eflags c)) in
        (bit w 6 \<longleftrightarrow> r = 0) \<and> (bit w 7 \<longleftrightarrow> bit r (sz * 8 - 1)) \<and> (bit w 2 \<longleftrightarrow> PARITY (r AND 0xFF))))"
proof -
  let ?v = "reg_val i sz (gpr c)"
  note v = assms(1)
  have pos: "0 < sz * 8"
    using assms by simp
  have u: "urange (sz * 8) (x AND ones (sz * 8))" for x
    by (simp add: ones_def mask_take urange_take)
  have u5: "urange (sz * 8) (drop_bit k (?v AND ones (sz * 8)))"
  proof -
    have "?v AND ones (sz * 8) = ?v"
      using v by (simp add: ones_def mask_take urange_take)
    moreover have "0 \<le> drop_bit k ?v" "drop_bit k ?v \<le> ?v"
      using v zdiv_mono2 [of ?v 1 "2 ^ k"] by (simp_all add: urange_def drop_bit_eq_div pos_imp_zdiv_nonneg_iff)
    ultimately show ?thesis
      using v by (simp add: urange_def)
  qed
  note reg = shift386_register [where c = c and i = i and sz = sz and sub = sub, OF refl assms(4,5)]
  note rot = rotate386_register [where c = c and i = i and sz = sz and sub = sub, OF refl assms(4,5), unfolded carry_b2i]
  consider "sub = 0" | "sub = 1" | "sub = 2 \<or> sub = 3" | "sub = 4 \<or> sub = 6" | "sub = 5" | "sub = 7"
    using assms(6) by auto
  then show ?thesis
  proof cases
    case 1
    then show ?thesis
      using rot(1) assms(8) by (auto simp: rol386 [OF v pos] Let_def bit_flag_set_at split_beta)
  next
    case 2
    then show ?thesis
      using rot(2) assms(8) by (auto simp: ror386 [OF v pos] Let_def bit_flag_set_at split_beta)
  next
    case 3
    then show ?thesis
      using rot(3) by (auto simp: through_carry [OF v pos 3] bit_flag_set_at split_beta)
  next
    case 4
    then show ?thesis
      by (intro shift_done_gives [OF reg(1) shl386 assms(2) u pos] pos assms(5,7)) auto
  next
    case 5
    then show ?thesis
      using shift_done_gives [OF reg(2) shr386 assms(2) u5 pos, OF 5 v assms(5), of "eflags c" sub] by simp
  next
    case 6
    then show ?thesis
      using shift_done_gives [OF reg(3) sar386 assms(2) u pos, OF 6 v assms(5) pos, of "eflags c" sub] by simp
  qed
qed

text \<open>The counts for which it does not.\<close>

lemma shift386_zero: "count AND 0x1F = 0 \<Longrightarrow> shift386 sub (True, i) sz count c = (Inr (), c)"
  by (simp add: shift386_def rm_read_def reg386_def get386_def Let_def)

lemma shift386_full_turn:
  assumes "urange (sz * 8) (reg_val i sz (gpr c))" "count AND 0x1F = int k" "sub \<in> {0, 1}" "0 < sz" "sz * 8 dvd k"
  shows "shift386 sub (True, i) sz count c = (Inr (), c)"
    and "fst (bit_loop sub (sz * 8) k (reg_val i sz (gpr c)) w) = reg_val i sz (gpr c)"
proof -
  have Z: "drop_bit (sz * 8) (reg_val i sz (gpr c)) = 0"
    using assms(1) by (simp add: urange_def drop_bit_eq_div)
  show "shift386 sub (True, i) sz count c = (Inr (), c)"
    using assms by (auto simp: shift386_def rm_read_def reg386_def get386_def Let_def)
  show "fst (bit_loop sub (sz * 8) k (reg_val i sz (gpr c)) w) = reg_val i sz (gpr c)"
    using assms Z by (auto simp: bit_loop_def rol_loop ror_loop rotl_def rotr_def urange_take take_bit_push_bit)
qed

text \<open>
  C27: a shift or rotate of a register by the 32-bit interpreter, in each of the eight encodings and
  for every count, is the masked count of single-bit steps: the register ends with the loop's result
  and CF with its carry, and the shifts set ZF, SF and PF from the result.  What the code does
  otherwise is stated too: a masked count of 0 changes nothing, a SHL of a narrow register by more
  than its width raises, and a ROL or ROR by a multiple of the width brings the register back to its
  value as the loop does, but leaves CF as it was.
\<close>

theorem shift386_is_bit_loop:
  fixes c :: "'w cpu386"
  assumes "urange (sz * 8) (reg_val i sz (gpr c))" and "u12 (eflags c)" and "0 < sz"
    and "count AND 0x1F = int k" and "sub \<in> {0, 1, 2, 3, 4, 5, 6, 7}"
  shows "if k = 0 then shift386 sub (True, i) sz count c = (Inr (), c)
    else if sub \<in> {4, 6} \<and> sz * 8 < k then shift386 sub (True, i) sz count c = (Inl PyValueError, c)
    else if sub \<in> {0, 1} \<and> sz * 8 dvd k then shift386 sub (True, i) sz count c = (Inr (), c)
      \<and> fst (bit_loop sub (sz * 8) k (reg_val i sz (gpr c)) (eflags c)) = reg_val i sz (gpr c)
    else \<exists>w. shift386 sub (True, i) sz count c = (Inr (), c\<lparr>gpr :=
        reg_put i sz (fst (bit_loop sub (sz * 8) k (reg_val i sz (gpr c)) (eflags c))) (gpr c), eflags := w\<rparr>)
      \<and> (bit w 0 \<longleftrightarrow> snd (bit_loop sub (sz * 8) k (reg_val i sz (gpr c)) (eflags c)) \<noteq> 0)
      \<and> (sub \<ge> 4 \<longrightarrow> (let r = fst (bit_loop sub (sz * 8) k (reg_val i sz (gpr c)) (eflags c)) in
          (bit w 6 \<longleftrightarrow> r = 0) \<and> (bit w 7 \<longleftrightarrow> bit r (sz * 8 - 1)) \<and> (bit w 2 \<longleftrightarrow> PARITY (r AND 0xFF))))"
proof -
  consider "k = 0" | "k \<noteq> 0" "sub \<in> {4, 6}" "sz * 8 < k" | "k \<noteq> 0" "sub \<in> {0, 1}" "sz * 8 dvd k"
    | "0 < k" "sub \<in> {4, 6} \<Longrightarrow> k \<le> sz * 8" "sub \<in> {0, 1} \<Longrightarrow> k mod (sz * 8) \<noteq> 0"
    using not_le [of k "sz * 8"] mod_eq_0_iff_dvd [of k "sz * 8"] by blast
  then show ?thesis
  proof cases
    case 1
    then show ?thesis using shift386_zero assms(4) by simp
  next
    case 2
    then show ?thesis using narrow_shl_raises [of "(True, i)" sz c _ c sub count] assms(4)
      by (auto simp: rm_read_def reg386_def get386_def)
  next
    case 3
    then have "sub \<notin> {4, 6}" by auto
    then show ?thesis using 3 shift386_full_turn [OF assms(1,4) 3(2) assms(3) 3(3)] by simp
  next
    case 4
    have "\<not> (sub \<in> {4, 6} \<and> sz * 8 < k)" "\<not> (sub \<in> {0, 1} \<and> sz * 8 dvd k)" "k \<noteq> 0"
      using 4 by (auto simp: mod_eq_0_iff_dvd)
    then show ?thesis using shift386_loops [OF assms(1-4) 4(1) assms(5) 4(2,3)] by (simp only: if_False)
  qed
qed

theorem shift386_is_bit_loop_witness:
  "\<exists>w. shift386 3 (True, 5) 1 10 ((CPU386_init (FlatMemory 16) 0 0 0 0 ())\<lparr>gpr := [0, 0x8100, 0, 0, 0, 0, 0, 0]\<rparr>) =
      (Inr (), (CPU386_init (FlatMemory 16) 0 0 0 0 ())\<lparr>gpr := [0, 0x4000, 0, 0, 0, 0, 0, 0], eflags := w\<rparr>)
    \<and> (bit w 0 \<longleftrightarrow> True) \<and> ((3::int) \<ge> 4 \<longrightarrow> True)"
proof -
  let ?c = "(CPU386_init (FlatMemory 16) 0 0 0 0 ())\<lparr>gpr := [0, 0x8100, 0, 0, 0, 0, 0, 0]\<rparr>"
  have v: "reg_val 5 1 (gpr ?c) = 0x81" "eflags ?c = 0x202"
    by (simp_all add: reg_val_def CPU386_init_def)
  have loop: "bit_loop 3 (1 * 8) 10 0x81 0x202 = (0x40, 1)"
    by code_simp
  have put: "reg_put 5 1 0x40 (gpr ?c) = [0, 0x4000, 0, 0, 0, 0, 0, 0]"
    by (simp add: reg_put_def)
  show ?thesis
    using shift386_is_bit_loop [of 1 5 ?c 10 10 3, unfolded v loop fst_conv snd_conv put]
    by (simp add: urange_def u12_def)
qed

theorem narrow_shl_raises_witness:
  "shift386 4 (True, 0) 1 9 (CPU386_init (FlatMemory 16) 0 0 0 0 ()) =
      (Inl PyValueError, CPU386_init (FlatMemory 16) 0 0 0 0 ()) \<and>
    shift_res_cf 4 0 (nat (9 AND 0x1F)) (1 * 8) (eflags (CPU386_init (FlatMemory 16) 0 0 0 0 ())) = Some (0, 0)"
  by (rule narrow_shl_raises) (simp_all add: rm_read_def reg386_def get386_def reg_val_def CPU386_init_def)

end
