(* ===== verification/CPU386_FPU.thy ===== *)
theory CPU386_FPU
  imports CPU386_Alu
begin

text \<open>
  The x87 unit of \<open>dos_re/cpu386.py\<close>.  A register is a Python float (theory \<open>Doubles\<close>); ST(0) is the
  last element of the list, as in the code.  Memory operands are slices of the flat memory, past the
  planar VGA.
\<close>

section \<open>The register stack\<close>

definition fpush386 :: "f64 \<Rightarrow> ('w, unit) op386" where
  "fpush386 v = bindM (get386 st386) (\<lambda>st.
     if length st \<ge> 8 then raise UnsupportedInstruction else upd386 (\<lambda>c. c\<lparr>st386 := st @ [v]\<rparr>))"

definition fpop386 :: "('w, unit) op386" where
  "fpop386 = bindM (get386 st386) (\<lambda>st.
     if st = [] then raise UnsupportedInstruction else upd386 (\<lambda>c. c\<lparr>st386 := butlast st\<rparr>))"

text \<open>\<open>self.st[-1 - i]\<close>: an IndexError when the stack is not that deep.\<close>

definition fst_i :: "nat \<Rightarrow> ('w, f64) op386" where
  "fst_i i = bindM (get386 st386) (\<lambda>st.
     if i < length st then ret (st ! (length st - 1 - i)) else raise PyIndexError)"

definition fst_put :: "nat \<Rightarrow> f64 \<Rightarrow> ('w, unit) op386" where
  "fst_put i v = bindM (get386 st386) (\<lambda>st.
     if i < length st then upd386 (\<lambda>c. c\<lparr>st386 := st[length st - 1 - i := v]\<rparr>) else raise PyIndexError)"

definition fround386 :: "f64 \<Rightarrow> ('w, int) op386" where
  "fround386 v = bindM (get386 (\<lambda>c. drop_bit 10 (fcw386 c) AND 3)) (\<lambda>rc.
     lift_exn (if rc = 0 then f_to_int round_even v else if rc = 1 then f_to_int frac_floor v
       else if rc = 2 then f_to_int frac_ceil v else f_to_int frac_trunc v))"

definition fcompare386 :: "f64 \<Rightarrow> f64 \<Rightarrow> ('w, unit) op386" where
  "fcompare386 a b = upd386 (\<lambda>c. let w = fsw386 c AND NOT 0x4700 in
     c\<lparr>fsw386 := (if f_isnan a \<or> f_isnan b then w OR 0x4500 else if f_eq a b then w OR 0x4000
       else if f_lt a b then w OR 0x0100 else w)\<rparr>)"

text \<open>Masked division: \<open>n / 0\<close> is an infinity, \<open>0 / 0\<close> is not a number.\<close>

definition fdiv386 :: "float_ops \<Rightarrow> f64 \<Rightarrow> f64 \<Rightarrow> f64" where
  "fdiv386 fo a b =
     (if f_iszero b then
        (if f_iszero a \<or> f_isnan a then f_nan else if f_sign a \<noteq> f_sign b then f_neg f_inf else f_inf)
      else fo_div fo a b)"

section \<open>Arithmetic\<close>

definition farith386 :: "float_ops \<Rightarrow> int \<Rightarrow> f64 \<Rightarrow> ('w, unit) op386" where
  "farith386 fo sub other = bindM (fst_i 0) (\<lambda>a.
     if sub = 0 then fst_put 0 (fo_add fo a other)
     else if sub = 1 then fst_put 0 (fo_mul fo a other)
     else if sub = 2 then fcompare386 a other
     else if sub = 3 then thenM (fcompare386 a other) fpop386
     else if sub = 4 then fst_put 0 (fo_sub fo a other)
     else if sub = 5 then fst_put 0 (fo_sub fo other a)
     else if sub = 6 then fst_put 0 (fdiv386 fo a other)
     else fst_put 0 (fdiv386 fo other a))"

definition fpu_arith_reg :: "float_ops \<Rightarrow> int \<Rightarrow> int \<Rightarrow> nat \<Rightarrow> ('w, unit) op386" where
  "fpu_arith_reg fo op reg rm = bindM (fst_i 0) (\<lambda>st0. bindM (fst_i rm) (\<lambda>sti.
     if reg = 2 then fcompare386 st0 sti
     else if reg = 3 then thenM (fcompare386 st0 sti) fpop386
     else let d8 = (op = 0xD8); a = (if d8 then st0 else sti); b = (if d8 then sti else st0);
              dest = (if d8 then 0 else rm);
              r = (if reg = 0 then fo_add fo a b
                   else if reg = 1 then fo_mul fo a b
                   else if reg = 4 then (if d8 then fo_sub fo a b else fo_sub fo b a)
                   else if reg = 5 then (if d8 then fo_sub fo b a else fo_sub fo a b)
                   else if reg = 6 then (if d8 then fdiv386 fo a b else fdiv386 fo b a)
                   else (if d8 then fdiv386 fo b a else fdiv386 fo a b)) in
       thenM (fst_put dest r) (if op = 0xDE then fpop386 else ret ())))"

section \<open>Register forms\<close>

definition fpu_reg :: "float_ops \<Rightarrow> int \<Rightarrow> int \<Rightarrow> nat \<Rightarrow> int \<Rightarrow> ('w, unit) op386" where
  "fpu_reg fo op reg rm modrm =
     (if op = 0xDB \<and> reg = 4 \<and> rm = 3 then
        upd386 (\<lambda>c. c\<lparr>st386 := [], fsw386 := 0, fcw386 := 0x037F\<rparr>)
      else if op = 0xDB \<and> reg = 4 \<and> rm = 2 then upd386 (\<lambda>c. c\<lparr>fsw386 := fsw386 c AND 0x7F00\<rparr>)
      else if op = 0xDB \<and> reg = 4 \<and> rm \<le> 1 then ret ()
      else if op = 0xD9 \<and> modrm = 0xEE then fpush386 f_zero
      else if op = 0xD9 \<and> modrm = 0xE8 then fpush386 f_one
      else if op = 0xD9 \<and> modrm = 0xE0 then bindM (fst_i 0) (\<lambda>v. fst_put 0 (f_neg v))
      else if op = 0xD9 \<and> modrm = 0xE1 then bindM (fst_i 0) (\<lambda>v. fst_put 0 (f_abs v))
      else if op = 0xD9 \<and> reg = 0 then bindM (fst_i rm) fpush386
      else if op = 0xD9 \<and> reg = 1 then
        bindM (fst_i rm) (\<lambda>x. bindM (fst_i 0) (\<lambda>y. thenM (fst_put 0 x) (fst_put rm y)))
      else if op = 0xDD \<and> reg = 3 then bindM (fst_i 0) (\<lambda>v. thenM (fst_put rm v) fpop386)
      else if op = 0xDD \<and> reg = 0 then ret ()
      else if op = 0xDF \<and> modrm = 0xE0 then bindM (get386 fsw386) (set_reg386 EAX 2)
      else if op = 0xDE \<and> modrm = 0xD9 then
        bindM (fst_i 0) (\<lambda>a. bindM (fst_i 1) (\<lambda>b.
          thenM (fcompare386 a b) (thenM fpop386 fpop386)))
      else if op = 0xD8 \<or> op = 0xDC \<or> op = 0xDE then fpu_arith_reg fo op reg rm
      else raise UnsupportedInstruction)"

section \<open>Memory forms\<close>

text \<open>\<open>struct.unpack\<close> of a slice: an error when the slice was clipped at the end of the memory.\<close>

definition unpack_block :: "int \<Rightarrow> nat \<Rightarrow> ('w, int) op386" where
  "unpack_block a n = bindM (get386 (\<lambda>c. flat_block a (int n) (mem386 c))) (\<lambda>bs.
     if length bs = n then ret (le_int (map uint bs)) else raise PyStructError)"

definition load_f32 :: "float_ops \<Rightarrow> int \<Rightarrow> ('w, f64) op386" where
  "load_f32 fo a = bindM (unpack_block a 4) (\<lambda>v. ret (fo_of_f32 fo v))"

definition load_f64 :: "int \<Rightarrow> ('w, f64) op386" where
  "load_f64 a = bindM (unpack_block a 8) (\<lambda>v. ret (word_of_int v))"

text \<open>\<open>m.data[a:a+n] = struct.pack(...)\<close>.\<close>

definition store_block :: "int \<Rightarrow> int list \<Rightarrow> ('w, unit) op386" where
  "store_block a bs = upd386 (\<lambda>c. c\<lparr>mem386 := flat_load a (map word_of_int bs) (mem386 c)\<rparr>)"

definition fread_int :: "int \<Rightarrow> nat \<Rightarrow> ('w, int) op386" where
  "fread_int a n = bindM (on_flat (flat_read a n)) (\<lambda>v. ret (sign386 v (8 * n)))"

definition fpu_mem :: "float_ops \<Rightarrow> int \<Rightarrow> int \<Rightarrow> int \<Rightarrow> ('w, unit) op386" where
  "fpu_mem fo op reg a =
     (let pop_if = (if reg = 3 then fpop386 else ret ()); push_int = (\<lambda>v. bindM (lift_exn (fo_of_int fo v)) fpush386) in
      if op = 0xD9 \<and> reg = 5 then bindM (on_flat (flat_read a 2)) (\<lambda>v. upd386 (\<lambda>c. c\<lparr>fcw386 := v\<rparr>))
      else if op = 0xD9 \<and> reg = 7 then bindM (get386 fcw386) (\<lambda>v. on_flat (flat_write a 2 v))
      else if op = 0xD9 \<and> reg = 0 then bindM (load_f32 fo a) fpush386
      else if op = 0xD9 \<and> (reg = 2 \<or> reg = 3) then
        bindM (fst_i 0) (\<lambda>v. bindM (lift_exn (fo_to_f32 fo v)) (\<lambda>w. thenM (store_block a (le_bytes 4 w)) pop_if))
      else if op = 0xDD \<and> reg = 0 then bindM (load_f64 a) fpush386
      else if op = 0xDD \<and> (reg = 2 \<or> reg = 3) then
        bindM (fst_i 0) (\<lambda>v. thenM (store_block a (double_bits v)) pop_if)
      else if op = 0xDD \<and> reg = 7 then bindM (get386 fsw386) (\<lambda>v. on_flat (flat_write a 2 v))
      else if op = 0xDB \<and> reg = 0 then bindM (fread_int a 4) push_int
      else if op = 0xDB \<and> reg = 3 then
        bindM (fst_i 0) (\<lambda>v. bindM (fround386 v) (\<lambda>n.
          thenM (on_flat (flat_write a 4 (mask32 n))) fpop386))
      else if op = 0xDF \<and> reg = 0 then bindM (fread_int a 2) push_int
      else if op = 0xDF \<and> reg = 5 then
        bindM (on_flat (flat_read a 4)) (\<lambda>lo. bindM (on_flat (flat_read (a + 4) 4)) (\<lambda>hi.
          push_int (sign386 (lo OR push_bit 32 hi) 64)))
      else if op = 0xDF \<and> reg = 7 then
        bindM (fst_i 0) (\<lambda>x. bindM (fround386 x) (\<lambda>v.
          thenM (on_flat (flat_write a 4 (mask32 v)))
         (thenM (on_flat (flat_write (a + 4) 4 (mask32 (drop_bit 32 v)))) fpop386)))
      else if op = 0xD8 then bindM (load_f32 fo a) (farith386 fo reg)
      else if op = 0xDC then bindM (load_f64 a) (farith386 fo reg)
      else raise UnsupportedInstruction)"

definition fpu386 :: "float_ops \<Rightarrow> int \<Rightarrow> ('w, unit) op386" where
  "fpu386 fo op = bindM fetch8_386 (\<lambda>m.
     let md = drop_bit 6 m; reg = drop_bit 3 m AND 7; rm = m AND 7 in
     if md = 3 then fpu_reg fo op reg (nat rm) m else bindM (memaddr md rm) (fpu_mem fo op reg))"

end
