(* ===== verification/CPU386_Exec.thy ===== *)
theory CPU386_Exec
  imports CPU386_String CPU386_FPU
begin

text \<open>
  The instructions of \<open>dos_re/cpu386.py\<close>: the ladder of \<open>_exec\<close> cut into one definition per group of
  branches, in the order of the code, with the groups it calls out to (\<open>_alu\<close>, \<open>_grp3\<close>, \<open>_grp5\<close>,
  \<open>_grp7\<close>, \<open>_two_byte\<close>).
\<close>

section \<open>Shared steps\<close>

definition op_width :: "bool \<Rightarrow> nat \<Rightarrow> nat" where
  "op_width byte osz = (if byte then 1 else osz)"

text \<open>\<open>self.eip = (self.eip + disp) & 0xFFFFFFFF\<close>.\<close>

definition jump386 :: "bool \<Rightarrow> int \<Rightarrow> ('w, unit) op386" where
  "jump386 go disp = (if go then upd386 (\<lambda>c. c\<lparr>eip := mask32 (eip c + disp)\<rparr>) else ret ())"

definition pop_reg :: "nat \<Rightarrow> int \<Rightarrow> ('w, unit) op386" where
  "pop_reg osz i = bindM (pop386 osz) (set_reg386 i osz)"

definition pop_seg :: "nat \<Rightarrow> seg386 \<Rightarrow> ('w, unit) op386" where
  "pop_seg osz s = bindM (pop386 osz) (set_seg s)"

definition push_seg :: "nat \<Rightarrow> seg386 \<Rightarrow> ('w, unit) op386" where
  "push_seg osz s = bindM (get386 (\<lambda>c. sel386 c s)) (\<lambda>v. push386 v osz)"

text \<open>\<open>_SEG[reg]\<close> has six entries.\<close>

definition seg_index :: "int \<Rightarrow> ('w, seg386) op386" where
  "seg_index i = (if i < 6 then ret ([SegES, SegCS, SegSS, SegDS, SegFS, SegGS] ! nat i) else raise PyIndexError)"

section \<open>Segments, arithmetic and the stack\<close>

definition SEG_PUSHPOP :: "(int \<times> seg386 \<times> bool) list" where
  "SEG_PUSHPOP = [(0x06, SegES, True), (0x07, SegES, False), (0x0E, SegCS, True), (0x16, SegSS, True),
     (0x17, SegSS, False), (0x1E, SegDS, True), (0x1F, SegDS, False)]"

definition alu386 :: "int \<Rightarrow> nat \<Rightarrow> ('w, unit) op386" where
  "alu386 op osz =
     (let aluop = drop_bit 3 op; form = op AND 7; dst = (\<lambda>d. if aluop = 7 then None else Some d) in
      if form \<in> {0, 1, 2, 3} then
        (let sz = op_width (form = 0 \<or> form = 2) osz in
         bindM modrm386 (\<lambda>(reg, opd).
           if form = 0 \<or> form = 1 then
             bindM (rm_read opd sz) (\<lambda>a. bindM (reg386 reg sz) (\<lambda>b.
               alu_op aluop a b (sz * 8) (dst (opd, sz))))
           else
             bindM (reg386 reg sz) (\<lambda>a. bindM (rm_read opd sz) (\<lambda>b.
               alu_op aluop a b (sz * 8) (dst ((True, reg), sz))))))
      else
        (let sz = op_width (form = 4) osz in
         bindM (reg386 EAX sz) (\<lambda>a. bindM (fetch_imm386 sz) (\<lambda>b.
           alu_op aluop a b (sz * 8) (dst ((True, EAX), sz))))))"

text \<open>INC and DEC: the flags of the addition or subtraction of 1 with the carry kept.\<close>

definition incdec386 :: "bool \<Rightarrow> int \<Rightarrow> nat \<Rightarrow> ('w, unit) op386" where
  "incdec386 dec v bits = upd_eflags (\<lambda>w.
     ((if dec then flags_sub v 1 (v - 1) bits 0 w else flags_add v 1 (v + 1) bits 0 w) AND NOT CF) OR (w AND CF))"

definition incdec_reg :: "bool \<Rightarrow> int \<Rightarrow> nat \<Rightarrow> ('w, unit) op386" where
  "incdec_reg dec i osz = bindM (reg386 i osz) (\<lambda>v.
     thenM (incdec386 dec v (osz * 8))
       (set_reg386 i osz ((if dec then v - 1 else v + 1) AND ones (osz * 8))))"

definition pusha386 :: "nat \<Rightarrow> ('w, unit) op386" where
  "pusha386 osz = bindM (get386 (\<lambda>c. gpr c ! 4)) (\<lambda>temp.
     let push_reg = (\<lambda>i. bindM (reg386 i osz) (\<lambda>v. push386 v osz)) in
     thenM (seqM (map push_reg [EAX, ECX, EDX, EBX]))
    (thenM (push386 temp osz) (seqM (map push_reg [EBP, ESI, EDI]))))"

definition popa386 :: "nat \<Rightarrow> ('w, unit) op386" where
  "popa386 osz =
     thenM (seqM (map (pop_reg osz) [EDI, ESI, EBP]))
    (thenM (thenM (pop386 osz) (ret ())) (seqM (map (pop_reg osz) [EBX, EDX, ECX, EAX])))"

definition imul_imm386 :: "int \<Rightarrow> nat \<Rightarrow> ('w, unit) op386" where
  "imul_imm386 op osz = bindM modrm386 (\<lambda>(reg, opd). bindM (rm_read opd osz) (\<lambda>v.
     bindM (if op = 0x6B then fetch_sign8 else bindM (fetch_imm386 osz) (\<lambda>d. ret (sign386 d (osz * 8)))) (\<lambda>imm.
       imul_store reg osz (sign386 v (osz * 8)) imm)))"

definition grp1_386 :: "int \<Rightarrow> nat \<Rightarrow> ('w, unit) op386" where
  "grp1_386 op osz =
     (let sz = op_width (op = 0x80) osz; b = sz * 8 in
      bindM modrm386 (\<lambda>(reg, opd).
      bindM (if op = 0x83 then bindM fetch_sign8 (\<lambda>d. ret (d AND ones b)) else fetch_imm386 sz) (\<lambda>imm.
      bindM (rm_read opd sz) (\<lambda>v.
        alu_op reg v imm b (if reg = 7 then None else Some (opd, sz))))))"

section \<open>Moves\<close>

definition test_rm386 :: "nat \<Rightarrow> ('w, unit) op386" where
  "test_rm386 sz = bindM modrm386 (\<lambda>(reg, opd). bindM (rm_read opd sz) (\<lambda>a. bindM (reg386 reg sz) (\<lambda>b.
     upd_eflags (flags_logic (a AND b) (sz * 8)))))"

definition xchg_rm386 :: "nat \<Rightarrow> ('w, unit) op386" where
  "xchg_rm386 sz = bindM modrm386 (\<lambda>(reg, opd). bindM (rm_read opd sz) (\<lambda>a. bindM (reg386 reg sz) (\<lambda>b.
     thenM (rm_write opd sz b) (set_reg386 reg sz a))))"

definition mov_rm386 :: "int \<Rightarrow> nat \<Rightarrow> ('w, unit) op386" where
  "mov_rm386 op sz = bindM modrm386 (\<lambda>(reg, opd).
     if op = 0x88 \<or> op = 0x89 then bindM (reg386 reg sz) (rm_write opd sz)
     else bindM (rm_read opd sz) (set_reg386 reg sz))"

definition lea386 :: "nat \<Rightarrow> ('w, unit) op386" where
  "lea386 osz = bindM modrm386 (\<lambda>(reg, opd). set_reg386 reg osz (snd opd))"

definition mov_seg386 :: "int \<Rightarrow> ('w, unit) op386" where
  "mov_seg386 op = bindM modrm386 (\<lambda>(reg, opd).
     if op = 0x8C then bindM (seg_index reg) (\<lambda>s. bindM (get386 (\<lambda>c. sel386 c s)) (rm_write opd 2))
     else bindM (seg_index reg) (\<lambda>s. bindM (rm_read opd 2) (set_seg s)))"

definition pop_rm386 :: "nat \<Rightarrow> ('w, unit) op386" where
  "pop_rm386 osz = bindM modrm386 (\<lambda>(reg, opd). bindM (pop386 osz) (rm_write opd osz))"

definition xchg_eax :: "int \<Rightarrow> nat \<Rightarrow> ('w, unit) op386" where
  "xchg_eax i osz = bindM (reg386 EAX osz) (\<lambda>a. bindM (reg386 i osz) (\<lambda>b.
     thenM (set_reg386 EAX osz b) (set_reg386 i osz a)))"

text \<open>CBW, CWDE, CWD, CDQ, SAHF, LAHF, PUSHF, POPF.\<close>

definition convert386 :: "int \<Rightarrow> nat \<Rightarrow> ('w, unit) op386" where
  "convert386 op osz =
     (let bits = osz * 8 in
      if op = 0x98 then bindM (reg386 EAX (osz div 2)) (\<lambda>v.
        set_reg386 EAX osz (sign386 v (bits div 2) AND ones bits))
      else bindM (reg386 EAX osz) (\<lambda>v.
        set_reg386 EDX osz (if v AND push_bit (bits - 1) 1 \<noteq> 0 then ones bits else 0)))"

definition flags_misc386 :: "int \<Rightarrow> nat \<Rightarrow> ('w, unit) op386" where
  "flags_misc386 op osz =
     (if op = 0x9E then upd386 (\<lambda>c. let ah = drop_bit 8 (gpr c ! 0) AND 0xFF in
        c\<lparr>eflags := ((eflags c AND NOT 0xD5) OR (ah AND 0xD5)) OR 0x0002\<rparr>)
      else if op = 0x9F then bindM (get386 eflags) (\<lambda>w. set_reg386 4 1 ((w AND 0xD5) OR 0x0002))
      else if op = 0x9C then bindM (get386 eflags) (\<lambda>w. push386 w osz)
      else bindM (pop386 osz) (\<lambda>v. upd_eflags (\<lambda>_. (v AND 0x0FD5) OR 0x0002)))"

definition mov_moffs386 :: "int \<Rightarrow> nat \<Rightarrow> ('w, unit) op386" where
  "mov_moffs386 op osz =
     (let sz = op_width (op = 0xA0 \<or> op = 0xA2) osz in
      bindM (get386 adsize) (\<lambda>asz. bindM (if asz = 4 then fetch_wide 4 else fetch_wide 2) (\<lambda>disp.
      bindM (get386 (\<lambda>c. mask32 (sbase c (case segovr c of Some s \<Rightarrow> s | None \<Rightarrow> SegDS) + disp))) (\<lambda>a.
        if op = 0xA0 \<or> op = 0xA1 then bindM (on_flat (flat_read a sz)) (set_reg386 EAX sz)
        else bindM (reg386 EAX sz) (\<lambda>v. on_flat (flat_write a sz v))))))"

definition test_acc386 :: "nat \<Rightarrow> ('w, unit) op386" where
  "test_acc386 sz = bindM (reg386 EAX sz) (\<lambda>a. bindM (fetch_imm386 sz) (\<lambda>imm.
     upd_eflags (flags_logic (a AND imm) (sz * 8))))"

definition shift_grp2 :: "int \<Rightarrow> nat \<Rightarrow> ('w, unit) op386" where
  "shift_grp2 op osz =
     (let sz = op_width (op \<in> {0xC0, 0xD0, 0xD2}) osz in
      bindM modrm386 (\<lambda>(reg, opd).
      bindM (if op = 0xC0 \<or> op = 0xC1 then fetch8_386
             else if op = 0xD0 \<or> op = 0xD1 then ret 1 else reg386 ECX 1) (\<lambda>n.
        shift386 reg opd sz n)))"

definition mov_imm_rm386 :: "nat \<Rightarrow> ('w, unit) op386" where
  "mov_imm_rm386 sz = bindM modrm386 (\<lambda>(reg, opd). bindM (fetch_imm386 sz) (rm_write opd sz))"

section \<open>Control flow\<close>

definition ret386 :: "int \<Rightarrow> nat \<Rightarrow> ('w, unit) op386" where
  "ret386 op osz =
     (if op = 0xC2 then bindM (fetch_wide 2) (\<lambda>n. bindM (pop386 osz) (\<lambda>t.
        thenM (set_eip t) (upd386 (\<lambda>c. put_r ESP (mask32 (gpr c ! 4 + n)) c))))
      else bindM (pop386 osz) set_eip)"

definition leave386 :: "nat \<Rightarrow> ('w, unit) op386" where
  "leave386 osz = thenM (upd386 (\<lambda>c. put_r ESP (gpr c ! 5) c)) (pop_reg osz EBP)"

definition enter386 :: "nat \<Rightarrow> ('w, unit) op386" where
  "enter386 osz = bindM (fetch_wide 2) (\<lambda>alloc. bindM fetch8_386 (\<lambda>l.
     if l AND 0x1F \<noteq> 0 then raise UnsupportedInstruction
     else thenM (bindM (reg386 EBP osz) (\<lambda>v. push386 v osz))
         (thenM (bindM (get386 (\<lambda>c. gpr c ! 4)) (set_reg386 EBP osz))
                (upd386 (\<lambda>c. put_r ESP (mask32 (gpr c ! 4 - alloc)) c)))))"

definition les_lds386 :: "int \<Rightarrow> nat \<Rightarrow> ('w, unit) op386" where
  "les_lds386 op osz = bindM modrm386 (\<lambda>(reg, opd).
     if fst opd then raise UnsupportedInstruction
     else thenM (bindM (on_flat (flat_read (snd opd) osz)) (set_reg386 reg osz))
       (bindM (on_flat (flat_read (mask32 (snd opd + int osz)) 2))
          (set_seg (if op = 0xC4 then SegES else SegDS))))"

definition iret386 :: "nat \<Rightarrow> ('w, unit) op386" where
  "iret386 osz = thenM (bindM (pop386 osz) set_eip)
    (thenM (pop_seg osz SegCS) (bindM (pop386 osz) (\<lambda>v. upd_eflags (\<lambda>_. (v AND 0x0FD5) OR 0x0002))))"

definition loop386 :: "int \<Rightarrow> ('w, unit) op386" where
  "loop386 op = bindM fetch_sign8 (\<lambda>disp. bindM (get386 adsize) (\<lambda>asz.
     thenM (bindM (reg386 ECX asz) (\<lambda>n. set_reg386 ECX asz (n - 1)))
     (bindM (reg386 ECX asz) (\<lambda>n. bindM (get_flag386 ZF) (\<lambda>z.
        jump386 (n \<noteq> 0 \<and> (op = 0xE2 \<or> (op = 0xE0 \<and> \<not> z) \<or> (op = 0xE1 \<and> z))) disp)))))"

definition jcxz386 :: "('w, unit) op386" where
  "jcxz386 = bindM fetch_sign8 (\<lambda>disp. bindM (get386 adsize) (\<lambda>asz. bindM (reg386 ECX asz) (\<lambda>n.
     jump386 (n = 0) disp)))"

definition in386 :: "'w env386 \<Rightarrow> int \<Rightarrow> nat \<Rightarrow> ('w, unit) op386" where
  "in386 E op osz =
     (let sz = op_width (op = 0xE4 \<or> op = 0xEC) osz in
      bindM (if op = 0xE4 \<or> op = 0xE5 then fetch8_386 else reg386 EDX 2) (\<lambda>port.
      bindM (case port_reader386 E of Some f \<Rightarrow> f port (sz * 8) | None \<Rightarrow> ret 0) (set_reg386 EAX sz)))"

definition out386 :: "'w env386 \<Rightarrow> int \<Rightarrow> nat \<Rightarrow> ('w, unit) op386" where
  "out386 E op osz =
     (let sz = op_width (op = 0xE6 \<or> op = 0xEE) osz in
      bindM (if op = 0xE6 \<or> op = 0xE7 then fetch8_386 else reg386 EDX 2) (\<lambda>port.
        case port_writer386 E of None \<Rightarrow> ret ()
        | Some f \<Rightarrow> bindM (reg386 EAX sz) (\<lambda>v. f port v (sz * 8))))"

definition call386 :: "nat \<Rightarrow> ('w, unit) op386" where
  "call386 osz = bindM (fetch_imm386 osz) (\<lambda>d.
     thenM (bindM (get386 eip) (\<lambda>a. push386 a osz)) (jump386 True (sign386 d (osz * 8))))"

definition jmp386 :: "int \<Rightarrow> nat \<Rightarrow> ('w, unit) op386" where
  "jmp386 op osz = (if op = 0xE9 then bindM (fetch_imm386 osz) (\<lambda>d. jump386 True (sign386 d (osz * 8)))
     else bindM fetch_sign8 (jump386 True))"

definition flag_op386 :: "int \<Rightarrow> ('w, unit) op386" where
  "flag_op386 op =
     (if op = 0xF5 then upd_eflags (\<lambda>w. w XOR CF)
      else if op = 0xF8 then set_flag386 CF False else if op = 0xF9 then set_flag386 CF True
      else if op = 0xFA then set_flag386 IF False else if op = 0xFB then set_flag386 IF True
      else if op = 0xFC then set_flag386 DF False else set_flag386 DF True)"

section \<open>Groups\<close>

definition grp3_386 :: "'w env386 \<Rightarrow> nat \<Rightarrow> ('w, unit) op386" where
  "grp3_386 E sz = bindM modrm386 (\<lambda>(reg, opd).
     bindM (if reg = 0 \<or> reg = 1 then fetch_imm386 sz else ret 0) (\<lambda>imm. grp3_op E reg opd sz imm))"

definition grp5_386 :: "int \<Rightarrow> nat \<Rightarrow> ('w, unit) op386" where
  "grp5_386 op osz =
     (let sz = op_width (op = 0xFE) osz; bits = sz * 8 in
      bindM modrm386 (\<lambda>(reg, opd).
        if reg = 0 then bindM (rm_read opd sz) (\<lambda>v.
          thenM (incdec386 False v bits) (rm_write opd sz ((v + 1) AND ones bits)))
        else if reg = 1 then bindM (rm_read opd sz) (\<lambda>v.
          thenM (incdec386 True v bits) (rm_write opd sz ((v - 1) AND ones bits)))
        else if reg = 2 then
          thenM (bindM (get386 eip) (\<lambda>a. push386 a osz)) (bindM (rm_read opd osz) set_eip)
        else if reg = 4 then bindM (rm_read opd osz) set_eip
        else if reg = 6 then bindM (rm_read opd osz) (\<lambda>v. push386 v osz)
        else raise UnsupportedInstruction))"

definition grp7_386 :: "('w, unit) op386" where
  "grp7_386 = bindM modrm386 (\<lambda>(reg, opd).
     if reg = 4 then rm_write opd 2 0x0013
     else if reg = 0 \<or> reg = 1 then
       thenM (on_flat (flat_write (snd opd) 2 0x03FF)) (on_flat (flat_write (snd opd + 2) 4 0))
     else if reg = 2 \<or> reg = 3 \<or> reg = 6 then ret ()
     else raise UnsupportedInstruction)"

section \<open>Two-byte opcodes\<close>

definition movzx_sx :: "int \<Rightarrow> nat \<Rightarrow> ('w, unit) op386" where
  "movzx_sx op2 osz =
     (let srcsz = (if op2 = 0xB6 \<or> op2 = 0xBE then 1 else 2) in
      bindM modrm386 (\<lambda>(reg, opd). bindM (rm_read opd srcsz) (\<lambda>v.
        set_reg386 reg osz (if op2 = 0xBE \<or> op2 = 0xBF then sign386 v (srcsz * 8) AND ones (osz * 8) else v))))"

definition lsl386 :: "nat \<Rightarrow> ('w, unit) op386" where
  "lsl386 osz = bindM modrm386 (\<lambda>(reg, opd). bindM (rm_read opd 2) (\<lambda>sel.
     thenM (bindM (get386 (\<lambda>c. case selector_limits c (sel AND 0xFFFF AND 0xFFFC) of
               None \<Rightarrow> 0xFFFFFFFF | Some l \<Rightarrow> l)) (set_reg386 reg osz))
       (set_flag386 ZF True)))"

definition mov_cr :: "int \<Rightarrow> ('w, unit) op386" where
  "mov_cr op2 = bindM fetch8_386 (\<lambda>m.
     let crn = drop_bit 3 m AND 7; g = m AND 7 in
     if op2 = 0x20 then bindM (get386 (\<lambda>c. case cr386 c crn of None \<Rightarrow> 0 | Some v \<Rightarrow> v)) (set_reg386 g 4)
     else bindM (reg386 g 4) (\<lambda>v. upd386 (\<lambda>c. c\<lparr>cr386 := (cr386 c)(crn \<mapsto> v)\<rparr>)))"

text \<open>\<open>bt\<close> with a register, and group 8 with an immediate; a group 8 field below 4 is a KeyError.\<close>

definition bit_op386 :: "bit_kind option \<Rightarrow> nat \<Rightarrow> ('w, unit) op386" where
  "bit_op386 kind osz = bindM modrm386 (\<lambda>(reg, opd).
     case kind of
       Some k \<Rightarrow> bindM (reg386 reg osz) (bit_op_do k opd osz)
     | None \<Rightarrow> (if reg < 4 then raise PyKeyError
         else bindM fetch8_386 (bit_op_do ([BT, BTS, BTR, BTC] ! nat (reg - 4)) opd osz)))"

definition shldrd386 :: "int \<Rightarrow> nat \<Rightarrow> ('w, unit) op386" where
  "shldrd386 op2 osz = bindM modrm386 (\<lambda>(reg, opd). bindM (reg386 reg osz) (\<lambda>src.
     bindM (if op2 = 0xA4 \<or> op2 = 0xAC then fetch8_386 else reg386 ECX 1) (\<lambda>n.
       shldrd (op2 = 0xA4 \<or> op2 = 0xA5) opd src (n AND 0x1F) osz)))"

text \<open>\<open>(src & -src).bit_length() - 1\<close> and \<open>src.bit_length() - 1\<close>.\<close>

definition bit_scan386 :: "int \<Rightarrow> nat \<Rightarrow> ('w, unit) op386" where
  "bit_scan386 op2 osz = bindM modrm386 (\<lambda>(reg, opd). bindM (rm_read opd osz) (\<lambda>src.
     if src = 0 then set_flag386 ZF True
     else thenM (set_flag386 ZF False)
       (set_reg386 reg osz (int (bit_len (nat (if op2 = 0xBC then src AND - src else src))) - 1))))"

definition two_byte :: "int \<Rightarrow> nat \<Rightarrow> ('w, unit) op386" where
  "two_byte op2 osz =
     (if 0x80 \<le> op2 \<and> op2 \<le> 0x8F then
        bindM (fetch_imm386 osz) (\<lambda>d. bindM (cond386 (op2 AND 0x0F)) (\<lambda>go.
          jump386 go (sign386 d (osz * 8))))
      else if 0x90 \<le> op2 \<and> op2 \<le> 0x9F then
        bindM modrm386 (\<lambda>(reg, opd). bindM (cond386 (op2 AND 0x0F)) (\<lambda>b. rm_write opd 1 (b2i b)))
      else if op2 \<in> {0xB6, 0xB7, 0xBE, 0xBF} then movzx_sx op2 osz
      else if op2 = 0xAF then bindM modrm386 (\<lambda>(reg, opd).
        bindM (reg386 reg osz) (\<lambda>a. bindM (rm_read opd osz) (\<lambda>b.
          imul_store reg osz (sign386 a (osz * 8)) (sign386 b (osz * 8)))))
      else if op2 = 0x01 then grp7_386
      else if op2 = 0x03 then lsl386 osz
      else if op2 = 0x20 \<or> op2 = 0x22 then mov_cr op2
      else if op2 = 0xA0 then push_seg osz SegFS
      else if op2 = 0xA1 then pop_seg osz SegFS
      else if op2 = 0xA8 then push_seg osz SegGS
      else if op2 = 0xA9 then pop_seg osz SegGS
      else if op2 = 0xA3 then bit_op386 (Some BT) osz
      else if op2 = 0xAB then bit_op386 (Some BTS) osz
      else if op2 = 0xB3 then bit_op386 (Some BTR) osz
      else if op2 = 0xBB then bit_op386 (Some BTC) osz
      else if op2 = 0xBA then bit_op386 None osz
      else if op2 \<in> {0xA4, 0xA5, 0xAC, 0xAD} then shldrd386 op2 osz
      else if op2 = 0xBC \<or> op2 = 0xBD then bit_scan386 op2 osz
      else if op2 = 0x31 then
        thenM (bindM (get386 (\<lambda>c. mask32 (count386 c))) (set_reg386 EAX 4)) (set_reg386 EDX 4 0)
      else if op2 = 0xA2 then seqM (map (\<lambda>i. set_reg386 i 4 0) [EAX, EBX, ECX, EDX])
      else raise UnsupportedInstruction)"

section \<open>The opcode ladder\<close>

definition exec386 :: "'w env386 \<Rightarrow> int \<Rightarrow> int \<Rightarrow> ('w, unit) op386" where
  "exec386 E op rep = bindM (get386 opsize) (\<lambda>osz.
     let lo = op AND 7; bits = osz * 8 in
     case map_of SEG_PUSHPOP op of
       Some (s, True) \<Rightarrow> push_seg osz s
     | Some (s, False) \<Rightarrow> pop_seg osz s
     | None \<Rightarrow>
        if op < 0x40 \<and> op AND 0xC0 = 0 \<and> op AND 0x07 < 6 then alu386 op osz
        else if 0x40 \<le> op \<and> op \<le> 0x47 then incdec_reg False lo osz
        else if 0x48 \<le> op \<and> op \<le> 0x4F then incdec_reg True lo osz
        else if 0x50 \<le> op \<and> op \<le> 0x57 then bindM (reg386 lo osz) (\<lambda>v. push386 v osz)
        else if 0x58 \<le> op \<and> op \<le> 0x5F then pop_reg osz lo
        else if op = 0x60 then pusha386 osz
        else if op = 0x61 then popa386 osz
        else if op = 0x68 then bindM (fetch_imm386 osz) (\<lambda>v. push386 v osz)
        else if op = 0x6A then bindM fetch_sign8 (\<lambda>v. push386 (v AND ones bits) osz)
        else if op = 0x69 \<or> op = 0x6B then imul_imm386 op osz
        else if 0x70 \<le> op \<and> op \<le> 0x7F then
          bindM fetch_sign8 (\<lambda>d. bindM (cond386 (op AND 0x0F)) (\<lambda>go. jump386 go d))
        else if op \<in> {0x80, 0x81, 0x83} then grp1_386 op osz
        else if op = 0x84 \<or> op = 0x85 then test_rm386 (op_width (op = 0x84) osz)
        else if op = 0x86 \<or> op = 0x87 then xchg_rm386 (op_width (op = 0x86) osz)
        else if op \<in> {0x88, 0x89, 0x8A, 0x8B} then mov_rm386 op (op_width (op = 0x88 \<or> op = 0x8A) osz)
        else if op = 0x8D then lea386 osz
        else if op = 0x8C \<or> op = 0x8E then mov_seg386 op
        else if op = 0x8F then pop_rm386 osz
        else if op = 0x9B then ret ()
        else if 0xD8 \<le> op \<and> op \<le> 0xDF then fpu386 (floats386 E) op
        else if op = 0x90 then ret ()
        else if 0x91 \<le> op \<and> op \<le> 0x97 then xchg_eax lo osz
        else if op = 0x98 \<or> op = 0x99 then convert386 op osz
        else if op \<in> {0x9E, 0x9F, 0x9C, 0x9D} then flags_misc386 op osz
        else if op \<in> {0xA0, 0xA1, 0xA2, 0xA3} then mov_moffs386 op osz
        else if op = 0xA8 \<or> op = 0xA9 then test_acc386 (op_width (op = 0xA8) osz)
        else if op \<in> {0xA4, 0xA5, 0xAA, 0xAB, 0xAC, 0xAD, 0xAE, 0xAF} then string386 op rep
        else if 0xB0 \<le> op \<and> op \<le> 0xB7 then bindM fetch8_386 (set_reg386 lo 1)
        else if 0xB8 \<le> op \<and> op \<le> 0xBF then bindM (fetch_imm386 osz) (set_reg386 lo osz)
        else if op \<in> {0xC0, 0xC1, 0xD0, 0xD1, 0xD2, 0xD3} then shift_grp2 op osz
        else if op = 0xC2 \<or> op = 0xC3 then ret386 op osz
        else if op = 0xC6 \<or> op = 0xC7 then mov_imm_rm386 (op_width (op = 0xC6) osz)
        else if op = 0xC9 then leave386 osz
        else if op = 0xC8 then enter386 osz
        else if op = 0xC4 \<or> op = 0xC5 then les_lds386 op osz
        else if op = 0xCC then interrupt_386 E 3
        else if op = 0xCD then bindM fetch8_386 (interrupt_386 E)
        else if op = 0xCF then iret386 osz
        else if op \<in> {0xE0, 0xE1, 0xE2} then loop386 op
        else if op = 0xE3 then jcxz386
        else if op \<in> {0xE4, 0xE5, 0xEC, 0xED} then in386 E op osz
        else if op \<in> {0xE6, 0xE7, 0xEE, 0xEF} then out386 E op osz
        else if op = 0xE8 then call386 osz
        else if op = 0xE9 \<or> op = 0xEB then jmp386 op osz
        else if op = 0xF4 then raise HaltExecution
        else if op \<in> {0xF5, 0xF8, 0xF9, 0xFA, 0xFB, 0xFC, 0xFD} then flag_op386 op
        else if op = 0xF6 \<or> op = 0xF7 then grp3_386 E (op_width (op = 0xF6) osz)
        else if op = 0xFE \<or> op = 0xFF then grp5_386 op osz
        else if op = 0x0F then bindM fetch8_386 (\<lambda>op2. two_byte op2 osz)
        else raise UnsupportedInstruction)"

end
