(* ===== verification/CPU386_Step.thy ===== *)
theory CPU386_Step
  imports CPU386_Exec
begin

text \<open>
  \<open>step\<close>, \<open>run\<close> and \<open>call_through\<close> of \<open>dos_re/cpu386.py\<close>.  The prefix loop has no bound in the code,
  so it is a partial function and \<open>None\<close> is not returning; it is shown that it always returns while
  the memory is shorter than the address space.
\<close>

section \<open>Interrupts at the instruction boundary\<close>

definition irq_vector :: "int \<Rightarrow> int" where
  "irq_vector irq = (if irq < 8 then 0x08 + irq else 0x70 + irq - 8)"

definition poll_irq :: "'w env386 \<Rightarrow> ('w, unit) op386" where
  "poll_irq E = (case pending_irq386 E of None \<Rightarrow> ret ()
     | Some poll \<Rightarrow> bindM (get_flag386 IF) (\<lambda>enabled.
         if \<not> enabled then ret ()
         else thenM (upd386 (\<lambda>c. c\<lparr>irq_decim := irq_decim c + 1\<rparr>))
           (bindM (get386 irq_decim) (\<lambda>d.
              if d < 16 then ret ()
              else thenM (upd386 (\<lambda>c. c\<lparr>irq_decim := 0\<rparr>))
                (bindM poll (\<lambda>irq. case irq of None \<Rightarrow> ret ()
                   | Some n \<Rightarrow> bindM (deliver_interrupt386 (irq_vector n)) (\<lambda>taken.
                       case irq_eoi E of Some f \<Rightarrow> (if taken then ret () else f n) | None \<Rightarrow> ret ())))))))"

section \<open>Prefixes\<close>

definition seg_prefix386 :: "int \<Rightarrow> seg386 option" where
  "seg_prefix386 op = map_of [(0x26, SegES), (0x2E, SegCS), (0x36, SegSS), (0x3E, SegDS), (0x64, SegFS),
     (0x65, SegGS)] op"

definition is_prefix386 :: "int \<Rightarrow> bool" where
  "is_prefix386 op \<longleftrightarrow> op \<in> {0x66, 0x67, 0xF2, 0xF3, 0xF0} \<or> seg_prefix386 op \<noteq> None"

text \<open>What a prefix does to the decode state and to \<open>rep\<close>.\<close>

definition take_prefix386 :: "int \<Rightarrow> int \<Rightarrow> 'w cpu386 \<Rightarrow> int \<times> 'w cpu386" where
  "take_prefix386 op rep c =
     (if op = 0x66 then (rep, c\<lparr>opsize := 2\<rparr>)
      else if op = 0x67 then (rep, c\<lparr>adsize := 2\<rparr>)
      else case seg_prefix386 op of Some s \<Rightarrow> (rep, c\<lparr>segovr := Some s\<rparr>)
        | None \<Rightarrow> (if op = 0xF3 then (0xF3, c) else if op = 0xF2 then (0xF2, c) else (rep, c)))"

type_synonym ('w, 'a) outcome386 = "((exn + 'a) \<times> 'w cpu386) option"

partial_function (option) prefix_loop386 :: "int \<Rightarrow> 'w cpu386 \<Rightarrow> ('w, int \<times> int) outcome386" where
  "prefix_loop386 rep c =
     (case fetch8_386 c of
        (Inl e, c') \<Rightarrow> Some (Inl e, c')
      | (Inr op, c') \<Rightarrow>
          (if is_prefix386 op then (case take_prefix386 op rep c' of (rep', d) \<Rightarrow> prefix_loop386 rep' d)
           else Some (Inr (op, rep), c')))"

definition bind386 :: "('w, 'a) outcome386 \<Rightarrow> ('a \<Rightarrow> 'w cpu386 \<Rightarrow> ('w, 'b) outcome386) \<Rightarrow> ('w, 'b) outcome386" where
  "bind386 r k = (case r of None \<Rightarrow> None | Some (Inl e, c) \<Rightarrow> Some (Inl e, c) | Some (Inr x, c) \<Rightarrow> k x c)"

lemma bind386_simps [simp]:
  "bind386 None k = None"
  "bind386 (Some (Inl e, c)) k = Some (Inl e, c)"
  "bind386 (Some (Inr x, c)) k = k x c"
  by (simp_all add: bind386_def)

section \<open>One step\<close>

definition record386 :: "telemetry386 \<Rightarrow> 'w cpu386 \<Rightarrow> 'w cpu386" where
  "record386 ev c = c\<lparr>telemetry := map_option (\<lambda>l. l @ [ev]) (telemetry c)\<rparr>"

definition run_hook386 :: "'w env386 \<Rightarrow> int \<Rightarrow> ('w, unit) op386 \<Rightarrow> ('w, unit) op386" where
  "run_hook386 E start h =
     (let name = (case hook_names386 E start of Some n \<Rightarrow> n | None \<Rightarrow> ''replacement'') in
      thenM (upd386 (\<lambda>c. c\<lparr>last_hook := Some start\<rparr>))
     (thenM (case (hook_verifier386 E, passthrough386 E start) of
               (Some verify, False) \<Rightarrow> verify start h name
             | _ \<Rightarrow> finallyM h (record386 (HookUnverified386 start name)))
        (upd386 (\<lambda>c. c\<lparr>count386 := count386 c + 1\<rparr>))))"

definition begin_instruction :: "int \<Rightarrow> ('w, unit) op386" where
  "begin_instruction start = upd386 (\<lambda>c. (record386 (Interpreted386 (sel386 c SegCS) start) c)
     \<lparr>count386 := count386 c + 1, opsize := 4, adsize := 4, segovr := None\<rparr>)"

definition interpret386 :: "'w env386 \<Rightarrow> int \<Rightarrow> 'w cpu386 \<Rightarrow> ('w, unit) outcome386" where
  "interpret386 E start c =
     bind386 (Some (begin_instruction start c)) (\<lambda>_ c.
     bind386 (prefix_loop386 0 c) (\<lambda>(op, rep) c. Some (exec386 E op rep c)))"

definition step386 :: "'w env386 \<Rightarrow> 'w cpu386 \<Rightarrow> ('w, unit) outcome386" where
  "step386 E c =
     bind386 (Some (poll_irq E c)) (\<lambda>_ c. let start = eip c in
     bind386 (Some ((case entry_probes E start of Some p \<Rightarrow> p | None \<Rightarrow> ret ()) c)) (\<lambda>_ c.
       case hooks386 E start of Some h \<Rightarrow> Some (run_hook386 E start h c)
       | None \<Rightarrow> interpret386 E start c))"

primrec run386 :: "nat \<Rightarrow> 'w env386 \<Rightarrow> 'w cpu386 \<Rightarrow> ('w, unit) outcome386" where
  "run386 0 E c = Some (Inr (), c)"
| "run386 (Suc n) E c =
     (if halted386 c then Some (Inr (), c) else bind386 (step386 E c) (\<lambda>_ c. run386 n E c))"

section \<open>Calling a routine through the interpreter\<close>

definition SENTINEL :: int where "SENTINEL = 0xFFFFFFF0"

text \<open>\<open>while self.eip != SENTINEL\<close>: \<open>left\<close> is \<open>max_steps - steps\<close>, the step beyond it raises.\<close>

fun until_sentinel :: "nat \<Rightarrow> 'w env386 \<Rightarrow> 'w cpu386 \<Rightarrow> ('w, unit) outcome386" where
  "until_sentinel left E c =
     (if eip c = SENTINEL then Some (Inr (), c)
      else bind386 (step386 E c) (\<lambda>_ c. case left of 0 \<Rightarrow> Some (Inl PyRuntimeError, c)
        | Suc k \<Rightarrow> until_sentinel k E c))"

declare until_sentinel.simps [simp del]

definition call_through :: "'w env386 \<Rightarrow> int \<Rightarrow> int list \<Rightarrow> nat \<Rightarrow> 'w cpu386 \<Rightarrow> ('w, int) outcome386" where
  "call_through E target args max_steps c =
     (let quiet = E\<lparr>pending_irq386 := None\<rparr> in
      bind386 (Some (thenM (seqM (map (\<lambda>a. push386 (mask32 a) 4) (rev args)))
             (thenM (push386 SENTINEL 4) (set_eip (mask32 target))) c)) (\<lambda>_ c.
      bind386 (until_sentinel max_steps quiet c) (\<lambda>_ c.
        Some (thenM (if args \<noteq> [] then upd386 (\<lambda>c. put_r ESP (mask32 (gpr c ! 4 + 4 * int (length args))) c) else ret ())
               (get386 (\<lambda>c. gpr c ! 0)) c))))"

end
