(* ===== verification/CPU386_Run.thy ===== *)
theory CPU386_Run
  imports CPU386_Step Flat_Ram
begin

text \<open>
  What one step of \<open>dos_re/cpu386.py\<close> does around its instruction: the prefix loop always returns, and
  an interrupt taken at the boundary is undone by IRETD.
\<close>

section \<open>The prefix loop\<close>

text \<open>The bytes ahead of EIP, up to the end of the memory.\<close>

definition code_ahead :: "'w cpu386 \<Rightarrow> int list" where
  "code_ahead c = map (\<lambda>a. uint (bdata (fdata (mem386 c)) a)) [eip c..blen (fdata (mem386 c)) - 1]"

lemma code_ahead_Nil: "code_ahead c = [] \<longleftrightarrow> blen (fdata (mem386 c)) \<le> eip c"
  by (auto simp: code_ahead_def)

lemma code_ahead_Cons:
  "eip c < blen (fdata (mem386 c)) \<Longrightarrow>
   code_ahead c = uint (bdata (fdata (mem386 c)) (eip c)) # code_ahead (c\<lparr>eip := eip c + 1\<rparr>)"
  by (simp add: code_ahead_def upto_rec1)

lemma code_ahead_take [simp]: "code_ahead (snd (take_prefix386 op rep c)) = code_ahead c"
  by (simp add: code_ahead_def take_prefix386_def split: option.splits)

lemma take_prefix_fields [simp]:
  "eip (snd (take_prefix386 op rep c)) = eip c" "mem386 (snd (take_prefix386 op rep c)) = mem386 c"
  by (simp_all add: take_prefix386_def split: option.splits)

lemma take_prefix_eip: "take_prefix386 op rep (c\<lparr>eip := v\<rparr>) = (case take_prefix386 op rep c of (rep', d) \<Rightarrow> (rep', d\<lparr>eip := v\<rparr>))"
  by (simp add: take_prefix386_def split: option.splits)

text \<open>What a run of prefix bytes leaves: the repeat prefix and the decode state.\<close>

definition take_prefixes :: "int list \<Rightarrow> int \<times> 'w cpu386 \<Rightarrow> int \<times> 'w cpu386" where
  "take_prefixes = fold (\<lambda>op (rep, c). take_prefix386 op rep c)"

lemma take_prefixes_Cons: "take_prefixes (op # ps) (rep, c) = take_prefixes ps (take_prefix386 op rep c)"
  by (simp add: take_prefixes_def)

lemma take_prefixes_eip:
  "take_prefixes ps (rep, c\<lparr>eip := v\<rparr>) = (case take_prefixes ps (rep, c) of (rep', d) \<Rightarrow> (rep', d\<lparr>eip := v\<rparr>))"
proof (induction ps arbitrary: rep c)
  case (Cons p ps)
  then show ?case
    by (cases "take_prefix386 p rep c") (simp add: take_prefixes_def take_prefix_eip)
qed (simp add: take_prefixes_def)

lemma fetch8_386_ahead:
  assumes "0 \<le> eip c" and "blen (fdata (mem386 c)) < 2 ^ 32"
  shows "fetch8_386 c = (if eip c < blen (fdata (mem386 c))
    then (Inr (uint (bdata (fdata (mem386 c)) (eip c))), c\<lparr>eip := eip c + 1\<rparr>) else (Inl PyIndexError, c))"
  using assms by (auto simp: fetch8_386_def get386_def on_flat_def on_data_def ba_get_def ba_index_def
    set_eip_def upd386_def mask32_def mask_simps)

text \<open>
  The prefix loop of the 32-bit interpreter returns on every memory shorter than the address space:
  it consumes exactly the longest run of prefix bytes, with the effect of each in order (the last
  segment override and repeat prefix win), and yields the byte behind them; an IndexError if the
  memory ends first.
\<close>

theorem prefix_loop386_returns:
  fixes c :: "'w cpu386"
  assumes "0 \<le> eip c" and "blen (fdata (mem386 c)) < 2 ^ 32"
  shows "prefix_loop386 rep c = (let ps = takeWhile is_prefix386 (code_ahead c); k = length ps; (rep', d) = take_prefixes ps (rep, c) in
    if k < length (code_ahead c) then Some (Inr (code_ahead c ! k, rep'), d\<lparr>eip := eip c + int k + 1\<rparr>)
    else Some (Inl PyIndexError, d\<lparr>eip := eip c + int k\<rparr>))"
  using assms
proof (induction "code_ahead c" arbitrary: c rep)
  case Nil
  then have "\<not> eip c < blen (fdata (mem386 c))"
    using code_ahead_Nil [of c] by simp
  then show ?case
    using Nil by (subst prefix_loop386.simps) (simp add: fetch8_386_ahead take_prefixes_def Nil(1) [symmetric])
next
  case (Cons op ops)
  then have lt: "eip c < blen (fdata (mem386 c))"
    using code_ahead_Nil [of c] by (metis list.discI not_le)
  define c1 where "c1 = c\<lparr>eip := eip c + 1\<rparr>"
  have ops: "op = uint (bdata (fdata (mem386 c)) (eip c))" "ops = code_ahead c1" and c: "code_ahead c = op # ops"
    using code_ahead_Cons [OF lt] Cons(2) by (simp_all add: c1_def)
  have fetch: "fetch8_386 c = (Inr op, c1)"
    using fetch8_386_ahead [OF Cons(3,4)] lt by (simp add: ops(1) c1_def)
  show ?case
  proof (cases "is_prefix386 op")
    case False
    then show ?thesis
      by (subst prefix_loop386.simps) (simp add: fetch c take_prefixes_def c1_def)
  next
    case True
    obtain rep' d where d: "take_prefix386 op rep c = (rep', d)"
      by fastforce
    then have d1: "take_prefix386 op rep c1 = (rep', d\<lparr>eip := eip c + 1\<rparr>)"
      by (simp add: c1_def take_prefix_eip)
    have "prefix_loop386 rep c = prefix_loop386 rep' (d\<lparr>eip := eip c + 1\<rparr>)"
      using True by (subst prefix_loop386.simps) (simp add: fetch d1)
    moreover have "ops = code_ahead (d\<lparr>eip := eip c + 1\<rparr>)"
      using code_ahead_take [of op rep c1] by (simp add: d1 ops(2))
    moreover have "mem386 d = mem386 c" "eip d = eip c"
      using take_prefix_fields [of op rep c] by (simp_all add: d)
    ultimately show ?thesis
      using Cons(1) [of "d\<lparr>eip := eip c + 1\<rparr>" rep'] Cons(3,4) True
      by (simp add: c take_prefixes_eip take_prefixes_Cons d Let_def split_beta algebra_simps)
  qed
qed

theorem prefix_loop386_returns_witness:
  "prefix_loop386 0 ((CPU386_init (poke 0 3 (\<lambda>i. [0x66, 0xF3, 0xA5] ! nat i) (FlatMemory 8)) 0 0 0 0 ())) = Some (Inr (0xA5, 0xF3),
     (CPU386_init (poke 0 3 (\<lambda>i. [0x66, 0xF3, 0xA5] ! nat i) (FlatMemory 8)) 3 0 0 0 ())\<lparr>opsize := 2\<rparr>)"
proof -
  let ?c = "CPU386_init (poke 0 3 (\<lambda>i. [0x66, 0xF3, 0xA5] ! nat i) (FlatMemory 8)) 0 0 0 0 () :: unit cpu386"
  have bytes: "code_ahead ?c = [0x66, 0xF3, 0xA5, 0, 0, 0, 0, 0]"
    by (simp add: code_ahead_def CPU386_init_def FlatMemory_def ba_zero_def upto.simps)
  show ?thesis
    using prefix_loop386_returns [of ?c 0] unfolding bytes
    by (simp add: CPU386_init_def FlatMemory_def ba_zero_def is_prefix386_def seg_prefix386_def take_prefixes_def
      take_prefix386_def)
qed

section \<open>Interrupt entry and IRETD\<close>

abbreviation esp :: "'w cpu386 \<Rightarrow> int" where "esp c \<equiv> gpr c ! 4"

lemma mask32_small: "0 \<le> v \<Longrightarrow> v < 2 ^ 32 \<Longrightarrow> mask32 v = v"
  by (simp add: mask32_def mask_simps)

lemma push386_ram:
  assumes "4 \<le> esp c" and "esp c < 2 ^ 32" and "ram_ok (mem386 c) (sbase c SegSS + esp c - 4) 4" and "length (gpr c) = 8"
  shows "push386 v 4 c = (Inr (), c\<lparr>gpr := (gpr c)[4 := esp c - 4],
    mem386 := poke (sbase c SegSS + esp c - 4) 4 (\<lambda>i. word_of_int (le_byte v (nat i))) (mem386 c)\<rparr>)"
  using assms by (simp add: push386_def upd386_def get386_def put_r_def ESP_def mask32_small on_flat_def
    flat_write_ram add_diff_eq)

lemma pop386_ram:
  assumes "ram_ok (mem386 c) (sbase c SegSS + esp c) 4"
  shows "pop386 4 c = (Inr (ram_value (sbase c SegSS + esp c) 4 (mem386 c)), c\<lparr>gpr := (gpr c)[4 := mask32 (esp c + 4)]\<rparr>)"
  using assms by (simp add: pop386_def upd386_def get386_def put_r_def ESP_def on_flat_def flat_read_ram algebra_simps)

text \<open>The three doublewords an interrupt leaves on the stack, the lowest first.\<close>

definition int_frame :: "int \<Rightarrow> flat_memory \<Rightarrow> int list" where
  "int_frame a f = [ram_value a 4 f, ram_value (a + 4) 4 f, ram_value (a + 8) 4 f]"

definition frame_ok :: "int \<Rightarrow> flat_memory \<Rightarrow> bool" where
  "frame_ok a f \<longleftrightarrow> ram_ok f a 4 \<and> ram_ok f (a + 4) 4 \<and> ram_ok f (a + 8) 4"

lemma poke_word: "0 \<le> v \<Longrightarrow> v < 2 ^ 32 \<Longrightarrow> ram_value a 4 (poke a 4 (\<lambda>i. word_of_int (le_byte v (nat i))) f) = v"
  by (simp add: ram_value_poke_same take_bit_int_eq_self)

lemma deliver_frame:
  assumes "idt c vec = Some (sel, off)" and "12 \<le> esp c" and "esp c < 2 ^ 32" and "length (gpr c) = 8"
    and "frame_ok (sbase c SegSS + esp c - 12) (mem386 c)"
    and "0 \<le> eip c" "eip c < 2 ^ 32" "0 \<le> eflags c" "eflags c < 2 ^ 32" "0 \<le> sel386 c SegCS" "sel386 c SegCS < 2 ^ 32"
  shows "\<exists>d. deliver_interrupt386 vec c = (Inr True, d) \<and> eip d = mask32 off \<and> sel386 d SegCS = sel AND 0xFFFF
    \<and> eflags d = eflags c AND NOT (IF OR TF) \<and> esp d = esp c - 12 \<and> sbase d SegSS = sbase c SegSS
    \<and> int_frame (sbase d SegSS + esp d) (mem386 d) = [eip c, sel386 c SegCS, eflags c]"
proof -
  note ok = assms(5) [unfolded frame_ok_def]
  show ?thesis
    using assms(1-4,6-) ok
    by (simp add: deliver_interrupt386_def get386_def push386_ram algebra_simps upd_eflags_def upd386_def set_seg_def
      set_eip_def Let_def int_frame_def ram_value_poke_other poke_word)
qed

lemma iret_frame:
  assumes "frame_ok (sbase e SegSS + esp e) (mem386 e)" and "0 \<le> esp e" and "esp e + 12 < 2 ^ 32" and "length (gpr e) = 8"
    and "int_frame (sbase e SegSS + esp e) (mem386 e) = [a, s, w]"
  shows "iret386 4 e = (Inr (), e\<lparr>eip := a, sel386 := (sel386 e)(SegCS := s AND 0xFFFF),
    sbase := (sbase e)(SegCS := (case selector_bases e (s AND 0xFFFF AND 0xFFFC) of None \<Rightarrow> 0 | Some b \<Rightarrow> b)),
    eflags := (w AND 0x0FD5) OR 2, gpr := (gpr e)[4 := esp e + 12]\<rparr>)"
  using assms
  by (simp add: iret386_def pop_seg_def pop386_ram frame_ok_def int_frame_def set_eip_def upd386_def set_seg_def
    upd_eflags_def Let_def mask32_small add.assoc ac_simps)

text \<open>What an instruction sees of the interrupted program: EIP, the code segment, the flags and ESP.\<close>

definition same_program :: "'w cpu386 \<Rightarrow> 'w cpu386 \<Rightarrow> bool" where
  "same_program c d \<longleftrightarrow> eip d = eip c \<and> sel386 d SegCS = sel386 c SegCS \<and> sbase d SegCS = sbase c SegCS \<and>
     eflags d = eflags c \<and> esp d = esp c"

definition interruptible :: "'w cpu386 \<Rightarrow> bool" where
  "interruptible c \<longleftrightarrow> length (gpr c) = 8 \<and> 12 \<le> esp c \<and> esp c < 2 ^ 32 \<and>
     frame_ok (sbase c SegSS + esp c - 12) (mem386 c) \<and> 0 \<le> eip c \<and> eip c < 2 ^ 32 \<and>
     eflags c AND 0x0FD5 OR 2 = eflags c \<and> 0 \<le> eflags c \<and> eflags c < 2 ^ 32 \<and> 0 \<le> sel386 c SegCS \<and> sel386 c SegCS < 65536 \<and>
     sbase c SegCS = (case selector_bases c (sel386 c SegCS AND 0xFFFC) of None \<Rightarrow> 0 | Some b \<Rightarrow> b)"

text \<open>The handler ran: whatever it did, its frame is back on the stack.\<close>

definition handler_done :: "'w cpu386 \<Rightarrow> 'w cpu386 \<Rightarrow> bool" where
  "handler_done d e \<longleftrightarrow> length (gpr e) = 8 \<and> esp e = esp d \<and> sbase e SegSS = sbase d SegSS \<and> selector_bases e = selector_bases d \<and>
     frame_ok (sbase e SegSS + esp e) (mem386 e) \<and>
     int_frame (sbase e SegSS + esp e) (mem386 e) = int_frame (sbase d SegSS + esp d) (mem386 d)"

text \<open>
  C21: A hardware interrupt with an installed handler enters it at its vector with IF and TF clear, and
  the handler's IRETD, with the frame back on the stack, resumes the interrupted program: EIP, the
  code selector and its base, all flags and ESP are those of the interruption.
\<close>

theorem irq386_iret_roundtrip:
  fixes c :: "'w cpu386"
  assumes "interruptible c" and "idt c vec = Some (sel, off)"
  shows "\<exists>d. deliver_interrupt386 vec c = (Inr True, d) \<and> eip d = mask32 off \<and> sel386 d SegCS = sel AND 0xFFFF
    \<and> eflags d AND (IF OR TF) = 0
    \<and> (\<forall>e. handler_done d e \<longrightarrow> (\<exists>r. iret386 4 e = (Inr (), r) \<and> same_program c r))"
proof -
  note c = assms(1) [unfolded interruptible_def]
  obtain d where d: "deliver_interrupt386 vec c = (Inr True, d)" "eip d = mask32 off" "sel386 d SegCS = sel AND 0xFFFF"
      "eflags d = eflags c AND NOT (IF OR TF)" "esp d = esp c - 12" "sbase d SegSS = sbase c SegSS"
      "int_frame (sbase d SegSS + esp d) (mem386 d) = [eip c, sel386 c SegCS, eflags c]"
    using deliver_frame [OF assms(2)] c by auto
  have bases: "selector_bases d = selector_bases c"
    using d(1) assms(2) c unfolding frame_ok_def
    by (auto simp: deliver_interrupt386_def get386_def push386_ram algebra_simps upd_eflags_def upd386_def set_seg_def
      set_eip_def Let_def)
  have "same_program c (snd (iret386 4 e)) \<and> fst (iret386 4 e) = Inr ()" if e: "handler_done d e" for e
  proof -
    have "frame_ok (sbase e SegSS + esp e) (mem386 e)" "0 \<le> esp e" "esp e + 12 < 2 ^ 32" "length (gpr e) = 8"
        "int_frame (sbase e SegSS + esp e) (mem386 e) = [eip c, sel386 c SegCS, eflags c]"
      using e c d(5,7) unfolding handler_done_def by auto
    note r = iret_frame [OF this]
    have "sel386 c SegCS AND 0xFFFF = sel386 c SegCS"
      using c by (simp add: mask_simps)
    then show ?thesis
      using e c d(5) bases unfolding r same_program_def handler_done_def by simp
  qed
  then have "\<exists>r. iret386 4 e = (Inr (), r) \<and> same_program c r" if "handler_done d e" for e
    using that by (metis prod.collapse)
  moreover have "eflags d AND (IF OR TF) = 0"
    unfolding d(4) by (rule bit_eqI) (auto simp: bit_and_iff bit_not_iff bit_or_iff)
  ultimately show ?thesis
    using d by blast
qed

theorem irq386_iret_roundtrip_witness:
  "\<exists>d. deliver_interrupt386 8 ((CPU386_init (FlatMemory 64) 5 48 0xC 0x14 ())\<lparr>idt := [8 \<mapsto> (0xC, 0x20)]\<rparr>) = (Inr True, d)
    \<and> eip d = mask32 0x20 \<and> sel386 d SegCS = 0xC AND 0xFFFF \<and> eflags d AND (IF OR TF) = 0
    \<and> (\<forall>e. handler_done d e \<longrightarrow> (\<exists>r. iret386 4 e = (Inr (), r)
        \<and> same_program ((CPU386_init (FlatMemory 64) 5 48 0xC 0x14 ())\<lparr>idt := [8 \<mapsto> (0xC, 0x20)]\<rparr>) r))"
  by (rule irq386_iret_roundtrip)
    (simp_all add: interruptible_def CPU386_init_def frame_ok_def ram_ok_def in_vga_def FlatMemory_def ba_zero_def)

end
