(* ===== verification/Decode32.thy ===== *)
theory Decode32
  imports Decode CPU386
begin

text \<open>
  \<open>dos_re/lift/decode32.py\<close>: the lifter's static decoder of 32-bit instructions at flat addresses.
  \<open>read\<close>, the caller's code byte at an address, is a parameter; every \<open>raise\<close> is an \<open>Inl\<close>.  Unlike the
  16-bit decoder, addresses do not wrap while an instruction is read.
\<close>

section \<open>Instructions\<close>

definition PREFIXES32 :: "int list" where
  "PREFIXES32 = [0x26, 0x2E, 0x36, 0x3E, 0x64, 0x65, 0x66, 0x67, 0xF0, 0xF2, 0xF3]"

definition SEG_PREFIX32 :: "int \<Rightarrow> seg386 option" where
  "SEG_PREFIX32 = map_of [(0x26, SegES), (0x2E, SegCS), (0x36, SegSS), (0x3E, SegDS), (0x64, SegFS), (0x65, SegGS)]"

definition MAX_LEN32 :: nat where "MAX_LEN32 = 15"

record Inst32 =
  ip32 :: int
  length32 :: int
  kind32 :: kind
  mnemonic32 :: string
  raw32 :: "int list"
  target32 :: "int option"
  int_no32 :: "int option"
  prefixes32 :: "int list"
  op32 :: int
  modrm32 :: "int option"
  sib32 :: "int option"
  disp32 :: "int option"
  imm32 :: "int option"
  opsize32 :: int
  adsize32 :: int

definition next_ip32 :: "Inst32 \<Rightarrow> int" where
  "next_ip32 i = (ip32 i + length32 i) AND 0xFFFFFFFF"

definition mod32 :: "Inst32 \<Rightarrow> int option" where
  "mod32 i = map_option (drop_bit 6) (modrm32 i)"

definition reg32 :: "Inst32 \<Rightarrow> int option" where
  "reg32 i = map_option (\<lambda>m. drop_bit 3 m AND 7) (modrm32 i)"

definition rm32 :: "Inst32 \<Rightarrow> int option" where
  "rm32 i = map_option (\<lambda>m. m AND 7) (modrm32 i)"

text \<open>The last segment prefix, and the first repeat prefix.\<close>

definition seg_override32 :: "Inst32 \<Rightarrow> seg386 option" where
  "seg_override32 i = Option.bind (find (\<lambda>p. SEG_PREFIX32 p \<noteq> None) (rev (prefixes32 i))) SEG_PREFIX32"

definition rep32 :: "Inst32 \<Rightarrow> int option" where
  "rep32 i = find (\<lambda>p. p = 0xF2 \<or> p = 0xF3) (prefixes32 i)"

section \<open>The opcode tables\<close>

text \<open>The immediate: fixed bytes, \<open>"v"\<close>, \<open>"moffs"\<close>, \<open>"far"\<close>, \<open>"grp3"\<close>.\<close>

datatype imm32_spec = Bytes nat | Opsize | Moffs | Far | Grp3

type_synonym entry32 = "bool \<times> imm32_spec \<times> kind \<times> string"

definition rows :: "int list \<Rightarrow> bool \<Rightarrow> imm32_spec \<Rightarrow> kind \<Rightarrow> string \<Rightarrow> (int \<times> entry32) list" where
  "rows ops m im k name = map (\<lambda>op. (op, (m, im, k, name))) ops"

definition alu_rows32 :: "int \<Rightarrow> string \<Rightarrow> (int \<times> entry32) list" where
  "alu_rows32 base name = rows [base, base + 1, base + 2, base + 3] True (Bytes 0) SEQ name
     @ rows [base + 4] False (Bytes 1) SEQ name @ rows [base + 5] False Opsize SEQ name"

definition T32 :: "(int \<times> entry32) list" where
  "T32 =
     alu_rows32 0x00 ''add'' @ alu_rows32 0x08 ''or'' @ alu_rows32 0x10 ''adc'' @ alu_rows32 0x18 ''sbb'' @
     alu_rows32 0x20 ''and'' @ alu_rows32 0x28 ''sub'' @ alu_rows32 0x30 ''xor'' @ alu_rows32 0x38 ''cmp'' @
     [(0x06, (False, Bytes 0, SEQ, ''push es'')), (0x07, (False, Bytes 0, SEQ, ''pop es'')),
      (0x0E, (False, Bytes 0, SEQ, ''push cs'')), (0x16, (False, Bytes 0, SEQ, ''push ss'')),
      (0x17, (False, Bytes 0, SEQ, ''pop ss'')), (0x1E, (False, Bytes 0, SEQ, ''push ds'')),
      (0x1F, (False, Bytes 0, SEQ, ''pop ds''))] @
     rows [0x40..0x47] False (Bytes 0) SEQ ''inc'' @
     rows [0x48..0x4F] False (Bytes 0) SEQ ''dec'' @
     rows [0x50..0x57] False (Bytes 0) SEQ ''push'' @
     rows [0x58..0x5F] False (Bytes 0) SEQ ''pop'' @
     [(0x60, (False, Bytes 0, SEQ, ''pushad'')), (0x61, (False, Bytes 0, SEQ, ''popad'')),
      (0x68, (False, Opsize, SEQ, ''push'')), (0x69, (True, Opsize, SEQ, ''imul'')),
      (0x6A, (False, Bytes 1, SEQ, ''push'')), (0x6B, (True, Bytes 1, SEQ, ''imul'')),
      (0x80, (True, Bytes 1, SEQ, ''grp1'')), (0x81, (True, Opsize, SEQ, ''grp1'')),
      (0x83, (True, Bytes 1, SEQ, ''grp1'')), (0x84, (True, Bytes 0, SEQ, ''test'')),
      (0x85, (True, Bytes 0, SEQ, ''test'')), (0x86, (True, Bytes 0, SEQ, ''xchg'')),
      (0x87, (True, Bytes 0, SEQ, ''xchg''))] @
     rows [0x88, 0x89, 0x8A, 0x8B] True (Bytes 0) SEQ ''mov'' @
     [(0x8C, (True, Bytes 0, SEQ, ''mov sreg'')), (0x8D, (True, Bytes 0, SEQ, ''lea'')),
      (0x8E, (True, Bytes 0, SEQ, ''mov sreg'')), (0x8F, (True, Bytes 0, SEQ, ''pop''))] @
     map (\<lambda>op. (op, (False, Bytes 0, SEQ, if op \<noteq> 0x90 then ''xchg'' else ''nop''))) [0x90..0x97] @
     [(0x98, (False, Bytes 0, SEQ, ''cwde'')), (0x99, (False, Bytes 0, SEQ, ''cdq'')),
      (0x9B, (False, Bytes 0, SEQ, ''wait'')), (0x9C, (False, Bytes 0, SEQ, ''pushfd'')),
      (0x9D, (False, Bytes 0, SEQ, ''popfd'')), (0x9E, (False, Bytes 0, SEQ, ''sahf'')),
      (0x9F, (False, Bytes 0, SEQ, ''lahf''))] @
     rows [0xA0, 0xA1, 0xA2, 0xA3] False Moffs SEQ ''mov'' @
     [(0xA4, (False, Bytes 0, SEQ, ''movsb'')), (0xA5, (False, Bytes 0, SEQ, ''movsd'')),
      (0xA6, (False, Bytes 0, SEQ, ''cmpsb'')), (0xA7, (False, Bytes 0, SEQ, ''cmpsd'')),
      (0xAA, (False, Bytes 0, SEQ, ''stosb'')), (0xAB, (False, Bytes 0, SEQ, ''stosd'')),
      (0xAC, (False, Bytes 0, SEQ, ''lodsb'')), (0xAD, (False, Bytes 0, SEQ, ''lodsd'')),
      (0xAE, (False, Bytes 0, SEQ, ''scasb'')), (0xAF, (False, Bytes 0, SEQ, ''scasd'')),
      (0xA8, (False, Bytes 1, SEQ, ''test'')), (0xA9, (False, Opsize, SEQ, ''test''))] @
     rows [0xB0..0xB7] False (Bytes 1) SEQ ''mov'' @
     rows [0xB8..0xBF] False Opsize SEQ ''mov'' @
     [(0xC0, (True, Bytes 1, SEQ, ''grp2'')), (0xC1, (True, Bytes 1, SEQ, ''grp2'')),
      (0xC2, (False, Bytes 2, RET, ''ret'')), (0xC3, (False, Bytes 0, RET, ''ret'')),
      (0xC4, (True, Bytes 0, SEQ, ''les'')), (0xC5, (True, Bytes 0, SEQ, ''lds'')),
      (0xC6, (True, Bytes 1, SEQ, ''mov'')), (0xC7, (True, Opsize, SEQ, ''mov'')),
      (0xC8, (False, Bytes 3, SEQ, ''enter'')), (0xC9, (False, Bytes 0, SEQ, ''leave'')),
      (0xCC, (False, Bytes 0, INT_N, ''int3'')), (0xCD, (False, Bytes 1, INT_N, ''int'')),
      (0xCF, (False, Bytes 0, IRET, ''iretd''))] @
     rows [0xD0, 0xD1, 0xD2, 0xD3] True (Bytes 0) SEQ ''grp2'' @
     rows [0xD8..0xDF] True (Bytes 0) SEQ ''x87'' @
     [(0xE0, (False, Bytes 1, JCC, ''loopnz'')), (0xE1, (False, Bytes 1, JCC, ''loopz'')),
      (0xE2, (False, Bytes 1, JCC, ''loop'')), (0xE3, (False, Bytes 1, JCC, ''jecxz'')),
      (0xE4, (False, Bytes 1, SEQ, ''in'')), (0xE5, (False, Bytes 1, SEQ, ''in'')),
      (0xE6, (False, Bytes 1, SEQ, ''out'')), (0xE7, (False, Bytes 1, SEQ, ''out'')),
      (0xE8, (False, Opsize, CALL, ''call'')), (0xE9, (False, Opsize, JMP, ''jmp'')),
      (0xEA, (False, Far, JMP_FAR, ''jmp far'')), (0xEB, (False, Bytes 1, JMP, ''jmp''))] @
     rows [0xEC, 0xED, 0xEE, 0xEF] False (Bytes 0) SEQ ''in/out'' @
     [(0xF4, (False, Bytes 0, HLT, ''hlt'')), (0xF5, (False, Bytes 0, SEQ, ''cmc'')),
      (0xF6, (True, Grp3, SEQ, ''grp3'')), (0xF7, (True, Grp3, SEQ, ''grp3'')),
      (0xF8, (False, Bytes 0, SEQ, ''clc'')), (0xF9, (False, Bytes 0, SEQ, ''stc'')),
      (0xFA, (False, Bytes 0, SEQ, ''cli'')), (0xFB, (False, Bytes 0, SEQ, ''sti'')),
      (0xFC, (False, Bytes 0, SEQ, ''cld'')), (0xFD, (False, Bytes 0, SEQ, ''std'')),
      (0xFE, (True, Bytes 0, SEQ, ''grp4''))] @
     rows [0x70..0x7F] False (Bytes 1) JCC ''jcc''"

text \<open>The two-byte opcodes, by the byte behind \<open>0F\<close>.\<close>

definition T2_32 :: "(int \<times> entry32) list" where
  "T2_32 =
     [(0x01, (True, Bytes 0, SEQ, ''grp7'')), (0x03, (True, Bytes 0, SEQ, ''lsl'')),
      (0x20, (True, Bytes 0, SEQ, ''mov cr'')), (0x22, (True, Bytes 0, SEQ, ''mov cr'')),
      (0x31, (False, Bytes 0, SEQ, ''rdtsc'')), (0xA2, (False, Bytes 0, SEQ, ''cpuid''))] @
     rows [0x80..0x8F] False Opsize JCC ''jcc'' @
     rows [0x90..0x9F] True (Bytes 0) SEQ ''setcc'' @
     [(0xA0, (False, Bytes 0, SEQ, ''push fs'')), (0xA1, (False, Bytes 0, SEQ, ''pop fs'')),
      (0xA8, (False, Bytes 0, SEQ, ''push gs'')), (0xA9, (False, Bytes 0, SEQ, ''pop gs''))] @
     rows [0xA3, 0xAB, 0xB3, 0xBB] True (Bytes 0) SEQ ''bt'' @
     [(0xA4, (True, Bytes 1, SEQ, ''shld'')), (0xA5, (True, Bytes 0, SEQ, ''shld'')),
      (0xAC, (True, Bytes 1, SEQ, ''shrd'')), (0xAD, (True, Bytes 0, SEQ, ''shrd'')),
      (0xAF, (True, Bytes 0, SEQ, ''imul'')), (0xBA, (True, Bytes 1, SEQ, ''grp8'')),
      (0xBC, (True, Bytes 0, SEQ, ''bsf'')), (0xBD, (True, Bytes 0, SEQ, ''bsr''))] @
     rows [0xB6, 0xB7, 0xBE, 0xBF] True (Bytes 0) SEQ ''movzx/sx''"

text \<open>No opcode has two rows, so looking up the first is looking up the last.\<close>

definition entry_T32 :: "int \<Rightarrow> entry32 option" where "entry_T32 = map_of T32"

definition entry_T2_32 :: "int \<Rightarrow> entry32 option" where "entry_T2_32 = map_of T2_32"

lemma rows_distinct: "distinct (map fst T32)" "distinct (map fst T2_32)"
  by code_simp+

text \<open>The group FF is dispatched on the register field of its ModRM byte.\<close>

definition grp5_entry :: "int \<Rightarrow> entry32" where
  "grp5_entry modrm = (let reg = drop_bit 3 modrm AND 7 in
     (True, Bytes 0,
      if reg = 2 \<or> reg = 3 then CALL_IND else if reg = 4 \<or> reg = 5 then JMP_IND else SEQ,
      if reg = 0 then ''inc'' else if reg = 1 then ''dec'' else if reg = 2 then ''call'' else if reg = 3 then ''call far''
      else if reg = 4 then ''jmp'' else if reg = 5 then ''jmp far'' else if reg = 6 then ''push'' else ''grp5?''))"

section \<open>Decoding\<close>

datatype decode_error = Prefix_run int | Undecodable int "int option" int | Too_long int | Not_a_byte | No_immediate

text \<open>Displacement bytes and whether a SIB byte follows.\<close>

definition modrm_extra_len :: "int \<Rightarrow> int \<Rightarrow> nat \<times> bool" where
  "modrm_extra_len modrm adsz = (let md = drop_bit 6 modrm; rm = modrm AND 7 in
     if md = 3 then (0, False)
     else if adsz = 2 then ((if md = 0 then (if rm = 6 then 2 else 0) else if md = 1 then 1 else 2), False)
     else if md = 0 then (if rm = 4 then (0, True) else ((if rm = 5 then 4 else 0), False))
     else ((if md = 1 then 1 else 4), rm = 4))"

text \<open>The prefix loop: \<open>n\<close> more prefixes are allowed.\<close>

primrec scan_prefixes32 :: "nat \<Rightarrow> (int \<Rightarrow> int) \<Rightarrow> int \<Rightarrow> int list option" where
  "scan_prefixes32 0 read pos = (if read pos \<in> set PREFIXES32 then None else Some [])"
| "scan_prefixes32 (Suc n) read pos =
     (if read pos \<in> set PREFIXES32 then map_option (Cons (read pos)) (scan_prefixes32 n read (pos + 1)) else Some [])"

text \<open>A little-endian value of \<open>n\<close> bytes, and its signed reading.\<close>

primrec le_raw :: "(int \<Rightarrow> int) \<Rightarrow> int \<Rightarrow> nat \<Rightarrow> int" where
  "le_raw read pos 0 = 0"
| "le_raw read pos (Suc n) = le_raw read pos n OR push_bit (8 * n) (read (pos + int n))"

definition signed_raw :: "nat \<Rightarrow> int \<Rightarrow> int" where
  "signed_raw n v = (let sign = push_bit (8 * n - 1) 1 in (v AND (sign - 1)) - (v AND sign))"

definition imm_length32 :: "imm32_spec \<Rightarrow> int \<Rightarrow> int \<Rightarrow> int \<Rightarrow> int option \<Rightarrow> nat" where
  "imm_length32 spec op opsz adsz modrm =
     (case spec of Opsize \<Rightarrow> nat opsz | Moffs \<Rightarrow> nat adsz | Far \<Rightarrow> nat opsz + 2 | Bytes n \<Rightarrow> n
      | Grp3 \<Rightarrow> (let reg = (case modrm of Some m \<Rightarrow> drop_bit 3 m AND 7 | None \<Rightarrow> 0) in
          if reg = 0 \<or> reg = 1 then (if op = 0xF6 then 1 else nat opsz) else 0))"

text \<open>ModRM byte, SIB byte, displacement, and where they end.\<close>

definition decode_operand32 :: "(int \<Rightarrow> int) \<Rightarrow> int \<Rightarrow> int \<Rightarrow> int option \<times> int option \<times> int" where
  "decode_operand32 read pos adsz = (let modrm = read pos; (dlen, has_sib) = modrm_extra_len modrm adsz;
       sib = (if has_sib then Some (read (pos + 1)) else None);
       pos' = (if has_sib then pos + 2 else pos + 1);
       dlen' = (case sib of Some s \<Rightarrow> if s AND 7 = 5 \<and> drop_bit 6 modrm = 0 then 4 else dlen | None \<Rightarrow> dlen) in
     (sib, if dlen' \<noteq> 0 then Some (signed_raw dlen' (le_raw read pos' dlen')) else None, pos' + int dlen'))"

text \<open>The rest of an instruction, from the end of its opcode.\<close>

definition finish32 :: "(int \<Rightarrow> int) \<Rightarrow> int \<Rightarrow> int list \<Rightarrow> int \<Rightarrow> int \<Rightarrow> int \<Rightarrow> entry32 \<Rightarrow> decode_error + Inst32" where
  "finish32 read start ps op opcode pos e =
     (let (has_modrm, spec, kind, mnem) = e;
          opsz = (if 0x66 \<in> set ps then 2 else 4); adsz = (if 0x67 \<in> set ps then 2 else 4);
          modrm = (if has_modrm then Some (read pos) else None);
          (sib, disp, pos2) = (if has_modrm then decode_operand32 read pos adsz else (None, None, pos));
          imm_len = imm_length32 spec op opsz adsz modrm;
          imm = (if imm_len \<noteq> 0 then Some (le_raw read pos2 imm_len) else None);
          len = pos2 + int imm_len - start;
          width = (if op = 0xE8 \<or> op = 0xE9 \<or> op = 0x0F then nat opsz else 1);
          near = (kind = JCC \<or> (kind = JMP \<and> (op = 0xE9 \<or> op = 0xEB)) \<or> kind = CALL);
          bs = map (\<lambda>i. read (start + int i)) [0..<nat len] in
      if len > int MAX_LEN32 then Inl (Too_long start)
      else if near \<and> imm = None then Inl No_immediate
      else if \<not> list_all (\<lambda>b. 0 \<le> b \<and> b < 256) bs then Inl Not_a_byte
      else Inr \<lparr>ip32 = start, length32 = len, kind32 = kind, mnemonic32 = mnem, raw32 = bs,
             target32 = (case imm of Some v \<Rightarrow> if near then Some ((start + len + signed_raw width v) AND 0xFFFFFFFF) else None
                         | None \<Rightarrow> None),
             int_no32 = (if kind = INT_N then (if op = 0xCD then imm else Some 3) else None),
             prefixes32 = ps, op32 = opcode, modrm32 = modrm, sib32 = sib, disp32 = disp, imm32 = imm,
             opsize32 = opsz, adsize32 = adsz\<rparr>)"

text \<open>The opcode: its first byte, \<open>op32\<close>, where it ends, and its row.\<close>

definition opcode_at32 :: "(int \<Rightarrow> int) \<Rightarrow> int \<Rightarrow> int \<times> int \<times> int \<times> entry32 option" where
  "opcode_at32 read pos = (let op = read pos in
     if op = 0x0F then (op, 0x0F00 OR read (pos + 1), pos + 2, entry_T2_32 (read (pos + 1)))
     else (op, op, pos + 1, if op = 0xFF then Some (grp5_entry (read (pos + 1))) else entry_T32 op))"

definition decode32 :: "(int \<Rightarrow> int) \<Rightarrow> int \<Rightarrow> decode_error + Inst32" where
  "decode32 read start =
     (case scan_prefixes32 MAX_LEN32 read start of
        None \<Rightarrow> Inl (Prefix_run start)
      | Some ps \<Rightarrow>
        (let (op, opcode, pos, ent) = opcode_at32 read (start + int (length ps)) in
         case ent of
           None \<Rightarrow> Inl (Undecodable op (if op = 0x0F then Some (read (pos - 1)) else None) start)
         | Some e \<Rightarrow> finish32 read start ps op opcode pos e))"

section \<open>The decoded instruction\<close>

lemma rows_image: "e \<in> set (rows ops m im k name) \<longleftrightarrow> (\<exists>op \<in> set ops. e = (op, m, im, k, name))"
  by (auto simp: rows_def)

text \<open>What the tables guarantee of every row.\<close>

definition row32_ok :: "bool \<Rightarrow> int \<times> entry32 \<Rightarrow> bool" where
  "row32_ok two = (\<lambda>(op, m, im, k, nm). 0 \<le> op \<and> op < 256 \<and> (\<forall>n. im = Bytes n \<longrightarrow> n \<le> 3) \<and>
     (k = JMP \<longrightarrow> \<not> two \<and> (op = 0xE9 \<or> op = 0xEB)) \<and>
     (k \<in> {JCC, JMP, CALL} \<longrightarrow> im = Opsize \<and> (two \<or> op = 0xE8 \<or> op = 0xE9) \<or> im = Bytes 1 \<and> \<not> two \<and> op \<noteq> 0xE8 \<and> op \<noteq> 0xE9))"

definition row32_check :: "bool \<Rightarrow> int \<times> entry32 \<Rightarrow> bool" where
  "row32_check two = (\<lambda>(op, m, im, k, nm). 0 \<le> op \<and> op < 256 \<and> (case im of Bytes n \<Rightarrow> n \<le> 3 | _ \<Rightarrow> True) \<and>
     (k = JMP \<longrightarrow> \<not> two \<and> (op = 0xE9 \<or> op = 0xEB)) \<and>
     (k = JCC \<or> k = JMP \<or> k = CALL \<longrightarrow> im = Opsize \<and> (two \<or> op = 0xE8 \<or> op = 0xE9) \<or> im = Bytes 1 \<and> \<not> two \<and> op \<noteq> 0xE8 \<and> op \<noteq> 0xE9))"

lemma row32_check: "row32_check two r \<Longrightarrow> row32_ok two r"
  by (auto simp: row32_check_def row32_ok_def split: imm32_spec.splits prod.splits)

lemma tables32_ok: "list_all (row32_check False) T32" "list_all (row32_check True) T2_32"
  by code_simp+

lemma entry32_ok:
  "entry_T32 op = Some e \<Longrightarrow> row32_ok False (op, e)" "entry_T2_32 op = Some e \<Longrightarrow> row32_ok True (op, e)"
  using tables32_ok by (auto simp: entry_T32_def entry_T2_32_def list_all_iff intro: row32_check dest: map_of_SomeD)

lemma scan_prefixes32_result:
  "scan_prefixes32 n read pos = Some ps \<Longrightarrow>
   length ps \<le> n \<and> ps = map (\<lambda>k. read (pos + int k)) [0..<length ps] \<and> set ps \<subseteq> set PREFIXES32
   \<and> read (pos + int (length ps)) \<notin> set PREFIXES32"
proof (induction n arbitrary: pos ps)
  case (Suc n)
  show ?case
  proof (cases "read pos \<in> set PREFIXES32")
    case True
    then obtain qs where qs: "scan_prefixes32 n read (pos + 1) = Some qs" "ps = read pos # qs"
      using Suc.prems by auto
    have "map (\<lambda>k. read (pos + int k)) [0..<length ps] = read pos # map (\<lambda>k. read (pos + 1 + int k)) [0..<length qs]"
      unfolding qs(2) length_Cons map_upt_Suc by (simp add: ac_simps)
    then show ?thesis
      using Suc.IH [OF qs(1)] qs(2) True by (simp add: ac_simps)
  qed (use Suc.prems in auto)
qed (auto split: if_splits)

lemma decode32_cases:
  assumes "decode32 read start = Inr i"
  obtains ps op opcode pos e where
    "ps = map (\<lambda>k. read (start + int k)) [0..<length ps]" "length ps \<le> 15" "set ps \<subseteq> set PREFIXES32"
    "op = read (start + int (length ps))" "op \<notin> set PREFIXES32"
    "opcode_at32 read (start + int (length ps)) = (op, opcode, pos, Some e)" "finish32 read start ps op opcode pos e = Inr i"
proof -
  obtain ps where ps: "scan_prefixes32 15 read start = Some ps"
    using assms by (auto simp: decode32_def MAX_LEN32_def split: option.splits)
  obtain op opcode pos ent where O: "opcode_at32 read (start + int (length ps)) = (op, opcode, pos, ent)"
    by (metis prod_cases4)
  moreover have "op = read (start + int (length ps))"
    using O by (auto simp: opcode_at32_def Let_def split: if_splits)
  moreover obtain e where "ent = Some e" "finish32 read start ps op opcode pos e = Inr i"
    using assms ps O by (auto simp: decode32_def MAX_LEN32_def split: option.splits)
  ultimately show ?thesis
    using that scan_prefixes32_result [OF ps] by blast
qed

text \<open>Reading an operand never goes backwards, and stays within six bytes.\<close>

lemma decode_operand32_end:
  "decode_operand32 read pos adsz = (sib, disp, p) \<Longrightarrow> pos + 1 \<le> p \<and> p \<le> pos + 6"
  by (auto simp: decode_operand32_def modrm_extra_len_def Let_def split: if_splits option.splits prod.splits)

lemma opcode_at32_end:
  assumes "opcode_at32 read p = (op, opcode, pos, Some (m, im, k, nm))"
  shows "pos = p + 1 \<or> pos = p + 2" "k = JMP \<Longrightarrow> op = 0xE9 \<or> op = 0xEB"
proof -
  show "pos = p + 1 \<or> pos = p + 2"
    using assms by (auto simp: opcode_at32_def Let_def split: if_splits)
  assume "k = JMP"
  then show "op = 0xE9 \<or> op = 0xEB"
    using assms entry32_ok(1) [of op "(m, im, k, nm)"] entry32_ok(2) [of "read (p + 1)" "(m, im, k, nm)"]
    by (auto simp: opcode_at32_def Let_def grp5_entry_def row32_ok_def split: if_splits)
qed

lemma guard_Inr: "(if b then Inl x else r) = Inr y \<longleftrightarrow> \<not> b \<and> r = Inr y"
  by simp

lemma finish32_fields:
  assumes "finish32 read start ps op opcode pos (m, spec, k, nm) = Inr i"
  shows "ip32 i = start" "prefixes32 i = ps" "kind32 i = k" "op32 i = opcode" "length32 i \<le> 15"
    "raw32 i = map (\<lambda>j. read (start + int j)) [0..<nat (length32 i)]" "\<forall>b \<in> set (raw32 i). 0 \<le> b \<and> b < 256"
    "\<exists>p. pos \<le> p \<and> length32 i = p - start"
    "\<forall>t. target32 i = Some t \<longrightarrow> 0 \<le> t \<and> t < 2 ^ 32 \<and> k \<in> {JCC, JMP, CALL}"
    "k = JCC \<or> k = CALL \<or> k = JMP \<and> (op = 0xE9 \<or> op = 0xEB) \<longrightarrow> target32 i \<noteq> None"
    "opsize32 i = (if 0x66 \<in> set ps then 2 else 4)" "adsize32 i = (if 0x67 \<in> set ps then 2 else 4)"
proof -
  obtain sib disp p where D: "(if m then decode_operand32 read pos (if 0x67 \<in> set ps then 2 else 4) else (None, None, pos)) = (sib, disp, p)"
    by (metis prod_cases3)
  have p: "pos \<le> p"
    using D decode_operand32_end by (fastforce split: if_splits)
  define n where "n = imm_length32 spec op (if 0x66 \<in> set ps then 2 else 4) (if 0x67 \<in> set ps then 2 else 4)
    (if m then Some (read pos) else None)"
  define im where "im = (if n \<noteq> 0 then Some (le_raw read p n) else None)"
  note i = assms [unfolded finish32_def Let_def prod.case D guard_Inr not_not MAX_LEN32_def sum.inject, folded n_def, folded im_def]
  let ?near = "k = JCC \<or> k = JMP \<and> (op = 0xE9 \<or> op = 0xEB) \<or> k = CALL"
  note rec = conjunct2 [OF conjunct2 [OF conjunct2 [OF i]]]
  have len: "length32 i = p + int n - start" and im: "imm32 i = im" and raw:
      "raw32 i = map (\<lambda>j. read (start + int j)) [0..<nat (p + int n - start)]"
    and T: "target32 i = (case im of Some v \<Rightarrow> if ?near then Some ((start + (p + int n - start)
      + signed_raw (if op = 0xE8 \<or> op = 0xE9 \<or> op = 0x0F then nat (if 0x66 \<in> set ps then 2 else 4) else 1) v) AND 0xFFFFFFFF)
      else None | None \<Rightarrow> None)"
    unfolding rec [symmetric] by (simp_all only: Inst32.simps)
  show "ip32 i = start" "prefixes32 i = ps" "kind32 i = k" "op32 i = opcode"
      "opsize32 i = (if 0x66 \<in> set ps then 2 else 4)" "adsize32 i = (if 0x67 \<in> set ps then 2 else 4)"
    unfolding rec [symmetric] by (simp_all only: Inst32.simps)
  show "\<exists>p. pos \<le> p \<and> length32 i = p - start"
    using len p by (intro exI [of _ "p + int n"]) simp
  show "length32 i \<le> 15"
    using conjunct1 [OF i] len by simp
  show "raw32 i = map (\<lambda>j. read (start + int j)) [0..<nat (length32 i)]"
    unfolding len by (rule raw)
  show "\<forall>b \<in> set (raw32 i). 0 \<le> b \<and> b < 256"
    using conjunct1 [OF conjunct2 [OF conjunct2 [OF i]]] by (simp only: raw list_all_iff)
  show "\<forall>t. target32 i = Some t \<longrightarrow> 0 \<le> t \<and> t < 2 ^ 32 \<and> k \<in> {JCC, JMP, CALL}"
    unfolding T by (auto simp: mask_simps split: option.splits if_splits)
  show "k = JCC \<or> k = CALL \<or> k = JMP \<and> (op = 0xE9 \<or> op = 0xEB) \<longrightarrow> target32 i \<noteq> None"
    unfolding T using conjunct1 [OF conjunct2 [OF i]] by (auto split: option.splits)
qed

text \<open>
  C18: every instruction the 32-bit decoder accepts is one to fifteen bytes, its raw bytes are those at its
  address, it starts with its prefixes, and it has a 32-bit target exactly when it is a conditional
  or unconditional near jump or a near call.
\<close>

theorem decode32_extent:
  assumes "decode32 read start = Inr i"
  shows "ip32 i = start \<and> 1 \<le> length32 i \<and> length32 i \<le> 15 \<and> int (length (prefixes32 i)) < length32 i
    \<and> raw32 i = map (\<lambda>k. read (start + int k)) [0..<nat (length32 i)] \<and> (\<forall>b \<in> set (raw32 i). 0 \<le> b \<and> b < 256)
    \<and> take (length (prefixes32 i)) (raw32 i) = prefixes32 i \<and> set (prefixes32 i) \<subseteq> set PREFIXES32
    \<and> (kind32 i \<in> {JCC, JMP, CALL} \<longleftrightarrow> target32 i \<noteq> None) \<and> (\<forall>t. target32 i = Some t \<longrightarrow> 0 \<le> t \<and> t < 2 ^ 32)"
proof -
  obtain ps op opcode pos e where D:
      "ps = map (\<lambda>k. read (start + int k)) [0..<length ps]" "length ps \<le> 15" "set ps \<subseteq> set PREFIXES32"
      "op = read (start + int (length ps))" "op \<notin> set PREFIXES32"
      "opcode_at32 read (start + int (length ps)) = (op, opcode, pos, Some e)" "finish32 read start ps op opcode pos e = Inr i"
    using decode32_cases [OF assms] by metis
  obtain m spec k nm where e: "e = (m, spec, k, nm)" by (metis prod_cases4)
  note F = finish32_fields [OF D(7) [unfolded e]]
  have O: "start + int (length ps) + 1 \<le> pos" "k = JMP \<Longrightarrow> op = 0xE9 \<or> op = 0xEB"
    using opcode_at32_end [OF D(6) [unfolded e]] by auto
  have len: "int (length ps) < length32 i"
    using F(8) O(1) by auto
  have "take (length ps) (raw32 i) = ps"
    using len D(1) unfolding F(6) by (simp add: take_map min_def)
  moreover have "kind32 i \<in> {JCC, JMP, CALL} \<longleftrightarrow> target32 i \<noteq> None"
    using F(9,10) O(2) unfolding F(3) by auto
  ultimately show ?thesis
    using F(1,2,5-7,9) D(3) len by auto
qed

theorem decode32_extent_witness:
  "\<exists>i. decode32 (\<lambda>a. [0x66, 0x0F, 0x85, 0xFE, 0xFF] ! nat (a - 0x1000)) 0x1000 = Inr i \<and> target32 i = Some 0x1003
    \<and> length32 i = 5 \<and> 1 \<le> length32 i"
proof -
  let ?r = "\<lambda>a. [0x66, 0x0F, 0x85, 0xFE, 0xFF] ! nat (a - 0x1000)"
  have "(case decode32 ?r 0x1000 of Inr i \<Rightarrow> target32 i = Some 0x1003 \<and> length32 i = 5 | Inl _ \<Rightarrow> False)"
    by code_simp
  then obtain i where "decode32 ?r 0x1000 = Inr i" "target32 i = Some 0x1003" "length32 i = 5"
    by (auto split: sum.splits)
  then show ?thesis
    using decode32_extent [of ?r "0x1000" i] by blast
qed

section \<open>An instruction is its own bytes\<close>

text \<open>Two readers that agree from \<open>a\<close> up to \<open>b\<close>.\<close>

definition same_code :: "(int \<Rightarrow> int) \<Rightarrow> (int \<Rightarrow> int) \<Rightarrow> int \<Rightarrow> int \<Rightarrow> bool" where
  "same_code read read' a b \<longleftrightarrow> (\<forall>x \<in> {a..<b}. read' x = read x)"

lemma same_codeD: "same_code read read' a b \<Longrightarrow> a \<le> x \<Longrightarrow> x < b \<Longrightarrow> read' x = read x"
  by (simp add: same_code_def)

lemma same_code_sub: "same_code read read' a b \<Longrightarrow> a \<le> c \<Longrightarrow> d \<le> b \<Longrightarrow> same_code read read' c d"
  by (auto simp: same_code_def)

lemma le_raw_same: "same_code read read' pos (pos + int n) \<Longrightarrow> le_raw read' pos n = le_raw read pos n"
proof (induction n)
  case (Suc n)
  then show ?case
    using same_codeD [OF Suc.prems, of "pos + int n"] same_code_sub [OF Suc.prems, of pos "pos + int n"] by simp
qed simp

lemma scan_prefixes32_same:
  "scan_prefixes32 n read pos = Some ps \<Longrightarrow> same_code read read' pos (pos + int (length ps) + 1) \<Longrightarrow>
   scan_prefixes32 n read' pos = Some ps"
proof (induction n arbitrary: pos ps)
  case (Suc n)
  have hd: "read' pos = read pos"
    using same_codeD [OF Suc.prems(2)] by simp
  show ?case
  proof (cases "read pos \<in> set PREFIXES32")
    case True
    then obtain qs where qs: "scan_prefixes32 n read (pos + 1) = Some qs" "ps = read pos # qs"
      using Suc.prems by auto
    have "scan_prefixes32 n read' (pos + 1) = Some qs"
      using Suc.IH [OF qs(1)] same_code_sub [OF Suc.prems(2), of "pos + 1"] qs(2) by simp
    then show ?thesis
      using True qs(2) hd by simp
  qed (use Suc.prems hd in simp)
next
  case 0
  then show ?case
    using same_codeD [OF 0(2), of pos] by (auto split: if_splits)
qed

lemma decode_operand32_same:
  assumes "decode_operand32 read pos adsz = (sib, disp, p)" and "same_code read read' pos p"
  shows "decode_operand32 read' pos adsz = (sib, disp, p)"
proof -
  obtain dlen hs where X: "modrm_extra_len (read pos) adsz = (dlen, hs)"
    by fastforce
  define q where "q = (if hs then pos + 2 else pos + 1)"
  define n where "n = (if hs \<and> read (pos + 1) AND 7 = 5 \<and> drop_bit 6 (read pos) = 0 then 4 else dlen)"
  have R: "decode_operand32 r pos adsz = (if hs then Some (r (pos + 1)) else None,
      if n \<noteq> 0 then Some (signed_raw n (le_raw r q n)) else None, q + int n)"
    if "r pos = read pos" "hs \<Longrightarrow> r (pos + 1) = read (pos + 1)" for r
    using that by (cases hs) (simp_all add: decode_operand32_def Let_def X n_def q_def)
  have p: "p = q + int n"
    using R [of read] assms(1) by simp
  have "le_raw read' q n = le_raw read q n"
    by (rule le_raw_same) (use same_code_sub [OF assms(2)] p in \<open>simp add: q_def split: if_splits\<close>)
  moreover have "read' pos = read pos" "hs \<Longrightarrow> read' (pos + 1) = read (pos + 1)"
    using same_codeD [OF assms(2)] p by (simp_all add: q_def split: if_splits)
  ultimately show ?thesis
    using R [of read'] R [of read] assms(1) by simp
qed

lemma finish32_same:
  assumes "finish32 read start ps op opcode pos (m, spec, k, nm) = Inr i" and "same_code read read' start (start + length32 i)"
    and "start \<le> pos"
  shows "finish32 read' start ps op opcode pos (m, spec, k, nm) = Inr i" "m \<Longrightarrow> pos < start + length32 i"
    "pos \<le> start + length32 i"
proof -
  let ?adsz = "if 0x67 \<in> set ps then 2 else 4 :: int"
  obtain sib disp p where D: "(if m then decode_operand32 read pos ?adsz else (None, None, pos)) = (sib, disp, p)"
    by (metis prod_cases3)
  have p: "pos \<le> p" "m \<Longrightarrow> pos < p"
    using D decode_operand32_end by (fastforce split: if_splits)+
  define n where "n = imm_length32 spec op (if 0x66 \<in> set ps then 2 else 4) ?adsz (if m then Some (read pos) else None)"
  have len: "length32 i = p + int n - start"
    using assms(1) by (auto simp: finish32_def Let_def D n_def guard_Inr simp del: split_paired_Ex)
  show "m \<Longrightarrow> pos < start + length32 i" "pos \<le> start + length32 i"
    using p len by simp_all
  have D': "(if m then decode_operand32 read' pos ?adsz else (None, None, pos)) = (sib, disp, p)"
    using D decode_operand32_same [of read pos ?adsz sib disp p] same_code_sub [OF assms(2), of pos p] assms(3) len
    by (auto split: if_splits)
  have M: "(if m then Some (read' pos) else None) = (if m then Some (read pos) else None)"
    using same_codeD [OF assms(2), of pos] p len assms(3) by (cases m) simp_all
  have V: "le_raw read' p n = le_raw read p n"
    by (rule le_raw_same) (use same_code_sub [OF assms(2)] p len assms(3) in simp)
  have B: "map (\<lambda>j. read' (start + int j)) [0..<nat (p + int n - start)] = map (\<lambda>j. read (start + int j)) [0..<nat (p + int n - start)]"
    using same_codeD [OF assms(2)] len by simp
  show "finish32 read' start ps op opcode pos (m, spec, k, nm) = Inr i"
    unfolding assms(1) [symmetric] by (simp only: finish32_def Let_def prod.case D D' M n_def [symmetric] V B)
qed

text \<open>
  what the decoder makes of an instruction depends on the bytes of that instruction alone: code that
  has the same bytes over the decoded length decodes to the same instruction, whatever follows.
\<close>

theorem decode32_self_contained:
  assumes "decode32 read start = Inr i" and "same_code read read' start (start + length32 i)"
  shows "decode32 read' start = Inr i"
proof -
  obtain ps op opcode pos e where D: "scan_prefixes32 15 read start = Some ps" "op = read (start + int (length ps))"
      "opcode_at32 read (start + int (length ps)) = (op, opcode, pos, Some e)" "finish32 read start ps op opcode pos e = Inr i"
    using assms(1) by (auto simp: decode32_def MAX_LEN32_def opcode_at32_def Let_def split: option.splits if_splits)
  obtain m spec k nm where e: "e = (m, spec, k, nm)" by (metis prod_cases4)
  let ?p = "start + int (length ps)"
  have pos: "pos = ?p + 1 \<or> pos = ?p + 2"
    by (rule opcode_at32_end(1) [OF D(3) [unfolded e]])
  note F = finish32_same [OF D(4) [unfolded e] assms(2)]
  have F': "finish32 read' start ps op opcode pos e = Inr i" "m \<Longrightarrow> pos < start + length32 i" "pos \<le> start + length32 i"
    using F pos unfolding e by auto
  have "scan_prefixes32 15 read' start = Some ps"
    by (rule scan_prefixes32_same [OF D(1)]) (use same_code_sub [OF assms(2)] F'(3) pos in auto)
  moreover have "opcode_at32 read' ?p = (op, opcode, pos, Some e)"
  proof -
    have "read' ?p = read ?p" and "op = 0x0F \<Longrightarrow> read' (?p + 1) = read (?p + 1)" and "op = 0xFF \<Longrightarrow> read' (?p + 1) = read (?p + 1)"
      using same_codeD [OF assms(2)] F'(2,3) pos D(2,3)
      by (auto simp: opcode_at32_def Let_def grp5_entry_def e split: if_splits)
    then show ?thesis
      using D(2,3) by (auto simp: opcode_at32_def Let_def split: if_splits)
  qed
  ultimately show ?thesis
    using F'(1) by (simp add: decode32_def MAX_LEN32_def)
qed

theorem decode32_self_contained_witness:
  "decode32 (\<lambda>a. if a = 0 then 0xB0 else if a = 1 then 7 else 0xCC) 0 = decode32 (\<lambda>a. if a = 0 then 0xB0 else 7) 0
   \<and> sum.projr (decode32 (\<lambda>a. if a = 0 then 0xB0 else 7) 0) \<noteq> sum.projr (decode32 (\<lambda>a. if a = 0 then 0xB0 else 8) 0)"
proof
  let ?r = "\<lambda>a :: int. if a = 0 then 0xB0 else 7 :: int"
  have "(case decode32 ?r 0 of Inr i \<Rightarrow> length32 i = 2 | Inl _ \<Rightarrow> False)"
    by code_simp
  then obtain i where i: "decode32 ?r 0 = Inr i" "length32 i = 2"
    by (auto split: sum.splits)
  show "decode32 (\<lambda>a. if a = 0 then 0xB0 else if a = 1 then 7 else 0xCC) 0 = decode32 ?r 0"
    using decode32_self_contained [OF i(1), of "\<lambda>a. if a = 0 then 0xB0 else if a = 1 then 7 else 0xCC"] i
    by (simp add: same_code_def)
qed code_simp

end
