(* ===== verification/Decode32_Interp.thy ===== *)
theory Decode32_Interp
  imports Decode32 CPU386_Run
begin

text \<open>
  The 32-bit decoder against the interpreter of \<open>dos_re/cpu386.py\<close>: prefixes, operand bytes and
  effective addresses, when the decoder reads the machine's own memory.
\<close>

section \<open>Reading the machine's code\<close>

definition code_read :: "'w cpu386 \<Rightarrow> int \<Rightarrow> int" where
  "code_read c a = uint (bdata (fdata (mem386 c)) a)"

text \<open>The code ahead is plain RAM, and the memory is shorter than the address space.\<close>

definition code_ok :: "'w cpu386 \<Rightarrow> bool" where
  "code_ok c \<longleftrightarrow> 0 \<le> eip c \<and> eip c + 16 \<le> blen (fdata (mem386 c)) \<and> blen (fdata (mem386 c)) < 2 ^ 32 \<and>
     (\<forall>a \<in> {eip c..<eip c + 16}. \<not> in_vga (mem386 c) a)"

text \<open>The machine after \<open>n\<close> bytes were fetched and the default segment was set.\<close>

definition fetched :: "int \<Rightarrow> seg386 \<Rightarrow> 'w cpu386 \<Rightarrow> 'w cpu386" where
  "fetched n s c = c\<lparr>eip := eip c + n, defseg := s\<rparr>"

lemma code_read_range: "0 \<le> code_read c a" "code_read c a < 256"
  using uint_lt2p [of "bdata (fdata (mem386 c)) a"] by (simp_all add: code_read_def)

lemma le_or_append: "le_or (bs @ [b]) = le_or bs OR push_bit (8 * length bs) b"
  by (induction bs) (simp_all add: le_or_Cons push_bit_or or.assoc)

lemma ram_value_raw: "ram_value a n (mem386 c) = le_raw (code_read c) a n"
  by (induction n) (simp_all add: ram_value_def le_or_append code_read_def)

lemma fetch8_code:
  assumes "code_ok c" and "0 \<le> n" and "n < 16"
  shows "fetch8_386 (fetched n s c) = (Inr (code_read c (eip c + n)), fetched (n + 1) s c)"
  using assms by (simp add: fetch8_386_ahead fetched_def code_ok_def code_read_def algebra_simps)

lemma fetch_wide_code:
  assumes "code_ok c" and "0 \<le> n" and "n + int k \<le> 16" and "0 < k"
  shows "fetch_wide k (fetched n s c) = (Inr (le_raw (code_read c) (eip c + n) k), fetched (n + int k) s c)"
proof -
  have "ram_ok (mem386 c) (eip c + n) k" and "mask32 (eip c + n + int k) = eip c + n + int k"
    using assms by (simp_all add: code_ok_def ram_ok_def mask32_small)
  then show ?thesis
    by (simp add: fetch_wide_def fetched_def get386_def set_eip_def upd386_def on_flat_def flat_read_ram
      ram_value_raw algebra_simps)
qed

section \<open>Signed displacements\<close>

lemma signed_raw_eq: "signed_raw n v = sign386 v (8 * n)"
  by (simp add: signed_raw_def sign386_def)

lemma or_push_bit_range: "0 \<le> a \<Longrightarrow> a < 2 ^ m \<Longrightarrow> 0 \<le> b \<Longrightarrow> b < 2 ^ k \<Longrightarrow> 0 \<le> a OR push_bit m b \<and> a OR push_bit m b < (2::int) ^ (m + k)"
proof
  assume *: "0 \<le> a" "a < 2 ^ m" "0 \<le> b" "b < 2 ^ k"
  then show "0 \<le> a OR push_bit m b" by simp
  have "a < 2 ^ (m + k)"
    using *(2) power_increasing [of m "m + k" "2 :: int"] by linarith
  moreover have "push_bit m b < 2 ^ (m + k)"
    using *(4) by (simp add: push_bit_eq_mult power_add)
  ultimately show "a OR push_bit m b < 2 ^ (m + k)"
    by (rule OR_upper [OF *(1)])
qed

lemma le_raw_range: "(\<And>a. 0 \<le> read a \<and> read a < 256) \<Longrightarrow> 0 \<le> le_raw read p n \<and> le_raw read p n < 2 ^ (8 * n)"
proof (induction n)
  case (Suc n)
  then show ?case
    using or_push_bit_range [of "le_raw read p n" "8 * n" "read (p + int n)" 8] by (simp add: add.commute)
qed simp

text \<open>The signed value has the bits of the raw one.\<close>

lemma and_power_cases: "v AND 2 ^ k = (if bit v k then 2 ^ k else (0::int))"
  by (rule bit_eqI) (auto simp: bit_and_iff bit_exp_iff)

lemma signed_raw_mod:
  assumes "0 < n" and "0 \<le> v" and "v < 2 ^ (8 * n)"
  shows "signed_raw n v mod 2 ^ (8 * n) = v"
proof -
  obtain k where k: "8 * n = Suc k"
    using assms(1) by (cases "8 * n") simp_all
  have "take_bit (Suc k) v = v"
    using assms by (simp add: take_bit_int_eq_self k)
  then have "v = take_bit k v + (if bit v k then 2 ^ k else 0)"
    by (metis add.commute push_bit_of_1 take_bit_Suc_from_most mult.right_neutral of_bool_def mult_zero_right)
  moreover have "signed_raw n v = take_bit k v - (if bit v k then 2 ^ k else 0)"
    using and_power_cases [of v k] by (simp add: signed_raw_def Let_def k take_bit_eq_mask mask_eq_exp_minus_1)
  ultimately have "signed_raw n v = v - (if bit v k then 2 ^ Suc k else 0)"
    by (simp split: if_splits)
  then show ?thesis
    using assms(2,3) unfolding k by simp
qed

section \<open>Effective addresses\<close>

definition default_seg :: "int \<Rightarrow> int \<Rightarrow> int \<Rightarrow> int option \<Rightarrow> seg386" where
  "default_seg adsz md rm sib =
     (if adsz = 2 then (if rm = 2 \<or> rm = 3 \<or> rm = 6 \<and> md \<noteq> 0 then SegSS else SegDS)
      else case sib of Some s \<Rightarrow> (if s AND 7 = 4 \<or> s AND 7 = 5 \<and> md \<noteq> 0 then SegSS else SegDS)
        | None \<Rightarrow> (if rm = 5 \<and> md \<noteq> 0 then SegSS else SegDS))"

text \<open>The offset: base register, scaled index and the decoded displacement.\<close>

definition operand_offset :: "int \<Rightarrow> int list \<Rightarrow> int \<Rightarrow> int \<Rightarrow> int option \<Rightarrow> int option \<Rightarrow> int" where
  "operand_offset adsz g md rm sib disp =
     (let d = (case disp of Some d \<Rightarrow> d | None \<Rightarrow> 0) in
      if adsz = 2 then ((if rm = 6 \<and> md = 0 then 0 else base16 rm g) + d) mod 2 ^ 16
      else ((case sib of
               Some s \<Rightarrow> (if drop_bit 3 s AND 7 = 4 then 0 else g ! nat (drop_bit 3 s AND 7) * 2 ^ nat (drop_bit 6 s))
                 + (if s AND 7 = 5 \<and> md = 0 then 0 else g ! nat (s AND 7))
             | None \<Rightarrow> (if rm = 5 \<and> md = 0 then 0 else g ! nat rm)) + d) mod 2 ^ 32)"

lemma fetched_fields [simp]: "gpr (fetched n s c) = gpr c" "mem386 (fetched n s c) = mem386 c" "adsize (fetched n s c) = adsize c"
  "sbase (fetched n s c) = sbase c" "segovr (fetched n s c) = segovr c" "defseg (fetched n s c) = s" "eip (fetched n s c) = eip c + n"
  by (simp_all add: fetched_def)

lemma set_defseg_fetched [simp]: "set_defseg s' (fetched n s c) = (Inr (), fetched n s' c)"
  by (simp add: set_defseg_def upd386_def fetched_def)

lemma sign8_code:
  assumes "code_ok c" and "0 \<le> n" and "n < 16"
  shows "fetch_sign8 (fetched n s c) = (Inr (signed_raw 1 (le_raw (code_read c) (eip c + n) 1)), fetched (n + 1) s c)"
  using assms by (simp add: fetch_sign8_def fetch8_code signed_raw_eq)

text \<open>A wide displacement: the interpreter adds its unsigned value, the decoder its signed one.\<close>

lemma raw_mod: "0 < k \<Longrightarrow> le_raw (code_read c) a k = signed_raw k (le_raw (code_read c) a k) mod 2 ^ (8 * k)"
  using signed_raw_mod [of k "le_raw (code_read c) a k"] le_raw_range [of "code_read c"] code_read_range by metis

lemma raw_add_mod: "0 < k \<Longrightarrow> (x + le_raw (code_read c) a k) mod 2 ^ (8 * k) = (x + signed_raw k (le_raw (code_read c) a k)) mod 2 ^ (8 * k)"
  by (subst raw_mod) (simp_all add: mod_add_right_eq)

lemma raw_mod_self: "0 < k \<Longrightarrow> signed_raw k (le_raw (code_read c) a k) mod 2 ^ (8 * k) = le_raw (code_read c) a k"
  using raw_mod [of k c a] by simp

text \<open>The displacement and its length, as the decoder has them.\<close>

definition disp_opt :: "'w cpu386 \<Rightarrow> int \<Rightarrow> nat \<Rightarrow> int option" where
  "disp_opt c p n = (if n \<noteq> 0 then Some (signed_raw n (le_raw (code_read c) p n)) else None)"

definition disp_val :: "'w cpu386 \<Rightarrow> int \<Rightarrow> nat \<Rightarrow> int" where
  "disp_val c p n = (if n = 0 then 0 else signed_raw n (le_raw (code_read c) p n))"

lemma disp_opt_val: "(case disp_opt c p n of Some d \<Rightarrow> d | None \<Rightarrow> 0) = disp_val c p n"
  by (simp add: disp_opt_def disp_val_def)

text \<open>A mode's displacement, added modulo the address width.\<close>

lemma displacement_code:
  assumes "code_ok c" and "0 \<le> k" and "k < 10" and "w = 2 \<or> w = 4" and "md = 0 \<or> md = 1 \<or> md = 2"
  defines "n \<equiv> (if md = 1 then 1 else if md = 2 then w else 0)"
  shows "\<exists>v. displacement md w (fetched k s c) = (Inr v, fetched (k + int n) s c)
    \<and> (\<forall>x. (x + v) mod 2 ^ (8 * w) = (x + disp_val c (eip c + k) n) mod 2 ^ (8 * w))"
proof -
  consider "md = 0" | "md = 1" | "md = 2"
    using assms(5) by auto
  then show ?thesis
  proof cases
    case 3
    then have "displacement md w (fetched k s c) = (Inr (le_raw (code_read c) (eip c + k) w), fetched (k + int n) s c)"
      using assms(1-4) by (auto simp: displacement_def n_def fetch_wide_code)
    moreover have "(x + le_raw (code_read c) (eip c + k) w) mod 2 ^ (8 * w) = (x + disp_val c (eip c + k) n) mod 2 ^ (8 * w)" for x
      using 3 assms(4) raw_add_mod [of w x c "eip c + k"] by (auto simp: n_def disp_val_def)
    ultimately show ?thesis
      by blast
  qed (use assms(1-4) in \<open>simp_all add: displacement_def n_def disp_val_def sign8_code\<close>)
qed

lemma addr16_code:
  assumes "code_ok c" and "md = 0 \<or> md = 1 \<or> md = 2" and "0 \<le> rm" "rm < 8"
  defines "n \<equiv> (if md = 0 then (if rm = 6 then 2 else 0) else if md = 1 then 1 else 2)"
  shows "addr16 md rm (fetched 1 s c) = (Inr (operand_offset 2 (gpr c) md rm None (disp_opt c (eip c + 1) n)),
    fetched (1 + int n) (default_seg 2 md rm None) c)"
proof (cases "rm = 6 \<and> md = 0")
  case True
  then show ?thesis
    using raw_mod_self [of 2 c "eip c + 1"]
    by (simp add: addr16_def get386_def fetch_wide_code [OF assms(1)] n_def operand_offset_def default_seg_def disp_opt_def)
next
  case False
  define dm where "dm = (if md = 1 then 1 else if md = 2 then 2 else 0 :: nat)"
  have n: "n = dm"
    using False assms(2) by (auto simp: n_def dm_def)
  obtain v where v: "displacement md 2 (fetched 1 (default_seg 2 md rm None) c) = (Inr v, fetched (1 + int n) (default_seg 2 md rm None) c)"
      "\<forall>x. (x + v) mod 2 ^ 16 = (x + disp_val c (eip c + 1) n) mod 2 ^ 16"
    using displacement_code [OF assms(1) _ _ _ assms(2), of 1 2] unfolding n dm_def by fastforce
  show ?thesis
    using False v by (auto simp: addr16_def get386_def default_seg_def operand_offset_def disp_opt_val mask_simps)
qed

text \<open>Base and index of a 32-bit address, before its displacement.\<close>

definition base32 :: "int list \<Rightarrow> int \<Rightarrow> int \<Rightarrow> int option \<Rightarrow> int" where
  "base32 g md rm sib = (case sib of
     Some s \<Rightarrow> (if drop_bit 3 s AND 7 = 4 then 0 else g ! nat (drop_bit 3 s AND 7) * 2 ^ nat (drop_bit 6 s))
       + (if s AND 7 = 5 \<and> md = 0 then 0 else g ! nat (s AND 7))
   | None \<Rightarrow> (if rm = 5 \<and> md = 0 then 0 else g ! nat rm))"

lemma operand_offset_32: "operand_offset 4 g md rm sib disp = (base32 g md rm sib + (case disp of Some d \<Rightarrow> d | None \<Rightarrow> 0)) mod 2 ^ 32"
  by (simp add: operand_offset_def base32_def Let_def)

lemma sib_base_code:
  assumes "code_ok c" and "sib = code_read c (eip c + 1)" and "md = 0 \<or> md = 1 \<or> md = 2"
  shows "sib_base md (fetched 1 SegDS c) =
    (if sib AND 7 = 5 \<and> md = 0
     then (Inr (base32 (gpr c) md 4 (Some sib) + le_raw (code_read c) (eip c + 2) 4), fetched 6 (default_seg 4 md 4 (Some sib)) c)
     else (Inr (base32 (gpr c) md 4 (Some sib)), fetched 2 (default_seg 4 md 4 (Some sib)) c))"
proof -
  have "fetch8_386 (fetched 1 SegDS c) = (Inr sib, fetched 2 SegDS c)"
    using fetch8_code [OF assms(1), of 1] assms(2) by simp
  then show ?thesis
    using assms(3) by (auto simp: sib_base_def Let_def get386_def fetch_wide_code [OF assms(1)] base32_def default_seg_def
      push_bit_eq_mult mult.commute ESP_def EBP_def)
qed

lemma mod_of_raw:
  assumes "v = le_raw (code_read c) p 4"
  shows "(x + v) mod 2 ^ 32 = (x + disp_val c p 4) mod 2 ^ 32"
  using raw_add_mod [of 4 x c p] assms by (simp add: disp_val_def)

lemma addr32_code:
  assumes "code_ok c" and "md = 0 \<or> md = 1 \<or> md = 2" and "0 \<le> rm" "rm < 8"
  defines "sib \<equiv> (if rm = 4 then Some (code_read c (eip c + 1)) else None)" and "k \<equiv> (if rm = 4 then 2 else 1 :: int)"
    and "n \<equiv> (if md = 0 then (if rm = 5 \<or> rm = 4 \<and> code_read c (eip c + 1) AND 7 = 5 then 4 else 0) else if md = 1 then 1 else 4)"
  shows "addr32 md rm (fetched 1 s c) = (Inr (operand_offset 4 (gpr c) md rm sib (disp_opt c (eip c + k) n)),
    fetched (k + int n) (default_seg 4 md rm sib) c)"
proof -
  let ?ds = "default_seg 4 md rm sib"
  define dm where "dm = (if md = 1 then 1 else if md = 2 then 4 else 0 :: nat)"
  have D: "\<exists>v. displacement md 4 (fetched j ?ds c) = (Inr v, fetched (j + int dm) ?ds c)
      \<and> (\<forall>x. (x + v) mod 2 ^ 32 = (x + disp_val c (eip c + j) dm) mod 2 ^ 32)" if "0 \<le> j" "j < 10" for j
    using displacement_code [OF assms(1) that _ assms(2), of 4] by (simp add: dm_def)
  consider (direct) "rm = 5" "md = 0" | (sib_direct) "rm = 4" "md = 0" "code_read c (eip c + 1) AND 7 = 5"
    | (sib) "rm = 4" "\<not> (md = 0 \<and> code_read c (eip c + 1) AND 7 = 5)" | (reg) "rm \<noteq> 4" "\<not> (rm = 5 \<and> md = 0)"
    by blast
  then show ?thesis
  proof cases
    case direct
    then show ?thesis
      using raw_mod_self [of 4 c "eip c + 1"]
      by (simp add: addr32_def fetch_wide_code [OF assms(1)] operand_offset_def default_seg_def disp_opt_def sib_def k_def n_def)
  next
    case sib_direct
    then show ?thesis
      using sib_base_code [OF assms(1) refl assms(2)] mod_of_raw [where c = c and p = "eip c + 2", OF refl]
      by (simp add: addr32_def displacement_def operand_offset_32 disp_opt_val sib_def k_def n_def mask32_def mask_simps)
  next
    case sib
    then have n: "n = dm"
      using assms(2) by (auto simp: n_def dm_def)
    show ?thesis
      using sib D [of 2] sib_base_code [OF assms(1) refl assms(2)]
      by (auto simp: addr32_def operand_offset_32 disp_opt_val sib_def k_def n mask32_def mask_simps)
  next
    case reg
    then have n: "n = dm"
      using assms(2) by (auto simp: n_def dm_def)
    show ?thesis
      using reg D [of 1] assms(2)
      by (auto simp: addr32_def get386_def operand_offset_32 base32_def disp_opt_val sib_def k_def n mask32_def mask_simps
        default_seg_def EBP_def)
  qed
qed

lemma decode_operand32_code:
  assumes "m = read q" and "adsz = 2 \<or> adsz = 4" and "0 \<le> m" "m < 256"
    and "md = drop_bit 6 m" and "rm = m AND 7" and "md \<noteq> 3"
  defines "hs \<equiv> adsz = 4 \<and> rm = 4"
  defines "n \<equiv> (if adsz = 2 then (if md = 0 then (if rm = 6 then 2 else 0) else if md = 1 then 1 else 2)
      else (if md = 0 then (if rm = 5 \<or> rm = 4 \<and> read (q + 1) AND 7 = 5 then 4 else 0) else if md = 1 then 1 else 4))"
  shows "decode_operand32 read q adsz = (if hs then Some (read (q + 1)) else None,
    if n \<noteq> 0 then Some (signed_raw n (le_raw read (q + (if hs then 2 else 1)) n)) else None, q + (if hs then 2 else 1) + int n)"
proof -
  have md: "drop_bit 6 (read q) = md" "read q AND 7 = rm"
    using assms(1,5,6) by simp_all
  show ?thesis
    using assms(2,7) by (auto simp: decode_operand32_def modrm_extra_len_def Let_def md hs_def n_def)
qed

lemma byte_fields: "0 \<le> m \<Longrightarrow> m < 256 \<Longrightarrow> drop_bit 6 m = 0 \<or> drop_bit 6 m = 1 \<or> drop_bit 6 m = 2 \<or> drop_bit 6 m = (3::int)"
  by (auto simp: mask_simps)

text \<open>
  C12: on every ModRM byte, in both address sizes, the 32-bit interpreter consumes exactly the ModRM, SIB
  and displacement bytes of the static decoder, and a memory operand is at the segment base plus
  base register, scaled index and the displacement the decoder reports.
\<close>

theorem operand32_decoding_agrees:
  assumes "code_ok c" and "adsize c = 2 \<or> adsize c = 4" and "m = code_read c (eip c)" and "md = drop_bit 6 m" and "rm = m AND 7"
    and "decode_operand32 (code_read c) (eip c) (int (adsize c)) = (sib, disp, p)"
  shows "modrm386 c =
    (if md = 3 then (Inr (drop_bit 3 m AND 7, True, rm), c\<lparr>eip := p\<rparr>)
     else let s = default_seg (int (adsize c)) md rm sib in
       (Inr (drop_bit 3 m AND 7, False, (sbase c (case segovr c of Some o' \<Rightarrow> o' | None \<Rightarrow> s)
          + operand_offset (int (adsize c)) (gpr c) md rm sib disp) mod 2 ^ 32), c\<lparr>eip := p, defseg := s\<rparr>))"
proof -
  have "c = fetched 0 (defseg c) c"
    by (simp add: fetched_def)
  then have F: "fetch8_386 c = (Inr m, fetched 1 (defseg c) c)"
    using fetch8_code [OF assms(1), of 0 "defseg c"] assms(3) by simp
  have m: "0 \<le> m" "m < 256" "0 \<le> rm" "rm < 8"
    using assms(3,5) code_read_range by (simp_all add: mask_simps)
  show ?thesis
  proof (cases "md = 3")
    case True
    then have "p = eip c + 1"
      using assms(2-6) by (auto simp: decode_operand32_def modrm_extra_len_def)
    then show ?thesis
      using True F assms(4,5) by (simp add: modrm386_def Let_def fetched_def)
  next
    case False
    then have md: "md = 0 \<or> md = 1 \<or> md = 2"
      using byte_fields [OF m(1,2)] assms(4) by auto
    have A: "int (adsize c) = 2 \<or> int (adsize c) = 4"
      using assms(2) by auto
    note D = decode_operand32_code [where read = "code_read c" and q = "eip c", OF assms(3) A m(1,2) assms(4,5) False] assms(6)
    have rm3: "modrm386 c = bindM (memaddr md rm) (\<lambda>a. ret (drop_bit 3 m AND 7, False, a)) (fetched 1 (defseg c) c)"
      using F False assms(4,5) by (simp add: modrm386_def Let_def)
    show ?thesis
    proof (cases "adsize c = 2")
      case True
      show ?thesis
        using D addr16_code [OF assms(1) md m(3,4), of "defseg c"] True False unfolding rm3
        by (auto simp: memaddr_def get386_def disp_opt_def mask32_def mask_simps fetched_def Let_def cong: option.case_cong)
    next
      case F4: False
      then have a4: "adsize c = 4"
        using assms(2) by simp
      show ?thesis
        using D addr32_code [OF assms(1) md m(3,4), of "defseg c"] False unfolding rm3
        by (cases "rm = 4") (auto simp: a4 memaddr_def get386_def disp_opt_def mask32_def mask_simps fetched_def Let_def cong: option.case_cong)
    qed
  qed
qed

text \<open>\<open>[eax + ecx*2 - 4]\<close>, behind ModRM 84h.\<close>

definition sib_cpu :: "unit cpu386" where
  "sib_cpu = CPU386_init (poke 0 6 (\<lambda>i. [0x84, 0x48, 0xFC, 0xFF, 0xFF, 0xFF] ! nat i) (FlatMemory 32)) 0 0 0 0 ()"

lemma sib_cpu_fields: "eip sib_cpu = 0" "adsize sib_cpu = 4" "blen (fdata (mem386 sib_cpu)) = 32" "code_ok sib_cpu"
  "code_read sib_cpu 0 = 0x84" "code_read sib_cpu 1 = 0x48" "code_read sib_cpu 2 = 0xFC" "code_read sib_cpu 3 = 0xFF"
  "code_read sib_cpu 4 = 0xFF" "code_read sib_cpu 5 = 0xFF"
  by (simp_all add: sib_cpu_def CPU386_init_def FlatMemory_def ba_zero_def code_read_def code_ok_def in_vga_def)

theorem operand32_decoding_agrees_witness:
  "modrm386 sib_cpu = (Inr (0, False, (sbase sib_cpu (case segovr sib_cpu of Some o' \<Rightarrow> o' | None \<Rightarrow> SegDS)
      + operand_offset 4 (gpr sib_cpu) 2 4 (Some 0x48) (Some (- 4))) mod 2 ^ 32), sib_cpu\<lparr>eip := 6, defseg := SegDS\<rparr>)"
proof -
  have "decode_operand32 (code_read sib_cpu) (eip sib_cpu) (int (adsize sib_cpu)) = (Some 0x48, Some (- 4), 6)"
  proof -
    let ?r = "\<lambda>a. [0x84, 0x48, 0xFC, 0xFF, 0xFF, 0xFF] ! nat a :: int"
    have "decode_operand32 ?r 0 4 = (Some 0x48, Some (- 4), 6)"
      by code_simp
    moreover have "same_code ?r (code_read sib_cpu) 0 6"
    proof -
      have "{0..<6} = set [0..5::int]"
        by auto
      then show ?thesis
        by (simp add: same_code_def upto.simps sib_cpu_fields)
    qed
    ultimately have "decode_operand32 (code_read sib_cpu) 0 4 = (Some 0x48, Some (- 4), 6)"
      by (rule decode_operand32_same)
    then show ?thesis
      by (simp add: sib_cpu_fields)
  qed
  note A = operand32_decoding_agrees [OF sib_cpu_fields(4) _ _ refl refl this]
  have "modrm386 sib_cpu = (if drop_bit 6 0x84 = (3::int) then (Inr (drop_bit 3 0x84 AND 7, True, 0x84 AND 7), sib_cpu\<lparr>eip := 6\<rparr>)
     else let s = default_seg (int (adsize sib_cpu)) (drop_bit 6 0x84) (0x84 AND 7) (Some 0x48) in
       (Inr (drop_bit 3 0x84 AND 7, False, (sbase sib_cpu (case segovr sib_cpu of Some o' \<Rightarrow> o' | None \<Rightarrow> s)
          + operand_offset (int (adsize sib_cpu)) (gpr sib_cpu) (drop_bit 6 0x84) (0x84 AND 7) (Some 0x48) (Some (- 4))) mod 2 ^ 32),
        sib_cpu\<lparr>eip := 6, defseg := s\<rparr>))"
    by (rule A) (simp_all add: sib_cpu_fields)
  then show ?thesis
    by (simp add: sib_cpu_fields(2) default_seg_def Let_def)
qed

section \<open>Prefixes\<close>

lemma is_prefix_PREFIXES32: "is_prefix386 b \<longleftrightarrow> b \<in> set PREFIXES32"
  by (auto simp: is_prefix386_def PREFIXES32_def seg_prefix386_def)

lemma seg_prefix_same: "seg_prefix386 = SEG_PREFIX32"
  by (rule ext) (simp add: seg_prefix386_def SEG_PREFIX32_def)

lemma code_ahead_map:
  "eip c \<le> blen (fdata (mem386 c)) \<Longrightarrow>
   code_ahead c = map (\<lambda>k. code_read c (eip c + int k)) [0..<nat (blen (fdata (mem386 c)) - eip c)]"
  by (rule nth_equalityI) (auto simp: code_ahead_def code_read_def)

text \<open>What a run of prefixes leaves behind, in the decoder's terms.\<close>

lemma take_prefixes_append: "take_prefixes (ps @ [p]) x = (case take_prefixes ps x of (rep, c) \<Rightarrow> take_prefix386 p rep c)"
  by (simp add: take_prefixes_def)

lemma find_append1: "find P (xs @ [x]) = (case find P xs of Some y \<Rightarrow> Some y | None \<Rightarrow> if P x then Some x else None)"
  by (induction xs) simp_all

lemma take_prefixes_result:
  "take_prefixes ps (r, c) =
    (case find (\<lambda>p. p = 0xF2 \<or> p = 0xF3) (rev ps) of Some q \<Rightarrow> q | None \<Rightarrow> r,
     c\<lparr>opsize := (if 0x66 \<in> set ps then 2 else opsize c), adsize := (if 0x67 \<in> set ps then 2 else adsize c),
       segovr := (case find (\<lambda>p. SEG_PREFIX32 p \<noteq> None) (rev ps) of Some q \<Rightarrow> SEG_PREFIX32 q | None \<Rightarrow> segovr c)\<rparr>)"
proof (induction ps rule: rev_induct)
  case Nil
  then show ?case by (simp add: take_prefixes_def)
next
  case (snoc p ps)
  have N: "SEG_PREFIX32 0x66 = None" "SEG_PREFIX32 0x67 = None" "SEG_PREFIX32 0xF2 = None" "SEG_PREFIX32 0xF3 = None"
    by (simp_all add: SEG_PREFIX32_def)
  note step = take_prefixes_append snoc.IH take_prefix386_def seg_prefix_same
  consider (seg) s where "SEG_PREFIX32 p = Some s" "p \<noteq> 0x66" "p \<noteq> 0x67" "p \<noteq> 0xF2" "p \<noteq> 0xF3"
    | "p = 0x66" | "p = 0x67" | "p = 0xF2" | "p = 0xF3"
    | (lock) "SEG_PREFIX32 p = None" "p \<noteq> 0x66" "p \<noteq> 0x67" "p \<noteq> 0xF2" "p \<noteq> 0xF3"
    using N by (metis not_Some_eq)
  then show ?case
    by cases (simp_all add: step N)
qed

lemma find_SomeD: "find P xs = Some y \<Longrightarrow> y \<in> set xs \<and> P y"
  by (auto simp: find_Some_iff)

lemma find_rev_same: "(\<And>x y. x \<in> set xs \<Longrightarrow> y \<in> set xs \<Longrightarrow> P x \<Longrightarrow> P y \<Longrightarrow> x = y) \<Longrightarrow> find P (rev xs) = find P xs"
proof (induction xs)
  case (Cons x xs)
  have "find P (rev xs) = find P xs"
    using Cons by (meson list.set_intros(2))
  then show ?case
    using Cons.prems find_SomeD [of P xs] by (cases "find P xs") (auto simp: find_append1)
qed simp

text \<open>
  C13: on every instruction the 32-bit decoder accepts whose repeat prefixes agree, the interpreter's prefix
  loop ends behind the same prefixes with the decoder's operand size, address size, segment override and
  repeat prefix, on the opcode byte the decoder dispatched on.
\<close>

theorem decoder32_prefixes_are_interpreters:
  assumes "code_ok c" and "decode32 (code_read c) (eip c) = Inr i" and "opsize c = 4" "adsize c = 4" "segovr c = None"
    and "0xF2 \<notin> set (prefixes32 i) \<or> 0xF3 \<notin> set (prefixes32 i)"
  shows "prefix_loop386 0 c = Some (Inr (code_read c (eip c + int (length (prefixes32 i))),
      case rep32 i of Some r \<Rightarrow> r | None \<Rightarrow> 0),
    c\<lparr>eip := eip c + int (length (prefixes32 i)) + 1, opsize := nat (opsize32 i), adsize := nat (adsize32 i),
      segovr := seg_override32 i\<rparr>)"
proof -
  obtain ps op opcode pos e where D: "ps = map (\<lambda>k. code_read c (eip c + int k)) [0..<length ps]" "length ps \<le> 15"
      "set ps \<subseteq> set PREFIXES32" "op = code_read c (eip c + int (length ps))" "op \<notin> set PREFIXES32"
      "opcode_at32 (code_read c) (eip c + int (length ps)) = (op, opcode, pos, Some e)"
      "finish32 (code_read c) (eip c) ps op opcode pos e = Inr i"
    using decode32_cases [OF assms(2)] by metis
  obtain m spec k nm where e: "e = (m, spec, k, nm)" by (metis prod_cases4)
  have I: "prefixes32 i = ps" "opsize32 i = (if 0x66 \<in> set ps then 2 else 4)" "adsize32 i = (if 0x67 \<in> set ps then 2 else 4)"
    using finish32_fields(2,11,12) [OF D(7) [unfolded e]] by simp_all
  let ?ahead = "code_ahead c"
  have len: "length ps < length ?ahead" "length ?ahead = nat (blen (fdata (mem386 c)) - eip c)"
    using assms(1) D(2) code_ahead_map [of c] by (simp_all add: code_ok_def zless_nat_eq_int_zless)
  have nth: "?ahead ! j = code_read c (eip c + int j)" if "j < length ?ahead" for j
    using that code_ahead_map [of c] assms(1) by (simp add: code_ok_def)
  have ps_nth: "ps ! j = code_read c (eip c + int j)" if "j < length ps" for j
    using D(1) that by (metis add_0 diff_zero nth_map_upt)
  have "takeWhile is_prefix386 ?ahead = take (length ps) ?ahead"
    by (rule takeWhile_eq_take_P_nth)
      (use D(3-5) len nth ps_nth in \<open>auto simp: is_prefix_PREFIXES32 subset_iff, metis nth_mem\<close>)
  also have "\<dots> = ps"
    using len nth ps_nth by (intro nth_equalityI) simp_all
  finally have tw: "takeWhile is_prefix386 ?ahead = ps" .
  have rep: "find (\<lambda>p. p = 0xF2 \<or> p = 0xF3) (rev ps) = rep32 i"
    unfolding rep32_def I(1) by (rule find_rev_same) (use assms(6) I(1) in auto)
  have seg: "(case find (\<lambda>p. SEG_PREFIX32 p \<noteq> None) (rev ps) of Some q \<Rightarrow> SEG_PREFIX32 q | None \<Rightarrow> None) = seg_override32 i"
    by (simp add: seg_override32_def I(1) split: option.splits)
  show ?thesis
    using prefix_loop386_returns [of c 0] assms(1,3-5) len nth [of "length ps"] rep seg
    by (simp add: tw code_ok_def take_prefixes_result I(1-3) Let_def cong: option.case_cong)
qed

text \<open>\<open>66 2E 90\<close>.\<close>

definition prefix_cpu :: "unit cpu386" where
  "prefix_cpu = CPU386_init (poke 0 3 (\<lambda>i. [0x66, 0x2E, 0x90] ! nat i) (FlatMemory 32)) 0 0 0 0 ()"

lemma prefix_cpu_fields: "eip prefix_cpu = 0" "adsize prefix_cpu = 4" "opsize prefix_cpu = 4" "segovr prefix_cpu = None"
  "code_ok prefix_cpu" "code_read prefix_cpu 0 = 0x66" "code_read prefix_cpu 1 = 0x2E" "code_read prefix_cpu 2 = 0x90"
  by (simp_all add: prefix_cpu_def CPU386_init_def FlatMemory_def ba_zero_def code_read_def code_ok_def in_vga_def)

theorem decoder32_prefixes_are_interpreters_witness:
  "prefix_loop386 0 prefix_cpu = Some (Inr (0x90, 0), prefix_cpu\<lparr>eip := 3, opsize := 2, adsize := 4, segovr := Some SegCS\<rparr>)"
proof -
  have scan: "scan_prefixes32 15 (code_read prefix_cpu) 0 = Some [0x66, 0x2E]"
    by (simp add: numeral_eq_Suc PREFIXES32_def prefix_cpu_fields)
  have ent: "entry_T32 0x90 = Some (False, Bytes 0, SEQ, ''nop'')"
    by code_simp
  obtain i where i: "decode32 (code_read prefix_cpu) 0 = Inr i" "prefixes32 i = [0x66, 0x2E]" "opsize32 i = 2" "adsize32 i = 4"
    using scan ent code_read_range [of prefix_cpu]
    by (simp add: decode32_def MAX_LEN32_def opcode_at32_def prefix_cpu_fields finish32_def imm_length32_def Let_def list_all_iff)
  have "rep32 i = None" "seg_override32 i = Some SegCS"
    by (simp_all add: rep32_def seg_override32_def i(2) SEG_PREFIX32_def)
  then show ?thesis
    using decoder32_prefixes_are_interpreters [of prefix_cpu i] i by (simp add: prefix_cpu_fields)
qed

end
