(* ===== verification/Reg_Effects.thy ===== *)
theory Reg_Effects
  imports Decode
begin

text \<open>
  \<open>dos_re/lift/cpuless.py\<close>, first half: the registers one decoded 16-bit instruction reads and writes,
  its memory and stack effects, or the capability that is missing to describe it.  \<open>slot\<close> is the kind of
  the instruction's \<open>patched_slot\<close> (\<open>"imm"\<close>, \<open>"far-target"\<close> or none), which the instruction record
  itself leaves out.
\<close>

section \<open>Registers and effects\<close>

datatype areg = R_AX | R_CX | R_DX | R_BX | R_SP | R_BP | R_SI | R_DI | R_ES | R_CS | R_SS | R_DS

definition W16 :: "areg list" where
  "W16 = [R_AX, R_CX, R_DX, R_BX, R_SP, R_BP, R_SI, R_DI]"

definition SEGS :: "areg list" where
  "SEGS = [R_ES, R_CS, R_SS, R_DS]"

definition EA_REGS :: "areg list list" where
  "EA_REGS = [[R_BX, R_SI], [R_BX, R_DI], [R_BP, R_SI], [R_BP, R_DI], [R_SI], [R_DI], [R_BP], [R_BX]]"

definition PLAT_FARCALL_REGS :: "areg set" where
  "PLAT_FARCALL_REGS = {R_AX, R_BX, R_CX, R_DX, R_SI, R_DI, R_BP, R_DS, R_ES}"

text \<open>The capability a refusal names.\<close>

datatype capability = Enter_nesting_level int | Call_abi_composition | Indirect_or_far_transfer | Program_terminate
  | Vectored_int_call | Hlt_refused | Unanalyzed_opcode int

record Effects =
  reads :: "areg set"
  writes :: "areg set"
  mem_read :: bool
  mem_write :: bool
  stack_delta :: "int option"
  frame_restore :: bool
  frame_establish :: bool
  frame_restore_to_base :: bool
  refusal :: "capability option"
  port_io :: bool
  int_effect :: "int option"

definition no_effects :: Effects where
  "no_effects = \<lparr>reads = {}, writes = {}, mem_read = False, mem_write = False, stack_delta = Some 0, frame_restore = False,
     frame_establish = False, frame_restore_to_base = False, refusal = None, port_io = False, int_effect = None\<rparr>"

definition fx :: "areg set \<Rightarrow> areg set \<Rightarrow> bool \<Rightarrow> bool \<Rightarrow> int option \<Rightarrow> Effects" where
  "fx R W mr mw sd = no_effects\<lparr>reads := R, writes := W, mem_read := mr, mem_write := mw, stack_delta := sd\<rparr>"

definition refuse :: "capability \<Rightarrow> Effects" where
  "refuse c = no_effects\<lparr>refusal := Some c\<rparr>"

datatype slot_kind = Imm_slot | Far_target_slot

section \<open>Operands\<close>

definition w16 :: "int \<Rightarrow> areg" where "w16 n = W16 ! nat n"

definition r8 :: "int \<Rightarrow> areg" where "r8 n = W16 ! nat (n AND 3)"

definition segs :: "int \<Rightarrow> areg" where "segs n = SEGS ! nat (n AND 3)"

text \<open>The ModRM fields of an instruction that has the byte.\<close>

definition md_f :: "Inst \<Rightarrow> int" where "md_f i = (case inst_mod i of Some v \<Rightarrow> v | None \<Rightarrow> 0)"

definition reg_f :: "Inst \<Rightarrow> int" where "reg_f i = (case inst_reg i of Some v \<Rightarrow> v | None \<Rightarrow> 0)"

definition rm_f :: "Inst \<Rightarrow> int" where "rm_f i = (case inst_rm i of Some v \<Rightarrow> v | None \<Rightarrow> 0)"

definition is_wide :: "Inst \<Rightarrow> bool" where "is_wide i \<longleftrightarrow> inst_op i AND 1 = 1"

definition first_seg_prefix :: "Inst \<Rightarrow> int option" where
  "first_seg_prefix i = find (\<lambda>p. p = 0x26 \<or> p = 0x2E \<or> p = 0x36 \<or> p = 0x3E) (inst_prefixes i)"

definition ea_segment :: "Inst \<Rightarrow> areg" where
  "ea_segment i = (case first_seg_prefix i of Some p \<Rightarrow> segs (drop_bit 3 p)
     | None \<Rightarrow> (if inst_modrm i \<noteq> None \<and> md_f i \<noteq> 3 \<and> (rm_f i = 2 \<or> rm_f i = 3 \<or> rm_f i = 6 \<and> md_f i \<noteq> 0)
                then R_SS else R_DS))"

text \<open>CS is a constant of the function, never an input.\<close>

definition ea_seg_reads :: "Inst \<Rightarrow> areg set" where
  "ea_seg_reads i = (if ea_segment i = R_CS then {} else {ea_segment i})"

definition ea_regs :: "Inst \<Rightarrow> areg set" where
  "ea_regs i = (if md_f i = 0 \<and> rm_f i = 6 then {} else set (EA_REGS ! nat (rm_f i)))"

definition modrm_rm :: "Inst \<Rightarrow> bool \<Rightarrow> bool \<Rightarrow> Effects \<Rightarrow> Effects" where
  "modrm_rm i wide_write also_read e =
     (if md_f i = 3 then
        (let r = (if is_wide i then w16 (rm_f i) else r8 (rm_f i)) in
         e\<lparr>reads := reads e \<union> (if \<not> wide_write \<or> also_read \<or> \<not> is_wide i then {r} else {}),
           writes := writes e \<union> (if wide_write then {r} else {})\<rparr>)
      else e\<lparr>reads := reads e \<union> ea_regs i \<union> ea_seg_reads i, mem_write := (mem_write e \<or> wide_write),
             mem_read := (mem_read e \<or> also_read \<or> \<not> wide_write)\<rparr>)"

text \<open>The register operand of the ModRM byte.\<close>

definition reg_operand :: "Inst \<Rightarrow> areg" where
  "reg_operand i = (if is_wide i then w16 (reg_f i) else r8 (reg_f i))"

section \<open>Families of instructions\<close>

definition sext8 :: "int \<Rightarrow> int" where
  "sext8 v = (let b = v AND 0xFF in if b AND 0x80 \<noteq> 0 then b - 0x100 else b)"

definition sext16 :: "int \<Rightarrow> int" where
  "sext16 v = (let b = v AND 0xFFFF in if b AND 0x8000 \<noteq> 0 then b - 0x10000 else b)"

definition imm_or_0 :: "Inst \<Rightarrow> int" where
  "imm_or_0 i = (case inst_imm i of Some v \<Rightarrow> v | None \<Rightarrow> 0)"

text \<open>\<open>op r/m,r\<close>, \<open>op r,r/m\<close>, \<open>op acc,imm\<close>, the \<open>sp\<close> adjustments and group 1.\<close>

definition alu_fx :: "bool \<Rightarrow> Inst \<Rightarrow> Effects option" where
  "alu_fx mr i = (let op = inst_op i; is_cmp = (0x38 \<le> op \<and> op \<le> 0x3D); form = op AND 7 in
     if op \<le> 0x3D \<and> form \<le> 5 \<and> op AND 0xC7 \<notin> {6, 7, 0xC6, 0xC7} then Some
       (if form = 0 \<or> form = 1 then modrm_rm i (\<not> is_cmp) True (fx {reg_operand i} {} mr False (Some 0))
        else if form = 2 \<or> form = 3 then
          modrm_rm i False False (fx {reg_operand i} (if is_cmp then {} else {reg_operand i}) mr False (Some 0))
        else fx {R_AX} (if is_cmp then {} else {R_AX}) mr False (Some 0))
     else if (op = 0x81 \<or> op = 0x83) \<and> inst_mod i = Some 3 \<and> inst_rm i = Some 4 \<and> (inst_reg i = Some 0 \<or> inst_reg i = Some 5)
     then (let imm = (if op = 0x83 then sext8 (imm_or_0 i) else sext16 (imm_or_0 i)) in
       Some (fx {R_SP} {R_SP} mr False (Some (if inst_reg i = Some 0 then imm else - imm))))
     else if op = 0x80 \<or> op = 0x81 \<or> op = 0x83 then
       Some (modrm_rm i (inst_reg i \<noteq> Some 7) True (fx {} {} mr False (Some 0)))
     else None)"

text \<open>PUSH and POP.\<close>

definition stack_fx :: "bool \<Rightarrow> Inst \<Rightarrow> Effects option" where
  "stack_fx mr i = (let op = inst_op i in
     if op \<in> {0x06, 0x0E, 0x16, 0x1E} then Some (fx {segs (drop_bit 3 op), R_SP, R_SS} {R_SP} mr True (Some (- 2)))
     else if op \<in> {0x07, 0x17, 0x1F} then Some (fx {R_SP, R_SS} {segs (drop_bit 3 op), R_SP} True False (Some 2))
     else if 0x50 \<le> op \<and> op \<le> 0x57 then Some (fx {w16 (op AND 7), R_SP, R_SS} {R_SP} mr True (Some (- 2)))
     else if 0x58 \<le> op \<and> op \<le> 0x5F then Some (fx {R_SP, R_SS} {w16 (op AND 7), R_SP} True False (Some 2))
     else if op = 0x9C then Some (fx {R_SP, R_SS} {R_SP} mr True (Some (- 2)))
     else if op = 0x9D then Some (fx {R_SP, R_SS} {R_SP} True False (Some 2))
     else if op = 0x8F \<and> inst_reg i = Some 0 then
       Some ((modrm_rm i True False (fx {R_SP, R_SS} {R_SP} mr False (Some 2)))\<lparr>mem_read := True\<rparr>)
     else None)"

text \<open>ENTER, LEAVE, PUSHA, POPA and the three-operand IMUL.\<close>

definition raw_end :: "Inst \<Rightarrow> nat \<Rightarrow> int" where "raw_end i k = raw i ! (length (raw i) - k)"

definition frame_fx :: "bool \<Rightarrow> Inst \<Rightarrow> Effects option" where
  "frame_fx mr i = (let op = inst_op i in
     if op = 0xC8 then
       (let size = raw_end i 3 OR push_bit 8 (raw_end i 2); level = raw_end i 1 in
        Some (if level \<noteq> 0 then refuse (Enter_nesting_level level)
              else fx {R_BP, R_SP, R_SS} {R_BP, R_SP} mr True (Some (- (2 + size)))))
     else if op = 0xC9 then Some ((fx {R_BP, R_SP, R_SS} {R_BP, R_SP} True False None)\<lparr>frame_restore := True\<rparr>)
     else if op = 0x60 then Some (fx (set W16 \<union> {R_SS}) {R_SP} mr True (Some (- 16)))
     else if op = 0x61 then Some (fx {R_SP, R_SS} (set W16) True False (Some 16))
     else if op = 0x69 \<or> op = 0x6B then
       (let e = modrm_rm i False True (fx {} {} mr False (Some 0)) in Some (e\<lparr>writes := writes e \<union> {w16 (reg_f i)}\<rparr>))
     else None)"

text \<open>INC, DEC, PUSH r/m, XCHG, NOP.\<close>

definition incdec_fx :: "bool \<Rightarrow> Inst \<Rightarrow> Effects option" where
  "incdec_fx mr i = (let op = inst_op i; r7 = w16 (op AND 7) in
     if 0x40 \<le> op \<and> op \<le> 0x4F then Some (fx {r7} {r7} mr False (Some 0))
     else if (op = 0xFE \<or> op = 0xFF) \<and> (inst_reg i = Some 0 \<or> inst_reg i = Some 1) then
       Some (modrm_rm i True True (fx {} {} mr False (Some 0)))
     else if op = 0xFF \<and> inst_reg i = Some 6 then
       Some ((modrm_rm i False False (fx {R_SP, R_SS} {R_SP} mr False (Some (- 2))))\<lparr>mem_write := True\<rparr>)
     else if op = 0x86 \<or> op = 0x87 then
       Some (modrm_rm i True True (fx {reg_operand i} {reg_operand i} mr False (Some 0)))
     else if 0x91 \<le> op \<and> op \<le> 0x97 then Some (fx {r7, R_AX} {r7, R_AX} mr False (Some 0))
     else if op = 0x90 then Some no_effects
     else None)"

text \<open>MOV in all its forms, LEA, PUSH imm, LES and LDS; \<open>mov bp,sp\<close> and \<open>mov sp,bp\<close> are the hand-rolled frame.\<close>

definition frame_move :: "Inst \<Rightarrow> Effects option" where
  "frame_move i =
     (if (inst_op i = 0x89 \<or> inst_op i = 0x8B) \<and> inst_mod i = Some 3 then
        (let (dst, src) = (if inst_op i = 0x89 then (rm_f i, reg_f i) else (reg_f i, rm_f i)) in
         if dst = 5 \<and> src = 4 then Some ((fx {R_SP} {R_BP} False False (Some 0))\<lparr>frame_establish := True\<rparr>)
         else if dst = 4 \<and> src = 5 then Some ((fx {R_BP} {R_SP} False False None)\<lparr>frame_restore_to_base := True\<rparr>)
         else None)
      else None)"

text \<open>Base and index registers only: a register form has none.\<close>

definition ea_base_reads :: "Inst \<Rightarrow> areg set" where
  "ea_base_reads i = (if md_f i \<noteq> 3 \<and> \<not> (md_f i = 0 \<and> rm_f i = 6) then set (EA_REGS ! nat (rm_f i)) else {})"

definition mov_fx :: "bool \<Rightarrow> Inst \<Rightarrow> Effects option" where
  "mov_fx mr i = (let op = inst_op i; none = fx {} {} mr False (Some 0); byte_reg = r8 (op AND 7) in
     case frame_move i of Some e \<Rightarrow> Some e | None \<Rightarrow>
     if op = 0x88 \<or> op = 0x89 then Some (modrm_rm i True False (fx {reg_operand i} {} mr False (Some 0)))
     else if op = 0x8A \<or> op = 0x8B then
       Some (modrm_rm i False False (fx (if op = 0x8A then {reg_operand i} else {}) {reg_operand i} mr False (Some 0)))
     else if op = 0x8C then Some (modrm_rm i True False (fx {segs (reg_f i)} {} mr False (Some 0)))
     else if op = 0x8E then Some (modrm_rm i False False (fx {} {segs (reg_f i)} mr False (Some 0)))
     else if op = 0x8D then
       (if reg_f i = 4 \<and> rm_f i = 6 \<and> (md_f i = 1 \<or> md_f i = 2)
        then Some ((fx {R_BP} {R_SP} False False None)\<lparr>frame_restore_to_base := True\<rparr>)
        else Some (fx (ea_base_reads i) {w16 (reg_f i)} False False (Some 0)))
     else if 0xB0 \<le> op \<and> op \<le> 0xB7 then Some (fx {byte_reg} {byte_reg} mr False (Some 0))
     else if 0xB8 \<le> op \<and> op \<le> 0xBF then Some (fx {} {w16 (op AND 7)} mr False (Some 0))
     else if (op = 0xC6 \<or> op = 0xC7) \<and> inst_reg i = Some 0 then Some (modrm_rm i True False none)
     else if op = 0xA0 \<or> op = 0xA1 then
       Some (fx (ea_seg_reads i \<union> (if op = 0xA0 then {R_AX} else {})) {R_AX} True False (Some 0))
     else if op = 0xA2 \<or> op = 0xA3 then Some (fx ({R_AX} \<union> ea_seg_reads i) {} mr True (Some 0))
     else if op = 0x68 \<or> op = 0x6A then Some (fx {R_SP, R_SS} {R_SP} mr True (Some (- 2)))
     else if op = 0xC4 \<or> op = 0xC5 then
       Some (fx (ea_base_reads i) {w16 (reg_f i), if op = 0xC4 then R_ES else R_DS} True False (Some 0))
     else None)"

text \<open>TEST, group 3, shifts, conversions, flags, XLAT.\<close>

definition grp3_fx :: "bool \<Rightarrow> Inst \<Rightarrow> Effects" where
  "grp3_fx mr i = (let grp = reg_f i; none = fx {} {} mr False (Some 0); wd = (inst_op i = 0xF7);
       acc = (if wd then {R_AX, R_DX} else {R_AX}); e = modrm_rm i False False none in
     if grp = 0 then e
     else if grp = 2 \<or> grp = 3 then modrm_rm i True True none
     else if grp = 4 \<or> grp = 5 then e\<lparr>reads := reads e \<union> {R_AX}, writes := writes e \<union> acc\<rparr>
     else if grp = 6 \<or> grp = 7 then e\<lparr>reads := reads e \<union> acc, writes := writes e \<union> acc\<rparr>
     else none)"

definition misc_fx :: "bool \<Rightarrow> Inst \<Rightarrow> Effects option" where
  "misc_fx mr i = (let op = inst_op i in
     if op = 0x84 \<or> op = 0x85 then Some (modrm_rm i False False (fx {reg_operand i} {} mr False (Some 0)))
     else if op = 0xA8 \<or> op = 0xA9 then Some (fx {R_AX} {} mr False (Some 0))
     else if op = 0xF6 \<or> op = 0xF7 then Some (grp3_fx mr i)
     else if op \<in> {0xC0, 0xC1, 0xD0, 0xD1, 0xD2, 0xD3} then
       Some (modrm_rm i True True (fx (if op = 0xD2 \<or> op = 0xD3 then {R_CX} else {}) {} mr False (Some 0)))
     else if op = 0x98 then Some (fx {R_AX} {R_AX} mr False (Some 0))
     else if op = 0x99 then Some (fx {R_AX} {R_DX} mr False (Some 0))
     else if op = 0x9E then Some (fx {R_AX} {} mr False (Some 0))
     else if op = 0x9F then Some (fx {} {R_AX} mr False (Some 0))
     else if op = 0xD7 then
       Some (fx {R_AX, R_BX, case find (\<lambda>p. p = 0x26 \<or> p = 0x2E \<or> p = 0x36 \<or> p = 0x3E) (rev (inst_prefixes i)) of
           Some p \<Rightarrow> segs (drop_bit 3 p) | None \<Rightarrow> R_DS} {R_AX} True False (Some 0))
     else if op \<in> {0xF5, 0xF8, 0xF9, 0xFA, 0xFB, 0xFC, 0xFD} then Some no_effects
     else None)"

definition string_fx :: "Inst \<Rightarrow> Effects option" where
  "string_fx i = (let op = inst_op i; both = op \<in> {0xA4, 0xA5, 0xA6, 0xA7}; dest = op \<in> {0xAA, 0xAB, 0xAE, 0xAF};
       cnt = (if \<exists>p \<in> set (inst_prefixes i). p = 0xF2 \<or> p = 0xF3 then {R_CX} else {}) in
     if 0xA4 \<le> op \<and> op \<le> 0xA7 \<or> 0xAA \<le> op \<and> op \<le> 0xAF then
       Some (fx ((if both then {R_SI, R_DI, R_DS, R_ES} else if dest then {R_DI, R_ES, R_AX} else {R_SI, R_DS})
                 \<union> (if op = 0xAC then {R_AX} else {}) \<union> cnt)
               ((if both then {R_SI, R_DI} else if dest then {R_DI} else {R_SI, R_AX}) \<union> cnt)
               (op \<notin> {0xAA, 0xAB}) (op \<in> {0xA4, 0xA5, 0xAA, 0xAB}) (Some 0))
     else None)"

text \<open>Transfers of control.\<close>

definition all_regs :: "areg set" where "all_regs = set W16 \<union> {R_DS, R_ES, R_SS}"

definition bundle_fx :: Effects where
  "bundle_fx = fx all_regs (all_regs - {R_SS}) True True (Some 0)"

definition PLATFORM_INT :: "int list" where
  "PLATFORM_INT = [0x21, 0x10, 0x11, 0x12, 0x13, 0x15, 0x16, 0x1A, 0x2F, 0x33, 0x67]"

definition int_fx :: "int option \<Rightarrow> Effects" where
  "int_fx n = (case n of
     Some v \<Rightarrow>
       (if v \<in> set PLATFORM_INT then (fx PLAT_FARCALL_REGS PLAT_FARCALL_REGS True True (Some 0))\<lparr>int_effect := Some v\<rparr>
        else if v = 0x20 then refuse Program_terminate
        else if v = 3 \<or> v = 0x60 \<or> v = 0x61 then bundle_fx
        else refuse Vectored_int_call)
   | None \<Rightarrow> refuse Vectored_int_call)"

definition transfer_fx :: "slot_kind option \<Rightarrow> bool \<Rightarrow> Inst \<Rightarrow> Effects option" where
  "transfer_fx slot mr i = (let op = inst_op i; k = inst_kind i in
     if k = JCC then
       Some (if op \<in> {0xE0, 0xE1, 0xE2} then fx {R_CX} {R_CX} mr False (Some 0)
             else fx (if op = 0xE3 then {R_CX} else {}) {} mr False (Some 0))
     else if k = JMP \<or> k = JMP_FAR then
       Some (if k = JMP_FAR \<and> slot = Some Far_target_slot then bundle_fx else no_effects)
     else if k = RET then
       Some (fx {R_SP, R_SS} {R_SP} True False (Some (2 + (if op = 0xC2 then imm_or_0 i else 0))))
     else if k = RETF \<or> k = IRET then Some (fx {R_SP, R_SS} {R_SP} True False (Some (if k = RETF then 4 else 6)))
     else if k = CALL \<or> k = CALL_FAR then
       Some ((fx {R_SP, R_SS} {R_SP} True True (Some 0))\<lparr>refusal := Some Call_abi_composition\<rparr>)
     else if k = CALL_IND \<or> k = JMP_IND then
       Some (if inst_reg i = Some 2 \<or> inst_reg i = Some 4 then bundle_fx
             else if inst_reg i = Some 3 \<and> k = CALL_IND \<and> md_f i \<noteq> 3 then bundle_fx\<lparr>refusal := Some Indirect_or_far_transfer\<rparr>
             else if inst_reg i = Some 5 then bundle_fx
             else refuse Indirect_or_far_transfer)
     else if k = INT_N then Some (int_fx (int_no i))
     else if k = HLT then Some (refuse Hlt_refused)
     else None)"

definition port_fx :: "Inst \<Rightarrow> Effects option" where
  "port_fx i = (let op = inst_op i; io = (\<lambda>R W. Some ((fx R W False False (Some 0))\<lparr>port_io := True\<rparr>)) in
     if op = 0xE4 \<or> op = 0xE5 then io (if op = 0xE4 then {R_AX} else {}) {R_AX}
     else if op = 0xEC \<or> op = 0xED then io ({R_DX} \<union> (if op = 0xEC then {R_AX} else {})) {R_AX}
     else if op = 0xE6 \<or> op = 0xE7 then io {R_AX} {}
     else if op = 0xEE \<or> op = 0xEF then io {R_AX, R_DX} {}
     else if op = 0x27 then Some (fx {R_AX} {R_AX} False False (Some 0))
     else None)"

section \<open>The effects of an instruction\<close>

definition first_some :: "'a option list \<Rightarrow> 'a option" where
  "first_some xs = foldr (\<lambda>x acc. case x of Some v \<Rightarrow> Some v | None \<Rightarrow> acc) xs None"

definition register_effects :: "slot_kind option \<Rightarrow> Inst \<Rightarrow> Effects" where
  "register_effects slot i =
     (let mr = (slot = Some Imm_slot) in
      case first_some [alu_fx mr i, stack_fx mr i, frame_fx mr i, incdec_fx mr i, mov_fx mr i, misc_fx mr i, string_fx i,
             transfer_fx slot mr i, port_fx i] of
        Some e \<Rightarrow> e | None \<Rightarrow> refuse (Unanalyzed_opcode (inst_op i)))"

section \<open>Registers misnamed\<close>

text \<open>
  The byte/word rule takes MOV r/m16,sreg and MOV sreg,r/m16 (8Ch, 8Eh, even opcodes) for byte forms, so SP, BP, SI
  and DI are recorded as AX to BX; LES and LDS do not record the segment they load the pointer through.
\<close>

lemma mov_si_ds_writes_dx:
  "writes (register_effects None (decode_one (\<lambda>a. if a = 0 then 0x8C else 0xDE) 0)) = {R_DX}"
  "reads (register_effects None (decode_one (\<lambda>a. if a = 0 then 0x8E else 0xDE) 0)) = {R_DX}"
  by code_simp+

lemma les_reads_no_segment: "reads (register_effects None (decode_one (\<lambda>a. if a = 0 then 0xC4 else 0x07) 0)) = {R_BX}"
  by code_simp

end
