(* ===== verification/Worklist.thy ===== *)
theory Worklist
  imports Prelude
begin

text \<open>
  Exploration from a stack of addresses, as the scanners of \<open>dos_re/lift/cfg.py\<close> and \<open>cfg32.py\<close> do it:
  the contract of one visit, and what the whole walk then reached.
\<close>

section \<open>Closed sets and reachable addresses\<close>

text \<open>\<open>succs q\<close>: the addresses control may go to from the instruction at \<open>q\<close>.\<close>

definition step_rel :: "(int \<Rightarrow> int list) \<Rightarrow> (int \<Rightarrow> int) \<Rightarrow> (int \<times> int) set" where
  "step_rel succs canon = {(q, r). \<exists>t \<in> set (succs q). r = canon t}"

definition reach :: "(int \<Rightarrow> int list) \<Rightarrow> (int \<Rightarrow> int) \<Rightarrow> int set \<Rightarrow> int set" where
  "reach succs canon W = (step_rel succs canon)\<^sup>* `` (canon ` W)"

definition closed_under :: "(int \<Rightarrow> int list) \<Rightarrow> (int \<Rightarrow> int) \<Rightarrow> int set \<Rightarrow> int set \<Rightarrow> bool" where
  "closed_under succs canon Q R \<longleftrightarrow> (\<forall>q \<in> Q. \<forall>t \<in> set (succs q). canon t \<in> R)"

lemma reach_start: "p \<in> W \<Longrightarrow> canon p \<in> reach succs canon W"
  by (auto simp: reach_def)

lemma reach_step: "q \<in> reach succs canon W \<Longrightarrow> t \<in> set (succs q) \<Longrightarrow> canon t \<in> reach succs canon W"
  unfolding reach_def by (auto simp: step_rel_def Image_iff intro: rtrancl_into_rtrancl)

lemma reach_least:
  assumes "canon ` W \<subseteq> R" and "closed_under succs canon R R"
  shows "reach succs canon W \<subseteq> R"
proof
  fix q
  assume "q \<in> reach succs canon W"
  then obtain p where p: "p \<in> canon ` W" and path: "(p, q) \<in> (step_rel succs canon)\<^sup>*"
    by (auto simp: reach_def)
  from path show "q \<in> R"
    by (induction rule: rtrancl_induct) (use p assms in \<open>auto simp: step_rel_def closed_under_def\<close>)
qed

lemma reach_mono: "W \<subseteq> W' \<Longrightarrow> reach succs canon W \<subseteq> reach succs canon W'"
  by (auto simp: reach_def)

section \<open>The contract of a walk\<close>

locale explorer =
  fixes visit :: "int \<Rightarrow> 's \<Rightarrow> 's \<times> int list"
    and seen :: "'s \<Rightarrow> int list"
    and refused :: "'s \<Rightarrow> bool"
    and succs :: "int \<Rightarrow> int list"
    and canon :: "int \<Rightarrow> int"
    and limit :: nat
    and walk :: "'s \<Rightarrow> int list \<Rightarrow> 's \<times> bool"
  assumes walk_Nil: "walk s [] = (s, False)"
    and walk_Cons: "walk s (p # w) =
      (if canon p \<in> set (seen s) then walk s w else if limit \<le> length (seen s) then (s, True)
       else (case visit (canon p) s of (s', new) \<Rightarrow> walk s' (new @ w)))"
    and visit_seen: "visit q s = (s', new) \<Longrightarrow> seen s' = seen s @ [q] \<or> seen s' = seen s \<and> new = []"
    and visit_succs: "visit q s = (s', new) \<Longrightarrow> set new \<subseteq> set (succs q)"
    and visit_all: "visit q s = (s', new) \<Longrightarrow> \<not> refused s' \<Longrightarrow> seen s' = seen s @ [q] \<and> set new = set (succs q)"
    and visit_refused: "visit q s = (s', new) \<Longrightarrow> refused s \<Longrightarrow> refused s'"
begin

lemma walk_induct [case_names Nil seen full visit]:
  assumes "\<And>s. P s []" and "\<And>s p w. canon p \<in> set (seen s) \<Longrightarrow> P s w \<Longrightarrow> P s (p # w)"
    and "\<And>s p w. canon p \<notin> set (seen s) \<Longrightarrow> limit \<le> length (seen s) \<Longrightarrow> P s (p # w)"
    and "\<And>s p w s' new. canon p \<notin> set (seen s) \<Longrightarrow> length (seen s) < limit \<Longrightarrow> visit (canon p) s = (s', new) \<Longrightarrow>
      P s' (new @ w) \<Longrightarrow> P s (p # w)"
  shows "P s w"
proof (induction "(limit - length (seen s), length w)" arbitrary: s w rule: wf_induct_rule [OF wf_lex_prod [OF wf_less wf_less]])
  case (1 s w)
  show ?case
  proof (cases w)
    case Nil
    then show ?thesis using assms(1) by simp
  next
    case (Cons p w')
    consider "canon p \<in> set (seen s)" | "canon p \<notin> set (seen s)" "limit \<le> length (seen s)"
      | "canon p \<notin> set (seen s)" "length (seen s) < limit"
      by fastforce
    then show ?thesis
    proof cases
      case 1
      then show ?thesis using assms(2) "1.hyps" [of s w'] Cons by simp
    next
      case 2
      then show ?thesis using assms(3) Cons by simp
    next
      case 3
      obtain s' new where v: "visit (canon p) s = (s', new)" by fastforce
      have "P s' (new @ w')"
        using "1.hyps" [of s' "new @ w'"] visit_seen [OF v] 3 Cons by (auto simp: diff_less_mono2)
      then show ?thesis using assms(4) 3 v Cons by simp
    qed
  qed
qed

lemma walk_seen: "\<exists>xs. seen (fst (walk s w)) = seen s @ xs"
proof (induction s w rule: walk_induct)
  case (visit s p w s' new)
  then show ?case
    using visit_seen [OF visit(3)] by (auto simp: walk_Cons)
qed (simp_all add: walk_Nil walk_Cons)

text \<open>What every visit keeps, the walk keeps.\<close>

lemma walk_preserves: "(\<And>q s s' new. q \<in> range canon \<Longrightarrow> q \<notin> set (seen s) \<Longrightarrow> visit q s = (s', new) \<Longrightarrow> P s \<Longrightarrow> P s') \<Longrightarrow> P s \<Longrightarrow> P (fst (walk s w))"
proof (induction s w rule: walk_induct)
  case (visit s p w s' new)
  have "P s'"
    using visit(5) [OF _ visit(1,3,6)] by simp
  then show ?case
    using visit(1-4) visit(5) by (simp add: walk_Cons)
qed (simp_all add: walk_Nil walk_Cons)

lemma walk_bound: "length (seen s) \<le> limit \<Longrightarrow> length (seen (fst (walk s w))) \<le> limit"
proof (induction s w rule: walk_induct)
  case (visit s p w s' new)
  then show ?case
    using visit_seen [OF visit(3)] by (auto simp: walk_Cons)
qed (simp_all add: walk_Nil walk_Cons)

lemma walk_distinct: "distinct (seen s) \<Longrightarrow> distinct (seen (fst (walk s w)))"
proof (induction s w rule: walk_induct)
  case (visit s p w s' new)
  then show ?case
    using visit_seen [OF visit(3)] by (auto simp: walk_Cons)
qed (simp_all add: walk_Nil walk_Cons)

lemma walk_refused: "refused s \<Longrightarrow> refused (fst (walk s w))"
proof (induction s w rule: walk_induct)
  case (visit s p w s' new)
  then show ?case
    using visit_refused [OF visit(3)] by (simp add: walk_Cons)
qed (simp_all add: walk_Nil walk_Cons)

text \<open>Only reachable addresses are visited.\<close>

lemma walk_sound: "canon ` set w \<subseteq> R \<Longrightarrow> set (seen s) \<subseteq> R \<Longrightarrow> closed_under succs canon R R \<Longrightarrow> set (seen (fst (walk s w))) \<subseteq> R"
proof (induction s w rule: walk_induct)
  case (visit s p w s' new)
  have "canon ` set (new @ w) \<subseteq> R" "set (seen s') \<subseteq> R"
    using visit(5-7) visit_seen [OF visit(3)] visit_succs [OF visit(3)] by (auto simp: closed_under_def)
  then show ?case
    using visit by (simp add: walk_Cons)
qed (auto simp: walk_Nil walk_Cons)

text \<open>A walk that was neither refused nor cut short has visited every successor.\<close>

lemma walk_complete:
  "snd (walk s w) = False \<Longrightarrow> \<not> refused (fst (walk s w)) \<Longrightarrow>
   closed_under succs canon (set (seen s)) (set (seen s) \<union> canon ` set w) \<Longrightarrow>
   canon ` set w \<subseteq> set (seen (fst (walk s w))) \<and> closed_under succs canon (set (seen (fst (walk s w)))) (set (seen (fst (walk s w))))"
proof (induction s w rule: walk_induct)
  case (visit s p w s' new)
  have eq: "walk s (p # w) = walk s' (new @ w)"
    using visit(1-3) by (simp add: walk_Cons)
  then have "\<not> refused s'"
    using visit(6) walk_refused by metis
  note v = visit_all [OF visit(3) this]
  have "closed_under succs canon (set (seen s')) (set (seen s') \<union> canon ` set (new @ w))"
    using visit(7) v by (auto simp: closed_under_def)
  then have C: "canon ` set (new @ w) \<subseteq> set (seen (fst (walk s' (new @ w))))"
      "closed_under succs canon (set (seen (fst (walk s' (new @ w))))) (set (seen (fst (walk s' (new @ w)))))"
    using visit(4-6) eq by simp_all
  moreover have "canon p \<in> set (seen (fst (walk s' (new @ w))))"
    using walk_seen [of s' "new @ w"] v by auto
  ultimately show ?case
    by (auto simp: eq)
next
  case (seen s p w)
  have "insert (canon p) (set (seen s) \<union> canon ` set w) = set (seen s) \<union> canon ` set w"
    using seen(1) by auto
  then show ?case
    using seen walk_seen [of s w] by (auto simp: walk_Cons)
qed (simp_all add: walk_Nil walk_Cons)

end

end
