(* ===== verification/Cfg.thy ===== *)
theory Cfg
  imports Reg_Effects Worklist
begin

text \<open>
  \<open>dos_re/lift/cfg.py\<close>: the statically reachable region of a 16-bit function.  A dictionary is the list of
  its entries in insertion order, a set the list of its elements.  \<open>fetch\<close> and \<open>probe\<close>, the caller's code
  bytes and the interpreter's measured instruction lengths, are parameters.  The details of a refusal
  are the values its text prints.  A loop that may run forever is a partial function: \<open>None\<close>.
\<close>

section \<open>The scan\<close>

definition EXIT_KINDS :: "kind list" where
  "EXIT_KINDS = [RET, RETF, IRET, JMP_FAR, JMP_IND]"

datatype refusal_reason = Undecodable_code | Decoder_mismatch int int | Unsupported_opcode string | Hlt_instruction
  | Region_budget nat int | No_exit | Self_modifying int

type_synonym Refusal = "int \<times> refusal_reason"

record FunctionScan =
  scan_entry :: int
  insts :: "(int \<times> Inst) list"
  exits :: "Inst list"
  calls_near :: "int list"
  calls_far :: "(int \<times> int) list"
  calls_indirect :: "int list"
  ints :: "int list"
  refusals :: "Refusal list"
  probe_unchecked :: "int list"
  cs_store_targets :: "(int \<times> int) list"
  boundary_heads :: "int list"
  manufactured_returns :: "int list"

definition new_scan :: "int \<Rightarrow> FunctionScan" where
  "new_scan e = \<lparr>scan_entry = e, insts = [], exits = [], calls_near = [], calls_far = [], calls_indirect = [], ints = [],
     refusals = [], probe_unchecked = [], cs_store_targets = [], boundary_heads = [], manufactured_returns = []\<rparr>"

abbreviation inst_at :: "FunctionScan \<Rightarrow> int \<Rightarrow> Inst option" where
  "inst_at s \<equiv> map_of (insts s)"

abbreviation inst_ips :: "FunctionScan \<Rightarrow> int list" where
  "inst_ips s \<equiv> map fst (insts s)"

definition liftable :: "FunctionScan \<Rightarrow> bool" where
  "liftable s \<longleftrightarrow> refusals s = [] \<and> (exits s \<noteq> [] \<or> boundary_heads s \<noteq> [])"

definition region :: "FunctionScan \<Rightarrow> int \<times> int" where
  "region s = (if insts s = [] then (scan_entry s, scan_entry s)
     else (Min (set (inst_ips s)), Max (set (map (\<lambda>(_, i). inst_ip i + inst_length i) (insts s)))))"

text \<open>Targets of jumps, and what follows a conditional one.\<close>

definition leader_candidates :: "Inst \<Rightarrow> int list" where
  "leader_candidates i = (case inst_target i of
     Some t \<Rightarrow> (if inst_kind i = JCC then [t, next_ip i] else if inst_kind i = JMP then [t] else [])
   | None \<Rightarrow> [])"

definition block_leaders :: "FunctionScan \<Rightarrow> int list" where
  "block_leaders s = sort (remdups (filter (\<lambda>l. l \<in> set (inst_ips s))
     (scan_entry s # manufactured_returns s @ concat (map (\<lambda>(_, i). leader_candidates i) (insts s)))))"

text \<open>One block, from its leader until the next leader, the end of the region or a transfer.\<close>

partial_function (option) block_walk ::
    "FunctionScan \<Rightarrow> int list \<Rightarrow> int \<Rightarrow> int \<Rightarrow> (int \<Rightarrow> int option) \<Rightarrow> (int \<Rightarrow> int option) option" where
  "block_walk s leaders lead p out =
     (case inst_at s p of None \<Rightarrow> Some out
      | Some i \<Rightarrow>
          (let nxt = next_ip i in
           if nxt \<in> set leaders \<or> inst_at s nxt = None \<or> inst_kind i \<notin> {SEQ, CALL, CALL_FAR, CALL_IND}
           then Some (out(p \<mapsto> lead)) else block_walk s leaders lead nxt (out(p \<mapsto> lead))))"

definition leader_of :: "FunctionScan \<Rightarrow> int list \<Rightarrow> (int \<Rightarrow> int option) option" where
  "leader_of s extra = (let leaders = block_leaders s @ extra in
     fold (\<lambda>lead acc. Option.bind acc (block_walk s leaders lead lead)) (sort (remdups leaders)) (Some Map.empty))"

section \<open>Code writes\<close>

definition RM_WRITE_OPS :: "int list" where
  "RM_WRITE_OPS = [0x00, 0x01, 0x08, 0x09, 0x10, 0x11, 0x18, 0x19, 0x20, 0x21, 0x28, 0x29, 0x30, 0x31,
     0x86, 0x87, 0x88, 0x89, 0xC0, 0xC1, 0xD0, 0xD1, 0xD2, 0xD3]"

definition cs_direct_store_target :: "Inst \<Rightarrow> int option" where
  "cs_direct_store_target i = (let op = inst_op i in
     if 0x2E \<notin> set (inst_prefixes i) then None
     else if op = 0xA2 \<or> op = 0xA3 then map_option (\<lambda>v. v AND 0xFFFF) (inst_imm i)
     else case inst_modrm i of None \<Rightarrow> None
     | Some m \<Rightarrow>
         (if drop_bit 6 m \<noteq> 0 \<or> m AND 7 \<noteq> 6 then None
          else (let sub = drop_bit 3 m AND 7;
                    stores = (op \<in> set RM_WRITE_OPS \<or> (op = 0x80 \<or> op = 0x81 \<or> op = 0x83) \<and> sub \<noteq> 7
                      \<or> (op = 0xC6 \<or> op = 0xC7) \<and> sub = 0 \<or> (op = 0xF6 \<or> op = 0xF7) \<and> (sub = 2 \<or> sub = 3)
                      \<or> op = 0xFE \<and> (sub = 0 \<or> sub = 1) \<or> op = 0xFF \<and> (sub = 0 \<or> sub = 1) \<or> op = 0x8F \<and> sub = 0) in
                if stores then map_option (\<lambda>d. d AND 0xFFFF) (inst_disp i) else None)))"

definition inst_byte_offsets :: "FunctionScan \<Rightarrow> int list" where
  "inst_byte_offsets s =
     concat (map (\<lambda>(_, i). map (\<lambda>k. (inst_ip i + int k) AND 0xFFFF) [0..<nat (inst_length i)]) (insts s))"

section \<open>Manufactured returns\<close>

text \<open>What one instruction of the window does: the literals in registers, the pushed word, the stack operations.\<close>

definition window_step :: "Inst \<Rightarrow> (int \<Rightarrow> int option) \<times> int option \<times> nat \<Rightarrow> (int \<Rightarrow> int option) \<times> int option \<times> nat" where
  "window_step i = (\<lambda>(imm_regs, pushed, stack_ops).
     (let e = register_effects None i; op = inst_op i;
          moves = (stack_delta e \<noteq> None \<and> stack_delta e \<noteq> Some 0);
          pushed' = (if moves then
              (if op = 0x68 \<and> inst_imm i \<noteq> None then map_option (\<lambda>v. v AND 0xFFFF) (inst_imm i)
               else if 0x50 \<le> op \<and> op \<le> 0x57 then imm_regs (op - 0x50) else None)
            else pushed);
          regs' = (if 0xB8 \<le> op \<and> op \<le> 0xBF \<and> inst_imm i \<noteq> None \<and> inst_modrm i = None
            then imm_regs(op - 0xB8 := map_option (\<lambda>v. v AND 0xFFFF) (inst_imm i))
            else (\<lambda>r. if 0 \<le> r \<and> r < 8 \<and> w16 r \<in> writes e then None else imm_regs r)) in
      (regs', pushed', if moves then Suc stack_ops else stack_ops)))"

partial_function (option) return_window ::
    "FunctionScan \<Rightarrow> int \<Rightarrow> int \<Rightarrow> (int \<Rightarrow> int option) \<times> int option \<times> nat \<Rightarrow> int option option" where
  "return_window s jmp_ip at st =
     (if at = jmp_ip then (case st of (_, pushed, stack_ops) \<Rightarrow> Some (if stack_ops \<noteq> 1 then None else pushed))
      else case inst_at s at of None \<Rightarrow> Some None
      | Some i \<Rightarrow> return_window s jmp_ip (next_ip i) (window_step i st))"

definition manufactured_return :: "FunctionScan \<Rightarrow> Inst \<Rightarrow> int option \<Rightarrow> int option option" where
  "manufactured_return s jmp leader =
     (case leader of None \<Rightarrow> Some None
      | Some l \<Rightarrow> (if inst_kind jmp \<noteq> JMP_IND then Some None else return_window s (inst_ip jmp) l (Map.empty, None, 0)))"

section \<open>The walk\<close>

type_synonym probe = "(int \<Rightarrow> int option) option"

text \<open>Where control goes from an instruction.\<close>

definition inst_succs :: "Inst \<Rightarrow> int list" where
  "inst_succs i =
     (if inst_kind i \<in> {SEQ, CALL, CALL_FAR, CALL_IND, INT_N} then [next_ip i]
      else if inst_kind i = JCC then (case inst_target i of Some t \<Rightarrow> [t, next_ip i] | None \<Rightarrow> [next_ip i])
      else if inst_kind i = JMP then (case inst_target i of Some t \<Rightarrow> [t] | None \<Rightarrow> []) else [])"

definition refuse_at :: "int \<Rightarrow> refusal_reason \<Rightarrow> FunctionScan \<Rightarrow> FunctionScan" where
  "refuse_at at r s = s\<lparr>refusals := refusals s @ [(at, r)]\<rparr>"

text \<open>What is recorded of the instruction, by its kind.\<close>

definition note_kind :: "int \<Rightarrow> Inst \<Rightarrow> FunctionScan \<Rightarrow> FunctionScan" where
  "note_kind at i s =
     (if inst_kind i = CALL then (case inst_target i of Some t \<Rightarrow> s\<lparr>calls_near := List.insert t (calls_near s)\<rparr> | None \<Rightarrow> s)
      else if inst_kind i = CALL_FAR then
        (case far_target i of Some t \<Rightarrow> s\<lparr>calls_far := List.insert t (calls_far s)\<rparr> | None \<Rightarrow> s)
      else if inst_kind i = CALL_IND then s\<lparr>calls_indirect := calls_indirect s @ [at]\<rparr>
      else if inst_kind i = INT_N then (case int_no i of Some n \<Rightarrow> s\<lparr>ints := List.insert n (ints s)\<rparr> | None \<Rightarrow> s)
      else s)"

definition follow :: "int \<Rightarrow> Inst \<Rightarrow> FunctionScan \<Rightarrow> FunctionScan \<times> int list" where
  "follow at i s =
     (if inst_kind i = UNSUPPORTED then (refuse_at at (Unsupported_opcode (mnemonic i)) s, [])
      else if inst_kind i = HLT then (refuse_at at Hlt_instruction s, [])
      else if inst_kind i \<in> set EXIT_KINDS then (s\<lparr>exits := exits s @ [i]\<rparr>, [])
      else (note_kind at i s, inst_succs i))"

definition visit :: "(int \<Rightarrow> int) \<Rightarrow> probe \<Rightarrow> int \<Rightarrow> FunctionScan \<Rightarrow> FunctionScan \<times> int list" where
  "visit fetch probe at s =
     (let i = decode_one fetch at; s = s\<lparr>insts := insts s @ [(at, i)]\<rparr> in
      case probe of
        Some measure' \<Rightarrow>
          (if inst_kind i \<noteq> SEQ then follow at i s
           else case measure' at of
             None \<Rightarrow> follow at i (s\<lparr>probe_unchecked := probe_unchecked s @ [at]\<rparr>)
           | Some n \<Rightarrow> (if n \<noteq> inst_length i then (refuse_at at (Decoder_mismatch (inst_length i) n) s, []) else follow at i s))
      | None \<Rightarrow> follow at i s)"

text \<open>The worklist loop; whether the budget was hit.\<close>

function walk :: "(int \<Rightarrow> int) \<Rightarrow> probe \<Rightarrow> nat \<Rightarrow> FunctionScan \<Rightarrow> int list \<Rightarrow> FunctionScan \<times> bool" where
  "walk fetch probe max_insts s [] = (s, False)"
| "walk fetch probe max_insts s (p # w) =
     (let at = p AND 0xFFFF in
      if at \<in> set (inst_ips s) then walk fetch probe max_insts s w
      else if max_insts \<le> length (insts s) then (s, True)
      else (case visit fetch probe at s of (s', new) \<Rightarrow> walk fetch probe max_insts s' (new @ w)))"
  by pat_completeness auto

lemma note_kind_insts [simp]: "insts (note_kind at i s) = insts s" "refusals (note_kind at i s) = refusals s"
  by (simp_all add: note_kind_def split: option.splits)

lemma follow_insts: "follow at i s = (s', new) \<Longrightarrow> insts s' = insts s"
  by (auto simp: follow_def refuse_at_def split: if_splits)

lemma visit_insts: "visit fetch probe at s = (s', new) \<Longrightarrow> insts s' = insts s @ [(at, decode_one fetch at)]"
  by (auto simp: visit_def Let_def refuse_at_def split: option.splits if_splits dest!: follow_insts)

termination walk
  by (relation "measures [\<lambda>(f, p, n, s, w). n - length (insts s), \<lambda>(f, p, n, s, w). length w]")
    (auto dest!: visit_insts [OF sym])

section \<open>Scanning a function\<close>

text \<open>The resume points of the manufactured returns among the visited jumps, and those not visited yet.\<close>

definition note_return :: "(int \<Rightarrow> int option) \<Rightarrow> int \<times> Inst \<Rightarrow> FunctionScan \<times> int list \<Rightarrow> (FunctionScan \<times> int list) option" where
  "note_return leaders = (\<lambda>(at, i) (s, fresh).
     if inst_kind i \<noteq> JMP_IND then Some (s, fresh)
     else Option.bind (manufactured_return s i (leaders at)) (\<lambda>r. case r of None \<Rightarrow> Some (s, fresh)
       | Some t \<Rightarrow> Some (s\<lparr>manufactured_returns := List.insert t (manufactured_returns s)\<rparr>,
           if inst_at s t = None then fresh @ [t] else fresh)))"

definition find_returns :: "FunctionScan \<Rightarrow> (FunctionScan \<times> int list) option" where
  "find_returns s = Option.bind (leader_of s [])
     (\<lambda>leaders. fold (\<lambda>x acc. Option.bind acc (note_return leaders x)) (insts s) (Some (s, [])))"

text \<open>The outer fixpoint.\<close>

partial_function (option) scan_rounds ::
    "(int \<Rightarrow> int) \<Rightarrow> probe \<Rightarrow> nat \<Rightarrow> FunctionScan \<Rightarrow> int list \<Rightarrow> (FunctionScan \<times> bool) option" where
  "scan_rounds fetch probe max_insts s work =
     (case walk fetch probe max_insts s work of
        (s', budget_hit) \<Rightarrow>
          (if budget_hit then Some (s', True)
           else Option.bind (find_returns s') (\<lambda>r.
             if snd r = [] then Some (fst r, False) else scan_rounds fetch probe max_insts (fst r) (rev (snd r)))))"

definition decoded_bytes :: "FunctionScan \<Rightarrow> int" where
  "decoded_bytes s = sum_list (map (\<lambda>(_, i). inst_length i) (insts s))"

text \<open>The checks behind the loop.\<close>

definition check_region :: "nat \<Rightarrow> int list \<Rightarrow> bool \<Rightarrow> FunctionScan \<Rightarrow> FunctionScan" where
  "check_region max_bytes heads budget_hit s =
     (let s1 = (if budget_hit \<or> decoded_bytes s > int max_bytes
                then refuse_at (scan_entry s) (Region_budget (length (insts s)) (decoded_bytes s)) s else s);
          s2 = s1\<lparr>boundary_heads := sort (filter (\<lambda>h. h \<in> set (inst_ips s1)) heads)\<rparr> in
      if exits s2 = [] \<and> refusals s2 = [] \<and> boundary_heads s2 = [] then refuse_at (scan_entry s) No_exit s2 else s2)"

definition check_stores :: "FunctionScan \<Rightarrow> FunctionScan" where
  "check_stores s =
     (let stores = concat (map (\<lambda>(at, i). case cs_direct_store_target i of Some t \<Rightarrow> [(at, t)] | None \<Rightarrow> []) (insts s));
          s1 = s\<lparr>cs_store_targets := cs_store_targets s @ stores\<rparr> in
      case find (\<lambda>(_, t). t \<in> set (inst_byte_offsets s1)) (cs_store_targets s1) of
        Some (site, t) \<Rightarrow> refuse_at site (Self_modifying t) s1 | None \<Rightarrow> s1)"

definition scan_function :: "(int \<Rightarrow> int) \<Rightarrow> int \<Rightarrow> nat \<Rightarrow> nat \<Rightarrow> probe \<Rightarrow> int list \<Rightarrow> FunctionScan option" where
  "scan_function fetch e max_insts max_bytes probe heads =
     map_option (\<lambda>(s, budget_hit). check_stores (check_region max_bytes (remdups heads) budget_hit s))
       (scan_rounds fetch probe max_insts (new_scan e) [e])"

section \<open>The walk as an exploration\<close>

definition code_succs :: "(int \<Rightarrow> int) \<Rightarrow> int \<Rightarrow> int list" where
  "code_succs fetch at = inst_succs (decode_one fetch at)"

definition canon16 :: "int \<Rightarrow> int" where "canon16 p = p AND 0xFFFF"

lemma refuse_at_simps [simp]: "insts (refuse_at at r s) = insts s" "refusals (refuse_at at r s) \<noteq> []"
  "exits (refuse_at at r s) = exits s"
  by (simp_all add: refuse_at_def)

lemma exit_no_succs: "inst_kind i \<in> set EXIT_KINDS \<Longrightarrow> inst_succs i = []"
  by (auto simp: EXIT_KINDS_def inst_succs_def)

lemma follow_result:
  assumes "follow at i s = (s', new)"
  shows "set new \<subseteq> set (inst_succs i)" "refusals s' = [] \<Longrightarrow> set new = set (inst_succs i)" "refusals s' = [] \<Longrightarrow> refusals s = []"
  using assms exit_no_succs [of i] by (auto simp: follow_def split: if_splits)

lemma visit_cases:
  assumes "visit fetch probe at s = (s', new)"
  obtains s1 where "follow at (decode_one fetch at) s1 = (s', new)" "refusals s1 = refusals s" "manufactured_returns s1 = manufactured_returns s"
      "insts s1 = insts s @ [(at, decode_one fetch at)]"
  | "refusals s' \<noteq> []" "new = []" "manufactured_returns s' = manufactured_returns s"
  using assms by (force simp: visit_def Let_def refuse_at_def split: option.splits if_splits)

lemma visit_result:
  assumes "visit fetch probe at s = (s', new)"
  shows "set new \<subseteq> set (code_succs fetch at)" "refusals s' = [] \<Longrightarrow> set new = set (code_succs fetch at)"
    "refusals s' = [] \<Longrightarrow> refusals s = []"
  using visit_cases [OF assms] follow_result unfolding code_succs_def
  by (metis empty_subsetI list.set(1))+

interpretation walk16: explorer "visit fetch probe" inst_ips "\<lambda>s. refusals s \<noteq> []" "code_succs fetch" canon16 max_insts
    "walk fetch probe max_insts" for fetch probe max_insts
proof (unfold_locales, goal_cases)
  case (3 q s s' new)
  then show ?case by (simp add: visit_insts)
next
  case (4 q s s' new)
  then show ?case using visit_result(1) by metis
next
  case (5 q s s' new)
  then show ?case using visit_result(2) [OF 5(1)] by (simp add: visit_insts [OF 5(1)])
next
  case (6 q s s' new)
  then show ?case using visit_result(3) [OF 6(1)] by blast
qed (simp_all add: canon16_def Let_def)

section \<open>What a liftable scan contains\<close>

text \<open>An instruction the walk has no objection to.\<close>

definition accepted :: "(int \<Rightarrow> int) \<Rightarrow> probe \<Rightarrow> int \<Rightarrow> Inst \<Rightarrow> bool" where
  "accepted fetch probe at i \<longleftrightarrow> i = decode_one fetch at \<and> inst_kind i \<noteq> UNSUPPORTED \<and> inst_kind i \<noteq> HLT \<and>
     (\<forall>m n. probe = Some m \<longrightarrow> inst_kind i = SEQ \<longrightarrow> m at = Some n \<longrightarrow> n = inst_length i)"

definition scan_inv :: "(int \<Rightarrow> int) \<Rightarrow> probe \<Rightarrow> FunctionScan \<Rightarrow> bool" where
  "scan_inv fetch probe s \<longleftrightarrow> distinct (inst_ips s) \<and> (\<forall>(a, i) \<in> set (insts s). i = decode_one fetch a) \<and>
     (refusals s = [] \<longrightarrow> (\<forall>(a, i) \<in> set (insts s). accepted fetch probe a i) \<and>
        set (exits s) = {i. \<exists>a. (a, i) \<in> set (insts s) \<and> inst_kind i \<in> set EXIT_KINDS})"

lemma note_kind_simps [simp]: "exits (note_kind at i s) = exits s" "scan_entry (note_kind at i s) = scan_entry s"
  "manufactured_returns (note_kind at i s) = manufactured_returns s" "boundary_heads (note_kind at i s) = boundary_heads s"
  "cs_store_targets (note_kind at i s) = cs_store_targets s"
  by (simp_all add: note_kind_def split: option.splits)

lemma refuse_at_more [simp]: "scan_entry (refuse_at at r s) = scan_entry s" "boundary_heads (refuse_at at r s) = boundary_heads s"
  "manufactured_returns (refuse_at at r s) = manufactured_returns s" "cs_store_targets (refuse_at at r s) = cs_store_targets s"
  by (simp_all add: refuse_at_def)

lemma follow_fields: "follow at i s = (s', new) \<Longrightarrow> scan_entry s' = scan_entry s \<and> boundary_heads s' = boundary_heads s
    \<and> manufactured_returns s' = manufactured_returns s \<and> cs_store_targets s' = cs_store_targets s"
  by (auto simp: follow_def split: if_splits)

lemma visit_fields: "visit fetch probe at s = (s', new) \<Longrightarrow> scan_entry s' = scan_entry s \<and> boundary_heads s' = boundary_heads s
    \<and> manufactured_returns s' = manufactured_returns s \<and> cs_store_targets s' = cs_store_targets s"
  by (auto simp: visit_def Let_def split: option.splits if_splits dest!: follow_fields)

lemma follow_accepts:
  "follow at i s = (s', new) \<Longrightarrow> refusals s' = [] \<Longrightarrow> inst_kind i \<noteq> UNSUPPORTED \<and> inst_kind i \<noteq> HLT
    \<and> exits s' = exits s @ (if inst_kind i \<in> set EXIT_KINDS then [i] else [])"
  by (auto simp: follow_def split: if_splits)

lemma visit_accepts:
  assumes "visit fetch probe at s = (s', new)" and "refusals s' = []"
  shows "accepted fetch probe at (decode_one fetch at)
    \<and> exits s' = exits s @ (if inst_kind (decode_one fetch at) \<in> set EXIT_KINDS then [decode_one fetch at] else [])"
proof -
  let ?i = "decode_one fetch at"
  have ex: "exits s1 = exits s \<Longrightarrow> follow at ?i s1 = (s', new) \<Longrightarrow> inst_kind ?i \<noteq> UNSUPPORTED \<and> inst_kind ?i \<noteq> HLT
      \<and> exits s' = exits s @ (if inst_kind ?i \<in> set EXIT_KINDS then [?i] else [])" for s1
    using follow_accepts [OF _ assms(2)] by metis
  show ?thesis
    using assms by (cases probe) (auto simp: accepted_def visit_def Let_def split: option.splits if_splits dest!: ex [rotated])
qed

lemma visit_inv:
  assumes "at \<notin> set (inst_ips s)" and "visit fetch probe at s = (s', new)" and "scan_inv fetch probe s"
  shows "scan_inv fetch probe s'"
proof -
  have I: "insts s' = insts s @ [(at, decode_one fetch at)]"
    by (rule visit_insts [OF assms(2)])
  have "distinct (inst_ips s')" "\<forall>(a, i) \<in> set (insts s'). i = decode_one fetch a"
    using assms(1,3) by (auto simp: I scan_inv_def)
  moreover have "(\<forall>(a, i) \<in> set (insts s'). accepted fetch probe a i) \<and>
      set (exits s') = {i. \<exists>a. (a, i) \<in> set (insts s') \<and> inst_kind i \<in> set EXIT_KINDS}" if "refusals s' = []"
    using visit_accepts [OF assms(2) that] visit_result(3) [OF assms(2) that] assms(3)
    by (auto simp: I scan_inv_def split: if_splits)
  ultimately show ?thesis
    unfolding scan_inv_def by blast
qed

lemma walk_inv: "scan_inv fetch probe s \<Longrightarrow> scan_inv fetch probe (fst (walk fetch probe n s w))"
  by (rule walk16.walk_preserves) (rule visit_inv)

lemma walk_fields:
  "scan_entry (fst (walk fetch probe n s w)) = scan_entry s \<and> boundary_heads (fst (walk fetch probe n s w)) = boundary_heads s
   \<and> manufactured_returns (fst (walk fetch probe n s w)) = manufactured_returns s
   \<and> cs_store_targets (fst (walk fetch probe n s w)) = cs_store_targets s"
  by (rule walk16.walk_preserves [where P = "\<lambda>t. scan_entry t = scan_entry s \<and> boundary_heads t = boundary_heads s
    \<and> manufactured_returns t = manufactured_returns s \<and> cs_store_targets t = cs_store_targets s"]) (auto dest!: visit_fields)

lemma walk_canon:
  "(\<forall>a \<in> set (inst_ips s). canon16 a = a) \<Longrightarrow> \<forall>a \<in> set (inst_ips (fst (walk fetch probe n s w))). canon16 a = a"
  by (rule walk16.walk_preserves [where P = "\<lambda>s. \<forall>a \<in> set (inst_ips s). canon16 a = a"])
    (auto simp: canon16_def mask_simps dest!: visit_insts)

text \<open>Looking for manufactured returns changes nothing but the set of them.\<close>

definition returns_noted :: "FunctionScan \<Rightarrow> FunctionScan \<Rightarrow> int list \<Rightarrow> bool" where
  "returns_noted s s2 fresh \<longleftrightarrow> s2 = s\<lparr>manufactured_returns := manufactured_returns s2\<rparr> \<and>
     set (manufactured_returns s) \<union> set fresh \<subseteq> set (manufactured_returns s2) \<and>
     set (manufactured_returns s2) \<subseteq> set (manufactured_returns s) \<union> set fresh \<union> set (inst_ips s)
     \<and> set fresh \<inter> set (inst_ips s) = {}"

lemma returns_notedI:
  assumes "returns_noted s s1 fresh"
  shows "returns_noted s (s1\<lparr>manufactured_returns := List.insert t (manufactured_returns s1)\<rparr>)
    (if t \<notin> set (inst_ips s) then fresh @ [t] else fresh)"
proof -
  have "s1 = s\<lparr>manufactured_returns := manufactured_returns s1\<rparr>"
    using assms by (simp add: returns_noted_def)
  then have "s1\<lparr>manufactured_returns := v\<rparr> = s\<lparr>manufactured_returns := v\<rparr>" for v
    by (metis FunctionScan.update_convs(12) FunctionScan.surjective)
  then show ?thesis
    using assms by (simp add: returns_noted_def) (simp add: List.insert_def; blast)
qed

lemma returns_noted_insts: "returns_noted s s1 fresh \<Longrightarrow> insts s1 = insts s"
  by (metis FunctionScan.select_convs(2) FunctionScan.surjective FunctionScan.update_convs(12) returns_noted_def)

lemma note_return_noted:
  assumes "returns_noted s s1 fresh" and "note_return leaders x (s1, fresh) = Some (s2, fresh2)"
  shows "returns_noted s s2 fresh2"
proof -
  obtain at i where x: "x = (at, i)" by fastforce
  show ?thesis
  proof (cases "inst_kind i = JMP_IND")
    case False
    then show ?thesis using assms by (simp add: note_return_def x)
  next
    case True
    then obtain r where "manufactured_return s1 i (leaders at) = Some r"
      using assms(2) by (auto simp: note_return_def x split: bind_splits)
    then show ?thesis
      using True assms returns_notedI [OF assms(1), of "the r"]
      by (cases r) (auto simp: note_return_def x returns_noted_insts [OF assms(1)] map_of_eq_None_iff image_iff split: if_splits)
  qed
qed

lemma find_returns_noted:
  assumes "find_returns s = Some (s2, fresh)"
  shows "returns_noted s s2 fresh"
proof -
  have fold_None: "fold (\<lambda>x acc. Option.bind acc (note_return leaders x)) xs None = None" for leaders xs
    by (induction xs) simp_all
  have "fold (\<lambda>x acc. Option.bind acc (note_return leaders x)) xs (Some (s1, f)) = Some (s2, fresh) \<Longrightarrow>
      returns_noted s s1 f \<Longrightarrow> returns_noted s s2 fresh" for leaders xs s1 f
  proof (induction xs arbitrary: s1 f)
    case (Cons x xs)
    then obtain s' f' where n: "note_return leaders x (s1, f) = Some (s', f')"
      using fold_None [of leaders xs] by (cases "note_return leaders x (s1, f)") auto
    then show ?case
      using Cons note_return_noted [OF Cons.prems(2) n] by simp
  qed simp
  moreover have "returns_noted s s []"
    by (simp add: returns_noted_def)
  ultimately show ?thesis
    using assms unfolding find_returns_def by (auto split: bind_splits)
qed

text \<open>The state between two rounds: what was visited is reachable, and what is reachable was visited or waits.\<close>

abbreviation starts :: "FunctionScan \<Rightarrow> int set" where
  "starts s \<equiv> insert (scan_entry s) (set (manufactured_returns s))"

definition round_inv :: "(int \<Rightarrow> int) \<Rightarrow> probe \<Rightarrow> nat \<Rightarrow> FunctionScan \<Rightarrow> int list \<Rightarrow> bool" where
  "round_inv fetch probe n s w \<longleftrightarrow> scan_inv fetch probe s \<and> length (insts s) \<le> n \<and> (\<forall>a \<in> set (inst_ips s). canon16 a = a) \<and>
     boundary_heads s = [] \<and> cs_store_targets s = [] \<and>
     set w \<subseteq> starts s \<and> set (inst_ips s) \<subseteq> reach (code_succs fetch) canon16 (starts s) \<and>
     (refusals s = [] \<longrightarrow> closed_under (code_succs fetch) canon16 (set (inst_ips s)) (set (inst_ips s) \<union> canon16 ` set w) \<and>
        canon16 ` starts s \<subseteq> set (inst_ips s) \<union> canon16 ` set w)"

lemma round_invI:
  assumes "scan_inv fetch probe s" "length (insts s) \<le> n" "\<forall>a \<in> set (inst_ips s). canon16 a = a" "boundary_heads s = []"
    "cs_store_targets s = []" "set w \<subseteq> starts s" "set (inst_ips s) \<subseteq> reach (code_succs fetch) canon16 (starts s)"
    "refusals s = [] \<Longrightarrow> closed_under (code_succs fetch) canon16 (set (inst_ips s)) (set (inst_ips s) \<union> canon16 ` set w)"
    "refusals s = [] \<Longrightarrow> canon16 ` starts s \<subseteq> set (inst_ips s) \<union> canon16 ` set w"
  shows "round_inv fetch probe n s w"
  unfolding round_inv_def using assms by (intro conjI impI)

lemma round_invD:
  assumes "round_inv fetch probe n s w"
  shows "scan_inv fetch probe s" "length (insts s) \<le> n" "\<forall>a \<in> set (inst_ips s). canon16 a = a" "boundary_heads s = []"
    "cs_store_targets s = []" "set w \<subseteq> starts s" "set (inst_ips s) \<subseteq> reach (code_succs fetch) canon16 (starts s)"
    "refusals s = [] \<Longrightarrow> closed_under (code_succs fetch) canon16 (set (inst_ips s)) (set (inst_ips s) \<union> canon16 ` set w)"
    "refusals s = [] \<Longrightarrow> canon16 ` starts s \<subseteq> set (inst_ips s) \<union> canon16 ` set w"
proof -
  note c = assms [unfolded round_inv_def]
  from c show "scan_inv fetch probe s" "length (insts s) \<le> n" "\<forall>a \<in> set (inst_ips s). canon16 a = a" "boundary_heads s = []"
    "cs_store_targets s = []" "set w \<subseteq> starts s" "set (inst_ips s) \<subseteq> reach (code_succs fetch) canon16 (starts s)"
    by blast+
  assume r: "refusals s = []"
  from c r show "closed_under (code_succs fetch) canon16 (set (inst_ips s)) (set (inst_ips s) \<union> canon16 ` set w)"
    "canon16 ` starts s \<subseteq> set (inst_ips s) \<union> canon16 ` set w"
    by blast+
qed

lemma walk_round:
  assumes "round_inv fetch probe n s w"
  shows "length (insts (fst (walk fetch probe n s w))) \<le> n" "scan_inv fetch probe (fst (walk fetch probe n s w))"
    "snd (walk fetch probe n s w) = False \<Longrightarrow> round_inv fetch probe n (fst (walk fetch probe n s w)) []"
proof -
  let ?s = "fst (walk fetch probe n s w)"
  note inv = assms [unfolded round_inv_def]
  note fields = walk_fields [of fetch probe n s w]
  show len: "length (insts ?s) \<le> n" and si: "scan_inv fetch probe ?s"
    using inv walk16.walk_bound [where s = s and w = w and fetch = fetch and probe = probe and max_insts = n] walk_inv by auto
  assume nf: "snd (walk fetch probe n s w) = False"
  have sound: "set (inst_ips ?s) \<subseteq> reach (code_succs fetch) canon16 (starts s)"
  proof (rule walk16.walk_sound)
    show "canon16 ` set w \<subseteq> reach (code_succs fetch) canon16 (starts s)"
      using inv reach_start [where W = "starts s"] by blast
    show "closed_under (code_succs fetch) canon16 (reach (code_succs fetch) canon16 (starts s)) (reach (code_succs fetch) canon16 (starts s))"
      by (auto simp: closed_under_def intro: reach_step)
  qed (use inv in blast)
  have compl: "closed_under (code_succs fetch) canon16 (set (inst_ips ?s)) (set (inst_ips ?s)) \<and> canon16 ` starts s \<subseteq> set (inst_ips ?s)"
    if "refusals ?s = []"
  proof -
    have "refusals s = []"
      using that walk16.walk_refused [where s = s and w = w and fetch = fetch and probe = probe and max_insts = n] by blast
    then have c: "closed_under (code_succs fetch) canon16 (set (inst_ips s)) (set (inst_ips s) \<union> canon16 ` set w)"
        "canon16 ` starts s \<subseteq> set (inst_ips s) \<union> canon16 ` set w"
      using inv by blast+
    have "canon16 ` set w \<subseteq> set (inst_ips ?s) \<and> closed_under (code_succs fetch) canon16 (set (inst_ips ?s)) (set (inst_ips ?s))"
      by (rule walk16.walk_complete [OF nf _ c(1)]) (use that in simp)
    moreover have "set (inst_ips s) \<subseteq> set (inst_ips ?s)"
      using walk16.walk_seen [where s = s and w = w and fetch = fetch and probe = probe and max_insts = n]
      by (metis Un_upper1 set_append)
    ultimately show ?thesis
      using c(2) by blast
  qed
  have st: "starts ?s = starts s"
    using fields by simp
  show "round_inv fetch probe n ?s []"
  proof (rule round_invI [OF si len])
    show "\<forall>a \<in> set (inst_ips ?s). canon16 a = a"
      by (rule walk_canon [OF round_invD(3) [OF assms]])
    show "refusals ?s = [] \<Longrightarrow> closed_under (code_succs fetch) canon16 (set (inst_ips ?s)) (set (inst_ips ?s) \<union> canon16 ` set [])"
      using compl by (simp add: closed_under_def)
    show "refusals ?s = [] \<Longrightarrow> canon16 ` starts ?s \<subseteq> set (inst_ips ?s) \<union> canon16 ` set []"
      unfolding st using compl by blast
    show "set (inst_ips ?s) \<subseteq> reach (code_succs fetch) canon16 (starts ?s)"
      unfolding st by (rule sound)
    show "set [] \<subseteq> starts ?s" "boundary_heads ?s = []" "cs_store_targets ?s = []"
      using fields round_invD(4,5) [OF assms] by simp_all
  qed
qed

lemma image_covered: "S2 \<subseteq> S \<union> F \<union> I \<Longrightarrow> \<forall>a \<in> I. c a = a \<Longrightarrow> c ` S \<subseteq> I \<Longrightarrow> c ` S2 \<subseteq> I \<union> c ` F"
proof (rule image_subsetI)
  fix x
  assume a: "S2 \<subseteq> S \<union> F \<union> I" "\<forall>a \<in> I. c a = a" "c ` S \<subseteq> I" "x \<in> S2"
  then consider "x \<in> S" | "x \<in> F" | "x \<in> I" by blast
  then show "c x \<in> I \<union> c ` F"
    by cases (use a in auto)
qed

lemma find_round:
  assumes "round_inv fetch probe n s []" and "find_returns s = Some (s2, fresh)"
  shows "round_inv fetch probe n s2 (rev fresh)"
proof -
  note N = find_returns_noted [OF assms(2), unfolded returns_noted_def]
  have s2: "s2 = s\<lparr>manufactured_returns := manufactured_returns s2\<rparr>"
    using N by blast
  have F: "insts s2 = insts s" "refusals s2 = refusals s" "exits s2 = exits s" "scan_entry s2 = scan_entry s"
      "boundary_heads s2 = boundary_heads s" "cs_store_targets s2 = cs_store_targets s"
    by (subst s2, simp)+
  have "starts s \<subseteq> starts s2"
    using N F by auto
  then have mono: "reach (code_succs fetch) canon16 (starts s) \<subseteq> reach (code_succs fetch) canon16 (starts s2)"
    by (rule reach_mono)
  have st: "canon16 ` starts s2 \<subseteq> set (inst_ips s) \<union> canon16 ` set fresh" if "refusals s = []"
  proof -
    have "starts s2 \<subseteq> starts s \<union> set fresh \<union> set (inst_ips s)"
      using N F by auto
    then show ?thesis
      by (rule image_covered [OF _ round_invD(3) [OF assms(1)]]) (use round_invD(9) [OF assms(1) that] in simp)
  qed
  have si: "scan_inv fetch probe s2"
    using round_invD(1) [OF assms(1)] unfolding scan_inv_def F .
  have cl: "closed_under (code_succs fetch) canon16 (set (inst_ips s)) (set (inst_ips s) \<union> canon16 ` set (rev fresh))"
    if "refusals s = []"
    using round_invD(8) [OF assms(1) that] by (auto simp: closed_under_def)
  have wk: "set (rev fresh) \<subseteq> starts s2"
    using N by auto
  show ?thesis
  proof (rule round_invI [OF si], unfold F)
    show "set (inst_ips s) \<subseteq> reach (code_succs fetch) canon16 (insert (scan_entry s) (set (manufactured_returns s2)))"
      using subset_trans [OF round_invD(7) [OF assms(1)] mono] by (simp only: F)
    show "refusals s = [] \<Longrightarrow> canon16 ` insert (scan_entry s) (set (manufactured_returns s2)) \<subseteq> set (inst_ips s) \<union> canon16 ` set (rev fresh)"
      using st by (simp only: F set_rev)
    show "set (rev fresh) \<subseteq> insert (scan_entry s) (set (manufactured_returns s2))"
      using wk by (simp only: F)
    show "refusals s = [] \<Longrightarrow> closed_under (code_succs fetch) canon16 (set (inst_ips s)) (set (inst_ips s) \<union> canon16 ` set (rev fresh))"
      by (rule cl)
  qed (rule round_invD(2-5) [OF assms(1)])+
qed

lemma scan_rounds_inv:
  "scan_rounds fetch probe n s w = Some r \<Longrightarrow> round_inv fetch probe n s w \<Longrightarrow>
   length (insts (fst r)) \<le> n \<and> scan_inv fetch probe (fst r) \<and> scan_entry (fst r) = scan_entry s
   \<and> cs_store_targets (fst r) = [] \<and> (\<not> snd r \<longrightarrow> round_inv fetch probe n (fst r) [])"
proof (induction rule: scan_rounds.raw_induct [rotated, consumes 1, case_names 1])
  case (1 rec fetch probe n s w r)
  obtain s' hit where W: "walk fetch probe n s w = (s', hit)" by fastforce
  have F: "scan_entry s' = scan_entry s" "cs_store_targets s' = []"
    using walk_fields [of fetch probe n s w] round_invD(5) [OF "1.prems"] unfolding W fst_conv by metis+
  note R = walk_round [OF "1.prems", unfolded W, simplified]
  show ?case
  proof (cases hit)
    case True
    then show ?thesis using "1.hyps" W F R by auto
  next
    case False
    obtain s2 fresh where N: "find_returns s' = Some (s2, fresh)"
      using "1.hyps" W False by (cases "find_returns s'") auto
    have inv: "round_inv fetch probe n s2 (rev fresh)"
      using find_round N R(3) False by blast
    have "s2 = s'\<lparr>manufactured_returns := manufactured_returns s2\<rparr>"
      using find_returns_noted [OF N] by (simp add: returns_noted_def)
    then have E: "scan_entry s2 = scan_entry s"
      using F by (metis FunctionScan.select_convs(1) FunctionScan.surjective FunctionScan.update_convs(12))
    show ?thesis
    proof (cases "fresh = []")
      case True
      then have "r = (s2, False)"
        using "1.hyps" W False N by simp
      then show ?thesis
        using inv E True round_invD [OF inv] by simp
    next
      case f: False
      then have "rec fetch probe n s2 (rev fresh) = Some r"
        using "1.hyps" W False N by simp
      then show ?thesis
        using "1.IH" inv E by metis
    qed
  qed
qed

lemma round_inv_start: "round_inv fetch probe n (new_scan e) [e]"
  by (rule round_invI) (simp_all add: new_scan_def scan_inv_def closed_under_def)

lemma check_region_refusals:
  assumes "refusals (check_region mb heads hit s) = []"
  shows "\<not> hit" "decoded_bytes s \<le> int mb" "refusals s = []" "insts (check_region mb heads hit s) = insts s"
    "exits (check_region mb heads hit s) = exits s" "manufactured_returns (check_region mb heads hit s) = manufactured_returns s"
    "cs_store_targets (check_region mb heads hit s) = cs_store_targets s" "scan_entry (check_region mb heads hit s) = scan_entry s"
  using assms by (auto simp: check_region_def Let_def split: if_splits)

lemma check_stores_refusals:
  assumes "refusals (check_stores s) = []"
  shows "refusals s = []" "insts (check_stores s) = insts s" "exits (check_stores s) = exits s"
    "manufactured_returns (check_stores s) = manufactured_returns s"
    "(a, i) \<in> set (insts s) \<Longrightarrow> cs_direct_store_target i = Some t \<Longrightarrow> t \<notin> set (inst_byte_offsets s)"
proof -
  let ?stores = "concat (map (\<lambda>(at, i). case cs_direct_store_target i of Some t \<Rightarrow> [(at, t)] | None \<Rightarrow> []) (insts s))"
  let ?s = "s\<lparr>cs_store_targets := cs_store_targets s @ ?stores\<rparr>"
  have N: "find (\<lambda>(_, t). t \<in> set (inst_byte_offsets ?s)) (cs_store_targets ?s) = None" and R: "check_stores s = ?s"
    using assms by (auto simp: check_stores_def Let_def split: option.splits)
  show "refusals s = []" "insts (check_stores s) = insts s" "exits (check_stores s) = exits s"
    "manufactured_returns (check_stores s) = manufactured_returns s"
    using assms by (simp_all add: R)
  assume "(a, i) \<in> set (insts s)" "cs_direct_store_target i = Some t"
  then have "(a, t) \<in> set ?stores"
    by force
  then have "(a, t) \<in> set (cs_store_targets ?s)"
    by simp
  then have "t \<notin> set (inst_byte_offsets ?s)"
    using N unfolding find_None_iff by blast
  then show "t \<notin> set (inst_byte_offsets s)"
    by (simp add: inst_byte_offsets_def)
qed

lemma liftable_facts:
  assumes "scan_function fetch e max_insts max_bytes probe heads = Some s" and "liftable s"
  shows "set (inst_ips s) = reach (code_succs fetch) canon16 (insert e (set (manufactured_returns s)))
    \<and> distinct (inst_ips s) \<and> length (insts s) \<le> max_insts \<and> decoded_bytes s \<le> int max_bytes
    \<and> (\<forall>(a, i) \<in> set (insts s). accepted fetch probe a i)
    \<and> set (exits s) = {i. \<exists>a. (a, i) \<in> set (insts s) \<and> inst_kind i \<in> set EXIT_KINDS}
    \<and> (\<forall>(a, i) \<in> set (insts s). \<forall>t. cs_direct_store_target i = Some t \<longrightarrow> t \<notin> set (inst_byte_offsets s))"
proof -
  obtain s0 hit where R: "scan_rounds fetch probe max_insts (new_scan e) [e] = Some (s0, hit)"
      and s: "s = check_stores (check_region max_bytes (remdups heads) hit s0)"
    using assms(1) by (auto simp: scan_function_def)
  let ?s1 = "check_region max_bytes (remdups heads) hit s0"
  have r: "refusals (check_stores ?s1) = []"
    using assms(2) s by (simp add: liftable_def)
  note S = check_stores_refusals [OF r]
  note C = check_region_refusals [OF S(1)]
  have I: "scan_inv fetch probe s0" "length (insts s0) \<le> max_insts" "round_inv fetch probe max_insts s0 []" "scan_entry s0 = e"
    using scan_rounds_inv [OF R round_inv_start] C(1) by (auto simp: new_scan_def)
  have F: "insts s = insts s0" "exits s = exits s0" "manufactured_returns s = manufactured_returns s0"
    using S(2-4) C(4-6) s by simp_all
  have bytes: "inst_byte_offsets s = inst_byte_offsets ?s1" "decoded_bytes s = decoded_bytes s0"
    using S(2) C(4) s by (simp_all add: inst_byte_offsets_def decoded_bytes_def)
  have "set (inst_ips s0) = reach (code_succs fetch) canon16 (starts s0)"
  proof
    show "set (inst_ips s0) \<subseteq> reach (code_succs fetch) canon16 (starts s0)"
      by (rule round_invD(7) [OF I(3)])
    show "reach (code_succs fetch) canon16 (starts s0) \<subseteq> set (inst_ips s0)"
      using round_invD(8,9) [OF I(3) C(3)] by (intro reach_least) simp_all
  qed
  moreover have "\<forall>(a, i) \<in> set (insts s). \<forall>t. cs_direct_store_target i = Some t \<longrightarrow> t \<notin> set (inst_byte_offsets s)"
    using S(5) unfolding F(1) bytes(1) C(4) by blast
  ultimately show ?thesis
    using I C(2,3) unfolding F scan_inv_def bytes by auto
qed

text \<open>
  C10: a scan that ends liftable has visited exactly the code reachable from its entry and its manufactured
  returns: every successor of an instruction is in the region and nothing else is.  Every instruction
  is the decoder's at its offset, supported, and of the length the interpreter measured where it was
  probed; the exits are exactly the region's exit instructions, the budgets hold, and no instruction
  stores to a code byte of the region by a CS override.
\<close>

theorem liftable_region_is_reachable_code:
  assumes "scan_function fetch e max_insts max_bytes probe heads = Some s" and "liftable s"
  shows "set (inst_ips s) = reach (code_succs fetch) canon16 (insert e (set (manufactured_returns s)))
    \<and> distinct (inst_ips s) \<and> length (insts s) \<le> max_insts \<and> decoded_bytes s \<le> int max_bytes
    \<and> (\<forall>(a, i) \<in> set (insts s). accepted fetch probe a i)
    \<and> set (exits s) = {i. \<exists>a. (a, i) \<in> set (insts s) \<and> inst_kind i \<in> set EXIT_KINDS}
    \<and> (\<forall>(a, i) \<in> set (insts s). \<forall>t. cs_direct_store_target i = Some t \<longrightarrow> t \<notin> set (inst_byte_offsets s))"
  by (rule liftable_facts [OF assms])

section \<open>The scan returns\<close>

text \<open>Pushed words are 16-bit.\<close>

definition words_only :: "(int \<Rightarrow> int option) \<times> int option \<times> nat \<Rightarrow> bool" where
  "words_only st \<longleftrightarrow> (\<forall>r v. fst st r = Some v \<longrightarrow> canon16 v = v) \<and> (\<forall>v. fst (snd st) = Some v \<longrightarrow> canon16 v = v)"

lemma canon16_idem [simp]: "canon16 (v AND 0xFFFF) = v AND 0xFFFF" "canon16 (canon16 v) = canon16 v"
  by (simp_all add: canon16_def)

lemma window_step_words: "words_only st \<Longrightarrow> words_only (window_step i st)"
  by (auto simp: words_only_def window_step_def Let_def split: prod.splits if_splits)

lemma return_window_word:
  "return_window s j at st = Some r \<Longrightarrow> words_only st \<Longrightarrow> r = Some t \<Longrightarrow> canon16 t = t"
proof (induction rule: return_window.raw_induct [rotated, consumes 1, case_names 1])
  case (1 rec s j at st r)
  show ?case
  proof (cases "at = j")
    case True
    then show ?thesis
      using "1.hyps" "1.prems" by (auto simp: words_only_def split: prod.splits if_splits)
  next
    case False
    then obtain i where i: "inst_at s at = Some i"
      using "1.hyps" "1.prems" by (cases "inst_at s at") auto
    show ?thesis
      using "1.IH" [of s j "next_ip i" "window_step i st" r] "1.hyps" "1.prems" False i window_step_words [of st i] by simp
  qed
qed

lemma manufactured_return_word: "manufactured_return s i l = Some (Some t) \<Longrightarrow> canon16 t = t"
  by (auto simp: manufactured_return_def words_only_def split: option.splits if_splits intro: return_window_word)

text \<open>The chain of fallthroughs from an address.\<close>

definition fall :: "FunctionScan \<Rightarrow> int \<Rightarrow> int" where
  "fall s p = (case inst_at s p of Some i \<Rightarrow> next_ip i | None \<Rightarrow> p)"

definition len_at :: "FunctionScan \<Rightarrow> int \<Rightarrow> int" where
  "len_at s p = (case inst_at s p of Some i \<Rightarrow> inst_length i | None \<Rightarrow> 0)"

text \<open>Decoded instructions at 16-bit offsets, together shorter than the segment.\<close>

definition short_code :: "FunctionScan \<Rightarrow> bool" where
  "short_code s \<longleftrightarrow> (\<exists>L. int (length (insts s)) * L < 65536 \<and>
     (\<forall>(a, i) \<in> set (insts s). canon16 a = a \<and> inst_ip i = a \<and> 1 \<le> inst_length i \<and> inst_length i \<le> L))"

lemma fall_offset:
  assumes "short_code s" and "\<forall>j < k. inst_at s ((fall s ^^ j) p) \<noteq> None" and "0 < k"
  shows "(fall s ^^ k) p = (p + (\<Sum>j<k. len_at s ((fall s ^^ j) p))) mod 65536"
  using assms(2,3)
proof (induction k)
  case (Suc k)
  let ?q = "(fall s ^^ k) p"
  obtain i where i: "inst_at s ?q = Some i"
    using Suc.prems(1) by auto
  then have "(?q, i) \<in> set (insts s)"
    by (rule map_of_SomeD)
  then have "inst_ip i = ?q"
    using assms(1) by (auto simp: short_code_def)
  then have step: "(fall s ^^ Suc k) p = (?q + len_at s ?q) mod 65536"
    using i by (simp add: fall_def len_at_def next_ip_def mask_simps)
  show ?case
  proof (cases "k = 0")
    case False
    then have q: "?q = (p + (\<Sum>j<k. len_at s ((fall s ^^ j) p))) mod 65536"
      using Suc by simp
    show ?thesis
      unfolding step by (subst q) (simp add: mod_add_left_eq add.assoc)
  qed (use step in simp)
qed simp

lemma chain_leaves:
  assumes "short_code s"
  shows "\<exists>k \<le> length (insts s). inst_at s ((fall s ^^ k) p) = None"
proof (rule ccontr)
  let ?N = "length (insts s)" and ?c = "\<lambda>k. (fall s ^^ k) p"
  assume "\<not> ?thesis"
  then have all: "\<forall>k \<le> ?N. inst_at s (?c k) \<noteq> None" by metis
  obtain L where L: "int ?N * L < 65536" "\<forall>(a, i) \<in> set (insts s). canon16 a = a \<and> inst_ip i = a \<and> 1 \<le> inst_length i \<and> inst_length i \<le> L"
    using assms by (auto simp: short_code_def)
  have len: "1 \<le> len_at s (?c k) \<and> len_at s (?c k) \<le> L" if "k \<le> ?N" for k
  proof -
    have "inst_at s (?c k) \<noteq> None"
      using all that by blast
    then obtain i where i: "inst_at s (?c k) = Some i"
      by blast
    then show ?thesis
      using bspec [OF L(2) map_of_SomeD [OF i]] by (simp add: len_at_def)
  qed
  define D where "D k = (\<Sum>j<k. len_at s (?c j))" for k
  have D: "D i < D j \<and> D j - D i < 65536" if "i < j" "j \<le> ?N" for i j
  proof -
    have diff: "D j = D i + (\<Sum>k\<in>{i..<j}. len_at s (?c k))"
      using that(1) by (simp add: D_def sum.atLeastLessThan_concat [symmetric] lessThan_atLeast0)
    have "(\<Sum>k\<in>{i..<j}. 1) \<le> (\<Sum>k\<in>{i..<j}. len_at s (?c k))"
      by (rule sum_mono) (use len that in auto)
    moreover have "(\<Sum>k\<in>{i..<j}. len_at s (?c k)) \<le> (\<Sum>k\<in>{i..<j}. L)"
      by (rule sum_mono) (use len that in auto)
    moreover have "1 \<le> L" using len [of 0] by simp
    then have "int (j - i) * L \<le> int ?N * L"
      using that by (intro mult_right_mono) auto
    ultimately show ?thesis
      using diff that L(1) by simp
  qed
  have p: "p mod 65536 = p"
  proof -
    have "inst_at s (?c 0) \<noteq> None"
      using all by blast
    then obtain i where i: "inst_at s p = Some i"
      by auto
    then show ?thesis
      using bspec [OF L(2) map_of_SomeD [OF i]] by (simp add: canon16_def mask_simps)
  qed
  have c: "?c k = (p + D k) mod 65536" if "k \<le> ?N" for k
    using fall_offset [OF assms, of k p] all that p by (cases "k = 0") (auto simp: D_def)
  have "inj_on ?c {0..?N}"
  proof (rule linorder_inj_onI')
    fix i j
    assume ij: "i \<in> {0..?N}" "j \<in> {0..?N}" "i < j"
    have "(D j - D i) mod 65536 = D j - D i" "D j - D i \<noteq> 0"
      using D [of i j] ij by simp_all
    then have "\<not> 65536 dvd (p + D j) - (p + D i)"
      by (simp add: dvd_eq_mod_eq_0)
    then have "(p + D j) mod 65536 \<noteq> (p + D i) mod 65536"
      by (simp only: mod_eq_dvd_iff not_False_eq_True)
    moreover have "?c i = (p + D i) mod 65536" "?c j = (p + D j) mod 65536"
      using c [of i] c [of j] ij by simp_all
    ultimately show "?c i \<noteq> ?c j"
      by metis
  qed
  then have "card (?c ` {0..?N}) = Suc ?N"
    by (subst card_image) simp_all
  moreover have "?c ` {0..?N} \<subseteq> set (inst_ips s)"
  proof (rule image_subsetI)
    fix k
    assume "k \<in> {0..?N}"
    then have "inst_at s (?c k) \<noteq> None"
      using all by simp
    then show "?c k \<in> set (inst_ips s)"
      by (metis list.set_map map_of_eq_None_iff)
  qed
  then have "card (?c ` {0..?N}) \<le> ?N"
    using card_mono [of "set (inst_ips s)"] card_length [of "inst_ips s"] by (metis finite_set le_trans length_map)
  ultimately show False by simp
qed

lemma fall_step: "inst_at s p = Some i \<Longrightarrow> (fall s ^^ Suc k) p = (fall s ^^ k) (next_ip i)"
  unfolding funpow_Suc_right o_apply by (simp add: fall_def)

lemma block_walk_returns: "inst_at s ((fall s ^^ k) p) = None \<Longrightarrow> block_walk s ls l p out \<noteq> None"
proof (induction k arbitrary: p out)
  case (Suc k)
  show ?case
  proof (cases "inst_at s p")
    case (Some i)
    then have "inst_at s ((fall s ^^ k) (next_ip i)) = None"
      using Suc.prems by (simp only: fall_step [OF Some])
    then show ?thesis
      using Suc.IH Some by (subst block_walk.simps) (simp add: Let_def)
  qed (subst block_walk.simps, simp)
qed (subst block_walk.simps, simp)

lemma return_window_returns: "inst_at s ((fall s ^^ k) at) = None \<Longrightarrow> return_window s j at st \<noteq> None"
proof (induction k arbitrary: at st)
  case (Suc k)
  show ?case
  proof (cases "inst_at s at")
    case (Some i)
    then have "inst_at s ((fall s ^^ k) (next_ip i)) = None"
      using Suc.prems by (simp only: fall_step [OF Some])
    then show ?thesis
      using Suc.IH Some by (subst return_window.simps) (simp split: prod.splits)
  qed (subst return_window.simps, simp split: prod.splits)
qed (subst return_window.simps, simp split: prod.splits)

lemma fold_bind_returns:
  assumes "\<And>x a. P a \<Longrightarrow> x \<in> set xs \<Longrightarrow> \<exists>b. f x a = Some b \<and> P b" and "P a0"
  shows "\<exists>b. fold (\<lambda>x acc. Option.bind acc (f x)) xs (Some a0) = Some b \<and> P b"
  using assms
proof (induction xs arbitrary: a0)
  case (Cons x xs)
  then obtain b where "f x a0 = Some b" "P b" by fastforce
  then show ?case
    using Cons.IH [of b] Cons.prems(1) by simp
qed simp

lemma leader_of_returns: "short_code s \<Longrightarrow> leader_of s extra \<noteq> None"
proof -
  assume c: "short_code s"
  have one: "\<exists>b. block_walk s ls l l a = Some b \<and> True" for ls l a
  proof -
    obtain k where "inst_at s ((fall s ^^ k) l) = None"
      using chain_leaves [OF c, of l] by blast
    then show ?thesis
      using block_walk_returns by blast
  qed
  have "\<exists>b. fold (\<lambda>lead acc. Option.bind acc (block_walk s ls lead lead)) xs (Some Map.empty) = Some b \<and> True" for ls xs
    by (rule fold_bind_returns [where P = "\<lambda>_. True"]) (use one in simp_all)
  then show ?thesis
    unfolding leader_of_def Let_def by (metis option.discI)
qed

lemma manufactured_return_returns: "short_code s \<Longrightarrow> manufactured_return s i l \<noteq> None"
proof (cases l)
  case (Some lead)
  moreover assume "short_code s"
  then obtain k where "inst_at s ((fall s ^^ k) lead) = None"
    using chain_leaves by blast
  ultimately show ?thesis
    using return_window_returns by (simp add: manufactured_return_def)
qed (simp add: manufactured_return_def)

text \<open>The fresh resume points are 16-bit and unvisited.\<close>

lemma find_returns_returns:
  assumes "short_code s"
  shows "\<exists>s2 fresh. find_returns s = Some (s2, fresh) \<and> (\<forall>t \<in> set fresh. canon16 t = t)"
proof -
  obtain leaders where l: "leader_of s [] = Some leaders"
    using leader_of_returns [OF assms] by blast
  have "\<exists>b. fold (\<lambda>x acc. Option.bind acc (note_return leaders x)) (insts s) (Some (s, [])) = Some b
      \<and> (insts (fst b) = insts s \<and> (\<forall>t \<in> set (snd b). canon16 t = t))"
  proof (rule fold_bind_returns)
    fix x :: "int \<times> Inst" and a :: "FunctionScan \<times> int list"
    assume a: "insts (fst a) = insts s \<and> (\<forall>t \<in> set (snd a). canon16 t = t)"
    obtain at i where x: "x = (at, i)" by fastforce
    obtain s1 f where sf: "a = (s1, f)" by fastforce
    have "short_code s1"
      using assms a by (simp add: short_code_def sf)
    then obtain r where "manufactured_return s1 i (leaders at) = Some r"
      using manufactured_return_returns by blast
    then show "\<exists>b. note_return leaders x a = Some b \<and> (insts (fst b) = insts s \<and> (\<forall>t \<in> set (snd b). canon16 t = t))"
      using a manufactured_return_word by (cases r) (auto simp: note_return_def x sf)
  qed simp
  then show ?thesis
    using l by (auto simp: find_returns_def)
qed

lemma resolve_ip [simp]: "inst_ip (resolve fetch p n i) = inst_ip i"
  by (simp add: resolve_def Let_def)

lemma decode_one_ip: "inst_ip (decode_one fetch a) = a"
  by (simp add: decode_one_def Let_def split: option.splits prod.splits)

lemma decode_one_pos: "canon16 a = a \<Longrightarrow> 1 \<le> inst_length (decode_one fetch a)"
proof -
  assume "canon16 a = a"
  then have u: "u16 a"
    by (metis canon16_def u16_mask)
  show ?thesis
    by (cases fetch rule: decode_one_cases [OF u]) simp_all
qed

lemma round_short:
  assumes "round_inv fetch probe n s w" and "\<forall>a. canon16 a = a \<longrightarrow> inst_length (decode_one fetch a) \<le> 15" and "n \<le> 4096"
  shows "short_code s"
  unfolding short_code_def
proof (intro exI conjI)
  show "int (length (insts s)) * 15 < 65536"
    using round_invD(2) [OF assms(1)] assms(3) by simp
  show "\<forall>(a, i) \<in> set (insts s). canon16 a = a \<and> inst_ip i = a \<and> 1 \<le> inst_length i \<and> inst_length i \<le> 15"
  proof (rule ballI, clarify)
    fix a i
    assume e: "(a, i) \<in> set (insts s)"
    then have "canon16 a = a"
      using round_invD(3) [OF assms(1)] by force
    moreover have "i = decode_one fetch a"
      using e round_invD(1) [OF assms(1)] by (auto simp: scan_inv_def)
    ultimately show "canon16 a = a \<and> inst_ip i = a \<and> 1 \<le> inst_length i \<and> inst_length i \<le> 15"
      using decode_one_ip decode_one_pos assms(2) by simp
  qed
qed

lemma walk_adds:
  assumes "canon16 p \<notin> set (inst_ips s)" and "snd (walk fetch probe n s (p # w)) = False"
  shows "length (insts s) < length (insts (fst (walk fetch probe n s (p # w))))"
proof -
  obtain s' new where v: "visit fetch probe (canon16 p) s = (s', new)" by fastforce
  have "walk fetch probe n s (p # w) = walk fetch probe n s' (new @ w)"
    using assms v by (auto simp: canon16_def Let_def split: if_splits)
  moreover have "length (inst_ips s') \<le> length (inst_ips (fst (walk fetch probe n s' (new @ w))))"
    using walk16.walk_seen [where s = s' and w = "new @ w" and fetch = fetch and probe = probe and max_insts = n]
    by (metis le_add1 length_append)
  ultimately show ?thesis
    using visit_insts [OF v] by simp
qed

lemma scan_rounds_returns:
  assumes "\<forall>a. canon16 a = a \<longrightarrow> inst_length (decode_one fetch a) \<le> 15" and "n \<le> 4096"
  shows "round_inv fetch probe n s (p # w) \<Longrightarrow> canon16 p \<notin> set (inst_ips s) \<Longrightarrow> scan_rounds fetch probe n s (p # w) \<noteq> None"
proof (induction "n - length (insts s)" arbitrary: s p w rule: less_induct)
  case less
  obtain s' hit where W: "walk fetch probe n s (p # w) = (s', hit)" by fastforce
  note R = walk_round [OF less.prems(1), unfolded W fst_conv snd_conv]
  show ?case
  proof (cases hit)
    case True
    then show ?thesis
      using W by (subst scan_rounds.simps) simp
  next
    case False
    have more: "length (insts s) < length (insts s')"
      using walk_adds [OF less.prems(2), of fetch probe n w] W False by simp
    have inv: "round_inv fetch probe n s' []"
      using R(3) False by simp
    obtain s2 fresh where N: "find_returns s' = Some (s2, fresh)" "\<forall>t \<in> set fresh. canon16 t = t"
      using find_returns_returns [OF round_short [OF inv assms]] by blast
    note noted = find_returns_noted [OF N(1)]
    show ?thesis
    proof (cases "rev fresh")
      case Nil
      then show ?thesis
        using W False N(1) by (subst scan_rounds.simps) simp
    next
      case (Cons t ts)
      then have t: "t \<in> set fresh"
        by (metis list.set_intros(1) set_rev)
      have "canon16 t \<notin> set (inst_ips s2)"
        using noted N(2) t returns_noted_insts [OF noted] unfolding returns_noted_def by auto
      moreover have "n - length (insts s2) < n - length (insts s)"
        using more round_invD(2) [OF inv] returns_noted_insts [OF noted] by simp
      ultimately have "scan_rounds fetch probe n s2 (t # ts) \<noteq> None"
        using less.hyps find_round [OF inv N(1), unfolded Cons] by blast
      then show ?thesis
        using W False N(1) Cons by (subst scan_rounds.simps) auto
    qed
  qed
qed

text \<open>
  C16: the scan of a function returns, whatever code it meets, when no instruction is longer than the fifteen
  bytes the processor allows and the budget is at most the default of 4096 instructions: the worklist
  is bounded by the budget, the fallthrough chains of a block cannot go round the segment, and every
  round of manufactured returns visits new code.
\<close>

theorem scan_function_returns:
  assumes "\<forall>a. canon16 a = a \<longrightarrow> inst_length (decode_one fetch a) \<le> 15" and "max_insts \<le> 4096"
  shows "\<exists>s. scan_function fetch e max_insts max_bytes probe heads = Some s"
  using scan_rounds_returns [OF assms round_inv_start] by (auto simp: scan_function_def new_scan_def)

text \<open>Code of RET bytes only.\<close>

theorem scan_function_returns_witness:
  "\<exists>s. scan_function (\<lambda>_. 0xC3) 0x100 4096 16384 None [] = Some s"
proof (rule scan_function_returns)
  have "opcode_entry 0xC3 = Some (False, Imm 0, RET, ''ret'')"
    by code_simp
  moreover have "scan_prefixes MAX_LEN (\<lambda>_. 0xC3) a = Some ([], a)" for a
    by (simp add: MAX_LEN_def numeral_eq_Suc PREFIXES_def)
  moreover have "(((a + 1) AND 65535) - a) AND 65535 = 1" for a :: int
    by (simp add: mask_simps mod_diff_left_eq)
  ultimately show "\<forall>a. canon16 a = a \<longrightarrow> inst_length (decode_one (\<lambda>_. 0xC3) a) \<le> 15"
    by (simp add: decode_one_def Let_def imm_length_def)
qed simp

section \<open>A small function\<close>

text \<open>\<open>jz +1; nop; ret\<close>.\<close>

definition branch_code :: "int \<Rightarrow> int" where
  "branch_code a = (if a = 0x100 then 0x74 else if a = 0x101 then 0x01 else if a = 0x102 then 0x90 else 0xC3)"

definition branch_scan :: FunctionScan where
  "branch_scan = fst (walk branch_code None 16 (new_scan 0x100) [0x100])"

lemma branch_leaders: "leader_of branch_scan [] = Some ((Map.empty(0x100 \<mapsto> 0x100))(0x102 \<mapsto> 0x102, 0x103 \<mapsto> 0x103))"
proof -
  have L: "block_leaders branch_scan = [0x100, 0x102, 0x103]"
    by code_simp
  have "map_option (\<lambda>i. (next_ip i, inst_kind i)) (inst_at branch_scan 0x100) = Some (0x102, JCC)"
    "map_option (\<lambda>i. (next_ip i, inst_kind i)) (inst_at branch_scan 0x102) = Some (0x103, SEQ)"
    "map_option (\<lambda>i. (next_ip i, inst_kind i)) (inst_at branch_scan 0x103) = Some (0x104, RET)"
    by code_simp+
  then obtain i j k where "inst_at branch_scan 0x100 = Some i" "next_ip i = 0x102" "inst_kind i = JCC"
    "inst_at branch_scan 0x102 = Some j" "next_ip j = 0x103" "inst_kind j = SEQ"
    "inst_at branch_scan 0x103 = Some k" "next_ip k = 0x104" "inst_kind k = RET"
    by auto
  then show ?thesis
    by (simp add: leader_of_def L block_walk.simps)
qed

lemma no_returns: "leader_of s [] = Some m \<Longrightarrow> \<forall>(a, i) \<in> set (insts s). inst_kind i \<noteq> JMP_IND \<Longrightarrow> find_returns s = Some (s, [])"
proof -
  assume l: "leader_of s [] = Some m" and k: "\<forall>(a, i) \<in> set (insts s). inst_kind i \<noteq> JMP_IND"
  have "\<forall>(a, i) \<in> set xs. inst_kind i \<noteq> JMP_IND \<Longrightarrow>
      fold (\<lambda>x acc. Option.bind acc (note_return m x)) xs (Some (s, [])) = Some (s, [])" for xs
    by (induction xs) (auto simp: note_return_def)
  from this [OF k] show ?thesis
    by (simp add: find_returns_def l)
qed

lemma branch_scanned: "scan_function branch_code 0x100 16 4096 None [] = Some branch_scan"
proof -
  have "walk branch_code None 16 (new_scan 0x100) [0x100] = (branch_scan, False)"
    by code_simp
  moreover have "list_all (\<lambda>(a, i). inst_kind i \<noteq> JMP_IND) (insts branch_scan)"
    by code_simp
  then have "find_returns branch_scan = Some (branch_scan, [])"
    by (intro no_returns [OF branch_leaders]) (simp add: list_all_iff)
  moreover have "check_stores (check_region 4096 [] False branch_scan) = branch_scan"
    by code_simp
  ultimately show ?thesis
    by (simp add: scan_function_def scan_rounds.simps)
qed

theorem liftable_region_is_reachable_code_witness:
  "set (inst_ips branch_scan) = {0x100, 0x102, 0x103} \<and> 0x103 \<in> reach (code_succs branch_code) canon16 {0x100}"
proof -
  have "liftable branch_scan" and ips: "inst_ips branch_scan = [0x100, 0x103, 0x102]" and m: "manufactured_returns branch_scan = []"
    by code_simp+
  then have "set (inst_ips branch_scan) = reach (code_succs branch_code) canon16 (insert 0x100 (set (manufactured_returns branch_scan)))"
    using liftable_region_is_reachable_code [OF branch_scanned] by blast
  then show ?thesis
    unfolding m ips by auto
qed

text \<open>
  A LEAVE between the push and the jump changes SP but has no constant stack delta, so the window counts
  one stack operation and the jump passes for a manufactured return.
\<close>

definition leave_code :: "int \<Rightarrow> int" where
  "leave_code a = (if a = 0x100 then 0x68 else if a = 0x101 then 0x34 else if a = 0x102 then 0x12 else if a = 0x103 then 0xC9
     else if a = 0x104 then 0xFF else 0xE0)"

lemma leave_is_not_counted:
  "window_step (decode_one leave_code 0x103) (window_step (decode_one leave_code 0x100) (Map.empty, None, 0)) = (r, p, n) \<Longrightarrow>
   p = Some 0x1234 \<and> n = 1"
proof -
  have "register_effects None (decode_one leave_code 0x100) = fx {R_SP, R_SS} {R_SP} False True (Some (- 2))"
    "stack_delta (register_effects None (decode_one leave_code 0x103)) = None"
    "inst_op (decode_one leave_code 0x100) = 0x68" "inst_imm (decode_one leave_code 0x100) = Some 0x1234"
    by code_simp+
  then show "window_step (decode_one leave_code 0x103) (window_step (decode_one leave_code 0x100) (Map.empty, None, 0)) = (r, p, n) \<Longrightarrow>
      p = Some 0x1234 \<and> n = 1"
    by (auto simp: window_step_def Let_def fx_def no_effects_def)
qed

end
