(* ===== verification/Cfg32.thy ===== *)
theory Cfg32
  imports Cfg Decode32
begin

text \<open>
  \<open>dos_re/lift/cfg32.py\<close>: the statically reachable region of a 32-bit function at a flat address.  The
  representation is that of the 16-bit scan; an undecodable address is refused and not recorded as an
  instruction.
\<close>

section \<open>The scan\<close>

definition EXIT_KINDS32 :: "kind list" where
  "EXIT_KINDS32 = [RET, IRET, JMP_IND]"

record FunctionScan32 =
  entry32 :: int
  insts32 :: "(int \<times> Inst32) list"
  exits32 :: "Inst32 list"
  calls_near32 :: "int list"
  calls_indirect32 :: "int list"
  ints32 :: "int list"
  refusals32 :: "Refusal list"
  probe_unchecked32 :: "int list"

definition new_scan32 :: "int \<Rightarrow> FunctionScan32" where
  "new_scan32 e = \<lparr>entry32 = e, insts32 = [], exits32 = [], calls_near32 = [], calls_indirect32 = [], ints32 = [],
     refusals32 = [], probe_unchecked32 = []\<rparr>"

abbreviation ips32 :: "FunctionScan32 \<Rightarrow> int list" where
  "ips32 s \<equiv> map fst (insts32 s)"

definition liftable32 :: "FunctionScan32 \<Rightarrow> bool" where
  "liftable32 s \<longleftrightarrow> refusals32 s = [] \<and> exits32 s \<noteq> []"

definition region32 :: "FunctionScan32 \<Rightarrow> int \<times> int" where
  "region32 s = (if insts32 s = [] then (entry32 s, entry32 s)
     else (Min (set (ips32 s)), Max (set (map (\<lambda>(_, i). ip32 i + length32 i) (insts32 s)))))"

definition leader_candidates32 :: "Inst32 \<Rightarrow> int list" where
  "leader_candidates32 i = (case target32 i of
     Some t \<Rightarrow> (if kind32 i = JCC then [t, next_ip32 i] else if kind32 i = JMP then [t] else [])
   | None \<Rightarrow> [])"

definition block_leaders32 :: "FunctionScan32 \<Rightarrow> int list" where
  "block_leaders32 s = sort (remdups (filter (\<lambda>l. l \<in> set (ips32 s))
     (entry32 s # concat (map (\<lambda>(_, i). leader_candidates32 i) (insts32 s)))))"

section \<open>The walk\<close>

definition inst_succs32 :: "Inst32 \<Rightarrow> int list" where
  "inst_succs32 i =
     (if kind32 i \<in> {SEQ, CALL, CALL_IND, INT_N} then [next_ip32 i]
      else if kind32 i = JCC then (case target32 i of Some t \<Rightarrow> [t, next_ip32 i] | None \<Rightarrow> [next_ip32 i])
      else if kind32 i = JMP then (case target32 i of Some t \<Rightarrow> [t] | None \<Rightarrow> []) else [])"

definition refuse_at32 :: "int \<Rightarrow> refusal_reason \<Rightarrow> FunctionScan32 \<Rightarrow> FunctionScan32" where
  "refuse_at32 at r s = s\<lparr>refusals32 := refusals32 s @ [(at, r)]\<rparr>"

definition note_kind32 :: "int \<Rightarrow> Inst32 \<Rightarrow> FunctionScan32 \<Rightarrow> FunctionScan32" where
  "note_kind32 at i s =
     (if kind32 i = CALL then (case target32 i of Some t \<Rightarrow> s\<lparr>calls_near32 := List.insert t (calls_near32 s)\<rparr> | None \<Rightarrow> s)
      else if kind32 i = CALL_IND then s\<lparr>calls_indirect32 := calls_indirect32 s @ [at]\<rparr>
      else if kind32 i = INT_N then (case int_no32 i of Some n \<Rightarrow> s\<lparr>ints32 := List.insert n (ints32 s)\<rparr> | None \<Rightarrow> s)
      else s)"

text \<open>An exit jump is also recorded as an indirect transfer.\<close>

definition follow32 :: "int \<Rightarrow> Inst32 \<Rightarrow> FunctionScan32 \<Rightarrow> FunctionScan32 \<times> int list" where
  "follow32 at i s =
     (if kind32 i = UNSUPPORTED then (refuse_at32 at (Unsupported_opcode (mnemonic32 i)) s, [])
      else if kind32 i = HLT then (refuse_at32 at Hlt_instruction s, [])
      else if kind32 i \<in> set EXIT_KINDS32 then
        (s\<lparr>exits32 := exits32 s @ [i], calls_indirect32 := (if kind32 i = JMP_IND then calls_indirect32 s @ [at] else calls_indirect32 s)\<rparr>, [])
      else (note_kind32 at i s, inst_succs32 i))"

definition visit32 :: "(int \<Rightarrow> int) \<Rightarrow> probe \<Rightarrow> int \<Rightarrow> FunctionScan32 \<Rightarrow> FunctionScan32 \<times> int list" where
  "visit32 fetch probe at s =
     (case decode32 fetch at of
        Inl _ \<Rightarrow> (refuse_at32 at Undecodable_code s, [])
      | Inr i \<Rightarrow>
        (let s = s\<lparr>insts32 := insts32 s @ [(at, i)]\<rparr> in
         case probe of
           Some measure' \<Rightarrow>
             (if kind32 i \<noteq> SEQ then follow32 at i s
              else case measure' at of
                None \<Rightarrow> follow32 at i (s\<lparr>probe_unchecked32 := probe_unchecked32 s @ [at]\<rparr>)
              | Some n \<Rightarrow> (if n \<noteq> length32 i then (refuse_at32 at (Decoder_mismatch (length32 i) n) s, []) else follow32 at i s))
         | None \<Rightarrow> follow32 at i s))"

function walk32 :: "(int \<Rightarrow> int) \<Rightarrow> probe \<Rightarrow> nat \<Rightarrow> FunctionScan32 \<Rightarrow> int list \<Rightarrow> FunctionScan32 \<times> bool" where
  "walk32 fetch probe max_insts s [] = (s, False)"
| "walk32 fetch probe max_insts s (p # w) =
     (let at = mask32 p in
      if at \<in> set (ips32 s) then walk32 fetch probe max_insts s w
      else if max_insts \<le> length (insts32 s) then (s, True)
      else (case visit32 fetch probe at s of (s', new) \<Rightarrow> walk32 fetch probe max_insts s' (new @ w)))"
  by pat_completeness auto

lemma refuse_at32_simps [simp]: "insts32 (refuse_at32 at r s) = insts32 s" "refusals32 (refuse_at32 at r s) \<noteq> []"
  "exits32 (refuse_at32 at r s) = exits32 s" "entry32 (refuse_at32 at r s) = entry32 s"
  by (simp_all add: refuse_at32_def)

lemma note_kind32_simps [simp]: "insts32 (note_kind32 at i s) = insts32 s" "refusals32 (note_kind32 at i s) = refusals32 s"
  "exits32 (note_kind32 at i s) = exits32 s" "entry32 (note_kind32 at i s) = entry32 s"
  by (simp_all add: note_kind32_def split: option.splits)

lemma exit_no_succs32: "kind32 i \<in> set EXIT_KINDS32 \<Longrightarrow> inst_succs32 i = []"
  by (auto simp: EXIT_KINDS32_def inst_succs32_def)

lemma follow32_result:
  assumes "follow32 at i s = (s', new)"
  shows "insts32 s' = insts32 s" "entry32 s' = entry32 s" "set new \<subseteq> set (inst_succs32 i)"
    "refusals32 s' = [] \<Longrightarrow> new = inst_succs32 i \<and> refusals32 s = [] \<and> kind32 i \<noteq> UNSUPPORTED \<and> kind32 i \<noteq> HLT
      \<and> exits32 s' = exits32 s @ (if kind32 i \<in> set EXIT_KINDS32 then [i] else [])"
  using assms exit_no_succs32 [of i] by (auto simp: follow32_def split: if_splits)

text \<open>The instruction at an address, and where control goes from it.\<close>

definition code_succs32 :: "(int \<Rightarrow> int) \<Rightarrow> int \<Rightarrow> int list" where
  "code_succs32 fetch at = (case decode32 fetch at of Inl _ \<Rightarrow> [] | Inr i \<Rightarrow> inst_succs32 i)"

definition accepted32 :: "(int \<Rightarrow> int) \<Rightarrow> probe \<Rightarrow> int \<Rightarrow> Inst32 \<Rightarrow> bool" where
  "accepted32 fetch probe at i \<longleftrightarrow> decode32 fetch at = Inr i \<and> kind32 i \<noteq> UNSUPPORTED \<and> kind32 i \<noteq> HLT \<and>
     (\<forall>m n. probe = Some m \<longrightarrow> kind32 i = SEQ \<longrightarrow> m at = Some n \<longrightarrow> n = length32 i)"

lemma visit32_cases:
  assumes "visit32 fetch probe at s = (s', new)"
  obtains (bad) e where "decode32 fetch at = Inl e" "insts32 s' = insts32 s" "new = []" "refusals32 s' \<noteq> []" "entry32 s' = entry32 s"
  | (mismatch) i where "decode32 fetch at = Inr i" "insts32 s' = insts32 s @ [(at, i)]" "new = []" "refusals32 s' \<noteq> []"
      "entry32 s' = entry32 s"
  | (followed) i s1 where "decode32 fetch at = Inr i" "follow32 at i s1 = (s', new)" "insts32 s1 = insts32 s @ [(at, i)]"
      "refusals32 s1 = refusals32 s" "exits32 s1 = exits32 s" "entry32 s1 = entry32 s"
      "\<forall>m n. probe = Some m \<longrightarrow> kind32 i = SEQ \<longrightarrow> m at = Some n \<longrightarrow> n = length32 i"
proof (cases "decode32 fetch at")
  case (Inl e)
  then show ?thesis
    using assms bad by (auto simp: visit32_def)
next
  case (Inr i)
  then show ?thesis
    using assms mismatch [of i] followed [of i] by (auto simp: visit32_def Let_def split: option.splits if_splits)
qed

lemma visit32_insts: "visit32 fetch probe at s = (s', new) \<Longrightarrow> (\<exists>i. insts32 s' = insts32 s @ [(at, i)]) \<or> insts32 s' = insts32 s \<and> new = []"
  by (erule visit32_cases) (auto dest: follow32_result(1))

termination walk32
  by (relation "measures [\<lambda>(f, p, n, s, w). n - length (insts32 s), \<lambda>(f, p, n, s, w). length w]")
    (auto dest!: visit32_insts [OF sym])

section \<open>Scanning a function\<close>

definition scan_function32 :: "(int \<Rightarrow> int) \<Rightarrow> int \<Rightarrow> nat \<Rightarrow> nat \<Rightarrow> probe \<Rightarrow> FunctionScan32" where
  "scan_function32 fetch e max_insts max_bytes probe =
     (let (s, budget_hit) = walk32 fetch probe max_insts (new_scan32 e) [e]; (lo, hi) = region32 s;
          s1 = (if budget_hit \<or> hi - lo > int max_bytes then refuse_at32 e (Region_budget (length (insts32 s)) (hi - lo)) s else s) in
      if exits32 s1 = [] \<and> refusals32 s1 = [] then refuse_at32 e No_exit s1 else s1)"

lemma visit32_result:
  assumes "visit32 fetch probe at s = (s', new)"
  shows "set new \<subseteq> set (code_succs32 fetch at)" "refusals32 s \<noteq> [] \<Longrightarrow> refusals32 s' \<noteq> []"
    "refusals32 s' = [] \<Longrightarrow> \<exists>i. insts32 s' = insts32 s @ [(at, i)] \<and> accepted32 fetch probe at i \<and> new = code_succs32 fetch at
      \<and> exits32 s' = exits32 s @ (if kind32 i \<in> set EXIT_KINDS32 then [i] else [])"
proof -
  show "set new \<subseteq> set (code_succs32 fetch at)"
    using assms by (cases rule: visit32_cases) (auto simp: code_succs32_def dest: follow32_result(3))
  show "refusals32 s \<noteq> [] \<Longrightarrow> refusals32 s' \<noteq> []"
    using assms by (cases rule: visit32_cases) (auto dest: follow32_result(4))
  assume "refusals32 s' = []"
  with assms show "\<exists>i. insts32 s' = insts32 s @ [(at, i)] \<and> accepted32 fetch probe at i \<and> new = code_succs32 fetch at
      \<and> exits32 s' = exits32 s @ (if kind32 i \<in> set EXIT_KINDS32 then [i] else [])"
    by (cases rule: visit32_cases) (auto simp: code_succs32_def accepted32_def dest: follow32_result)
qed

interpretation flat_walk: explorer "visit32 fetch probe" ips32 "\<lambda>s. refusals32 s \<noteq> []" "code_succs32 fetch" mask32 max_insts
    "walk32 fetch probe max_insts" for fetch probe max_insts
proof (unfold_locales, goal_cases)
  case (3 q s s' new)
  then show ?case using visit32_insts by fastforce
next
  case (4 q s s' new)
  then show ?case using visit32_result(1) by metis
next
  case (5 q s s' new)
  then show ?case using visit32_result(3) [OF 5(1)] by auto
next
  case (6 q s s' new)
  then show ?case using visit32_result(2) by metis
qed (simp_all add: Let_def)

section \<open>What a liftable scan covers\<close>

definition scan_inv32 :: "(int \<Rightarrow> int) \<Rightarrow> probe \<Rightarrow> int \<Rightarrow> FunctionScan32 \<Rightarrow> bool" where
  "scan_inv32 fetch probe e s \<longleftrightarrow> entry32 s = e \<and> (refusals32 s = [] \<longrightarrow>
     (\<forall>(a, i) \<in> set (insts32 s). accepted32 fetch probe a i) \<and>
     exits32 s = filter (\<lambda>i. kind32 i \<in> set EXIT_KINDS32) (map snd (insts32 s)))"

lemma visit32_entry: "visit32 fetch probe at s = (s', new) \<Longrightarrow> entry32 s' = entry32 s"
  by (erule visit32_cases) (auto dest: follow32_result(2))

lemma visit32_inv:
  assumes "visit32 fetch probe q s = (s', new)" and "scan_inv32 fetch probe e s"
  shows "scan_inv32 fetch probe e s'"
proof (cases "refusals32 s' = []")
  case True
  then have "refusals32 s = []"
    using visit32_result(2) [OF assms(1)] by blast
  then show ?thesis
    using visit32_result(3) [OF assms(1) True] visit32_entry [OF assms(1)] assms(2) by (auto simp: scan_inv32_def)
qed (use visit32_entry [OF assms(1)] assms(2) in \<open>simp add: scan_inv32_def\<close>)

lemma walk32_inv: "scan_inv32 fetch probe e (fst (walk32 fetch probe n (new_scan32 e) w))"
proof (rule flat_walk.walk_preserves [where P = "scan_inv32 fetch probe e"])
  show "scan_inv32 fetch probe e (new_scan32 e)"
    by (simp add: scan_inv32_def new_scan32_def)
qed (rule visit32_inv)

text \<open>A liftable result is the walk's own, not cut short and within the byte budget.\<close>

lemma liftable32_walk:
  assumes "liftable32 (scan_function32 fetch e n b probe)"
  shows "walk32 fetch probe n (new_scan32 e) [e] = (scan_function32 fetch e n b probe, False)"
    "snd (region32 (scan_function32 fetch e n b probe)) - fst (region32 (scan_function32 fetch e n b probe)) \<le> int b"
proof -
  obtain s hit where W: "walk32 fetch probe n (new_scan32 e) [e] = (s, hit)" by fastforce
  obtain lo hi where R: "region32 s = (lo, hi)" by fastforce
  have "scan_function32 fetch e n b probe = s \<and> \<not> hit \<and> hi - lo \<le> int b"
    using assms W R by (auto simp: scan_function32_def Let_def liftable32_def split: if_splits)
  then show "walk32 fetch probe n (new_scan32 e) [e] = (scan_function32 fetch e n b probe, False)"
    "snd (region32 (scan_function32 fetch e n b probe)) - fst (region32 (scan_function32 fetch e n b probe)) \<le> int b"
    using W R by simp_all
qed

text \<open>
  C15: a liftable 32-bit scan has visited exactly the addresses reachable from the entry, each once and no
  more than the budget; every instruction of it is one the decoder accepts, supported, not HLT and of the
  length the probe measured; its exits are exactly the returns and indirect jumps among them; and the
  bytes it spans fit the byte budget.
\<close>

theorem liftable32_region_is_reachable_code:
  assumes "scan_function32 fetch e max_insts max_bytes probe = s" and "liftable32 s"
  shows "set (ips32 s) = reach (code_succs32 fetch) mask32 {e} \<and> distinct (ips32 s) \<and> length (ips32 s) \<le> max_insts
    \<and> (\<forall>(a, i) \<in> set (insts32 s). accepted32 fetch probe a i)
    \<and> exits32 s = filter (\<lambda>i. kind32 i \<in> set EXIT_KINDS32) (map snd (insts32 s))
    \<and> snd (region32 s) - fst (region32 s) \<le> int max_bytes"
proof -
  have W: "walk32 fetch probe max_insts (new_scan32 e) [e] = (s, False)" "snd (region32 s) - fst (region32 s) \<le> int max_bytes"
    using liftable32_walk assms by blast+
  have s: "fst (walk32 fetch probe max_insts (new_scan32 e) [e]) = s" "snd (walk32 fetch probe max_insts (new_scan32 e) [e]) = False"
    by (simp_all only: W fst_conv snd_conv)
  have nr: "refusals32 s = []"
    using assms(2) by (simp add: liftable32_def)
  have e0: "ips32 (new_scan32 e) = []"
    by (simp add: new_scan32_def)
  have "mask32 ` set [e] \<subseteq> set (ips32 s) \<and> closed_under (code_succs32 fetch) mask32 (set (ips32 s)) (set (ips32 s))"
    using flat_walk.walk_complete [where s = "new_scan32 e" and w = "[e]" and fetch = fetch and probe = probe and max_insts = max_insts,
      unfolded s e0] nr by (simp add: closed_under_def)
  then have "reach (code_succs32 fetch) mask32 {e} \<subseteq> set (ips32 s)"
    by (intro reach_least) simp_all
  moreover have "set (ips32 s) \<subseteq> reach (code_succs32 fetch) mask32 {e}"
    using flat_walk.walk_sound [where s = "new_scan32 e" and w = "[e]" and fetch = fetch and probe = probe and max_insts = max_insts
      and R = "reach (code_succs32 fetch) mask32 {e}", unfolded s e0] reach_start [of e "{e}"]
    by (simp add: closed_under_def reach_step)
  moreover have "distinct (ips32 s)" "length (ips32 s) \<le> max_insts"
    using flat_walk.walk_distinct [where s = "new_scan32 e" and w = "[e]" and fetch = fetch and probe = probe and max_insts = max_insts,
      unfolded s e0] flat_walk.walk_bound [where s = "new_scan32 e" and w = "[e]" and fetch = fetch and probe = probe
      and max_insts = max_insts, unfolded s e0] by simp_all
  moreover have "scan_inv32 fetch probe e s"
    using walk32_inv [of fetch probe e max_insts "[e]", unfolded s] .
  ultimately show ?thesis
    using W(2) nr unfolding scan_inv32_def by blast
qed

text \<open>\<open>jz +1; nop; ret\<close> again, at a flat address.\<close>

definition flat_code :: "int \<Rightarrow> int" where
  "flat_code a = (if a = 0x10000 then 0x74 else if a = 0x10001 then 0x01 else if a = 0x10002 then 0x90 else 0xC3)"

theorem liftable32_region_is_reachable_code_witness:
  "reach (code_succs32 flat_code) mask32 {0x10000} = {0x10000, 0x10002, 0x10003}"
proof -
  define s where "s = scan_function32 flat_code 0x10000 16 64 None"
  have l: "liftable32 s" and i: "ips32 s = [0x10000, 0x10003, 0x10002]"
    unfolding s_def by code_simp+
  show ?thesis
    using liftable32_region_is_reachable_code [OF s_def [symmetric] l] by (auto simp: i)
qed

end
