(* ===== verification/Dataflow.thy ===== *)
theory Dataflow
  imports Prelude
begin

text \<open>
  Iteration to a fixpoint, as the backward analyses of \<open>dos_re/lift\<close> do it: sweep over the nodes in a given
  order, update each node's set in place from the current sets, and start again while a set changed.
\<close>

section \<open>The loop\<close>

fun sweep :: "('n \<Rightarrow> ('n \<Rightarrow> 'f set) \<Rightarrow> 'f set) \<Rightarrow> 'n list \<Rightarrow> ('n \<Rightarrow> 'f set) \<Rightarrow> bool \<Rightarrow> ('n \<Rightarrow> 'f set) \<times> bool" where
  "sweep tr [] live changed = (live, changed)"
| "sweep tr (n # ns) live changed =
     (let new = tr n live in
      if new \<noteq> live n then sweep tr ns (live(n := new)) True else sweep tr ns live changed)"

partial_function (option) until_stable ::
    "('n \<Rightarrow> ('n \<Rightarrow> 'f set) \<Rightarrow> 'f set) \<Rightarrow> 'n list \<Rightarrow> ('n \<Rightarrow> 'f set) \<Rightarrow> ('n \<Rightarrow> 'f set) option" where
  "until_stable tr ns live =
     (case sweep tr ns live False of (live', changed) \<Rightarrow> if changed then until_stable tr ns live' else Some live')"

section \<open>The contract of a transfer function\<close>

locale dataflow =
  fixes tr :: "'n \<Rightarrow> ('n \<Rightarrow> 'f set) \<Rightarrow> 'f set"
    and nodes :: "'n list"
    and U :: "'f set"
    and start :: "'n \<Rightarrow> 'f set"
  assumes tr_mono: "n \<in> set nodes \<Longrightarrow> (\<And>m. A m \<subseteq> B m) \<Longrightarrow> tr n A \<subseteq> tr n B"
    and tr_bounded: "n \<in> set nodes \<Longrightarrow> (\<And>m. A m \<subseteq> U) \<Longrightarrow> tr n A \<subseteq> U"
    and finite_U: "finite U"
    and start_bounded: "start n \<subseteq> U"
    and start_grows: "n \<in> set nodes \<Longrightarrow> start n \<subseteq> tr n start"
begin

definition rising :: "('n \<Rightarrow> 'f set) \<Rightarrow> bool" where
  "rising live \<longleftrightarrow> (\<forall>n. live n \<subseteq> U) \<and> (\<forall>n \<in> set nodes. live n \<subseteq> tr n live)"

lemma rising_start: "rising start"
  using start_bounded start_grows by (simp add: rising_def)

lemma rising_update: "rising live \<Longrightarrow> n \<in> set nodes \<Longrightarrow> rising (live(n := tr n live))"
proof -
  assume r: "rising live" and n: "n \<in> set nodes"
  have up: "live m \<subseteq> (live(n := tr n live)) m" for m
    using r n by (simp add: rising_def)
  then have "tr m live \<subseteq> tr m (live(n := tr n live))" if "m \<in> set nodes" for m
    using tr_mono [OF that] by blast
  then show ?thesis
    using r n tr_bounded unfolding rising_def by (metis dual_order.trans fun_upd_apply)
qed

lemma sweep_changed: "sweep tr ns live True = (live', c') \<Longrightarrow> c'"
  by (induction ns arbitrary: live) (auto simp: Let_def split: if_splits)

lemma sweep_rises:
  "set ns \<subseteq> set nodes \<Longrightarrow> rising live \<Longrightarrow> sweep tr ns live c = (live', c') \<Longrightarrow>
   rising live' \<and> (\<forall>m. live m \<subseteq> live' m) \<and> (\<forall>m. m \<notin> set nodes \<longrightarrow> live' m = live m) \<and>
   (if c' \<and> \<not> c then \<exists>m \<in> set nodes. live m \<subset> live' m else c \<or> live' = live \<and> (\<forall>m \<in> set ns. tr m live = live m))"
proof (induction ns arbitrary: live c)
  case (Cons n ns)
  show ?case
  proof (cases "tr n live = live n")
    case True
    then show ?thesis
      using Cons.IH [of live c] Cons.prems by (auto simp: Let_def)
  next
    case False
    have r: "rising (live(n := tr n live))"
      using Cons.prems rising_update by simp
    have less: "live n \<subset> tr n live" and n: "n \<in> set nodes"
      using Cons.prems False by (auto simp: rising_def)
    have sw: "sweep tr ns (live(n := tr n live)) True = (live', c')"
      using Cons.prems(3) False by (simp add: Let_def)
    have IH: "rising live'" "\<And>m. (live(n := tr n live)) m \<subseteq> live' m" "\<And>m. m \<notin> set nodes \<Longrightarrow> live' m = (live(n := tr n live)) m"
      using Cons.IH [OF _ r sw] Cons.prems(1) by auto
    have le: "live m \<subseteq> live' m" for m
      using IH(2) [of m] less by (cases "m = n") auto
    have "live n \<subset> live' n"
      using IH(2) [of n] less by auto
    moreover have "c'"
      using sw by (auto dest: sweep_changed)
    ultimately show ?thesis
      using IH le n by auto
  qed
qed simp

text \<open>The room left above the sets of the nodes.\<close>

definition room :: "('n \<Rightarrow> 'f set) \<Rightarrow> nat" where
  "room live = (\<Sum>n \<in> set nodes. card (U - live n))"

lemma room_less:
  assumes "\<forall>m. live m \<subseteq> live' m" and "m \<in> set nodes" and "live m \<subset> live' m" and "\<forall>m. live' m \<subseteq> U"
  shows "room live' < room live"
  unfolding room_def
proof (rule sum_strict_mono_ex1)
  show "\<forall>m \<in> set nodes. card (U - live' m) \<le> card (U - live m)"
    using assms(1) finite_U by (auto intro!: card_mono)
  have "U - live' m \<subset> U - live m"
    using assms(3,4) by auto
  then show "\<exists>m \<in> set nodes. card (U - live' m) < card (U - live m)"
    using assms(2) finite_U by (auto intro!: bexI [OF _ assms(2)] psubset_card_mono)
qed simp

definition solution :: "('n \<Rightarrow> 'f set) \<Rightarrow> bool" where
  "solution M \<longleftrightarrow> (\<forall>n \<in> set nodes. tr n M \<subseteq> M n)"

lemma sweep_below:
  assumes "solution M"
  shows "set ns \<subseteq> set nodes \<Longrightarrow> live \<le> M \<Longrightarrow> sweep tr ns live c = (live', c') \<Longrightarrow> live' \<le> M"
proof (induction ns arbitrary: live c)
  case (Cons n ns)
  have n: "n \<in> set nodes" and ns: "set ns \<subseteq> set nodes"
    using Cons.prems(1) by simp_all
  have "tr n live \<subseteq> tr n M"
    by (rule tr_mono [OF n]) (use Cons.prems(2) in \<open>simp add: le_fun_def\<close>)
  also have "tr n M \<subseteq> M n"
    using assms n by (simp add: solution_def)
  finally have up: "live(n := tr n live) \<le> M"
    using Cons.prems(2) by (simp add: le_fun_def)
  show ?case
  proof (cases "tr n live = live n")
    case True
    then have "sweep tr ns live c = (live', c')"
      using Cons.prems(3) by (simp add: Let_def)
    then show ?thesis by (rule Cons.IH [OF ns Cons.prems(2)])
  next
    case False
    then have "sweep tr ns (live(n := tr n live)) True = (live', c')"
      using Cons.prems(3) by (simp add: Let_def)
    then show ?thesis by (rule Cons.IH [OF ns up])
  qed
qed simp

text \<open>The loop ends, at a fixpoint, and at the least one above the start.\<close>

definition fixpoint_from :: "('n \<Rightarrow> 'f set) \<Rightarrow> ('n \<Rightarrow> 'f set) \<Rightarrow> bool" where
  "fixpoint_from live L \<longleftrightarrow> (\<forall>n \<in> set nodes. tr n L = L n) \<and> (\<forall>m. m \<notin> set nodes \<longrightarrow> L m = live m)
     \<and> (\<forall>M. solution M \<longrightarrow> live \<le> M \<longrightarrow> L \<le> M)"

lemma fixpoint_fromD:
  assumes "fixpoint_from live L"
  shows "n \<in> set nodes \<Longrightarrow> tr n L = L n" "m \<notin> set nodes \<Longrightarrow> L m = live m" "solution M \<Longrightarrow> live \<le> M \<Longrightarrow> L \<le> M"
  using assms by (simp_all add: fixpoint_from_def)

lemma until_stable_from: "rising live \<Longrightarrow> \<exists>L. until_stable tr nodes live = Some L \<and> fixpoint_from live L"
proof (induction "room live" arbitrary: live rule: less_induct)
  case less
  obtain live' c where sw: "sweep tr nodes live False = (live', c)" by fastforce
  note S = sweep_rises [OF subset_refl less.prems sw]
  show ?case
  proof (cases c)
    case True
    then obtain m where m: "m \<in> set nodes" "live m \<subset> live' m"
      using S by auto
    have "room live' < room live"
      by (rule room_less [where m = m]) (use m S in \<open>simp_all add: rising_def\<close>)
    moreover have "rising live'"
      using S by blast
    ultimately obtain L where L: "until_stable tr nodes live' = Some L" "fixpoint_from live' L"
      using less.hyps by blast
    have "until_stable tr nodes live = Some L"
      using sw True L(1) by (subst until_stable.simps) simp
    moreover have "fixpoint_from live L"
      unfolding fixpoint_from_def
    proof (intro conjI ballI allI impI)
      show "tr n L = L n" if "n \<in> set nodes" for n
        using fixpoint_fromD(1) [OF L(2) that] .
      show "L m = live m" if "m \<notin> set nodes" for m
        using fixpoint_fromD(2) [OF L(2) that] S that by simp
      show "L \<le> M" if "solution M" "live \<le> M" for M
        using fixpoint_fromD(3) [OF L(2) that(1)] sweep_below [OF that(1) subset_refl that(2) sw] .
    qed
    ultimately show ?thesis by blast
  next
    case False
    then have S': "live' = live" "\<forall>m \<in> set nodes. tr m live = live m"
      using S by auto
    then have "until_stable tr nodes live = Some live"
      using sw False by (subst until_stable.simps) simp
    moreover have "fixpoint_from live live"
      using S'(2) by (simp add: fixpoint_from_def)
    ultimately show ?thesis by blast
  qed
qed

lemma sweep_above: "set ns \<subseteq> set nodes \<Longrightarrow> rising live \<Longrightarrow> sweep tr ns live c = (live', c') \<Longrightarrow> live m \<subseteq> live' m"
  using sweep_rises by blast

lemma until_stable_above_from: "rising live \<Longrightarrow> until_stable tr nodes live = Some L \<Longrightarrow> live m \<subseteq> L m"
proof (induction "room live" arbitrary: live rule: less_induct)
  case less
  obtain live' c where sw: "sweep tr nodes live False = (live', c)" by fastforce
  note S = sweep_rises [OF subset_refl less.prems(1) sw]
  show ?case
  proof (cases c)
    case True
    then obtain n where n: "n \<in> set nodes" "live n \<subset> live' n"
      using S by auto
    have "room live' < room live"
      by (rule room_less [where m = n]) (use n S in \<open>simp_all add: rising_def\<close>)
    moreover have "until_stable tr nodes live' = Some L"
      using less.prems(2) sw True by (subst (asm) until_stable.simps) simp
    moreover have "rising live'" "live m \<subseteq> live' m"
      using S by blast+
    ultimately show ?thesis
      using less.hyps by blast
  next
    case False
    then have "L = live'"
      using less.prems(2) sw by (subst (asm) until_stable.simps) simp
    then show ?thesis
      using S by blast
  qed
qed

lemma until_stable_above: "until_stable tr nodes start = Some L \<Longrightarrow> start m \<subseteq> L m"
  by (rule until_stable_above_from [OF rising_start])

lemma until_stable_fixpoint: "\<exists>L. until_stable tr nodes start = Some L \<and> fixpoint_from start L"
  by (rule until_stable_from [OF rising_start])

end

end
