(* ===== verification/Flag_Live.thy ===== *)
theory Flag_Live
  imports Cfg Dataflow
begin

text \<open>
  \<open>dos_re/lift/analyze.py\<close>: backward liveness of the status flags over the blocks of a scanned function,
  and the instructions whose flag results nothing can observe.  A flag is named by a constructor, a
  frozenset is a set.  A \<open>KeyError\<close> and a loop that runs forever are \<open>None\<close>.
\<close>

section \<open>What an instruction does to the flags\<close>

datatype flag = F_CF | F_PF | F_AF | F_ZF | F_SF | F_OF | F_DF | F_IF

definition ALL_FLAGS :: "flag set" where
  "ALL_FLAGS = {F_CF, F_PF, F_AF, F_ZF, F_SF, F_OF, F_DF, F_IF}"

definition ADDSUB6 :: "flag set" where "ADDSUB6 = {F_CF, F_PF, F_AF, F_ZF, F_SF, F_OF}"
definition LOGIC5 :: "flag set" where "LOGIC5 = {F_CF, F_PF, F_ZF, F_SF, F_OF}"
definition INCDEC5 :: "flag set" where "INCDEC5 = {F_PF, F_AF, F_ZF, F_SF, F_OF}"

definition CC_READS :: "int \<Rightarrow> flag set" where
  "CC_READS = (\<lambda>_. {})(0x0 := {F_OF}, 0x2 := {F_CF}, 0x4 := {F_ZF}, 0x6 := {F_CF, F_ZF}, 0x8 := {F_SF}, 0xA := {F_PF},
     0xC := {F_SF, F_OF}, 0xE := {F_SF, F_OF, F_ZF})"

definition jcc_reads :: "Inst \<Rightarrow> flag set" where
  "jcc_reads i = (let op = inst_op i in
     if 0x70 \<le> op \<and> op \<le> 0x7F then CC_READS ((op - 0x70) AND 0xE)
     else if op = 0xE0 \<or> op = 0xE1 then {F_ZF}
     else if op = 0xE2 \<or> op = 0xE3 then {} else ALL_FLAGS)"

text \<open>What is read, what is certainly overwritten, and whether the state escapes.\<close>

definition flag_effects :: "Inst \<Rightarrow> flag set \<times> flag set \<times> bool" where
  "flag_effects i =
     (let op = inst_op i; kind = inst_kind i;
          group_fx = (\<lambda>g. (if g = Some 2 \<or> g = Some 3 then {F_CF} else {},
            if g = Some 1 \<or> g = Some 4 \<or> g = Some 6 then LOGIC5 else ADDSUB6, False)) in
      if kind \<in> {CALL, CALL_FAR, CALL_IND, INT_N} then (ALL_FLAGS, {}, True)
      else if kind = JCC then (jcc_reads i, {}, False)
      else if kind \<noteq> SEQ then (ALL_FLAGS, {}, True)
      else if op < 0x40 \<and> op AND 7 \<le> 5 then group_fx (Some (drop_bit 3 op AND 7))
      else if op = 0xF8 \<or> op = 0xF9 then ({}, {F_CF}, False)
      else if op = 0xF5 then ({F_CF}, {F_CF}, False)
      else if op = 0xFC \<or> op = 0xFD then ({}, {F_DF}, False)
      else if op = 0xFA \<or> op = 0xFB then ({}, {F_IF}, False)
      else if op \<in> {0x80, 0x81, 0x82, 0x83} then group_fx (inst_reg i)
      else if op \<in> {0x84, 0x85, 0xA8, 0xA9} then ({}, LOGIC5, False)
      else if 0x40 \<le> op \<and> op \<le> 0x4F then ({}, INCDEC5, False)
      else if (op = 0xFE \<or> op = 0xFF) \<and> (inst_reg i = Some 0 \<or> inst_reg i = Some 1) then ({}, INCDEC5, False)
      else if op \<in> {0x88, 0x89, 0x8A, 0x8B, 0x8C, 0x8E, 0xA0, 0xA1, 0xA2, 0xA3, 0xC6, 0xC7} \<or> 0xB0 \<le> op \<and> op \<le> 0xBF
        then ({}, {}, False)
      else if op \<in> {0x86, 0x87} \<or> 0x90 \<le> op \<and> op \<le> 0x97 then ({}, {}, False)
      else if op \<in> {0x8D, 0xC4, 0xC5} then ({}, {}, False)
      else if 0x50 \<le> op \<and> op \<le> 0x5F \<or> op \<in> {0x06, 0x0E, 0x16, 0x1E, 0x07, 0x17, 0x1F, 0x68, 0x6A, 0x8F} then ({}, {}, False)
      else if op \<in> {0x98, 0x99, 0xD7} then ({}, {}, False)
      else (ALL_FLAGS, {}, False))"

abbreviation flag_reads :: "Inst \<Rightarrow> flag set" where "flag_reads i \<equiv> fst (flag_effects i)"
abbreviation flag_kills :: "Inst \<Rightarrow> flag set" where "flag_kills i \<equiv> fst (snd (flag_effects i))"
abbreviation flag_seam :: "Inst \<Rightarrow> bool" where "flag_seam i \<equiv> snd (snd (flag_effects i))"

section \<open>Blocks\<close>

definition FALLS_THROUGH :: "kind list" where
  "FALLS_THROUGH = [SEQ, CALL, CALL_FAR, CALL_IND, INT_N]"

partial_function (option) block_body :: "FunctionScan \<Rightarrow> int list \<Rightarrow> int \<Rightarrow> Inst list option" where
  "block_body s leaders p =
     (case inst_at s p of None \<Rightarrow> None
      | Some i \<Rightarrow>
          (if inst_kind i \<notin> set FALLS_THROUGH then Some [i]
           else if next_ip i \<in> set leaders \<or> inst_at s (next_ip i) = None then Some [i]
           else Option.bind (block_body s leaders (next_ip i)) (\<lambda>b. Some (i # b))))"

definition block_succs :: "int list \<Rightarrow> Inst \<Rightarrow> int list" where
  "block_succs leaders t =
     (let next_leader = (if next_ip t \<in> set leaders then [next_ip t] else []);
          target = (case inst_target t of Some a \<Rightarrow> (if a \<in> set leaders then [a] else []) | None \<Rightarrow> []) in
      if inst_kind t = JCC then target @ next_leader
      else if inst_kind t = JMP then target
      else if inst_kind t \<in> set EXIT_KINDS then [] else next_leader)"

section \<open>Liveness\<close>

definition block_live_out :: "int list \<Rightarrow> Inst \<Rightarrow> (int \<Rightarrow> flag set) \<Rightarrow> flag set" where
  "block_live_out leaders t live_in =
     (if inst_kind t \<in> set EXIT_KINDS \<or> block_succs leaders t = [] then ALL_FLAGS
      else (\<Union>a \<in> set (block_succs leaders t). live_in a))"

definition live_before :: "Inst \<Rightarrow> flag set \<Rightarrow> flag set" where
  "live_before i live = (if flag_seam i then ALL_FLAGS else live - flag_kills i \<union> flag_reads i)"

definition block_live_in :: "int list \<Rightarrow> (int \<Rightarrow> Inst list) \<Rightarrow> int \<Rightarrow> (int \<Rightarrow> flag set) \<Rightarrow> flag set" where
  "block_live_in leaders blocks l live_in = foldr live_before (blocks l) (block_live_out leaders (last (blocks l)) live_in)"

text \<open>The walk back over a block with the dead sites found so far.\<close>

definition note_dead :: "Inst \<Rightarrow> flag set \<times> int set \<Rightarrow> flag set \<times> int set" where
  "note_dead i = (\<lambda>(live, dead). (live_before i live,
     if flag_kills i \<noteq> {} \<and> flag_kills i \<inter> live = {} then insert (inst_ip i) dead else dead))"

definition dead_flag_sites :: "FunctionScan \<Rightarrow> int set option" where
  "dead_flag_sites s =
     (let leaders = block_leaders s in
      Option.bind (those (map (block_body s leaders) leaders)) (\<lambda>bodies.
        let blocks = (\<lambda>l. the (map_of (zip leaders bodies) l)) in
        map_option (\<lambda>live_in.
          \<Union>l \<in> set leaders. snd (foldr note_dead (blocks l) (block_live_out leaders (last (blocks l)) live_in, {})))
          (until_stable (block_live_in leaders blocks) leaders (\<lambda>_. {}))))"

section \<open>Observed flags\<close>

text \<open>
  A flag is observed at an address if some path from there reads it, or lets the state escape, before it is
  overwritten.
\<close>

inductive observed :: "FunctionScan \<Rightarrow> flag \<Rightarrow> int \<Rightarrow> bool" for s f where
  escapes: "inst_at s p = None \<Longrightarrow> observed s f p"
| reads: "inst_at s p = Some i \<Longrightarrow> f \<in> flag_reads i \<or> flag_seam i \<Longrightarrow> observed s f p"
| passes: "inst_at s p = Some i \<Longrightarrow> f \<notin> flag_kills i \<Longrightarrow> t \<in> set (inst_succs i) \<Longrightarrow> observed s f t \<Longrightarrow> observed s f p"

inductive_cases observedE: "observed s f p"

definition observed_at :: "FunctionScan \<Rightarrow> int \<Rightarrow> flag set" where
  "observed_at s p = {f. observed s f p}"

section \<open>The region of a liftable scan\<close>

text \<open>What the analysis needs of the scan: offsets as keys, successors inside, every address covered from the leaders.\<close>

definition closed_code :: "FunctionScan \<Rightarrow> bool" where
  "closed_code s \<longleftrightarrow> distinct (inst_ips s) \<and>
     (\<forall>(a, i) \<in> set (insts s). inst_ip i = a \<and> inst_kind i \<noteq> HLT \<and> inst_kind i \<noteq> UNSUPPORTED \<and>
        (inst_kind i = JCC \<longrightarrow> inst_target i \<noteq> None) \<and> set (inst_succs i) \<subseteq> set (inst_ips s))"

lemma closed_codeD:
  assumes "closed_code s" and "inst_at s p = Some i"
  shows "inst_ip i = p" "inst_kind i \<noteq> HLT" "inst_kind i \<noteq> UNSUPPORTED" "inst_kind i = JCC \<Longrightarrow> inst_target i \<noteq> None"
    "t \<in> set (inst_succs i) \<Longrightarrow> t \<in> set (inst_ips s)" "p \<in> set (inst_ips s)"
proof -
  note m = map_of_SomeD [OF assms(2)]
  show "p \<in> set (inst_ips s)"
    using m by force
  show "inst_ip i = p" "inst_kind i \<noteq> HLT" "inst_kind i \<noteq> UNSUPPORTED" "inst_kind i = JCC \<Longrightarrow> inst_target i \<noteq> None"
    "t \<in> set (inst_succs i) \<Longrightarrow> t \<in> set (inst_ips s)"
    using assms(1) m by (auto simp: closed_code_def)
qed

lemma known_at: "p \<in> set (inst_ips s) \<longleftrightarrow> inst_at s p \<noteq> None"
  by (metis list.set_map map_of_eq_None_iff)

lemma leaders_known: "l \<in> set (block_leaders s) \<Longrightarrow> l \<in> set (inst_ips s)"
  by (simp only: block_leaders_def set_sort set_remdups set_filter mem_Collect_eq)

lemma jump_target_leads:
  assumes "closed_code s" and "inst_at s p = Some i" and "inst_kind i = JCC \<or> inst_kind i = JMP" and "t \<in> set (inst_succs i)"
  shows "t \<in> set (block_leaders s)"
proof -
  have "t \<in> set (leader_candidates i)"
    using assms(3,4) closed_codeD(4) [OF assms(1,2)]
    by (auto simp: inst_succs_def leader_candidates_def split: option.splits if_splits)
  moreover have "(p, i) \<in> set (insts s)"
    by (rule map_of_SomeD [OF assms(2)])
  ultimately show ?thesis
    using closed_codeD(5) [OF assms(1,2,4)]
    by (auto simp only: block_leaders_def set_sort set_remdups set_filter mem_Collect_eq set_append set_simps set_concat set_map UN_iff
      split_conv intro!: UnI2 bexI [of _ "(p, i)"])
qed

lemma falls_succs: "inst_kind i \<in> set FALLS_THROUGH \<Longrightarrow> inst_succs i = [next_ip i]"
  by (auto simp: FALLS_THROUGH_def inst_succs_def)

lemma kind_split:
  "inst_kind i \<in> set FALLS_THROUGH \<or> inst_kind i = JCC \<or> inst_kind i = JMP \<or> inst_kind i \<in> set EXIT_KINDS \<or> inst_kind i = HLT \<or> inst_kind i = UNSUPPORTED"
  by (cases "inst_kind i") (simp_all add: FALLS_THROUGH_def EXIT_KINDS_def)

text \<open>Everything but sequential code and conditional jumps is a seam.\<close>

lemma flag_seam_iff: "flag_seam i \<longleftrightarrow> inst_kind i \<noteq> SEQ \<and> inst_kind i \<noteq> JCC"
proof -
  have "inst_kind i = SEQ \<Longrightarrow> flag_seam i = False"
    by (simp only: flag_effects_def Let_def if_distrib [of snd] snd_conv kind.distinct if_False if_True simp_thms insert_iff empty_iff
      if_cancel)
  then show ?thesis
    by (cases "inst_kind i") (simp_all add: flag_effects_def Let_def)
qed

lemma seam_reads_all: "flag_seam i \<Longrightarrow> flag_reads i = ALL_FLAGS"
  by (cases "inst_kind i") (simp_all add: flag_seam_iff, simp_all add: flag_effects_def)

lemma killer_is_seq: "flag_kills i \<noteq> {} \<Longrightarrow> inst_kind i = SEQ"
  by (cases "inst_kind i") (simp_all add: flag_effects_def)

lemma ALL_FLAGS_UNIV: "ALL_FLAGS = UNIV"
proof -
  have "f \<in> ALL_FLAGS" for f by (cases f) (simp_all add: ALL_FLAGS_def)
  then show ?thesis by blast
qed

section \<open>Observation, one instruction at a time\<close>

lemma observed_local:
  assumes "closed_code s" and "inst_at s p = Some i"
  shows "observed_at s p = live_before i (\<Union>t \<in> set (inst_succs i). observed_at s t)"
proof (rule set_eqI)
  fix f
  show "f \<in> observed_at s p \<longleftrightarrow> f \<in> live_before i (\<Union>t \<in> set (inst_succs i). observed_at s t)"
  proof
    assume "f \<in> observed_at s p"
    then have "observed s f p" by (simp add: observed_at_def)
    then show "f \<in> live_before i (\<Union>t \<in> set (inst_succs i). observed_at s t)"
      by (cases rule: observed.cases) (use assms(2) in \<open>auto simp: live_before_def observed_at_def ALL_FLAGS_UNIV\<close>)
  next
    assume "f \<in> live_before i (\<Union>t \<in> set (inst_succs i). observed_at s t)"
    then show "f \<in> observed_at s p"
      using assms(2) by (auto simp: live_before_def observed_at_def intro: observed.reads observed.passes split: if_splits)
  qed
qed

lemma live_before_mono: "A \<subseteq> B \<Longrightarrow> live_before i A \<subseteq> live_before i B"
  by (auto simp: live_before_def)

lemma foldr_live_mono: "A \<subseteq> B \<Longrightarrow> foldr live_before b A \<subseteq> foldr live_before b B"
  by (induction b) (simp_all add: live_before_mono)

text \<open>A block: consecutive instructions, stopped only by a transfer or before a leader.\<close>

fun block_from :: "FunctionScan \<Rightarrow> int list \<Rightarrow> int \<Rightarrow> Inst list \<Rightarrow> bool" where
  "block_from s leaders p [] \<longleftrightarrow> False"
| "block_from s leaders p [i] \<longleftrightarrow> inst_at s p = Some i \<and>
     (inst_kind i \<in> set FALLS_THROUGH \<longrightarrow> next_ip i \<in> set leaders \<or> inst_at s (next_ip i) = None)"
| "block_from s leaders p (i # j # b) \<longleftrightarrow> inst_at s p = Some i \<and> inst_kind i \<in> set FALLS_THROUGH \<and>
     block_from s leaders (next_ip i) (j # b)"

lemma block_from_Cons: "block_from s ls p (i # b) \<longleftrightarrow> inst_at s p = Some i \<and>
    (if b = [] then inst_kind i \<in> set FALLS_THROUGH \<longrightarrow> next_ip i \<in> set ls \<or> inst_at s (next_ip i) = None
     else inst_kind i \<in> set FALLS_THROUGH \<and> block_from s ls (next_ip i) b)"
  by (cases b) simp_all

lemma block_body_from: "block_body s ls p = Some b \<Longrightarrow> block_from s ls p b"
proof (induction rule: block_body.raw_induct [rotated, consumes 1, case_names 1])
  case (1 rec s ls p b)
  then obtain i where i: "inst_at s p = Some i"
    by (cases "inst_at s p") auto
  consider "inst_kind i \<notin> set FALLS_THROUGH" | "next_ip i \<in> set ls \<or> inst_at s (next_ip i) = None"
    | "inst_kind i \<in> set FALLS_THROUGH" "\<not> (next_ip i \<in> set ls \<or> inst_at s (next_ip i) = None)"
    by metis
  then show ?case
  proof cases
    case 3
    then obtain c where c: "rec s ls (next_ip i) = Some c" "b = i # c"
      using "1.hyps" i by (cases "rec s ls (next_ip i)") auto
    have "block_from s ls (next_ip i) c"
      by (rule "1.IH" [OF c(1)])
    then show ?thesis
      using i c 3 by (cases c) (simp_all add: block_from_Cons)
  qed (use "1.hyps" i in \<open>auto simp: block_from_Cons split: if_splits\<close>)
qed

lemma block_body_returns: "inst_at s ((fall s ^^ k) p) = None \<Longrightarrow> inst_at s p \<noteq> None \<Longrightarrow> block_body s ls p \<noteq> None"
proof (induction k arbitrary: p)
  case (Suc k)
  then obtain i where i: "inst_at s p = Some i" by blast
  have "inst_at s ((fall s ^^ k) (next_ip i)) = None"
    using Suc.prems(1) by (simp only: fall_step [OF i])
  then have "inst_at s (next_ip i) \<noteq> None \<Longrightarrow> block_body s ls (next_ip i) \<noteq> None"
    by (rule Suc.IH)
  then show ?case
    using i by (subst block_body.simps) auto
qed simp

text \<open>What is live behind the last instruction of a block.\<close>

lemma block_out_succs:
  assumes "closed_code s" and "inst_at s p = Some i" and "block_from s (block_leaders s) p [i]" and "\<not> flag_seam i"
  shows "block_succs (block_leaders s) i \<noteq> []" "set (block_succs (block_leaders s) i) = set (inst_succs i)"
    "inst_kind i \<notin> set EXIT_KINDS"
proof -
  consider "inst_kind i = SEQ" | "inst_kind i = JCC"
    using assms(4) flag_seam_iff by blast
  then have "block_succs (block_leaders s) i \<noteq> [] \<and> set (block_succs (block_leaders s) i) = set (inst_succs i)
    \<and> inst_kind i \<notin> set EXIT_KINDS"
  proof cases
    case 1
    then have n: "inst_succs i = [next_ip i]"
      by (simp add: inst_succs_def)
    then have "inst_at s (next_ip i) \<noteq> None"
      using closed_codeD(5) [OF assms(1,2), of "next_ip i"] known_at by simp
    then have "next_ip i \<in> set (block_leaders s)"
      using assms(3) 1 by (auto simp: FALLS_THROUGH_def)
    then show ?thesis
      using 1 n by (simp add: block_succs_def Let_def EXIT_KINDS_def)
  next
    case 2
    obtain t where t: "inst_target i = Some t"
      using closed_codeD(4) [OF assms(1,2) 2] by blast
    have n: "inst_succs i = [t, next_ip i]"
      using 2 t by (simp add: inst_succs_def)
    have "t \<in> set (block_leaders s)" "next_ip i \<in> set (block_leaders s)"
      using jump_target_leads [OF assms(1,2)] 2 n by simp_all
    then show ?thesis
      using 2 n t by (simp add: block_succs_def Let_def EXIT_KINDS_def)
  qed
  then show "block_succs (block_leaders s) i \<noteq> []" "set (block_succs (block_leaders s) i) = set (inst_succs i)"
    "inst_kind i \<notin> set EXIT_KINDS"
    by blast+
qed

lemma block_succs_leaders: "t \<in> set (block_succs ls i) \<Longrightarrow> t \<in> set ls"
  by (auto simp: block_succs_def Let_def split: if_splits option.splits)

lemma block_out:
  assumes "closed_code s" and "inst_at s p = Some i" and "block_from s (block_leaders s) p [i]"
  shows "live_before i (block_live_out (block_leaders s) i M) = live_before i (\<Union>t \<in> set (inst_succs i). M t)"
proof (cases "flag_seam i")
  case False
  then show ?thesis
    using block_out_succs [OF assms False] by (simp add: block_live_out_def)
qed (simp add: live_before_def)

text \<open>The analysis of a block computes what is observed.\<close>

lemma block_observed:
  assumes "closed_code s"
  shows "block_from s (block_leaders s) p b \<Longrightarrow>
    foldr live_before b (block_live_out (block_leaders s) (last b) (observed_at s)) = observed_at s p"
proof (induction b arbitrary: p)
  case (Cons i b)
  then have i: "inst_at s p = Some i"
    by (simp add: block_from_Cons)
  show ?case
  proof (cases b)
    case Nil
    then show ?thesis
      using block_out [OF assms i] Cons.prems observed_local [OF assms i] by simp
  next
    case (Cons j c)
    then have n: "inst_succs i = [next_ip i]" and "block_from s (block_leaders s) (next_ip i) b"
      using Cons.prems falls_succs by simp_all
    then have "foldr live_before b (block_live_out (block_leaders s) (last b) (observed_at s)) = observed_at s (next_ip i)"
      using Cons.IH by blast
    then show ?thesis
      using Cons observed_local [OF assms i] n by simp
  qed
qed simp

text \<open>A solution at the leaders covers what is observed inside the blocks.\<close>

definition solves :: "FunctionScan \<Rightarrow> (int \<Rightarrow> Inst list) \<Rightarrow> (int \<Rightarrow> flag set) \<Rightarrow> bool" where
  "solves s blocks L \<longleftrightarrow> (\<forall>l \<in> set (block_leaders s). block_from s (block_leaders s) l (blocks l) \<and>
     block_live_in (block_leaders s) blocks l L = L l)"

lemma observed_covered:
  assumes "closed_code s" and "solves s blocks L" and "observed s f p"
  shows "block_from s (block_leaders s) p b \<Longrightarrow> f \<in> foldr live_before b (block_live_out (block_leaders s) (last b) L)"
  using assms(3)
proof (induction arbitrary: b rule: observed.induct)
  case (escapes p)
  then show ?case by (cases b) (simp_all add: block_from_Cons)
next
  case (reads p i)
  then obtain c where "b = i # c"
    by (cases b) (simp_all add: block_from_Cons)
  then show ?case
    using reads by (auto simp: live_before_def ALL_FLAGS_UNIV)
next
  case (passes p i t)
  then obtain c where b: "b = i # c"
    by (cases b) (simp_all add: block_from_Cons)
  have i: "inst_at s p = Some i"
    by (rule passes.hyps(1))
  have pass: "f \<in> live_before i X" if "f \<in> X" for X
    using that passes.hyps(2) by (simp add: live_before_def ALL_FLAGS_UNIV)
  show ?case
  proof (cases "c = []")
    case False
    then have f: "inst_kind i \<in> set FALLS_THROUGH" "block_from s (block_leaders s) (next_ip i) c"
      using passes.prems by (simp_all add: b block_from_Cons)
    then have "t = next_ip i"
      using passes.hyps(3) falls_succs by simp
    then have "f \<in> foldr live_before c (block_live_out (block_leaders s) (last c) L)"
      using passes.IH f(2) by blast
    then show ?thesis
      using pass False by (simp add: b)
  next
    case True
    note bl = passes.prems [unfolded b True]
    show ?thesis
    proof (cases "flag_seam i")
      case seam: False
      have "t \<in> set (block_succs (block_leaders s) i)"
        using block_out_succs(2) [OF assms(1) i bl seam] passes.hyps(3) by simp
      then have "t \<in> set (block_leaders s)"
        by (rule block_succs_leaders)
      then have "f \<in> L t"
        using assms(2) passes.IH [of "blocks t"] unfolding solves_def block_live_in_def by blast
      then have "f \<in> (\<Union>t \<in> set (inst_succs i). L t)"
        using passes.hyps(3) by blast
      then show ?thesis
        using pass block_out [OF assms(1) i bl, of L] by (simp add: b True)
    qed (simp add: b True live_before_def ALL_FLAGS_UNIV)
  qed
qed

section \<open>The fixpoint\<close>

lemma live_out_mono: "(\<And>m. A m \<subseteq> B m) \<Longrightarrow> block_live_out ls i A \<subseteq> block_live_out ls i B"
  by (auto simp: block_live_out_def)

interpretation flag_flow: dataflow "block_live_in leaders blocks" leaders UNIV "\<lambda>_. {}" for leaders blocks
proof unfold_locales
  have "finite ALL_FLAGS"
    by (simp add: ALL_FLAGS_def)
  then show "finite (UNIV :: flag set)"
    by (simp add: ALL_FLAGS_UNIV)
qed (simp_all add: block_live_in_def foldr_live_mono live_out_mono)

text \<open>The least solution is what is observed.\<close>

lemma flow_exact:
  assumes "closed_code s" and "\<forall>l \<in> set (block_leaders s). block_from s (block_leaders s) l (blocks l)"
    and "until_stable (block_live_in (block_leaders s) blocks) (block_leaders s) (\<lambda>_. {}) = Some L"
  shows "solves s blocks L" "L l \<subseteq> observed_at s l"
proof -
  obtain L' where "until_stable (block_live_in (block_leaders s) blocks) (block_leaders s) (\<lambda>_. {}) = Some L'"
      and F: "flag_flow.fixpoint_from (block_leaders s) blocks (\<lambda>_. {}) L'"
    using flag_flow.until_stable_fixpoint by blast
  then have L: "L' = L"
    using assms(3) by simp
  note F = F [unfolded L]
  show "solves s blocks L"
    using assms(2) flag_flow.fixpoint_fromD(1) [OF F] by (simp add: solves_def)
  have "flag_flow.solution (block_leaders s) blocks (observed_at s)"
    unfolding flag_flow.solution_def block_live_in_def using block_observed [OF assms(1)] assms(2) by blast
  then show "L l \<subseteq> observed_at s l"
    using flag_flow.fixpoint_fromD(3) [OF F] by (simp add: le_fun_def)
qed

lemma suffix_exact:
  assumes "closed_code s" and "solves s blocks L" and "\<And>l. L l \<subseteq> observed_at s l" and "block_from s (block_leaders s) p b"
  shows "foldr live_before b (block_live_out (block_leaders s) (last b) L) = observed_at s p"
proof
  show "foldr live_before b (block_live_out (block_leaders s) (last b) L) \<subseteq> observed_at s p"
    using foldr_live_mono [OF live_out_mono [of L "observed_at s", OF assms(3)]] block_observed [OF assms(1,4)] by metis
  show "observed_at s p \<subseteq> foldr live_before b (block_live_out (block_leaders s) (last b) L)"
    using observed_covered [OF assms(1,2) _ assms(4)] by (auto simp: observed_at_def)
qed

section \<open>The sites\<close>

lemma note_dead_live: "fst (foldr note_dead b (X, {})) = foldr live_before b X"
  by (induction b) (simp_all add: note_dead_def case_prod_beta)

lemma note_dead_sites: "p \<in> snd (foldr note_dead b (X, {})) \<longleftrightarrow>
    (\<exists>pre i c. b = pre @ i # c \<and> inst_ip i = p \<and> flag_kills i \<noteq> {} \<and> flag_kills i \<inter> foldr live_before c X = {})"
proof (induction b)
  case (Cons j b)
  have "p \<in> snd (foldr note_dead (j # b) (X, {})) \<longleftrightarrow>
      inst_ip j = p \<and> flag_kills j \<noteq> {} \<and> flag_kills j \<inter> foldr live_before b X = {} \<or> p \<in> snd (foldr note_dead b (X, {}))"
    using note_dead_live [of b X] by (auto simp: note_dead_def case_prod_beta)
  moreover have "(\<exists>pre i c. j # b = pre @ i # c \<and> Q i c) \<longleftrightarrow> Q j b \<or> (\<exists>pre i c. b = pre @ i # c \<and> Q i c)" for Q
    by (auto simp: Cons_eq_append_conv)
  ultimately show ?case
    using Cons.IH by presburger
qed simp

lemma block_from_suffix: "block_from s ls p (pre @ b) \<Longrightarrow> b \<noteq> [] \<Longrightarrow> \<exists>q. block_from s ls q b"
  by (induction pre arbitrary: p) (auto simp: block_from_Cons)

lemma last_suffix: "b \<noteq> [] \<Longrightarrow> last (pre @ b) = last b"
  by simp

text \<open>Behind an instruction that overwrites flags, the analysis has exactly what is observed at its successor.\<close>

lemma behind_exact:
  assumes "closed_code s" and "solves s blocks L" and "\<And>l. L l \<subseteq> observed_at s l"
    and "block_from s (block_leaders s) p (i # c)" and "inst_kind i = SEQ"
  shows "foldr live_before c (block_live_out (block_leaders s) (last (i # c)) L) = (\<Union>t \<in> set (inst_succs i). observed_at s t)"
proof (cases "c = []")
  case False
  then have "block_from s (block_leaders s) (next_ip i) c"
    using assms(4) by (simp add: block_from_Cons)
  then show ?thesis
    using suffix_exact [OF assms(1-3)] False assms(5) by (simp add: inst_succs_def)
next
  case True
  have i: "inst_at s p = Some i" and seam: "\<not> flag_seam i"
    using assms(4,5) by (simp_all add: block_from_Cons flag_seam_iff)
  note bl = assms(4) [unfolded True]
  note B = block_out_succs [OF assms(1) i bl seam]
  have "L t = observed_at s t" if "t \<in> set (inst_succs i)" for t
  proof -
    have "t \<in> set (block_leaders s)"
      using B(2) that block_succs_leaders by metis
    then show ?thesis
      using assms(2) suffix_exact [OF assms(1-3), of t "blocks t"] unfolding solves_def block_live_in_def by simp
  qed
  then show ?thesis
    using B True by (simp add: block_live_out_def)
qed

text \<open>Every instruction lies in the block of a leader.\<close>

definition all_covered :: "FunctionScan \<Rightarrow> (int \<Rightarrow> Inst list) \<Rightarrow> bool" where
  "all_covered s blocks \<longleftrightarrow> (\<forall>p \<in> set (inst_ips s). \<exists>l \<in> set (block_leaders s). \<exists>pre b. blocks l = pre @ b \<and> block_from s (block_leaders s) p b)"

lemma sites_exact:
  assumes "closed_code s" and "solves s blocks L" and "\<And>l. L l \<subseteq> observed_at s l" and "all_covered s blocks"
  shows "(\<Union>l \<in> set (block_leaders s). snd (foldr note_dead (blocks l) (block_live_out (block_leaders s) (last (blocks l)) L, {})))
    = {p. \<exists>i. inst_at s p = Some i \<and> flag_kills i \<noteq> {} \<and> (\<forall>f \<in> flag_kills i. \<forall>t \<in> set (inst_succs i). \<not> observed s f t)}"
    (is "?D = ?E")
proof (rule set_eqI)
  fix p
  show "p \<in> ?D \<longleftrightarrow> p \<in> ?E"
  proof
    assume "p \<in> ?D"
    then have "\<exists>l \<in> set (block_leaders s). \<exists>pre i c. blocks l = pre @ i # c \<and> inst_ip i = p \<and> flag_kills i \<noteq> {} \<and>
        flag_kills i \<inter> foldr live_before c (block_live_out (block_leaders s) (last (blocks l)) L) = {}"
      by (simp only: UN_iff note_dead_sites)
    then obtain l pre i c where l: "l \<in> set (block_leaders s)" and b: "blocks l = pre @ i # c" and p: "inst_ip i = p"
        and k: "flag_kills i \<noteq> {}" "flag_kills i \<inter> foldr live_before c (block_live_out (block_leaders s) (last (blocks l)) L) = {}"
      by blast
    have "block_from s (block_leaders s) l (pre @ i # c)"
      using assms(2) l b unfolding solves_def by metis
    then obtain q where q: "block_from s (block_leaders s) q (i # c)"
      using block_from_suffix by blast
    then have i: "inst_at s q = Some i"
      by (simp add: block_from_Cons)
    have "inst_kind i = SEQ"
      by (rule killer_is_seq [OF k(1)])
    then have "flag_kills i \<inter> (\<Union>t \<in> set (inst_succs i). observed_at s t) = {}"
      using k(2) behind_exact [OF assms(1-3) q] by (simp add: b)
    then show "p \<in> ?E"
      using i closed_codeD(1) [OF assms(1) i] k(1) p by (auto simp: observed_at_def)
  next
    assume "p \<in> ?E"
    then obtain i where i: "inst_at s p = Some i" and k: "flag_kills i \<noteq> {}"
        and dead: "\<forall>f \<in> flag_kills i. \<forall>t \<in> set (inst_succs i). \<not> observed s f t"
      by blast
    obtain l pre b where l: "l \<in> set (block_leaders s)" and bl: "blocks l = pre @ b" and b: "block_from s (block_leaders s) p b"
      using assms(4) closed_codeD(6) [OF assms(1) i] unfolding all_covered_def by blast
    then obtain c where c: "b = i # c"
      using i by (cases b) (auto simp: block_from_Cons)
    have "foldr live_before c (block_live_out (block_leaders s) (last (blocks l)) L) = (\<Union>t \<in> set (inst_succs i). observed_at s t)"
      using behind_exact [OF assms(1-3) _ killer_is_seq [OF k]] b by (simp add: bl c)
    then have "flag_kills i \<inter> foldr live_before c (block_live_out (block_leaders s) (last (blocks l)) L) = {}"
      using dead by (auto simp: observed_at_def)
    then have "\<exists>pre i c. blocks l = pre @ i # c \<and> inst_ip i = p \<and> flag_kills i \<noteq> {} \<and>
        flag_kills i \<inter> foldr live_before c (block_live_out (block_leaders s) (last (blocks l)) L) = {}"
      using k closed_codeD(1) [OF assms(1) i] bl c by blast
    then show "p \<in> ?D"
      using l by (simp only: UN_iff note_dead_sites) blast
  qed
qed

section \<open>What a scan provides\<close>

lemma resolve_target_word: "inst_target (resolve fetch k n i) = Some t \<Longrightarrow> inst_target i = None \<Longrightarrow> canon16 t = t"
  by (auto simp: resolve_def Let_def split: if_splits)

lemma resolve_jcc: "inst_kind i = JCC \<Longrightarrow> inst_target (resolve fetch k n i) \<noteq> None"
  by (simp add: resolve_def)

lemma decode_one_shape:
  "(\<exists>k n i. decode_one fetch a = resolve fetch k n i \<and> inst_target i = None) \<or>
   inst_target (decode_one fetch a) = None \<and> inst_kind (decode_one fetch a) = UNSUPPORTED"
proof (cases "scan_prefixes MAX_LEN fetch a")
  case (Some r)
  obtain ps pos where "r = (ps, pos)" by fastforce
  note S = Some [unfolded this]
  show ?thesis
  proof (cases "opcode_entry (fetch pos AND 0xFF)")
    case (Some e)
    obtain hm im k0 m0 where "e = (hm, im, k0, m0)"
      by (cases e)
    note E = Some [unfolded this]
    have "\<exists>k n i. decode_one fetch a = resolve fetch k n i \<and> inst_target i = None"
      unfolding decode_one_def Let_def S E option.case prod.case by (intro exI conjI, rule refl) simp
    then show ?thesis by blast
  qed (simp add: decode_one_def Let_def S)
qed (simp add: decode_one_def Let_def)

lemma scanned_target: "inst_target (decode_one fetch a) = Some t \<Longrightarrow> canon16 t = t"
  using decode_one_shape [of fetch a] resolve_target_word by (metis option.discI)

lemma decode_one_jcc: "inst_kind (decode_one fetch a) = JCC \<Longrightarrow> inst_target (decode_one fetch a) \<noteq> None"
  using decode_one_shape [of fetch a] resolve_jcc by (metis kind.distinct resolve_simps(4))

lemma succs_are: "t \<in> set (inst_succs i) \<Longrightarrow> t = next_ip i \<or> inst_target i = Some t"
  by (cases "inst_kind i"; cases "inst_target i") (auto simp: inst_succs_def)

lemma succs_words: "t \<in> set (code_succs fetch a) \<Longrightarrow> canon16 t = t"
  unfolding code_succs_def using succs_are scanned_target by (fastforce simp: next_ip_def)

text \<open>The manufactured returns are 16-bit.\<close>

abbreviation return_words :: "FunctionScan \<Rightarrow> bool" where
  "return_words s \<equiv> \<forall>t \<in> set (manufactured_returns s). canon16 t = t"

lemma note_return_words:
  "note_return leaders x (s, fresh) = Some (s2, fresh2) \<Longrightarrow> return_words s \<Longrightarrow> return_words s2"
  by (auto simp: note_return_def split: prod.splits if_splits bind_splits option.splits dest: manufactured_return_word)

lemma find_returns_words:
  assumes "find_returns s = Some (s2, fresh)" and "return_words s"
  shows "return_words s2"
proof -
  have none: "fold (\<lambda>x acc. Option.bind acc (note_return leaders x)) xs None = None" for leaders xs
    by (induction xs) simp_all
  have "fold (\<lambda>x acc. Option.bind acc (note_return leaders x)) xs (Some (s1, f)) = Some (s2, fresh) \<Longrightarrow> return_words s1 \<Longrightarrow> return_words s2"
    for leaders xs s1 f
  proof (induction xs arbitrary: s1 f)
    case (Cons x xs)
    then obtain s' f' where n: "note_return leaders x (s1, f) = Some (s', f')"
      using none [of leaders xs] by (cases "note_return leaders x (s1, f)") auto
    then show ?case
      using Cons note_return_words [OF n] by simp
  qed simp
  then show ?thesis
    using assms unfolding find_returns_def by (auto split: bind_splits)
qed

lemma scan_rounds_words: "scan_rounds fetch probe n s w = Some r \<Longrightarrow> return_words s \<Longrightarrow> return_words (fst r)"
proof (induction rule: scan_rounds.raw_induct [rotated, consumes 1, case_names 1])
  case (1 rec fetch probe n s w r)
  obtain s' hit where W: "walk fetch probe n s w = (s', hit)" by fastforce
  have w: "return_words s'"
    using walk_fields [of fetch probe n s w] "1.prems" unfolding W fst_conv by metis
  show ?case
  proof (cases hit)
    case False
    obtain s2 fresh where N: "find_returns s' = Some (s2, fresh)"
      using "1.hyps" W False by (cases "find_returns s'") auto
    have "return_words s2"
      by (rule find_returns_words [OF N w])
    then show ?thesis
      using "1.IH" "1.hyps" W False N by (cases "fresh = []") auto
  qed (use "1.hyps" W w in auto)
qed

lemma scan_shape:
  assumes "scan_function fetch e n b probe heads = Some s" and "liftable s"
  obtains s0 hit where "scan_rounds fetch probe n (new_scan e) [e] = Some (s0, hit)" "insts s = insts s0"
    "scan_entry s = e" "manufactured_returns s = manufactured_returns s0"
proof -
  obtain s0 hit where R: "scan_rounds fetch probe n (new_scan e) [e] = Some (s0, hit)"
      and s: "s = check_stores (check_region b (remdups heads) hit s0)"
    using assms(1) by (auto simp: scan_function_def)
  have r: "refusals (check_stores (check_region b (remdups heads) hit s0)) = []"
    using assms(2) s by (simp add: liftable_def)
  note S = check_stores_refusals [OF r]
  note C = check_region_refusals [OF S(1)]
  have "scan_entry s0 = e"
    using scan_rounds_inv [OF R round_inv_start] by (simp add: new_scan_def)
  moreover have "scan_entry (check_stores x) = scan_entry x" for x
    by (simp add: check_stores_def Let_def split: option.splits)
  ultimately show ?thesis
    using that [OF R] S(2-4) C(4-8) s by simp
qed

lemma liftable_closed:
  assumes "scan_function fetch e n b probe heads = Some s" and "liftable s"
  shows "closed_code s" "(a, i) \<in> set (insts s) \<Longrightarrow> i = decode_one fetch a" "a \<in> set (inst_ips s) \<Longrightarrow> canon16 a = a"
proof -
  note F = liftable_facts [OF assms]
  have acc: "\<forall>(a, i) \<in> set (insts s). accepted fetch probe a i"
    using F by blast
  then show dec: "(a, i) \<in> set (insts s) \<Longrightarrow> i = decode_one fetch a" for a i
    by (auto simp: accepted_def)
  have R: "set (inst_ips s) = reach (code_succs fetch) canon16 (insert e (set (manufactured_returns s)))"
    using F by blast
  show "a \<in> set (inst_ips s) \<Longrightarrow> canon16 a = a"
  proof -
    have "reach (code_succs fetch) canon16 W \<subseteq> {a. canon16 a = a}" for W
      by (rule reach_least) (auto simp: closed_under_def)
    then show "a \<in> set (inst_ips s) \<Longrightarrow> canon16 a = a"
      unfolding R by blast
  qed
  have step: "t \<in> set (inst_ips s)" if "(a, i) \<in> set (insts s)" "t \<in> set (inst_succs i)" for a i t
  proof -
    have t: "t \<in> set (code_succs fetch a)"
      using dec [OF that(1)] that(2) by (simp add: code_succs_def)
    have "a \<in> set (inst_ips s)"
      using that(1) by force
    then show ?thesis
      using reach_step [where succs = "code_succs fetch" and t = t and q = a and canon = canon16] t succs_words [OF t] unfolding R by metis
  qed
  show "closed_code s"
    unfolding closed_code_def
  proof (intro conjI ballI)
    show "distinct (inst_ips s)"
      using F by blast
    fix x
    assume x: "x \<in> set (insts s)"
    obtain a i where ai: "x = (a, i)" by fastforce
    have "inst_kind i \<noteq> HLT" "inst_kind i \<noteq> UNSUPPORTED"
      using bspec [OF acc x] by (auto simp: ai accepted_def)
    then show "case x of (a, i) \<Rightarrow> inst_ip i = a \<and> inst_kind i \<noteq> HLT \<and> inst_kind i \<noteq> UNSUPPORTED \<and>
        (inst_kind i = JCC \<longrightarrow> inst_target i \<noteq> None) \<and> set (inst_succs i) \<subseteq> set (inst_ips s)"
      using step [of a i] dec [of a i] x decode_one_ip decode_one_jcc by (auto simp: ai)
  qed
qed

lemma liftable_covered:
  assumes "scan_function fetch e n b probe heads = Some s" and "liftable s" and "canon16 e = e"
    and bl: "\<forall>l \<in> set (block_leaders s). block_from s (block_leaders s) l (blocks l)"
  shows "all_covered s blocks"
proof -
  let ?R = "{p. \<exists>l \<in> set (block_leaders s). \<exists>pre b. blocks l = pre @ b \<and> block_from s (block_leaders s) p b}"
  obtain s0 hit where R: "scan_rounds fetch probe n (new_scan e) [e] = Some (s0, hit)" and s: "insts s = insts s0"
      "scan_entry s = e" "manufactured_returns s = manufactured_returns s0"
    using scan_shape [OF assms(1,2)] .
  have w: "return_words s"
    using scan_rounds_words [OF R] s(3) by (simp add: new_scan_def)
  note C = liftable_closed [OF assms(1,2)]
  have reach: "set (inst_ips s) = reach (code_succs fetch) canon16 (insert e (set (manufactured_returns s)))"
    using liftable_facts [OF assms(1,2)] by blast
  have lead: "l \<in> ?R" if "l \<in> set (block_leaders s)" for l
    using that bl by (metis (mono_tags, lifting) append_Nil mem_Collect_eq)
  have "reach (code_succs fetch) canon16 (insert e (set (manufactured_returns s))) \<subseteq> ?R"
  proof (rule reach_least)
    show "canon16 ` insert e (set (manufactured_returns s)) \<subseteq> ?R"
    proof (rule image_subsetI)
      fix a
      assume a: "a \<in> insert e (set (manufactured_returns s))"
      then have c: "canon16 a = a"
        using w assms(3) by auto
      then have "a \<in> set (inst_ips s)"
        using reach_start [OF a, of canon16] unfolding reach by simp
      then have "a \<in> set (block_leaders s)"
        using a s(2) by (auto simp only: block_leaders_def set_sort set_remdups set_filter mem_Collect_eq set_append set_simps)
      then show "canon16 a \<in> ?R"
        using lead c by simp
    qed
    show "closed_under (code_succs fetch) canon16 ?R ?R"
      unfolding closed_under_def
    proof (intro ballI)
      fix q t
      assume q: "q \<in> ?R" and t: "t \<in> set (code_succs fetch q)"
      obtain l pre c where l: "l \<in> set (block_leaders s)" "blocks l = pre @ c" "block_from s (block_leaders s) q c"
        using q by blast
      then obtain i d where c: "c = i # d" and i: "inst_at s q = Some i"
        by (cases c) (auto simp: block_from_Cons)
      have m: "(q, i) \<in> set (insts s)"
        by (rule map_of_SomeD [OF i])
      have ts: "t \<in> set (inst_succs i)"
        using C(2) [OF m] t by (simp add: code_succs_def)
      have ct: "canon16 t = t"
        by (rule succs_words [OF t])
      consider "inst_kind i \<in> set FALLS_THROUGH" | "inst_kind i = JCC \<or> inst_kind i = JMP"
        using ts kind_split [of i] closed_codeD(2,3) [OF C(1) i] exit_no_succs [of i] by fastforce
      then have "t \<in> ?R"
      proof cases
        case 1
        then have n: "t = next_ip i"
          using ts falls_succs by simp
        show ?thesis
        proof (cases "d = []")
          case True
          have "inst_at s t \<noteq> None"
            using closed_codeD(5) [OF C(1) i ts] known_at by simp
          then have "t \<in> set (block_leaders s)"
            using l(3) 1 n True unfolding c by (auto simp: block_from_Cons)
          then show ?thesis by (rule lead)
        next
          case False
          then have "block_from s (block_leaders s) t d"
            using l(3) n unfolding c by (simp add: block_from_Cons)
          moreover have "blocks l = (pre @ [i]) @ d"
            using l(2) c by simp
          ultimately show ?thesis
            using l(1) by blast
        qed
      next
        case 2
        show ?thesis
          by (rule lead [OF jump_target_leads [OF C(1) i 2 ts]])
      qed
      then show "canon16 t \<in> ?R"
        using ct by simp
    qed
  qed
  then show ?thesis
    unfolding all_covered_def reach by blast
qed

lemma liftable_blocks:
  assumes "scan_function fetch e n b probe heads = Some s" and "liftable s"
    and "\<forall>a. canon16 a = a \<longrightarrow> inst_length (decode_one fetch a) \<le> 15" and "n \<le> 4096"
  shows "\<exists>bs. those (map (block_body s (block_leaders s)) (block_leaders s)) = Some bs"
proof -
  note C = liftable_closed [OF assms(1,2)]
  have "short_code s"
    unfolding short_code_def
  proof (intro exI conjI)
    show "int (length (insts s)) * 15 < 65536"
      using liftable_facts [OF assms(1,2)] assms(4) by auto
    show "\<forall>(a, i) \<in> set (insts s). canon16 a = a \<and> inst_ip i = a \<and> 1 \<le> inst_length i \<and> inst_length i \<le> 15"
    proof (rule ballI, clarify)
      fix a i
      assume e: "(a, i) \<in> set (insts s)"
      then have "canon16 a = a"
        by (intro C(3)) force
      then show "canon16 a = a \<and> inst_ip i = a \<and> 1 \<le> inst_length i \<and> inst_length i \<le> 15"
        using C(2) [OF e] decode_one_ip decode_one_pos assms(3) by simp
    qed
  qed
  then have "block_body s (block_leaders s) l \<noteq> None" if "l \<in> set (block_leaders s)" for l
    using chain_leaves block_body_returns leaders_known [OF that] known_at by metis
  then have "set ls \<subseteq> set (block_leaders s) \<Longrightarrow> \<exists>bs. those (map (block_body s (block_leaders s)) ls) = Some bs" for ls
    by (induction ls) (auto split: option.splits)
  then show ?thesis by blast
qed

lemma those_at: "those (map f xs) = Some ys \<Longrightarrow> x \<in> set xs \<Longrightarrow> \<exists>y. map_of (zip xs ys) x = Some y \<and> f x = Some y"
  by (induction xs arbitrary: ys) (auto split: option.splits)

text \<open>
  C9: the flag analysis returns on every liftable scan within the instruction budget of 4096, of code whose
  instructions decode to at most fifteen bytes, and finds exactly the instructions whose flag results
  cannot be observed: those that overwrite some flags and from whose successors no path reads one of
  them, or lets the machine state escape, before overwriting it.
\<close>

theorem dead_flag_sites_exact:
  assumes "scan_function fetch e max_insts max_bytes probe heads = Some s" and "liftable s" and "canon16 e = e"
    and "\<forall>a. canon16 a = a \<longrightarrow> inst_length (decode_one fetch a) \<le> 15" and "max_insts \<le> 4096"
  shows "dead_flag_sites s = Some {p. \<exists>i. inst_at s p = Some i \<and> flag_kills i \<noteq> {} \<and>
    (\<forall>f \<in> flag_kills i. \<forall>t \<in> set (inst_succs i). \<not> observed s f t)}"
proof -
  let ?ls = "block_leaders s"
  obtain bs where B: "those (map (block_body s ?ls) ?ls) = Some bs"
    using liftable_blocks [OF assms(1,2,4,5)] by blast
  define blocks where "blocks = (\<lambda>l. the (map_of (zip ?ls bs) l))"
  have bl: "\<forall>l \<in> set ?ls. block_from s ?ls l (blocks l)"
    using those_at [OF B] block_body_from unfolding blocks_def by fastforce
  obtain L where L: "until_stable (block_live_in ?ls blocks) ?ls (\<lambda>_. {}) = Some L"
    using flag_flow.until_stable_fixpoint by blast
  note closed = liftable_closed(1) [OF assms(1,2)]
  note E = flow_exact [OF closed bl L]
  have "dead_flag_sites s = Some (\<Union>l \<in> set ?ls. snd (foldr note_dead (blocks l) (block_live_out ?ls (last (blocks l)) L, {})))"
    using B L by (simp add: dead_flag_sites_def blocks_def Let_def)
  then show ?thesis
    using sites_exact [OF closed E liftable_covered [OF assms(1-3) bl]] by simp
qed

section \<open>A small function\<close>

text \<open>Code without prefix bytes has short instructions.\<close>

lemma plain_code_short:
  assumes "\<forall>a. fetch a AND 0xFF \<notin> set PREFIXES" and "canon16 a = a"
  shows "inst_length (decode_one fetch a) \<le> 15"
proof -
  have u: "u16 a"
    using assms(2) by (metis canon16_def u16_mask)
  have none: "length ps = 0" if "scan_prefixes MAX_LEN fetch a = Some (ps, q)" for ps q
  proof -
    have "scan_prefixes MAX_LEN fetch a = Some ([], a)"
      using assms(1) by (simp add: MAX_LEN_def numeral_eq_Suc)
    then show ?thesis
      using that by simp
  qed
  show ?thesis
  proof (cases fetch rule: decode_one_cases [OF u])
    case (3 ps e)
    have "operand_length fetch (off_at a (length ps + 1)) e \<le> 5"
      by (rule operand_length_le [OF opcode_entry_ok [OF 3(3)]])
    then show ?thesis
      using none [OF 3(1)] 3(4) by simp
  qed simp_all
qed

text \<open>\<open>add bx, ax; cmp ax, cx; ret\<close>.\<close>

definition sum_code :: "int \<Rightarrow> int" where
  "sum_code a = (if a = 0x100 then 0x01 else if a = 0x101 then 0xC3 else if a = 0x102 then 0x39 else if a = 0x103 then 0xC8 else 0xC3)"

definition sum_scan :: FunctionScan where
  "sum_scan = fst (walk sum_code None 16 (new_scan 0x100) [0x100])"

lemma sum_at:
  "map_option (\<lambda>i. (next_ip i, inst_kind i, flag_effects i = ({}, ADDSUB6, False))) (inst_at sum_scan 0x100) = Some (0x102, SEQ, True)"
  "map_option (\<lambda>i. (next_ip i, inst_kind i, flag_effects i = ({}, ADDSUB6, False))) (inst_at sum_scan 0x102) = Some (0x104, SEQ, True)"
  "map_option (\<lambda>i. (next_ip i, inst_kind i)) (inst_at sum_scan 0x104) = Some (0x105, RET)"
  by code_simp+

lemma sum_scanned: "scan_function sum_code 0x100 16 4096 None [] = Some sum_scan"
proof -
  have W: "walk sum_code None 16 (new_scan 0x100) [0x100] = (sum_scan, False)"
    by code_simp
  have "list_all (\<lambda>(a, i). inst_kind i \<noteq> JMP_IND) (insts sum_scan)"
    by code_simp
  moreover have "block_leaders sum_scan = [0x100]"
    by code_simp
  then have "leader_of sum_scan [] = Some (Map.empty(0x100 \<mapsto> 0x100, 0x102 \<mapsto> 0x100, 0x104 \<mapsto> 0x100))"
    using sum_at by (auto simp: leader_of_def block_walk.simps)
  ultimately have "find_returns sum_scan = Some (sum_scan, [])"
    by (intro no_returns) (auto simp: list_all_iff)
  moreover have "check_stores (check_region 4096 [] False sum_scan) = sum_scan"
    by code_simp
  ultimately show ?thesis
    using W by (simp add: scan_function_def scan_rounds.simps)
qed

theorem dead_flag_sites_exact_witness:
  "\<exists>D. dead_flag_sites sum_scan = Some D \<and> 0x100 \<in> D \<and> 0x102 \<notin> D"
proof -
  have l: "liftable sum_scan" and c: "canon16 0x100 = 0x100"
    by code_simp+
  have short: "\<forall>a. canon16 a = a \<longrightarrow> inst_length (decode_one sum_code a) \<le> 15"
    by (intro allI impI plain_code_short) (simp_all add: sum_code_def PREFIXES_def)
  obtain i j k where at: "inst_at sum_scan 0x100 = Some i" "inst_at sum_scan 0x102 = Some j" "inst_at sum_scan 0x104 = Some k"
      and nx: "next_ip i = 0x102" "next_ip j = 0x104" and kind: "inst_kind i = SEQ" "inst_kind j = SEQ" "inst_kind k = RET"
      and fx: "flag_effects i = ({}, ADDSUB6, False)" "flag_effects j = ({}, ADDSUB6, False)"
    using sum_at by auto
  have "\<not> observed sum_scan f 0x102" if "f \<in> ADDSUB6" for f
    using at(2) fx(2) that by (auto elim: observedE)
  then have dead: "\<exists>i. inst_at sum_scan 0x100 = Some i \<and> flag_kills i \<noteq> {} \<and>
      (\<forall>f \<in> flag_kills i. \<forall>t \<in> set (inst_succs i). \<not> observed sum_scan f t)"
    using at(1) nx(1) kind(1) fx(1) by (simp add: inst_succs_def ADDSUB6_def)
  have "observed sum_scan F_CF 0x104"
    using at(3) kind(3) flag_seam_iff by (auto intro: observed.reads)
  then have "\<not> (\<exists>i. inst_at sum_scan 0x102 = Some i \<and> flag_kills i \<noteq> {} \<and>
      (\<forall>f \<in> flag_kills i. \<forall>t \<in> set (inst_succs i). \<not> observed sum_scan f t))"
    using at(2) nx(2) kind(2) fx(2) by (auto simp: inst_succs_def ADDSUB6_def)
  then show ?thesis
    using dead dead_flag_sites_exact [OF sum_scanned l c short] by simp
qed

end
