(* ===== verification/Flag_Model.thy ===== *)
theory Flag_Model
  imports Flag_Live CPU_Alu
begin

text \<open>
  The flag analysis of \<open>lift/analyze.py\<close> against the interpreter \<open>cpu.py\<close>: what it says an instruction reads
  and overwrites is what the interpreter's flag arithmetic does.
\<close>

section \<open>Flags by name and by bit\<close>

fun flag_pos :: "flag \<Rightarrow> nat" where
  "flag_pos F_CF = 0" | "flag_pos F_PF = 2" | "flag_pos F_AF = 4" | "flag_pos F_ZF = 6" | "flag_pos F_SF = 7"
| "flag_pos F_IF = 9" | "flag_pos F_DF = 10" | "flag_pos F_OF = 11"

definition flags_agree :: "flag set \<Rightarrow> int \<Rightarrow> int \<Rightarrow> bool" where
  "flags_agree R f f' \<longleftrightarrow> (\<forall>k \<in> R. bit f (flag_pos k) = bit f' (flag_pos k))"

text \<open>The new flags word has the killed flags from the operands alone and the others from the old one.\<close>

definition overwrites :: "flag set \<Rightarrow> (int \<Rightarrow> int) \<Rightarrow> int \<Rightarrow> int \<Rightarrow> bool" where
  "overwrites K F f f' \<longleftrightarrow> (\<forall>k. bit (F f) (flag_pos k) = (if k \<in> K then bit (F f') (flag_pos k) else bit f (flag_pos k)))"

lemma overwritesI: "(\<And>k. k \<in> K \<Longrightarrow> bit (F f) (flag_pos k) = bit (F f') (flag_pos k)) \<Longrightarrow>
    (\<And>k. k \<notin> K \<Longrightarrow> bit (F f) (flag_pos k) = bit f (flag_pos k)) \<Longrightarrow> overwrites K F f f'"
  by (simp add: overwrites_def)

lemma overwrites_eval: "overwrites K G f f' \<Longrightarrow> F f = G f \<Longrightarrow> F f' = G f' \<Longrightarrow> overwrites K F f f'"
  by (simp add: overwrites_def)

lemma add_overwrites: "overwrites ADDSUB6 (add_flags a b r n c) f f'"
proof (rule overwritesI)
  fix k
  show "k \<in> ADDSUB6 \<Longrightarrow> bit (add_flags a b r n c f) (flag_pos k) = bit (add_flags a b r n c f') (flag_pos k)"
    "k \<notin> ADDSUB6 \<Longrightarrow> bit (add_flags a b r n c f) (flag_pos k) = bit f (flag_pos k)"
    by (cases k; simp add: ADDSUB6_def add_flags_bits)+
qed

lemma sub_overwrites: "overwrites ADDSUB6 (sub_flags a b r n c) f f'"
proof (rule overwritesI)
  fix k
  show "k \<in> ADDSUB6 \<Longrightarrow> bit (sub_flags a b r n c f) (flag_pos k) = bit (sub_flags a b r n c f') (flag_pos k)"
    "k \<notin> ADDSUB6 \<Longrightarrow> bit (sub_flags a b r n c f) (flag_pos k) = bit f (flag_pos k)"
    by (cases k; simp add: ADDSUB6_def sub_flags_bits)+
qed

lemma logic_overwrites: "overwrites LOGIC5 (logic_flags r n) f f'"
proof (rule overwritesI)
  fix k
  show "k \<in> LOGIC5 \<Longrightarrow> bit (logic_flags r n f) (flag_pos k) = bit (logic_flags r n f') (flag_pos k)"
    "k \<notin> LOGIC5 \<Longrightarrow> bit (logic_flags r n f) (flag_pos k) = bit f (flag_pos k)"
    by (cases k; simp add: LOGIC5_def logic_flags_bits)+
qed

lemma incdec_overwrites: "overwrites INCDEC5 (incdec_flags old r n dec) f f'"
proof (rule overwritesI)
  fix k
  show "k \<in> INCDEC5 \<Longrightarrow> bit (incdec_flags old r n dec f) (flag_pos k) = bit (incdec_flags old r n dec f') (flag_pos k)"
    "k \<notin> INCDEC5 \<Longrightarrow> bit (incdec_flags old r n dec f) (flag_pos k) = bit f (flag_pos k)"
    by (cases k; simp add: INCDEC5_def incdec_flags_bits)+
qed

section \<open>The instruction families\<close>

definition alu_group :: "Inst \<Rightarrow> int option" where
  "alu_group i = (if inst_op i < 0x40 \<and> inst_op i AND 7 \<le> 5 then Some (drop_bit 3 (inst_op i) AND 7)
     else if inst_op i \<in> {0x80, 0x81, 0x82, 0x83} then inst_reg i else None)"

definition is_test :: "Inst \<Rightarrow> bool" where
  "is_test i \<longleftrightarrow> inst_op i \<in> {0x84, 0x85, 0xA8, 0xA9}"

definition is_incdec :: "Inst \<Rightarrow> bool" where
  "is_incdec i \<longleftrightarrow> 0x40 \<le> inst_op i \<and> inst_op i \<le> 0x4F \<or> (inst_op i = 0xFE \<or> inst_op i = 0xFF) \<and> (inst_reg i = Some 0 \<or> inst_reg i = Some 1)"

lemma alu_group_fx:
  assumes "inst_kind i = SEQ" and "alu_group i = Some g"
  shows "flag_effects i = (if g = 2 \<or> g = 3 then {F_CF} else {}, if g = 1 \<or> g = 4 \<or> g = 6 then LOGIC5 else ADDSUB6, False)"
proof (cases "inst_op i < 0x40 \<and> inst_op i AND 7 \<le> 5")
  case True
  then have "g = drop_bit 3 (inst_op i) AND 7"
    using assms(2) by (simp add: alu_group_def)
  then show ?thesis
    using True assms(1) by (simp add: flag_effects_def Let_def)
next
  case False
  then have "inst_op i = 0x80 \<or> inst_op i = 0x81 \<or> inst_op i = 0x82 \<or> inst_op i = 0x83" "inst_reg i = Some g"
    using assms(2) by (auto simp: alu_group_def split: if_splits)
  then show ?thesis
    using assms(1) by (elim disjE) (simp_all add: flag_effects_def Let_def)
qed

lemma test_fx: "inst_kind i = SEQ \<Longrightarrow> is_test i \<Longrightarrow> flag_effects i = ({}, LOGIC5, False)"
  unfolding is_test_def by (elim insertE emptyE) (simp_all add: flag_effects_def Let_def)

lemma incdec_fx: "inst_kind i = SEQ \<Longrightarrow> is_incdec i \<Longrightarrow> flag_effects i = ({}, INCDEC5, False)"
  unfolding is_incdec_def by (elim disjE conjE) (simp_all add: flag_effects_def Let_def)

lemma alu_word_overwrites:
  assumes "(if g = 2 \<or> g = 3 then bit f 0 = bit f' 0 else True)"
  shows "fst (alu_word g a b n f) = fst (alu_word g a b n f') \<and>
    overwrites (if g = 1 \<or> g = 4 \<or> g = 6 then LOGIC5 else ADDSUB6) (\<lambda>f. snd (alu_word g a b n f)) f f'"
proof -
  have c: "carry_in f = carry_in f'" if "g = 2 \<or> g = 3"
    using assms that by (auto simp: carry_in_bit)
  have r: "fst (alu_word g a b n f) = fst (alu_word g a b n f')"
    using c by (auto simp: alu_word_def Let_def)
  consider "g = 0" | "g = 2" | "g = 3" | "g = 1" | "g = 4" | "g = 6" | "g \<notin> {0, 1, 2, 3, 4, 6}"
    by blast
  then have "overwrites (if g = 1 \<or> g = 4 \<or> g = 6 then LOGIC5 else ADDSUB6) (\<lambda>f. snd (alu_word g a b n f)) f f'"
  proof cases
    case 1
    then show ?thesis
      using overwrites_eval [OF add_overwrites [of a b "a + b" n 0]] by (simp add: alu_word_def)
  next
    case 2
    then show ?thesis
      using overwrites_eval [OF add_overwrites [of a b "a + b + carry_in f" n "carry_in f"]] c by (simp add: alu_word_def Let_def)
  next
    case 3
    then show ?thesis
      using overwrites_eval [OF sub_overwrites [of a b "a - b - carry_in f" n "carry_in f"]] c by (simp add: alu_word_def Let_def)
  next
    case 7
    then show ?thesis
      using overwrites_eval [OF sub_overwrites [of a b "a - b" n 0]] by (simp add: alu_word_def)
  qed (simp_all add: alu_word_def overwrites_eval [OF logic_overwrites])
  then show ?thesis
    using r by blast
qed

text \<open>\<open>cond\<close> reads the flags its nibble names.\<close>

lemma cond_reads:
  assumes "flags_agree (CC_READS (n AND 0xE)) f f'" and "0 \<le> n" and "n \<le> 15"
  shows "condition_word n f = condition_word n f'"
proof -
  have "n \<in> {0, 1, 2, 3, 4, 5, 6, 7, 8, 9, 10, 11, 12, 13, 14, 15}"
    using assms(2,3) by (simp only: insert_iff empty_iff) presburger
  then show ?thesis
    using assms(1) by (elim insertE emptyE) (simp_all add: CC_READS_def flags_agree_def condition_word_def condition_tests Let_def)
qed

text \<open>
  C14: what the analysis says of the flags holds on the interpreter.  If two flags words agree on the flags an
  instruction is said to read, a conditional jump is decided alike; the arithmetic groups, TEST and
  INC/DEC give the same result, the flags said to be overwritten come out the same whatever they were,
  and every other flag keeps its value.
\<close>

theorem flag_effects_match_interpreter:
  assumes "flags_agree (flag_reads i) f f'"
  shows "(inst_kind i = JCC \<and> 0x70 \<le> inst_op i \<and> inst_op i \<le> 0x7F \<longrightarrow>
      condition_word (inst_op i - 0x70) f = condition_word (inst_op i - 0x70) f')
    \<and> (inst_kind i = SEQ \<and> alu_group i = Some g \<longrightarrow> fst (alu_word g a b n f) = fst (alu_word g a b n f')
         \<and> overwrites (flag_kills i) (\<lambda>f. snd (alu_word g a b n f)) f f')
    \<and> (inst_kind i = SEQ \<and> is_test i \<longrightarrow> overwrites (flag_kills i) (logic_flags r n) f f')
    \<and> (inst_kind i = SEQ \<and> is_incdec i \<longrightarrow> overwrites (flag_kills i) (incdec_flags old r n dec) f f')"
proof (intro conjI impI)
  assume j: "inst_kind i = JCC \<and> 0x70 \<le> inst_op i \<and> inst_op i \<le> 0x7F"
  then have "flag_reads i = CC_READS ((inst_op i - 0x70) AND 0xE)"
    by (simp add: flag_effects_def jcc_reads_def Let_def)
  then show "condition_word (inst_op i - 0x70) f = condition_word (inst_op i - 0x70) f'"
    using assms j by (intro cond_reads) auto
next
  assume "inst_kind i = SEQ \<and> alu_group i = Some g"
  then have fx: "flag_effects i = (if g = 2 \<or> g = 3 then {F_CF} else {}, if g = 1 \<or> g = 4 \<or> g = 6 then LOGIC5 else ADDSUB6, False)"
    using alu_group_fx by blast
  have "if g = 2 \<or> g = 3 then bit f 0 = bit f' 0 else True"
    using assms unfolding fx by (auto simp: flags_agree_def split: if_splits)
  note A = alu_word_overwrites [OF this, of a b n]
  show "fst (alu_word g a b n f) = fst (alu_word g a b n f')"
    "overwrites (flag_kills i) (\<lambda>f. snd (alu_word g a b n f)) f f'"
    unfolding fx fst_conv snd_conv using A by blast+
qed (simp_all add: test_fx incdec_fx logic_overwrites incdec_overwrites)

text \<open>\<open>adc ax, bx\<close> with the carry set in both words: the old overflow flag has no influence.\<close>

theorem flag_effects_match_interpreter_witness:
  "overwrites ADDSUB6 (\<lambda>f. snd (alu_word 2 0xFFFF 1 16 f)) 0x803 3"
proof -
  define i where "i = decode_one (\<lambda>a. if a = 0 then 0x11 else 0xD8) 0"
  have f: "inst_kind i = SEQ" "alu_group i = Some 2" "flag_effects i = ({F_CF}, ADDSUB6, False)"
    unfolding i_def by code_simp+
  have "flags_agree (flag_reads i) 0x803 3"
    by (simp add: f(3) flags_agree_def)
  from flag_effects_match_interpreter [OF this] show ?thesis
    using f by simp
qed

end
