(* ===== verification/Abi_Scan.thy ===== *)
theory Abi_Scan
  imports Cfg Dataflow "HOL-Library.AList"
begin

text \<open>
  \<open>dos_re/lift/cpuless.py\<close>, second half: the register contract of a scanned function from its instructions'
  effects, by backward liveness, and its stack use.  The optional dictionaries of composed callees are
  maps, empty when absent; \<open>slots\<close> gives the kind of an instruction's patched slot.
\<close>

section \<open>The effects at each site\<close>

record call_contracts =
  slots :: "int \<Rightarrow> slot_kind option"
  callee_effects :: "int \<Rightarrow> (areg set \<times> areg set) option"
  far_callee_effects :: "int \<times> int \<Rightarrow> (areg set \<times> areg set) option"
  plat_farcalls :: "int \<times> int \<Rightarrow> int option"
  far_dyn_effects :: "int \<Rightarrow> int option"

definition no_contracts :: call_contracts where
  "no_contracts = \<lparr>slots = \<lambda>_. None, callee_effects = Map.empty, far_callee_effects = Map.empty, plat_farcalls = Map.empty,
     far_dyn_effects = Map.empty\<rparr>"

definition called_fx :: "areg set \<times> areg set \<Rightarrow> Effects" where
  "called_fx = (\<lambda>(r, w). fx (r \<union> {R_SP, R_SS}) (w \<union> {R_SP}) True True (Some 0))"

text \<open>Each later composition overrides the earlier ones.\<close>

definition site_effects :: "call_contracts \<Rightarrow> Inst \<Rightarrow> Effects" where
  "site_effects cc i =
     (let e0 = register_effects (slots cc (inst_ip i)) i;
          e1 = (case far_dyn_effects cc (inst_ip i) of
            Some net_pop \<Rightarrow> fx (all_regs \<union> {R_SP}) (all_regs - {R_SS} \<union> {R_SP}) True True (Some net_pop) | None \<Rightarrow> e0);
          e2 = (if inst_kind i = CALL_FAR then
              (case Option.bind (far_target i) (plat_farcalls cc) of
                 Some argbytes \<Rightarrow> fx (PLAT_FARCALL_REGS \<union> {R_SS, R_SP}) (PLAT_FARCALL_REGS \<union> {R_SP}) True True (Some argbytes)
               | None \<Rightarrow> e1) else e1);
          e3 = (if inst_kind i = CALL then
              (case Option.bind (inst_target i) (callee_effects cc) of Some c \<Rightarrow> called_fx c | None \<Rightarrow> e2) else e2) in
      if inst_kind i = CALL_FAR then
        (case Option.bind (far_target i) (far_callee_effects cc) of Some c \<Rightarrow> called_fx c | None \<Rightarrow> e3) else e3)"

definition effects_at :: "call_contracts \<Rightarrow> FunctionScan \<Rightarrow> int \<Rightarrow> Effects" where
  "effects_at cc s p = (case inst_at s p of Some i \<Rightarrow> site_effects cc i | None \<Rightarrow> no_effects)"

definition abi_succs :: "FunctionScan \<Rightarrow> int \<Rightarrow> int list" where
  "abi_succs s p = (case inst_at s p of None \<Rightarrow> []
     | Some i \<Rightarrow> filter (\<lambda>t. t \<in> set (inst_ips s))
         (if inst_kind i \<in> {SEQ, CALL, CALL_FAR, CALL_IND, INT_N} then [next_ip i]
          else if inst_kind i = JCC then next_ip i # (case inst_target i of Some t \<Rightarrow> [t] | None \<Rightarrow> [])
          else if inst_kind i = JMP then (case inst_target i of Some t \<Rightarrow> [t] | None \<Rightarrow> []) else []))"

section \<open>Liveness\<close>

definition clean_return :: "FunctionScan \<Rightarrow> int \<Rightarrow> bool" where
  "clean_return s p \<longleftrightarrow> (case inst_at s p of Some i \<Rightarrow> inst_kind i \<in> {RET, RETF, IRET} | None \<Rightarrow> False)"

definition all_writes :: "call_contracts \<Rightarrow> FunctionScan \<Rightarrow> areg set" where
  "all_writes cc s = (\<Union>p \<in> set (inst_ips s). writes (effects_at cc s p))"

definition seed_live :: "call_contracts \<Rightarrow> FunctionScan \<Rightarrow> int \<Rightarrow> areg set" where
  "seed_live cc s p = (if clean_return s p then all_writes cc s - {R_SP} else {})"

definition reg_live_in :: "call_contracts \<Rightarrow> FunctionScan \<Rightarrow> (int \<Rightarrow> areg set) \<Rightarrow> int \<Rightarrow> areg set" where
  "reg_live_in cc s live_out p = live_out p - writes (effects_at cc s p) \<union> reads (effects_at cc s p)"

text \<open>An exit keeps its seed.\<close>

definition reg_live_out :: "call_contracts \<Rightarrow> FunctionScan \<Rightarrow> int \<Rightarrow> (int \<Rightarrow> areg set) \<Rightarrow> areg set" where
  "reg_live_out cc s p live_out =
     (if abi_succs s p = [] then live_out p else (\<Union>t \<in> set (abi_succs s p). reg_live_in cc s live_out t))"

section \<open>Stack use\<close>

definition hides_stack :: "Effects \<Rightarrow> bool" where
  "hides_stack e \<longleftrightarrow> stack_delta e = None \<or> (case refusal e of Some (Unanalyzed_opcode _) \<Rightarrow> True | _ \<Rightarrow> False)"

definition deepen :: "int \<Rightarrow> int \<Rightarrow> (int \<Rightarrow> int option) \<times> int list \<Rightarrow> (int \<Rightarrow> int option) \<times> int list" where
  "deepen after t = (\<lambda>(depth, w). if depth t = None then (depth(t \<mapsto> after), t # w) else (depth, w))"

text \<open>The depth-first walk; \<open>None\<close> is an unknown depth.\<close>

function stack_walk ::
    "call_contracts \<Rightarrow> FunctionScan \<Rightarrow> (int \<Rightarrow> int option) \<Rightarrow> int list \<Rightarrow> int \<Rightarrow> int option" where
  "stack_walk cc s depth [] mx = Some mx"
| "stack_walk cc s depth (p # w) mx =
     (if hides_stack (effects_at cc s p) then None
      else (let here = the (depth p); after = here - the (stack_delta (effects_at cc s p)) in
        case fold (deepen after) (abi_succs s p) (depth, w) of
          (depth', w') \<Rightarrow> stack_walk cc s depth' w' (max (max mx after) here)))"
  by pat_completeness auto

lemma abi_succs_known: "t \<in> set (abi_succs s p) \<Longrightarrow> t \<in> set (inst_ips s)"
  by (auto simp only: abi_succs_def set_filter mem_Collect_eq split: option.splits) (simp_all only: list.set empty_iff)

lemma deepen_fold:
  "fold (deepen after) ts (depth, w) = (depth', w') \<Longrightarrow>
   (\<forall>p. depth p \<noteq> None \<longrightarrow> depth' p = depth p) \<and> (\<forall>p. depth p = None \<longrightarrow> depth' p = (if p \<in> set ts then Some after else None)) \<and>
   (\<exists>new. w' = new @ w \<and> distinct new \<and> set new = {t \<in> set ts. depth t = None})"
proof (induction ts arbitrary: depth w)
  case (Cons t ts)
  show ?case
  proof (cases "depth t")
    case None
    then have f: "fold (deepen after) ts (depth(t \<mapsto> after), t # w) = (depth', w')"
      using Cons.prems unfolding fold_simps o_apply by (simp only: deepen_def split_conv None simp_thms if_True)
    obtain new where new: "w' = new @ t # w" "distinct new" "set new = {u \<in> set ts. (depth(t \<mapsto> after)) u = None}"
      using Cons.IH [OF f] by blast
    have "w' = (new @ [t]) @ w \<and> distinct (new @ [t]) \<and> set (new @ [t]) = {u \<in> set (t # ts). depth u = None}"
      using new None by auto
    then show ?thesis
      using Cons.IH [OF f] None by (auto split: if_splits)
  next
    case (Some d)
    then have f: "fold (deepen after) ts (depth, w) = (depth', w')"
      using Cons.prems unfolding fold_simps o_apply by (simp only: deepen_def split_conv Some option.distinct if_False)
    show ?thesis
      using Cons.IH [OF f] Some by auto
  qed
qed simp

lemma stack_walk_smaller:
  assumes "fold (deepen after) (abi_succs s p) (depth, w) = (depth', w')"
  shows "card (set (inst_ips s) - dom depth') < card (set (inst_ips s) - dom depth) \<or> depth' = depth \<and> w' = w"
proof -
  note D = deepen_fold [OF assms]
  obtain new where new: "w' = new @ w" "set new = {t \<in> set (abi_succs s p). depth t = None}"
    using D by blast
  show ?thesis
  proof (cases "new = []")
    case True
    then have none: "depth t \<noteq> None" if "t \<in> set (abi_succs s p)" for t
      using new(2) that by auto
    have "depth' q = depth q" for q
      using D none [of q] by (metis (no_types))
    then have "depth' = depth" by blast
    then show ?thesis
      using new(1) True by simp
  next
    case False
    then obtain t where t: "t \<in> set (abi_succs s p)" "depth t = None"
      using new(2) hd_in_set [OF False] by blast
    have "dom depth \<subseteq> dom depth'"
      using D by (auto simp: domIff)
    moreover have "t \<in> dom depth'"
      using D t by auto
    ultimately have "set (inst_ips s) - dom depth' \<subset> set (inst_ips s) - dom depth"
      using t abi_succs_known [OF t(1)] by auto
    then show ?thesis
      by (simp add: psubset_card_mono)
  qed
qed

termination stack_walk
proof (relation "measures [\<lambda>(cc, s, depth, w, mx). card (set (inst_ips s) - dom depth), \<lambda>(cc, s, depth, w, mx). length w]", goal_cases)
  case (2 cc s depth p w mx here after depth' w')
  from stack_walk_smaller [OF 2(4) [symmetric]] show ?case by auto
qed simp

section \<open>The report\<close>

datatype abi_tier = Leaf | Calls_only | Blocked

record AbiReport =
  abi_entry :: int
  abi_inputs :: "areg set"
  abi_outputs :: "areg set"
  reads_mem :: bool
  writes_mem :: bool
  max_stack_use :: "int option"
  abi_refusals :: "(capability \<times> int list) list"
  abi_tier_of :: abi_tier
  exit_live :: "areg set option"

text \<open>The sites of each missing capability, in the order they were met.\<close>

definition note_refusal :: "call_contracts \<Rightarrow> int \<times> Inst \<Rightarrow> (capability \<times> int list) list \<Rightarrow> (capability \<times> int list) list" where
  "note_refusal cc = (\<lambda>(p, i) rs. case refusal (site_effects cc i) of None \<Rightarrow> rs
     | Some c \<Rightarrow> AList.update c ((case map_of rs c of Some ps \<Rightarrow> ps | None \<Rightarrow> []) @ [p]) rs)"

definition tier_of :: "(capability \<times> int list) list \<Rightarrow> abi_tier" where
  "tier_of rs = (if rs = [] then Leaf else if filter (\<lambda>(c, _). c \<noteq> Call_abi_composition) rs = [] then Calls_only else Blocked)"

definition exit_live_of :: "FunctionScan \<Rightarrow> (int \<Rightarrow> areg set) \<Rightarrow> areg set option" where
  "exit_live_of s live_out =
     (let terminals = filter (\<lambda>p. abi_succs s p = []) (inst_ips s) in
      if terminals \<noteq> [] \<and> (\<forall>p \<in> set terminals. clean_return s p) then Some (\<Union>p \<in> set terminals. live_out p) else None)"

definition abi_scan :: "call_contracts \<Rightarrow> FunctionScan \<Rightarrow> AbiReport option" where
  "abi_scan cc s =
     (if inst_at s (scan_entry s) = None then None
      else map_option (\<lambda>live_out.
        let refusals = fold (note_refusal cc) (insts s) [] in
        \<lparr>abi_entry = scan_entry s, abi_inputs = reg_live_in cc s live_out (scan_entry s), abi_outputs = all_writes cc s,
         reads_mem = list_ex (\<lambda>p. mem_read (effects_at cc s p)) (inst_ips s),
         writes_mem = list_ex (\<lambda>p. mem_write (effects_at cc s p)) (inst_ips s),
         max_stack_use = stack_walk cc s (Map.empty(scan_entry s \<mapsto> 0)) [scan_entry s] 0,
         abi_refusals = refusals, abi_tier_of = tier_of refusals, exit_live = exit_live_of s live_out\<rparr>)
        (until_stable (reg_live_out cc s) (rev (sort (inst_ips s))) (seed_live cc s)))"

section \<open>The inputs\<close>

text \<open>
  A register is needed at an address if some path from there reads it before writing it, or reaches a clean
  return without writing it although the function may write it.
\<close>

inductive needed :: "call_contracts \<Rightarrow> FunctionScan \<Rightarrow> areg \<Rightarrow> int \<Rightarrow> bool" for cc s r where
  uses: "r \<in> reads (effects_at cc s p) \<Longrightarrow> needed cc s r p"
| returned: "r \<notin> writes (effects_at cc s p) \<Longrightarrow> clean_return s p \<Longrightarrow> r \<in> all_writes cc s - {R_SP} \<Longrightarrow> needed cc s r p"
| keeps: "r \<notin> writes (effects_at cc s p) \<Longrightarrow> t \<in> set (abi_succs s p) \<Longrightarrow> needed cc s r t \<Longrightarrow> needed cc s r p"

definition needed_at :: "call_contracts \<Rightarrow> FunctionScan \<Rightarrow> int \<Rightarrow> areg set" where
  "needed_at cc s p = {r. needed cc s r p}"

definition needed_behind :: "call_contracts \<Rightarrow> FunctionScan \<Rightarrow> int \<Rightarrow> areg set" where
  "needed_behind cc s p = (if clean_return s p then all_writes cc s - {R_SP} else (\<Union>t \<in> set (abi_succs s p). needed_at cc s t))"

lemma return_no_succs: "clean_return s p \<Longrightarrow> abi_succs s p = []"
proof (cases "inst_at s p")
  case (Some i)
  moreover assume "clean_return s p"
  ultimately have "inst_kind i = RET \<or> inst_kind i = RETF \<or> inst_kind i = IRET"
    by (simp add: clean_return_def)
  then show ?thesis
    by (elim disjE) (simp_all add: abi_succs_def Some)
qed (simp add: abi_succs_def)

lemma known_succs: "abi_succs s p \<noteq> [] \<Longrightarrow> p \<in> set (inst_ips s)"
proof (cases "inst_at s p")
  case (Some i)
  then show ?thesis
    by (metis list.set_map map_of_eq_None_iff option.discI)
qed (simp add: abi_succs_def)

lemma needed_local: "needed_at cc s p = reg_live_in cc s (needed_behind cc s) p"
proof (rule set_eqI)
  fix r
  show "r \<in> needed_at cc s p \<longleftrightarrow> r \<in> reg_live_in cc s (needed_behind cc s) p"
  proof
    assume "r \<in> needed_at cc s p"
    then have "needed cc s r p" by (simp add: needed_at_def)
    then show "r \<in> reg_live_in cc s (needed_behind cc s) p"
      by (cases rule: needed.cases)
        (auto simp: reg_live_in_def needed_behind_def needed_at_def dest: return_no_succs)
  next
    assume "r \<in> reg_live_in cc s (needed_behind cc s) p"
    then show "r \<in> needed_at cc s p"
      by (auto simp: reg_live_in_def needed_behind_def needed_at_def intro: needed.intros split: if_splits)
  qed
qed

lemma reg_live_in_mono: "(\<And>m. A m \<subseteq> B m) \<Longrightarrow> reg_live_in cc s A p \<subseteq> reg_live_in cc s B p"
  unfolding reg_live_in_def by blast

lemma finite_aregs: "finite (UNIV :: areg set)"
proof -
  have "(UNIV :: areg set) = {R_AX, R_CX, R_DX, R_BX, R_SP, R_BP, R_SI, R_DI, R_ES, R_CS, R_SS, R_DS}"
  proof -
    have "r \<in> {R_AX, R_CX, R_DX, R_BX, R_SP, R_BP, R_SI, R_DI, R_ES, R_CS, R_SS, R_DS}" for r
      by (cases r) simp_all
    then show ?thesis by blast
  qed
  then show ?thesis by (metis finite.emptyI finite_insert)
qed

interpretation reg_flow: dataflow "reg_live_out cc s" "rev (sort (inst_ips s))" UNIV "seed_live cc s" for cc s
proof (unfold_locales, goal_cases)
  case (1 n A B)
  then have "reg_live_in cc s A t \<subseteq> reg_live_in cc s B t" for t
    by (intro reg_live_in_mono)
  with 1 show ?case
    by (fastforce simp: reg_live_out_def)
next
  case (5 n)
  then show ?case
    using return_no_succs [of s n] by (simp add: seed_live_def reg_live_out_def)
qed (simp_all add: finite_aregs)

text \<open>The fixpoint of the loop is what is needed behind each instruction.\<close>

lemma reg_flow_exact:
  assumes "until_stable (reg_live_out cc s) (rev (sort (inst_ips s))) (seed_live cc s) = Some L"
  shows "L p = needed_behind cc s p"
proof
  obtain L' where "until_stable (reg_live_out cc s) (rev (sort (inst_ips s))) (seed_live cc s) = Some L'"
      and F: "reg_flow.fixpoint_from cc s (seed_live cc s) L'"
    using reg_flow.until_stable_fixpoint by blast
  then have "L' = L"
    using assms by simp
  note F = F [unfolded this]
  have Leq: "L q = (if abi_succs s q = [] then seed_live cc s q else (\<Union>t \<in> set (abi_succs s q). reg_live_in cc s L t))" for q
  proof (cases "abi_succs s q = []")
    case False
    then have "reg_live_out cc s q L = L q"
      using known_succs [of s q] reg_flow.fixpoint_fromD(1) [OF F, of q] by simp
    then show ?thesis
      using False by (simp add: reg_live_out_def)
  next
    case True
    have "reg_flow.solution cc s ((\<lambda>_. UNIV)(q := seed_live cc s q))"
      unfolding reg_flow.solution_def using True by (simp add: reg_live_out_def)
    then have "L \<le> (\<lambda>_. UNIV)(q := seed_live cc s q)"
      by (rule reg_flow.fixpoint_fromD(3) [OF F]) (simp add: le_fun_def)
    then have "L q \<subseteq> ((\<lambda>_. UNIV)(q := seed_live cc s q)) q"
      by (rule le_funD)
    then have "L q \<subseteq> seed_live cc s q"
      by simp
    moreover have "seed_live cc s q \<subseteq> L q"
      using reg_flow.until_stable_above [OF assms] .
    ultimately show ?thesis
      using True by auto
  qed
  have "reg_flow.solution cc s (needed_behind cc s)"
    unfolding reg_flow.solution_def
  proof
    fix n
    show "reg_live_out cc s n (needed_behind cc s) \<subseteq> needed_behind cc s n"
      using needed_local [of cc s] return_no_succs [of s n]
      by (auto simp: reg_live_out_def needed_behind_def)
  qed
  moreover have "seed_live cc s \<le> needed_behind cc s"
    by (auto simp: le_fun_def seed_live_def needed_behind_def)
  ultimately show "L p \<subseteq> needed_behind cc s p"
    using reg_flow.fixpoint_fromD(3) [OF F] by (simp add: le_fun_def)
  have "r \<in> reg_live_in cc s L q" if "needed cc s r q" for r q
    using that
  proof (induction rule: needed.induct)
    case (returned p)
    then show ?case
      using return_no_succs [of s p] Leq [of p] by (auto simp: reg_live_in_def seed_live_def)
  next
    case (keeps p t)
    then show ?case
      using Leq [of p] by (auto simp: reg_live_in_def split: if_splits)
  qed (simp add: reg_live_in_def)
  then have "needed_at cc s q \<subseteq> reg_live_in cc s L q" for q
    by (auto simp: needed_at_def)
  then show "needed_behind cc s p \<subseteq> L p"
    using Leq [of p] return_no_succs [of s p]
    by (cases "abi_succs s p = []") (auto simp: needed_behind_def seed_live_def)
qed

lemma constant_union: "S \<noteq> {} \<Longrightarrow> (\<Union>x \<in> S. c) = c"
  by auto

text \<open>
  C11: the inferred register contract is exact.  The analysis returns for every scan that holds its entry; the
  inputs are precisely the registers needed at the entry; and the exit liveness is known exactly when
  there is an end of the code and every end is a clean return, and then consists of all the outputs but
  the stack pointer, so that an output pruner that goes by it removes nothing.
\<close>

theorem abi_contract_exact:
  assumes "scan_entry s \<in> set (inst_ips s)"
  shows "\<exists>r. abi_scan cc s = Some r \<and> abi_inputs r = {x. needed cc s x (scan_entry s)} \<and> abi_outputs r = all_writes cc s
    \<and> exit_live r = (if (\<exists>p \<in> set (inst_ips s). abi_succs s p = []) \<and> (\<forall>p \<in> set (inst_ips s). abi_succs s p = [] \<longrightarrow> clean_return s p)
        then Some (abi_outputs r - {R_SP}) else None)"
proof -
  obtain L where L: "until_stable (reg_live_out cc s) (rev (sort (inst_ips s))) (seed_live cc s) = Some L"
    using reg_flow.until_stable_fixpoint by blast
  have eq: "L = needed_behind cc s"
    using reg_flow_exact [OF L] by blast
  have e: "inst_at s (scan_entry s) \<noteq> None"
    using assms by (metis list.set_map map_of_eq_None_iff)
  let ?ends = "filter (\<lambda>p. abi_succs s p = []) (inst_ips s)"
  have set_ends: "set ?ends = {p \<in> set (inst_ips s). abi_succs s p = []}"
    by (simp only: set_filter)
  have some: "?ends \<noteq> [] \<longleftrightarrow> (\<exists>p \<in> set (inst_ips s). abi_succs s p = [])"
    unfolding filter_empty_conv by blast
  have union: "(\<Union>p \<in> set ?ends. L p) = all_writes cc s - {R_SP}"
    if "?ends \<noteq> []" "\<forall>p \<in> set ?ends. clean_return s p"
  proof -
    have "L p = all_writes cc s - {R_SP}" if "p \<in> set ?ends" for p
      unfolding eq needed_behind_def by (rule if_P) (rule bspec [OF \<open>\<forall>p \<in> set ?ends. clean_return s p\<close> that])
    then have "(\<Union>p \<in> set ?ends. L p) = (\<Union>p \<in> set ?ends. all_writes cc s - {R_SP})"
      by (rule SUP_cong [OF refl])
    moreover have "set ?ends \<noteq> {}"
      using that(1) by (simp only: set_empty not_False_eq_True)
    ultimately show ?thesis
      using constant_union [of "set ?ends" "all_writes cc s - {R_SP}"] by argo
  qed
  have "exit_live_of s L = (if (\<exists>p \<in> set (inst_ips s). abi_succs s p = []) \<and> (\<forall>p \<in> set (inst_ips s). abi_succs s p = [] \<longrightarrow> clean_return s p)
      then Some (all_writes cc s - {R_SP}) else None)"
  proof -
    have "exit_live_of s L = (if ?ends \<noteq> [] \<and> (\<forall>p \<in> set ?ends. clean_return s p) then Some (all_writes cc s - {R_SP}) else None)"
    proof (cases "?ends \<noteq> [] \<and> (\<forall>p \<in> set ?ends. clean_return s p)")
      case True
      then have "exit_live_of s L = Some (\<Union>p \<in> set ?ends. L p)"
        unfolding exit_live_of_def Let_def by (rule if_P)
      moreover have "(\<Union>p \<in> set ?ends. L p) = all_writes cc s - {R_SP}"
        by (rule union) (use True in blast)+
      ultimately show ?thesis
        by (simp only: if_P [OF True])
    next
      case False
      then have "exit_live_of s L = None"
        unfolding exit_live_of_def Let_def by (rule if_not_P)
      then show ?thesis
        by (simp only: if_not_P [OF False])
    qed
    moreover have "(\<forall>p \<in> set ?ends. clean_return s p) \<longleftrightarrow> (\<forall>p \<in> set (inst_ips s). abi_succs s p = [] \<longrightarrow> clean_return s p)"
      unfolding set_ends by blast
    ultimately show ?thesis
      by (simp only: some)
  qed
  moreover have "reg_live_in cc s L (scan_entry s) = {x. needed cc s x (scan_entry s)}"
    using needed_local [of cc s "scan_entry s"] by (simp add: eq needed_at_def)
  ultimately show ?thesis
    using e L by (auto simp: abi_scan_def Let_def)
qed

text \<open>\<open>mov ax, bx; ret\<close>.\<close>

definition copy_code :: "int \<Rightarrow> int" where
  "copy_code a = (if a = 0x100 then 0x8B else 0xC3)"

definition copy_scan :: FunctionScan where
  "copy_scan = fst (walk copy_code None 16 (new_scan 0x100) [0x100])"

theorem abi_contract_exact_witness:
  "\<exists>r. abi_scan no_contracts copy_scan = Some r \<and> R_BX \<in> abi_inputs r"
proof -
  have "scan_entry copy_scan \<in> set (inst_ips copy_scan)"
    by code_simp
  from abi_contract_exact [OF this, of no_contracts]
  obtain r where "abi_scan no_contracts copy_scan = Some r"
      "abi_inputs r = {x. needed no_contracts copy_scan x (scan_entry copy_scan)}"
    by blast
  moreover have "R_BX \<in> reads (effects_at no_contracts copy_scan (scan_entry copy_scan))"
    by code_simp
  ultimately show ?thesis
    by (auto intro: needed.uses)
qed

section \<open>The stack use\<close>

definition reachable :: "FunctionScan \<Rightarrow> int set" where
  "reachable s = {(p, t). t \<in> set (abi_succs s p)}\<^sup>* `` {scan_entry s}"

lemma reachable_step: "p \<in> reachable s \<Longrightarrow> t \<in> set (abi_succs s p) \<Longrightarrow> t \<in> reachable s"
  unfolding reachable_def by (auto intro: rtrancl_into_rtrancl)

lemma reachable_least:
  assumes "scan_entry s \<in> D" and "\<forall>p \<in> D. set (abi_succs s p) \<subseteq> D"
  shows "reachable s \<subseteq> D"
proof
  fix q
  assume "q \<in> reachable s"
  then have "(scan_entry s, q) \<in> {(p, t). t \<in> set (abi_succs s p)}\<^sup>*"
    by (simp add: reachable_def)
  then show "q \<in> D"
    by (induction rule: rtrancl_induct) (use assms in auto)
qed

text \<open>\<open>h\<close>: the depth at each instruction, whatever path led there.\<close>

definition balanced :: "call_contracts \<Rightarrow> FunctionScan \<Rightarrow> (int \<Rightarrow> int) \<Rightarrow> bool" where
  "balanced cc s h \<longleftrightarrow> h (scan_entry s) = 0 \<and>
     (\<forall>p \<in> reachable s. \<forall>t \<in> set (abi_succs s p). h t = h p - the (stack_delta (effects_at cc s p)))"

definition depth_behind :: "call_contracts \<Rightarrow> FunctionScan \<Rightarrow> (int \<Rightarrow> int) \<Rightarrow> int \<Rightarrow> int" where
  "depth_behind cc s h p = h p - the (stack_delta (effects_at cc s p))"

definition within :: "call_contracts \<Rightarrow> FunctionScan \<Rightarrow> (int \<Rightarrow> int) \<Rightarrow> int \<Rightarrow> int \<Rightarrow> bool" where
  "within cc s h mx p \<longleftrightarrow> \<not> hides_stack (effects_at cc s p) \<and> h p \<le> mx \<and> depth_behind cc s h p \<le> mx"

lemma within_mono: "within cc s h mx p \<Longrightarrow> mx \<le> mx' \<Longrightarrow> within cc s h mx' p"
  by (auto simp: within_def)

lemma stack_walk_max:
  "stack_walk cc s depth w mx = Some m \<Longrightarrow> balanced cc s h \<Longrightarrow> \<forall>p d. depth p = Some d \<longrightarrow> d = h p \<and> p \<in> reachable s \<Longrightarrow>
   set w \<subseteq> dom depth \<Longrightarrow> \<forall>p \<in> dom depth - set w. within cc s h mx p \<and> set (abi_succs s p) \<subseteq> dom depth \<Longrightarrow>
   (\<exists>D. dom depth \<subseteq> D \<and> (\<forall>p \<in> D. within cc s h m p \<and> set (abi_succs s p) \<subseteq> D)) \<and>
   (m = mx \<or> (\<exists>p \<in> reachable s. m = h p \<or> m = depth_behind cc s h p))"
proof (induction cc s depth w mx rule: stack_walk.induct)
  case (1 cc s depth mx)
  then have "m = mx" "\<forall>p \<in> dom depth. within cc s h m p \<and> set (abi_succs s p) \<subseteq> dom depth"
    by simp_all
  then show ?case by blast
next
  case (2 cc s depth p w mx)
  obtain d where d: "depth p = Some d"
    using "2.prems"(4) by auto
  have hp: "d = h p" "p \<in> reachable s"
    using "2.prems"(3) d by blast+
  have nh: "\<not> hides_stack (effects_at cc s p)"
    using "2.prems"(1) by (auto split: if_splits)
  let ?after = "depth_behind cc s h p"
  obtain depth' w' where f: "fold (deepen ?after) (abi_succs s p) (depth, w) = (depth', w')" by fastforce
  note D = deepen_fold [OF f]
  obtain new where new: "w' = new @ w" "set new = {t \<in> set (abi_succs s p). depth t = None}"
    using D by blast
  let ?mx = "max (max mx ?after) (h p)"
  have here: "the (depth p) = h p" "h p - the (stack_delta (effects_at cc s p)) = ?after"
    using d hp(1) by (simp_all add: depth_behind_def)
  have run: "stack_walk cc s depth' w' ?mx = Some m"
    using "2.prems"(1) nh f here by (simp add: Let_def)
  have old: "depth q = Some x \<Longrightarrow> depth' q = Some x" for q x
    using D by (metis option.discI)
  have fresh: "depth q = None \<Longrightarrow> depth' q = (if q \<in> set (abi_succs s p) then Some ?after else None)" for q
    using D by blast
  have dom': "dom depth' = dom depth \<union> set (abi_succs s p)"
  proof (rule set_eqI)
    fix q
    show "q \<in> dom depth' \<longleftrightarrow> q \<in> dom depth \<union> set (abi_succs s p)"
      using old [of q] fresh [of q] by (cases "depth q") auto
  qed
  have ok: "\<forall>q d'. depth' q = Some d' \<longrightarrow> d' = h q \<and> q \<in> reachable s"
  proof (intro allI impI)
    fix q d'
    assume q: "depth' q = Some d'"
    show "d' = h q \<and> q \<in> reachable s"
    proof (cases "depth q")
      case None
      then have "q \<in> set (abi_succs s p)" "d' = ?after"
        using fresh q by (auto split: if_splits)
      then show ?thesis
        using "2.prems"(2) hp(2) reachable_step [OF hp(2)] by (simp add: balanced_def depth_behind_def)
    next
      case (Some x)
      then show ?thesis
        using old q "2.prems"(3) by simp
    qed
  qed
  have todo: "set w' \<subseteq> dom depth'"
    using "2.prems"(4) new dom' by auto
  have pw: "within cc s h ?mx p"
    using nh by (simp add: within_def)
  have kept: "\<forall>q \<in> dom depth' - set w'. within cc s h ?mx q \<and> set (abi_succs s q) \<subseteq> dom depth'"
  proof
    fix q
    assume q: "q \<in> dom depth' - set w'"
    then have "q \<in> dom depth"
      using new dom' by auto
    show "within cc s h ?mx q \<and> set (abi_succs s q) \<subseteq> dom depth'"
    proof (cases "q = p")
      case False
      then have "q \<in> dom depth - set (p # w)"
        using q \<open>q \<in> dom depth\<close> new(1) by auto
      then have "within cc s h mx q" "set (abi_succs s q) \<subseteq> dom depth"
        using "2.prems"(5) by blast+
      then show ?thesis
        using within_mono [of cc s h mx q ?mx] dom' by auto
    qed (use pw dom' in simp)
  qed
  have IH: "(\<exists>D. dom depth' \<subseteq> D \<and> (\<forall>p \<in> D. within cc s h m p \<and> set (abi_succs s p) \<subseteq> D)) \<and>
      (m = ?mx \<or> (\<exists>p \<in> reachable s. m = h p \<or> m = depth_behind cc s h p))"
    using "2.IH" [OF nh refl refl, unfolded here, OF f [symmetric] run "2.prems"(2) ok todo kept] .
  obtain D' where D': "dom depth' \<subseteq> D'" "\<forall>p \<in> D'. within cc s h m p \<and> set (abi_succs s p) \<subseteq> D'"
    using conjunct1 [OF IH] by (elim exE conjE)
  show ?case
  proof
    have "dom depth \<subseteq> D'"
      using D'(1) dom' by simp
    then show "\<exists>D. dom depth \<subseteq> D \<and> (\<forall>p \<in> D. within cc s h m p \<and> set (abi_succs s p) \<subseteq> D)"
      using D'(2) by (intro exI conjI)
    have "?mx = mx \<or> ?mx = h p \<or> ?mx = ?after"
      by (simp add: max_def)
    then have "m = ?mx \<Longrightarrow> m = mx \<or> m = h p \<or> m = ?after"
      by (elim disjE) simp_all
    with conjunct2 [OF IH] show "m = mx \<or> (\<exists>p \<in> reachable s. m = h p \<or> m = depth_behind cc s h p)"
      using hp(2) by (elim disjE) blast+
  qed
qed

text \<open>
  C17: a stack use the analysis reports is the deepest net push of a function whose pushes and pops balance:
  every instruction reachable from the entry has a known stack effect, no path is ever deeper before or
  behind an instruction, and the reported depth is reached.
\<close>

theorem max_stack_use_exact:
  assumes "abi_scan cc s = Some r" and "max_stack_use r = Some m" and "balanced cc s h"
  shows "(\<forall>p \<in> reachable s. \<not> hides_stack (effects_at cc s p) \<and> h p \<le> m \<and> depth_behind cc s h p \<le> m)
    \<and> (\<exists>p \<in> reachable s. m = h p \<or> m = depth_behind cc s h p)"
proof -
  let ?e = "scan_entry s"
  have run: "stack_walk cc s (Map.empty(?e \<mapsto> 0)) [?e] 0 = Some m"
    using assms(1,2) by (auto simp: abi_scan_def Let_def split: if_splits)
  have e: "?e \<in> reachable s" "h ?e = 0"
    using assms(3) by (auto simp: reachable_def balanced_def)
  have "\<forall>p d. (Map.empty(?e \<mapsto> 0)) p = Some d \<longrightarrow> d = h p \<and> p \<in> reachable s" "set [?e] \<subseteq> dom (Map.empty(?e \<mapsto> 0 :: int))"
    "\<forall>p \<in> dom (Map.empty(?e \<mapsto> 0 :: int)) - set [?e]. within cc s h 0 p \<and> set (abi_succs s p) \<subseteq> dom (Map.empty(?e \<mapsto> 0 :: int))"
    using e by auto
  note M = stack_walk_max [OF run assms(3) this]
  obtain D where D: "?e \<in> D" "\<forall>p \<in> D. within cc s h m p \<and> set (abi_succs s p) \<subseteq> D"
    using M by auto
  have "reachable s \<subseteq> D"
    by (rule reachable_least) (use D in auto)
  then have "\<forall>p \<in> reachable s. within cc s h m p"
    using D(2) by blast
  moreover have "\<exists>p \<in> reachable s. m = h p \<or> m = depth_behind cc s h p"
    using M e by metis
  ultimately show ?thesis
    by (simp add: within_def)
qed

text \<open>\<open>push ax; pop ax; ret\<close>.\<close>

definition push_code :: "int \<Rightarrow> int" where
  "push_code a = (if a = 0x100 then 0x50 else if a = 0x101 then 0x58 else 0xC3)"

definition push_scan :: FunctionScan where
  "push_scan = fst (walk push_code None 16 (new_scan 0x100) [0x100])"

definition push_depth :: "int \<Rightarrow> int" where
  "push_depth p = (if p = 0x101 then 2 else 0)"

theorem max_stack_use_exact_witness:
  "\<exists>p \<in> reachable push_scan. 2 = push_depth p \<or> 2 = depth_behind no_contracts push_scan push_depth p"
proof -
  have e: "scan_entry push_scan = 0x100" "inst_at push_scan 0x100 \<noteq> None"
    by code_simp+
  have succ: "abi_succs push_scan 0x100 = [0x101]" "abi_succs push_scan 0x101 = [0x102]" "abi_succs push_scan 0x102 = []"
    by code_simp+
  have delta: "stack_delta (effects_at no_contracts push_scan 0x100) = Some (- 2)"
    "stack_delta (effects_at no_contracts push_scan 0x101) = Some 2"
    by code_simp+
  have sub: "reachable push_scan \<subseteq> {0x100, 0x101, 0x102}"
    by (rule reachable_least) (simp_all add: e succ)
  have bal: "balanced no_contracts push_scan push_depth"
    unfolding balanced_def
  proof (intro conjI ballI)
    show "push_depth (scan_entry push_scan) = 0"
      by (simp add: push_depth_def e)
    fix p t
    assume "p \<in> reachable push_scan" and t: "t \<in> set (abi_succs push_scan p)"
    then have "p = 0x100 \<or> p = 0x101 \<or> p = 0x102"
      using sub by blast
    then show "push_depth t = push_depth p - the (stack_delta (effects_at no_contracts push_scan p))"
      using t by (elim disjE) (simp_all add: succ delta push_depth_def)
  qed
  have "stack_walk no_contracts push_scan (Map.empty(0x100 \<mapsto> 0)) [0x100] 0 = Some 2"
    by code_simp
  moreover obtain L where "until_stable (reg_live_out no_contracts push_scan) (rev (sort (inst_ips push_scan)))
      (seed_live no_contracts push_scan) = Some L"
    using reg_flow.until_stable_fixpoint by blast
  ultimately obtain r where "abi_scan no_contracts push_scan = Some r" "max_stack_use r = Some 2"
    using e by (simp add: abi_scan_def Let_def)
  from max_stack_use_exact [OF this bal] show ?thesis
    by blast
qed

end
