(* ===== verification/Spec2Isabelle.thy ===== *)
theory Spec2Isabelle
  imports CPU_Stack Pic Keyboard Regions Features Mz Dos_Bios Interrupts Decode_Interp
    Dos_Int21 Sound_Card CPU386_Bulk CPU386_Shift CPU386_Run
    Decode32_Interp Cfg32 Flag_Model Abi_Scan
begin

text \<open>
  \<^bold>\<open>dos_re: an interpreter for real-mode DOS programs and the tools around it.\<close>

  The program runs a DOS game on an interpreted 8086 (\<open>cpu.py\<close>, \<open>memory.py\<close>, \<open>x86.py\<close>) with the
  parts of a PC and of DOS the game needs (\<open>dos.py\<close>, \<open>pic.py\<close>, \<open>interrupts.py\<close>, \<open>keyboard.py\<close>,
  \<open>mz.py\<close>), and replaces the interpreted code piece by piece: a static decoder and lifter
  (\<open>lift/\<close>), regions of replaced code (\<open>regions.py\<close>), features that change during a replay
  (\<open>features.py\<close>).  The interpreter is the oracle everything else is compared with, so its
  behaviour is the core of this development.

  \<^bold>\<open>How the parts interact.\<close>  A program loaded by \<open>load_mz_program\<close> runs by \<open>step\<close>: take a pending
  interrupt, call a hook for the address, or read prefixes and execute one opcode.  INT, IN and OUT
  leave the CPU through callbacks; \<open>create_runtime\<close> installs those of the DOS machine.  The
  handlers work on the CPU's own registers and memory, so the state of a method is the whole
  \<open>dos cpu\<close>: the registers and memory, and the DOS machine as its \<open>world\<close>.  Keys and timer ticks
  arrive between steps through \<open>deliver_interrupt\<close>, which runs the program's handler to its IRET.

  \<^bold>\<open>Conventions.\<close>  A Python integer is an \<open>int\<close> with its masks written out, a byte of memory an
  \<open>8 word\<close>.  A method is a function from the state to a result and a state,
  \<open>'s \<Rightarrow> (exn + 'a) \<times> 's\<close> (theory \<open>Prelude\<close>): an exception is a value \<open>Inl\<close>, and the state it leaves
  is kept, as Python keeps it.  Floating-point arithmetic of the host, the device behind the
  sound ports, the host clock and the host's file system are parameters (\<open>float_ops\<close>, \<open>io_host\<close>,
  \<open>file_host\<close>, \<open>clock\<close>); \<open>Sound_Card\<close> plugs the Sound Blaster into the sound ports.
  Trace text and exception messages are left out.

  \<^bold>\<open>Theories and what their lemmas show.\<close>
  \<^item> \<open>Prelude\<close>: exceptions, the method monad, masks and shifts, and the locale \<open>state_invariant\<close> in
    which ``every operation preserves the invariant'' is proved operation by operation.
  \<^item> \<open>X86\<close>, \<open>Mem\<close>, \<open>Mem_Bulk\<close>, \<open>Mem_Wf\<close> (\<open>x86.py\<close>, \<open>memory.py\<close>): register file, memory with BIOS ROM,
    EGA planes, selectors and watchers.  The block operations equal the byte loops they replace.
  \<^item> \<open>CPU\<close>, \<open>CPU_Env\<close>, \<open>CPU_Alu\<close>, \<open>CPU_Shift\<close>, \<open>CPU_FPU\<close>, \<open>CPU_String\<close>, \<open>CPU_Exec\<close>, \<open>CPU_Step\<close>
    (\<open>cpu.py\<close>): all of \<open>CPU8086\<close>.  Closed-form shifts equal the bit loop, the REP fast path is never
    observable, conditional jumps after CMP decide the relation they are named for.
  \<^item> \<open>CPU_Wf\<close>, \<open>CPU_Run\<close>, \<open>CPU_Stack\<close>: the type invariant over every opcode, termination and result of
    the prefix loop, the stack as an abstract stack of words and the round trips CALL/RET,
    PUSHA/POPA, interrupt entry/IRET.
  \<^item> \<open>Pic\<close>, \<open>Keyboard\<close>, \<open>Interrupts\<close> (\<open>pic.py\<close>, \<open>keyboard.py\<close>, \<open>interrupts.py\<close>, \<open>runtime_core.py\<close>): the
    interrupt controller as a state machine, scan codes that alternate make and break, delivery of
    an interrupt to a handler and back.
  \<^item> \<open>Dos_State\<close>, \<open>Dos_Bios\<close>, \<open>Dos_Text\<close>, \<open>Dos_Video\<close>, \<open>Dos_Ports\<close>, \<open>Dos_Memory\<close>, \<open>Dos_Files\<close>,
    \<open>Dos_Int21\<close> (\<open>dos.py\<close>, \<open>runtime.py\<close>): the DOS machine.  Memory calls refine first-fit allocation,
    file calls an abstract file; port routing equals the fan-out to every device; an INT instruction
    of the wired CPU is the service of the machine.
  \<^item> \<open>Mz\<close>, \<open>Regions\<close>, \<open>Features\<close> (\<open>mz.py\<close>, \<open>regions.py\<close>, \<open>features.py\<close>): loader, region dispatcher and
    feature queue, whose list objects are a store because the queue is iterated while it is extended.
  \<^item> \<open>Sblaster\<close>, \<open>Sound_Card\<close> (\<open>sblaster.py\<close>): the Sound Blaster's command state machine, its DMA channels and
    saved state.  The bytes written to the command port are the commands they spell; auto-initialised
    playback goes round the ring; a saved card is restored.
  \<^item> \<open>Doubles\<close>, \<open>Flat_Mem\<close>, \<open>Flat_Ram\<close>, \<open>CPU386\<close>, \<open>CPU386_Alu\<close>, \<open>CPU386_Arith\<close>, \<open>CPU386_Shift\<close>, \<open>CPU386_String\<close>,
    \<open>CPU386_Bulk\<close>, \<open>CPU386_FPU\<close>, \<open>CPU386_Exec\<close>, \<open>CPU386_Step\<close>, \<open>CPU386_Run\<close> (\<open>cpu386.py\<close>, the planar VGA of
    \<open>dos4gw.py\<close>): the 32-bit interpreter over a flat memory.  Its arithmetic agrees with the 16-bit one, its
    shifts with the bit loop, its REP fast path with the element loop; interrupt entry and IRETD round trip.
  \<^item> \<open>Decode\<close>, \<open>Decode_Interp\<close>, \<open>Decode32\<close>, \<open>Decode32_Interp\<close> (\<open>lift/decode.py\<close>, \<open>lift/decode32.py\<close>): the static decoders,
    their bounds, and their agreement with the interpreters on prefixes and ModRM operands.
  \<^item> \<open>Worklist\<close>, \<open>Cfg\<close>, \<open>Cfg32\<close> (\<open>lift/cfg.py\<close>, \<open>lift/cfg32.py\<close>): the scans of a function's code.  \<open>Worklist\<close> states the
    contract of one visit as the locale \<open>explorer\<close>; both scans interpret it, so that a liftable scan is
    exactly the reachable code.  Termination of the 16-bit scan with its manufactured returns.
  \<^item> \<open>Reg_Effects\<close>, \<open>Dataflow\<close>, \<open>Abi_Scan\<close>, \<open>Flag_Live\<close>, \<open>Flag_Model\<close> (\<open>lift/cpuless.py\<close>, \<open>lift/analyze.py\<close>): the effects of an
    instruction on registers and flags, and the two backward analyses.  \<open>Dataflow\<close> has the loop both
    run and the locale \<open>dataflow\<close> that gives its least fixpoint; each analysis is proved exact against an
    inductive definition over paths, and the flag effects against the interpreter's arithmetic.

  \<^bold>\<open>Bounds and fuel.\<close>  The prefix loop of \<open>step\<close> has no bound in the code and is a
  \<open>partial_function\<close>; when it returns is proved.  \<open>run\<close> and the delivery loop count down the number of
  steps the code gives them.  The loop of \<open>apply_pending\<close> follows a list its callback may extend and is
  partial too; it returns for every callback that queues finitely many changes.  Every other loop of the code is structural recursion or has a
  termination proof, except the loops of the lifter that follow fallthroughs (\<open>block_walk\<close>, \<open>return_window\<close>,
  \<open>block_body\<close>, \<open>scan_rounds\<close>): they can run for ever on instructions of more than fifteen bytes, are partial
  functions, and return under that bound.

  \<^bold>\<open>Not modelled.\<close>  The emitters of \<open>lift/\<close> print Python source, whose correctness needs a semantics of
  Python; the player, replay, snapshot and report drivers are I/O, JSON and hashing around the machine;
  OPL synthesis and rendering are floating point and numpy.  The services of the DOS/4GW host, the
  LE loader, hooks and the execution planner are left out of this version.
\<close>

end
